(* ===== verification/Prelude.thy ===== *)
theory Prelude
  imports Main "HOL-Library.Word" "HOL-Library.List_Lexorder" "HOL-Library.Char_ord"
    "HOL-Library.State_Monad"
begin

text \<open>
  What every component shares.  A Go string is a byte string, so it is Isabelle's
  \<open>string\<close> (a list of 8-bit characters); \<open>len\<close> counts bytes in both.  Byte order on
  strings is the lexicographic order of \<open>List_Lexorder\<close> over \<open>Char_ord\<close>, which is the
  order of \<open>slices.Sorted\<close> and \<open>strings.Compare\<close>.  A \<open>uint64\<close> is a \<open>64 word\<close>.
  Collections: \<open>vocab\<close> holds the defining equations of the closed string vocabularies and
  member names, so that \<open>simp add: vocab\<close> decides any comparison of two of them.
\<close>

named_theorems vocab \<open>closed vocabularies and member names as literals\<close>

type_synonym u64 = "64 word"

section \<open>Lists addressed by an identity\<close>

text \<open>Updating one element leaves the other identities alone.\<close>

lemma map_update_same [simp]:
  "i < length xs \<Longrightarrow> f y = f (xs ! i) \<Longrightarrow> map f (xs[i := y]) = map f xs"
  by (metis list_update_id map_update nth_map)

lemma list_update_set_cases:
  "x \<in> set (xs[i := y]) \<Longrightarrow> x = y \<or> x \<in> set xs"
  using set_update_subset_insert by fastforce

lemma in_set_list_update_other:
  "x \<in> set xs \<Longrightarrow> i < length xs \<Longrightarrow> x \<noteq> xs ! i \<Longrightarrow> x \<in> set (xs[i := y])"
  by (metis in_set_conv_nth length_list_update nth_list_update_neq)

lemma distinct_map_eqD:
  "distinct (map f xs) \<Longrightarrow> x \<in> set xs \<Longrightarrow> y \<in> set xs \<Longrightarrow> f x = f y \<Longrightarrow> x = y"
  by (simp add: distinct_map inj_on_def)

text \<open>Lookup in an object's members: the last of two members with one name is the one a
  Go map keeps.\<close>

definition lookup :: "('k \<times> 'v) list \<Rightarrow> 'k \<Rightarrow> 'v option" where
  "lookup ms k = map_of (rev ms) k"

lemma lookup_Nil [simp]: "lookup [] k = None"
  by (simp add: lookup_def)

lemma lookup_append:
  "lookup (xs @ ys) k = (case lookup ys k of None \<Rightarrow> lookup xs k | Some v \<Rightarrow> Some v)"
  by (simp add: lookup_def map_add_def split: option.split)

lemma lookup_Cons:
  "lookup ((a, b) # ms) k =
     (case lookup ms k of None \<Rightarrow> if k = a then Some b else None | Some v \<Rightarrow> Some v)"
  by (simp add: lookup_def map_add_def split: option.split)

lemma lookup_mem: "lookup ms k = Some v \<Longrightarrow> (k, v) \<in> set ms"
  by (metis lookup_def map_of_SomeD set_rev)

lemma lookup_None_iff: "lookup ms k = None \<longleftrightarrow> k \<notin> fst ` set ms"
  by (simp add: lookup_def map_of_eq_None_iff)

lemma lookup_distinct:
  "distinct (map fst ms) \<Longrightarrow> (k, v) \<in> set ms \<Longrightarrow> lookup ms k = Some v"
  by (simp add: lookup_def rev_map[symmetric])

lemma lookup_map_of: "distinct (map fst ms) \<Longrightarrow> lookup ms k = map_of ms k"
  by (metis lookup_distinct lookup_mem lookup_None_iff map_of_SomeD map_of_eq_None_iff
      not_None_eq)

section \<open>Decimal integers\<close>

text \<open>What \<open>strconv\<close> prints and reads: the digits of a number without leading zeros, and
  the value of a digit string.\<close>

definition digit_char :: "nat \<Rightarrow> char" where
  "digit_char d = char_of (48 + d)"

definition is_digit :: "char \<Rightarrow> bool" where
  "is_digit c \<longleftrightarrow> 48 \<le> (of_char c :: nat) \<and> (of_char c :: nat) \<le> 57"

fun show_nat :: "nat \<Rightarrow> string" where
  "show_nat n = (if n < 10 then [digit_char n] else show_nat (n div 10) @ [digit_char (n mod 10)])"

declare show_nat.simps [simp del]

lemma show_nat_length: "n < 10 ^ Suc k \<Longrightarrow> length (show_nat n) \<le> Suc k"
proof (induction k arbitrary: n)
  case 0
  then show ?case by (subst show_nat.simps) simp
next
  case (Suc k)
  show ?case
  proof (cases "n < 10")
    case True
    then show ?thesis by (subst show_nat.simps) simp
  next
    case False
    have "n div 10 < 10 ^ Suc k" using Suc.prems by (simp add: div_less_iff_less_mult)
    from Suc.IH[OF this] False show ?thesis by (subst show_nat.simps) simp
  qed
qed

definition show_int :: "int \<Rightarrow> string" where
  "show_int i = (if i < 0 then ''-'' @ show_nat (nat (- i)) else show_nat (nat i))"

definition digits_value :: "string \<Rightarrow> nat" where
  "digits_value s = foldl (\<lambda>acc c. acc * 10 + (of_char c - 48)) 0 s"

definition read_nat :: "string \<Rightarrow> nat option" where
  "read_nat s = (if s \<noteq> [] \<and> list_all is_digit s then Some (digits_value s) else None)"

text \<open>\<open>ParseUint\<close> and \<open>ParseInt\<close> in base 10 on a number lexeme: a sign is refused by
  the first, and a value outside the 64-bit range by both.\<close>

definition parse_uint :: "string \<Rightarrow> nat option" where
  "parse_uint s = (case read_nat s of None \<Rightarrow> None
     | Some n \<Rightarrow> if n < 2 ^ 64 then Some n else None)"

definition parse_int :: "string \<Rightarrow> int option" where
  "parse_int s =
     (case (if take 1 s = ''-'' then map_option (\<lambda>n. - int n) (read_nat (drop 1 s))
            else if take 1 s = ''+'' then map_option int (read_nat (drop 1 s))
            else map_option int (read_nat s)) of
        None \<Rightarrow> None
      | Some i \<Rightarrow> if - (2 ^ 63) \<le> i \<and> i < 2 ^ 63 then Some i else None)"

lemma of_char_digit_char [simp]: "d < 10 \<Longrightarrow> (of_char (digit_char d) :: nat) = 48 + d"
  by (simp add: digit_char_def)

lemma is_digit_digit_char [simp]: "d < 10 \<Longrightarrow> is_digit (digit_char d)"
  by (simp add: is_digit_def)

lemma digits_value_snoc [simp]: "digits_value (s @ [c]) = digits_value s * 10 + (of_char c - 48)"
  by (simp add: digits_value_def)

lemma show_nat_digits: "show_nat n \<noteq> [] \<and> list_all is_digit (show_nat n)"
proof (induction n rule: show_nat.induct)
  case (1 n)
  then show ?case by (subst (1 2) show_nat.simps) auto
qed

lemma digits_value_show_nat [simp]: "digits_value (show_nat n) = n"
proof (induction n rule: show_nat.induct)
  case (1 n)
  show ?case
  proof (cases "n < 10")
    case True
    then show ?thesis by (subst show_nat.simps) (simp add: digits_value_def)
  next
    case False
    with 1 show ?thesis by (subst show_nat.simps) simp
  qed
qed

lemma read_nat_show_nat [simp]: "read_nat (show_nat n) = Some n"
  by (simp add: read_nat_def show_nat_digits)

lemma show_nat_inj [simp]: "show_nat m = show_nat n \<longleftrightarrow> m = n"
  by (metis digits_value_show_nat)

lemma parse_uint_show_nat: "n < 2 ^ 64 \<Longrightarrow> parse_uint (show_nat n) = Some n"
  by (simp add: parse_uint_def)

lemma show_nat_not_sign: "take 1 (show_nat n) \<noteq> ''-''" "take 1 (show_nat n) \<noteq> ''+''"
proof -
  have "list_all is_digit (show_nat n)" "show_nat n \<noteq> []"
    using show_nat_digits by auto
  then show "take 1 (show_nat n) \<noteq> ''-''" "take 1 (show_nat n) \<noteq> ''+''"
    by (cases "show_nat n"; auto simp: is_digit_def)+
qed

lemma parse_int_show_nat: "n < 2 ^ 63 \<Longrightarrow> parse_int (show_nat n) = Some (int n)"
  using show_nat_not_sign[of n] by (simp add: parse_int_def del: take_Cons')

section \<open>Checks in sequence\<close>

text \<open>\<open>if err := check(); err != nil { return err }\<close> on a state that the check may have
  changed: the first refusal ends the sequence and keeps the state it left.\<close>

definition and_then :: "('e option \<times> 's) \<Rightarrow> ('s \<Rightarrow> 'e option \<times> 's) \<Rightarrow> 'e option \<times> 's" where
  "and_then c k = (case fst c of None \<Rightarrow> k (snd c) | Some e \<Rightarrow> c)"

lemma and_then_ok [simp]: "and_then (None, s) k = k s"
  by (simp add: and_then_def)

lemma and_then_refused [simp]: "and_then (Some e, s) k = (Some e, s)"
  by (simp add: and_then_def)

lemma and_then_NoneE:
  assumes "and_then c k = (None, t)"
  obtains s where "c = (None, s)" and "k s = (None, t)"
  using assms by (cases c) (auto simp: and_then_def split: option.splits)

lemma and_then_SomeE:
  assumes "and_then c k = (Some e, t)"
  obtains "c = (Some e, t)" | s where "c = (None, s)" and "k s = (Some e, t)"
  using assms by (cases c) (auto simp: and_then_def split: option.splits)

end
