(* ===== verification/Json.thy ===== *)
theory Json
  imports Prelude
begin

text \<open>
  The part of \<open>encoding/json\<close> and \<open>unicode/utf8\<close> the sources use.  A \<open>json.RawMessage\<close> is
  modelled by the document it spells (type \<open>json\<close> below), with number lexemes kept as
  written and the members of an object in document order, duplicates included; a nil or
  empty one by \<open>None\<close>.  The one thing the sources read of a raw message beside its document
  is the number of bytes of an object's text, which \<open>JObj\<close> records.  Text that is not one
  valid JSON document is \<open>None\<close> where a document is expected.
\<close>

section \<open>Documents\<close>

datatype json =
    JNull
  | JBool bool
  | JNum string            \<comment> \<open>the lexeme\<close>
  | JStr string            \<comment> \<open>the decoded bytes\<close>
  | JArr "json list"
  | JObj "nat \<times> nat" "(string \<times> json) list"   \<comment> \<open>bytes of its text and of its compact text, members in order\<close>

type_synonym members = "(string \<times> json) list"

text \<open>\<open>json.Unmarshal\<close> into the target types the sources use.  JSON null leaves the target
  at its zero value without an error; a map target stays nil.\<close>

fun unmarshal_string :: "json \<Rightarrow> string option" where
  "unmarshal_string (JStr s) = Some s"
| "unmarshal_string JNull = Some []"
| "unmarshal_string _ = None"

fun unmarshal_bool :: "json \<Rightarrow> bool option" where
  "unmarshal_bool (JBool b) = Some b"
| "unmarshal_bool JNull = Some False"
| "unmarshal_bool _ = None"

fun unmarshal_int :: "json \<Rightarrow> int option" where
  "unmarshal_int (JNum l) = parse_int l"
| "unmarshal_int JNull = Some 0"
| "unmarshal_int _ = None"

fun unmarshal_uint64 :: "json \<Rightarrow> u64 option" where
  "unmarshal_uint64 (JNum l) = map_option word_of_nat (parse_uint l)"
| "unmarshal_uint64 JNull = Some 0"
| "unmarshal_uint64 _ = None"

fun unmarshal_array :: "json \<Rightarrow> json list option" where
  "unmarshal_array (JArr xs) = Some xs"
| "unmarshal_array JNull = Some []"
| "unmarshal_array _ = None"

section \<open>UTF-8\<close>

definition cont_byte :: "nat \<Rightarrow> bool" where
  "cont_byte b \<longleftrightarrow> 128 \<le> b \<and> b < 192"

text \<open>The length of the well-formed UTF-8 sequence at the head of a byte string, or 0.\<close>

definition utf8_second :: "nat \<Rightarrow> nat \<Rightarrow> bool" where
  "utf8_second a b =
     (if a = 224 then 160 \<le> b \<and> b < 192
      else if a = 237 then 128 \<le> b \<and> b < 160
      else if a = 240 then 144 \<le> b \<and> b < 192
      else if a = 244 then 128 \<le> b \<and> b < 144
      else cont_byte b)"

definition utf8_head :: "nat list \<Rightarrow> nat" where
  "utf8_head bs =
     (case bs of [] \<Rightarrow> 0
      | a # r \<Rightarrow>
        if a < 128 then 1
        else if 194 \<le> a \<and> a < 224 then (case r of b # _ \<Rightarrow> if cont_byte b then 2 else 0 | [] \<Rightarrow> 0)
        else if 224 \<le> a \<and> a < 240 then
          (case r of b # c # _ \<Rightarrow> if utf8_second a b \<and> cont_byte c then 3 else 0 | _ \<Rightarrow> 0)
        else if 240 \<le> a \<and> a < 245 then
          (case r of b # c # d # _ \<Rightarrow> if utf8_second a b \<and> cont_byte c \<and> cont_byte d then 4 else 0 | _ \<Rightarrow> 0)
        else 0)"

definition utf8_len :: "string \<Rightarrow> nat" where
  "utf8_len s = utf8_head (map of_char (take 4 s))"

definition rune_error :: string where
  "rune_error = [char_of (239::nat), char_of (191::nat), char_of (189::nat)]"

lemma utf8_head_le: "utf8_head bs \<le> length bs"
  by (simp add: utf8_head_def split: list.split)

lemma utf8_len_le: "utf8_len s \<le> length s"
  using utf8_head_le[of "map of_char (take 4 s)"] by (simp add: utf8_len_def)

text \<open>The JSON encoder writes each byte that starts no well-formed sequence as U+FFFD.\<close>

function coerce_utf8 :: "string \<Rightarrow> string" where
  "coerce_utf8 s =
     (if s = [] then []
      else if utf8_len s = 0 then rune_error @ coerce_utf8 (tl s)
      else take (utf8_len s) s @ coerce_utf8 (drop (utf8_len s) s))"
  by pat_completeness auto
termination
  by (relation "measure length") auto

declare coerce_utf8.simps [simp del]

function valid_utf8 :: "string \<Rightarrow> bool" where
  "valid_utf8 s =
     (if s = [] then True
      else if utf8_len s = 0 then False else valid_utf8 (drop (utf8_len s) s))"
  by pat_completeness auto
termination
  by (relation "measure length") auto

declare valid_utf8.simps [simp del]

lemma coerce_utf8_Nil [simp]: "coerce_utf8 [] = []"
  by (simp add: coerce_utf8.simps)

lemma valid_utf8_Nil [simp]: "valid_utf8 []"
  by (simp add: valid_utf8.simps)

lemma coerce_utf8_valid: "valid_utf8 s \<Longrightarrow> coerce_utf8 s = s"
proof (induction s rule: valid_utf8.induct)
  case (1 s)
  show ?case
  proof (cases "s = []")
    case False
    with "1.prems" have len: "utf8_len s \<noteq> 0"
      by (simp add: valid_utf8.simps [of s] split: if_splits)
    with False "1.prems" have "valid_utf8 (drop (utf8_len s) s)"
      by (simp add: valid_utf8.simps [of s])
    with "1.IH" False len have "coerce_utf8 (drop (utf8_len s) s) = drop (utf8_len s) s"
      by simp
    with False len show ?thesis by (simp add: coerce_utf8.simps [of s])
  qed simp
qed

definition ascii :: "string \<Rightarrow> bool" where
  "ascii s \<longleftrightarrow> list_all (\<lambda>c. (of_char c :: nat) < 128) s"

lemma ascii_valid_utf8: "ascii s \<Longrightarrow> valid_utf8 s"
proof (induction s)
  case (Cons c s)
  then have "utf8_len (c # s) = 1" "valid_utf8 s"
    by (auto simp: ascii_def utf8_len_def utf8_head_def)
  then show ?case by (simp add: valid_utf8.simps [of "c # s"])
qed simp

lemma ascii_append [simp]: "ascii (s @ t) \<longleftrightarrow> ascii s \<and> ascii t"
  by (simp add: ascii_def)

section \<open>Encoding\<close>

text \<open>
  \<open>json.Marshal\<close> of a value built from maps, slices, strings, booleans and integers: a
  map's members are written in key order, strings as valid UTF-8, and the text is compact
  with HTML characters escaped.  \<open>enc_len\<close> is the length of that text.
\<close>

definition esc_byte :: "nat \<Rightarrow> nat" where
  "esc_byte a =
     (if a = 34 \<or> a = 92 \<or> a = 8 \<or> a = 9 \<or> a = 10 \<or> a = 12 \<or> a = 13 then 2
      else if a < 32 \<or> a = 60 \<or> a = 62 \<or> a = 38 then 6 else 1)"

text \<open>U+2028 and U+2029, the bytes E2 80 A8 and E2 80 A9, are escaped as six bytes.\<close>

fun esc_len :: "nat list \<Rightarrow> nat" where
  "esc_len (a # b # c # r) =
     (if a = 226 \<and> b = 128 \<and> (c = 168 \<or> c = 169) then 6 + esc_len r
      else esc_byte a + esc_len (b # c # r))"
| "esc_len (a # r) = esc_byte a + esc_len r"
| "esc_len [] = 0"

definition enc_string_len :: "string \<Rightarrow> nat" where
  "enc_string_len s = 2 + esc_len (map of_char s)"

fun enc_len :: "json \<Rightarrow> nat" where
  "enc_len JNull = 4"
| "enc_len (JBool b) = (if b then 4 else 5)"
| "enc_len (JNum l) = length l"
| "enc_len (JStr s) = enc_string_len s"
| "enc_len (JArr xs) = 2 + sum_list (map enc_len xs) + (length xs - 1)"
| "enc_len (JObj n ms) = snd n"

definition obj_len :: "members \<Rightarrow> nat" where
  "obj_len ms = 2 + sum_list (map (\<lambda>(k, v). enc_string_len k + 1 + enc_len v) ms) + (length ms - 1)"

definition json_str :: "string \<Rightarrow> json" where
  "json_str s = JStr (coerce_utf8 s)"

definition json_uint :: "nat \<Rightarrow> json" where
  "json_uint n = JNum (show_nat n)"

text \<open>A Go \<open>map[string]any\<close> under construction is a list of members with distinct names;
  marshalling sorts it.\<close>

definition json_obj :: "members \<Rightarrow> json" where
  "json_obj ms = (let ms' = sort_key fst ms in JObj (obj_len ms', obj_len ms') ms')"

text \<open>A raw message spliced into a value: the encoder drops the spaces between its tokens and
  escapes the HTML characters in its strings, which changes the bytes of the text and not the
  document.\<close>

fun compacted :: "json \<Rightarrow> json" where
  "compacted (JArr xs) = JArr (map compacted xs)"
| "compacted (JObj n ms) = JObj (snd n, snd n) (map (\<lambda>(k, v). (k, compacted v)) ms)"
| "compacted j = j"

definition spliced :: "members \<Rightarrow> members" where
  "spliced ms = map (\<lambda>(k, v). (k, compacted v)) ms"

lemma compacted_idem [simp]: "compacted (compacted j) = compacted j"
  by (induction j rule: compacted.induct) (auto simp: case_prod_unfold)

lemma enc_len_compacted [simp]: "enc_len (compacted j) = enc_len j"
  by (induction j rule: compacted.induct) (simp_all add: comp_def cong: map_cong)

text \<open>Sorting is stable, so it never changes what a name reads.\<close>

lemma lookup_filter: "lookup ms k = lookup (filter (\<lambda>m. fst m = k) ms) k"
  by (induction ms rule: rev_induct) (auto simp: lookup_append lookup_Cons split: option.split)

lemma lookup_sort_key [simp]: "lookup (sort_key fst ms) k = lookup ms k"
  by (metis lookup_filter sort_key_stable)

lemma unmarshal_uint64_json_uint:
  "n < 2 ^ 64 \<Longrightarrow> unmarshal_uint64 (json_uint n) = Some (word_of_nat n)"
  by (simp add: json_uint_def parse_uint_show_nat)

end
