(* ===== verification/Vocabulary.thy ===== *)
theory Vocabulary
  imports Json
begin

text \<open>
  lifecycle/vocabulary.go and lifecycle/violation.go.  The typed strings of the wire are
  strings here too, because a decoded member can hold any text until \<open>Valid\<close> has judged
  it; their constants are named as in the source and their literals are in the collection
  \<open>vocab\<close>.  The violation tokens are never read from input, so they are a datatype, with
  \<open>violation_token\<close> giving the text; the source's \<open>vocabulary\<close> slice makes that type an
  instance of the class \<open>enum\<close>.
\<close>

section \<open>The closed string vocabularies\<close>

type_synonym ForegroundState = string
type_synonym Cause = string
type_synonym Outcome = string
type_synonym ActivityKind = string
type_synonym ActivityState = string
type_synonym ActionKind = string
type_synonym ActionState = string
type_synonym OwnerType = string
type_synonym EventType = string

definition MetaKey :: string where [vocab]: "MetaKey = ''acp-go.dev/lifecycle''"
definition Version :: int where "Version = 1"
definition IdentifierBound :: nat where "IdentifierBound = 4096"

definition ForegroundRunning :: ForegroundState where [vocab]: "ForegroundRunning = ''running''"
definition ForegroundIdle :: ForegroundState where [vocab]: "ForegroundIdle = ''idle''"
definition ForegroundRequiresAction :: ForegroundState where
  [vocab]: "ForegroundRequiresAction = ''requires_action''"

definition ForegroundState_Valid :: "ForegroundState \<Rightarrow> bool" where
  "ForegroundState_Valid s \<longleftrightarrow> s = ForegroundRunning \<or> s = ForegroundIdle \<or> s = ForegroundRequiresAction"

definition CauseSubmission :: Cause where [vocab]: "CauseSubmission = ''submission''"
definition CauseActivity :: Cause where [vocab]: "CauseActivity = ''activity''"
definition CauseSession :: Cause where [vocab]: "CauseSession = ''session''"

definition Cause_Valid :: "Cause \<Rightarrow> bool" where
  "Cause_Valid c \<longleftrightarrow> c = CauseSubmission \<or> c = CauseActivity \<or> c = CauseSession"

definition OutcomeSuccess :: Outcome where [vocab]: "OutcomeSuccess = ''success''"
definition OutcomeRefused :: Outcome where [vocab]: "OutcomeRefused = ''refused''"
definition OutcomeCancelled :: Outcome where [vocab]: "OutcomeCancelled = ''cancelled''"
definition OutcomeLimit :: Outcome where [vocab]: "OutcomeLimit = ''limit''"
definition OutcomeFailed :: Outcome where [vocab]: "OutcomeFailed = ''failed''"

definition Outcome_Valid :: "Outcome \<Rightarrow> bool" where
  "Outcome_Valid c \<longleftrightarrow> c = OutcomeSuccess \<or> c = OutcomeRefused \<or> c = OutcomeCancelled \<or> c = OutcomeLimit
     \<or> c = OutcomeFailed"

definition StopReasonEndTurn :: string where [vocab]: "StopReasonEndTurn = ''end_turn''"
definition StopReasonMaxTokens :: string where [vocab]: "StopReasonMaxTokens = ''max_tokens''"
definition StopReasonMaxTurnRequests :: string where
  [vocab]: "StopReasonMaxTurnRequests = ''max_turn_requests''"
definition StopReasonRefusal :: string where [vocab]: "StopReasonRefusal = ''refusal''"
definition StopReasonCancelled :: string where [vocab]: "StopReasonCancelled = ''cancelled''"

definition validStopReason :: "string \<Rightarrow> bool" where
  "validStopReason reason \<longleftrightarrow> reason = StopReasonEndTurn \<or> reason = StopReasonMaxTokens
     \<or> reason = StopReasonMaxTurnRequests \<or> reason = StopReasonRefusal \<or> reason = StopReasonCancelled"

definition ActivityTask :: ActivityKind where [vocab]: "ActivityTask = ''task''"
definition ActivitySubagent :: ActivityKind where [vocab]: "ActivitySubagent = ''subagent''"

definition ActivityKind_Valid :: "ActivityKind \<Rightarrow> bool" where
  "ActivityKind_Valid k \<longleftrightarrow> k = ActivityTask \<or> k = ActivitySubagent"

definition ActivityPending :: ActivityState where [vocab]: "ActivityPending = ''pending''"
definition ActivityRunning :: ActivityState where [vocab]: "ActivityRunning = ''running''"
definition ActivityRequiresAction :: ActivityState where
  [vocab]: "ActivityRequiresAction = ''requires_action''"
definition ActivityCompleted :: ActivityState where [vocab]: "ActivityCompleted = ''completed''"
definition ActivityFailed :: ActivityState where [vocab]: "ActivityFailed = ''failed''"
definition ActivityCancelled :: ActivityState where [vocab]: "ActivityCancelled = ''cancelled''"

definition ActivityState_Valid :: "ActivityState \<Rightarrow> bool" where
  "ActivityState_Valid s \<longleftrightarrow> s = ActivityPending \<or> s = ActivityRunning \<or> s = ActivityRequiresAction
     \<or> s = ActivityCompleted \<or> s = ActivityFailed \<or> s = ActivityCancelled"

definition ActivityState_Terminal :: "ActivityState \<Rightarrow> bool" where
  "ActivityState_Terminal s \<longleftrightarrow> s = ActivityCompleted \<or> s = ActivityFailed \<or> s = ActivityCancelled"

definition ActionPermission :: ActionKind where [vocab]: "ActionPermission = ''permission''"
definition ActionElicitation :: ActionKind where [vocab]: "ActionElicitation = ''elicitation''"

definition ActionKind_Valid :: "ActionKind \<Rightarrow> bool" where
  "ActionKind_Valid k \<longleftrightarrow> k = ActionPermission \<or> k = ActionElicitation"

definition ActionPending :: ActionState where [vocab]: "ActionPending = ''pending''"
definition ActionAccepted :: ActionState where [vocab]: "ActionAccepted = ''accepted''"
definition ActionDeclined :: ActionState where [vocab]: "ActionDeclined = ''declined''"
definition ActionCancelled :: ActionState where [vocab]: "ActionCancelled = ''cancelled''"
definition ActionFailed :: ActionState where [vocab]: "ActionFailed = ''failed''"

definition ActionState_Valid :: "ActionState \<Rightarrow> bool" where
  "ActionState_Valid s \<longleftrightarrow> s = ActionPending \<or> s = ActionAccepted \<or> s = ActionDeclined
     \<or> s = ActionCancelled \<or> s = ActionFailed"

definition ActionState_Terminal :: "ActionState \<Rightarrow> bool" where
  "ActionState_Terminal s \<longleftrightarrow> s \<noteq> ActionPending"

definition OwnerTurn :: OwnerType where [vocab]: "OwnerTurn = ''turn''"
definition OwnerActivity :: OwnerType where [vocab]: "OwnerActivity = ''activity''"

definition OwnerType_Valid :: "OwnerType \<Rightarrow> bool" where
  "OwnerType_Valid t \<longleftrightarrow> t = OwnerTurn \<or> t = OwnerActivity"

record Owner =
  ow_Type :: OwnerType
  ow_ID :: string

definition EventSnapshot :: EventType where [vocab]: "EventSnapshot = ''lifecycle_snapshot''"
definition EventPromptAccepted :: EventType where [vocab]: "EventPromptAccepted = ''prompt_accepted''"
definition EventStateUpdate :: EventType where [vocab]: "EventStateUpdate = ''state_update''"
definition EventActivityUpdate :: EventType where [vocab]: "EventActivityUpdate = ''activity_update''"
definition EventActionUpdate :: EventType where [vocab]: "EventActionUpdate = ''action_update''"

lemma event_types_distinct [simp]:
  "distinct [EventSnapshot, EventPromptAccepted, EventStateUpdate, EventActivityUpdate, EventActionUpdate]"
  by (simp add: vocab)

lemmas event_type_neq [simp] = event_types_distinct [simplified distinct.simps list.set, simplified]

lemma foreground_states_distinct:
  "distinct [ForegroundRunning, ForegroundIdle, ForegroundRequiresAction]"
  by (simp add: vocab)

lemmas foreground_state_neq [simp] = foreground_states_distinct [simplified distinct.simps list.set, simplified]

lemma vocab_nonempty [simp]:
  "ForegroundRunning \<noteq> []" "ForegroundIdle \<noteq> []" "ForegroundRequiresAction \<noteq> []"
  "CauseSubmission \<noteq> []" "CauseActivity \<noteq> []" "CauseSession \<noteq> []" "OutcomeFailed \<noteq> []"
  "OwnerTurn \<noteq> []" "OwnerActivity \<noteq> []" "ActionPending \<noteq> []"
  by (simp_all add: vocab)

section \<open>What one configuration proved\<close>

record Negotiated =
  ng_Version :: int
  ng_UpdatesOutsidePrompt :: bool
  ng_ActivityKinds :: "ActivityKind list"

definition Present :: "Negotiated \<Rightarrow> bool" where
  "Present n \<longleftrightarrow> ng_Version n = Version"

definition SupportsVersion :: "Negotiated \<Rightarrow> int \<Rightarrow> bool" where
  "SupportsVersion n version \<longleftrightarrow> ng_Version n = Version \<and> version = Version"

definition declaresActivityKind :: "Negotiated \<Rightarrow> ActivityKind \<Rightarrow> bool" where
  "declaresActivityKind n kind \<longleftrightarrow> kind \<in> set (ng_ActivityKinds n)"

section \<open>Violations\<close>

datatype ViolationKind =
    ViolationUnsupportedVersion
  | ViolationUnknownField
  | ViolationMalformedEnvelope
  | ViolationUnknownEventType
  | ViolationUnnegotiatedFact
  | ViolationIllegalCarrier
  | ViolationDeltaBeforeSnapshot
  | ViolationConflictingDuplicate
  | ViolationSequenceGap
  | ViolationSequenceRegression
  | ViolationStreamCycle
  | ViolationStaleStream
  | ViolationPostTerminalMutation
  | ViolationImmutableIdentityChange
  | ViolationInconsistentForeground
  | ViolationParentTerminalBeforeChild
  | ViolationChildAfterParentTerminal
  | ViolationUnknownEntity

fun violation_token :: "ViolationKind \<Rightarrow> string" where
  "violation_token ViolationUnsupportedVersion = ''unsupported_version''"
| "violation_token ViolationUnknownField = ''unknown_field''"
| "violation_token ViolationMalformedEnvelope = ''malformed_envelope''"
| "violation_token ViolationUnknownEventType = ''unknown_event_type''"
| "violation_token ViolationUnnegotiatedFact = ''unnegotiated_fact''"
| "violation_token ViolationIllegalCarrier = ''illegal_carrier''"
| "violation_token ViolationDeltaBeforeSnapshot = ''delta_before_snapshot''"
| "violation_token ViolationConflictingDuplicate = ''conflicting_duplicate''"
| "violation_token ViolationSequenceGap = ''sequence_gap''"
| "violation_token ViolationSequenceRegression = ''sequence_regression''"
| "violation_token ViolationStreamCycle = ''stream_cycle''"
| "violation_token ViolationStaleStream = ''stale_stream''"
| "violation_token ViolationPostTerminalMutation = ''post_terminal_mutation''"
| "violation_token ViolationImmutableIdentityChange = ''immutable_identity_change''"
| "violation_token ViolationInconsistentForeground = ''inconsistent_foreground''"
| "violation_token ViolationParentTerminalBeforeChild = ''parent_terminal_before_child''"
| "violation_token ViolationChildAfterParentTerminal = ''child_after_parent_terminal''"
| "violation_token ViolationUnknownEntity = ''unknown_entity''"

definition violation_vocabulary :: "ViolationKind list" where
  "violation_vocabulary =
    [ViolationUnsupportedVersion, ViolationUnknownField, ViolationMalformedEnvelope,
     ViolationUnknownEventType, ViolationUnnegotiatedFact, ViolationIllegalCarrier,
     ViolationDeltaBeforeSnapshot, ViolationConflictingDuplicate, ViolationSequenceGap,
     ViolationSequenceRegression, ViolationStreamCycle, ViolationStaleStream,
     ViolationPostTerminalMutation, ViolationImmutableIdentityChange,
     ViolationInconsistentForeground, ViolationParentTerminalBeforeChild,
     ViolationChildAfterParentTerminal, ViolationUnknownEntity]"

lemma violation_vocabulary_complete: "k \<in> set violation_vocabulary"
  by (cases k) (simp_all add: violation_vocabulary_def)

lemma UNIV_ViolationKind: "(UNIV :: ViolationKind set) = set violation_vocabulary"
  using violation_vocabulary_complete by auto

instantiation ViolationKind :: enum
begin
definition "enum_ViolationKind = violation_vocabulary"
definition "enum_all_ViolationKind P = list_all P violation_vocabulary"
definition "enum_ex_ViolationKind P = list_ex P violation_vocabulary"
instance
proof
  show "distinct (enum_class.enum :: ViolationKind list)"
    by (simp add: enum_ViolationKind_def violation_vocabulary_def)
  show "(UNIV :: ViolationKind set) = set enum_class.enum"
    by (simp add: enum_ViolationKind_def UNIV_ViolationKind)
  show "enum_class.enum_all P \<longleftrightarrow> Ball (UNIV :: ViolationKind set) P" for P
    by (simp add: enum_all_ViolationKind_def list_all_iff UNIV_ViolationKind)
  show "enum_class.enum_ex P \<longleftrightarrow> Bex (UNIV :: ViolationKind set) P" for P
    by (simp add: enum_ex_ViolationKind_def list_ex_iff UNIV_ViolationKind)
qed
end

record ViolationError =
  ve_Kind :: ViolationKind
  ve_StreamID :: string
  ve_Sequence :: u64
  ve_Detail :: string

definition violation :: "ViolationKind \<Rightarrow> string \<Rightarrow> u64 \<Rightarrow> string \<Rightarrow> ViolationError" where
  "violation kind streamID sequence detail =
     \<lparr>ve_Kind = kind, ve_StreamID = streamID, ve_Sequence = sequence, ve_Detail = detail\<rparr>"

definition ViolationError_Error :: "ViolationError \<Rightarrow> string" where
  "ViolationError_Error v =
     ''lifecycle violation '' @ violation_token (ve_Kind v) @ '' at '' @ ve_StreamID v @ ''#''
     @ show_nat (unat (ve_Sequence v))
     @ (if ve_Detail v \<noteq> [] then '': '' @ ve_Detail v else [])"

definition ViolationError_Is :: "ViolationError \<Rightarrow> ViolationError \<Rightarrow> bool" where
  "ViolationError_Is v target \<longleftrightarrow> ve_Kind target = ve_Kind v"

lemma violation_sel [simp]:
  "ve_Kind (violation k i q t) = k" "ve_StreamID (violation k i q t) = i"
  "ve_Sequence (violation k i q t) = q" "ve_Detail (violation k i q t) = t"
  by (simp_all add: violation_def)

end
