(* ===== verification/Sha256.thy ===== *)
theory Sha256
  imports Prelude
begin

text \<open>
  SHA-256 (FIPS 180-4), the standard-library hash \<open>crypto/sha256\<close> that the reducer's
  retained frames, the mirror's digests and the image fingerprints rest on.  It is defined
  in full, over byte strings, so that no component takes the hash as a parameter.  Nothing
  is assumed about collisions: where a property needs that two particular inputs do not
  collide, it says so.
\<close>

unbundle bit_operations_syntax

type_synonym u32 = "32 word"

text \<open>The standard defines its constants rather than lists them: the round constants are the
  first 32 bits of the fractional parts of the cube roots of the first 64 primes, the initial
  state those of the square roots of the first 8.  \<open>root_floor k m b a\<close> adds to \<open>a\<close> the
  largest multiple of one, below \<open>2 ^ b\<close>, whose sum's \<open>k\<close>-th power stays within \<open>m\<close>.\<close>

fun root_floor :: "nat \<Rightarrow> nat \<Rightarrow> nat \<Rightarrow> nat \<Rightarrow> nat" where
  "root_floor k m 0 a = a"
| "root_floor k m (Suc b) a = root_floor k m b (if (a + 2 ^ b) ^ k \<le> m then a + 2 ^ b else a)"

definition root_fraction :: "nat \<Rightarrow> nat \<Rightarrow> u32" where
  "root_fraction k p = word_of_nat (root_floor k (p * 2 ^ (32 * k)) 38 0)"

definition sha_primes :: "nat list" where
  "sha_primes = filter (\<lambda>n. list_all (\<lambda>d. n mod d \<noteq> 0) [2..<n]) [2..<312]"

definition sha_k :: "u32 list" where
  "sha_k = map (root_fraction 3) sha_primes"

definition sha_init :: "u32 list" where
  "sha_init = map (root_fraction 2) (take 8 sha_primes)"

definition rotr :: "nat \<Rightarrow> u32 \<Rightarrow> u32" where
  "rotr n x = drop_bit n x OR push_bit (32 - n) x"

text \<open>Padding: a one bit, zeros up to 56 bytes modulo 64, and the bit length in 8 bytes.\<close>

fun be_bytes :: "nat \<Rightarrow> nat \<Rightarrow> nat list" where
  "be_bytes 0 v = []"
| "be_bytes (Suc n) v = be_bytes n (v div 256) @ [v mod 256]"

definition sha_pad :: "nat list \<Rightarrow> nat list" where
  "sha_pad bs = bs @ [128] @ replicate ((119 - length bs mod 64) mod 64) 0
                 @ be_bytes 8 (8 * length bs mod 2 ^ 64)"

fun sha_words :: "nat list \<Rightarrow> u32 list" where
  "sha_words (a # b # c # d # bs) =
     word_of_nat (((a * 256 + b) * 256 + c) * 256 + d) # sha_words bs"
| "sha_words _ = []"

text \<open>The schedule, newest word first.\<close>

definition sha_expand :: "u32 list \<Rightarrow> u32" where
  "sha_expand w =
     (let w2 = w ! 1; w7 = w ! 6; w15 = w ! 14; w16 = w ! 15;
          s0 = rotr 7 w15 XOR rotr 18 w15 XOR drop_bit 3 w15;
          s1 = rotr 17 w2 XOR rotr 19 w2 XOR drop_bit 10 w2
      in w16 + s0 + w7 + s1)"

fun sha_schedule :: "nat \<Rightarrow> u32 list \<Rightarrow> u32 list" where
  "sha_schedule 0 w = w"
| "sha_schedule (Suc n) w = sha_schedule n (sha_expand w # w)"

fun sha_round :: "u32 list \<Rightarrow> u32 \<times> u32 \<Rightarrow> u32 list" where
  "sha_round [a, b, c, d, e, f, g, h] (k, w) =
     (let s1 = rotr 6 e XOR rotr 11 e XOR rotr 25 e;
          ch = (e AND f) XOR (NOT e AND g);
          t1 = h + s1 + ch + k + w;
          s0 = rotr 2 a XOR rotr 13 a XOR rotr 22 a;
          maj = (a AND b) XOR (a AND c) XOR (b AND c);
          t2 = s0 + maj
      in [t1 + t2, a, b, c, d + t1, e, f, g])"
| "sha_round s _ = s"

definition sha_block :: "u32 list \<Rightarrow> u32 list \<Rightarrow> u32 list" where
  "sha_block h block =
     map2 (+) h (foldl sha_round h (zip sha_k (rev (sha_schedule 48 (rev block)))))"

fun sha_blocks :: "nat \<Rightarrow> u32 list \<Rightarrow> u32 list \<Rightarrow> u32 list" where
  "sha_blocks 0 h ws = h"
| "sha_blocks (Suc n) h ws = sha_blocks n (sha_block h (take 16 ws)) (drop 16 ws)"

definition sha256 :: "string \<Rightarrow> string" where
  "sha256 s =
     (let ws = sha_words (sha_pad (map of_char s));
          h = sha_blocks (length ws div 16) sha_init ws
      in concat (map (\<lambda>x. map char_of (be_bytes 4 (unat x))) h))"

text \<open>The digest in lowercase hexadecimal, \<open>hex.EncodeToString\<close>.\<close>

definition hex_digit :: "nat \<Rightarrow> char" where
  "hex_digit d = (if d < 10 then char_of (48 + d) else char_of (87 + d))"

definition hex_encode :: "string \<Rightarrow> string" where
  "hex_encode s = concat (map (\<lambda>c. [hex_digit (of_char c div 16), hex_digit (of_char c mod 16)]) s)"

end
