(* ===== verification/Values.thy ===== *)
theory Values
  imports Json Sha256 "HOL-Library.AList"
begin

text \<open>
  lifecycle/value.go: decoded values, lifecycle value equality, and the digest of a frame.
  A decoded value is what \<open>json.Decoder\<close> with \<open>UseNumber\<close> leaves in an \<open>any\<close>: nil, a
  bool, a string, a number lexeme, a slice or a map.  A map is a list of members with
  distinct names in no particular order (\<open>value_ok\<close> says so); the sources only ever read
  it by name, by length or in sorted order.  The digest is SHA-256 of a canonical byte
  string, and the main facts are that this byte string is a prefix code and that two values
  have the same one exactly when they are equal under lifecycle value equality.
\<close>

datatype val =
    VNil
  | VBool bool
  | VString string
  | VNumber string
  | VSlice "val list"
  | VMap "(string \<times> val) list"

section \<open>Decoding\<close>

text \<open>\<open>decodeValue\<close> (a number keeps its lexeme, the last of two members with one name wins);
  text that is no document decodes to nothing.\<close>

fun decode_any :: "json \<Rightarrow> val" where
  "decode_any JNull = VNil"
| "decode_any (JBool b) = VBool b"
| "decode_any (JStr s) = VString s"
| "decode_any (JNum l) = VNumber l"
| "decode_any (JArr xs) = VSlice (map decode_any xs)"
| "decode_any (JObj n ms) = VMap (AList.clearjunk (rev (map (\<lambda>(k, v). (k, decode_any v)) ms)))"

text \<open>What the encoder does to a raw message never shows in the value it decodes to.\<close>

lemma decode_compacted [simp]: "decode_any (compacted j) = decode_any j"
proof (induction j rule: compacted.induct)
  case (2 n ms)
  have "map (\<lambda>(k, v). (k, decode_any v)) (map (\<lambda>(k, v). (k, compacted v)) ms) = map (\<lambda>(k, v). (k, decode_any v)) ms"
    using 2 by (auto simp: case_prod_unfold)
  then show ?case by (simp only: compacted.simps decode_any.simps)
qed (simp_all add: comp_def cong: map_cong)

definition decodeValue :: "json option \<Rightarrow> val option" where
  "decodeValue raw = map_option decode_any raw"

section \<open>Normalized numbers\<close>

text \<open>\<open>strings.IndexAny\<close>, \<open>strings.Cut\<close>, \<open>strings.TrimLeft\<close> and \<open>strings.TrimRight\<close> for
  single characters.\<close>

definition before_any :: "(char \<Rightarrow> bool) \<Rightarrow> string \<Rightarrow> string" where
  "before_any p s = takeWhile (\<lambda>c. \<not> p c) s"

definition after_any :: "(char \<Rightarrow> bool) \<Rightarrow> string \<Rightarrow> string" where
  "after_any p s = drop 1 (dropWhile (\<lambda>c. \<not> p c) s)"

definition trim_left :: "char \<Rightarrow> string \<Rightarrow> string" where
  "trim_left c s = dropWhile (\<lambda>x. x = c) s"

definition trim_right :: "char \<Rightarrow> string \<Rightarrow> string" where
  "trim_right c s = rev (dropWhile (\<lambda>x. x = c) (rev s))"

definition is_exp_mark :: "char \<Rightarrow> bool" where
  "is_exp_mark c \<longleftrightarrow> c = CHR ''e'' \<or> c = CHR ''E''"

definition normalizedNumber :: "string \<Rightarrow> string" where
  "normalizedNumber lexeme =
     (let mantissa = before_any is_exp_mark lexeme;
          exponent = after_any is_exp_mark lexeme;
          sign = (if take 1 mantissa = ''-'' then ''-'' else []);
          mantissa = (if take 1 mantissa = ''-'' then drop 1 mantissa else mantissa);
          integral = before_any (\<lambda>c. c = CHR ''.'') mantissa;
          fraction = after_any (\<lambda>c. c = CHR ''.'') mantissa;
          coefficient = trim_left (CHR ''0'') (integral @ fraction);
          digits = trim_right (CHR ''0'') coefficient
      in if digits = [] then ''0''
         else (case (if exponent = [] then Some 0 else parse_int exponent) of
                 None \<Rightarrow> lexeme
               | Some scale \<Rightarrow>
                   sign @ digits @ ''e'' @
                   show_int (scale - (int (length fraction) - (int (length coefficient) - int (length digits))))))"

section \<open>Lifecycle value equality\<close>

lemma size_member:
  "(k, v) \<in> set (ms :: (string \<times> val) list) \<Longrightarrow> size v < Suc (size_list (size_prod (\<lambda>_. 0) size) ms)"
  by (induction ms) auto

function valueEqual :: "val \<Rightarrow> val \<Rightarrow> bool" where
  "valueEqual (VMap ms) right =
     (case right of
        VMap other \<Rightarrow> length ms = length other \<and>
          list_all (\<lambda>(key, v). case map_of other key of None \<Rightarrow> False | Some w \<Rightarrow> valueEqual v w) ms
      | _ \<Rightarrow> False)"
| "valueEqual (VSlice xs) right =
     (case right of
        VSlice ys \<Rightarrow> length xs = length ys \<and> list_all (\<lambda>(x, y). valueEqual x y) (zip xs ys)
      | _ \<Rightarrow> False)"
| "valueEqual (VNumber l) right =
     (case right of VNumber r \<Rightarrow> normalizedNumber l = normalizedNumber r | _ \<Rightarrow> False)"
| "valueEqual VNil right = (right = VNil)"
| "valueEqual (VBool b) right = (right = VBool b)"
| "valueEqual (VString s) right = (right = VString s)"
  by pat_completeness auto
termination
  by (relation "measure (size \<circ> fst)")
    (auto dest!: set_zip_leftD size_member simp: less_Suc_eq_le size_list_estimation')

text \<open>\<open>rawEqual\<close>: an absent member decodes to nothing, which is the nil value.\<close>

definition rawEqual :: "json option \<Rightarrow> json option \<Rightarrow> bool" where
  "rawEqual left right =
     valueEqual (case decodeValue left of None \<Rightarrow> VNil | Some v \<Rightarrow> v)
                (case decodeValue right of None \<Rightarrow> VNil | Some v \<Rightarrow> v)"

section \<open>The canonical byte string\<close>

fun uvarint :: "nat \<Rightarrow> string" where
  "uvarint n = (if n < 128 then [char_of n] else char_of (128 + n mod 128) # uvarint (n div 128))"

declare uvarint.simps [simp del]

definition tagged_len :: "char \<Rightarrow> nat \<Rightarrow> string" where
  "tagged_len tag n = tag # uvarint n"

definition writeTagged :: "char \<Rightarrow> string \<Rightarrow> string" where
  "writeTagged tag text = tagged_len tag (length text) @ text"

function writeCanonical :: "val \<Rightarrow> string" where
  "writeCanonical VNil = ''n''"
| "writeCanonical (VBool b) = (if b then ''t'' else ''f'')"
| "writeCanonical (VString s) = writeTagged (CHR ''s'') s"
| "writeCanonical (VNumber l) = writeTagged (CHR ''d'') (normalizedNumber l)"
| "writeCanonical (VSlice xs) = tagged_len (CHR ''a'') (length xs) @ concat (map writeCanonical xs)"
| "writeCanonical (VMap ms) =
     tagged_len (CHR ''o'') (length ms) @
     concat (map (\<lambda>(key, v). writeTagged (CHR ''k'') key @ writeCanonical v) (sort_key fst ms))"
  by pat_completeness auto
termination
  by (relation "measure size")
    (auto dest!: size_member simp: less_Suc_eq_le size_list_estimation')

definition frameDigest :: "val \<Rightarrow> string" where
  "frameDigest v = sha256 (writeCanonical v)"

section \<open>Well-formed values\<close>

text \<open>What the decoder produces: every map has distinct names.\<close>

function value_ok :: "val \<Rightarrow> bool" where
  "value_ok (VMap ms) = (distinct (map fst ms) \<and> list_all (\<lambda>(k, v). value_ok v) ms)"
| "value_ok (VSlice xs) = list_all value_ok xs"
| "value_ok VNil = True"
| "value_ok (VBool b) = True"
| "value_ok (VString s) = True"
| "value_ok (VNumber l) = True"
  by pat_completeness auto
termination
  by (relation "measure size")
    (auto dest!: size_member simp: less_Suc_eq_le size_list_estimation')

lemma set_clearjunk: "p \<in> set (AList.clearjunk ms) \<Longrightarrow> p \<in> set ms"
proof (cases p)
  case (Pair k v)
  assume "p \<in> set (AList.clearjunk ms)"
  with Pair have "map_of (AList.clearjunk ms) k = Some v"
    by (simp add: map_of_is_SomeI)
  then have "map_of ms k = Some v" by (simp add: map_of_clearjunk)
  with Pair show ?thesis by (simp add: map_of_SomeD)
qed

lemma value_ok_decode_any: "value_ok (decode_any j)"
proof (induction j)
  case (JArr xs)
  then show ?case by (simp add: list_all_iff)
next
  case (JObj n ms)
  have "value_ok v" if "(k, v) \<in> set (AList.clearjunk (rev (map (\<lambda>(k, v). (k, decode_any v)) ms)))" for k v
  proof -
    from set_clearjunk[OF that] obtain j where "(k, j) \<in> set ms" "v = decode_any j" by auto
    with JObj show ?thesis by (auto intro: snds.intros)
  qed
  then show ?case by (auto simp: distinct_clearjunk list_all_iff)
qed simp_all

section \<open>The canonical form is a prefix code\<close>

lemma uvarint_small: "n < 128 \<Longrightarrow> uvarint n = [char_of n]"
  by (simp add: uvarint.simps)

lemma uvarint_large: "128 \<le> n \<Longrightarrow> uvarint n = char_of (128 + n mod 128) # uvarint (n div 128)"
  by (subst uvarint.simps) simp

lemma char_of_eqD: "(char_of a :: char) = char_of b \<Longrightarrow> a < 256 \<Longrightarrow> b < 256 \<Longrightarrow> a = (b :: nat)"
  by (metis mod_less of_char_of)

lemma uvarint_prefix: "uvarint m @ s = uvarint n @ t \<Longrightarrow> m = n \<and> s = t"
proof (induction m arbitrary: n rule: uvarint.induct)
  case (1 m)
  have m: "128 + m mod 128 < 256" and n: "128 + n mod 128 < 256" by simp_all
  consider "m < 128" "n < 128" | "m < 128" "128 \<le> n" | "128 \<le> m" "n < 128" | "128 \<le> m" "128 \<le> n"
    by linarith
  then show ?case
  proof cases
    case 1
    with "1.prems" show ?thesis by (auto simp: uvarint_small dest: char_of_eqD)
  next
    case 2
    with "1.prems" have "(char_of m :: char) = char_of (128 + n mod 128)"
      by (simp add: uvarint_small uvarint_large)
    from char_of_eqD[OF this _ n] 2 show ?thesis by simp
  next
    case 3
    with "1.prems" have "(char_of n :: char) = char_of (128 + m mod 128)"
      by (simp add: uvarint_small uvarint_large)
    from char_of_eqD[OF this _ m] 3 show ?thesis by simp
  next
    case 4
    with "1.prems" have c: "(char_of (128 + m mod 128) :: char) = char_of (128 + n mod 128)"
      and r: "uvarint (m div 128) @ s = uvarint (n div 128) @ t"
      by (simp_all add: uvarint_large)
    from char_of_eqD[OF c m n] have "m mod 128 = n mod 128" by simp
    moreover from "1.IH" 4 r have "m div 128 = n div 128 \<and> s = t" by simp
    ultimately show ?thesis by (metis div_mult_mod_eq)
  qed
qed

lemma tagged_len_prefix: "tagged_len c m @ s = tagged_len d n @ t \<Longrightarrow> c = d \<and> m = n \<and> s = t"
  by (auto simp: tagged_len_def dest: uvarint_prefix)

lemma writeTagged_prefix: "writeTagged c x @ s = writeTagged d y @ t \<Longrightarrow> c = d \<and> x = y \<and> s = t"
  using tagged_len_prefix[of c "length x" "x @ s" d "length y" "y @ t"] by (auto simp: writeTagged_def)

text \<open>Concatenations of a prefix code over equally many elements agree element by element.\<close>

lemma concat_prefix:
  assumes "length xs = length ys" and "concat (map f xs) @ s = concat (map f ys) @ t"
    and "\<And>x y s t. x \<in> set xs \<Longrightarrow> y \<in> set ys \<Longrightarrow> f x @ s = f y @ t \<Longrightarrow> R x y \<and> s = t"
  shows "list_all2 R xs ys \<and> s = t"
  using assms
proof (induction xs ys arbitrary: s t rule: list_induct2)
  case (Cons x xs y ys)
  from Cons.prems(1) have "f x @ (concat (map f xs) @ s) = f y @ (concat (map f ys) @ t)" by simp
  then have "R x y" and rest: "concat (map f xs) @ s = concat (map f ys) @ t"
    using Cons.prems(2)[of x y "concat (map f xs) @ s" "concat (map f ys) @ t"] by auto
  from Cons.IH[OF rest] Cons.prems(2) have "list_all2 R xs ys \<and> s = t" by auto
  with \<open>R x y\<close> show ?case by simp
qed simp

definition member_equal :: "string \<times> val \<Rightarrow> string \<times> val \<Rightarrow> bool" where
  "member_equal p q \<longleftrightarrow> fst p = fst q \<and> valueEqual (snd p) (snd q)"

lemma valueEqual_map_sorted:
  assumes "distinct (map fst ns)" and "list_all2 member_equal (sort_key fst ms) (sort_key fst ns)"
  shows "valueEqual (VMap ms) (VMap ns)"
proof -
  have "\<exists>w. map_of ns k = Some w \<and> valueEqual v w" if "(k, v) \<in> set ms" for k v
  proof -
    from that have "(k, v) \<in> set (sort_key fst ms)" by simp
    with assms(2) obtain q where q: "q \<in> set (sort_key fst ns)" "member_equal (k, v) q"
      by (metis in_set_conv_nth list_all2_conv_all_nth)
    then have "(k, snd q) \<in> set ns" by (metis fst_conv member_equal_def prod.collapse set_sort)
    with assms(1) q(2) show ?thesis by (intro exI[of _ "snd q"]) (auto simp: member_equal_def)
  qed
  moreover have "length ms = length ns" using assms(2) by (auto dest: list_all2_lengthD)
  ultimately show ?thesis by (fastforce simp: list_all_iff)
qed

text \<open>The bytes of one member, name then value, as \<open>writeCanonical\<close> writes them.\<close>

definition write_member :: "string \<times> val \<Rightarrow> string" where
  "write_member p = writeTagged (CHR ''k'') (fst p) @ writeCanonical (snd p)"

lemma writeCanonical_VMap:
  "writeCanonical (VMap ms) = tagged_len (CHR ''o'') (length ms) @ concat (map write_member (sort_key fst ms))"
  by (simp add: write_member_def [abs_def] case_prod_unfold)

text \<open>The first byte tells the kind of value apart.\<close>

fun value_tag :: "val \<Rightarrow> char" where
  "value_tag VNil = CHR ''n''"
| "value_tag (VBool b) = (if b then CHR ''t'' else CHR ''f'')"
| "value_tag (VString s) = CHR ''s''"
| "value_tag (VNumber l) = CHR ''d''"
| "value_tag (VSlice xs) = CHR ''a''"
| "value_tag (VMap ms) = CHR ''o''"

lemma writeCanonical_tag: "\<exists>r. writeCanonical x = value_tag x # r"
  by (cases x) (simp_all add: tagged_len_def writeTagged_def)

lemma canonical_same_tag: "writeCanonical x @ s = writeCanonical y @ t \<Longrightarrow> value_tag x = value_tag y"
  using writeCanonical_tag[of x] writeCanonical_tag[of y] by force

lemma canonical_prefix:
  assumes "value_ok x" and "value_ok y" and "writeCanonical x @ s = writeCanonical y @ t"
  shows "valueEqual x y \<and> s = t"
  using assms
proof (induction "size x" arbitrary: x y s t rule: less_induct)
  case less
  note tag = canonical_same_tag[OF less.prems(3)]
  show ?case
  proof (cases x)
    case VNil
    with tag have "y = VNil" by (cases y) (auto split: if_splits)
    with VNil less.prems(3) show ?thesis by simp
  next
    case (VBool b)
    with tag have "y = VBool b" by (cases y) (auto split: if_splits)
    with VBool less.prems(3) show ?thesis by (simp split: if_splits)
  next
    case (VString u)
    with tag obtain w where "y = VString w" by (cases y) (auto split: if_splits)
    with VString less.prems(3) show ?thesis by (auto dest!: writeTagged_prefix)
  next
    case (VNumber l)
    with tag obtain w where "y = VNumber w" by (cases y) (auto split: if_splits)
    with VNumber less.prems(3) show ?thesis by (auto dest!: writeTagged_prefix)
  next
    case (VSlice xs)
    with tag obtain ys where y: "y = VSlice ys" by (cases y) (auto split: if_splits)
    from less.prems(3) have "length xs = length ys"
      and c: "concat (map writeCanonical xs) @ s = concat (map writeCanonical ys) @ t"
      unfolding VSlice y by (auto dest!: tagged_len_prefix)
    from this have "list_all2 valueEqual xs ys \<and> s = t"
    proof (rule concat_prefix)
      fix a b u w assume "a \<in> set xs" "b \<in> set ys" "writeCanonical a @ u = writeCanonical b @ w"
      moreover have "size a < size x"
        using \<open>a \<in> set xs\<close> by (simp add: VSlice less_Suc_eq_le size_list_estimation')
      ultimately show "valueEqual a b \<and> u = w"
        using less.hyps[of a b u w] less.prems(1,2) by (auto simp: VSlice y list_all_iff)
    qed
    then show ?thesis unfolding VSlice y by (auto simp: list_all2_iff list_all_iff)
  next
    case (VMap ms)
    with tag obtain ns where y: "y = VMap ns" by (cases y) (auto split: if_splits)
    from less.prems(3) have "length (sort_key fst ms) = length (sort_key fst ns)"
      and c: "concat (map write_member (sort_key fst ms)) @ s = concat (map write_member (sort_key fst ns)) @ t"
      unfolding VMap y writeCanonical_VMap by (auto dest!: tagged_len_prefix)
    from this have eq: "list_all2 member_equal (sort_key fst ms) (sort_key fst ns) \<and> s = t"
    proof (rule concat_prefix)
      fix p q u w assume p: "p \<in> set (sort_key fst ms)" and q: "q \<in> set (sort_key fst ns)"
        and "write_member p @ u = write_member q @ w"
      then have "fst p = fst q" and c: "writeCanonical (snd p) @ u = writeCanonical (snd q) @ w"
        by (auto simp: write_member_def dest!: writeTagged_prefix)
      have "size (snd p) < size x"
        using p size_member[of "fst p" "snd p" ms] by (simp add: VMap)
      moreover have "value_ok (snd p)" "value_ok (snd q)"
        using less.prems(1,2) p q by (auto simp: VMap y list_all_iff)
      ultimately have "valueEqual (snd p) (snd q) \<and> u = w" using c less.hyps by blast
      with \<open>fst p = fst q\<close> show "member_equal p q \<and> u = w" by (simp add: member_equal_def)
    qed
    moreover have "distinct (map fst ns)" using less.prems(2) by (simp add: y)
    ultimately show ?thesis unfolding VMap y using valueEqual_map_sorted by blast
  qed
qed

text \<open>Two maps that are equal have the same names in sorted order, each with an equal value.\<close>

lemma valueEqual_map_names:
  assumes "distinct (map fst ms)" and "distinct (map fst ns)" and "valueEqual (VMap ms) (VMap ns)"
  shows "map fst (sort_key fst ms) = map fst (sort_key fst ns)"
proof -
  have len: "length ms = length ns" using assms(3) by simp
  have "k \<in> fst ` set ns" if "(k, v) \<in> set ms" for k v
  proof -
    from assms(3) that obtain w where "map_of ns k = Some w"
      by (auto simp: list_all_iff split: option.splits)
    then show ?thesis by (force dest: map_of_SomeD)
  qed
  then have sub: "fst ` set ms \<subseteq> fst ` set ns" by auto
  have "card (fst ` set ms) = card (fst ` set ns)"
    using assms(1,2) len distinct_card[of "map fst ms"] distinct_card[of "map fst ns"] by simp
  with sub have "fst ` set ms = fst ` set ns" by (simp add: card_subset_eq)
  then show ?thesis
    using assms(1,2) by (intro sorted_distinct_set_unique) (simp_all add: distinct_map)
qed

lemma valueEqual_canonical:
  "value_ok x \<Longrightarrow> value_ok y \<Longrightarrow> valueEqual x y \<Longrightarrow> writeCanonical x = writeCanonical y"
proof (induction "size x" arbitrary: x y rule: less_induct)
  case less
  show ?case
  proof (cases x)
    case (VSlice xs)
    with less.prems(3) obtain ys where y: "y = VSlice ys" and len: "length xs = length ys"
      and eq: "list_all (\<lambda>(x, y). valueEqual x y) (zip xs ys)"
      by (auto split: val.splits)
    have "map writeCanonical xs = map writeCanonical ys"
    proof (rule nth_equalityI)
      fix i assume "i < length (map writeCanonical xs)"
      then have i: "i < length xs" by simp
      then have "valueEqual (xs ! i) (ys ! i)" using eq len by (auto simp: list_all_length)
      moreover have "size (xs ! i) < size x"
        using nth_mem[OF i] by (simp add: VSlice less_Suc_eq_le size_list_estimation')
      moreover have "value_ok (xs ! i)" "value_ok (ys ! i)"
        using less.prems(1,2) i len by (auto simp: VSlice y list_all_length)
      ultimately have "writeCanonical (xs ! i) = writeCanonical (ys ! i)" using less.hyps by blast
      then show "map writeCanonical xs ! i = map writeCanonical ys ! i" using i len by simp
    qed (simp add: len)
    then show ?thesis by (simp add: VSlice y len del: map_eq_conv)
  next
    case (VMap ms)
    with less.prems(3) obtain ns where y: "y = VMap ns" by (auto split: val.splits)
    let ?a = "sort_key fst ms" and ?b = "sort_key fst ns"
    from less.prems(1,2) have d: "distinct (map fst ms)" "distinct (map fst ns)"
      by (simp_all add: VMap y)
    from less.prems(3) have names: "map fst ?a = map fst ?b" and len: "length ms = length ns"
      using valueEqual_map_names[OF d] by (simp_all add: VMap y)
    have "map write_member ?a = map write_member ?b"
    proof (rule nth_equalityI)
      fix i assume "i < length (map write_member ?a)"
      then have i: "i < length ?a" "i < length ?b" using len by simp_all
      then have key: "fst (?a ! i) = fst (?b ! i)" using names by (metis nth_map)
      have ma: "?a ! i \<in> set ms" and mb: "?b ! i \<in> set ns" using i by (metis nth_mem set_sort)+
      have "map_of ns (fst (?a ! i)) = Some (snd (?b ! i))"
        using mb d(2) key by simp
      with less.prems(3) ma have "valueEqual (snd (?a ! i)) (snd (?b ! i))"
        by (fastforce simp: VMap y list_all_iff case_prod_unfold)
      moreover have "size (snd (?a ! i)) < size x"
        using size_member[of "fst (?a ! i)" "snd (?a ! i)" ms] ma by (simp add: VMap)
      moreover have "value_ok (snd (?a ! i))" "value_ok (snd (?b ! i))"
        using less.prems(1,2) ma mb by (auto simp: VMap y list_all_iff)
      ultimately have "writeCanonical (snd (?a ! i)) = writeCanonical (snd (?b ! i))"
        using less.hyps by blast
      with key show "map write_member ?a ! i = map write_member ?b ! i"
        using i by (simp add: write_member_def)
    qed (simp add: len)
    then show ?thesis by (simp add: VMap y len writeCanonical_VMap del: map_eq_conv writeCanonical.simps)
  next
    case (VNumber l)
    with less.prems(3) show ?thesis by (cases y) simp_all
  qed (use less.prems(3) in simp_all)
qed

lemma canonical_iff:
  "value_ok x \<Longrightarrow> value_ok y \<Longrightarrow> writeCanonical x = writeCanonical y \<longleftrightarrow> valueEqual x y"
  by (metis append_Nil2 canonical_prefix valueEqual_canonical)

text \<open>Lifecycle value equality is an equivalence on decoded values.\<close>

lemma valueEqual_refl: "value_ok x \<Longrightarrow> valueEqual x x"
  by (metis canonical_iff)

lemma valueEqual_sym: "value_ok x \<Longrightarrow> value_ok y \<Longrightarrow> valueEqual x y \<Longrightarrow> valueEqual y x"
  by (metis canonical_iff)

lemma valueEqual_trans:
  "value_ok x \<Longrightarrow> value_ok y \<Longrightarrow> value_ok z \<Longrightarrow> valueEqual x y \<Longrightarrow> valueEqual y z \<Longrightarrow> valueEqual x z"
  by (metis canonical_iff)

text \<open>An exponent past 64 bits leaves a number as it is spelled, so two spellings of one value differ.\<close>

lemma huge_exponents_differ:
  "\<not> valueEqual (VNumber ''10e9223372036854775808'') (VNumber ''1e9223372036854775809'')"
proof -
  have p: "parse_int ''9223372036854775808'' = None" "parse_int ''9223372036854775809'' = None"
    by (simp_all add: parse_int_def read_nat_def is_digit_def digits_value_def)
  show ?thesis
    by (simp add: normalizedNumber_def before_any_def after_any_def is_exp_mark_def trim_left_def trim_right_def p)
qed

end
