(* ===== verification/Events.thy ===== *)
theory Events
  imports Vocabulary Values
begin

text \<open>
  lifecycle/event.go and lifecycle/state.go: the five events, a delivery with its ordering
  identity, and the projection a reduced stream proves.  A nil pointer is \<open>None\<close>; an absent
  string member is the empty string, as in the source.  Fields carry a two-letter prefix
  because Isabelle's record selectors share one name space.
\<close>

section \<open>Member names\<close>

definition fieldVersion :: string where [vocab]: "fieldVersion = ''version''"
definition fieldStreamID :: string where [vocab]: "fieldStreamID = ''streamId''"
definition fieldSequence :: string where [vocab]: "fieldSequence = ''sequence''"
definition fieldEvent :: string where [vocab]: "fieldEvent = ''event''"
definition fieldType :: string where [vocab]: "fieldType = ''type''"
definition fieldForeground :: string where [vocab]: "fieldForeground = ''foreground''"
definition fieldActivities :: string where [vocab]: "fieldActivities = ''activities''"
definition fieldActions :: string where [vocab]: "fieldActions = ''actions''"
definition fieldState :: string where [vocab]: "fieldState = ''state''"
definition fieldCycleID :: string where [vocab]: "fieldCycleID = ''cycleId''"
definition fieldTurnID :: string where [vocab]: "fieldTurnID = ''turnId''"
definition fieldCause :: string where [vocab]: "fieldCause = ''cause''"
definition fieldOrigin :: string where [vocab]: "fieldOrigin = ''origin''"
definition fieldSubmissionID :: string where [vocab]: "fieldSubmissionID = ''submissionId''"
definition fieldClientNonce :: string where [vocab]: "fieldClientNonce = ''clientNonce''"
definition fieldRunID :: string where [vocab]: "fieldRunID = ''runId''"
definition fieldStopReason :: string where [vocab]: "fieldStopReason = ''stopReason''"
definition fieldOutcome :: string where [vocab]: "fieldOutcome = ''outcome''"
definition fieldActivity :: string where [vocab]: "fieldActivity = ''activity''"
definition fieldActivityID :: string where [vocab]: "fieldActivityID = ''activityId''"
definition fieldKind :: string where [vocab]: "fieldKind = ''kind''"
definition fieldParentID :: string where [vocab]: "fieldParentID = ''parentId''"
definition fieldToolCallID :: string where [vocab]: "fieldToolCallID = ''toolCallId''"
definition fieldOriginTurnID :: string where [vocab]: "fieldOriginTurnID = ''originTurnId''"
definition fieldProgress :: string where [vocab]: "fieldProgress = ''progress''"
definition fieldAction :: string where [vocab]: "fieldAction = ''action''"
definition fieldActionID :: string where [vocab]: "fieldActionID = ''actionId''"
definition fieldOwner :: string where [vocab]: "fieldOwner = ''owner''"
definition fieldBlocksForeground :: string where [vocab]: "fieldBlocksForeground = ''blocksForeground''"
definition fieldID :: string where [vocab]: "fieldID = ''id''"
definition fieldUpdatesOutsidePrompt :: string where
  [vocab]: "fieldUpdatesOutsidePrompt = ''updatesOutsidePrompt''"
definition fieldActivityKinds :: string where [vocab]: "fieldActivityKinds = ''activityKinds''"
definition fieldSubmission :: string where [vocab]: "fieldSubmission = ''submission''"

section \<open>Events\<close>

record Foreground =
  fg_State :: ForegroundState
  fg_CycleID :: string
  fg_TurnID :: string
  fg_Origin :: Cause

record ActivityUpdate =
  au_ActivityID :: string
  au_Kind :: ActivityKind
  au_State :: ActivityState
  au_ParentID :: string
  au_ToolCallID :: string
  au_Cause :: Cause
  au_OriginTurnID :: string
  au_RunID :: string
  au_Progress :: "json option"

record ActionUpdate =
  cu_ActionID :: string
  cu_Kind :: ActionKind
  cu_State :: ActionState
  cu_Owner :: Owner
  cu_RunID :: string
  cu_BlocksForeground :: "bool option"

record Snapshot =
  sn_Foreground :: Foreground
  sn_Activities :: "ActivityUpdate list"
  sn_Actions :: "ActionUpdate list"

record PromptAccepted =
  pa_SubmissionID :: string
  pa_ClientNonce :: string
  pa_TurnID :: string
  pa_RunID :: string

record StateTransition =
  st_State :: ForegroundState
  st_CycleID :: string
  st_TurnID :: string
  st_Cause :: Cause
  st_StopReason :: string
  st_Outcome :: Outcome

record Event =
  ev_Type :: EventType
  ev_Snapshot :: "Snapshot option"
  ev_PromptAccepted :: "PromptAccepted option"
  ev_State :: "StateTransition option"
  ev_Activity :: "ActivityUpdate option"
  ev_Action :: "ActionUpdate option"

text \<open>The zero value \<open>Event{}\<close>, and an event carrying one payload.\<close>

definition no_event :: Event where
  "no_event = \<lparr>ev_Type = [], ev_Snapshot = None, ev_PromptAccepted = None, ev_State = None,
               ev_Activity = None, ev_Action = None\<rparr>"

definition namelessTurnDefect :: "StateTransition \<Rightarrow> string" where
  "namelessTurnDefect t =
     (if st_TurnID t \<noteq> [] then []
      else if st_Cause t \<noteq> CauseSession then ''a '' @ st_Cause t @ ''-caused transition names its turn''
      else if st_State t \<noteq> ForegroundIdle then
        ''a transition to '' @ st_State t @ '' names the turn it reports live''
      else [])"

definition endingIdleDefect :: "StateTransition \<Rightarrow> string" where
  "endingIdleDefect t =
     (if st_State t \<noteq> ForegroundIdle \<or> st_TurnID t = [] then []
      else if st_Outcome t = [] then ''an idle transition that ends a turn records its outcome''
      else if st_Outcome t = OutcomeFailed \<and> st_StopReason t \<noteq> [] then
        ''a failed outcome states no stop reason''
      else if st_Outcome t \<noteq> OutcomeFailed \<and> st_StopReason t = [] then
        ''an idle transition that ends a turn records its stop reason''
      else [])"

datatype CarrierClass = CarrierUnknown | CarrierSessionInfo | CarrierIneligible

fun carrier_token :: "CarrierClass \<Rightarrow> string" where
  "carrier_token CarrierUnknown = []"
| "carrier_token CarrierSessionInfo = ''session_info_update''"
| "carrier_token CarrierIneligible = ''ineligible''"

record Delivery =
  dl_StreamID :: string
  dl_Sequence :: u64
  dl_Carrier :: CarrierClass
  dl_Event :: Event
  dl_Frame :: val

section \<open>The projection\<close>

record TurnRecord =
  tr_TurnID :: string
  tr_Origin :: Cause
  tr_Terminal :: bool
  tr_Outcome :: Outcome
  tr_SubmissionID :: string
  tr_ClientNonce :: string
  tr_RunID :: string
  tr_CycleID :: string
  tr_StopReason :: string

record ActivityRecord =
  ar_ActivityID :: string
  ar_Kind :: ActivityKind
  ar_State :: ActivityState
  ar_ParentID :: string
  ar_ToolCallID :: string
  ar_Cause :: Cause
  ar_OriginTurnID :: string
  ar_RunID :: string
  ar_Progress :: "json option"

record ActionRecord =
  cr_ActionID :: string
  cr_Kind :: ActionKind
  cr_State :: ActionState
  cr_Owner :: Owner
  cr_RunID :: string
  cr_BlocksForeground :: bool

record State =
  s_StreamID :: string
  s_ReducedThrough :: u64
  s_SuppressedRetransmissions :: int
  s_Foreground :: "Foreground option"
  s_Turns :: "TurnRecord list"
  s_Activities :: "ActivityRecord list"
  s_Actions :: "ActionRecord list"
  s_Closed :: bool

definition Settled :: "State \<Rightarrow> bool" where
  "Settled s \<longleftrightarrow>
     (case s_Foreground s of None \<Rightarrow> True | Some f \<Rightarrow> fg_State f = ForegroundIdle) \<and>
     list_all (\<lambda>a. ActivityState_Terminal (ar_State a)) (s_Activities s) \<and>
     list_all (\<lambda>a. ActionState_Terminal (cr_State a)) (s_Actions s)"

text \<open>\<open>indexOf\<close> returns -1 where this is \<open>None\<close>.\<close>

fun indexOf :: "'a list \<Rightarrow> string \<Rightarrow> ('a \<Rightarrow> string) \<Rightarrow> nat option" where
  "indexOf [] x identity = None"
| "indexOf (r # rs) x identity = (if identity r = x then Some 0 else map_option Suc (indexOf rs x identity))"

definition State_Turn :: "State \<Rightarrow> string \<Rightarrow> TurnRecord option" where
  "State_Turn s turnID = map_option (\<lambda>i. s_Turns s ! i) (indexOf (s_Turns s) turnID tr_TurnID)"

definition State_Activity :: "State \<Rightarrow> string \<Rightarrow> ActivityRecord option" where
  "State_Activity s activityID =
     map_option (\<lambda>i. s_Activities s ! i) (indexOf (s_Activities s) activityID ar_ActivityID)"

definition State_Action :: "State \<Rightarrow> string \<Rightarrow> ActionRecord option" where
  "State_Action s actionID = map_option (\<lambda>i. s_Actions s ! i) (indexOf (s_Actions s) actionID cr_ActionID)"

lemma indexOf_None_iff: "indexOf rs x f = None \<longleftrightarrow> x \<notin> f ` set rs"
  by (induction rs) auto

lemma indexOf_SomeD: "indexOf rs x f = Some i \<Longrightarrow> i < length rs \<and> f (rs ! i) = x"
  by (induction rs arbitrary: i) (auto split: if_splits)

lemma indexOf_distinct:
  assumes "distinct (map f rs)" and "r \<in> set rs" and "f r = x"
  shows "\<exists>i. indexOf rs x f = Some i \<and> i < length rs \<and> rs ! i = r"
proof -
  from assms(2,3) have "indexOf rs x f \<noteq> None" by (auto simp: indexOf_None_iff)
  then obtain i where i: "indexOf rs x f = Some i" by auto
  from indexOf_SomeD[OF i] assms distinct_map_eqD[OF assms(1), of "rs ! i" r] i show ?thesis by auto
qed

lemma indexOf_append_new: "x \<notin> f ` set rs \<Longrightarrow> f r = x \<Longrightarrow> indexOf (rs @ [r]) x f = Some (length rs)"
  by (induction rs) auto

end
