(* ===== verification/Reducer.thy ===== *)
theory Reducer
  imports Events
begin

text \<open>
  lifecycle/reducer.go and lifecycle/reducer_apply.go: the reducer of one session's stream.
  A method that mutates the receiver takes it as its last argument and returns it; a method
  that may refuse returns the refusal beside the receiver it leaves behind
  (\<open>outcome\<close>, with \<open>None\<close> for Go's nil error).  \<open>frames\<close> is an optional map because an
  emitter's reducer keeps none (a nil map).  \<open>turnSeen\<close>, \<open>activitySeen\<close> and \<open>retired\<close> are
  sets; a missing \<open>actionCycle\<close> entry reads as the empty string.
\<close>

record Reducer =
  rd_negotiated :: Negotiated
  rd_state :: State
  rd_base :: u64
  rd_started :: bool
  rd_failed :: "ViolationError option"
  rd_frames :: "(u64 \<rightharpoonup> string) option"
  rd_turnSeen :: "string set"
  rd_activitySeen :: "string set"
  rd_blockedCycle :: string
  rd_actionCycle :: "string \<rightharpoonup> string"
  rd_retired :: "string set"

type_synonym outcome = "ViolationError option \<times> Reducer"

abbreviation turns :: "Reducer \<Rightarrow> TurnRecord list" where "turns r \<equiv> s_Turns (rd_state r)"
abbreviation activities :: "Reducer \<Rightarrow> ActivityRecord list" where "activities r \<equiv> s_Activities (rd_state r)"
abbreviation actions :: "Reducer \<Rightarrow> ActionRecord list" where "actions r \<equiv> s_Actions (rd_state r)"
abbreviation foreground :: "Reducer \<Rightarrow> Foreground option" where "foreground r \<equiv> s_Foreground (rd_state r)"

definition empty_state :: "string \<Rightarrow> State" where
  "empty_state streamID =
     \<lparr>s_StreamID = streamID, s_ReducedThrough = 0, s_SuppressedRetransmissions = 0, s_Foreground = None,
      s_Turns = [], s_Activities = [], s_Actions = [], s_Closed = False\<rparr>"

definition reset :: "string \<Rightarrow> Reducer \<Rightarrow> Reducer" where
  "reset streamID r =
     r\<lparr>rd_state := empty_state streamID, rd_base := 0, rd_started := False, rd_frames := Some Map.empty,
       rd_turnSeen := {}, rd_activitySeen := {}, rd_blockedCycle := [], rd_actionCycle := Map.empty\<rparr>"

text \<open>The zero reducer with what \<open>NewReducer\<close> and \<open>reduceForeign\<close> set, before \<open>reset\<close>.\<close>

definition blank_reducer :: "Negotiated \<Rightarrow> string set \<Rightarrow> Reducer" where
  "blank_reducer n retired =
     \<lparr>rd_negotiated = n, rd_state = empty_state [], rd_base = 0, rd_started = False, rd_failed = None,
      rd_frames = None, rd_turnSeen = {}, rd_activitySeen = {}, rd_blockedCycle = [],
      rd_actionCycle = Map.empty, rd_retired = retired\<rparr>"

definition NewReducer :: "Negotiated \<Rightarrow> Reducer" where
  "NewReducer n = reset [] (blank_reducer n {})"

definition Close :: "Reducer \<Rightarrow> Reducer" where
  "Close r = rd_state_update (s_Closed_update (\<lambda>_. True)) r"

definition fail :: "Delivery \<Rightarrow> ViolationKind \<Rightarrow> string \<Rightarrow> Reducer \<Rightarrow> outcome" where
  "fail d kind detail r =
     (let v = violation kind (dl_StreamID d) (dl_Sequence d) detail in (Some v, r\<lparr>rd_failed := Some v\<rparr>))"

definition commit :: "Delivery \<Rightarrow> Reducer \<Rightarrow> Reducer" where
  "commit d r =
     (let r = rd_state_update (s_ReducedThrough_update (\<lambda>_. dl_Sequence d)) r
      in r\<lparr>rd_frames := map_option (\<lambda>m. m(dl_Sequence d \<mapsto> frameDigest (dl_Frame d))) (rd_frames r)\<rparr>)"

section \<open>Lookups\<close>

definition turnKnown :: "Reducer \<Rightarrow> string \<Rightarrow> bool" where
  "turnKnown r turnID \<longleftrightarrow> turnID \<in> rd_turnSeen r"

definition activityKnown :: "Reducer \<Rightarrow> string \<Rightarrow> bool" where
  "activityKnown r activityID \<longleftrightarrow> activityID \<in> rd_activitySeen r"

definition turnIndex :: "Reducer \<Rightarrow> string \<Rightarrow> nat option" where
  "turnIndex r turnID = indexOf (turns r) turnID tr_TurnID"

definition activityIndex :: "Reducer \<Rightarrow> string \<Rightarrow> nat option" where
  "activityIndex r activityID = indexOf (activities r) activityID ar_ActivityID"

definition actionIndex :: "Reducer \<Rightarrow> string \<Rightarrow> nat option" where
  "actionIndex r actionID = indexOf (actions r) actionID cr_ActionID"

section \<open>First sights\<close>

definition checkActivityIdentity :: "Delivery \<Rightarrow> ActivityUpdate \<Rightarrow> Reducer \<Rightarrow> outcome" where
  "checkActivityIdentity d u r =
     (if au_Kind u = [] \<or> au_Cause u = [] \<or> au_OriginTurnID u = [] then
        fail d ViolationImmutableIdentityChange
          (''activity '' @ au_ActivityID u @ '' states an incomplete identity'') r
      else if \<not> declaresActivityKind (rd_negotiated r) (au_Kind u) then
        fail d ViolationUnnegotiatedFact (''activity kind '' @ au_Kind u) r
      else (None, r))"

definition checkActionIdentity :: "Delivery \<Rightarrow> ActionUpdate \<Rightarrow> Reducer \<Rightarrow> outcome" where
  "checkActionIdentity d u r =
     (if cu_Kind u = [] \<or> ow_ID (cu_Owner u) = [] \<or> cu_BlocksForeground u = None then
        fail d ViolationMalformedEnvelope
          (''action '' @ cu_ActionID u @ '' states an incomplete first sight'') r
      else (None, r))"

definition blocksForeground :: "ActionUpdate \<Rightarrow> bool" where
  "blocksForeground u \<longleftrightarrow> cu_BlocksForeground u = Some True"

definition ActivityRecord_of :: "ActivityUpdate \<Rightarrow> ActivityRecord" where
  "ActivityRecord_of u =
     \<lparr>ar_ActivityID = au_ActivityID u, ar_Kind = au_Kind u, ar_State = au_State u,
      ar_ParentID = au_ParentID u, ar_ToolCallID = au_ToolCallID u, ar_Cause = au_Cause u,
      ar_OriginTurnID = au_OriginTurnID u, ar_RunID = au_RunID u, ar_Progress = au_Progress u\<rparr>"

definition recordActivity :: "ActivityUpdate \<Rightarrow> Reducer \<Rightarrow> Reducer" where
  "recordActivity u r =
     (rd_state_update (s_Activities_update (\<lambda>as. as @ [ActivityRecord_of u])) r)
       \<lparr>rd_activitySeen := insert (au_ActivityID u) (rd_activitySeen r)\<rparr>"

definition blockForeground :: "ActionUpdate \<Rightarrow> Reducer \<Rightarrow> Reducer" where
  "blockForeground u r =
     (case foreground r of
        None \<Rightarrow> r
      | Some f \<Rightarrow>
          if \<not> blocksForeground u then r
          else (let r = r\<lparr>rd_actionCycle := (rd_actionCycle r)(cu_ActionID u \<mapsto> fg_CycleID f)\<rparr>
                in if fg_State f \<noteq> ForegroundRequiresAction then r\<lparr>rd_blockedCycle := fg_CycleID f\<rparr> else r))"

text \<open>\<open>*update.BlocksForeground\<close> is dereferenced only behind \<open>checkActionIdentity\<close>, which
  refuses a nil pointer, so the value read for nil below is never used.\<close>

definition ActionRecord_of :: "ActionUpdate \<Rightarrow> ActionRecord" where
  "ActionRecord_of u =
     \<lparr>cr_ActionID = cu_ActionID u, cr_Kind = cu_Kind u, cr_State = cu_State u, cr_Owner = cu_Owner u,
      cr_RunID = cu_RunID u,
      cr_BlocksForeground = (case cu_BlocksForeground u of Some b \<Rightarrow> b | None \<Rightarrow> False)\<rparr>"

definition recordAction :: "ActionUpdate \<Rightarrow> Reducer \<Rightarrow> Reducer" where
  "recordAction u r =
     (let r = rd_state_update (s_Actions_update (\<lambda>as. as @ [ActionRecord_of u])) r
      in if ActionState_Terminal (cu_State u) then r else blockForeground u r)"

section \<open>The opening snapshot\<close>

text \<open>lifecycle/decode.go shares this check with the reducer.\<close>

definition foregroundDefect :: "Foreground \<Rightarrow> string" where
  "foregroundDefect f =
     (if \<not> ForegroundState_Valid (fg_State f) then ''foreground state '' @ fg_State f
      else if fg_CycleID f = [] then ''the snapshot's foreground is incomplete''
      else if fg_State f = ForegroundIdle \<and> fg_TurnID f \<noteq> [] then ''an idle foreground reports no turn''
      else if fg_State f \<noteq> ForegroundIdle \<and> fg_TurnID f = [] then
        ''a '' @ fg_State f @ '' foreground names the turn that owns it''
      else if (fg_TurnID f = []) \<noteq> (fg_Origin f = []) then
        ''foreground origin is present exactly while a turn is''
      else if fg_Origin f \<noteq> [] \<and> fg_Origin f \<noteq> CauseSubmission \<and> fg_Origin f \<noteq> CauseActivity then
        ''foreground origin '' @ fg_Origin f
      else [])"

record introductions =
  in_turns :: "string set"
  in_activities :: "string set"

definition introduces :: "Snapshot \<Rightarrow> introductions" where
  "introduces s =
     \<lparr>in_turns = (if fg_TurnID (sn_Foreground s) \<noteq> [] then {fg_TurnID (sn_Foreground s)} else {})
                 \<union> set (map au_OriginTurnID (sn_Activities s)),
      in_activities = set (map au_ActivityID (sn_Activities s))\<rparr>"

definition holds :: "introductions \<Rightarrow> Owner \<Rightarrow> bool" where
  "holds i owner = (if ow_Type owner = OwnerActivity then ow_ID owner \<in> in_activities i
                    else ow_ID owner \<in> in_turns i)"

definition carriesBlocker :: "Snapshot \<Rightarrow> bool" where
  "carriesBlocker s = list_ex blocksForeground (sn_Actions s)"

fun checkSnapshotActivities ::
    "Delivery \<Rightarrow> introductions \<Rightarrow> string set \<Rightarrow> ActivityUpdate list \<Rightarrow> Reducer \<Rightarrow> outcome" where
  "checkSnapshotActivities d introduced listed [] r = (None, r)"
| "checkSnapshotActivities d introduced listed (a # as) r =
     (if au_ActivityID a \<in> listed then
        fail d ViolationMalformedEnvelope (''activity '' @ au_ActivityID a @ '' is listed twice'') r
      else and_then (checkActivityIdentity d a r) (\<lambda>r.
        if ActivityState_Terminal (au_State a) then
          fail d ViolationMalformedEnvelope (''activity '' @ au_ActivityID a @ '' is terminal'') r
        else if au_ParentID a \<noteq> [] \<and> au_ParentID a \<notin> in_activities introduced then
          fail d ViolationUnknownEntity (''parent activity '' @ au_ParentID a @ '' is not introduced'') r
        else checkSnapshotActivities d introduced (insert (au_ActivityID a) listed) as r))"

fun checkSnapshotActions ::
    "Delivery \<Rightarrow> introductions \<Rightarrow> string set \<Rightarrow> ActionUpdate list \<Rightarrow> Reducer \<Rightarrow> outcome" where
  "checkSnapshotActions d introduced listed [] r = (None, r)"
| "checkSnapshotActions d introduced listed (a # as) r =
     (if cu_ActionID a \<in> listed then
        fail d ViolationMalformedEnvelope (''action '' @ cu_ActionID a @ '' is listed twice'') r
      else and_then (checkActionIdentity d a r) (\<lambda>r.
        if ActionState_Terminal (cu_State a) then
          fail d ViolationMalformedEnvelope (''action '' @ cu_ActionID a @ '' is terminal'') r
        else if \<not> holds introduced (cu_Owner a) then
          fail d ViolationUnknownEntity
            (''owner '' @ ow_Type (cu_Owner a) @ '' '' @ ow_ID (cu_Owner a) @ '' is not introduced'') r
        else checkSnapshotActions d introduced (insert (cu_ActionID a) listed) as r))"

definition checkSnapshot :: "Delivery \<Rightarrow> Snapshot \<Rightarrow> Reducer \<Rightarrow> outcome" where
  "checkSnapshot d s r =
     (let detail = foregroundDefect (sn_Foreground s); introduced = introduces s
      in if detail \<noteq> [] then fail d ViolationMalformedEnvelope detail r
         else and_then (checkSnapshotActivities d introduced {} (sn_Activities s) r) (\<lambda>r.
              and_then (checkSnapshotActions d introduced {} (sn_Actions s) r) (\<lambda>r.
              if fg_State (sn_Foreground s) = ForegroundRequiresAction \<and> \<not> carriesBlocker s then
                fail d ViolationInconsistentForeground
                  (''cycle '' @ fg_CycleID (sn_Foreground s) @ '' lists no blocking action'') r
              else (None, r))))"

definition blank_turn :: "string \<Rightarrow> Cause \<Rightarrow> TurnRecord" where
  "blank_turn turnID origin =
     \<lparr>tr_TurnID = turnID, tr_Origin = origin, tr_Terminal = False, tr_Outcome = [], tr_SubmissionID = [],
      tr_ClientNonce = [], tr_RunID = [], tr_CycleID = [], tr_StopReason = []\<rparr>"

definition openTurn :: "TurnRecord \<Rightarrow> Reducer \<Rightarrow> Reducer" where
  "openTurn t r =
     (rd_state_update (s_Turns_update (\<lambda>ts. ts @ [t])) r)
       \<lparr>rd_turnSeen := insert (tr_TurnID t) (rd_turnSeen r)\<rparr>"

definition setForeground :: "Foreground \<Rightarrow> Reducer \<Rightarrow> Reducer" where
  "setForeground f r = rd_state_update (s_Foreground_update (\<lambda>_. Some f)) r"

definition projectActivity :: "ActivityUpdate \<Rightarrow> Reducer \<Rightarrow> Reducer" where
  "projectActivity u r =
     recordActivity u (r\<lparr>rd_turnSeen := insert (au_OriginTurnID u) (rd_turnSeen r)\<rparr>)"

definition projectSnapshot :: "Snapshot \<Rightarrow> Reducer \<Rightarrow> Reducer" where
  "projectSnapshot s r =
     (let f = sn_Foreground s;
          r = setForeground f r;
          r = (if fg_TurnID f \<noteq> [] then
                 openTurn ((blank_turn (fg_TurnID f) (fg_Origin f))\<lparr>tr_CycleID := fg_CycleID f\<rparr>) r
               else r);
          r = fold projectActivity (sn_Activities s) r
      in fold recordAction (sn_Actions s) r)"

definition applySnapshot :: "Delivery \<Rightarrow> Reducer \<Rightarrow> outcome" where
  "applySnapshot d r =
     (case ev_Snapshot (dl_Event d) of
        None \<Rightarrow> fail d ViolationMalformedEnvelope ''the snapshot payload is missing'' r
      | Some s \<Rightarrow> and_then (checkSnapshot d s r) (\<lambda>r. (None, projectSnapshot s r)))"

section \<open>Prompt acceptance\<close>

definition applyPromptAccepted :: "Delivery \<Rightarrow> Reducer \<Rightarrow> outcome" where
  "applyPromptAccepted d r =
     (case ev_PromptAccepted (dl_Event d) of
        None \<Rightarrow> fail d ViolationMalformedEnvelope ''the acceptance payload is missing'' r
      | Some p \<Rightarrow>
          if (case turnIndex r (pa_TurnID p) of None \<Rightarrow> False | Some i \<Rightarrow> tr_Terminal (turns r ! i)) then
            fail d ViolationPostTerminalMutation (''turn '' @ pa_TurnID p @ '' is terminal'') r
          else if turnKnown r (pa_TurnID p) then
            fail d ViolationImmutableIdentityChange
              (''turn '' @ pa_TurnID p @ '' was already introduced'') r
          else (None, openTurn ((blank_turn (pa_TurnID p) CauseSubmission)
                 \<lparr>tr_SubmissionID := pa_SubmissionID p, tr_ClientNonce := pa_ClientNonce p,
                  tr_RunID := pa_RunID p\<rparr>) r))"

section \<open>Foreground transitions\<close>

definition blocked :: "Reducer \<Rightarrow> string \<Rightarrow> bool" where
  "blocked r cycleID =
     list_ex (\<lambda>a. cr_BlocksForeground a \<and> \<not> ActionState_Terminal (cr_State a) \<and>
        (case rd_actionCycle r (cr_ActionID a) of None \<Rightarrow> [] | Some c \<Rightarrow> c) = cycleID) (actions r)"

definition checkBlockedCycle :: "Delivery \<Rightarrow> StateTransition \<Rightarrow> Reducer \<Rightarrow> outcome" where
  "checkBlockedCycle d t r =
     (if st_State t = ForegroundRequiresAction then
        if \<not> blocked r (st_CycleID t) then
          fail d ViolationInconsistentForeground
            (''cycle '' @ st_CycleID t @ '' has no outstanding blocking action'') r
        else (None, if rd_blockedCycle r = st_CycleID t then r\<lparr>rd_blockedCycle := []\<rparr> else r)
      else if blocked r (st_CycleID t) \<or> rd_blockedCycle r = st_CycleID t then
        fail d ViolationInconsistentForeground
          (''cycle '' @ st_CycleID t @ '' is blocked and reported '' @ st_State t) r
      else (None, r))"

definition foreground_of :: "ForegroundState \<Rightarrow> string \<Rightarrow> string \<Rightarrow> Foreground" where
  "foreground_of state cycleID turnID =
     \<lparr>fg_State = state, fg_CycleID = cycleID, fg_TurnID = turnID, fg_Origin = []\<rparr>"

definition updateTurn :: "nat \<Rightarrow> (TurnRecord \<Rightarrow> TurnRecord) \<Rightarrow> Reducer \<Rightarrow> Reducer" where
  "updateTurn i f r = rd_state_update (s_Turns_update (\<lambda>ts. ts[i := f (ts ! i)])) r"

definition applyLive :: "Delivery \<Rightarrow> StateTransition \<Rightarrow> Reducer \<Rightarrow> outcome" where
  "applyLive d t r =
     (let report = (\<lambda>i r. (None,
            setForeground (foreground_of (st_State t) (st_CycleID t) (st_TurnID t))
              (updateTurn i (tr_CycleID_update (\<lambda>_. st_CycleID t)) r)))
      in case turnIndex r (st_TurnID t) of
           Some i \<Rightarrow>
             if tr_Terminal (turns r ! i) then
               fail d ViolationPostTerminalMutation (''turn '' @ st_TurnID t @ '' is terminal'') r
             else report i r
         | None \<Rightarrow>
             if st_Cause t \<noteq> CauseActivity \<or> st_State t \<noteq> ForegroundRunning then
               fail d ViolationUnknownEntity (''turn '' @ st_TurnID t @ '' was never opened'') r
             else report (length (turns r)) (openTurn (blank_turn (st_TurnID t) CauseActivity) r))"

definition endTurn :: "StateTransition \<Rightarrow> TurnRecord \<Rightarrow> TurnRecord" where
  "endTurn t turn =
     turn\<lparr>tr_Terminal := True, tr_StopReason := st_StopReason t, tr_Outcome := st_Outcome t,
          tr_CycleID := st_CycleID t\<rparr>"

definition applyIdle :: "Delivery \<Rightarrow> StateTransition \<Rightarrow> Reducer \<Rightarrow> outcome" where
  "applyIdle d t r =
     (let idle = foreground_of ForegroundIdle (st_CycleID t) []
      in if st_TurnID t = [] then (None, setForeground idle r)
         else case turnIndex r (st_TurnID t) of
           Some i \<Rightarrow>
             if tr_Terminal (turns r ! i) then
               fail d ViolationPostTerminalMutation (''turn '' @ st_TurnID t @ '' is terminal'') r
             else (None, setForeground idle (updateTurn i (endTurn t) r))
         | None \<Rightarrow> fail d ViolationUnknownEntity (''turn '' @ st_TurnID t @ '' was never opened'') r)"

definition applyStateUpdate :: "Delivery \<Rightarrow> Reducer \<Rightarrow> outcome" where
  "applyStateUpdate d r =
     (case ev_State (dl_Event d) of
        None \<Rightarrow> fail d ViolationMalformedEnvelope ''the transition payload is missing'' r
      | Some t \<Rightarrow>
          if namelessTurnDefect t \<noteq> [] then fail d ViolationMalformedEnvelope (namelessTurnDefect t) r
          else if endingIdleDefect t \<noteq> [] then fail d ViolationMalformedEnvelope (endingIdleDefect t) r
          else and_then (checkBlockedCycle d t r) (\<lambda>r.
            if st_State t = ForegroundIdle then applyIdle d t r else applyLive d t r))"

section \<open>Activities\<close>

definition immutableActivityConflict :: "ActivityRecord \<Rightarrow> ActivityUpdate \<Rightarrow> string" where
  "immutableActivityConflict e u =
     (if au_Kind u \<noteq> [] \<and> au_Kind u \<noteq> ar_Kind e then ''activity '' @ au_ActivityID u @ '' changed kind''
      else if au_ParentID u \<noteq> [] \<and> au_ParentID u \<noteq> ar_ParentID e then
        ''activity '' @ au_ActivityID u @ '' changed parent''
      else if au_ToolCallID u \<noteq> [] \<and> au_ToolCallID u \<noteq> ar_ToolCallID e then
        ''activity '' @ au_ActivityID u @ '' changed tool link''
      else if au_Cause u \<noteq> [] \<and> au_Cause u \<noteq> ar_Cause e then
        ''activity '' @ au_ActivityID u @ '' changed cause''
      else if au_OriginTurnID u \<noteq> [] \<and> au_OriginTurnID u \<noteq> ar_OriginTurnID e then
        ''activity '' @ au_ActivityID u @ '' changed origin turn''
      else if au_RunID u \<noteq> [] \<and> au_RunID u \<noteq> ar_RunID e then
        ''activity '' @ au_ActivityID u @ '' changed ownership root''
      else [])"

definition terminalActivityDifference :: "ActivityRecord \<Rightarrow> ActivityUpdate \<Rightarrow> string" where
  "terminalActivityDifference e u =
     (if immutableActivityConflict e u \<noteq> [] then immutableActivityConflict e u
      else if au_State u \<noteq> ar_State e then ''activity '' @ au_ActivityID u @ '' is terminal''
      else if au_Progress u \<noteq> None \<and> \<not> rawEqual (au_Progress u) (ar_Progress e) then
        ''activity '' @ au_ActivityID u @ '' changed progress after it finished''
      else [])"

definition checkActivityReferences :: "Delivery \<Rightarrow> ActivityUpdate \<Rightarrow> Reducer \<Rightarrow> outcome" where
  "checkActivityReferences d u r =
     (if \<not> turnKnown r (au_OriginTurnID u) then
        fail d ViolationUnknownEntity (''origin turn '' @ au_OriginTurnID u @ '' was never opened'') r
      else if au_ParentID u \<noteq> [] \<and> \<not> activityKnown r (au_ParentID u) then
        fail d ViolationUnknownEntity (''parent activity '' @ au_ParentID u @ '' was never seen'') r
      else (None, r))"

definition checkActivityParent :: "Delivery \<Rightarrow> string \<Rightarrow> string \<Rightarrow> Reducer \<Rightarrow> outcome" where
  "checkActivityParent d activityID parentID r =
     (case activityIndex r parentID of
        None \<Rightarrow> (None, r)
      | Some i \<Rightarrow>
          if parentID = [] \<or> activityID = parentID then (None, r)
          else if ActivityState_Terminal (ar_State (activities r ! i)) then
            fail d ViolationChildAfterParentTerminal (''parent '' @ parentID @ '' is terminal'') r
          else (None, r))"

text \<open>The two loops of \<open>checkDescendantsTerminal\<close> refuse at the first live child, then at the
  first unresolved action.\<close>

definition checkDescendantsTerminal :: "Delivery \<Rightarrow> string \<Rightarrow> Reducer \<Rightarrow> outcome" where
  "checkDescendantsTerminal d activityID r =
     (case find (\<lambda>c. ar_ParentID c = activityID \<and> \<not> ActivityState_Terminal (ar_State c)) (activities r) of
        Some c \<Rightarrow> fail d ViolationParentTerminalBeforeChild (''child '' @ ar_ActivityID c @ '' is live'') r
      | None \<Rightarrow>
          (case find (\<lambda>a. ow_Type (cr_Owner a) = OwnerActivity \<and> ow_ID (cr_Owner a) = activityID
                        \<and> \<not> ActionState_Terminal (cr_State a)) (actions r) of
             Some a \<Rightarrow> fail d ViolationParentTerminalBeforeChild
                         (''action '' @ cr_ActionID a @ '' is unresolved'') r
           | None \<Rightarrow> (None, r)))"

definition updateActivity :: "nat \<Rightarrow> (ActivityRecord \<Rightarrow> ActivityRecord) \<Rightarrow> Reducer \<Rightarrow> Reducer" where
  "updateActivity i f r = rd_state_update (s_Activities_update (\<lambda>as. as[i := f (as ! i)])) r"

definition patched :: "ActivityUpdate \<Rightarrow> ActivityRecord \<Rightarrow> ActivityRecord" where
  "patched u a =
     (let a = a\<lparr>ar_State := au_State u\<rparr>
      in if au_Progress u \<noteq> None then a\<lparr>ar_Progress := au_Progress u\<rparr> else a)"

definition patchActivity :: "Delivery \<Rightarrow> ActivityUpdate \<Rightarrow> nat \<Rightarrow> Reducer \<Rightarrow> outcome" where
  "patchActivity d u i r =
     (let existing = activities r ! i
      in if ActivityState_Terminal (ar_State existing) then
           if terminalActivityDifference existing u \<noteq> [] then
             fail d ViolationPostTerminalMutation (terminalActivityDifference existing u) r
           else (None, r)
         else if immutableActivityConflict existing u \<noteq> [] then
           fail d ViolationImmutableIdentityChange (immutableActivityConflict existing u) r
         else and_then
           (if ActivityState_Terminal (au_State u) then checkDescendantsTerminal d (ar_ActivityID existing) r
            else (None, r))
           (\<lambda>r. (None, updateActivity i (patched u) r)))"

definition applyActivityUpdate :: "Delivery \<Rightarrow> Reducer \<Rightarrow> outcome" where
  "applyActivityUpdate d r =
     (case ev_Activity (dl_Event d) of
        None \<Rightarrow> fail d ViolationMalformedEnvelope ''the activity payload is missing'' r
      | Some u \<Rightarrow>
          (case activityIndex r (au_ActivityID u) of
             Some i \<Rightarrow> patchActivity d u i r
           | None \<Rightarrow>
               and_then (checkActivityIdentity d u r) (\<lambda>r.
               and_then (checkActivityReferences d u r) (\<lambda>r.
               and_then (checkActivityParent d (au_ActivityID u) (au_ParentID u) r) (\<lambda>r.
               (None, recordActivity u r))))))"

section \<open>Actions\<close>

definition immutableActionConflict :: "ActionRecord \<Rightarrow> ActionUpdate \<Rightarrow> string" where
  "immutableActionConflict e u =
     (if cu_Kind u \<noteq> [] \<and> cu_Kind u \<noteq> cr_Kind e then ''action '' @ cu_ActionID u @ '' changed kind''
      else if ow_ID (cu_Owner u) \<noteq> [] \<and> cu_Owner u \<noteq> cr_Owner e then
        ''action '' @ cu_ActionID u @ '' changed owner''
      else if cu_RunID u \<noteq> [] \<and> cu_RunID u \<noteq> cr_RunID e then
        ''action '' @ cu_ActionID u @ '' changed ownership root''
      else if cu_BlocksForeground u \<noteq> None \<and> cu_BlocksForeground u \<noteq> Some (cr_BlocksForeground e) then
        ''action '' @ cu_ActionID u @ '' changed what it blocks''
      else [])"

definition terminalActionDifference :: "ActionRecord \<Rightarrow> ActionUpdate \<Rightarrow> string" where
  "terminalActionDifference e u =
     (if immutableActionConflict e u \<noteq> [] then immutableActionConflict e u
      else if cu_State u \<noteq> cr_State e then ''action '' @ cu_ActionID u @ '' is terminal''
      else [])"

definition checkActionOwner :: "Delivery \<Rightarrow> ActionUpdate \<Rightarrow> Reducer \<Rightarrow> outcome" where
  "checkActionOwner d u r =
     (let known = (if ow_Type (cu_Owner u) = OwnerActivity then activityKnown r (ow_ID (cu_Owner u))
                   else turnKnown r (ow_ID (cu_Owner u)))
      in if \<not> known then
           fail d ViolationUnknownEntity
             (''owner '' @ ow_Type (cu_Owner u) @ '' '' @ ow_ID (cu_Owner u) @ '' was never opened'') r
         else (None, r))"

definition updateAction :: "nat \<Rightarrow> (ActionRecord \<Rightarrow> ActionRecord) \<Rightarrow> Reducer \<Rightarrow> Reducer" where
  "updateAction i f r = rd_state_update (s_Actions_update (\<lambda>as. as[i := f (as ! i)])) r"

definition patchAction :: "Delivery \<Rightarrow> ActionUpdate \<Rightarrow> nat \<Rightarrow> Reducer \<Rightarrow> outcome" where
  "patchAction d u i r =
     (let existing = actions r ! i
      in if ActionState_Terminal (cr_State existing) then
           if terminalActionDifference existing u \<noteq> [] then
             fail d ViolationPostTerminalMutation (terminalActionDifference existing u) r
           else (None, r)
         else if immutableActionConflict existing u \<noteq> [] then
           fail d ViolationImmutableIdentityChange (immutableActionConflict existing u) r
         else (None, updateAction i (cr_State_update (\<lambda>_. cu_State u)) r))"

definition applyActionUpdate :: "Delivery \<Rightarrow> Reducer \<Rightarrow> outcome" where
  "applyActionUpdate d r =
     (case ev_Action (dl_Event d) of
        None \<Rightarrow> fail d ViolationMalformedEnvelope ''the action payload is missing'' r
      | Some u \<Rightarrow>
          (case actionIndex r (cu_ActionID u) of
             Some i \<Rightarrow> patchAction d u i r
           | None \<Rightarrow>
               and_then (checkActionIdentity d u r) (\<lambda>r.
               and_then (checkActionOwner d u r) (\<lambda>r.
               (None, recordAction u r)))))"

section \<open>Reduction\<close>

definition apply_event :: "Delivery \<Rightarrow> Reducer \<Rightarrow> outcome" where
  "apply_event d r =
     (let type = ev_Type (dl_Event d)
      in if type = EventPromptAccepted then applyPromptAccepted d r
         else if type = EventStateUpdate then applyStateUpdate d r
         else if type = EventActivityUpdate then applyActivityUpdate d r
         else if type = EventActionUpdate then applyActionUpdate d r
         else fail d ViolationMalformedEnvelope (''event type '' @ type) r)"

definition reduceFirst :: "Delivery \<Rightarrow> Reducer \<Rightarrow> outcome" where
  "reduceFirst d r =
     (let r = rd_state_update (s_StreamID_update (\<lambda>_. dl_StreamID d)) r
      in if ev_Type (dl_Event d) \<noteq> EventSnapshot then
           fail d ViolationDeltaBeforeSnapshot (''first event was '' @ ev_Type (dl_Event d)) r
         else (case applySnapshot d (r\<lparr>rd_started := True, rd_base := dl_Sequence d\<rparr>) of
                 (Some e, r) \<Rightarrow> (Some e, r\<lparr>rd_started := False\<rparr>)
               | (None, r) \<Rightarrow> (None, commit d r)))"

definition reduceDuplicate :: "Delivery \<Rightarrow> Reducer \<Rightarrow> outcome" where
  "reduceDuplicate d r =
     (if (case rd_frames r of None \<Rightarrow> None | Some m \<Rightarrow> m (dl_Sequence d)) = Some (frameDigest (dl_Frame d)) then
        (None, rd_state_update (s_SuppressedRetransmissions_update (\<lambda>n. n + 1)) r)
      else fail d ViolationConflictingDuplicate ''the identity already delivered different content'' r)"

definition reduceForeign :: "Delivery \<Rightarrow> Reducer \<Rightarrow> outcome" where
  "reduceForeign d r =
     (if ev_Type (dl_Event d) \<noteq> EventSnapshot then
        fail d ViolationStaleStream (''stream is '' @ s_StreamID (rd_state r)) r
      else if dl_StreamID d \<in> rd_retired r then
        fail d ViolationStaleStream ''the incarnation was superseded'' r
      else (case reduceFirst d (reset (dl_StreamID d) (blank_reducer (rd_negotiated r) (rd_retired r))) of
              (Some e, next) \<Rightarrow> (Some e, r\<lparr>rd_failed := rd_failed next\<rparr>)
            | (None, next) \<Rightarrow>
                (None, (rd_state_update (s_Closed_update (\<lambda>_. s_Closed (rd_state r))) next)
                         \<lparr>rd_retired := insert (s_StreamID (rd_state r)) (rd_retired next)\<rparr>)))"

definition Reduce :: "Delivery \<Rightarrow> Reducer \<Rightarrow> outcome" where
  "Reduce d r =
     (let s = rd_state r
      in if rd_failed r \<noteq> None then (rd_failed r, r)
         else if dl_Carrier d \<noteq> CarrierSessionInfo then
           fail d ViolationIllegalCarrier (''carrier '' @ carrier_token (dl_Carrier d)) r
         else if s_Closed s then fail d ViolationStaleStream ''the session's close completed'' r
         else if \<not> rd_started r then reduceFirst d r
         else if dl_StreamID d \<noteq> s_StreamID s then reduceForeign d r
         else if dl_Sequence d < rd_base r then
           fail d ViolationSequenceRegression ''below the stream's snapshot boundary'' r
         else if dl_Sequence d \<le> s_ReducedThrough s then reduceDuplicate d r
         else if dl_Sequence d > s_ReducedThrough s + 1 then
           fail d ViolationSequenceGap ''expected the next contiguous sequence'' r
         else if ev_Type (dl_Event d) = EventSnapshot then
           fail d ViolationStreamCycle ''a snapshot opens a stream and never appears inside one'' r
         else (case apply_event d r of
                 (Some e, r) \<Rightarrow> (Some e, r)
               | (None, r) \<Rightarrow> (None, commit d r)))"

fun reduce_all :: "Delivery list \<Rightarrow> Reducer \<Rightarrow> Reducer" where
  "reduce_all [] r = r"
| "reduce_all (d # ds) r = reduce_all ds (snd (Reduce d r))"

end
