(* ===== verification/ReducerFrame.thy ===== *)
theory ReducerFrame
  imports Reducer
begin

text \<open>
  What a refusal leaves behind and what an acceptance may touch.  \<open>refusal_of\<close> is the
  contract every handler of an event keeps when it refuses: the error names the delivery's
  own ordering identity, it is latched, and nothing else of the reducer changes but possibly
  the owed transition \<open>blockedCycle\<close>; in particular the projection stands.  \<open>carried\<close> is the
  bookkeeping no handler touches when it accepts.  The locale \<open>event_handler\<close> states both,
  and is interpreted by each of the five handlers of the source and by their dispatch.
\<close>

section \<open>The contracts\<close>

definition refusal_of :: "Delivery \<Rightarrow> Reducer \<Rightarrow> outcome \<Rightarrow> bool" where
  "refusal_of d r out \<longleftrightarrow>
     (case fst out of None \<Rightarrow> True
      | Some e \<Rightarrow> ve_StreamID e = dl_StreamID d \<and> ve_Sequence e = dl_Sequence d \<and>
          snd out = r\<lparr>rd_failed := Some e, rd_blockedCycle := rd_blockedCycle (snd out)\<rparr>)"

definition same_bookkeeping :: "Reducer \<Rightarrow> Reducer \<Rightarrow> bool" where
  "same_bookkeeping r r' \<longleftrightarrow>
     rd_negotiated r' = rd_negotiated r \<and> rd_base r' = rd_base r \<and> rd_started r' = rd_started r \<and>
     rd_failed r' = rd_failed r \<and> rd_frames r' = rd_frames r \<and> rd_retired r' = rd_retired r \<and>
     s_StreamID (rd_state r') = s_StreamID (rd_state r) \<and>
     s_ReducedThrough (rd_state r') = s_ReducedThrough (rd_state r) \<and>
     s_SuppressedRetransmissions (rd_state r') = s_SuppressedRetransmissions (rd_state r) \<and>
     s_Closed (rd_state r') = s_Closed (rd_state r)"

definition carried :: "Reducer \<Rightarrow> outcome \<Rightarrow> bool" where
  "carried r out \<longleftrightarrow> (fst out = None \<longrightarrow> same_bookkeeping r (snd out))"

lemma same_bookkeeping_refl [simp]: "same_bookkeeping r r"
  by (simp add: same_bookkeeping_def)

lemma same_bookkeeping_trans: "same_bookkeeping r s \<Longrightarrow> same_bookkeeping s t \<Longrightarrow> same_bookkeeping r t"
  by (simp add: same_bookkeeping_def)

section \<open>Rules for the contracts\<close>

lemma fail_neq_None [simp]: "fst (fail d k t r) \<noteq> None" "fail d k t r \<noteq> (None, s)" "(None, s) \<noteq> fail d k t r"
  by (simp_all add: fail_def Let_def)

lemma fail_failed [simp]: "rd_failed (snd (fail d k t r)) = fst (fail d k t r)"
  by (simp add: fail_def Let_def)

lemma fail_eq_iff:
  "fail d k t r = (Some e, s) \<longleftrightarrow>
     e = violation k (dl_StreamID d) (dl_Sequence d) t \<and> s = r\<lparr>rd_failed := Some e\<rparr>"
  by (auto simp: fail_def Let_def)

lemma refusal_fail [simp]: "refusal_of d r (fail d k t r)"
  by (simp add: refusal_of_def fail_def Let_def)

lemma refusal_None [simp]: "refusal_of d r (None, s)"
  by (simp add: refusal_of_def)

lemma carried_fail [simp]: "carried r (fail d k t s)"
  by (simp add: carried_def)

lemma carried_None: "carried r (None, s) \<longleftrightarrow> same_bookkeeping r s"
  by (simp add: carried_def)

text \<open>A pure check returns the reducer it was given or refuses.\<close>

definition check_of :: "Delivery \<Rightarrow> Reducer \<Rightarrow> outcome \<Rightarrow> bool" where
  "check_of d r out \<longleftrightarrow> refusal_of d r out \<and> (fst out = None \<longrightarrow> snd out = r)"

lemma check_fail [simp]: "check_of d r (fail d k t r)"
  by (simp add: check_of_def)

lemma check_None [simp]: "check_of d r (None, r)"
  by (simp add: check_of_def)

lemma check_refusal: "check_of d r c \<Longrightarrow> refusal_of d r c"
  by (simp add: check_of_def)

lemma check_carried: "check_of d r c \<Longrightarrow> carried r c"
  by (simp add: check_of_def carried_def)

lemma check_accepts: "check_of d r c \<Longrightarrow> c = (None, s) \<Longrightarrow> s = r"
  by (simp add: check_of_def)

lemma check_and_then:
  assumes "check_of d r c" and "fst c = None \<Longrightarrow> check_of d r (k r)"
  shows "check_of d r (and_then c k)"
  using assms by (cases c) (auto simp: check_of_def and_then_def split: option.splits)

text \<open>A handler refuses or accepts under the contract.\<close>

definition handled :: "Delivery \<Rightarrow> Reducer \<Rightarrow> outcome \<Rightarrow> bool" where
  "handled d r out \<longleftrightarrow> refusal_of d r out \<and> carried r out"

lemma handled_fail [simp]: "handled d r (fail d k t r)"
  by (simp add: handled_def)

lemma handled_None [simp]: "handled d r (None, s) \<longleftrightarrow> same_bookkeeping r s"
  by (simp add: handled_def carried_None)

lemma handled_and_then [simp]:
  "check_of d r c \<Longrightarrow> handled d r (k r) \<Longrightarrow> handled d r (and_then c k)"
  by (cases c) (auto simp: check_of_def and_then_def carried_def handled_def split: option.splits)

section \<open>Checks\<close>

lemma check_checkActivityIdentity [simp]: "check_of d r (checkActivityIdentity d u r)"
  by (simp add: checkActivityIdentity_def)

lemma check_checkActionIdentity [simp]: "check_of d r (checkActionIdentity d u r)"
  by (simp add: checkActionIdentity_def)

lemma check_checkActivityReferences [simp]: "check_of d r (checkActivityReferences d u r)"
  by (simp add: checkActivityReferences_def)

lemma check_checkActivityParent [simp]: "check_of d r (checkActivityParent d i p r)"
  by (simp add: checkActivityParent_def split: option.split)

lemma check_checkDescendantsTerminal [simp]: "check_of d r (checkDescendantsTerminal d i r)"
  by (simp add: checkDescendantsTerminal_def split: option.split)

lemma check_checkActionOwner [simp]: "check_of d r (checkActionOwner d u r)"
  by (simp add: checkActionOwner_def Let_def)

lemma check_checkSnapshotActivities [simp]: "check_of d r (checkSnapshotActivities d i listed as r)"
  by (induction as arbitrary: listed) (auto intro!: check_and_then)

lemma check_checkSnapshotActions [simp]: "check_of d r (checkSnapshotActions d i listed as r)"
  by (induction as arbitrary: listed) (auto intro!: check_and_then)

lemma check_checkSnapshot [simp]: "check_of d r (checkSnapshot d s r)"
  by (auto simp: checkSnapshot_def Let_def intro!: check_and_then)

section \<open>Updates keep the bookkeeping\<close>

lemma keeps_recordActivity [simp]: "same_bookkeeping r (recordActivity u r)"
  by (simp add: recordActivity_def same_bookkeeping_def)

lemma keeps_blockForeground [simp]: "same_bookkeeping r (blockForeground u r)"
  by (simp add: blockForeground_def same_bookkeeping_def Let_def split: option.split)

lemma keeps_recordAction [simp]: "same_bookkeeping r (recordAction u r)"
proof -
  let ?s = "rd_state_update (s_Actions_update (\<lambda>as. as @ [ActionRecord_of u])) r"
  have "same_bookkeeping r ?s" by (simp add: same_bookkeeping_def)
  then show ?thesis
    using same_bookkeeping_trans[OF _ keeps_blockForeground[of ?s u]] by (simp add: recordAction_def Let_def)
qed

lemma keeps_openTurn [simp]: "same_bookkeeping r (openTurn t r)"
  by (simp add: openTurn_def same_bookkeeping_def)

lemma keeps_setForeground [simp]: "same_bookkeeping r (setForeground f r)"
  by (simp add: setForeground_def same_bookkeeping_def)

lemma keeps_updates [simp]:
  "same_bookkeeping r (updateTurn i f r)" "same_bookkeeping r (updateActivity i g r)"
  "same_bookkeeping r (updateAction i h r)"
  by (simp_all add: updateTurn_def updateActivity_def updateAction_def same_bookkeeping_def)

lemma keeps_projectActivity [simp]: "same_bookkeeping r (projectActivity u r)"
  by (simp add: projectActivity_def recordActivity_def same_bookkeeping_def)

lemma keeps_fold: "(\<And>x r. same_bookkeeping r (f x r)) \<Longrightarrow> same_bookkeeping r (fold f xs r)"
  by (induction xs arbitrary: r) (auto intro: same_bookkeeping_trans)

lemma keeps_projectSnapshot [simp]: "same_bookkeeping r (projectSnapshot s r)"
  unfolding projectSnapshot_def Let_def
  by (intro same_bookkeeping_trans[OF _ keeps_fold] keeps_projectActivity keeps_recordAction)
    (auto intro: same_bookkeeping_trans[OF keeps_setForeground keeps_openTurn])

section \<open>The handlers\<close>

locale event_handler =
  fixes handle :: "Delivery \<Rightarrow> Reducer \<Rightarrow> outcome"
  assumes refuses: "refusal_of d r (handle d r)"
    and accepts: "carried r (handle d r)"
begin

lemma refused_identity:
  "handle d r = (Some e, r') \<Longrightarrow> ve_StreamID e = dl_StreamID d \<and> ve_Sequence e = dl_Sequence d"
  using refuses[of d r] by (simp add: refusal_of_def)

lemma refused_shape:
  "handle d r = (Some e, r') \<Longrightarrow> r' = r\<lparr>rd_failed := Some e, rd_blockedCycle := rd_blockedCycle r'\<rparr>"
  using refuses[of d r] by (simp add: refusal_of_def)

text \<open>A refused event leaves the projection exactly as it stood, and is latched.\<close>

lemma refused_projection:
  assumes "handle d r = (Some e, r')"
  shows "rd_state r' = rd_state r \<and> rd_failed r' = Some e"
  by (subst (1 2) refused_shape[OF assms]) simp

lemma accepted_bookkeeping: "handle d r = (None, r') \<Longrightarrow> same_bookkeeping r r'"
  using accepts[of r d] by (simp add: carried_def)

end

lemma handled_applySnapshot: "handled d r (applySnapshot d r)"
  by (cases "ev_Snapshot (dl_Event d)") (simp_all add: applySnapshot_def)

lemma handled_applyPromptAccepted: "handled d r (applyPromptAccepted d r)"
  by (simp add: applyPromptAccepted_def split: option.split)

lemma same_bookkeeping_blockedCycle [simp]: "same_bookkeeping r (r\<lparr>rd_blockedCycle := c\<rparr>)"
  by (simp add: same_bookkeeping_def)

lemma handled_blockedCycle: "handled d (r\<lparr>rd_blockedCycle := c\<rparr>) out \<Longrightarrow> handled d r out"
  by (auto simp: handled_def refusal_of_def carried_def same_bookkeeping_def split: option.splits)

lemma handled_applyLive: "handled d r (applyLive d t r)"
  by (simp add: applyLive_def Let_def same_bookkeeping_def setForeground_def updateTurn_def
      openTurn_def split: option.split)

lemma handled_applyIdle: "handled d r (applyIdle d t r)"
  by (simp add: applyIdle_def Let_def same_bookkeeping_def setForeground_def updateTurn_def
      split: option.split)

text \<open>The blocked-cycle check refuses, or settles what the foreground owes.\<close>

lemma checkBlockedCycle_cases:
  obtains (refused) k x where "checkBlockedCycle d t r = fail d k x r"
  | (passed) c where "checkBlockedCycle d t r = (None, r\<lparr>rd_blockedCycle := c\<rparr>)"
proof -
  have "(\<exists>k x. checkBlockedCycle d t r = fail d k x r) \<or>
        checkBlockedCycle d t r = (None, r\<lparr>rd_blockedCycle := rd_blockedCycle r\<rparr>) \<or>
        checkBlockedCycle d t r = (None, r\<lparr>rd_blockedCycle := []\<rparr>)"
    by (cases "st_State t = ForegroundRequiresAction"; cases "blocked r (st_CycleID t)";
        cases "rd_blockedCycle r = st_CycleID t"; simp add: checkBlockedCycle_def; blast)
  then show thesis using refused passed by blast
qed

lemma handled_checkBlockedCycle:
  assumes "\<And>c. handled d (r\<lparr>rd_blockedCycle := c\<rparr>) (k (r\<lparr>rd_blockedCycle := c\<rparr>))"
  shows "handled d r (and_then (checkBlockedCycle d t r) k)"
proof (cases rule: checkBlockedCycle_cases[of d t r])
  case (refused k' x)
  then show ?thesis by (simp add: fail_def Let_def refusal_of_def carried_def handled_def)
next
  case (passed c)
  with assms show ?thesis by (auto intro: handled_blockedCycle)
qed

lemma handled_applyStateUpdate: "handled d r (applyStateUpdate d r)"
  by (cases "ev_State (dl_Event d)")
    (simp_all add: applyStateUpdate_def handled_checkBlockedCycle handled_applyLive handled_applyIdle)

lemma handled_patchActivity: "handled d r (patchActivity d u i r)"
  by (simp add: patchActivity_def Let_def)

lemma handled_applyActivityUpdate: "handled d r (applyActivityUpdate d r)"
proof (cases "ev_Activity (dl_Event d)")
  case (Some u)
  then show ?thesis
    by (cases "activityIndex r (au_ActivityID u)") (simp_all add: applyActivityUpdate_def handled_patchActivity)
qed (simp add: applyActivityUpdate_def)

lemma handled_applyActionUpdate: "handled d r (applyActionUpdate d r)"
proof (cases "ev_Action (dl_Event d)")
  case (Some u)
  then show ?thesis
    by (cases "actionIndex r (cu_ActionID u)") (simp_all add: applyActionUpdate_def patchAction_def Let_def)
qed (simp add: applyActionUpdate_def)

lemma handled_apply_event: "handled d r (apply_event d r)"
  by (simp add: apply_event_def Let_def handled_applyPromptAccepted handled_applyStateUpdate
      handled_applyActivityUpdate handled_applyActionUpdate)

interpretation snapshot: event_handler applySnapshot
  by unfold_locales (simp_all add: handled_applySnapshot[unfolded handled_def])

interpretation accepted: event_handler applyPromptAccepted
  by unfold_locales (simp_all add: handled_applyPromptAccepted[unfolded handled_def])

interpretation transition: event_handler applyStateUpdate
  by unfold_locales (simp_all add: handled_applyStateUpdate[unfolded handled_def])

interpretation activity: event_handler applyActivityUpdate
  by unfold_locales (simp_all add: handled_applyActivityUpdate[unfolded handled_def])

interpretation action: event_handler applyActionUpdate
  by unfold_locales (simp_all add: handled_applyActionUpdate[unfolded handled_def])

interpretation event: event_handler apply_event
  by unfold_locales (simp_all add: handled_apply_event[unfolded handled_def])

end
