(* ===== verification/ReducerInv.thy ===== *)
theory ReducerInv
  imports ReducerFrame
begin

text \<open>
  The well-formedness of a projection and how one event moves it.  \<open>projection_ok\<close> is what
  holds of every projection the reducer reports, whatever deliveries it was given; \<open>evolves\<close>
  is the order on projections of one stream: records are never removed or renamed, and a
  terminal record never changes again.  The locale \<open>delta_handler\<close> extends
  \<open>event_handler\<close> with both laws and is interpreted by the four delta handlers and by their
  dispatch; the opening snapshot gets its own lemma, since it starts from the empty
  projection.
\<close>

section \<open>Well-formed projections\<close>

definition turn_ok :: "TurnRecord \<Rightarrow> bool" where
  "turn_ok t \<longleftrightarrow>
     (if tr_Terminal t then tr_Outcome t \<noteq> [] \<and> (tr_StopReason t = [] \<longleftrightarrow> tr_Outcome t = OutcomeFailed)
      else tr_Outcome t = [] \<and> tr_StopReason t = [])"

definition turns_ok :: "Reducer \<Rightarrow> bool" where
  "turns_ok r \<longleftrightarrow> distinct (map tr_TurnID (turns r)) \<and> tr_TurnID ` set (turns r) \<subseteq> rd_turnSeen r \<and>
     list_all turn_ok (turns r)"

definition activity_ok :: "Reducer \<Rightarrow> ActivityRecord \<Rightarrow> bool" where
  "activity_ok r a \<longleftrightarrow> ar_Kind a \<noteq> [] \<and> ar_Cause a \<noteq> [] \<and> ar_OriginTurnID a \<noteq> [] \<and>
     declaresActivityKind (rd_negotiated r) (ar_Kind a) \<and>
     ar_OriginTurnID a \<in> rd_turnSeen r \<and> (ar_ParentID a = [] \<or> ar_ParentID a \<in> rd_activitySeen r)"

text \<open>A terminal parent has no live child.\<close>

definition families_ok :: "ActivityRecord list \<Rightarrow> bool" where
  "families_ok as \<longleftrightarrow>
     (\<forall>p \<in> set as. \<forall>c \<in> set as. ar_ParentID c = ar_ActivityID p \<and> ar_ParentID c \<noteq> [] \<and>
        ActivityState_Terminal (ar_State p) \<longrightarrow> ActivityState_Terminal (ar_State c))"

definition activities_ok :: "Reducer \<Rightarrow> bool" where
  "activities_ok r \<longleftrightarrow> distinct (map ar_ActivityID (activities r)) \<and>
     ar_ActivityID ` set (activities r) = rd_activitySeen r \<and>
     list_all (activity_ok r) (activities r) \<and> families_ok (activities r)"

definition action_ok :: "Reducer \<Rightarrow> ActionRecord \<Rightarrow> bool" where
  "action_ok r a \<longleftrightarrow> cr_Kind a \<noteq> [] \<and> ow_ID (cr_Owner a) \<noteq> [] \<and>
     (if ow_Type (cr_Owner a) = OwnerActivity then ow_ID (cr_Owner a) \<in> rd_activitySeen r
      else ow_ID (cr_Owner a) \<in> rd_turnSeen r) \<and>
     (cr_BlocksForeground a \<and> \<not> ActionState_Terminal (cr_State a) \<longrightarrow> rd_actionCycle r (cr_ActionID a) \<noteq> None)"

definition actions_ok :: "Reducer \<Rightarrow> bool" where
  "actions_ok r \<longleftrightarrow> distinct (map cr_ActionID (actions r)) \<and> list_all (action_ok r) (actions r)"

text \<open>A live foreground names a recorded turn that has not ended, on the cycle the turn
  records; an idle one names no turn.\<close>

definition foreground_ok :: "Reducer \<Rightarrow> bool" where
  "foreground_ok r \<longleftrightarrow>
     (case foreground r of
        None \<Rightarrow> \<not> rd_started r
      | Some f \<Rightarrow> (fg_State f = ForegroundIdle \<longleftrightarrow> fg_TurnID f = []) \<and>
          (fg_State f \<noteq> ForegroundIdle \<longrightarrow>
             (\<exists>t \<in> set (turns r). tr_TurnID t = fg_TurnID f \<and> \<not> tr_Terminal t \<and> tr_CycleID t = fg_CycleID f)))"

text \<open>A blocked cycle that is not yet reported as such is owed.\<close>

definition owed_ok :: "Reducer \<Rightarrow> bool" where
  "owed_ok r \<longleftrightarrow>
     (case foreground r of
        None \<Rightarrow> True
      | Some f \<Rightarrow> fg_State f \<noteq> ForegroundRequiresAction \<and> blocked r (fg_CycleID f)
          \<longrightarrow> rd_blockedCycle r = fg_CycleID f)"

definition projection_ok :: "Reducer \<Rightarrow> bool" where
  "projection_ok r \<longleftrightarrow> turns_ok r \<and> activities_ok r \<and> actions_ok r \<and> foreground_ok r"

lemmas projection_defs =
  projection_ok_def turns_ok_def activities_ok_def actions_ok_def foreground_ok_def

section \<open>Evolution\<close>

definition grows :: "('a \<Rightarrow> 'a \<Rightarrow> bool) \<Rightarrow> 'a list \<Rightarrow> 'a list \<Rightarrow> bool" where
  "grows R xs ys \<longleftrightarrow> length xs \<le> length ys \<and> (\<forall>i < length xs. R (xs ! i) (ys ! i))"

lemma grows_refl: "(\<And>x. R x x) \<Longrightarrow> grows R xs xs"
  by (simp add: grows_def)

lemma grows_append: "(\<And>x. R x x) \<Longrightarrow> grows R xs (xs @ ys)"
  by (simp add: grows_def nth_append)

lemma grows_trans: "transp R \<Longrightarrow> grows R xs ys \<Longrightarrow> grows R ys zs \<Longrightarrow> grows R xs zs"
  unfolding grows_def by (meson le_trans less_le_trans transpD)

lemma grows_update: "(\<And>x. R x x) \<Longrightarrow> (i < length xs \<Longrightarrow> R (xs ! i) y) \<Longrightarrow> grows R xs (xs[i := y])"
  by (cases "i < length xs") (auto simp: grows_def nth_list_update list_update_beyond)

definition turn_step :: "TurnRecord \<Rightarrow> TurnRecord \<Rightarrow> bool" where
  "turn_step t t' \<longleftrightarrow> tr_TurnID t' = tr_TurnID t \<and> tr_Origin t' = tr_Origin t \<and>
     tr_SubmissionID t' = tr_SubmissionID t \<and> tr_ClientNonce t' = tr_ClientNonce t \<and>
     tr_RunID t' = tr_RunID t \<and> (tr_Terminal t \<longrightarrow> t' = t)"

definition activity_step :: "ActivityRecord \<Rightarrow> ActivityRecord \<Rightarrow> bool" where
  "activity_step a a' \<longleftrightarrow> ar_ActivityID a' = ar_ActivityID a \<and> ar_Kind a' = ar_Kind a \<and>
     ar_ParentID a' = ar_ParentID a \<and> ar_ToolCallID a' = ar_ToolCallID a \<and> ar_Cause a' = ar_Cause a \<and>
     ar_OriginTurnID a' = ar_OriginTurnID a \<and> ar_RunID a' = ar_RunID a \<and>
     (ActivityState_Terminal (ar_State a) \<longrightarrow> a' = a)"

definition action_step :: "ActionRecord \<Rightarrow> ActionRecord \<Rightarrow> bool" where
  "action_step a a' \<longleftrightarrow> a' = a\<lparr>cr_State := cr_State a'\<rparr> \<and> (ActionState_Terminal (cr_State a) \<longrightarrow> a' = a)"

definition evolves :: "State \<Rightarrow> State \<Rightarrow> bool" where
  "evolves s s' \<longleftrightarrow> grows turn_step (s_Turns s) (s_Turns s') \<and>
     grows activity_step (s_Activities s) (s_Activities s') \<and>
     grows action_step (s_Actions s) (s_Actions s')"

lemma step_refl [simp]: "turn_step t t" "activity_step a a" "action_step c c"
  by (simp_all add: turn_step_def activity_step_def action_step_def)

lemma transp_steps: "transp turn_step" "transp activity_step" "transp action_step"
  by (simp_all add: transp_def turn_step_def activity_step_def action_step_def)
    (metis ActionRecord.update_convs(3) ActionRecord.surjective)

lemma evolves_refl [simp]: "evolves s s"
  by (simp add: evolves_def grows_refl)

lemma evolves_trans: "evolves s t \<Longrightarrow> evolves t u \<Longrightarrow> evolves s u"
  unfolding evolves_def by (blast intro: grows_trans transp_steps)

section \<open>Turns\<close>

lemma activity_ok_mono:
  "activity_ok r a \<Longrightarrow> rd_negotiated r' = rd_negotiated r \<Longrightarrow> rd_turnSeen r \<subseteq> rd_turnSeen r' \<Longrightarrow>
   rd_activitySeen r \<subseteq> rd_activitySeen r' \<Longrightarrow> activity_ok r' a"
  by (auto simp: activity_ok_def)

lemma action_ok_mono:
  "action_ok r a \<Longrightarrow> rd_turnSeen r \<subseteq> rd_turnSeen r' \<Longrightarrow> rd_activitySeen r \<subseteq> rd_activitySeen r' \<Longrightarrow>
   rd_actionCycle r' = rd_actionCycle r \<Longrightarrow> action_ok r' a"
  by (auto simp: action_ok_def split: if_splits)

lemma actions_ok_mono:
  assumes "actions_ok r" and "actions r' = actions r" and "rd_turnSeen r \<subseteq> rd_turnSeen r'"
    and "rd_activitySeen r \<subseteq> rd_activitySeen r'" and "rd_actionCycle r' = rd_actionCycle r"
  shows "actions_ok r'"
  using assms action_ok_mono by (auto simp: actions_ok_def list_all_iff)

lemma activities_ok_mono:
  assumes "activities_ok r" and "activities r' = activities r" and "rd_turnSeen r \<subseteq> rd_turnSeen r'"
    and "rd_activitySeen r' = rd_activitySeen r" and "rd_negotiated r' = rd_negotiated r"
  shows "activities_ok r'"
  using assms activity_ok_mono[of r _ r'] by (auto simp: activities_ok_def list_all_iff)

lemma turnIndex_Some: "turnIndex r i = Some k \<Longrightarrow> k < length (turns r) \<and> tr_TurnID (turns r ! k) = i"
  by (simp add: turnIndex_def indexOf_SomeD)

lemma turnIndex_None: "turnIndex r i = None \<longleftrightarrow> i \<notin> tr_TurnID ` set (turns r)"
  by (simp add: turnIndex_def indexOf_None_iff)

text \<open>A new turn under a fresh identity.\<close>

lemma openTurn_ok:
  assumes ok: "projection_ok r" and new: "tr_TurnID t \<notin> tr_TurnID ` set (turns r)" and "turn_ok t"
  shows "projection_ok (openTurn t r)"
proof -
  let ?r = "openTurn t r"
  have "turns_ok ?r" using assms by (auto simp: openTurn_def projection_ok_def turns_ok_def)
  moreover have "activities_ok ?r" "actions_ok ?r"
    using ok by (auto simp: openTurn_def projection_ok_def elim!: activities_ok_mono actions_ok_mono)
  moreover have "foreground_ok ?r"
    using ok by (auto simp: openTurn_def projection_ok_def foreground_ok_def split: option.splits)
  ultimately show ?thesis by (simp add: projection_ok_def)
qed

text \<open>Rewriting one turn that is not terminal, and reporting the foreground with it.\<close>

lemma reportTurn_ok:
  assumes ok: "projection_ok r" and i: "i < length (turns r)"
    and id: "tr_TurnID (f (turns r ! i)) = tr_TurnID (turns r ! i)" and f: "turn_ok (f (turns r ! i))"
    and fg: "fg_State g = ForegroundIdle \<longleftrightarrow> fg_TurnID g = []"
    and live: "fg_State g \<noteq> ForegroundIdle \<Longrightarrow> tr_TurnID (turns r ! i) = fg_TurnID g \<and>
      \<not> tr_Terminal (f (turns r ! i)) \<and> tr_CycleID (f (turns r ! i)) = fg_CycleID g"
  shows "projection_ok (setForeground g (updateTurn i f r))"
proof -
  let ?r = "setForeground g (updateTurn i f r)"
  have "list_all turn_ok ((turns r)[i := f (turns r ! i)])"
    using ok f by (auto simp: projection_ok_def turns_ok_def list_all_iff dest!: list_update_set_cases)
  moreover have "map tr_TurnID ((turns r)[i := f (turns r ! i)]) = map tr_TurnID (turns r)"
    using i id by simp
  ultimately have "turns_ok ?r"
    using ok by (simp add: setForeground_def updateTurn_def projection_ok_def turns_ok_def flip: set_map)
  moreover have "activities_ok ?r" "actions_ok ?r"
    using ok by (auto simp: setForeground_def updateTurn_def projection_ok_def
        elim!: activities_ok_mono actions_ok_mono)
  moreover have "f (turns r ! i) \<in> set ((turns r)[i := f (turns r ! i)])"
    using i by (simp add: set_update_memI)
  then have "foreground_ok ?r"
    using fg live id by (auto simp: setForeground_def updateTurn_def foreground_ok_def)
  ultimately show ?thesis by (simp add: projection_ok_def)
qed
section \<open>Activities\<close>

lemma activityIndex_Some:
  "activityIndex r i = Some k \<Longrightarrow> k < length (activities r) \<and> ar_ActivityID (activities r ! k) = i"
  by (simp add: activityIndex_def indexOf_SomeD)

lemma activityIndex_None: "activityIndex r i = None \<longleftrightarrow> i \<notin> ar_ActivityID ` set (activities r)"
  by (simp add: activityIndex_def indexOf_None_iff)

lemma families_append:
  assumes "families_ok as" and "\<And>p. p \<in> set as \<Longrightarrow> ar_ActivityID p = ar_ParentID a \<Longrightarrow> ar_ParentID a \<noteq> [] \<Longrightarrow>
      ActivityState_Terminal (ar_State p) \<Longrightarrow> ActivityState_Terminal (ar_State a)"
    and "\<And>c. c \<in> set as \<Longrightarrow> ar_ParentID c = ar_ActivityID a \<Longrightarrow> ar_ParentID c = []"
  shows "families_ok (as @ [a])"
  unfolding families_ok_def
proof (intro ballI impI)
  fix p c assume p: "p \<in> set (as @ [a])" and c: "c \<in> set (as @ [a])"
    and fam: "ar_ParentID c = ar_ActivityID p \<and> ar_ParentID c \<noteq> [] \<and> ActivityState_Terminal (ar_State p)"
  show "ActivityState_Terminal (ar_State c)"
  proof (cases "p \<in> set as")
    case True
    with c fam assms(1) assms(2)[OF True] show ?thesis unfolding families_ok_def by (cases "c \<in> set as") fastforce+
  next
    case False
    with p c fam assms(3)[of c] show ?thesis by auto
  qed
qed

lemma families_update:
  assumes "families_ok as" and "i < length as"
    and "ar_ActivityID a = ar_ActivityID (as ! i)" "ar_ParentID a = ar_ParentID (as ! i)"
    and "\<not> ActivityState_Terminal (ar_State (as ! i))"
    and "\<And>c. ActivityState_Terminal (ar_State a) \<Longrightarrow> c \<in> set as \<Longrightarrow> ar_ParentID c = ar_ActivityID a \<Longrightarrow>
      ActivityState_Terminal (ar_State c)"
  shows "families_ok (as[i := a])"
  unfolding families_ok_def
proof (intro ballI impI)
  fix p c assume p: "p \<in> set (as[i := a])" and c: "c \<in> set (as[i := a])"
    and fam: "ar_ParentID c = ar_ActivityID p \<and> ar_ParentID c \<noteq> [] \<and> ActivityState_Terminal (ar_State p)"
  from assms(2) have mem: "as ! i \<in> set as" by simp
  consider "c = a" | "c \<in> set as" "c \<noteq> a" using c list_update_set_cases by metis
  then show "ActivityState_Terminal (ar_State c)"
  proof cases
    case 1
    consider "p = a" | "p \<in> set as" using p list_update_set_cases by metis
    then show ?thesis
      using 1 fam assms mem unfolding families_ok_def by cases metis+
  next
    case 2
    consider "p = a" | "p \<in> set as" using p list_update_set_cases by metis
    then show ?thesis
      using 2 fam assms unfolding families_ok_def by cases metis+
  qed
qed

lemma recordActivity_ok:
  assumes ok: "projection_ok r" and new: "au_ActivityID u \<notin> ar_ActivityID ` set (activities r)"
    and a: "activity_ok r (ActivityRecord_of u)"
    and parent: "\<And>p. p \<in> set (activities r) \<Longrightarrow> ar_ActivityID p = au_ParentID u \<Longrightarrow> au_ParentID u \<noteq> [] \<Longrightarrow>
      \<not> ActivityState_Terminal (ar_State p)"
  shows "projection_ok (recordActivity u r)"
proof -
  let ?r = "recordActivity u r"
  have parents: "ar_ParentID c = []"
    if "c \<in> set (activities r)" "ar_ParentID c = ar_ActivityID (ActivityRecord_of u)" for c
    using that ok new by (auto simp: projection_ok_def activities_ok_def list_all_iff activity_ok_def
        ActivityRecord_of_def)
  have "families_ok (activities ?r)"
    unfolding recordActivity_def using ok parent parents
    by (auto simp: projection_ok_def activities_ok_def ActivityRecord_of_def intro!: families_append)
  moreover have "list_all (activity_ok ?r) (activities ?r)"
    using ok a activity_ok_mono[of r _ ?r]
    by (auto simp: recordActivity_def projection_ok_def activities_ok_def list_all_iff)
  ultimately have "activities_ok ?r"
    using ok new by (auto simp: recordActivity_def projection_ok_def activities_ok_def ActivityRecord_of_def)
  moreover have "turns_ok ?r" "foreground_ok ?r"
    using ok by (auto simp: recordActivity_def projection_ok_def turns_ok_def foreground_ok_def
        split: option.splits)
  moreover have "actions_ok ?r"
    using ok by (auto simp: recordActivity_def projection_ok_def elim!: actions_ok_mono)
  ultimately show ?thesis by (simp add: projection_ok_def)
qed

lemma updateActivity_ok:
  assumes ok: "projection_ok r" and i: "i < length (activities r)"
    and live: "\<not> ActivityState_Terminal (ar_State (activities r ! i))"
    and children: "\<And>c. ActivityState_Terminal (au_State u) \<Longrightarrow> c \<in> set (activities r) \<Longrightarrow>
      ar_ParentID c = ar_ActivityID (activities r ! i) \<Longrightarrow> ActivityState_Terminal (ar_State c)"
  shows "projection_ok (updateActivity i (patched u) r)"
proof -
  let ?r = "updateActivity i (patched u) r" and ?a = "patched u (activities r ! i)"
  have a: "ar_ActivityID ?a = ar_ActivityID (activities r ! i)" "ar_ParentID ?a = ar_ParentID (activities r ! i)"
    "ar_State ?a = au_State u" "ar_Kind ?a = ar_Kind (activities r ! i)" "ar_Cause ?a = ar_Cause (activities r ! i)"
    "ar_OriginTurnID ?a = ar_OriginTurnID (activities r ! i)"
    by (simp_all add: patched_def Let_def)
  have ids: "map ar_ActivityID (activities ?r) = map ar_ActivityID (activities r)"
    using i a by (simp add: updateActivity_def)
  have "families_ok (activities ?r)"
    using ok i live children a
    by (auto simp: updateActivity_def projection_ok_def activities_ok_def intro!: families_update)
  moreover have "activity_ok ?r b" if "b \<in> set (activities ?r)" for b
  proof -
    have "b \<in> set (activities r) \<or> b = ?a"
      using that by (auto simp: updateActivity_def dest: list_update_set_cases)
    moreover have "activity_ok r (activities r ! i)" if "b = ?a"
      using ok i by (simp add: projection_ok_def activities_ok_def list_all_iff)
    ultimately show ?thesis using ok a
      by (auto simp: updateActivity_def projection_ok_def activities_ok_def list_all_iff activity_ok_def)
  qed
  ultimately have "activities_ok ?r"
    using ok ids by (simp add: projection_ok_def activities_ok_def list_all_iff flip: set_map)
      (simp add: updateActivity_def)
  moreover have "turns_ok ?r" "foreground_ok ?r"
    using ok by (auto simp: updateActivity_def projection_ok_def turns_ok_def foreground_ok_def
        split: option.splits)
  moreover have "actions_ok ?r"
    using ok by (auto simp: updateActivity_def projection_ok_def elim!: actions_ok_mono)
  ultimately show ?thesis by (simp add: projection_ok_def)
qed

section \<open>Actions\<close>

lemma actionIndex_Some:
  "actionIndex r i = Some k \<Longrightarrow> k < length (actions r) \<and> cr_ActionID (actions r ! k) = i"
  by (simp add: actionIndex_def indexOf_SomeD)

lemma actionIndex_None: "actionIndex r i = None \<longleftrightarrow> i \<notin> cr_ActionID ` set (actions r)"
  by (simp add: actionIndex_def indexOf_None_iff)

text \<open>What \<open>recordAction\<close> leaves, in closed form.\<close>

lemma recordAction_fields [simp]:
  "turns (recordAction u r) = turns r" "activities (recordAction u r) = activities r"
  "foreground (recordAction u r) = foreground r" "actions (recordAction u r) = actions r @ [ActionRecord_of u]"
  "rd_turnSeen (recordAction u r) = rd_turnSeen r" "rd_activitySeen (recordAction u r) = rd_activitySeen r"
  "rd_negotiated (recordAction u r) = rd_negotiated r" "rd_started (recordAction u r) = rd_started r"
  by (simp_all add: recordAction_def blockForeground_def Let_def split: option.split)

lemma recordAction_cycle:
  assumes "foreground r = Some f"
  shows "rd_actionCycle (recordAction u r) =
    (if blocksForeground u \<and> \<not> ActionState_Terminal (cu_State u)
     then (rd_actionCycle r)(cu_ActionID u \<mapsto> fg_CycleID f) else rd_actionCycle r)"
    "rd_blockedCycle (recordAction u r) =
    (if blocksForeground u \<and> \<not> ActionState_Terminal (cu_State u) \<and> fg_State f \<noteq> ForegroundRequiresAction
     then fg_CycleID f else rd_blockedCycle r)"
  using assms by (simp_all add: recordAction_def blockForeground_def Let_def)

lemma recordAction_ok:
  assumes ok: "projection_ok r" and f: "foreground r = Some f"
    and new: "cu_ActionID u \<notin> cr_ActionID ` set (actions r)"
    and a: "cu_Kind u \<noteq> []" "ow_ID (cu_Owner u) \<noteq> []"
      "if ow_Type (cu_Owner u) = OwnerActivity then ow_ID (cu_Owner u) \<in> rd_activitySeen r
       else ow_ID (cu_Owner u) \<in> rd_turnSeen r"
  shows "projection_ok (recordAction u r)"
proof -
  let ?r = "recordAction u r"
  have "turns_ok ?r" "activities_ok ?r" "foreground_ok ?r"
    using ok f by (simp_all add: projection_ok_def turns_ok_def foreground_ok_def activities_ok_mono[of r])
  moreover have "action_ok ?r b" if "b \<in> set (actions r)" for b
    using that ok new f
    by (auto simp: projection_ok_def actions_ok_def list_all_iff action_ok_def recordAction_cycle split: if_splits)
  moreover have "action_ok ?r (ActionRecord_of u)"
    using a f by (auto simp: action_ok_def ActionRecord_of_def recordAction_cycle blocksForeground_def
        split: option.splits if_splits)
  ultimately show ?thesis
    using ok new by (auto simp: projection_ok_def actions_ok_def list_all_iff ActionRecord_of_def)
qed

lemma updateAction_ok:
  assumes ok: "projection_ok r" and i: "i < length (actions r)"
    and live: "\<not> ActionState_Terminal (cr_State (actions r ! i))"
  shows "projection_ok (updateAction i (cr_State_update (\<lambda>_. st)) r)"
proof -
  let ?r = "updateAction i (cr_State_update (\<lambda>_. st)) r"
  have "actions_ok r" and "action_ok r (actions r ! i)"
    using ok i by (auto simp: projection_ok_def actions_ok_def list_all_iff)
  then have "actions_ok ?r" using i live
    by (auto simp: updateAction_def actions_ok_def list_all_iff action_ok_def dest!: list_update_set_cases)
  moreover have "turns_ok ?r" "activities_ok ?r" "foreground_ok ?r"
    using ok by (simp_all add: updateAction_def projection_ok_def turns_ok_def foreground_ok_def
        activities_ok_mono[of r] split: option.splits)
  ultimately show ?thesis by (simp add: projection_ok_def)
qed

end
