(* ===== verification/Handlers.thy ===== *)
theory Handlers
  imports ReducerInv
begin

text \<open>
  The four delta handlers keep a projection well formed and only evolve it.  The checks are
  first put in closed form: what must hold for each to pass.
\<close>

section \<open>When the checks pass\<close>

lemma fail_passes [simp]: "fail d k t r = (None, s) \<longleftrightarrow> False"
  by (simp add: fail_def Let_def)

lemma and_then_passes: "and_then c k = (None, t) \<longleftrightarrow> (\<exists>s. c = (None, s) \<and> k s = (None, t))"
  by (cases c) (auto simp: and_then_def split: option.split)

lemma checkActivityIdentity_passes:
  "checkActivityIdentity d u r = (None, s) \<longleftrightarrow>
     s = r \<and> au_Kind u \<noteq> [] \<and> au_Cause u \<noteq> [] \<and> au_OriginTurnID u \<noteq> [] \<and>
     declaresActivityKind (rd_negotiated r) (au_Kind u)"
  by (auto simp: checkActivityIdentity_def)

lemma checkActionIdentity_passes:
  "checkActionIdentity d u r = (None, s) \<longleftrightarrow>
     s = r \<and> cu_Kind u \<noteq> [] \<and> ow_ID (cu_Owner u) \<noteq> [] \<and> cu_BlocksForeground u \<noteq> None"
  by (auto simp: checkActionIdentity_def)

lemma checkActivityReferences_passes:
  "checkActivityReferences d u r = (None, s) \<longleftrightarrow>
     s = r \<and> au_OriginTurnID u \<in> rd_turnSeen r \<and> (au_ParentID u = [] \<or> au_ParentID u \<in> rd_activitySeen r)"
  by (auto simp: checkActivityReferences_def turnKnown_def activityKnown_def)

lemma checkActivityParent_passes:
  assumes "distinct (map ar_ActivityID (activities r))"
  shows "checkActivityParent d i p r = (None, s) \<longleftrightarrow>
     s = r \<and> (p = [] \<or> i = p \<or> (\<forall>a \<in> set (activities r). ar_ActivityID a = p \<longrightarrow> \<not> ActivityState_Terminal (ar_State a)))"
proof (cases "activityIndex r p")
  case None
  moreover from None have "ar_ActivityID a \<noteq> p" if "a \<in> set (activities r)" for a
    using that by (auto simp: activityIndex_None)
  ultimately show ?thesis by (auto simp: checkActivityParent_def)
next
  case (Some k)
  from activityIndex_Some[OF this] have k: "activities r ! k \<in> set (activities r)" "ar_ActivityID (activities r ! k) = p"
    by auto
  then have "ar_ActivityID a = p \<longleftrightarrow> a = activities r ! k" if "a \<in> set (activities r)" for a
    using that distinct_map_eqD[OF assms, of a "activities r ! k"] by auto
  with k Some show ?thesis by (auto simp: checkActivityParent_def)
qed

lemma checkDescendantsTerminal_passes:
  "checkDescendantsTerminal d i r = (None, s) \<longleftrightarrow>
     s = r \<and> (\<forall>c \<in> set (activities r). ar_ParentID c = i \<longrightarrow> ActivityState_Terminal (ar_State c)) \<and>
     (\<forall>a \<in> set (actions r). ow_Type (cr_Owner a) = OwnerActivity \<and> ow_ID (cr_Owner a) = i \<longrightarrow>
        ActionState_Terminal (cr_State a))"
  by (auto simp: checkDescendantsTerminal_def find_None_iff find_Some_iff nth_mem split: option.split)

lemma checkActionOwner_passes:
  "checkActionOwner d u r = (None, s) \<longleftrightarrow>
     s = r \<and> (if ow_Type (cu_Owner u) = OwnerActivity then ow_ID (cu_Owner u) \<in> rd_activitySeen r
              else ow_ID (cu_Owner u) \<in> rd_turnSeen r)"
  by (auto simp: checkActionOwner_def Let_def turnKnown_def activityKnown_def)

lemma checkBlockedCycle_passes:
  "checkBlockedCycle d t r = (None, s) \<longleftrightarrow>
     (if st_State t = ForegroundRequiresAction
      then blocked r (st_CycleID t) \<and>
        s = (if rd_blockedCycle r = st_CycleID t then r\<lparr>rd_blockedCycle := []\<rparr> else r)
      else \<not> blocked r (st_CycleID t) \<and> rd_blockedCycle r \<noteq> st_CycleID t \<and> s = r)"
  by (auto simp: checkBlockedCycle_def)

lemmas passes = and_then_passes checkActivityIdentity_passes checkActionIdentity_passes
  checkActivityReferences_passes checkDescendantsTerminal_passes checkActionOwner_passes
  checkBlockedCycle_passes

lemma projection_cong:
  assumes "rd_state r' = rd_state r" "rd_turnSeen r' = rd_turnSeen r" "rd_activitySeen r' = rd_activitySeen r"
    "rd_negotiated r' = rd_negotiated r" "rd_actionCycle r' = rd_actionCycle r" "rd_started r' = rd_started r"
  shows "projection_ok r' = projection_ok r"
proof -
  have "activity_ok r' = activity_ok r" "action_ok r' = action_ok r"
    using assms by (simp_all add: activity_ok_def action_ok_def fun_eq_iff)
  with assms show ?thesis by (simp add: projection_defs split: option.split)
qed

section \<open>The laws of a delta handler\<close>

definition wf_projection :: "Reducer \<Rightarrow> bool" where
  "wf_projection r \<longleftrightarrow> projection_ok r \<and> owed_ok r \<and> rd_started r"

locale delta_handler = event_handler handle
  for handle :: "Delivery \<Rightarrow> Reducer \<Rightarrow> outcome" +
  assumes preserves: "wf_projection r \<Longrightarrow> handle d r = (None, r') \<Longrightarrow> wf_projection r'"
    and evolution: "handle d r = (None, r') \<Longrightarrow> evolves (rd_state r) (rd_state r')"
begin

text \<open>Accepted or refused, the records only grow, and the projection stays well formed.\<close>

lemma outcome_evolves: "handle d r = (e, r') \<Longrightarrow> evolves (rd_state r) (rd_state r')"
  using refused_projection evolution by (cases e) auto

lemma outcome_projection_ok:
  assumes "wf_projection r" and h: "handle d r = (e, r')"
  shows "projection_ok r'"
proof (cases e)
  case None
  with h have "wf_projection r'" by (intro preserves[OF assms(1)]) simp
  then show ?thesis by (simp add: wf_projection_def)
next
  case (Some v)
  with refused_shape h obtain b where "r' = r\<lparr>rd_failed := Some v, rd_blockedCycle := b\<rparr>" by blast
  moreover have "projection_ok (r\<lparr>rd_failed := f, rd_blockedCycle := b\<rparr>) = projection_ok r" for f b
    by (rule projection_cong) simp_all
  ultimately show ?thesis using assms(1) by (simp add: wf_projection_def)
qed

end

section \<open>Turns\<close>

lemma blocked_cong:
  "actions r' = actions r \<Longrightarrow> rd_actionCycle r' = rd_actionCycle r \<Longrightarrow> blocked r' = blocked r"
  by (simp add: blocked_def fun_eq_iff)

lemma owed_cong:
  "actions r' = actions r \<Longrightarrow> rd_actionCycle r' = rd_actionCycle r \<Longrightarrow> foreground r' = foreground r \<Longrightarrow>
   rd_blockedCycle r' = rd_blockedCycle r \<Longrightarrow> owed_ok r' = owed_ok r"
  by (simp add: owed_ok_def blocked_cong[of r' r] split: option.split)

lemma turn_fields [simp]:
  "turns (openTurn t r) = turns r @ [t]" "activities (openTurn t r) = activities r"
  "actions (openTurn t r) = actions r" "foreground (openTurn t r) = foreground r"
  "rd_blockedCycle (openTurn t r) = rd_blockedCycle r" "rd_actionCycle (openTurn t r) = rd_actionCycle r"
  "rd_started (openTurn t r) = rd_started r"
  "turns (setForeground g r) = turns r" "activities (setForeground g r) = activities r"
  "actions (setForeground g r) = actions r" "foreground (setForeground g r) = Some g"
  "rd_blockedCycle (setForeground g r) = rd_blockedCycle r" "rd_actionCycle (setForeground g r) = rd_actionCycle r"
  "rd_started (setForeground g r) = rd_started r"
  "turns (updateTurn i f r) = (turns r)[i := f (turns r ! i)]" "activities (updateTurn i f r) = activities r"
  "actions (updateTurn i f r) = actions r" "foreground (updateTurn i f r) = foreground r"
  "rd_blockedCycle (updateTurn i f r) = rd_blockedCycle r" "rd_actionCycle (updateTurn i f r) = rd_actionCycle r"
  "rd_started (updateTurn i f r) = rd_started r"
  by (simp_all add: openTurn_def setForeground_def updateTurn_def)

lemma evolves_turns:
  "grows turn_step (turns r) (turns r') \<Longrightarrow> activities r' = activities r \<Longrightarrow> actions r' = actions r \<Longrightarrow>
   evolves (rd_state r) (rd_state r')"
  by (simp add: evolves_def grows_refl)

lemma promptAccepted_result:
  assumes "applyPromptAccepted d r = (None, r')"
  obtains p where "ev_PromptAccepted (dl_Event d) = Some p" and "pa_TurnID p \<notin> rd_turnSeen r"
    and "r' = openTurn ((blank_turn (pa_TurnID p) CauseSubmission)
      \<lparr>tr_SubmissionID := pa_SubmissionID p, tr_ClientNonce := pa_ClientNonce p, tr_RunID := pa_RunID p\<rparr>) r"
proof (cases "ev_PromptAccepted (dl_Event d)")
  case None
  with assms show ?thesis by (simp add: applyPromptAccepted_def)
next
  case (Some p)
  show ?thesis
  proof (rule that[OF Some])
    show "pa_TurnID p \<notin> rd_turnSeen r"
      using assms unfolding applyPromptAccepted_def Some turnKnown_def
      by (cases "turnIndex r (pa_TurnID p)") (simp_all split: if_splits)
    show "r' = openTurn ((blank_turn (pa_TurnID p) CauseSubmission)
      \<lparr>tr_SubmissionID := pa_SubmissionID p, tr_ClientNonce := pa_ClientNonce p, tr_RunID := pa_RunID p\<rparr>) r"
      using assms unfolding applyPromptAccepted_def Some turnKnown_def
      by (cases "turnIndex r (pa_TurnID p)") (simp_all split: if_splits)
  qed
qed

lemma promptAccepted_preserves:
  assumes wf: "wf_projection r" and h: "applyPromptAccepted d r = (None, r')"
  shows "wf_projection r'"
  using h
proof (cases rule: promptAccepted_result)
  case (1 p)
  have "pa_TurnID p \<notin> tr_TurnID ` set (turns r)"
    using wf 1(2) unfolding wf_projection_def projection_ok_def turns_ok_def by blast
  then have "projection_ok r'"
    unfolding 1(3) using wf by (intro openTurn_ok) (simp_all add: wf_projection_def blank_turn_def turn_ok_def)
  then show ?thesis
    using wf owed_cong[of r' r] by (simp add: wf_projection_def 1(3))
qed

lemma promptAccepted_evolves:
  "applyPromptAccepted d r = (None, r') \<Longrightarrow> evolves (rd_state r) (rd_state r')"
  by (elim promptAccepted_result) (auto intro!: evolves_turns grows_append)

text \<open>A live report rewrites one turn that has not ended, opened just before if need be.\<close>

lemma applyLive_result:
  assumes ok: "projection_ok r" and h: "applyLive d t r = (None, r')"
  obtains i s where "projection_ok s" and "i < length (turns s)" and "tr_TurnID (turns s ! i) = st_TurnID t"
    and "\<not> tr_Terminal (turns s ! i)" and "grows turn_step (turns r) (turns s)"
    and "s = r \<or> s = openTurn (blank_turn (st_TurnID t) CauseActivity) r"
    and "r' = setForeground (foreground_of (st_State t) (st_CycleID t) (st_TurnID t))
               (updateTurn i (tr_CycleID_update (\<lambda>_. st_CycleID t)) s)"
proof (cases "turnIndex r (st_TurnID t)")
  case (Some i)
  with h turnIndex_Some[OF Some] ok show ?thesis
    by (intro that[of r i]) (auto simp: applyLive_def Let_def grows_refl split: if_splits)
next
  case None
  let ?s = "openTurn (blank_turn (st_TurnID t) CauseActivity) r"
  have "projection_ok ?s"
    using ok None by (intro openTurn_ok) (auto simp: blank_turn_def turn_ok_def turnIndex_None)
  then show ?thesis
    using h None by (intro that[of ?s "length (turns r)"])
      (auto simp: applyLive_def Let_def blank_turn_def intro!: grows_append split: if_splits)
qed

lemma transition_shape:
  assumes "applyStateUpdate d r = (None, r')"
  obtains t s where "ev_State (dl_Event d) = Some t" and "namelessTurnDefect t = []" and "endingIdleDefect t = []"
    and "checkBlockedCycle d t r = (None, s)"
    and "(if st_State t = ForegroundIdle then applyIdle d t s else applyLive d t s) = (None, r')"
  using assms that
  by (auto simp: applyStateUpdate_def and_then_passes split: option.splits if_splits)

lemma blockedCycle_irrelevant [simp]:
  "projection_ok (r\<lparr>rd_blockedCycle := c\<rparr>) = projection_ok r" "blocked (r\<lparr>rd_blockedCycle := c\<rparr>) = blocked r"
  by (rule projection_cong; simp) (simp add: fun_eq_iff blocked_def)

text \<open>Once the check has passed, a running or idle report is on a cycle nothing blocks.\<close>

lemma reported_owed:
  assumes "checkBlockedCycle d t r = (None, s)" and "actions r' = actions s" "rd_actionCycle r' = rd_actionCycle s"
    and "foreground r' = Some g" "fg_State g = st_State t" "fg_CycleID g = st_CycleID t"
  shows "owed_ok r'"
proof -
  have "blocked s = blocked r" using assms(1) by (auto simp: checkBlockedCycle_passes split: if_splits)
  then show ?thesis
    using assms by (auto simp: owed_ok_def checkBlockedCycle_passes blocked_cong[of r' s] split: if_splits)
qed

lemma checkBlockedCycle_same:
  assumes "checkBlockedCycle d t r = (None, s)"
  shows "projection_ok s = projection_ok r" "rd_started s = rd_started r" "rd_state s = rd_state r"
  using assms by (auto simp: checkBlockedCycle_passes split: if_splits)

lemma applyIdle_result:
  assumes "applyIdle d t r = (None, r')"
  obtains (session) "st_TurnID t = []" "r' = setForeground (foreground_of ForegroundIdle (st_CycleID t) []) r"
  | (ending) i where "st_TurnID t \<noteq> []" "turnIndex r (st_TurnID t) = Some i" "\<not> tr_Terminal (turns r ! i)"
    "r' = setForeground (foreground_of ForegroundIdle (st_CycleID t) []) (updateTurn i (endTurn t) r)"
  using assms that by (auto simp: applyIdle_def Let_def split: if_splits option.splits)

lemma endTurn_ok:
  "endingIdleDefect t = [] \<Longrightarrow> st_State t = ForegroundIdle \<Longrightarrow> st_TurnID t \<noteq> [] \<Longrightarrow> turn_ok (endTurn t x)"
  by (auto simp: endingIdleDefect_def turn_ok_def endTurn_def split: if_splits)

lemma setForeground_idle_ok:
  "projection_ok r \<Longrightarrow> projection_ok (setForeground (foreground_of ForegroundIdle c []) r)"
  by (auto simp: setForeground_def projection_ok_def turns_ok_def foreground_ok_def foreground_of_def
      elim: activities_ok_mono actions_ok_mono)

lemma transition_preserves:
  assumes wf: "wf_projection r" and h: "applyStateUpdate d r = (None, r')"
  shows "wf_projection r'"
proof (rule transition_shape[OF h])
  fix t s
  assume def: "namelessTurnDefect t = []" "endingIdleDefect t = []" and c: "checkBlockedCycle d t r = (None, s)"
    and step: "(if st_State t = ForegroundIdle then applyIdle d t s else applyLive d t s) = (None, r')"
  note s = checkBlockedCycle_same[OF c]
  have ok: "projection_ok s" "rd_started s" using wf s by (simp_all add: wf_projection_def)
  show ?thesis
  proof (cases "st_State t = ForegroundIdle")
    case idle: True
    with step have "applyIdle d t s = (None, r')" by simp
    then show ?thesis
    proof (cases rule: applyIdle_result)
      case session
      then show ?thesis
        using ok idle c reported_owed[OF c, of r' "foreground_of ForegroundIdle (st_CycleID t) []"]
        by (simp add: wf_projection_def setForeground_idle_ok) (simp add: foreground_of_def)
    next
      case (ending i)
      have "projection_ok r'"
        unfolding ending(4) using turnIndex_Some[OF ending(2)] ok def idle ending(1)
        by (intro reportTurn_ok) (auto simp: foreground_of_def endTurn_ok, simp add: endTurn_def)
      then show ?thesis
        using ok idle c by (simp add: wf_projection_def ending(4) reported_owed foreground_of_def)
    qed
  next
    case live: False
    with step have "applyLive d t s = (None, r')" by simp
    then show ?thesis
    proof (rule applyLive_result[OF ok(1)])
      fix i q
      assume q: "projection_ok q" "i < length (turns q)" "tr_TurnID (turns q ! i) = st_TurnID t"
        "\<not> tr_Terminal (turns q ! i)" "q = s \<or> q = openTurn (blank_turn (st_TurnID t) CauseActivity) s"
        and r': "r' = setForeground (foreground_of (st_State t) (st_CycleID t) (st_TurnID t))
               (updateTurn i (tr_CycleID_update (\<lambda>_. st_CycleID t)) q)"
      have "turn_ok (turns q ! i)" using q by (simp add: projection_ok_def turns_ok_def list_all_iff)
      moreover have "st_TurnID t \<noteq> []" using def(1) live by (auto simp: namelessTurnDefect_def split: if_splits)
      ultimately have "projection_ok r'"
        unfolding r' using q live by (intro reportTurn_ok) (auto simp: foreground_of_def turn_ok_def)
      moreover have "owed_ok r'"
        using q(5) by (intro reported_owed[OF c]) (auto simp: r' foreground_of_def)
      ultimately show ?thesis using q(5) ok by (auto simp: wf_projection_def r')
    qed
  qed
qed

lemma applyLive_evolves:
  assumes "applyLive d t r = (None, r')"
  shows "evolves (rd_state r) (rd_state r')"
proof (cases "turnIndex r (st_TurnID t)")
  case (Some i)
  with assms show ?thesis
    by (auto simp: applyLive_def turn_step_def intro!: evolves_turns grows_update split: if_splits)
next
  case None
  with assms show ?thesis
    by (auto simp: applyLive_def intro!: evolves_turns grows_append split: if_splits)
qed

lemma transition_evolves:
  assumes h: "applyStateUpdate d r = (None, r')"
  shows "evolves (rd_state r) (rd_state r')"
proof (rule transition_shape[OF h])
  fix t s
  assume c: "checkBlockedCycle d t r = (None, s)"
    and step: "(if st_State t = ForegroundIdle then applyIdle d t s else applyLive d t s) = (None, r')"
  note s = checkBlockedCycle_same[OF c]
  have "evolves (rd_state s) (rd_state r')"
  proof (cases "st_State t = ForegroundIdle")
    case True
    with step have "applyIdle d t s = (None, r')" by simp
    then show ?thesis
      by (cases rule: applyIdle_result)
        (auto intro!: evolves_turns grows_update grows_refl simp: turn_step_def endTurn_def)
  next
    case False
    with step have "applyLive d t s = (None, r')" by simp
    then show ?thesis by (rule applyLive_evolves)
  qed
  then show ?thesis using s by simp
qed

lemma transition_activities:
  assumes "applyStateUpdate d r = (None, r')"
  shows "activities r' = activities r \<and> actions r' = actions r"
proof (rule transition_shape[OF assms])
  fix t s
  assume c: "checkBlockedCycle d t r = (None, s)"
    and step: "(if st_State t = ForegroundIdle then applyIdle d t s else applyLive d t s) = (None, r')"
  note s = checkBlockedCycle_same(3)[OF c]
  show ?thesis
  proof (cases "st_State t = ForegroundIdle")
    case True
    with step have "applyIdle d t s = (None, r')" by simp
    then show ?thesis by (cases rule: applyIdle_result) (simp_all add: s)
  next
    case False
    with step s show ?thesis by (auto simp: applyLive_def split: if_splits option.splits)
  qed
qed

section \<open>Activities\<close>

lemma evolves_activities:
  "grows activity_step (activities r) (activities r') \<Longrightarrow> turns r' = turns r \<Longrightarrow> actions r' = actions r \<Longrightarrow>
   evolves (rd_state r) (rd_state r')"
  by (simp add: evolves_def grows_refl)

lemma activity_fields [simp]:
  "turns (recordActivity u r) = turns r" "actions (recordActivity u r) = actions r"
  "foreground (recordActivity u r) = foreground r"
  "activities (recordActivity u r) = activities r @ [ActivityRecord_of u]"
  "rd_started (recordActivity u r) = rd_started r"
  "turns (updateActivity i f r) = turns r" "actions (updateActivity i f r) = actions r"
  "foreground (updateActivity i f r) = foreground r"
  "activities (updateActivity i f r) = (activities r)[i := f (activities r ! i)]"
  "rd_started (updateActivity i f r) = rd_started r"
  by (simp_all add: recordActivity_def updateActivity_def)

lemma activity_owed [simp]:
  "owed_ok (recordActivity u r) = owed_ok r" "owed_ok (updateActivity i f r) = owed_ok r"
  by (rule owed_cong; simp add: recordActivity_def updateActivity_def)+

text \<open>An accepted update either restates a terminal activity, patches a live one, or records
  a first sight.\<close>

lemma activityUpdate_result:
  assumes "applyActivityUpdate d r = (None, r')"
  obtains (restated) u i where "ev_Activity (dl_Event d) = Some u" "activityIndex r (au_ActivityID u) = Some i"
    "ActivityState_Terminal (ar_State (activities r ! i))" "terminalActivityDifference (activities r ! i) u = []" "r' = r"
  | (patched) u i where "ev_Activity (dl_Event d) = Some u" "activityIndex r (au_ActivityID u) = Some i"
    "\<not> ActivityState_Terminal (ar_State (activities r ! i))" "immutableActivityConflict (activities r ! i) u = []"
    "ActivityState_Terminal (au_State u) \<Longrightarrow>
       checkDescendantsTerminal d (ar_ActivityID (activities r ! i)) r = (None, r)"
    "r' = updateActivity i (patched u) r"
  | (first) u where "ev_Activity (dl_Event d) = Some u" "activityIndex r (au_ActivityID u) = None"
    "checkActivityIdentity d u r = (None, r)" "checkActivityReferences d u r = (None, r)"
    "checkActivityParent d (au_ActivityID u) (au_ParentID u) r = (None, r)" "r' = recordActivity u r"
proof (cases "ev_Activity (dl_Event d)")
  case None
  with assms show ?thesis by (simp add: applyActivityUpdate_def)
next
  case (Some u)
  show ?thesis
  proof (cases "activityIndex r (au_ActivityID u)")
    case None
    with assms Some have "and_then (checkActivityIdentity d u r) (\<lambda>r. and_then (checkActivityReferences d u r)
        (\<lambda>r. and_then (checkActivityParent d (au_ActivityID u) (au_ParentID u) r)
          (\<lambda>r. (None, recordActivity u r)))) = (None, r')"
      by (simp add: applyActivityUpdate_def)
    then obtain s1 s2 s3 where "checkActivityIdentity d u r = (None, s1)" "checkActivityReferences d u s1 = (None, s2)"
      "checkActivityParent d (au_ActivityID u) (au_ParentID u) s2 = (None, s3)" "r' = recordActivity u s3"
      by (auto simp: and_then_passes)
    with first[OF Some None] show ?thesis
      by (metis check_accepts check_checkActivityIdentity check_checkActivityParent check_checkActivityReferences)
  next
    case i: (Some i)
    let ?e = "activities r ! i"
    have p: "patchActivity d u i r = (None, r')"
      using assms Some i by (simp add: applyActivityUpdate_def)
    show ?thesis
    proof (cases "ActivityState_Terminal (ar_State ?e)")
      case True
      with p show ?thesis using restated[OF Some i True]
        by (auto simp: patchActivity_def Let_def split: if_splits)
    next
      case False
      with p have "immutableActivityConflict ?e u = []" by (auto simp: patchActivity_def Let_def split: if_splits)
      moreover from this False p obtain s where
        "(if ActivityState_Terminal (au_State u) then checkDescendantsTerminal d (ar_ActivityID ?e) r else (None, r)) = (None, s)"
        "r' = updateActivity i (patched u) s"
        by (auto simp: patchActivity_def Let_def and_then_passes)
      ultimately show ?thesis using patched[OF Some i False]
        by (auto simp: checkDescendantsTerminal_passes split: if_splits)
    qed
  qed
qed

lemma activityUpdate_preserves:
  assumes wf: "wf_projection r" and h: "applyActivityUpdate d r = (None, r')"
  shows "wf_projection r'"
  using h
proof (cases rule: activityUpdate_result)
  case restated
  with wf show ?thesis by simp
next
  case (patched u i)
  have "projection_ok r'"
    unfolding patched(6) using wf activityIndex_Some[OF patched(2)] patched(3,5)
    by (intro updateActivity_ok) (auto simp: wf_projection_def checkDescendantsTerminal_passes)
  with wf patched(6) show ?thesis by (simp add: wf_projection_def)
next
  case (first u)
  have ids: "distinct (map ar_ActivityID (activities r))"
    using wf by (simp add: wf_projection_def projection_ok_def activities_ok_def)
  have new: "au_ActivityID u \<notin> ar_ActivityID ` set (activities r)" using first(2) by (simp add: activityIndex_None)
  have "activity_ok r (ActivityRecord_of u)"
    using first(3,4) by (auto simp: activity_ok_def ActivityRecord_of_def checkActivityIdentity_passes
        checkActivityReferences_passes)
  then have "projection_ok r'"
    unfolding first(6) using wf new first(5)
    by (intro recordActivity_ok) (force simp: wf_projection_def checkActivityParent_passes[OF ids])+
  with wf first(6) show ?thesis by (simp add: wf_projection_def)
qed

lemma patched_step: "\<not> ActivityState_Terminal (ar_State a) \<Longrightarrow> activity_step a (patched u a)"
  by (simp add: activity_step_def patched_def Let_def)

lemma activityUpdate_evolves:
  "applyActivityUpdate d r = (None, r') \<Longrightarrow> evolves (rd_state r) (rd_state r')"
  by (cases rule: activityUpdate_result)
    (auto intro!: evolves_activities grows_update grows_append grows_refl patched_step)

section \<open>Actions\<close>

lemma evolves_actions:
  "grows action_step (actions r) (actions r') \<Longrightarrow> turns r' = turns r \<Longrightarrow> activities r' = activities r \<Longrightarrow>
   evolves (rd_state r) (rd_state r')"
  by (simp add: evolves_def grows_refl)

lemma updateAction_fields [simp]:
  "turns (updateAction i f r) = turns r" "activities (updateAction i f r) = activities r"
  "foreground (updateAction i f r) = foreground r" "rd_started (updateAction i f r) = rd_started r"
  "actions (updateAction i f r) = (actions r)[i := f (actions r ! i)]"
  "rd_actionCycle (updateAction i f r) = rd_actionCycle r"
  "rd_blockedCycle (updateAction i f r) = rd_blockedCycle r"
  by (simp_all add: updateAction_def)

lemma actionUpdate_result:
  assumes "applyActionUpdate d r = (None, r')"
  obtains (restated) u i where "ev_Action (dl_Event d) = Some u" "actionIndex r (cu_ActionID u) = Some i"
    "ActionState_Terminal (cr_State (actions r ! i))" "terminalActionDifference (actions r ! i) u = []" "r' = r"
  | (patched) u i where "ev_Action (dl_Event d) = Some u" "actionIndex r (cu_ActionID u) = Some i"
    "\<not> ActionState_Terminal (cr_State (actions r ! i))" "immutableActionConflict (actions r ! i) u = []"
    "r' = updateAction i (cr_State_update (\<lambda>_. cu_State u)) r"
  | (first) u where "ev_Action (dl_Event d) = Some u" "actionIndex r (cu_ActionID u) = None"
    "checkActionIdentity d u r = (None, r)" "checkActionOwner d u r = (None, r)" "r' = recordAction u r"
proof (cases "ev_Action (dl_Event d)")
  case None
  with assms show ?thesis by (simp add: applyActionUpdate_def)
next
  case (Some u)
  show ?thesis
  proof (cases "actionIndex r (cu_ActionID u)")
    case None
    with assms Some have "and_then (checkActionIdentity d u r) (\<lambda>r. and_then (checkActionOwner d u r)
        (\<lambda>r. (None, recordAction u r))) = (None, r')"
      by (simp add: applyActionUpdate_def)
    then obtain s1 s2 where "checkActionIdentity d u r = (None, s1)" "checkActionOwner d u s1 = (None, s2)"
      "r' = recordAction u s2"
      by (auto simp: and_then_passes)
    with first[OF Some None] show ?thesis
      by (metis check_accepts check_checkActionIdentity check_checkActionOwner)
  next
    case i: (Some i)
    have p: "patchAction d u i r = (None, r')"
      using assms Some i by (simp add: applyActionUpdate_def)
    then show ?thesis using restated[OF Some i] patched[OF Some i]
      by (auto simp: patchAction_def Let_def split: if_splits)
  qed
qed

text \<open>A first sight blocks the current cycle, and owes it until it is reported.\<close>

lemma recordAction_owed:
  assumes "wf_projection r" and f: "foreground r = Some f" and new: "cu_ActionID u \<notin> cr_ActionID ` set (actions r)"
  shows "owed_ok (recordAction u r)"
proof -
  let ?blocks = "blocksForeground u \<and> \<not> ActionState_Terminal (cu_State u)"
  have old: "cr_ActionID a \<noteq> cu_ActionID u" if "a \<in> set (actions r)" for a
    using that new by force
  have "blocked r c" if "blocked (recordAction u r) c" and "\<not> ?blocks" for c
    using that by (auto simp: blocked_def list_ex_iff recordAction_cycle[OF f] ActionRecord_of_def
        blocksForeground_def split: option.splits)
  then show ?thesis
    using assms(1) f by (auto simp: wf_projection_def owed_ok_def recordAction_cycle[OF f])
qed

lemma actionUpdate_preserves:
  assumes wf: "wf_projection r" and h: "applyActionUpdate d r = (None, r')"
  shows "wf_projection r'"
  using h
proof (cases rule: actionUpdate_result)
  case restated
  with wf show ?thesis by simp
next
  case (patched u i)
  have "projection_ok r'"
    unfolding patched(5) using wf actionIndex_Some[OF patched(2)] patched(3)
    by (intro updateAction_ok) (simp_all add: wf_projection_def)
  moreover have "actions r ! i \<in> set (actions r)" using actionIndex_Some[OF patched(2)] by simp
  then have "blocked r c" if "blocked r' c" for c
    using that patched(3) unfolding patched(5) blocked_def
    by (auto simp: list_ex_iff dest!: list_update_set_cases)
  then have "owed_ok r'" using wf by (auto simp: wf_projection_def owed_ok_def patched(5) split: option.splits)
  ultimately show ?thesis using wf by (simp add: wf_projection_def patched(5))
next
  case (first u)
  obtain f where f: "foreground r = Some f"
    using wf by (auto simp: wf_projection_def projection_ok_def foreground_ok_def split: option.splits)
  have new: "cu_ActionID u \<notin> cr_ActionID ` set (actions r)" using first(2) by (simp add: actionIndex_None)
  have "projection_ok r'"
    unfolding first(5) using wf f new first(3,4)
    by (intro recordAction_ok) (auto simp: wf_projection_def passes split: if_splits)
  moreover have "owed_ok r'"
    using wf f by (rule recordAction_owed[OF _ _ new, folded first(5)])
  ultimately show ?thesis using wf by (simp add: wf_projection_def first(5))
qed

lemma actionUpdate_evolves:
  "applyActionUpdate d r = (None, r') \<Longrightarrow> evolves (rd_state r) (rd_state r')"
  by (cases rule: actionUpdate_result)
    (auto intro!: evolves_actions grows_update grows_append grows_refl simp: action_step_def)

section \<open>Interpretations\<close>

interpretation accepted: delta_handler applyPromptAccepted
  by unfold_locales (fact promptAccepted_preserves promptAccepted_evolves)+

interpretation transition: delta_handler applyStateUpdate
  by unfold_locales (fact transition_preserves transition_evolves)+

interpretation activity: delta_handler applyActivityUpdate
  by unfold_locales (fact activityUpdate_preserves activityUpdate_evolves)+

interpretation action: delta_handler applyActionUpdate
  by unfold_locales (fact actionUpdate_preserves actionUpdate_evolves)+

interpretation event: delta_handler apply_event
  by unfold_locales
    (auto simp: apply_event_def Let_def split: if_splits
      intro: accepted.preserves transition.preserves activity.preserves action.preserves
        accepted.evolution transition.evolution activity.evolution action.evolution)

end
