(* ===== verification/Opening.thy ===== *)
theory Opening
  imports Handlers
begin

text \<open>
  A stream opens at its snapshot: a checked snapshot on the empty projection gives a
  well-formed one, and lists exactly what it states.
\<close>

section \<open>When a snapshot passes\<close>

lemma checkSnapshotActivities_passes:
  "checkSnapshotActivities d i listed as r = (None, s) \<longleftrightarrow>
     s = r \<and> distinct (map au_ActivityID as) \<and> listed \<inter> set (map au_ActivityID as) = {} \<and>
     (\<forall>a \<in> set as. au_Kind a \<noteq> [] \<and> au_Cause a \<noteq> [] \<and> au_OriginTurnID a \<noteq> [] \<and>
        declaresActivityKind (rd_negotiated r) (au_Kind a) \<and> \<not> ActivityState_Terminal (au_State a) \<and>
        (au_ParentID a = [] \<or> au_ParentID a \<in> in_activities i))"
  by (induction as arbitrary: listed) (auto simp: passes)

lemma checkSnapshotActions_passes:
  "checkSnapshotActions d i listed as r = (None, s) \<longleftrightarrow>
     s = r \<and> distinct (map cu_ActionID as) \<and> listed \<inter> set (map cu_ActionID as) = {} \<and>
     (\<forall>a \<in> set as. cu_Kind a \<noteq> [] \<and> ow_ID (cu_Owner a) \<noteq> [] \<and> cu_BlocksForeground a \<noteq> None \<and>
        \<not> ActionState_Terminal (cu_State a) \<and> holds i (cu_Owner a))"
  by (induction as arbitrary: listed) (auto simp: passes)

definition snapshot_ok :: "Negotiated \<Rightarrow> Snapshot \<Rightarrow> bool" where
  "snapshot_ok n s \<longleftrightarrow>
     foregroundDefect (sn_Foreground s) = [] \<and>
     distinct (map au_ActivityID (sn_Activities s)) \<and> distinct (map cu_ActionID (sn_Actions s)) \<and>
     list_all (\<lambda>a. au_Kind a \<noteq> [] \<and> au_Cause a \<noteq> [] \<and> au_OriginTurnID a \<noteq> [] \<and>
        declaresActivityKind n (au_Kind a) \<and> \<not> ActivityState_Terminal (au_State a) \<and>
        (au_ParentID a = [] \<or> au_ParentID a \<in> set (map au_ActivityID (sn_Activities s)))) (sn_Activities s) \<and>
     list_all (\<lambda>a. cu_Kind a \<noteq> [] \<and> ow_ID (cu_Owner a) \<noteq> [] \<and> cu_BlocksForeground a \<noteq> None \<and>
        \<not> ActionState_Terminal (cu_State a) \<and> holds (introduces s) (cu_Owner a)) (sn_Actions s) \<and>
     (fg_State (sn_Foreground s) = ForegroundRequiresAction \<longrightarrow> carriesBlocker s)"

lemma checkSnapshot_passes: "checkSnapshot d s r = (None, t) \<longleftrightarrow> t = r \<and> snapshot_ok (rd_negotiated r) s"
  by (auto simp: checkSnapshot_def Let_def snapshot_ok_def passes checkSnapshotActivities_passes
      checkSnapshotActions_passes list_all_iff introduces_def)

section \<open>What a snapshot projects\<close>

lemma fold_projectActivity [simp]:
  "turns (fold projectActivity as r) = turns r" "actions (fold projectActivity as r) = actions r"
  "foreground (fold projectActivity as r) = foreground r"
  "activities (fold projectActivity as r) = activities r @ map ActivityRecord_of as"
  "rd_turnSeen (fold projectActivity as r) = rd_turnSeen r \<union> set (map au_OriginTurnID as)"
  "rd_activitySeen (fold projectActivity as r) = rd_activitySeen r \<union> set (map au_ActivityID as)"
  "rd_negotiated (fold projectActivity as r) = rd_negotiated r"
  "rd_started (fold projectActivity as r) = rd_started r"
  "rd_actionCycle (fold projectActivity as r) = rd_actionCycle r"
  by (induction as arbitrary: r) (auto simp: projectActivity_def recordActivity_def)

lemma fold_recordAction [simp]:
  "turns (fold recordAction as r) = turns r" "activities (fold recordAction as r) = activities r"
  "foreground (fold recordAction as r) = foreground r"
  "actions (fold recordAction as r) = actions r @ map ActionRecord_of as"
  "rd_turnSeen (fold recordAction as r) = rd_turnSeen r"
  "rd_activitySeen (fold recordAction as r) = rd_activitySeen r"
  "rd_negotiated (fold recordAction as r) = rd_negotiated r" "rd_started (fold recordAction as r) = rd_started r"
  by (induction as arbitrary: r) simp_all

lemma fold_recordAction_wf:
  assumes "wf_projection r" and "distinct (map cu_ActionID as)"
    and "set (map cu_ActionID as) \<inter> cr_ActionID ` set (actions r) = {}"
    and "\<forall>a \<in> set as. cu_Kind a \<noteq> [] \<and> ow_ID (cu_Owner a) \<noteq> [] \<and>
      (if ow_Type (cu_Owner a) = OwnerActivity then ow_ID (cu_Owner a) \<in> rd_activitySeen r
       else ow_ID (cu_Owner a) \<in> rd_turnSeen r)"
  shows "wf_projection (fold recordAction as r)"
  using assms
proof (induction as arbitrary: r)
  case (Cons a as)
  obtain f where f: "foreground r = Some f"
    using Cons.prems(1) by (auto simp: wf_projection_def projection_ok_def foreground_ok_def split: option.splits)
  have new: "cu_ActionID a \<notin> cr_ActionID ` set (actions r)" using Cons.prems(3) by auto
  have a: "cu_Kind a \<noteq> []" "ow_ID (cu_Owner a) \<noteq> []"
    "if ow_Type (cu_Owner a) = OwnerActivity then ow_ID (cu_Owner a) \<in> rd_activitySeen r
     else ow_ID (cu_Owner a) \<in> rd_turnSeen r"
    using Cons.prems(4) by simp_all
  have "wf_projection (recordAction a r)"
    using Cons.prems(1) recordAction_ok[OF _ f new a] recordAction_owed[OF _ f new]
    by (simp add: wf_projection_def)
  with Cons.IH[of "recordAction a r"] Cons.prems show ?case by (auto simp: ActionRecord_of_def)
qed simp

text \<open>The projection a stream opens on.\<close>

definition unopened :: "Reducer \<Rightarrow> bool" where
  "unopened r \<longleftrightarrow> turns r = [] \<and> activities r = [] \<and> actions r = [] \<and> foreground r = None \<and>
     rd_turnSeen r = {} \<and> rd_activitySeen r = {} \<and> rd_actionCycle r = Map.empty"

lemma foregroundDefect_shape:
  "foregroundDefect f = [] \<Longrightarrow> fg_CycleID f \<noteq> [] \<and> (fg_State f = ForegroundIdle \<longleftrightarrow> fg_TurnID f = [])"
  by (auto simp: foregroundDefect_def split: if_splits)

text \<open>Before its actions, a checked snapshot projects its foreground, turn and activities.\<close>

lemma opened_ok:
  fixes s r
  defines "r1 \<equiv> setForeground (sn_Foreground s) r"
  defines "r2 \<equiv> if fg_TurnID (sn_Foreground s) \<noteq> [] then
      openTurn ((blank_turn (fg_TurnID (sn_Foreground s)) (fg_Origin (sn_Foreground s)))
        \<lparr>tr_CycleID := fg_CycleID (sn_Foreground s)\<rparr>) r1 else r1"
  defines "r3 \<equiv> fold projectActivity (sn_Activities s) r2"
  assumes s: "snapshot_ok (rd_negotiated r) s" and un: "unopened r" and st: "rd_started r"
  shows "wf_projection r3" and "rd_turnSeen r3 = in_turns (introduces s)"
    and "rd_activitySeen r3 = in_activities (introduces s)" and "actions r3 = []"
proof -
  note shape = foregroundDefect_shape[of "sn_Foreground s"]
  have r2: "activities r2 = []" "actions r2 = []" "foreground r2 = Some (sn_Foreground s)" "rd_activitySeen r2 = {}"
    "rd_started r2" "rd_turnSeen r2 = (if fg_TurnID (sn_Foreground s) \<noteq> [] then {fg_TurnID (sn_Foreground s)} else {})"
    "rd_negotiated r2 = rd_negotiated r"
    using un st by (auto simp: unopened_def r1_def r2_def openTurn_def setForeground_def blank_turn_def)
  show seen: "rd_turnSeen r3 = in_turns (introduces s)" "rd_activitySeen r3 = in_activities (introduces s)"
    and "actions r3 = []"
    by (auto simp: r3_def r2 introduces_def)
  have turns: "turns r2 = (if fg_TurnID (sn_Foreground s) \<noteq> [] then
      [(blank_turn (fg_TurnID (sn_Foreground s)) (fg_Origin (sn_Foreground s)))
        \<lparr>tr_CycleID := fg_CycleID (sn_Foreground s)\<rparr>] else [])"
    using un by (auto simp: unopened_def r1_def r2_def)
  have "turns_ok r3" by (auto simp: turns_ok_def r3_def r2 turns turn_ok_def blank_turn_def)
  moreover have "foreground_ok r3"
    using s shape by (auto simp: foreground_ok_def r3_def r2 turns blank_turn_def snapshot_ok_def)
  moreover have "actions_ok r3" by (simp add: actions_ok_def r3_def r2)
  moreover have "activities_ok r3"
    using s by (auto simp: activities_ok_def r3_def r2 snapshot_ok_def list_all_iff families_ok_def activity_ok_def
        ActivityRecord_of_def comp_def image_image)
  moreover have "owed_ok r3" by (simp add: owed_ok_def blocked_def r3_def r2)
  ultimately show "wf_projection r3" by (simp add: wf_projection_def projection_ok_def) (simp add: r3_def r2)
qed

lemma projectSnapshot_wf:
  assumes s: "snapshot_ok (rd_negotiated r) s" and un: "unopened r" and st: "rd_started r"
  shows "wf_projection (projectSnapshot s r)"
  unfolding projectSnapshot_def Let_def
  by (rule fold_recordAction_wf)
    (use opened_ok[OF assms] s in \<open>auto simp: snapshot_ok_def list_all_iff holds_def\<close>)

text \<open>The opened projection lists what the snapshot states, in its order.\<close>

lemma projectSnapshot_lists:
  assumes "unopened r"
  shows "foreground (projectSnapshot s r) = Some (sn_Foreground s)"
    and "activities (projectSnapshot s r) = map ActivityRecord_of (sn_Activities s)"
    and "actions (projectSnapshot s r) = map ActionRecord_of (sn_Actions s)"
    and "map tr_TurnID (turns (projectSnapshot s r)) =
      (if fg_TurnID (sn_Foreground s) = [] then [] else [fg_TurnID (sn_Foreground s)])"
  using assms by (simp_all add: projectSnapshot_def Let_def unopened_def blank_turn_def)

end
