(* ===== verification/Reduction.thy ===== *)
theory Reduction
  imports Opening
begin

text \<open>
  The reducer as a machine: the invariant of every reachable reducer, by rule induction over
  the deliveries and closes that reach it, and what one delivery may do to it.
\<close>

section \<open>Acceptance and refusal\<close>

lemma opened_shape:
  assumes "applySnapshot d r = (None, r')"
  obtains s where "ev_Snapshot (dl_Event d) = Some s" and "snapshot_ok (rd_negotiated r) s"
    and "r' = projectSnapshot s r"
proof (cases "ev_Snapshot (dl_Event d)")
  case None
  with assms show ?thesis by (simp add: applySnapshot_def)
next
  case (Some s)
  with assms that[OF Some] show ?thesis by (auto simp: applySnapshot_def passes checkSnapshot_passes)
qed

lemma commit_fields [simp]:
  "turns (commit d r) = turns r" "activities (commit d r) = activities r" "actions (commit d r) = actions r"
  "foreground (commit d r) = foreground r" "rd_turnSeen (commit d r) = rd_turnSeen r"
  "rd_activitySeen (commit d r) = rd_activitySeen r" "rd_negotiated (commit d r) = rd_negotiated r"
  "rd_started (commit d r) = rd_started r" "rd_failed (commit d r) = rd_failed r"
  "rd_actionCycle (commit d r) = rd_actionCycle r" "rd_blockedCycle (commit d r) = rd_blockedCycle r"
  "rd_base (commit d r) = rd_base r" "rd_retired (commit d r) = rd_retired r"
  "s_StreamID (rd_state (commit d r)) = s_StreamID (rd_state r)"
  "s_Closed (rd_state (commit d r)) = s_Closed (rd_state r)"
  "s_SuppressedRetransmissions (rd_state (commit d r)) = s_SuppressedRetransmissions (rd_state r)"
  "s_ReducedThrough (rd_state (commit d r)) = dl_Sequence d"
  "rd_frames (commit d r) = map_option (\<lambda>m. m(dl_Sequence d \<mapsto> frameDigest (dl_Frame d))) (rd_frames r)"
  by (simp_all add: commit_def Let_def)

text \<open>How \<open>reduceFirst\<close> ends: refused with nothing opened, or open at the snapshot.\<close>

lemma reduceFirst_refused:
  assumes "reduceFirst d r = (Some e, r')" and "\<not> rd_started r"
  shows "\<not> rd_started r'" and "rd_failed r' = Some e"
    and "ve_StreamID e = dl_StreamID d \<and> ve_Sequence e = dl_Sequence d"
    and "rd_state r' = (rd_state r)\<lparr>s_StreamID := dl_StreamID d\<rparr>" and "rd_retired r' = rd_retired r"
    and "rd_turnSeen r' = rd_turnSeen r" and "rd_activitySeen r' = rd_activitySeen r"
    and "rd_actionCycle r' = rd_actionCycle r" and "rd_frames r' = rd_frames r"
proof -
  let ?r = "rd_state_update (s_StreamID_update (\<lambda>_. dl_StreamID d)) r"
  have "(\<not> rd_started r' \<and> rd_failed r' = Some e \<and> ve_StreamID e = dl_StreamID d \<and> ve_Sequence e = dl_Sequence d) \<and>
    rd_state r' = rd_state ?r \<and> rd_retired r' = rd_retired r \<and> rd_turnSeen r' = rd_turnSeen r \<and>
    rd_activitySeen r' = rd_activitySeen r \<and> rd_actionCycle r' = rd_actionCycle r \<and> rd_frames r' = rd_frames r"
  proof (cases "ev_Type (dl_Event d) = EventSnapshot")
    case False
    with assms have "fail d ViolationDeltaBeforeSnapshot (''first event was '' @ ev_Type (dl_Event d)) ?r = (Some e, r')"
      by (simp add: reduceFirst_def)
    with assms(2) show ?thesis unfolding fail_eq_iff by (auto simp: violation_def)
  next
    case True
    let ?q = "?r\<lparr>rd_started := True, rd_base := dl_Sequence d\<rparr>"
    obtain q where q: "applySnapshot d ?q = (Some e, q)" "r' = q\<lparr>rd_started := False\<rparr>"
      using assms True by (auto simp: reduceFirst_def Let_def split: prod.splits option.splits)
    from snapshot.refused_shape[OF q(1)] obtain c where "q = ?q\<lparr>rd_failed := Some e, rd_blockedCycle := c\<rparr>" by blast
    with q(2) snapshot.refused_identity[OF q(1)] show ?thesis by simp
  qed
  then show "\<not> rd_started r'" "rd_failed r' = Some e" "ve_StreamID e = dl_StreamID d \<and> ve_Sequence e = dl_Sequence d"
    "rd_state r' = (rd_state r)\<lparr>s_StreamID := dl_StreamID d\<rparr>" "rd_retired r' = rd_retired r"
    "rd_turnSeen r' = rd_turnSeen r" "rd_activitySeen r' = rd_activitySeen r"
    "rd_actionCycle r' = rd_actionCycle r" "rd_frames r' = rd_frames r"
    by simp_all
qed

lemma reduceFirst_accepted:
  assumes "reduceFirst d r = (None, r')"
  obtains s q where "ev_Type (dl_Event d) = EventSnapshot" "ev_Snapshot (dl_Event d) = Some s"
    "snapshot_ok (rd_negotiated r) s"
    "q = (rd_state_update (s_StreamID_update (\<lambda>_. dl_StreamID d)) r)\<lparr>rd_started := True, rd_base := dl_Sequence d\<rparr>"
    "r' = commit d (projectSnapshot s q)"
proof -
  let ?q = "(rd_state_update (s_StreamID_update (\<lambda>_. dl_StreamID d)) r)\<lparr>rd_started := True, rd_base := dl_Sequence d\<rparr>"
  from assms obtain q where type: "ev_Type (dl_Event d) = EventSnapshot" and q: "applySnapshot d ?q = (None, q)"
    and r': "r' = commit d q"
    by (auto simp: reduceFirst_def Let_def split: if_splits prod.splits option.splits)
  from opened_shape[OF q] type r' that[of _ ?q] show thesis by auto
qed

section \<open>The invariant\<close>

definition stream_ok :: "Reducer \<Rightarrow> bool" where
  "stream_ok r \<longleftrightarrow> rd_base r \<le> s_ReducedThrough (rd_state r) \<and>
     (\<forall>m. rd_frames r = Some m \<longrightarrow> dom m = {rd_base r .. s_ReducedThrough (rd_state r)}) \<and>
     s_StreamID (rd_state r) \<notin> rd_retired r"

definition reducer_inv :: "Reducer \<Rightarrow> bool" where
  "reducer_inv r \<longleftrightarrow>
     (if rd_started r then projection_ok r \<and> stream_ok r \<and> (rd_failed r = None \<longrightarrow> owed_ok r)
      else unopened r \<and> rd_retired r = {} \<and> (\<forall>m. rd_frames r = Some m \<longrightarrow> m = Map.empty))"

lemma inv_failed: "reducer_inv r \<Longrightarrow> reducer_inv (r\<lparr>rd_failed := Some e\<rparr>)"
  using projection_cong[of "r\<lparr>rd_failed := Some e\<rparr>" r]
  by (auto simp: reducer_inv_def stream_ok_def unopened_def split: if_splits)

text \<open>The projection's own clauses do not see the stream's bookkeeping.\<close>

lemma projection_ok_bookkeeping:
  assumes "turns r' = turns r" "activities r' = activities r" "actions r' = actions r" "foreground r' = foreground r"
    "rd_turnSeen r' = rd_turnSeen r" "rd_activitySeen r' = rd_activitySeen r"
    "rd_negotiated r' = rd_negotiated r" "rd_actionCycle r' = rd_actionCycle r" "rd_started r' = rd_started r"
  shows "projection_ok r' = projection_ok r"
proof -
  have "activity_ok r' = activity_ok r" "action_ok r' = action_ok r"
    using assms by (simp_all add: activity_ok_def action_ok_def fun_eq_iff)
  with assms show ?thesis by (simp add: projection_defs split: option.split)
qed

lemma inv_opened:
  assumes h: "reduceFirst d r = (None, r')" and un: "unopened r" and "dl_StreamID d \<notin> rd_retired r"
    and frames: "\<forall>m. rd_frames r = Some m \<longrightarrow> m = Map.empty"
  shows "reducer_inv r' \<and> rd_started r'"
  using h
proof (cases rule: reduceFirst_accepted)
  case (1 s q)
  have q: "unopened q" "rd_started q" "rd_negotiated q = rd_negotiated r" "rd_base q = dl_Sequence d"
    "s_StreamID (rd_state q) = dl_StreamID d" "rd_retired q = rd_retired r" "rd_frames q = rd_frames r"
    using un unfolding 1(4) by (simp_all add: unopened_def)
  let ?p = "projectSnapshot s q"
  have wf: "wf_projection ?p" using 1(3) q by (intro projectSnapshot_wf) simp_all
  have b: "same_bookkeeping q ?p" by simp
  have "stream_ok r'"
    using b assms(3) frames q by (auto simp: stream_ok_def 1(5) same_bookkeeping_def split: if_splits)
  moreover have "projection_ok r' = projection_ok ?p" "owed_ok r' = owed_ok ?p"
    unfolding 1(5) by (rule projection_ok_bookkeeping owed_cong; simp)+
  ultimately show ?thesis using wf by (simp add: reducer_inv_def wf_projection_def 1(5))
qed

lemma inv_reduceDuplicate: "reducer_inv r \<Longrightarrow> rd_started r \<Longrightarrow> reducer_inv (snd (reduceDuplicate d r))"
proof -
  assume inv: "reducer_inv r" and "rd_started r"
  let ?s = "rd_state_update (s_SuppressedRetransmissions_update (\<lambda>n. n + 1)) r"
  have "projection_ok ?s = projection_ok r" "owed_ok ?s = owed_ok r"
    by (rule projection_ok_bookkeeping owed_cong; simp)+
  with inv \<open>rd_started r\<close> inv_failed[OF inv] show ?thesis
    by (simp add: reduceDuplicate_def fail_def Let_def reducer_inv_def stream_ok_def)
qed

lemma inv_Close: "reducer_inv r \<Longrightarrow> reducer_inv (Close r)"
proof -
  assume inv: "reducer_inv r"
  have "projection_ok (Close r) = projection_ok r" "owed_ok (Close r) = owed_ok r"
    unfolding Close_def by (rule projection_ok_bookkeeping owed_cong; simp)+
  with inv show ?thesis by (auto simp: reducer_inv_def stream_ok_def unopened_def Close_def split: if_splits)
qed

text \<open>The next sequence extends the delivered window by one.\<close>

lemma next_sequence:
  fixes s t :: u64
  assumes "\<not> s \<le> t" and "\<not> s > t + 1"
  shows "s = t + 1" and "b \<le> t \<Longrightarrow> insert s {b .. t} = {b .. s}" and "b \<le> t \<Longrightarrow> b \<le> s"
proof -
  have "t + 1 \<noteq> 0"
  proof
    assume "t + 1 = 0"
    with assms(2) have "\<not> 0 < s" by simp
    then have "s = 0" by (metis word_gt_0)
    with assms(1) show False by simp
  qed
  then have u: "unat (t + 1) = Suc (unat t)" by (metis add.commute unatSuc)
  have "unat t < unat s" "unat s \<le> unat (t + 1)"
    using assms by (simp_all only: word_less_nat_alt word_le_nat_alt not_le not_less)
  with u have us: "unat s = Suc (unat t)" by simp
  with u show "s = t + 1" by (metis word_unat_eq_iff)
  have eq: "x = s \<longleftrightarrow> unat x = Suc (unat t)" for x
    using us by (metis word_unat_eq_iff)
  show "b \<le> t \<Longrightarrow> b \<le> s" unfolding word_le_nat_alt us by simp
  show "insert s {b .. t} = {b .. s}" if "b \<le> t"
  proof (rule set_eqI)
    fix x
    show "x \<in> insert s {b .. t} \<longleftrightarrow> x \<in> {b .. s}"
      using that unfolding insert_iff atLeastAtMost_iff eq word_le_nat_alt us by arith
  qed
qed

section \<open>One delivery\<close>

text \<open>The four ways a delivery is accepted.\<close>

lemma Reduce_accepted:
  assumes "Reduce d r = (None, r')"
  obtains (opens) "rd_failed r = None" "dl_Carrier d = CarrierSessionInfo" "\<not> s_Closed (rd_state r)"
    "\<not> rd_started r" "reduceFirst d r = (None, r')"
  | (replaces) q where "rd_failed r = None" "dl_Carrier d = CarrierSessionInfo" "\<not> s_Closed (rd_state r)"
    "rd_started r" "dl_StreamID d \<noteq> s_StreamID (rd_state r)" "dl_StreamID d \<notin> rd_retired r"
    "reduceFirst d (reset (dl_StreamID d) (blank_reducer (rd_negotiated r) (rd_retired r))) = (None, q)"
    "r' = (rd_state_update (s_Closed_update (\<lambda>_. s_Closed (rd_state r))) q)
            \<lparr>rd_retired := insert (s_StreamID (rd_state r)) (rd_retired q)\<rparr>"
  | (suppresses) m where "rd_failed r = None" "dl_Carrier d = CarrierSessionInfo" "\<not> s_Closed (rd_state r)"
    "rd_started r" "dl_StreamID d = s_StreamID (rd_state r)" "rd_base r \<le> dl_Sequence d"
    "dl_Sequence d \<le> s_ReducedThrough (rd_state r)" "rd_frames r = Some m"
    "m (dl_Sequence d) = Some (frameDigest (dl_Frame d))"
    "r' = rd_state_update (s_SuppressedRetransmissions_update (\<lambda>n. n + 1)) r"
  | (advances) q where "rd_failed r = None" "dl_Carrier d = CarrierSessionInfo" "\<not> s_Closed (rd_state r)"
    "rd_started r" "dl_StreamID d = s_StreamID (rd_state r)" "\<not> dl_Sequence d \<le> s_ReducedThrough (rd_state r)"
    "\<not> dl_Sequence d > s_ReducedThrough (rd_state r) + 1" "ev_Type (dl_Event d) \<noteq> EventSnapshot"
    "apply_event d r = (None, q)" "r' = commit d q"
proof -
  have open_gate: "rd_failed r = None" "dl_Carrier d = CarrierSessionInfo" "\<not> s_Closed (rd_state r)"
    using assms by (auto simp: Reduce_def Let_def split: if_splits)
  show thesis
  proof (cases "rd_started r")
    case False
    with assms open_gate opens show thesis by (simp add: Reduce_def Let_def)
  next
    case True
    show thesis
    proof (cases "dl_StreamID d = s_StreamID (rd_state r)")
      case same: False
      with assms open_gate True have f: "reduceForeign d r = (None, r')" by (simp add: Reduce_def Let_def)
      then obtain q where q: "reduceFirst d (reset (dl_StreamID d) (blank_reducer (rd_negotiated r) (rd_retired r))) = (None, q)"
        "dl_StreamID d \<notin> rd_retired r"
        by (auto simp: reduceForeign_def split: if_splits prod.splits option.splits)
      with f have "r' = (rd_state_update (s_Closed_update (\<lambda>_. s_Closed (rd_state r))) q)
            \<lparr>rd_retired := insert (s_StreamID (rd_state r)) (rd_retired q)\<rparr>"
        by (auto simp: reduceForeign_def split: if_splits)
      with q same True open_gate replaces show thesis by blast
    next
      case same: True
      show thesis
      proof (cases "dl_Sequence d \<le> s_ReducedThrough (rd_state r)")
        case dup: True
        with assms open_gate True same have "reduceDuplicate d r = (None, r')" and b: "rd_base r \<le> dl_Sequence d"
          by (auto simp: Reduce_def Let_def split: if_splits)
        then obtain m where "rd_frames r = Some m" "m (dl_Sequence d) = Some (frameDigest (dl_Frame d))"
          "r' = rd_state_update (s_SuppressedRetransmissions_update (\<lambda>n. n + 1)) r"
          by (auto simp: reduceDuplicate_def split: if_splits option.splits)
        with suppresses open_gate True same dup b show thesis by blast
      next
        case new: False
        with assms open_gate True same obtain q where "apply_event d r = (None, q)" "r' = commit d q"
          "\<not> dl_Sequence d > s_ReducedThrough (rd_state r) + 1" "ev_Type (dl_Event d) \<noteq> EventSnapshot"
          by (auto simp: Reduce_def Let_def split: if_splits prod.splits option.splits)
        with advances open_gate True same new show thesis by blast
      qed
    qed
  qed
qed

text \<open>A refusal latches itself, names the delivery that caused it, and keeps what the stream
  has proven; only the identity of a stream that never opened is taken over.\<close>

lemma refusal_reduceDuplicate: "refusal_of d r (reduceDuplicate d r)"
  unfolding reduceDuplicate_def by simp

lemma refusal_foreign_step:
  assumes "\<not> rd_started q"
  shows "refusal_of d r (case reduceFirst d q of (Some e, next) \<Rightarrow> (Some e, r\<lparr>rd_failed := rd_failed next\<rparr>)
    | (None, next) \<Rightarrow> (None, f next))"
proof (cases "reduceFirst d q")
  case (Pair e n)
  show ?thesis
  proof (cases e)
    case None
    with Pair show ?thesis by simp
  next
    case (Some v)
    have "ve_StreamID v = dl_StreamID d \<and> ve_Sequence v = dl_Sequence d" "rd_failed n = Some v"
      using reduceFirst_refused[OF Pair[unfolded Some] assms] by simp_all
    with Pair Some show ?thesis by (simp add: refusal_of_def)
  qed
qed

lemma refusal_reduceForeign: "refusal_of d r (reduceForeign d r)"
  by (simp add: reduceForeign_def refusal_foreign_step reset_def)

lemma refusal_delta:
  "refusal_of d r (case apply_event d r of (Some e, r) \<Rightarrow> (Some e, r) | (None, r) \<Rightarrow> (None, commit d r))"
  using event.refuses[of d r] by (cases "apply_event d r") (auto split: option.split)

lemma refusal_Reduce:
  assumes "rd_failed r = None" and "rd_started r"
  shows "refusal_of d r (Reduce d r)"
  using assms refusal_delta[of d r] by (simp add: Reduce_def Let_def refusal_reduceDuplicate refusal_reduceForeign)

lemma Reduce_refused:
  assumes h: "Reduce d r = (Some e, r')"
  obtains (latched) "rd_failed r = Some e" "r' = r"
  | (first) "rd_failed r = None" "\<not> rd_started r" "reduceFirst d r = (Some e, r')"
  | (refused) b where "rd_failed r = None" "ve_StreamID e = dl_StreamID d" "ve_Sequence e = dl_Sequence d"
    "r' = r\<lparr>rd_failed := Some e, rd_blockedCycle := b\<rparr>"
proof (cases "rd_failed r")
  case (Some v)
  then have "Reduce d r = (rd_failed r, r)" by (simp add: Reduce_def)
  with h have "rd_failed r = Some e" "r' = r" by (metis Pair_inject)+
  then show thesis by (rule latched)
next
  case None
  show thesis
  proof (cases "refusal_of d r (Reduce d r)")
    case True
    then have "ve_StreamID e = dl_StreamID d" "ve_Sequence e = dl_Sequence d"
      "r' = r\<lparr>rd_failed := Some e, rd_blockedCycle := rd_blockedCycle r'\<rparr>"
      unfolding refusal_of_def h by simp_all
    then show thesis by (rule refused[OF None])
  next
    case False
    then have "\<not> rd_started r" using refusal_Reduce[OF None] by blast
    moreover have "refusal_of d r (Reduce d r) \<or> Reduce d r = reduceFirst d r"
      using None calculation by (simp add: Reduce_def Let_def)
    ultimately show thesis using False h first[OF None] by metis
  qed
qed

section \<open>Reachable reducers\<close>

text \<open>What a process can do to a reducer: make one, reduce a delivery, close it.\<close>

inductive reachable :: "Negotiated \<Rightarrow> Reducer \<Rightarrow> bool" for n :: Negotiated where
  reachable_new: "reachable n (NewReducer n)"
| reachable_reduce: "reachable n r \<Longrightarrow> reachable n (snd (Reduce d r))"
| reachable_close: "reachable n r \<Longrightarrow> reachable n (Close r)"

lemma reachable_reduce_all: "reachable n r \<Longrightarrow> reachable n (reduce_all ds r)"
  by (induction ds arbitrary: r) (simp_all add: reachable_reduce)

lemma inv_NewReducer: "reducer_inv (NewReducer n)"
  by (simp add: NewReducer_def reset_def blank_reducer_def empty_state_def reducer_inv_def unopened_def)

lemma inv_refused:
  assumes inv: "reducer_inv r" and h: "Reduce d r = (Some e, r')"
  shows "reducer_inv r'"
  using h
proof (cases rule: Reduce_refused)
  case latched
  with inv show ?thesis by simp
next
  case first
  note f = reduceFirst_refused[OF first(3,2)]
  from f inv first(2) show ?thesis by (simp add: reducer_inv_def unopened_def)
next
  case (refused b)
  have "projection_ok r' = projection_ok r" unfolding refused(4) by (rule projection_cong) simp_all
  with inv show ?thesis unfolding refused(4)
    by (auto simp: reducer_inv_def stream_ok_def unopened_def split: if_splits)
qed

lemma inv_accepted:
  assumes inv: "reducer_inv r" and h: "Reduce d r = (None, r')"
  shows "reducer_inv r'"
  using h
proof (cases rule: Reduce_accepted)
  case opens
  with inv show ?thesis
    using inv_opened[OF opens(5)] by (auto simp: reducer_inv_def)
next
  case (replaces q)
  let ?b = "reset (dl_StreamID d) (blank_reducer (rd_negotiated r) (rd_retired r))"
  have "unopened ?b" "rd_retired ?b = rd_retired r" "rd_frames ?b = Some Map.empty"
    by (simp_all add: reset_def blank_reducer_def unopened_def empty_state_def)
  with inv_opened[OF replaces(7)] replaces(6) have q: "reducer_inv q" "rd_started q" by simp_all
  have id: "s_StreamID (rd_state q) = dl_StreamID d"
    using replaces(7)
  proof (cases rule: reduceFirst_accepted)
    case (1 s p)
    have "same_bookkeeping p (projectSnapshot s p)" by simp
    then show ?thesis unfolding 1(5) by (simp add: same_bookkeeping_def 1(4))
  qed
  have "projection_ok r' = projection_ok q" "owed_ok r' = owed_ok q"
    unfolding replaces(8) by (rule projection_ok_bookkeeping owed_cong; simp)+
  with q id replaces(5) show ?thesis unfolding replaces(8)
    by (simp add: reducer_inv_def stream_ok_def)
next
  case (suppresses m)
  with inv_reduceDuplicate[OF inv, of d] show ?thesis by (simp add: reduceDuplicate_def)
next
  case (advances q)
  have wf: "wf_projection r" using inv advances(1,4) by (simp add: reducer_inv_def wf_projection_def)
  from event.preserves[OF wf advances(9)] have q: "wf_projection q" .
  have b: "same_bookkeeping r q" using event.accepted_bookkeeping[OF advances(9)] .
  have "projection_ok r' = projection_ok q" "owed_ok r' = owed_ok q"
    unfolding advances(10) by (rule projection_ok_bookkeeping owed_cong; simp)+
  moreover have "stream_ok r" using inv advances(4) by (simp add: reducer_inv_def)
  then have st: "rd_base r \<le> s_ReducedThrough (rd_state r)" "s_StreamID (rd_state r) \<notin> rd_retired r"
    and dom: "\<And>m. rd_frames r = Some m \<Longrightarrow> dom m = {rd_base r .. s_ReducedThrough (rd_state r)}"
    by (simp_all add: stream_ok_def)
  have "dom m = {rd_base r .. dl_Sequence d}" if m: "rd_frames r' = Some m" for m
  proof -
    from m b obtain z where "rd_frames r = Some z" "m = z(dl_Sequence d \<mapsto> frameDigest (dl_Frame d))"
      by (auto simp: advances(10) same_bookkeeping_def)
    with dom show ?thesis using next_sequence(2)[OF advances(6,7) st(1)] by simp
  qed
  then have "stream_ok r'"
    using b st next_sequence(3)[OF advances(6,7) st(1)]
    by (simp add: stream_ok_def advances(10) same_bookkeeping_def)
  ultimately show ?thesis using q by (simp add: reducer_inv_def wf_projection_def advances(10))
qed

lemma reachable_inv: "reachable n r \<Longrightarrow> reducer_inv r"
proof (induction rule: reachable.induct)
  case (reachable_reduce r d)
  then show ?case using inv_refused inv_accepted by (metis prod.collapse option.exhaust)
qed (simp_all add: inv_NewReducer inv_Close)

end
