(* ===== verification/Streams.thy ===== *)
theory Streams
  imports Reduction
begin

text \<open>
  A stream over many deliveries: while the reducer follows one stream its records only grow
  and its frames are kept, and a stream it left for another is retired for good.
\<close>

section \<open>Following a stream\<close>

definition continues :: "Reducer \<Rightarrow> Reducer \<Rightarrow> bool" where
  "continues r r' \<longleftrightarrow> s_StreamID (rd_state r') = s_StreamID (rd_state r) \<and> rd_base r' = rd_base r \<and>
     s_ReducedThrough (rd_state r) \<le> s_ReducedThrough (rd_state r') \<and>
     evolves (rd_state r) (rd_state r') \<and>
     (\<forall>m. rd_frames r = Some m \<longrightarrow> (\<exists>m'. rd_frames r' = Some m' \<and> m \<subseteq>\<^sub>m m'))"

definition left_stream :: "Reducer \<Rightarrow> Reducer \<Rightarrow> bool" where
  "left_stream r r' \<longleftrightarrow> s_StreamID (rd_state r) \<in> rd_retired r'"

text \<open>One step of a started reducer stays on its stream or retires it, and retires no less.\<close>

definition follows :: "Reducer \<Rightarrow> Reducer \<Rightarrow> bool" where
  "follows r r' \<longleftrightarrow> rd_started r' \<and> rd_negotiated r' = rd_negotiated r \<and> rd_retired r \<subseteq> rd_retired r' \<and>
     (continues r r' \<or> left_stream r r')"

lemma continues_refl [simp]: "continues r r"
  by (simp add: continues_def)

lemma continues_trans:
  assumes "continues r s" and "continues s t"
  shows "continues r t"
proof -
  have "evolves (rd_state r) (rd_state t)"
    using assms evolves_trans unfolding continues_def by blast
  moreover have "\<exists>m'. rd_frames t = Some m' \<and> m \<subseteq>\<^sub>m m'" if "rd_frames r = Some m" for m
    using assms that map_le_trans unfolding continues_def by blast
  ultimately show ?thesis using assms by (auto simp: continues_def)
qed

lemma follows_trans: "follows r s \<Longrightarrow> follows s t \<Longrightarrow> follows r t"
proof -
  assume f: "follows r s" "follows s t"
  have "left_stream r t" if "continues r s" "left_stream s t"
    using that by (simp add: left_stream_def continues_def)
  moreover have "left_stream r t" if "left_stream r s"
    using that f by (auto simp: left_stream_def follows_def)
  ultimately show ?thesis using f continues_trans by (auto simp: follows_def)
qed

lemma opened_stream:
  assumes "reduceFirst d r = (None, r')"
  shows "s_StreamID (rd_state r') = dl_StreamID d" "s_ReducedThrough (rd_state r') = dl_Sequence d"
    "rd_base r' = dl_Sequence d" "rd_retired r' = rd_retired r" "rd_negotiated r' = rd_negotiated r"
    "rd_started r'" "rd_failed r' = rd_failed r"
    "rd_frames r' = map_option (\<lambda>m. m(dl_Sequence d \<mapsto> frameDigest (dl_Frame d))) (rd_frames r)"
proof -
  obtain s q where p: "q = (rd_state_update (s_StreamID_update (\<lambda>_. dl_StreamID d)) r)\<lparr>rd_started := True, rd_base := dl_Sequence d\<rparr>"
    and r': "r' = commit d (projectSnapshot s q)"
    using reduceFirst_accepted[OF assms] by metis
  have "same_bookkeeping q (projectSnapshot s q)" by simp
  then show "s_StreamID (rd_state r') = dl_StreamID d" "s_ReducedThrough (rd_state r') = dl_Sequence d"
    "rd_base r' = dl_Sequence d" "rd_retired r' = rd_retired r" "rd_negotiated r' = rd_negotiated r"
    "rd_started r'" "rd_failed r' = rd_failed r"
    "rd_frames r' = map_option (\<lambda>m. m(dl_Sequence d \<mapsto> frameDigest (dl_Frame d))) (rd_frames r)"
    unfolding r' by (simp_all add: same_bookkeeping_def p)
qed

lemma accepted_follows:
  assumes inv: "reducer_inv r" and st: "rd_started r" and h: "Reduce d r = (None, r')"
  shows "follows r r'"
  using h
proof (cases rule: Reduce_accepted)
  case opens
  with st show ?thesis by simp
next
  case (replaces q)
  note o = opened_stream[OF replaces(7)]
  show ?thesis unfolding replaces(8) follows_def left_stream_def
    using o by (simp add: reset_def blank_reducer_def subset_insertI)
next
  case (suppresses m)
  then show ?thesis using st by (simp add: follows_def continues_def evolves_def grows_refl)
next
  case (advances q)
  have b: "same_bookkeeping r q" by (rule event.accepted_bookkeeping[OF advances(9)])
  have "evolves (rd_state r) (rd_state r')"
    using event.evolution[OF advances(9)] by (simp add: advances(10) evolves_def)
  moreover have "s_ReducedThrough (rd_state r) \<le> dl_Sequence d" using advances(6) by simp
  moreover have "\<exists>m'. rd_frames r' = Some m' \<and> m \<subseteq>\<^sub>m m'" if m: "rd_frames r = Some m" for m
  proof -
    have "dom m = {rd_base r .. s_ReducedThrough (rd_state r)}"
      using inv st m by (simp add: reducer_inv_def stream_ok_def)
    then have "dl_Sequence d \<notin> dom m" using advances(6) by simp
    then have "m \<subseteq>\<^sub>m m(dl_Sequence d \<mapsto> frameDigest (dl_Frame d))" by (auto simp: map_le_def)
    with m b show ?thesis by (simp add: advances(10) same_bookkeeping_def)
  qed
  ultimately show ?thesis using b st by (simp add: follows_def continues_def advances(10) same_bookkeeping_def)
qed

lemma refused_follows:
  assumes st: "rd_started r" and h: "Reduce d r = (Some e, r')"
  shows "follows r r'"
  using h by (cases rule: Reduce_refused)
    (use st in \<open>auto simp: follows_def continues_def\<close>)

lemma follows_reduce: "reducer_inv r \<Longrightarrow> rd_started r \<Longrightarrow> follows r (snd (Reduce d r))"
  using accepted_follows refused_follows by (metis option.exhaust prod.collapse)

lemma inv_reduce: "reducer_inv r \<Longrightarrow> reducer_inv (snd (Reduce d r))"
  using inv_accepted inv_refused by (metis option.exhaust prod.collapse)

lemma follows_reduce_all:
  "reducer_inv r \<Longrightarrow> rd_started r \<Longrightarrow> follows r (reduce_all ds r) \<and> reducer_inv (reduce_all ds r)"
proof (induction ds arbitrary: r)
  case (Cons d ds)
  let ?s = "snd (Reduce d r)"
  from Cons.prems have s: "follows r ?s" "reducer_inv ?s" by (simp_all add: follows_reduce inv_reduce)
  then have "rd_started ?s" by (simp add: follows_def)
  with Cons.IH s show ?case by (auto intro: follows_trans)
qed (simp add: follows_def)

text \<open>A reducer that still reports a stream never left it.\<close>

lemma same_stream_continues:
  assumes "reducer_inv r" and "rd_started r" and "s_StreamID (rd_state (reduce_all ds r)) = s_StreamID (rd_state r)"
  shows "continues r (reduce_all ds r)"
proof -
  have f: "follows r (reduce_all ds r)" "reducer_inv (reduce_all ds r)"
    using follows_reduce_all assms by blast+
  then have "s_StreamID (rd_state (reduce_all ds r)) \<notin> rd_retired (reduce_all ds r)"
    by (simp add: follows_def reducer_inv_def stream_ok_def)
  with f(1) assms(3) show ?thesis by (simp add: follows_def left_stream_def)
qed

text \<open>The records a stream reports persist by position; a terminal one as it is.\<close>

lemma grows_nth: "grows R xs ys \<Longrightarrow> i < length xs \<Longrightarrow> i < length ys \<and> R (xs ! i) (ys ! i)"
  by (auto simp: grows_def)

lemma grows_terminal:
  assumes "grows R xs ys" and "x \<in> set xs" and "\<And>y. R x y \<Longrightarrow> y = x"
  shows "x \<in> set ys"
proof -
  obtain i where "i < length xs" "x = xs ! i" using assms(2) by (auto simp: in_set_conv_nth)
  with grows_nth[OF assms(1)] assms(3)[of "ys ! i"] show ?thesis by (metis nth_mem)
qed

section \<open>Latching\<close>

lemma latched_reduce: "rd_failed r = Some e \<Longrightarrow> Reduce d r = (Some e, r)"
  by (simp add: Reduce_def)

lemma latched_reduce_all: "rd_failed r = Some e \<Longrightarrow> reduce_all ds r = r"
  by (induction ds) (simp_all add: latched_reduce)

lemma refused_latches:
  assumes "Reduce d r = (Some e, r')"
  shows "rd_failed r' = Some e"
  using assms
proof (cases rule: Reduce_refused)
  case first
  show ?thesis by (rule reduceFirst_refused(2)[OF first(3,2)])
qed simp_all

text \<open>A reducer that has not failed after some deliveries had not failed before them.\<close>

lemma unfailed_before: "rd_failed (reduce_all ds r) = None \<Longrightarrow> rd_failed r = None"
  using latched_reduce_all by (cases "rd_failed r") auto

section \<open>Frames\<close>

text \<open>An accepted delivery's frame is recorded under its sequence.\<close>

lemma accepted_recorded:
  assumes inv: "reducer_inv r" and h: "Reduce d r = (None, r')" and fr: "rd_frames r \<noteq> None"
  shows "s_StreamID (rd_state r') = dl_StreamID d \<and> rd_started r' \<and>
    (\<exists>m. rd_frames r' = Some m \<and> m (dl_Sequence d) = Some (frameDigest (dl_Frame d)))"
  using h
proof (cases rule: Reduce_accepted)
  case opens
  with opened_stream[OF opens(5)] fr show ?thesis by auto
next
  case (replaces q)
  with opened_stream[OF replaces(7)] show ?thesis by (auto simp: reset_def)
next
  case (suppresses m)
  then show ?thesis by simp
next
  case (advances q)
  have "same_bookkeeping r q" by (rule event.accepted_bookkeeping[OF advances(9)])
  with advances fr show ?thesis by (auto simp: same_bookkeeping_def)
qed

text \<open>Every reachable reducer keeps frames: only an emitter's drops them.\<close>

lemma reachable_frames: "reachable n r \<Longrightarrow> rd_frames r \<noteq> None"
proof (induction rule: reachable.induct)
  case reachable_new
  then show ?case by (simp add: NewReducer_def reset_def)
next
  case (reachable_reduce r d)
  obtain e r' where h: "Reduce d r = (e, r')" by (cases "Reduce d r")
  have inv: "reducer_inv r" by (rule reachable_inv[OF reachable_reduce.hyps])
  show ?case
  proof (cases e)
    case None
    then show ?thesis using accepted_recorded[OF inv] h reachable_reduce.IH by fastforce
  next
    case (Some v)
    with h have "Reduce d r = (Some v, r')" by simp
    then show ?thesis
    proof (cases rule: Reduce_refused)
      case first
      with reachable_reduce.IH reduceFirst_refused(9)[OF first(3,2)] h show ?thesis by simp
    qed (use reachable_reduce.IH h in simp_all)
  qed
next
  case (reachable_close r)
  then show ?case by (simp add: Close_def)
qed

text \<open>How a delivery inside the delivered window ends.\<close>

lemma within_window:
  assumes "rd_failed r = None" and "dl_Carrier d = CarrierSessionInfo" and "\<not> s_Closed (rd_state r)"
    and "rd_started r" and "dl_StreamID d = s_StreamID (rd_state r)"
    and "rd_base r \<le> dl_Sequence d" and "dl_Sequence d \<le> s_ReducedThrough (rd_state r)"
  shows "Reduce d r = reduceDuplicate d r"
  using assms by (simp add: Reduce_def Let_def leD)

lemma recorded_window:
  assumes "reducer_inv r" and "rd_started r" and "rd_frames r = Some m" and "m k \<noteq> None"
  shows "rd_base r \<le> k \<and> k \<le> s_ReducedThrough (rd_state r)"
proof -
  have "dom m = {rd_base r .. s_ReducedThrough (rd_state r)}"
    using assms by (simp add: reducer_inv_def stream_ok_def)
  with assms(4) show ?thesis by (metis atLeastAtMost_iff domI domIff not_None_eq)
qed

text \<open>What was delivered on a stream is still recorded while the stream is followed.\<close>

lemma recorded_later:
  assumes "reachable n r" and d: "Reduce d r = (None, r1)" and r2: "r2 = reduce_all ds r1"
    and id: "s_StreamID (rd_state r2) = dl_StreamID d"
  obtains m where "rd_started r2" "rd_frames r2 = Some m" "m (dl_Sequence d) = Some (frameDigest (dl_Frame d))"
proof -
  have inv: "reducer_inv r" by (rule reachable_inv[OF assms(1)])
  obtain m where m: "s_StreamID (rd_state r1) = dl_StreamID d" "rd_started r1"
    "rd_frames r1 = Some m" "m (dl_Sequence d) = Some (frameDigest (dl_Frame d))"
    using accepted_recorded[OF inv d reachable_frames[OF assms(1)]] by auto
  have i1: "reducer_inv r1" by (rule inv_accepted[OF inv d])
  have c: "continues r1 r2" unfolding r2 using i1 m(1,2) id r2 by (intro same_stream_continues) simp_all
  then obtain m' where m': "rd_frames r2 = Some m'" "m \<subseteq>\<^sub>m m'" using m(3) by (auto simp: continues_def)
  then have "m' (dl_Sequence d) = Some (frameDigest (dl_Frame d))" using m(4) by (metis domI map_le_def)
  moreover have "rd_started r2" using follows_reduce_all[OF i1 m(2)] by (simp add: r2 follows_def)
  ultimately show thesis using that m'(1) by blast
qed

text \<open>How the next delivery of an open stream ends.\<close>

lemma in_order:
  assumes "reducer_inv r" and "rd_failed r = None" and "dl_Carrier d = CarrierSessionInfo"
    and "\<not> s_Closed (rd_state r)" and "rd_started r" and "dl_StreamID d = s_StreamID (rd_state r)"
    and "s_ReducedThrough (rd_state r) < dl_Sequence d" and "dl_Sequence d = s_ReducedThrough (rd_state r) + 1"
    and "ev_Type (dl_Event d) \<noteq> EventSnapshot"
  shows "Reduce d r = (case apply_event d r of (Some e, r') \<Rightarrow> (Some e, r') | (None, r') \<Rightarrow> (None, commit d r'))"
proof -
  have "\<not> dl_Sequence d < rd_base r"
    using assms(1,5,7) by (auto simp: reducer_inv_def stream_ok_def)
  moreover have "\<not> dl_Sequence d \<le> s_ReducedThrough (rd_state r)"
    "\<not> s_ReducedThrough (rd_state r) + 1 < dl_Sequence d"
    using assms(7,8) by auto
  ultimately show ?thesis using assms(2-6,9) by (simp add: Reduce_def Let_def)
qed

section \<open>Opening\<close>

text \<open>\<open>reduceFirst\<close> on a snapshot, in closed form.\<close>

lemma projectSnapshot_state:
  assumes "unopened q" and b: "same_bookkeeping q (projectSnapshot s q)"
  shows "rd_state (projectSnapshot s q) =
    \<lparr>s_StreamID = s_StreamID (rd_state q), s_ReducedThrough = s_ReducedThrough (rd_state q),
      s_SuppressedRetransmissions = s_SuppressedRetransmissions (rd_state q),
      s_Foreground = Some (sn_Foreground s),
      s_Turns = (if fg_TurnID (sn_Foreground s) = [] then []
        else [(blank_turn (fg_TurnID (sn_Foreground s)) (fg_Origin (sn_Foreground s)))
                \<lparr>tr_CycleID := fg_CycleID (sn_Foreground s)\<rparr>]),
      s_Activities = map ActivityRecord_of (sn_Activities s), s_Actions = map ActionRecord_of (sn_Actions s),
      s_Closed = s_Closed (rd_state q)\<rparr>"
proof (rule State.equality)
  show "s_Turns (rd_state (projectSnapshot s q)) = s_Turns \<lparr>s_StreamID = s_StreamID (rd_state q),
      s_ReducedThrough = s_ReducedThrough (rd_state q),
      s_SuppressedRetransmissions = s_SuppressedRetransmissions (rd_state q),
      s_Foreground = Some (sn_Foreground s),
      s_Turns = (if fg_TurnID (sn_Foreground s) = [] then []
        else [(blank_turn (fg_TurnID (sn_Foreground s)) (fg_Origin (sn_Foreground s)))
                \<lparr>tr_CycleID := fg_CycleID (sn_Foreground s)\<rparr>]),
      s_Activities = map ActivityRecord_of (sn_Activities s), s_Actions = map ActionRecord_of (sn_Actions s),
      s_Closed = s_Closed (rd_state q)\<rparr>"
    using assms(1) by (simp add: projectSnapshot_def Let_def unopened_def)
qed (use b projectSnapshot_lists[OF assms(1)] in \<open>simp_all add: same_bookkeeping_def\<close>)

lemma reduceFirst_snapshot:
  assumes "ev_Type (dl_Event d) = EventSnapshot" and "ev_Snapshot (dl_Event d) = Some s"
    and "unopened q" and "\<not> s_Closed (rd_state q)" and "s_SuppressedRetransmissions (rd_state q) = 0"
  shows "(fst (reduceFirst d q) = None \<longleftrightarrow> snapshot_ok (rd_negotiated q) s) \<and>
    (snapshot_ok (rd_negotiated q) s \<longrightarrow> rd_state (snd (reduceFirst d q)) =
     \<lparr>s_StreamID = dl_StreamID d, s_ReducedThrough = dl_Sequence d, s_SuppressedRetransmissions = 0,
      s_Foreground = Some (sn_Foreground s),
      s_Turns = (if fg_TurnID (sn_Foreground s) = [] then []
        else [(blank_turn (fg_TurnID (sn_Foreground s)) (fg_Origin (sn_Foreground s)))
                \<lparr>tr_CycleID := fg_CycleID (sn_Foreground s)\<rparr>]),
      s_Activities = map ActivityRecord_of (sn_Activities s), s_Actions = map ActionRecord_of (sn_Actions s),
      s_Closed = False\<rparr>)"
proof -
  let ?p = "(rd_state_update (s_StreamID_update (\<lambda>_. dl_StreamID d)) q)\<lparr>rd_started := True, rd_base := dl_Sequence d\<rparr>"
  have u: "unopened ?p" using assms(3) by (simp add: unopened_def)
  have b: "same_bookkeeping ?p (projectSnapshot s ?p)" by simp
  show ?thesis
  proof (cases "checkSnapshot d s ?p")
    case (Pair e t)
    show ?thesis
    proof (cases e)
      case None
      with Pair have "checkSnapshot d s ?p = (None, t)" by simp
      then have ok: "t = ?p" "snapshot_ok (rd_negotiated q) s" by (simp_all add: checkSnapshot_passes)
      with None Pair have "reduceFirst d q = (None, commit d (projectSnapshot s ?p))"
        using assms(1,2) by (simp add: reduceFirst_def applySnapshot_def)
      with ok projectSnapshot_state[OF u b] assms(4,5) show ?thesis by (simp add: commit_def Let_def)
    next
      case (Some v)
      then have "\<not> snapshot_ok (rd_negotiated q) s"
        using Pair checkSnapshot_passes[of d s ?p ?p] by auto
      with Some Pair show ?thesis using assms(1,2) by (simp add: reduceFirst_def applySnapshot_def)
    qed
  qed
qed

lemma reachable_unopened: "reachable n r \<Longrightarrow> \<not> rd_started r \<Longrightarrow> s_SuppressedRetransmissions (rd_state r) = 0"
proof (induction rule: reachable.induct)
  case reachable_new
  then show ?case by (simp add: NewReducer_def reset_def empty_state_def)
next
  case (reachable_reduce r d)
  have ns: "\<not> rd_started r"
    using follows_reduce[OF reachable_inv[OF reachable_reduce.hyps]] reachable_reduce.prems
    by (auto simp: follows_def)
  obtain e r' where h: "Reduce d r = (e, r')" by (cases "Reduce d r")
  show ?case
  proof (cases e)
    case None
    with h have "Reduce d r = (None, r')" by simp
    then show ?thesis
      by (cases rule: Reduce_accepted) (use ns h opened_stream(6)[of d r r'] reachable_reduce.prems in auto)
  next
    case (Some v)
    with h have "Reduce d r = (Some v, r')" by simp
    then show ?thesis
    proof (cases rule: Reduce_refused)
      case first
      with reduceFirst_refused(4)[OF first(3,2)] reachable_reduce.IH ns h show ?thesis by simp
    qed (use reachable_reduce.IH ns h in simp_all)
  qed
next
  case (reachable_close r)
  then show ?case by (simp add: Close_def)
qed

section \<open>What one event introduces and ends\<close>

lemma event_introduces:
  assumes "apply_event d r = (None, q)" and "i \<in> tr_TurnID ` set (turns q)" and "i \<notin> tr_TurnID ` set (turns r)"
  shows "(\<exists>p. ev_Type (dl_Event d) = EventPromptAccepted \<and> ev_PromptAccepted (dl_Event d) = Some p \<and>
      i = pa_TurnID p \<and> i \<notin> rd_turnSeen r) \<or>
    (\<exists>t. ev_Type (dl_Event d) = EventStateUpdate \<and> ev_State (dl_Event d) = Some t \<and> i = st_TurnID t \<and>
      st_Cause t = CauseActivity \<and> st_State t = ForegroundRunning)"
proof -
  from assms(1) consider
      "ev_Type (dl_Event d) = EventPromptAccepted" "applyPromptAccepted d r = (None, q)"
    | "ev_Type (dl_Event d) = EventStateUpdate" "applyStateUpdate d r = (None, q)"
    | "applyActivityUpdate d r = (None, q)" | "applyActionUpdate d r = (None, q)"
    by (auto simp: apply_event_def Let_def split: if_splits)
  then show ?thesis
  proof cases
    case 1
    from 1(2) show ?thesis
      by (cases rule: promptAccepted_result) (use assms(2,3) 1(1) in \<open>auto simp: blank_turn_def\<close>)
  next
    case 2
    show ?thesis
    proof (rule transition_shape[OF 2(2)])
      fix t s
      assume t: "ev_State (dl_Event d) = Some t" and c: "checkBlockedCycle d t r = (None, s)"
        and step: "(if st_State t = ForegroundIdle then applyIdle d t s else applyLive d t s) = (None, q)"
      have i: "i \<notin> tr_TurnID ` set (turns s)" using assms(3) checkBlockedCycle_same(3)[OF c] by simp
      show ?thesis
      proof (cases "st_State t = ForegroundIdle")
        case True
        with step have "applyIdle d t s = (None, q)" by simp
        then have False
        proof (cases rule: applyIdle_result)
          case (ending k)
          have "map tr_TurnID ((turns s)[k := endTurn t (turns s ! k)]) = map tr_TurnID (turns s)"
            using turnIndex_Some[OF ending(2)] by (intro map_update_same) (simp_all add: endTurn_def)
          with ending i assms(2) show False by (simp flip: set_map)
        qed (use i assms(2) in simp)
        then show ?thesis ..
      next
        case False
        with step have live: "applyLive d t s = (None, q)" by simp
        show ?thesis
        proof (cases "turnIndex s (st_TurnID t)")
          case (Some k)
          with live have "q = setForeground (foreground_of (st_State t) (st_CycleID t) (st_TurnID t))
              (updateTurn k (tr_CycleID_update (\<lambda>_. st_CycleID t)) s)"
            by (auto simp: applyLive_def split: if_splits)
          moreover have "map tr_TurnID ((turns s)[k := (turns s ! k)\<lparr>tr_CycleID := st_CycleID t\<rparr>]) =
              map tr_TurnID (turns s)"
            using turnIndex_Some[OF Some] by (intro map_update_same) simp_all
          ultimately show ?thesis using i assms(2) by (simp flip: set_map)
        next
          case None
          with live i assms(2) t 2(1) show ?thesis
            by (auto simp: applyLive_def blank_turn_def split: if_splits)
        qed
      qed
    qed
  next
    case 3
    then show ?thesis by (cases rule: activityUpdate_result) (use assms(2,3) in auto)
  next
    case 4
    then show ?thesis by (cases rule: actionUpdate_result) (use assms(2,3) in auto)
  qed
qed

lemma terminal_turn_refused:
  assumes "distinct (map tr_TurnID (turns r))" and x: "x \<in> set (turns r)" "tr_Terminal x"
    and d: "ev_Type (dl_Event d) = EventStateUpdate" "ev_State (dl_Event d) = Some t"
    and t: "st_TurnID t = tr_TurnID x" "namelessTurnDefect t = []" "endingIdleDefect t = []" "tr_TurnID x \<noteq> []"
  shows "\<exists>e r'. apply_event d r = (Some e, r') \<and>
    ve_Kind e \<in> {ViolationPostTerminalMutation, ViolationInconsistentForeground}"
proof -
  have ev: "apply_event d r = and_then (checkBlockedCycle d t r) (\<lambda>r.
      if st_State t = ForegroundIdle then applyIdle d t r else applyLive d t r)"
    using d t by (simp add: apply_event_def applyStateUpdate_def EventStateUpdate_def EventPromptAccepted_def)
  show ?thesis
  proof (cases rule: checkBlockedCycle_cases[of d t r])
    case (refused k z)
    moreover have "k = ViolationInconsistentForeground"
      using refused by (auto simp: checkBlockedCycle_def fail_def violation_def Let_def split: if_splits)
    ultimately show ?thesis by (simp add: ev fail_def Let_def violation_def)
  next
    case (passed c)
    let ?s = "r\<lparr>rd_blockedCycle := c\<rparr>"
    obtain i where i: "turnIndex ?s (st_TurnID t) = Some i" "turns ?s ! i = x"
      using indexOf_distinct[OF assms(1) x(1)] t(1) by (auto simp: turnIndex_def)
    have "(if st_State t = ForegroundIdle then applyIdle d t ?s else applyLive d t ?s) =
        fail d ViolationPostTerminalMutation (''turn '' @ st_TurnID t @ '' is terminal'') ?s"
      using i x(2) t by (simp add: applyIdle_def applyLive_def)
    then show ?thesis by (simp add: ev passed fail_def Let_def violation_def)
  qed
qed

text \<open>An event that finishes an activity is the update of it, past the descendants' check.\<close>

lemma event_finishes:
  assumes wf: "wf_projection r" and ev: "apply_event d r = (None, q)"
    and a: "a \<in> set (activities r)" "\<not> ActivityState_Terminal (ar_State a)"
    and b: "b \<in> set (activities q)" "ar_ActivityID b = ar_ActivityID a" "ActivityState_Terminal (ar_State b)"
  shows "(\<forall>c \<in> set (activities q). ar_ParentID c = ar_ActivityID a \<and> c \<noteq> b \<longrightarrow> ActivityState_Terminal (ar_State c)) \<and>
    (\<forall>x \<in> set (actions q). cr_Owner x = \<lparr>ow_Type = OwnerActivity, ow_ID = ar_ActivityID a\<rparr> \<longrightarrow>
       ActionState_Terminal (cr_State x))"
proof -
  have ids: "distinct (map ar_ActivityID (activities r))" "distinct (map ar_ActivityID (activities q))"
    using wf event.preserves[OF wf ev] by (simp_all add: wf_projection_def projection_ok_def activities_ok_def)
  have same: "activities q \<noteq> activities r"
    using distinct_map_eqD[OF ids(1) a(1), of b] a(2) b by auto
  from ev consider "applyPromptAccepted d r = (None, q)" | "applyStateUpdate d r = (None, q)"
    | "applyActivityUpdate d r = (None, q)" | "applyActionUpdate d r = (None, q)"
    by (auto simp: apply_event_def Let_def split: if_splits)
  then show ?thesis
  proof cases
    case 1
    then show ?thesis by (cases rule: promptAccepted_result) (use same in simp)
  next
    case 2
    then show ?thesis using same transition_activities by blast
  next
    case 4
    then show ?thesis by (cases rule: actionUpdate_result) (use same in simp_all)
  next
    case 3
    then show ?thesis
    proof (cases rule: activityUpdate_result)
      case restated
      with same show ?thesis by simp
    next
      case (first u)
      have "au_ActivityID u \<notin> ar_ActivityID ` set (activities r)" using first(2) by (simp add: activityIndex_None)
      then have "b \<in> set (activities r)" using b a(1) first(6) by (auto simp: ActivityRecord_of_def)
      with distinct_map_eqD[OF ids(1) a(1), of b] a(2) b show ?thesis by simp
    next
      case (patched u i)
      note i = activityIndex_Some[OF patched(2)]
      let ?p = "patched u (activities r ! i)"
      have p: "ar_ActivityID ?p = ar_ActivityID (activities r ! i)" "ar_State ?p = au_State u"
        by (simp_all add: patched_def Let_def)
      have "b = ?p"
      proof (rule ccontr)
        assume "b \<noteq> ?p"
        then have "b \<in> set (activities r)" using b(1) patched(6) by (auto dest: list_update_set_cases)
        with distinct_map_eqD[OF ids(1) a(1), of b] a(2) b show False by simp
      qed
      with p b(2,3) have d': "checkDescendantsTerminal d (ar_ActivityID a) r = (None, r)"
        using patched(5) by simp
      have "ActivityState_Terminal (ar_State c)" if "c \<in> set (activities q)" "c \<noteq> b" "ar_ParentID c = ar_ActivityID a" for c
        using that d' patched(6) \<open>b = ?p\<close>
        by (auto simp: checkDescendantsTerminal_passes dest: list_update_set_cases)
      then show ?thesis using d' patched(6) by (auto simp: checkDescendantsTerminal_passes)
    qed
  qed
qed

end
