(* ===== verification/Runs.thy ===== *)
theory Runs
  imports Streams
begin

text \<open>
  A short session, step by step: the inputs at which the properties of the reducer are
  applied.  The stream opens idle, a prompt is accepted and runs, a task starts and finishes,
  a blocking permission request stops the cycle and is answered, the turn ends, and a second
  stream replaces the first.
\<close>

definition run_negotiated :: Negotiated where
  "run_negotiated = \<lparr>ng_Version = 1, ng_UpdatesOutsidePrompt = True, ng_ActivityKinds = [ActivityTask]\<rparr>"

definition deliver :: "string \<Rightarrow> u64 \<Rightarrow> Event \<Rightarrow> Delivery" where
  "deliver stream sequence e =
     \<lparr>dl_StreamID = stream, dl_Sequence = sequence, dl_Carrier = CarrierSessionInfo, dl_Event = e,
      dl_Frame = VString stream\<rparr>"

definition snapshotting :: Event where
  "snapshotting = no_event\<lparr>ev_Type := EventSnapshot, ev_Snapshot := Some
     \<lparr>sn_Foreground = foreground_of ForegroundIdle ''c0'' [], sn_Activities = [], sn_Actions = []\<rparr>\<rparr>"

definition accepting :: Event where
  "accepting = no_event\<lparr>ev_Type := EventPromptAccepted, ev_PromptAccepted := Some
     \<lparr>pa_SubmissionID = ''p1'', pa_ClientNonce = [], pa_TurnID = ''t1'', pa_RunID = []\<rparr>\<rparr>"

definition moving :: "ForegroundState \<Rightarrow> Event" where
  "moving st = no_event\<lparr>ev_Type := EventStateUpdate, ev_State := Some
     \<lparr>st_State = st, st_CycleID = ''c1'', st_TurnID = ''t1'', st_Cause = CauseSubmission,
      st_StopReason = (if st = ForegroundIdle then ''end_turn'' else []),
      st_Outcome = (if st = ForegroundIdle then OutcomeSuccess else [])\<rparr>\<rparr>"

definition tasking :: "ActivityState \<Rightarrow> Event" where
  "tasking st = no_event\<lparr>ev_Type := EventActivityUpdate, ev_Activity := Some
     \<lparr>au_ActivityID = ''a1'', au_Kind = ActivityTask, au_State = st, au_ParentID = [], au_ToolCallID = [],
      au_Cause = CauseSubmission, au_OriginTurnID = ''t1'', au_RunID = [], au_Progress = None\<rparr>\<rparr>"

definition asking :: "ActionState \<Rightarrow> Event" where
  "asking st = no_event\<lparr>ev_Type := EventActionUpdate, ev_Action := Some
     \<lparr>cu_ActionID = ''x1'', cu_Kind = ActionPermission, cu_State = st,
      cu_Owner = \<lparr>ow_Type = OwnerTurn, ow_ID = ''t1''\<rparr>, cu_RunID = [], cu_BlocksForeground = Some True\<rparr>\<rparr>"

text \<open>The reducer between two steps.\<close>

definition stage :: "u64 \<Rightarrow> (u64 \<rightharpoonup> string) \<Rightarrow> Foreground \<Rightarrow> TurnRecord list \<Rightarrow> ActivityRecord list \<Rightarrow>
    ActionRecord list \<Rightarrow> string \<Rightarrow> (string \<rightharpoonup> string) \<Rightarrow> Reducer" where
  "stage k m f ts as xs owed cycles =
     \<lparr>rd_negotiated = run_negotiated,
      rd_state = \<lparr>s_StreamID = ''s1'', s_ReducedThrough = k, s_SuppressedRetransmissions = 0,
        s_Foreground = Some f, s_Turns = ts, s_Activities = as, s_Actions = xs, s_Closed = False\<rparr>,
      rd_base = 1, rd_started = True, rd_failed = None, rd_frames = Some m,
      rd_turnSeen = tr_TurnID ` set ts, rd_activitySeen = ar_ActivityID ` set as, rd_blockedCycle = owed,
      rd_actionCycle = cycles, rd_retired = {}\<rparr>"

definition t1 :: TurnRecord where
  "t1 = (blank_turn ''t1'' CauseSubmission)\<lparr>tr_SubmissionID := ''p1''\<rparr>"

definition a1 :: "ActivityState \<Rightarrow> ActivityRecord" where
  "a1 st = ActivityRecord_of (the (ev_Activity (tasking st)))"

definition x1 :: "ActionState \<Rightarrow> ActionRecord" where
  "x1 st = ActionRecord_of (the (ev_Action (asking st)))"

definition digest1 :: string where
  "digest1 = frameDigest (VString ''s1'')"

lemmas run_events = deliver_def snapshotting_def accepting_def moving_def tasking_def asking_def no_event_def
  foreground_of_def run_negotiated_def

lemmas reducer_steps = Reduce_def Let_def NewReducer_def reset_def blank_reducer_def empty_state_def
  reduceFirst_def applySnapshot_def checkSnapshot_def foregroundDefect_def introduces_def carriesBlocker_def
  projectSnapshot_def setForeground_def openTurn_def commit_def apply_event_def applyPromptAccepted_def
  turnIndex_def turnKnown_def applyStateUpdate_def namelessTurnDefect_def endingIdleDefect_def
  checkBlockedCycle_def blocked_def applyLive_def updateTurn_def applyIdle_def endTurn_def blank_turn_def
  applyActivityUpdate_def activityIndex_def checkActivityIdentity_def checkActivityReferences_def
  checkActivityParent_def recordActivity_def ActivityRecord_of_def patchActivity_def updateActivity_def patched_def
  checkDescendantsTerminal_def terminalActivityDifference_def immutableActivityConflict_def activityKnown_def
  applyActionUpdate_def actionIndex_def checkActionIdentity_def checkActionOwner_def recordAction_def
  ActionRecord_of_def blockForeground_def blocksForeground_def patchAction_def updateAction_def
  immutableActionConflict_def declaresActivityKind_def ActivityState_Terminal_def ActionState_Terminal_def
  ForegroundState_Valid_def word_le_nat_alt word_less_nat_alt


text \<open>The reducer after each step: opened, prompt accepted, running, task started, question
  asked; and from running, the turn ended.\<close>

definition m1 :: "u64 \<rightharpoonup> string" where "m1 = [1 \<mapsto> digest1]"

definition running_t1 :: TurnRecord where "running_t1 = t1\<lparr>tr_CycleID := ''c1''\<rparr>"

definition ended_t1 :: TurnRecord where
  "ended_t1 = running_t1\<lparr>tr_Terminal := True, tr_StopReason := ''end_turn'', tr_Outcome := OutcomeSuccess\<rparr>"

definition fg1 :: Foreground where "fg1 = foreground_of ForegroundRunning ''c1'' ''t1''"

definition opened :: Reducer where
  "opened = stage 1 m1 (foreground_of ForegroundIdle ''c0'' []) [] [] [] [] Map.empty"

definition prompted :: Reducer where
  "prompted = stage 2 (m1(2 \<mapsto> digest1)) (foreground_of ForegroundIdle ''c0'' []) [t1] [] [] [] Map.empty"

definition running :: Reducer where
  "running = stage 3 (m1(2 \<mapsto> digest1, 3 \<mapsto> digest1)) fg1 [running_t1] [] [] [] Map.empty"

definition tasked :: Reducer where
  "tasked = stage 4 (m1(2 \<mapsto> digest1, 3 \<mapsto> digest1, 4 \<mapsto> digest1)) fg1 [running_t1] [a1 ActivityRunning] [] [] Map.empty"

definition asked :: Reducer where
  "asked = stage 5 (m1(2 \<mapsto> digest1, 3 \<mapsto> digest1, 4 \<mapsto> digest1, 5 \<mapsto> digest1)) fg1 [running_t1]
     [a1 ActivityRunning] [x1 ActionPending] ''c1'' [''x1'' \<mapsto> ''c1'']"

definition ended :: Reducer where
  "ended = stage 4 (m1(2 \<mapsto> digest1, 3 \<mapsto> digest1, 4 \<mapsto> digest1)) (foreground_of ForegroundIdle ''c1'' [])
     [ended_t1] [] [] [] Map.empty"

definition finished :: Reducer where
  "finished = stage 5 (m1(2 \<mapsto> digest1, 3 \<mapsto> digest1, 4 \<mapsto> digest1, 5 \<mapsto> digest1)) fg1 [running_t1]
     [a1 ActivityCompleted] [] [] Map.empty"

lemmas run_stages = opened_def prompted_def running_def tasked_def asked_def ended_def finished_def m1_def t1_def
  running_t1_def ended_t1_def fg1_def a1_def x1_def stage_def digest1_def

lemma step_opened: "Reduce (deliver ''s1'' 1 snapshotting) (NewReducer run_negotiated) = (None, opened)"
  by (simp add: run_stages run_events reducer_steps vocab)

lemma step_prompted: "Reduce (deliver ''s1'' 2 accepting) opened = (None, prompted)"
  by (simp add: run_stages run_events reducer_steps vocab)

lemma step_running: "Reduce (deliver ''s1'' 3 (moving ForegroundRunning)) prompted = (None, running)"
  by (simp add: run_stages run_events reducer_steps vocab)

lemma step_tasked: "Reduce (deliver ''s1'' 4 (tasking ActivityRunning)) running = (None, tasked)"
  by (simp add: run_stages run_events reducer_steps vocab)

lemma step_asked: "Reduce (deliver ''s1'' 5 (asking ActionPending)) tasked = (None, asked)"
  by (simp add: run_stages run_events reducer_steps vocab)

lemma step_ended: "Reduce (deliver ''s1'' 4 (moving ForegroundIdle)) running = (None, ended)"
  by (simp add: run_stages run_events reducer_steps vocab)

lemma step_finished: "Reduce (deliver ''s1'' 5 (tasking ActivityCompleted)) tasked = (None, finished)"
  by (simp add: run_stages run_events reducer_steps vocab)

lemma reachable_step: "reachable n r \<Longrightarrow> Reduce d r = (e, r') \<Longrightarrow> reachable n r'"
  by (metis reachable_reduce snd_conv)

lemma reachable_opened: "reachable run_negotiated opened"
  by (rule reachable_step[OF reachable_new step_opened])

lemma reachable_prompted: "reachable run_negotiated prompted"
  by (rule reachable_step[OF reachable_opened step_prompted])

lemma reachable_running: "reachable run_negotiated running"
  by (rule reachable_step[OF reachable_prompted step_running])

lemma reachable_tasked: "reachable run_negotiated tasked"
  by (rule reachable_step[OF reachable_running step_tasked])

lemma reachable_asked: "reachable run_negotiated asked"
  by (rule reachable_step[OF reachable_tasked step_asked])

lemma reachable_ended: "reachable run_negotiated ended"
  by (rule reachable_step[OF reachable_running step_ended])

lemma reachable_finished: "reachable run_negotiated finished"
  by (rule reachable_step[OF reachable_tasked step_finished])

text \<open>What the stages answer to the questions the properties ask.\<close>

lemma stage_fields [simp]:
  "rd_started (stage k m f ts as xs owed cycles)" "rd_failed (stage k m f ts as xs owed cycles) = None"
  "rd_state (stage k m f ts as xs owed cycles) = \<lparr>s_StreamID = ''s1'', s_ReducedThrough = k,
     s_SuppressedRetransmissions = 0, s_Foreground = Some f, s_Turns = ts, s_Activities = as, s_Actions = xs,
     s_Closed = False\<rparr>"
  "rd_base (stage k m f ts as xs owed cycles) = 1" "rd_retired (stage k m f ts as xs owed cycles) = {}"
  "rd_blockedCycle (stage k m f ts as xs owed cycles) = owed"
  "rd_frames (stage k m f ts as xs owed cycles) = Some m"
  by (simp_all add: stage_def)

lemmas stages = opened_def prompted_def running_def tasked_def asked_def ended_def finished_def

lemma stages_open [simp]:
  "rd_started prompted" "rd_started running" "rd_started tasked" "rd_started asked" "rd_started ended"
  "rd_started opened" "rd_started finished"
  "rd_failed prompted = None" "rd_failed running = None" "rd_failed tasked = None" "rd_failed asked = None"
  "rd_failed ended = None" "rd_failed opened = None" "rd_failed finished = None"
  by (simp_all add: stages)

lemma stages_stream [simp]:
  "s_StreamID (rd_state prompted) = ''s1''" "s_StreamID (rd_state running) = ''s1''"
  "s_StreamID (rd_state tasked) = ''s1''" "s_StreamID (rd_state asked) = ''s1''"
  "s_StreamID (rd_state ended) = ''s1''" "s_StreamID (rd_state opened) = ''s1''"
  "s_StreamID (rd_state finished) = ''s1''"
  "s_ReducedThrough (rd_state opened) = 1" "s_ReducedThrough (rd_state prompted) = 2"
  "s_ReducedThrough (rd_state running) = 3" "s_ReducedThrough (rd_state tasked) = 4"
  "s_ReducedThrough (rd_state asked) = 5" "s_ReducedThrough (rd_state ended) = 4"
  "s_ReducedThrough (rd_state finished) = 5"
  by (simp_all add: stages)

lemma deliver_fields [simp]:
  "dl_StreamID (deliver i k e) = i" "dl_Sequence (deliver i k e) = k" "dl_Event (deliver i k e) = e"
  "dl_Carrier (deliver i k e) = CarrierSessionInfo" "dl_Frame (deliver i k e) = VString i"
  by (simp_all add: deliver_def)

end
