(* ===== verification/ReducerProps.thy ===== *)
theory ReducerProps
  imports Runs
begin

text \<open>
  What the reducer promises the consumers of a projection, over whole deliveries and runs of
  them, each followed by its instance on the session of \<open>Runs\<close>.
\<close>

text \<open>C1: whatever deliveries reach it, an opened reducer reports a well-formed projection:
  turns, activities and actions have distinct identities; a terminal turn records its outcome
  and a stop reason exactly when it did not fail; every activity has a complete identity of a
  negotiated kind, an introduced origin turn and a known parent, and no live activity has a
  terminal parent; every action's owner was introduced; a live foreground names a recorded
  turn that has not ended, on that turn's cycle; and the retained frames are exactly those of
  the delivered window, of a stream that was not retired.\<close>

theorem reachable_projection:
  assumes "reachable n r" and "rd_started r"
  shows "turns_ok r \<and> activities_ok r \<and> actions_ok r \<and> foreground_ok r \<and> stream_ok r"
  using reachable_inv[OF assms(1)] assms(2) by (simp add: reducer_inv_def projection_ok_def)

theorem reachable_projection_witness: "families_ok (activities asked) \<and> foreground_ok asked"
  using reachable_projection[OF reachable_asked] by (simp add: stages activities_ok_def)

text \<open>C3: a refusal is latched and proves nothing: the projection stands exactly as it was,
  except that a reducer no stream has opened takes the name of the stream the refused delivery
  named and stays unopened, and every later delivery is answered with the same violation and
  changes nothing.\<close>

theorem refusal_latches:
  assumes "Reduce d r = (Some e, r')"
  shows "(rd_state r' = rd_state r \<or>
      \<not> rd_started r \<and> rd_state r' = (rd_state r)\<lparr>s_StreamID := dl_StreamID d\<rparr>) \<and>
    rd_started r' = rd_started r \<and> reduce_all ds r' = r' \<and> Reduce d' r' = (Some e, r')"
proof -
  have "(rd_state r' = rd_state r \<or> \<not> rd_started r \<and> rd_state r' = (rd_state r)\<lparr>s_StreamID := dl_StreamID d\<rparr>) \<and>
      rd_started r' = rd_started r"
    using assms
  proof (cases rule: Reduce_refused)
    case first
    then show ?thesis using reduceFirst_refused(1,4)[OF first(3,2)] by simp
  qed auto
  with refused_latches[OF assms] show ?thesis
    by (simp add: latched_reduce latched_reduce_all)
qed

theorem refusal_latches_witness:
  "let r' = snd (Reduce (deliver ''s1'' 7 accepting) asked)
   in rd_state r' = rd_state asked \<and> fst (Reduce (deliver ''s1'' 6 accepting) r') \<noteq> None"
proof -
  obtain e r' where h: "Reduce (deliver ''s1'' 7 accepting) asked = (Some e, r')"
    by (auto simp: Reduce_def Let_def stages word_le_nat_alt word_less_nat_alt fail_def)
  have "rd_started asked" by simp
  with refusal_latches[OF h, of _ "deliver ''s1'' 6 accepting"] show ?thesis by (simp add: h)
qed

text \<open>C2: while a reducer follows one stream its records only evolve: over any deliveries
  after which it still reports the stream, every turn, activity and action it had recorded is
  still there, with its identity, and one that was terminal is unchanged.\<close>

theorem stream_records_evolve:
  assumes "reachable n r" and "rd_started r"
    and "s_StreamID (rd_state (reduce_all ds r)) = s_StreamID (rd_state r)"
  shows "evolves (rd_state r) (rd_state (reduce_all ds r)) \<and>
    (\<forall>t \<in> set (turns r). tr_Terminal t \<longrightarrow> t \<in> set (turns (reduce_all ds r))) \<and>
    (\<forall>a \<in> set (activities r). ActivityState_Terminal (ar_State a) \<longrightarrow> a \<in> set (activities (reduce_all ds r))) \<and>
    (\<forall>c \<in> set (actions r). ActionState_Terminal (cr_State c) \<longrightarrow> c \<in> set (actions (reduce_all ds r)))"
proof -
  have e: "evolves (rd_state r) (rd_state (reduce_all ds r))"
    using same_stream_continues[OF reachable_inv[OF assms(1)] assms(2,3)] by (simp add: continues_def)
  then have "t \<in> set (turns (reduce_all ds r))" if "t \<in> set (turns r)" "tr_Terminal t" for t
    using grows_terminal[of turn_step] that by (auto simp: evolves_def turn_step_def)
  moreover have "a \<in> set (activities (reduce_all ds r))"
    if "a \<in> set (activities r)" "ActivityState_Terminal (ar_State a)" for a
    using e grows_terminal[of activity_step] that by (auto simp: evolves_def activity_step_def)
  moreover have "c \<in> set (actions (reduce_all ds r))"
    if "c \<in> set (actions r)" "ActionState_Terminal (cr_State c)" for c
    using e grows_terminal[of action_step] that by (auto simp: evolves_def action_step_def)
  ultimately show ?thesis using e by simp
qed

theorem stream_records_evolve_witness:
  "evolves (rd_state prompted) (rd_state (reduce_all [deliver ''s1'' 3 (moving ForegroundRunning),
     deliver ''s1'' 4 (moving ForegroundIdle)] prompted))"
  using stream_records_evolve[OF reachable_prompted, of "[deliver ''s1'' 3 (moving ForegroundRunning),
     deliver ''s1'' 4 (moving ForegroundIdle)]"]
  by (simp add: step_running step_ended)

text \<open>C4: an opened stream is reduced exactly once, in order.  A delivery of it that is
  accepted either lies in the delivered window, and then changes nothing but the count of
  suppressed retransmissions, or carries the next sequence (which does not wrap around), and
  then extends the window by one.\<close>

theorem exactly_once:
  assumes "reachable n r" and "rd_started r" and "dl_StreamID d = s_StreamID (rd_state r)"
    and "Reduce d r = (None, r')"
  shows "(rd_base r \<le> dl_Sequence d \<and> dl_Sequence d \<le> s_ReducedThrough (rd_state r) \<and>
      r' = rd_state_update (s_SuppressedRetransmissions_update (\<lambda>k. k + 1)) r) \<or>
    (unat (dl_Sequence d) = unat (s_ReducedThrough (rd_state r)) + 1 \<and>
      s_ReducedThrough (rd_state r') = dl_Sequence d \<and>
      s_SuppressedRetransmissions (rd_state r') = s_SuppressedRetransmissions (rd_state r) \<and>
      ev_Type (dl_Event d) \<noteq> EventSnapshot)"
  using assms(4)
proof (cases rule: Reduce_accepted)
  case (advances q)
  have "same_bookkeeping r q" by (rule event.accepted_bookkeeping[OF advances(9)])
  moreover have "dl_Sequence d = s_ReducedThrough (rd_state r) + 1" and "s_ReducedThrough (rd_state r) < dl_Sequence d"
    using next_sequence(1)[OF advances(6,7)] advances(6) by simp_all
  then have "unat (dl_Sequence d) = unat (s_ReducedThrough (rd_state r)) + 1"
    by (metis Suc_eq_plus1 add.commute unatSuc word_not_simps(1))
  ultimately show ?thesis using advances(8) by (simp add: advances(10) same_bookkeeping_def)
qed (use assms(2,3) in auto)

theorem exactly_once_witness: "s_ReducedThrough (rd_state running) = 3"
  using exactly_once[OF reachable_prompted _ _ step_running] by (simp add: stages word_le_nat_alt)

text \<open>C5: retransmission is idempotent: once a delivery was accepted, delivering it again at
  any later point of the same stream, while nothing was refused and the session is open, is
  accepted and only counted.\<close>

theorem retransmission_suppressed:
  assumes "reachable n r" and d: "Reduce d r = (None, r1)" and r2: "r2 = reduce_all ds r1"
    and "rd_failed r2 = None" and "\<not> s_Closed (rd_state r2)" and "s_StreamID (rd_state r2) = dl_StreamID d"
  shows "Reduce d r2 = (None, rd_state_update (s_SuppressedRetransmissions_update (\<lambda>k. k + 1)) r2)"
proof -
  have carrier: "dl_Carrier d = CarrierSessionInfo"
    using d by (cases rule: Reduce_accepted) simp_all
  obtain m where m: "rd_started r2" "rd_frames r2 = Some m"
    "m (dl_Sequence d) = Some (frameDigest (dl_Frame d))"
    using recorded_later[OF assms(1) d r2 assms(6)] by blast
  have "reducer_inv r2"
    using reachable_inv reachable_reduce_all[OF reachable_step[OF assms(1) d]] unfolding r2 by blast
  from recorded_window[OF this m(1,2), of "dl_Sequence d"] m(3)
  have "rd_base r2 \<le> dl_Sequence d" "dl_Sequence d \<le> s_ReducedThrough (rd_state r2)" by auto
  then show ?thesis
    using within_window[of r2 d] assms(4-6) carrier m by (simp add: reduceDuplicate_def)
qed

theorem retransmission_suppressed_witness:
  "fst (Reduce (deliver ''s1'' 2 accepting) asked) = None"
  using retransmission_suppressed[OF reachable_opened step_prompted,
      of asked "[deliver ''s1'' 3 (moving ForegroundRunning), deliver ''s1'' 4 (tasking ActivityRunning),
        deliver ''s1'' 5 (asking ActionPending)]"]
  by (simp add: step_running step_tasked step_asked) (simp add: stages)

text \<open>a delivery under an identity that was already delivered is judged by lifecycle value
  equality of the two frames alone: equal content is a retransmission and is counted,
  different content is a conflicting duplicate (provided SHA-256 does not collide on the two
  canonical forms).\<close>

theorem redelivery_judged_by_value:
  assumes "reachable n r" and d: "Reduce d r = (None, r1)" and r2: "r2 = reduce_all ds r1"
    and "rd_failed r2 = None" and "\<not> s_Closed (rd_state r2)" and "s_StreamID (rd_state r2) = dl_StreamID d"
    and d': "dl_StreamID d' = dl_StreamID d" "dl_Sequence d' = dl_Sequence d" "dl_Carrier d' = CarrierSessionInfo"
    and ok: "value_ok (dl_Frame d)" "value_ok (dl_Frame d')"
    and collision: "sha256 (writeCanonical (dl_Frame d)) = sha256 (writeCanonical (dl_Frame d')) \<Longrightarrow>
      writeCanonical (dl_Frame d) = writeCanonical (dl_Frame d')"
  shows "fst (Reduce d' r2) =
    (if valueEqual (dl_Frame d) (dl_Frame d') then None
     else Some (violation ViolationConflictingDuplicate (dl_StreamID d) (dl_Sequence d)
       ''the identity already delivered different content''))"
proof -
  obtain m where m: "rd_started r2" "rd_frames r2 = Some m"
    "m (dl_Sequence d) = Some (frameDigest (dl_Frame d))"
    using recorded_later[OF assms(1) d r2 assms(6)] by blast
  have "reducer_inv r2"
    using reachable_inv reachable_reduce_all[OF reachable_step[OF assms(1) d]] unfolding r2 by blast
  from recorded_window[OF this m(1,2), of "dl_Sequence d"] m(3)
  have "Reduce d' r2 = reduceDuplicate d' r2"
    using assms(4-6) d' m(1) by (intro within_window) auto
  moreover have "frameDigest (dl_Frame d) = frameDigest (dl_Frame d') \<longleftrightarrow> valueEqual (dl_Frame d) (dl_Frame d')"
    using canonical_iff[OF ok] collision by (auto simp: frameDigest_def)
  ultimately show ?thesis using m d' by (simp add: reduceDuplicate_def fail_def Let_def)
qed

theorem redelivery_judged_by_value_witness:
  "fst (Reduce ((deliver ''s1'' 2 accepting)\<lparr>dl_Frame := VNumber ''15e-1''\<rparr>)
    (snd (Reduce ((deliver ''s1'' 2 accepting)\<lparr>dl_Frame := VNumber ''1.50''\<rparr>) opened))) = None"
proof -
  let ?d = "(deliver ''s1'' 2 accepting)\<lparr>dl_Frame := VNumber ''1.50''\<rparr>"
  let ?d' = "(deliver ''s1'' 2 accepting)\<lparr>dl_Frame := VNumber ''15e-1''\<rparr>"
  obtain r1 where h: "Reduce ?d opened = (None, r1)" "rd_failed r1 = None" "\<not> s_Closed (rd_state r1)"
    "s_StreamID (rd_state r1) = ''s1''"
    by (simp add: run_stages run_events reducer_steps vocab)
  have eq: "normalizedNumber ''1.50'' = normalizedNumber ''15e-1''" by code_simp
  show ?thesis
    using redelivery_judged_by_value[OF reachable_opened h(1), of r1 "[]" ?d'] h eq by simp
qed

text \<open>A foreground report is consistent with what blocks its cycle.  A transition that
  advances the stream reports \<open>requires_action\<close> only on a cycle an unresolved action
  blocks, and reports anything else only on a cycle nothing blocks and that owes no such
  report.\<close>

theorem reports_respect_blockers:
  assumes "rd_started r" and "dl_StreamID d = s_StreamID (rd_state r)"
    and "s_ReducedThrough (rd_state r) < dl_Sequence d" and "Reduce d r = (None, r')"
    and "ev_Type (dl_Event d) = EventStateUpdate" and "ev_State (dl_Event d) = Some t"
  shows "if st_State t = ForegroundRequiresAction then blocked r (st_CycleID t)
    else \<not> blocked r (st_CycleID t) \<and> rd_blockedCycle r \<noteq> st_CycleID t"
  using assms(4)
proof (cases rule: Reduce_accepted)
  case (advances q)
  then have "applyStateUpdate d r = (None, q)" using assms(5) by (simp add: apply_event_def vocab)
  then show ?thesis
    by (cases rule: transition_shape) (use assms(6) in \<open>auto simp: checkBlockedCycle_passes split: if_splits\<close>)
qed (use assms(1-3) in auto)

theorem reports_respect_blockers_witness: "\<not> blocked prompted ''c1''"
  using reports_respect_blockers[OF _ _ _ step_running]
  by (simp add: word_less_nat_alt moving_def no_event_def vocab)

text \<open>C6: a blocked cycle is owed its report.  In every reachable reducer that has refused
  nothing, if an unresolved action blocks the cycle of a foreground not yet reported as
  requiring action, then the next in-order transition of that cycle is accepted only if it
  reports \<open>requires_action\<close>; any other is refused as inconsistent.\<close>

theorem blocked_foreground_owes:
  assumes "reachable n r" and "rd_started r" and "rd_failed r = None" and "\<not> s_Closed (rd_state r)"
    and "foreground r = Some f" and "blocked r (fg_CycleID f)"
    and d: "dl_StreamID d = s_StreamID (rd_state r)" "dl_Carrier d = CarrierSessionInfo"
      "dl_Sequence d = s_ReducedThrough (rd_state r) + 1" "s_ReducedThrough (rd_state r) < dl_Sequence d"
      "ev_Type (dl_Event d) = EventStateUpdate" "ev_State (dl_Event d) = Some t"
    and t: "namelessTurnDefect t = []" "endingIdleDefect t = []" "st_CycleID t = fg_CycleID f"
      "st_State t \<noteq> ForegroundRequiresAction"
  shows "(fg_State f \<noteq> ForegroundRequiresAction \<longrightarrow> rd_blockedCycle r = fg_CycleID f) \<and>
    Reduce d r = fail d ViolationInconsistentForeground
      (''cycle '' @ fg_CycleID f @ '' is blocked and reported '' @ st_State t) r"
proof -
  have "owed_ok r" using reachable_inv[OF assms(1)] assms(2,3) by (simp add: reducer_inv_def)
  then have "fg_State f \<noteq> ForegroundRequiresAction \<longrightarrow> rd_blockedCycle r = fg_CycleID f"
    using assms(5,6) by (simp add: owed_ok_def)
  moreover have "apply_event d r = fail d ViolationInconsistentForeground
      (''cycle '' @ fg_CycleID f @ '' is blocked and reported '' @ st_State t) r"
    using t assms(6) d(5)
    by (simp add: apply_event_def EventStateUpdate_def EventPromptAccepted_def applyStateUpdate_def d(6)
        checkBlockedCycle_def fail_def Let_def)
  moreover have "ev_Type (dl_Event d) \<noteq> EventSnapshot" using d(5) by (simp add: vocab)
  ultimately show ?thesis
    using in_order[OF reachable_inv[OF assms(1)] assms(3) d(2) assms(4,2) d(1,4,3)] by (simp add: fail_def Let_def)
qed

theorem blocked_foreground_owes_witness:
  "fst (Reduce (deliver ''s1'' 6 (moving ForegroundIdle)) asked) \<noteq> None"
  using blocked_foreground_owes[OF reachable_asked, of fg1 "deliver ''s1'' 6 (moving ForegroundIdle)"
      "the (ev_State (moving ForegroundIdle))"]
  by (simp add: run_stages run_events reducer_steps vocab)

text \<open>C7: a superseded stream never returns.  Once the reducer reports another stream than
  the one it had opened, no later delivery of the old stream is ever accepted, whatever was
  delivered in between.\<close>

theorem superseded_never_returns:
  assumes "reachable n r" and "rd_started r" and later: "r' = reduce_all cs r"
    and left: "s_StreamID (rd_state r') \<noteq> s_StreamID (rd_state r)"
    and "dl_StreamID d = s_StreamID (rd_state r)"
  shows "fst (Reduce d (reduce_all ds r')) \<noteq> None"
proof
  let ?q = "reduce_all ds r'"
  have "follows r r'" "reducer_inv r'"
    using follows_reduce_all[OF reachable_inv[OF assms(1)] assms(2)] by (simp_all add: later)
  then have s: "reducer_inv r'" "rd_started r'" "s_StreamID (rd_state r) \<in> rd_retired r'"
    using left by (auto simp: follows_def continues_def left_stream_def)
  with follows_reduce_all[OF s(1,2)] have q: "reducer_inv ?q" "rd_started ?q" "s_StreamID (rd_state r) \<in> rd_retired ?q"
    by (auto simp: follows_def)
  then have live: "s_StreamID (rd_state ?q) \<noteq> s_StreamID (rd_state r)"
    by (auto simp: reducer_inv_def stream_ok_def)
  assume "fst (Reduce d ?q) = None"
  then obtain t where "Reduce d ?q = (None, t)" by (metis prod.collapse)
  then show False by (cases rule: Reduce_accepted) (use q live assms(5) in auto)
qed

theorem superseded_never_returns_witness:
  "fst (Reduce (deliver ''s1'' 1 snapshotting) (reduce_all [deliver ''s2'' 2 accepting]
    (reduce_all [deliver ''s2'' 1 snapshotting] running))) \<noteq> None"
proof -
  have "s_StreamID (rd_state (snd (Reduce (deliver ''s2'' 1 snapshotting) running))) = ''s2''"
    by (simp add: run_stages run_events reducer_steps reduceForeign_def vocab)
  then show ?thesis
    by (intro superseded_never_returns[OF reachable_running _ refl]) simp_all
qed

text \<open>a close is final: whatever is delivered to a closed reducer is refused and leaves
  its projection as the close left it.\<close>

theorem closed_is_final:
  "rd_state (reduce_all ds (Close r)) = (rd_state r)\<lparr>s_Closed := True\<rparr> \<and>
   fst (Reduce d (reduce_all ds (Close r))) \<noteq> None"
proof -
  have closed: "fst (Reduce d q) \<noteq> None \<and> rd_state (snd (Reduce d q)) = rd_state q" if "s_Closed (rd_state q)" for d q
    using that by (simp add: Reduce_def Let_def fail_def)
  have "rd_state (reduce_all ds q) = rd_state q" if "s_Closed (rd_state q)" for q
    using that by (induction ds arbitrary: q) (simp_all add: closed)
  moreover have "s_Closed (rd_state (Close r))" by (simp add: Close_def)
  ultimately show ?thesis using closed by (simp add: Close_def)
qed

definition snapshot_state :: "Delivery \<Rightarrow> Snapshot \<Rightarrow> State" where
  "snapshot_state d s =
     \<lparr>s_StreamID = dl_StreamID d, s_ReducedThrough = dl_Sequence d, s_SuppressedRetransmissions = 0,
      s_Foreground = Some (sn_Foreground s),
      s_Turns = (if fg_TurnID (sn_Foreground s) = [] then []
        else [(blank_turn (fg_TurnID (sn_Foreground s)) (fg_Origin (sn_Foreground s)))
                \<lparr>tr_CycleID := fg_CycleID (sn_Foreground s)\<rparr>]),
      s_Activities = map ActivityRecord_of (sn_Activities s), s_Actions = map ActionRecord_of (sn_Actions s),
      s_Closed = False\<rparr>"

text \<open>C8: What a snapshot opens.  Delivered first, or on a stream the reducer neither
  reports nor retired, a snapshot is accepted exactly when it is well formed (a coherent
  foreground, distinct complete live members of negotiated kinds, whose parents and owners the
  snapshot introduces, a blocking action listed for a \<open>requires_action\<close> foreground), and
  then the projection is that snapshot and nothing of what was reported before.\<close>

theorem snapshot_opens_stream:
  assumes "reachable n r" and "rd_failed r = None" and "\<not> s_Closed (rd_state r)"
    and "\<not> rd_started r \<or> dl_StreamID d \<noteq> s_StreamID (rd_state r) \<and> dl_StreamID d \<notin> rd_retired r"
    and "dl_Carrier d = CarrierSessionInfo" and "ev_Type (dl_Event d) = EventSnapshot"
    and "ev_Snapshot (dl_Event d) = Some s"
  shows "(fst (Reduce d r) = None \<longleftrightarrow> snapshot_ok (rd_negotiated r) s) \<and>
    (snapshot_ok (rd_negotiated r) s \<longrightarrow> rd_state (snd (Reduce d r)) = snapshot_state d s)"
proof -
  let ?b = "reset (dl_StreamID d) (blank_reducer (rd_negotiated r) (rd_retired r))"
  have b: "unopened ?b" "rd_negotiated ?b = rd_negotiated r" "\<not> s_Closed (rd_state ?b)"
    "s_SuppressedRetransmissions (rd_state ?b) = 0"
    by (simp_all add: reset_def blank_reducer_def unopened_def empty_state_def)
  have first: "(fst (reduceFirst d q) = None \<longleftrightarrow> snapshot_ok (rd_negotiated q) s) \<and>
      (snapshot_ok (rd_negotiated q) s \<longrightarrow> rd_state (snd (reduceFirst d q)) = snapshot_state d s)"
    if "unopened q" "\<not> s_Closed (rd_state q)" "s_SuppressedRetransmissions (rd_state q) = 0" for q
    by (rule reduceFirst_snapshot[OF assms(6,7) that, folded snapshot_state_def])
  have inv: "reducer_inv r" by (rule reachable_inv[OF assms(1)])
  show ?thesis
  proof (cases "rd_started r")
    case False
    with inv assms(1) have "unopened r" "s_SuppressedRetransmissions (rd_state r) = 0"
      using reachable_unopened by (auto simp: reducer_inv_def)
    from first[OF this(1) assms(3) this(2)] show ?thesis
      using assms(2,3,5) False by (simp add: Reduce_def Let_def)
  next
    case True
    then have "Reduce d r = reduceForeign d r" using assms by (simp add: Reduce_def Let_def)
    then show ?thesis
      using first[OF b(1,3,4)] b(2) assms(3,4,6) True
      by (cases "reduceFirst d ?b") (auto simp: reduceForeign_def snapshot_state_def split: option.splits)
  qed
qed

theorem snapshot_opens_stream_witness:
  "fst (Reduce (deliver ''s2'' 1 snapshotting) running) = None"
proof -
  have "fst (Reduce (deliver ''s2'' 1 snapshotting) running) = None \<longleftrightarrow>
      snapshot_ok (rd_negotiated running) (the (ev_Snapshot snapshotting))"
    using snapshot_opens_stream[OF reachable_running, of "deliver ''s2'' 1 snapshotting"
        "the (ev_Snapshot snapshotting)"]
    by (simp add: stages) (simp add: snapshotting_def no_event_def vocab)
  then show ?thesis by (simp add: snapshot_ok_def snapshotting_def no_event_def foreground_of_def
    foregroundDefect_def ForegroundState_Valid_def vocab)
qed

text \<open>exactly two deltas introduce a turn.  A turn recorded by an accepted delivery of
  the open stream that was not recorded before is the one a prompt acceptance names, under an
  identity the stream had never used, or the one an activity-caused running transition names.\<close>

theorem turns_are_introduced:
  assumes "rd_started r" and "dl_StreamID d = s_StreamID (rd_state r)" and "Reduce d r = (None, r')"
    and "i \<in> tr_TurnID ` set (turns r')" and "i \<notin> tr_TurnID ` set (turns r)"
  shows "(\<exists>p. ev_Type (dl_Event d) = EventPromptAccepted \<and> ev_PromptAccepted (dl_Event d) = Some p \<and>
      i = pa_TurnID p \<and> \<not> turnKnown r i) \<or>
    (\<exists>t. ev_Type (dl_Event d) = EventStateUpdate \<and> ev_State (dl_Event d) = Some t \<and> i = st_TurnID t \<and>
      st_Cause t = CauseActivity \<and> st_State t = ForegroundRunning)"
  using assms(3)
proof (cases rule: Reduce_accepted)
  case (advances q)
  have i: "i \<in> tr_TurnID ` set (turns q)" using assms(4) by (simp add: advances(10))
  from event_introduces[OF advances(9) i assms(5)] show ?thesis by (simp add: turnKnown_def)
qed (use assms in auto)

theorem turns_are_introduced_witness: "\<not> turnKnown opened ''t1''"
  using turns_are_introduced[OF _ _ step_prompted, of "''t1''"]
  by (simp add: stages t1_def blank_turn_def) (auto simp: accepting_def no_event_def vocab)



text \<open>What it is for an update to differ in nothing from a terminal record: every member it carries
  is the record's, numbers within a progress compared by value.\<close>

definition carried :: "string \<Rightarrow> string \<Rightarrow> bool" where
  "carried v recorded \<longleftrightarrow> v = [] \<or> v = recorded"

definition restates_activity :: "ActivityUpdate \<Rightarrow> ActivityRecord \<Rightarrow> bool" where
  "restates_activity u a \<longleftrightarrow>
     au_State u = ar_State a \<and> carried (au_Kind u) (ar_Kind a) \<and> carried (au_ParentID u) (ar_ParentID a) \<and>
     carried (au_ToolCallID u) (ar_ToolCallID a) \<and> carried (au_Cause u) (ar_Cause a) \<and>
     carried (au_OriginTurnID u) (ar_OriginTurnID a) \<and> carried (au_RunID u) (ar_RunID a) \<and>
     (au_Progress u = None \<or> rawEqual (au_Progress u) (ar_Progress a))"

definition restates_action :: "ActionUpdate \<Rightarrow> ActionRecord \<Rightarrow> bool" where
  "restates_action u c \<longleftrightarrow>
     cu_State u = cr_State c \<and> carried (cu_Kind u) (cr_Kind c) \<and> (ow_ID (cu_Owner u) = [] \<or> cu_Owner u = cr_Owner c) \<and>
     carried (cu_RunID u) (cr_RunID c) \<and> (cu_BlocksForeground u = None \<or> cu_BlocksForeground u = Some (cr_BlocksForeground c))"

definition judged_post_terminal :: "bool \<Rightarrow> Delivery \<Rightarrow> Reducer \<Rightarrow> bool" where
  "judged_post_terminal restated d r \<longleftrightarrow>
     (if restated then Reduce d r = (None, commit d r)
      else \<exists>e r'. Reduce d r = (Some e, r') \<and> ve_Kind e = ViolationPostTerminalMutation \<and> rd_state r' = rd_state r)"

lemma activity_difference: "terminalActivityDifference a u = [] \<longleftrightarrow> restates_activity u a"
  by (auto simp: terminalActivityDifference_def immutableActivityConflict_def restates_activity_def carried_def)

lemma action_difference: "terminalActionDifference c u = [] \<longleftrightarrow> restates_action u c"
  by (auto simp: terminalActionDifference_def immutableActionConflict_def restates_action_def carried_def)

lemma judged_difference:
  assumes "Reduce d r = (case apply_event d r of (Some e, r') \<Rightarrow> (Some e, r') | (None, r') \<Rightarrow> (None, commit d r'))"
    and "apply_event d r = (if differs = [] then (None, r) else fail d ViolationPostTerminalMutation differs r)"
  shows "judged_post_terminal (differs = []) d r"
  using assms by (simp add: judged_post_terminal_def fail_def Let_def violation_def)

lemma finished_activity_restatement:
  assumes "reachable n r" and "rd_started r" and "rd_failed r = None" and "\<not> s_Closed (rd_state r)"
    and d: "dl_StreamID d = s_StreamID (rd_state r)" "dl_Carrier d = CarrierSessionInfo"
      "s_ReducedThrough (rd_state r) < dl_Sequence d" "dl_Sequence d = s_ReducedThrough (rd_state r) + 1"
    and u: "ev_Type (dl_Event d) = EventActivityUpdate" "ev_Activity (dl_Event d) = Some u"
    and a: "a \<in> set (activities r)" "ActivityState_Terminal (ar_State a)" "au_ActivityID u = ar_ActivityID a"
  shows "judged_post_terminal (restates_activity u a) d r"
proof -
  have "distinct (map ar_ActivityID (activities r))"
    using reachable_inv[OF assms(1)] assms(2) by (simp add: reducer_inv_def projection_ok_def activities_ok_def)
  from indexOf_distinct[OF this a(1)] obtain i where i: "activityIndex r (au_ActivityID u) = Some i" "activities r ! i = a"
    by (auto simp: activityIndex_def a(3))
  have "apply_event d r = (if terminalActivityDifference a u = [] then (None, r)
      else fail d ViolationPostTerminalMutation (terminalActivityDifference a u) r)"
    using a(2) i u by (simp add: apply_event_def applyActivityUpdate_def patchActivity_def vocab)
  then show ?thesis unfolding activity_difference[symmetric]
    using u(1) by (intro judged_difference in_order[OF reachable_inv[OF assms(1)] assms(3) d(2) assms(4,2) d(1,3,4)])
      (simp_all add: vocab)
qed

lemma finished_action_restatement:
  assumes "reachable n r" and "rd_started r" and "rd_failed r = None" and "\<not> s_Closed (rd_state r)"
    and d: "dl_StreamID d = s_StreamID (rd_state r)" "dl_Carrier d = CarrierSessionInfo"
      "s_ReducedThrough (rd_state r) < dl_Sequence d" "dl_Sequence d = s_ReducedThrough (rd_state r) + 1"
    and u: "ev_Type (dl_Event d) = EventActionUpdate" "ev_Action (dl_Event d) = Some u"
    and c: "c \<in> set (actions r)" "ActionState_Terminal (cr_State c)" "cu_ActionID u = cr_ActionID c"
  shows "judged_post_terminal (restates_action u c) d r"
proof -
  have "distinct (map cr_ActionID (actions r))"
    using reachable_inv[OF assms(1)] assms(2) by (simp add: reducer_inv_def projection_ok_def actions_ok_def)
  from indexOf_distinct[OF this c(1)] obtain i where i: "actionIndex r (cu_ActionID u) = Some i" "actions r ! i = c"
    by (auto simp: actionIndex_def c(3))
  have "apply_event d r = (if terminalActionDifference c u = [] then (None, r)
      else fail d ViolationPostTerminalMutation (terminalActionDifference c u) r)"
    using c(2) i u by (simp add: apply_event_def applyActionUpdate_def patchAction_def Let_def vocab)
  then show ?thesis unfolding action_difference[symmetric]
    using u(1) by (intro judged_difference in_order[OF reachable_inv[OF assms(1)] assms(3) d(2) assms(4,2) d(1,3,4)])
      (simp_all add: vocab)
qed

text \<open>C9: a finished activity or action may only be restated.  On an open stream that has refused nothing, the next
  update naming a terminal activity or action is accepted exactly when every member it carries is the record's,
  and then it only consumes its sequence; any difference is refused as a post-terminal mutation, also one in an
  immutable member, and leaves the projection as it stood.  (Turns are judged otherwise:
  \<open>ended_turn_refuses_transitions\<close>.)\<close>

theorem terminal_entities_only_restated:
  assumes "reachable n r" and "rd_started r" and "rd_failed r = None" and "\<not> s_Closed (rd_state r)"
    and "dl_StreamID d = s_StreamID (rd_state r)" "dl_Carrier d = CarrierSessionInfo"
      "s_ReducedThrough (rd_state r) < dl_Sequence d" "dl_Sequence d = s_ReducedThrough (rd_state r) + 1"
  shows "(\<forall>u. \<forall>a \<in> set (activities r). ev_Type (dl_Event d) = EventActivityUpdate \<and> ev_Activity (dl_Event d) = Some u \<and>
      ActivityState_Terminal (ar_State a) \<and> au_ActivityID u = ar_ActivityID a \<longrightarrow> judged_post_terminal (restates_activity u a) d r) \<and>
    (\<forall>u. \<forall>c \<in> set (actions r). ev_Type (dl_Event d) = EventActionUpdate \<and> ev_Action (dl_Event d) = Some u \<and>
      ActionState_Terminal (cr_State c) \<and> cu_ActionID u = cr_ActionID c \<longrightarrow> judged_post_terminal (restates_action u c) d r)"
  using finished_activity_restatement[OF assms] finished_action_restatement[OF assms] by blast

theorem terminal_entities_only_restated_witness:
  "Reduce (deliver ''s1'' 6 (tasking ActivityCompleted)) finished =
     (None, commit (deliver ''s1'' 6 (tasking ActivityCompleted)) finished) \<and>
   (\<exists>e r'. Reduce (deliver ''s1'' 6 (tasking ActivityFailed)) finished = (Some e, r') \<and> ve_Kind e = ViolationPostTerminalMutation)"
proof -
  let ?d = "\<lambda>s. deliver ''s1'' 6 (tasking s)"
  have judged: "judged_post_terminal (restates_activity (the (ev_Activity (tasking s))) (a1 ActivityCompleted)) (?d s) finished" for s
    using terminal_entities_only_restated[OF reachable_finished, of "?d s"]
    by (simp add: stages a1_def ActivityRecord_of_def tasking_def no_event_def word_less_nat_alt ActivityState_Terminal_def vocab)
  have "restates_activity (the (ev_Activity (tasking s))) (a1 ActivityCompleted) \<longleftrightarrow> s = ActivityCompleted" for s
    by (auto simp: restates_activity_def a1_def ActivityRecord_of_def tasking_def no_event_def carried_def)
  with judged[of ActivityCompleted] judged[of ActivityFailed] show ?thesis
    by (auto simp: judged_post_terminal_def vocab)
qed

text \<open>C10: a parent finishes last.  An accepted delivery of the open stream that leaves an
  activity terminal which had not been so finds every activity whose parent it is terminal
  and every action it owns resolved.\<close>

theorem parent_finishes_last:
  assumes "reachable n r" and "rd_started r" and "dl_StreamID d = s_StreamID (rd_state r)"
    and "Reduce d r = (None, r')"
    and a: "a \<in> set (activities r)" "\<not> ActivityState_Terminal (ar_State a)"
    and b: "b \<in> set (activities r')" "ar_ActivityID b = ar_ActivityID a" "ActivityState_Terminal (ar_State b)"
  shows "(\<forall>c \<in> set (activities r'). ar_ParentID c = ar_ActivityID a \<and> c \<noteq> b \<longrightarrow> ActivityState_Terminal (ar_State c)) \<and>
    (\<forall>x \<in> set (actions r'). cr_Owner x = \<lparr>ow_Type = OwnerActivity, ow_ID = ar_ActivityID a\<rparr> \<longrightarrow>
       ActionState_Terminal (cr_State x))"
  using assms(4)
proof (cases rule: Reduce_accepted)
  case (suppresses m)
  have "distinct (map ar_ActivityID (activities r))"
    using reachable_inv[OF assms(1)] assms(2) by (simp add: reducer_inv_def projection_ok_def activities_ok_def)
  from distinct_map_eqD[OF this a(1), of b] b a(2) suppresses(10) show ?thesis by simp
next
  case (advances q)
  have wf: "wf_projection r"
    using reachable_inv[OF assms(1)] assms(2) advances(1) by (simp add: reducer_inv_def wf_projection_def)
  from event_finishes[OF wf advances(9) a, of b] b show ?thesis by (simp add: advances(10))
qed (use assms(2,3) in auto)

theorem parent_finishes_last_witness:
  "\<not> (\<exists>c \<in> set (activities finished). ar_ParentID c = ''a1'' \<and> c \<noteq> a1 ActivityCompleted \<and>
     \<not> ActivityState_Terminal (ar_State c))"
  using parent_finishes_last[OF reachable_tasked _ _ step_finished, of "a1 ActivityRunning" "a1 ActivityCompleted"]
  by (auto simp: stages a1_def ActivityRecord_of_def tasking_def no_event_def ActivityState_Terminal_def vocab)

end
