(* ===== verification/Decode.thy ===== *)
theory Decode
  imports Reducer
begin

text \<open>
  lifecycle/decode.go: the strict decoder of one session update.  The decoder is a state
  (negotiated tuple, the ordering identity read so far, the first refusal), so its methods are
  computations in the state monad, in the order Go evaluates them: a refusal is recorded once
  and reading goes on, exactly as the source does.  A raw message is an optional document; an
  object is the list of its members.
\<close>

section \<open>Reading members\<close>

definition metaField :: string where [vocab]: "metaField = ''_meta''"
definition updateField :: string where [vocab]: "updateField = ''update''"
definition sessionUpdateField :: string where [vocab]: "sessionUpdateField = ''sessionUpdate''"

definition jsonObject :: "json option \<Rightarrow> members option" where
  "jsonObject raw = (case raw of Some (JObj n ms) \<Rightarrow> Some ms | _ \<Rightarrow> None)"

definition jsonString :: "json option \<Rightarrow> string option" where
  "jsonString raw = (case raw of None \<Rightarrow> None | Some j \<Rightarrow> unmarshal_string j)"

record decoder =
  dc_negotiated :: Negotiated
  dc_streamID :: string
  dc_sequence :: u64
  dc_err :: "ViolationError option"

type_synonym 'a decode = "(decoder, 'a) state"

definition decoder_fail :: "ViolationKind \<Rightarrow> string \<Rightarrow> unit decode" where
  "decoder_fail kind detail = State_Monad.update (\<lambda>d.
     case dc_err d of
       None \<Rightarrow> d\<lparr>dc_err := Some (violation kind (dc_streamID d) (dc_sequence d) detail)\<rparr>
     | Some e \<Rightarrow> d)"

text \<open>A check that refuses when its condition holds.\<close>

definition refuse_if :: "bool \<Rightarrow> ViolationKind \<Rightarrow> string \<Rightarrow> unit decode" where
  "refuse_if c kind detail = (if c then decoder_fail kind detail else State_Monad.return ())"

definition decoder_version :: "members \<Rightarrow> unit decode" where
  "decoder_version obj =
     (case lookup obj fieldVersion of
        None \<Rightarrow> decoder_fail ViolationMalformedEnvelope ''version is missing''
      | Some raw \<Rightarrow>
          (case unmarshal_int raw of
             None \<Rightarrow> decoder_fail ViolationMalformedEnvelope ''version is not an integer''
           | Some version \<Rightarrow> do {
               d \<leftarrow> State_Monad.get;
               refuse_if (\<not> SupportsVersion (dc_negotiated d) version) ViolationUnsupportedVersion
                 (''version '' @ show_int version @ '' is outside the negotiated set'')
             }))"

definition decoder_positive :: "members \<Rightarrow> u64 decode" where
  "decoder_positive obj =
     (case lookup obj fieldSequence of
        None \<Rightarrow> do {
          decoder_fail ViolationMalformedEnvelope ''sequence is missing'';
          State_Monad.return 0
        }
      | Some raw \<Rightarrow>
          if unmarshal_uint64 raw = None \<or> unmarshal_uint64 raw = Some 0 then do {
            decoder_fail ViolationMalformedEnvelope ''sequence is not a positive integer'';
            State_Monad.return 0
          }
          else State_Monad.return (the (unmarshal_uint64 raw)))"

definition decoder_identifier :: "members \<Rightarrow> string \<Rightarrow> bool \<Rightarrow> string decode" where
  "decoder_identifier obj key required =
     (case lookup obj key of
        None \<Rightarrow> do {
          refuse_if required ViolationMalformedEnvelope (key @ '' is missing'');
          State_Monad.return []
        }
      | Some raw \<Rightarrow>
          (case unmarshal_string raw of
             None \<Rightarrow> do {
               decoder_fail ViolationMalformedEnvelope (key @ '' is not a string'');
               State_Monad.return []
             }
           | Some s \<Rightarrow> do {
               refuse_if (s = []) ViolationMalformedEnvelope (key @ '' is empty'');
               refuse_if (length s > IdentifierBound) ViolationMalformedEnvelope (key @ '' exceeds its bound'');
               State_Monad.return s
             }))"

definition decoder_boolean :: "members \<Rightarrow> string \<Rightarrow> bool option decode" where
  "decoder_boolean obj key =
     (case lookup obj key of
        None \<Rightarrow> State_Monad.return None
      | Some raw \<Rightarrow>
          (case unmarshal_bool raw of
             None \<Rightarrow> do {
               decoder_fail ViolationMalformedEnvelope (key @ '' is not a boolean'');
               State_Monad.return None
             }
           | Some b \<Rightarrow> State_Monad.return (Some b)))"

definition decoder_array :: "members \<Rightarrow> string \<Rightarrow> json list decode" where
  "decoder_array obj key =
     (case lookup obj key of
        None \<Rightarrow> do {
          decoder_fail ViolationMalformedEnvelope (key @ '' is missing'');
          State_Monad.return []
        }
      | Some raw \<Rightarrow>
          (case unmarshal_array raw of
             None \<Rightarrow> do {
               decoder_fail ViolationMalformedEnvelope (key @ '' is not an array'');
               State_Monad.return []
             }
           | Some xs \<Rightarrow> State_Monad.return xs))"

text \<open>Go iterates the members of a map in an unspecified order, so which unknown member the
  detail names is unspecified when there are several; the model names the first.\<close>

definition decoder_known :: "members \<Rightarrow> string \<Rightarrow> string list \<Rightarrow> unit decode" where
  "decoder_known obj object allowed =
     (case find (\<lambda>key. key \<notin> set allowed) (map fst obj) of
        None \<Rightarrow> State_Monad.return ()
      | Some key \<Rightarrow> decoder_fail ViolationUnknownField (object @ '' carries unknown member '' @ key))"

section \<open>Events\<close>

definition blank_foreground :: Foreground where
  "blank_foreground = \<lparr>fg_State = [], fg_CycleID = [], fg_TurnID = [], fg_Origin = []\<rparr>"

definition blank_activity :: ActivityUpdate where
  "blank_activity = \<lparr>au_ActivityID = [], au_Kind = [], au_State = [], au_ParentID = [], au_ToolCallID = [],
     au_Cause = [], au_OriginTurnID = [], au_RunID = [], au_Progress = None\<rparr>"

definition blank_owner :: Owner where
  "blank_owner = \<lparr>ow_Type = [], ow_ID = []\<rparr>"

definition blank_action :: ActionUpdate where
  "blank_action = \<lparr>cu_ActionID = [], cu_Kind = [], cu_State = [], cu_Owner = blank_owner, cu_RunID = [],
     cu_BlocksForeground = None\<rparr>"

definition decoder_foreground :: "json option \<Rightarrow> Foreground decode" where
  "decoder_foreground raw =
     (case jsonObject raw of
        None \<Rightarrow> do {
          decoder_fail ViolationMalformedEnvelope ''foreground is missing'';
          State_Monad.return blank_foreground
        }
      | Some obj \<Rightarrow> do {
          decoder_known obj fieldForeground [fieldState, fieldCycleID, fieldTurnID, fieldOrigin];
          state \<leftarrow> decoder_identifier obj fieldState True;
          cycleID \<leftarrow> decoder_identifier obj fieldCycleID True;
          turnID \<leftarrow> decoder_identifier obj fieldTurnID False;
          origin \<leftarrow> decoder_identifier obj fieldOrigin False;
          let f = \<lparr>fg_State = state, fg_CycleID = cycleID, fg_TurnID = turnID, fg_Origin = origin\<rparr>;
          refuse_if (foregroundDefect f \<noteq> []) ViolationMalformedEnvelope (foregroundDefect f);
          State_Monad.return f
        })"

definition decoder_progress :: "members \<Rightarrow> json option decode" where
  "decoder_progress obj =
     (case lookup obj fieldProgress of
        None \<Rightarrow> State_Monad.return None
      | Some (JObj n ms) \<Rightarrow>
          if fst n > IdentifierBound then do {
            decoder_fail ViolationMalformedEnvelope ''activity progress exceeds its bound'';
            State_Monad.return None
          }
          else State_Monad.return (Some (JObj n ms))
      | Some raw \<Rightarrow> do {
          decoder_fail ViolationMalformedEnvelope ''activity progress is not an object'';
          State_Monad.return None
        })"

definition activityDefect :: "ActivityUpdate \<Rightarrow> string" where
  "activityDefect a =
     (if au_Kind a \<noteq> [] \<and> \<not> ActivityKind_Valid (au_Kind a) then ''activity kind '' @ au_Kind a
      else if \<not> ActivityState_Valid (au_State a) then ''activity state '' @ au_State a
      else if au_Cause a \<noteq> [] \<and> \<not> Cause_Valid (au_Cause a) then ''activity cause '' @ au_Cause a
      else [])"

definition decoder_activity :: "json \<Rightarrow> ActivityUpdate decode" where
  "decoder_activity raw =
     (case jsonObject (Some raw) of
        None \<Rightarrow> do {
          decoder_fail ViolationMalformedEnvelope ''activity is not an object'';
          State_Monad.return blank_activity
        }
      | Some obj \<Rightarrow> do {
          decoder_known obj fieldActivity [fieldActivityID, fieldKind, fieldState, fieldParentID,
            fieldToolCallID, fieldCause, fieldOriginTurnID, fieldRunID, fieldProgress];
          activityID \<leftarrow> decoder_identifier obj fieldActivityID True;
          kind \<leftarrow> decoder_identifier obj fieldKind False;
          state \<leftarrow> decoder_identifier obj fieldState True;
          parentID \<leftarrow> decoder_identifier obj fieldParentID False;
          toolCallID \<leftarrow> decoder_identifier obj fieldToolCallID False;
          cause \<leftarrow> decoder_identifier obj fieldCause False;
          originTurnID \<leftarrow> decoder_identifier obj fieldOriginTurnID False;
          runID \<leftarrow> decoder_identifier obj fieldRunID False;
          progress \<leftarrow> decoder_progress obj;
          let a = \<lparr>au_ActivityID = activityID, au_Kind = kind, au_State = state, au_ParentID = parentID,
                   au_ToolCallID = toolCallID, au_Cause = cause, au_OriginTurnID = originTurnID,
                   au_RunID = runID, au_Progress = progress\<rparr>;
          refuse_if (activityDefect a \<noteq> []) ViolationMalformedEnvelope (activityDefect a);
          State_Monad.return a
        })"

definition decoder_owner :: "members \<Rightarrow> Owner decode" where
  "decoder_owner obj =
     (case lookup obj fieldOwner of
        None \<Rightarrow> State_Monad.return blank_owner
      | Some raw \<Rightarrow>
          (case jsonObject (Some raw) of
             None \<Rightarrow> do {
               decoder_fail ViolationMalformedEnvelope ''action owner is not an object'';
               State_Monad.return blank_owner
             }
           | Some owned \<Rightarrow> do {
               decoder_known owned fieldOwner [fieldType, fieldID];
               type \<leftarrow> decoder_identifier owned fieldType True;
               i \<leftarrow> decoder_identifier owned fieldID True;
               refuse_if (\<not> OwnerType_Valid type) ViolationMalformedEnvelope (''action owner type '' @ type);
               State_Monad.return \<lparr>ow_Type = type, ow_ID = i\<rparr>
             }))"

definition actionDefect :: "ActionUpdate \<Rightarrow> string" where
  "actionDefect a =
     (if cu_Kind a \<noteq> [] \<and> \<not> ActionKind_Valid (cu_Kind a) then ''action kind '' @ cu_Kind a
      else if \<not> ActionState_Valid (cu_State a) then ''action state '' @ cu_State a
      else [])"

definition decoder_action :: "json \<Rightarrow> ActionUpdate decode" where
  "decoder_action raw =
     (case jsonObject (Some raw) of
        None \<Rightarrow> do {
          decoder_fail ViolationMalformedEnvelope ''action is not an object'';
          State_Monad.return blank_action
        }
      | Some obj \<Rightarrow> do {
          decoder_known obj fieldAction
            [fieldActionID, fieldKind, fieldState, fieldOwner, fieldRunID, fieldBlocksForeground];
          actionID \<leftarrow> decoder_identifier obj fieldActionID True;
          kind \<leftarrow> decoder_identifier obj fieldKind False;
          state \<leftarrow> decoder_identifier obj fieldState True;
          owner \<leftarrow> decoder_owner obj;
          runID \<leftarrow> decoder_identifier obj fieldRunID False;
          blocks \<leftarrow> decoder_boolean obj fieldBlocksForeground;
          let a = \<lparr>cu_ActionID = actionID, cu_Kind = kind, cu_State = state, cu_Owner = owner, cu_RunID = runID,
                   cu_BlocksForeground = blocks\<rparr>;
          refuse_if (actionDefect a \<noteq> []) ViolationMalformedEnvelope (actionDefect a);
          State_Monad.return a
        })"

definition decoder_snapshot :: "members \<Rightarrow> Event decode" where
  "decoder_snapshot obj = do {
     decoder_known obj EventSnapshot [fieldType, fieldForeground, fieldActivities, fieldActions];
     f \<leftarrow> decoder_foreground (lookup obj fieldForeground);
     rawActivities \<leftarrow> decoder_array obj fieldActivities;
     as \<leftarrow> State_Monad.traverse_list decoder_activity rawActivities;
     rawActions \<leftarrow> decoder_array obj fieldActions;
     xs \<leftarrow> State_Monad.traverse_list decoder_action rawActions;
     State_Monad.return (no_event\<lparr>ev_Type := EventSnapshot,
       ev_Snapshot := Some \<lparr>sn_Foreground = f, sn_Activities = as, sn_Actions = xs\<rparr>\<rparr>)
   }"

definition decoder_promptAccepted :: "members \<Rightarrow> Event decode" where
  "decoder_promptAccepted obj = do {
     decoder_known obj EventPromptAccepted
       [fieldType, fieldSubmissionID, fieldClientNonce, fieldTurnID, fieldRunID];
     submissionID \<leftarrow> decoder_identifier obj fieldSubmissionID True;
     clientNonce \<leftarrow> decoder_identifier obj fieldClientNonce True;
     turnID \<leftarrow> decoder_identifier obj fieldTurnID True;
     runID \<leftarrow> decoder_identifier obj fieldRunID False;
     State_Monad.return (no_event\<lparr>ev_Type := EventPromptAccepted, ev_PromptAccepted := Some
       \<lparr>pa_SubmissionID = submissionID, pa_ClientNonce = clientNonce, pa_TurnID = turnID, pa_RunID = runID\<rparr>\<rparr>)
   }"

definition transitionDefect :: "StateTransition \<Rightarrow> string" where
  "transitionDefect t =
     (if \<not> ForegroundState_Valid (st_State t) then ''transition state '' @ st_State t
      else if \<not> Cause_Valid (st_Cause t) then ''transition cause '' @ st_Cause t
      else if namelessTurnDefect t \<noteq> [] then namelessTurnDefect t
      else if st_State t \<noteq> ForegroundIdle \<and> (st_StopReason t \<noteq> [] \<or> st_Outcome t \<noteq> []) then
        ''only an ending transition carries a stop reason and an outcome''
      else if st_StopReason t \<noteq> [] \<and> \<not> validStopReason (st_StopReason t) then ''stop reason '' @ st_StopReason t
      else if st_Outcome t \<noteq> [] \<and> \<not> Outcome_Valid (st_Outcome t) then ''outcome '' @ st_Outcome t
      else endingIdleDefect t)"

definition decoder_stateUpdate :: "members \<Rightarrow> Event decode" where
  "decoder_stateUpdate obj = do {
     decoder_known obj EventStateUpdate
       [fieldType, fieldState, fieldCycleID, fieldTurnID, fieldCause, fieldStopReason, fieldOutcome];
     state \<leftarrow> decoder_identifier obj fieldState True;
     cycleID \<leftarrow> decoder_identifier obj fieldCycleID True;
     turnID \<leftarrow> decoder_identifier obj fieldTurnID False;
     cause \<leftarrow> decoder_identifier obj fieldCause True;
     stopReason \<leftarrow> decoder_identifier obj fieldStopReason False;
     outcome \<leftarrow> decoder_identifier obj fieldOutcome False;
     let t = \<lparr>st_State = state, st_CycleID = cycleID, st_TurnID = turnID, st_Cause = cause,
              st_StopReason = stopReason, st_Outcome = outcome\<rparr>;
     refuse_if (transitionDefect t \<noteq> []) ViolationMalformedEnvelope (transitionDefect t);
     State_Monad.return (no_event\<lparr>ev_Type := EventStateUpdate, ev_State := Some t\<rparr>)
   }"

definition decoder_activityUpdate :: "members \<Rightarrow> Event decode" where
  "decoder_activityUpdate obj = do {
     decoder_known obj EventActivityUpdate [fieldType, fieldActivity];
     (case lookup obj fieldActivity of
        Some (JObj n ms) \<Rightarrow> do {
          a \<leftarrow> decoder_activity (JObj n ms);
          State_Monad.return (no_event\<lparr>ev_Type := EventActivityUpdate, ev_Activity := Some a\<rparr>)
        }
      | _ \<Rightarrow> do {
          decoder_fail ViolationMalformedEnvelope ''activity_update carries no activity'';
          State_Monad.return (no_event\<lparr>ev_Type := EventActivityUpdate, ev_Activity := Some blank_activity\<rparr>)
        })
   }"

definition decoder_actionUpdate :: "members \<Rightarrow> Event decode" where
  "decoder_actionUpdate obj = do {
     decoder_known obj EventActionUpdate [fieldType, fieldAction];
     (case lookup obj fieldAction of
        Some (JObj n ms) \<Rightarrow> do {
          a \<leftarrow> decoder_action (JObj n ms);
          State_Monad.return (no_event\<lparr>ev_Type := EventActionUpdate, ev_Action := Some a\<rparr>)
        }
      | _ \<Rightarrow> do {
          decoder_fail ViolationMalformedEnvelope ''action_update carries no action'';
          State_Monad.return (no_event\<lparr>ev_Type := EventActionUpdate, ev_Action := Some blank_action\<rparr>)
        })
   }"

definition decoder_event :: "members \<Rightarrow> Event decode" where
  "decoder_event obj =
     (case jsonString (lookup obj fieldType) of
        None \<Rightarrow> do {
          decoder_fail ViolationMalformedEnvelope ''event type is missing'';
          State_Monad.return no_event
        }
      | Some name \<Rightarrow>
          if name = EventSnapshot then decoder_snapshot obj
          else if name = EventPromptAccepted then decoder_promptAccepted obj
          else if name = EventStateUpdate then decoder_stateUpdate obj
          else if name = EventActivityUpdate then decoder_activityUpdate obj
          else if name = EventActionUpdate then decoder_actionUpdate obj
          else do {
            decoder_fail ViolationUnknownEventType (''event type '' @ name);
            State_Monad.return no_event
          })"

definition decoder_envelope :: "json \<Rightarrow> Event decode" where
  "decoder_envelope raw =
     (case jsonObject (Some raw) of
        None \<Rightarrow> do {
          decoder_fail ViolationIllegalCarrier ''the extension value is not an object'';
          State_Monad.return no_event
        }
      | Some obj \<Rightarrow> do {
          streamID \<leftarrow> decoder_identifier obj fieldStreamID True;
          State_Monad.update (dc_streamID_update (\<lambda>_. streamID));
          sequence \<leftarrow> decoder_positive obj;
          State_Monad.update (dc_sequence_update (\<lambda>_. sequence));
          decoder_version obj;
          decoder_known obj ''envelope'' [fieldVersion, fieldStreamID, fieldSequence, fieldEvent];
          (case jsonObject (lookup obj fieldEvent) of
             None \<Rightarrow> do {
               decoder_fail ViolationMalformedEnvelope ''event is missing or is not an object'';
               State_Monad.return no_event
             }
           | Some event \<Rightarrow> decoder_event event)
        })"

section \<open>One session update\<close>

definition carrierClassForSessionUpdate :: "json option \<Rightarrow> CarrierClass" where
  "carrierClassForSessionUpdate update =
     (case jsonObject update of
        None \<Rightarrow> CarrierUnknown
      | Some obj \<Rightarrow>
          (case jsonString (lookup obj sessionUpdateField) of
             None \<Rightarrow> CarrierUnknown
           | Some kind \<Rightarrow>
               if kind \<noteq> carrier_token CarrierSessionInfo then CarrierIneligible
               else if lookup obj ''title'' \<noteq> None \<or> lookup obj ''updatedAt'' \<noteq> None then CarrierIneligible
               else CarrierSessionInfo))"

text \<open>What a decode ends in when it gives no delivery: no envelope at all, or a refusal.\<close>

datatype decode_error = ErrNoEnvelope | Refused ViolationError

definition fresh_decoder :: "Negotiated \<Rightarrow> decoder" where
  "fresh_decoder n = \<lparr>dc_negotiated = n, dc_streamID = [], dc_sequence = 0, dc_err = None\<rparr>"

definition DecodeSessionUpdate :: "json option \<Rightarrow> Negotiated \<Rightarrow> decode_error + Delivery" where
  "DecodeSessionUpdate params n =
     (case jsonObject params of
        None \<Rightarrow> Inl (Refused (violation ViolationMalformedEnvelope [] 0
          (if params = None then ''the notification is not decodable JSON'' else ''the notification is not an object'')))
      | Some notification \<Rightarrow>
          (case jsonObject (lookup notification metaField) of
             None \<Rightarrow> Inl ErrNoEnvelope
           | Some meta \<Rightarrow>
               (case lookup meta MetaKey of
                  None \<Rightarrow> Inl ErrNoEnvelope
                | Some raw \<Rightarrow>
                    if \<not> Present n then
                      Inl (Refused (violation ViolationUnnegotiatedFact [] 0 ''the answer omitted the lifecycle key''))
                    else (case run_state (decoder_envelope raw) (fresh_decoder n) of (event, dec) \<Rightarrow>
                      (case dc_err dec of
                         Some e \<Rightarrow> Inl (Refused e)
                       | None \<Rightarrow>
                           if carrierClassForSessionUpdate (lookup notification updateField) \<noteq> CarrierSessionInfo then
                             Inl (Refused (violation ViolationIllegalCarrier (dc_streamID dec) (dc_sequence dec)
                               (''only the identity-only '' @ sessionUpdateField @ '' '' @
                                carrier_token CarrierSessionInfo @ '' carries an envelope'')))
                           else (case decodeValue params of
                                   None \<Rightarrow> Inl (Refused (violation ViolationMalformedEnvelope (dc_streamID dec)
                                     (dc_sequence dec) ''the notification is not decodable JSON''))
                                 | Some frame \<Rightarrow> Inr \<lparr>dl_StreamID = dc_streamID dec, dl_Sequence = dc_sequence dec,
                                     dl_Carrier = CarrierSessionInfo, dl_Event = event, dl_Frame = frame\<rparr>))))))"

section \<open>Reducing a notification\<close>

definition nameStream :: "string \<Rightarrow> Reducer \<Rightarrow> Reducer" where
  "nameStream streamID r =
     (if rd_started r then r else rd_state_update (s_StreamID_update (\<lambda>_. streamID)) r)"

definition ReduceSessionUpdate :: "json option \<Rightarrow> Reducer \<Rightarrow> decode_error option \<times> Reducer" where
  "ReduceSessionUpdate params r =
     (case rd_failed r of
        Some e \<Rightarrow> (Some (Refused e), r)
      | None \<Rightarrow>
          (case DecodeSessionUpdate params (rd_negotiated r) of
             Inl (Refused e) \<Rightarrow> (Some (Refused e), nameStream (ve_StreamID e) (r\<lparr>rd_failed := Some e\<rparr>))
           | Inl ErrNoEnvelope \<Rightarrow> (Some ErrNoEnvelope, r)
           | Inr delivery \<Rightarrow> (case Reduce delivery r of (e, r') \<Rightarrow> (map_option Refused e, r'))))"

section \<open>A refusal is recorded once\<close>

text \<open>A computation of the decoder that reads members only: it keeps the ordering identity and
  the first refusal, and a refusal it records names that identity.\<close>

definition reads_only :: "'a decode \<Rightarrow> bool" where
  "reads_only m \<longleftrightarrow> (\<forall>s. let s' = snd (run_state m s) in
     dc_negotiated s' = dc_negotiated s \<and> dc_streamID s' = dc_streamID s \<and> dc_sequence s' = dc_sequence s \<and>
     (case dc_err s of
        Some e \<Rightarrow> dc_err s' = Some e
      | None \<Rightarrow> (case dc_err s' of None \<Rightarrow> True
                 | Some e \<Rightarrow> ve_StreamID e = dc_streamID s \<and> ve_Sequence e = dc_sequence s)))"

lemma run_state_update: "run_state (State_Monad.update f) s = ((), f s)"
  by (simp add: State_Monad.update_def)

lemma reads_only_return [simp]: "reads_only (State_Monad.return x)"
  by (simp add: reads_only_def split: option.split)

lemma reads_only_fail [simp]: "reads_only (decoder_fail k t)"
  by (simp add: reads_only_def decoder_fail_def run_state_update violation_def split: option.split)

lemma reads_only_bind [simp]:
  assumes "reads_only m" and "\<And>x. reads_only (f x)"
  shows "reads_only (State_Monad.bind m f)"
  unfolding reads_only_def
proof
  fix s
  obtain x t where m: "run_state m s = (x, t)" by fastforce
  obtain y u where f: "run_state (f x) t = (y, u)" by fastforce
  have mm: "let s' = t in dc_negotiated s' = dc_negotiated s \<and> dc_streamID s' = dc_streamID s \<and>
      dc_sequence s' = dc_sequence s \<and> (case dc_err s of Some e \<Rightarrow> dc_err s' = Some e
      | None \<Rightarrow> (case dc_err s' of None \<Rightarrow> True
                 | Some e \<Rightarrow> ve_StreamID e = dc_streamID s \<and> ve_Sequence e = dc_sequence s))"
    using assms(1)[unfolded reads_only_def, rule_format, of s] by (simp add: m)
  have ff: "let s' = u in dc_negotiated s' = dc_negotiated t \<and> dc_streamID s' = dc_streamID t \<and>
      dc_sequence s' = dc_sequence t \<and> (case dc_err t of Some e \<Rightarrow> dc_err s' = Some e
      | None \<Rightarrow> (case dc_err s' of None \<Rightarrow> True
                 | Some e \<Rightarrow> ve_StreamID e = dc_streamID t \<and> ve_Sequence e = dc_sequence t))"
    using assms(2)[of x, unfolded reads_only_def, rule_format, of t] by (simp add: f)
  show "let s' = snd (run_state (State_Monad.bind m f) s) in
     dc_negotiated s' = dc_negotiated s \<and> dc_streamID s' = dc_streamID s \<and> dc_sequence s' = dc_sequence s \<and>
     (case dc_err s of Some e \<Rightarrow> dc_err s' = Some e
      | None \<Rightarrow> (case dc_err s' of None \<Rightarrow> True
                 | Some e \<Rightarrow> ve_StreamID e = dc_streamID s \<and> ve_Sequence e = dc_sequence s))"
    using mm ff by (auto simp: m f Let_def split: option.splits)
qed

lemma reads_only_get [simp]: "reads_only State_Monad.get"
  by (simp add: reads_only_def split: option.split)

lemma reads_only_refuse_if [simp]: "reads_only (refuse_if c k t)"
  by (simp add: refuse_if_def)

lemma reads_only_members [simp]:
  "reads_only (decoder_version obj)" "reads_only (decoder_positive obj)" "reads_only (decoder_identifier obj key req)"
  "reads_only (decoder_boolean obj key)" "reads_only (decoder_array obj key)" "reads_only (decoder_known obj t ks)"
  "reads_only (decoder_progress obj)"
  by (simp_all add: decoder_version_def decoder_positive_def decoder_identifier_def decoder_boolean_def
      decoder_array_def decoder_known_def decoder_progress_def split: option.split json.split)

lemma reads_only_objects [simp]:
  "reads_only (decoder_foreground raw)" "reads_only (decoder_activity j)" "reads_only (decoder_owner obj)"
  by (simp_all add: decoder_foreground_def decoder_activity_def decoder_owner_def Let_def split: option.split)

lemma reads_only_action [simp]: "reads_only (decoder_action j)"
  by (simp add: decoder_action_def Let_def split: option.split)

lemma reads_only_traverse [simp]: "(\<And>x. reads_only (f x)) \<Longrightarrow> reads_only (State_Monad.traverse_list f xs)"
  by (induction xs) simp_all

lemma reads_only_event [simp]: "reads_only (decoder_event obj)"
  by (simp add: decoder_event_def decoder_snapshot_def decoder_promptAccepted_def decoder_stateUpdate_def
      decoder_activityUpdate_def decoder_actionUpdate_def Let_def split: option.split json.split)

lemma reads_only_identity:
  assumes "reads_only m" and "run_state m s = (x, s')"
  shows "dc_streamID s' = dc_streamID s" "dc_sequence s' = dc_sequence s" "dc_negotiated s' = dc_negotiated s"
    "dc_err s' = None \<Longrightarrow> dc_err s = None"
  using assms(1)[unfolded reads_only_def, rule_format, of s] assms(2)
  by (auto simp: Let_def split: option.splits)

text \<open>The identity an envelope is read under.\<close>

lemma envelope_identity:
  assumes obj: "jsonObject (Some raw) = Some obj" and h: "run_state (decoder_envelope raw) d = (e, d')"
  shows "dc_streamID d' = fst (run_state (decoder_identifier obj fieldStreamID True) d)"
    and "\<exists>s. dc_sequence d' = fst (run_state (decoder_positive obj) s)"
proof -
  obtain i d1 where d1: "run_state (decoder_identifier obj fieldStreamID True) d = (i, d1)" by fastforce
  let ?d2 = "d1\<lparr>dc_streamID := i\<rparr>"
  obtain k d3 where d3: "run_state (decoder_positive obj) ?d2 = (k, d3)" by fastforce
  define rest where "rest = State_Monad.bind (decoder_version obj) (\<lambda>_. State_Monad.bind
      (decoder_known obj ''envelope'' [fieldVersion, fieldStreamID, fieldSequence, fieldEvent]) (\<lambda>_.
      case jsonObject (lookup obj fieldEvent) of
        None \<Rightarrow> State_Monad.bind (decoder_fail ViolationMalformedEnvelope ''event is missing or is not an object'')
          (\<lambda>_. State_Monad.return no_event)
      | Some ev \<Rightarrow> decoder_event ev))"
  have "reads_only rest" by (simp add: rest_def split: option.split)
  moreover have "run_state rest (d3\<lparr>dc_sequence := k\<rparr>) = (e, d')"
    using h unfolding decoder_envelope_def obj rest_def by (simp add: run_state_update d1 d3)
  ultimately have "dc_streamID d' = dc_streamID d3" "dc_sequence d' = k"
    using reads_only_identity(1,2)[of rest] by force+
  moreover have "dc_streamID d3 = i" using reads_only_identity(1)[OF _ d3] by simp
  ultimately show "dc_streamID d' = fst (run_state (decoder_identifier obj fieldStreamID True) d)"
    "\<exists>s. dc_sequence d' = fst (run_state (decoder_positive obj) s)"
    using d1 d3 by (auto intro: exI[of _ ?d2])
qed

text \<open>A null where an array or a truth value belongs is not refused.\<close>

lemma null_members_pass:
  "lookup obj key = Some JNull \<Longrightarrow>
   run_state (decoder_array obj key) d = ([], d) \<and> run_state (decoder_boolean obj key) d = (Some False, d)"
  by (simp add: decoder_array_def decoder_boolean_def)

end
