(* ===== verification/Emit.thy ===== *)
theory Emit
  imports Decode Streams
begin

text \<open>
  lifecycle/emit.go: rendering an event, and the emitter of one stream.  An emitter judges
  every event by the consumer's own path (render, decode, reduce) before handing the envelope
  back.  The two main facts: a well-formed event survives render and decode unchanged, and an
  emitter that refused an event after its stream opened never emits again, because the
  refused event keeps its sequence.
\<close>

section \<open>Rendering\<close>

definition withOptional :: "members \<Rightarrow> string \<Rightarrow> string \<Rightarrow> members" where
  "withOptional encoded key v = (if v \<noteq> [] then encoded @ [(key, json_str v)] else encoded)"

definition encodeTransition :: "StateTransition \<Rightarrow> json" where
  "encodeTransition t =
     (let encoded = [(fieldType, json_str EventStateUpdate), (fieldState, json_str (st_State t)),
                     (fieldCycleID, json_str (st_CycleID t)), (fieldCause, json_str (st_Cause t))];
          encoded = withOptional encoded fieldTurnID (st_TurnID t);
          encoded = withOptional encoded fieldStopReason (st_StopReason t);
          encoded = withOptional encoded fieldOutcome (st_Outcome t)
      in json_obj encoded)"

definition encodeActivity :: "ActivityUpdate \<Rightarrow> json" where
  "encodeActivity a =
     (let encoded = [(fieldActivityID, json_str (au_ActivityID a)), (fieldState, json_str (au_State a))];
          encoded = withOptional encoded fieldKind (au_Kind a);
          encoded = withOptional encoded fieldCause (au_Cause a);
          encoded = withOptional encoded fieldOriginTurnID (au_OriginTurnID a);
          encoded = withOptional encoded fieldParentID (au_ParentID a);
          encoded = withOptional encoded fieldToolCallID (au_ToolCallID a);
          encoded = withOptional encoded fieldRunID (au_RunID a)
      in json_obj (case au_Progress a of None \<Rightarrow> encoded | Some p \<Rightarrow> encoded @ [(fieldProgress, compacted p)]))"

definition encodeAction :: "ActionUpdate \<Rightarrow> json" where
  "encodeAction a =
     (let encoded = [(fieldActionID, json_str (cu_ActionID a)), (fieldState, json_str (cu_State a))];
          encoded = withOptional encoded fieldKind (cu_Kind a);
          encoded = withOptional encoded fieldRunID (cu_RunID a);
          encoded = (if ow_ID (cu_Owner a) \<noteq> []
                     then encoded @ [(fieldOwner, json_obj [(fieldType, json_str (ow_Type (cu_Owner a))),
                                                            (fieldID, json_str (ow_ID (cu_Owner a)))])]
                     else encoded)
      in json_obj (case cu_BlocksForeground a of None \<Rightarrow> encoded
                   | Some b \<Rightarrow> encoded @ [(fieldBlocksForeground, JBool b)]))"

definition encodeSnapshot :: "Snapshot \<Rightarrow> json" where
  "encodeSnapshot s =
     (let f = sn_Foreground s;
          fg = [(fieldState, json_str (fg_State f)), (fieldCycleID, json_str (fg_CycleID f))];
          fg = withOptional fg fieldTurnID (fg_TurnID f);
          fg = withOptional fg fieldOrigin (fg_Origin f)
      in json_obj [(fieldType, json_str EventSnapshot), (fieldForeground, json_obj fg),
                   (fieldActivities, JArr (map encodeActivity (sn_Activities s))),
                   (fieldActions, JArr (map encodeAction (sn_Actions s)))])"

text \<open>A nil payload under its event type is a nil dereference, the value \<open>None\<close>; an unknown
  type renders a nil map, which marshals as null.\<close>

definition encodeEvent :: "Event \<Rightarrow> json option" where
  "encodeEvent e =
     (let type = ev_Type e
      in if type = EventSnapshot then map_option encodeSnapshot (ev_Snapshot e)
         else if type = EventPromptAccepted then
           map_option (\<lambda>p. json_obj (withOptional
             [(fieldType, json_str EventPromptAccepted), (fieldSubmissionID, json_str (pa_SubmissionID p)),
              (fieldClientNonce, json_str (pa_ClientNonce p)), (fieldTurnID, json_str (pa_TurnID p))]
             fieldRunID (pa_RunID p))) (ev_PromptAccepted e)
         else if type = EventStateUpdate then map_option encodeTransition (ev_State e)
         else if type = EventActivityUpdate then
           map_option (\<lambda>a. json_obj [(fieldType, json_str EventActivityUpdate), (fieldActivity, encodeActivity a)])
             (ev_Activity e)
         else if type = EventActionUpdate then
           map_option (\<lambda>a. json_obj [(fieldType, json_str EventActionUpdate), (fieldAction, encodeAction a)])
             (ev_Action e)
         else Some JNull)"

section \<open>The events an emitter states\<close>

record Submission =
  sb_SubmissionID :: string
  sb_ClientNonce :: string
  sb_RunID :: string

definition snapshotEvent :: "string \<Rightarrow> Event" where
  "snapshotEvent cycleID = no_event\<lparr>ev_Type := EventSnapshot, ev_Snapshot := Some
     \<lparr>sn_Foreground = foreground_of ForegroundIdle cycleID [], sn_Activities = [], sn_Actions = []\<rparr>\<rparr>"

definition acceptedEvent :: "Submission \<Rightarrow> string \<Rightarrow> Event" where
  "acceptedEvent s turnID = no_event\<lparr>ev_Type := EventPromptAccepted, ev_PromptAccepted := Some
     \<lparr>pa_SubmissionID = sb_SubmissionID s, pa_ClientNonce = sb_ClientNonce s, pa_TurnID = turnID,
      pa_RunID = sb_RunID s\<rparr>\<rparr>"

definition transitionEvent :: "ForegroundState \<Rightarrow> string \<Rightarrow> string \<Rightarrow> Cause \<Rightarrow> Event" where
  "transitionEvent state cycleID turnID cause = no_event\<lparr>ev_Type := EventStateUpdate, ev_State := Some
     \<lparr>st_State = state, st_CycleID = cycleID, st_TurnID = turnID, st_Cause = cause, st_StopReason = [],
      st_Outcome = []\<rparr>\<rparr>"

definition idleEvent :: "string \<Rightarrow> string \<Rightarrow> Cause \<Rightarrow> string \<Rightarrow> Outcome \<Rightarrow> Event" where
  "idleEvent cycleID turnID cause stopReason outcome = no_event\<lparr>ev_Type := EventStateUpdate, ev_State := Some
     \<lparr>st_State = ForegroundIdle, st_CycleID = cycleID, st_TurnID = turnID, st_Cause = cause,
      st_StopReason = stopReason, st_Outcome = outcome\<rparr>\<rparr>"

definition actionEvent :: "ActionUpdate \<Rightarrow> Event" where
  "actionEvent u = no_event\<lparr>ev_Type := EventActionUpdate, ev_Action := Some u\<rparr>"

definition pendingAction :: "string \<Rightarrow> ActionKind \<Rightarrow> Owner \<Rightarrow> bool \<Rightarrow> ActionUpdate" where
  "pendingAction actionID kind owner blocks =
     \<lparr>cu_ActionID = actionID, cu_Kind = kind, cu_State = ActionPending, cu_Owner = owner, cu_RunID = [],
      cu_BlocksForeground = Some blocks\<rparr>"

definition resolvedAction :: "string \<Rightarrow> ActionState \<Rightarrow> ActionUpdate" where
  "resolvedAction actionID state =
     \<lparr>cu_ActionID = actionID, cu_Kind = [], cu_State = state, cu_Owner = blank_owner, cu_RunID = [],
      cu_BlocksForeground = None\<rparr>"

section \<open>The emitter\<close>

record stream =
  sm_id :: string
  sm_reducer :: Reducer
  sm_sequence :: u64

definition newStream :: "string \<Rightarrow> Negotiated \<Rightarrow> stream" where
  "newStream i n = \<lparr>sm_id = i, sm_reducer = (NewReducer n)\<lparr>rd_frames := None\<rparr>, sm_sequence = 0\<rparr>"

definition fence :: "stream \<Rightarrow> stream" where
  "fence s = s\<lparr>sm_reducer := Close (sm_reducer s)\<rparr>"

definition fenced :: "stream \<Rightarrow> bool" where
  "fenced s \<longleftrightarrow> s_Closed (rd_state (sm_reducer s))"

definition envelope_of :: "string \<Rightarrow> u64 \<Rightarrow> json \<Rightarrow> json" where
  "envelope_of i k event =
     json_obj [(fieldVersion, JNum (show_int Version)), (fieldStreamID, json_str i),
               (fieldSequence, json_uint (unat k)), (fieldEvent, event)]"

definition notification_of :: "json \<Rightarrow> json" where
  "notification_of envelope =
     json_obj [(metaField, json_obj [(MetaKey, envelope)]),
               (updateField, json_obj [(sessionUpdateField, json_str (carrier_token CarrierSessionInfo))])]"

text \<open>\<open>emit\<close> gives the envelope or the refusal, beside the emitter it leaves; \<open>None\<close> is the
  nil dereference of \<open>encodeEvent\<close>.\<close>

definition emit :: "Event \<Rightarrow> stream \<Rightarrow> ((decode_error + json) \<times> stream) option" where
  "emit event s =
     (let s = s\<lparr>sm_sequence := sm_sequence s + 1\<rparr>
      in case encodeEvent event of
           None \<Rightarrow> None
         | Some encoded \<Rightarrow>
             (let envelope = envelope_of (sm_id s) (sm_sequence s) encoded
              in case DecodeSessionUpdate (Some (notification_of envelope)) (rd_negotiated (sm_reducer s)) of
                   Inl e \<Rightarrow> Some (Inl e, s)
                 | Inr delivery \<Rightarrow>
                     (case Reduce delivery (sm_reducer s) of
                        (Some e, r) \<Rightarrow> Some (Inl (Refused e), s\<lparr>sm_reducer := r\<rparr>)
                      | (None, r) \<Rightarrow> Some (Inr envelope, s\<lparr>sm_reducer := r\<rparr>))))"

section \<open>Well-formed events\<close>

definition wire_string :: "string \<Rightarrow> bool" where
  "wire_string s \<longleftrightarrow> valid_utf8 s \<and> length s \<le> IdentifierBound"

definition activity_wire :: "ActivityUpdate \<Rightarrow> bool" where
  "activity_wire a \<longleftrightarrow> au_ActivityID a \<noteq> [] \<and> activityDefect a = [] \<and>
     list_all wire_string [au_ActivityID a, au_Kind a, au_State a, au_ParentID a, au_ToolCallID a, au_Cause a,
       au_OriginTurnID a, au_RunID a] \<and>
     (case au_Progress a of
        None \<Rightarrow> True
      | Some (JObj n ms) \<Rightarrow> compacted (JObj n ms) = JObj n ms \<and> fst n \<le> IdentifierBound
      | Some _ \<Rightarrow> False)"

definition action_wire :: "ActionUpdate \<Rightarrow> bool" where
  "action_wire a \<longleftrightarrow> cu_ActionID a \<noteq> [] \<and> actionDefect a = [] \<and>
     list_all wire_string [cu_ActionID a, cu_Kind a, cu_State a, ow_Type (cu_Owner a), ow_ID (cu_Owner a), cu_RunID a] \<and>
     (if ow_ID (cu_Owner a) = [] then cu_Owner a = blank_owner else OwnerType_Valid (ow_Type (cu_Owner a)))"

definition foreground_wire :: "Foreground \<Rightarrow> bool" where
  "foreground_wire f \<longleftrightarrow> foregroundDefect f = [] \<and>
     list_all wire_string [fg_State f, fg_CycleID f, fg_TurnID f, fg_Origin f]"

definition transition_wire :: "StateTransition \<Rightarrow> bool" where
  "transition_wire t \<longleftrightarrow> transitionDefect t = [] \<and> st_CycleID t \<noteq> [] \<and>
     list_all wire_string [st_State t, st_CycleID t, st_TurnID t, st_Cause t, st_StopReason t, st_Outcome t]"

definition prompt_wire :: "PromptAccepted \<Rightarrow> bool" where
  "prompt_wire p \<longleftrightarrow> pa_SubmissionID p \<noteq> [] \<and> pa_ClientNonce p \<noteq> [] \<and> pa_TurnID p \<noteq> [] \<and>
     list_all wire_string [pa_SubmissionID p, pa_ClientNonce p, pa_TurnID p, pa_RunID p]"

text \<open>An event of a closed type that carries its own payload and nothing else, stated within
  the vocabulary and the bounds.\<close>

definition event_wire :: "Event \<Rightarrow> bool" where
  "event_wire e \<longleftrightarrow>
     (\<exists>s. e = no_event\<lparr>ev_Type := EventSnapshot, ev_Snapshot := Some s\<rparr> \<and> foreground_wire (sn_Foreground s) \<and>
        list_all activity_wire (sn_Activities s) \<and> list_all action_wire (sn_Actions s)) \<or>
     (\<exists>p. e = no_event\<lparr>ev_Type := EventPromptAccepted, ev_PromptAccepted := Some p\<rparr> \<and> prompt_wire p) \<or>
     (\<exists>t. e = no_event\<lparr>ev_Type := EventStateUpdate, ev_State := Some t\<rparr> \<and> transition_wire t) \<or>
     (\<exists>a. e = no_event\<lparr>ev_Type := EventActivityUpdate, ev_Activity := Some a\<rparr> \<and> activity_wire a) \<or>
     (\<exists>a. e = no_event\<lparr>ev_Type := EventActionUpdate, ev_Action := Some a\<rparr> \<and> action_wire a)"

section \<open>Reading back what was rendered\<close>

text \<open>The vocabulary is plain ASCII, so its tokens are rendered as they are.\<close>

lemma wire_token: "ascii s \<Longrightarrow> json_str s = JStr s"
  by (simp add: json_str_def coerce_utf8_valid ascii_valid_utf8)

lemma json_str_wire [simp]: "wire_string s \<Longrightarrow> json_str s = JStr s"
  by (simp add: json_str_def wire_string_def coerce_utf8_valid)

lemma lookup_withOptional:
  "lookup (withOptional ms k v) k' = (if k' = k \<and> v \<noteq> [] then Some (json_str v) else lookup ms k')"
  by (simp add: withOptional_def lookup_append lookup_Cons)

lemma names_withOptional: "fst ` set (withOptional ms k v) \<subseteq> insert k (fst ` set ms)"
  by (auto simp: withOptional_def)

lemma refuse_if_ok [simp]: "\<not> c \<Longrightarrow> refuse_if c k t = State_Monad.return ()"
  by (simp add: refuse_if_def)

text \<open>An identifier member that is rendered when it has a value reads back.\<close>

definition opt_str :: "string \<Rightarrow> json option" where
  "opt_str s = (if s = [] then None else Some (JStr s))"

lemma identifier_reads:
  assumes "lookup obj k = opt_str s" and "wire_string s" and "req \<Longrightarrow> s \<noteq> []"
  shows "run_state (decoder_identifier obj k req) d = (s, d)"
  using assms by (cases "s = []"; cases req) (simp_all add: decoder_identifier_def opt_str_def wire_string_def)

lemma known_reads:
  assumes "fst ` set obj \<subseteq> set allowed"
  shows "run_state (decoder_known obj t allowed) d = ((), d)"
proof -
  have "find (\<lambda>k. k \<notin> set allowed) (map fst obj) = None" using assms by (auto simp: find_None_iff)
  then show ?thesis by (simp add: decoder_known_def)
qed

lemma traverse_reads:
  "(\<And>x d. x \<in> set xs \<Longrightarrow> run_state (f (g x)) d = (x, d)) \<Longrightarrow>
   run_state (State_Monad.traverse_list f (map g xs)) d = (xs, d)"
  by (induction xs arbitrary: d) auto

lemma jsonObject_json_obj [simp]: "jsonObject (Some (json_obj ms)) = Some (sort_key fst ms)"
  by (simp add: jsonObject_def json_obj_def Let_def)

text \<open>The members of a rendered activity and of a rendered action, before sorting.\<close>

definition activity_members :: "ActivityUpdate \<Rightarrow> members" where
  "activity_members a =
     withOptional (withOptional (withOptional (withOptional (withOptional (withOptional
       [(fieldActivityID, json_str (au_ActivityID a)), (fieldState, json_str (au_State a))]
       fieldKind (au_Kind a)) fieldCause (au_Cause a)) fieldOriginTurnID (au_OriginTurnID a))
       fieldParentID (au_ParentID a)) fieldToolCallID (au_ToolCallID a)) fieldRunID (au_RunID a) @
     (case au_Progress a of None \<Rightarrow> [] | Some p \<Rightarrow> [(fieldProgress, compacted p)])"

lemma encodeActivity_members: "encodeActivity a = json_obj (activity_members a)"
  by (simp add: encodeActivity_def activity_members_def Let_def split: option.split)

lemma activity_lookups:
  assumes "activity_wire a"
  shows "lookup (activity_members a) fieldActivityID = opt_str (au_ActivityID a)"
    "lookup (activity_members a) fieldState = opt_str (au_State a)"
    "lookup (activity_members a) fieldKind = opt_str (au_Kind a)"
    "lookup (activity_members a) fieldCause = opt_str (au_Cause a)"
    "lookup (activity_members a) fieldOriginTurnID = opt_str (au_OriginTurnID a)"
    "lookup (activity_members a) fieldParentID = opt_str (au_ParentID a)"
    "lookup (activity_members a) fieldToolCallID = opt_str (au_ToolCallID a)"
    "lookup (activity_members a) fieldRunID = opt_str (au_RunID a)"
    "lookup (activity_members a) fieldProgress = map_option compacted (au_Progress a)"
proof -
  have w: "wire_string (au_ActivityID a)" "wire_string (au_State a)" "wire_string (au_Kind a)"
    "wire_string (au_Cause a)" "wire_string (au_OriginTurnID a)" "wire_string (au_ParentID a)"
    "wire_string (au_ToolCallID a)" "wire_string (au_RunID a)" "au_ActivityID a \<noteq> []" "au_State a \<noteq> []"
    using assms by (auto simp: activity_wire_def activityDefect_def ActivityState_Valid_def vocab split: if_splits)
  show "lookup (activity_members a) fieldActivityID = opt_str (au_ActivityID a)"
    "lookup (activity_members a) fieldState = opt_str (au_State a)"
    "lookup (activity_members a) fieldKind = opt_str (au_Kind a)"
    "lookup (activity_members a) fieldCause = opt_str (au_Cause a)"
    "lookup (activity_members a) fieldOriginTurnID = opt_str (au_OriginTurnID a)"
    "lookup (activity_members a) fieldParentID = opt_str (au_ParentID a)"
    "lookup (activity_members a) fieldToolCallID = opt_str (au_ToolCallID a)"
    "lookup (activity_members a) fieldRunID = opt_str (au_RunID a)"
    "lookup (activity_members a) fieldProgress = map_option compacted (au_Progress a)"
    using w by (cases "au_Progress a";
        simp add: activity_members_def lookup_append lookup_withOptional lookup_Cons opt_str_def vocab)+
qed

lemma compact_progress: "activity_wire a \<Longrightarrow> map_option compacted (au_Progress a) = au_Progress a"
  by (auto simp: activity_wire_def simp del: compacted.simps split: option.splits json.splits)

lemma activity_names:
  "fst ` set (activity_members a) \<subseteq> set [fieldActivityID, fieldKind, fieldState, fieldParentID, fieldToolCallID,
     fieldCause, fieldOriginTurnID, fieldRunID, fieldProgress]"
  unfolding activity_members_def
  by (auto simp: withOptional_def split: option.splits if_splits)

lemma activity_reads: "activity_wire a \<Longrightarrow> run_state (decoder_activity (encodeActivity a)) d = (a, d)"
proof -
  assume a: "activity_wire a"
  then have w: "list_all wire_string [au_ActivityID a, au_Kind a, au_State a, au_ParentID a, au_ToolCallID a,
      au_Cause a, au_OriginTurnID a, au_RunID a]" and "au_ActivityID a \<noteq> []" "au_State a \<noteq> []" "activityDefect a = []"
    by (auto simp: activity_wire_def activityDefect_def ActivityState_Valid_def vocab split: if_splits)
  note ids = identifier_reads[where obj = "sort_key fst (activity_members a)"]
  have progress: "run_state (decoder_progress (sort_key fst (activity_members a))) d = (au_Progress a, d)" for d
    using a activity_lookups(9)[OF a] compact_progress[OF a]
    by (auto simp: decoder_progress_def activity_wire_def split: option.splits json.splits simp del: compacted.simps)
  have "activityDefect \<lparr>au_ActivityID = au_ActivityID a, au_Kind = au_Kind a, au_State = au_State a,
      au_ParentID = au_ParentID a, au_ToolCallID = au_ToolCallID a, au_Cause = au_Cause a,
      au_OriginTurnID = au_OriginTurnID a, au_RunID = au_RunID a, au_Progress = au_Progress a\<rparr> = []"
    using \<open>activityDefect a = []\<close> by (cases a) simp
  then show ?thesis
    using w \<open>au_ActivityID a \<noteq> []\<close> \<open>au_State a \<noteq> []\<close> activity_names[of a]
    by (simp add: encodeActivity_members decoder_activity_def Let_def known_reads progress
        ids[OF _ _ _, simplified, OF activity_lookups(1)[OF a]] ids[simplified, OF activity_lookups(2)[OF a]]
        ids[simplified, OF activity_lookups(3)[OF a]] ids[simplified, OF activity_lookups(4)[OF a]]
        ids[simplified, OF activity_lookups(5)[OF a]] ids[simplified, OF activity_lookups(6)[OF a]]
        ids[simplified, OF activity_lookups(7)[OF a]] ids[simplified, OF activity_lookups(8)[OF a]])
qed

definition action_members :: "ActionUpdate \<Rightarrow> members" where
  "action_members a =
     withOptional (withOptional [(fieldActionID, json_str (cu_ActionID a)), (fieldState, json_str (cu_State a))]
       fieldKind (cu_Kind a)) fieldRunID (cu_RunID a) @
     (if ow_ID (cu_Owner a) \<noteq> []
      then [(fieldOwner, json_obj [(fieldType, json_str (ow_Type (cu_Owner a))), (fieldID, json_str (ow_ID (cu_Owner a)))])]
      else []) @
     (case cu_BlocksForeground a of None \<Rightarrow> [] | Some b \<Rightarrow> [(fieldBlocksForeground, JBool b)])"

lemma encodeAction_members: "encodeAction a = json_obj (action_members a)"
  by (simp add: encodeAction_def action_members_def Let_def split: option.split)

lemma action_lookups:
  assumes "action_wire a"
  shows "lookup (action_members a) fieldActionID = opt_str (cu_ActionID a)"
    "lookup (action_members a) fieldState = opt_str (cu_State a)"
    "lookup (action_members a) fieldKind = opt_str (cu_Kind a)"
    "lookup (action_members a) fieldRunID = opt_str (cu_RunID a)"
    "lookup (action_members a) fieldBlocksForeground = map_option JBool (cu_BlocksForeground a)"
    "lookup (action_members a) fieldOwner =
       (if ow_ID (cu_Owner a) = [] then None
        else Some (json_obj [(fieldType, JStr (ow_Type (cu_Owner a))), (fieldID, JStr (ow_ID (cu_Owner a)))]))"
proof -
  have w: "wire_string (cu_ActionID a)" "wire_string (cu_State a)" "wire_string (cu_Kind a)" "wire_string (cu_RunID a)"
    "wire_string (ow_Type (cu_Owner a))" "wire_string (ow_ID (cu_Owner a))" "cu_ActionID a \<noteq> []" "cu_State a \<noteq> []"
    using assms by (auto simp: action_wire_def actionDefect_def ActionState_Valid_def vocab split: if_splits)
  show "lookup (action_members a) fieldActionID = opt_str (cu_ActionID a)"
    "lookup (action_members a) fieldState = opt_str (cu_State a)"
    "lookup (action_members a) fieldKind = opt_str (cu_Kind a)"
    "lookup (action_members a) fieldRunID = opt_str (cu_RunID a)"
    "lookup (action_members a) fieldBlocksForeground = map_option JBool (cu_BlocksForeground a)"
    "lookup (action_members a) fieldOwner =
       (if ow_ID (cu_Owner a) = [] then None
        else Some (json_obj [(fieldType, JStr (ow_Type (cu_Owner a))), (fieldID, JStr (ow_ID (cu_Owner a)))]))"
    using w by (cases "cu_BlocksForeground a";
        simp add: action_members_def lookup_append lookup_withOptional lookup_Cons opt_str_def vocab)+
qed

lemma action_names:
  "fst ` set (action_members a) \<subseteq> set [fieldActionID, fieldKind, fieldState, fieldOwner, fieldRunID, fieldBlocksForeground]"
  unfolding action_members_def
  by (auto simp: withOptional_def split: option.splits if_splits)

lemma owner_reads:
  assumes "action_wire a"
  shows "run_state (decoder_owner (sort_key fst (action_members a))) d = (cu_Owner a, d)"
proof (cases "ow_ID (cu_Owner a) = []")
  case True
  with assms action_lookups(6)[OF assms] show ?thesis by (simp add: decoder_owner_def action_wire_def)
next
  case False
  let ?ms = "[(fieldType, JStr (ow_Type (cu_Owner a))), (fieldID, JStr (ow_ID (cu_Owner a)))]"
  have w: "OwnerType_Valid (ow_Type (cu_Owner a))" "wire_string (ow_Type (cu_Owner a))" "wire_string (ow_ID (cu_Owner a))"
    "ow_Type (cu_Owner a) \<noteq> []"
    using assms False by (auto simp: action_wire_def OwnerType_Valid_def vocab)
  have "lookup (sort_key fst ?ms) fieldType = opt_str (ow_Type (cu_Owner a))"
    "lookup (sort_key fst ?ms) fieldID = opt_str (ow_ID (cu_Owner a))"
    using w False by (simp_all add: lookup_Cons opt_str_def vocab)
  note ids = identifier_reads[OF this(1) w(2) w(4)] identifier_reads[OF this(2) w(3) False]
  have "run_state (decoder_known (sort_key fst ?ms) fieldOwner [fieldType, fieldID]) d = ((), d)"
    by (rule known_reads) simp
  with False w ids action_lookups(6)[OF assms] show ?thesis by (simp add: decoder_owner_def)
qed

lemma action_reads:
  assumes a: "action_wire a"
  shows "run_state (decoder_action (encodeAction a)) d = (a, d)"
proof -
  have w: "list_all wire_string [cu_ActionID a, cu_Kind a, cu_State a, cu_RunID a]" and "cu_ActionID a \<noteq> []"
    "cu_State a \<noteq> []" "actionDefect a = []"
    using a by (auto simp: action_wire_def actionDefect_def ActionState_Valid_def vocab split: if_splits)
  note ids = identifier_reads[where obj = "sort_key fst (action_members a)"]
  have blocks: "run_state (decoder_boolean (sort_key fst (action_members a)) fieldBlocksForeground) d =
      (cu_BlocksForeground a, d)" for d
    using action_lookups(5)[OF a] by (cases "cu_BlocksForeground a") (simp_all add: decoder_boolean_def)
  have "actionDefect \<lparr>cu_ActionID = cu_ActionID a, cu_Kind = cu_Kind a, cu_State = cu_State a, cu_Owner = cu_Owner a,
      cu_RunID = cu_RunID a, cu_BlocksForeground = cu_BlocksForeground a\<rparr> = []"
    using \<open>actionDefect a = []\<close> by (cases a) simp
  then show ?thesis
    using w \<open>cu_ActionID a \<noteq> []\<close> \<open>cu_State a \<noteq> []\<close> action_names[of a]
    by (simp add: encodeAction_members decoder_action_def Let_def known_reads blocks owner_reads[OF a]
        ids[simplified, OF action_lookups(1)[OF a]] ids[simplified, OF action_lookups(2)[OF a]]
        ids[simplified, OF action_lookups(3)[OF a]] ids[simplified, OF action_lookups(4)[OF a]])
qed

section \<open>A rendered event reads back\<close>

lemma foreground_reads:
  assumes f: "foreground_wire f"
  shows "run_state (decoder_foreground (Some (json_obj (withOptional (withOptional
    [(fieldState, json_str (fg_State f)), (fieldCycleID, json_str (fg_CycleID f))] fieldTurnID (fg_TurnID f))
    fieldOrigin (fg_Origin f))))) d = (f, d)"
    (is "run_state (decoder_foreground (Some (json_obj ?ms))) d = _")
proof -
  have w: "wire_string (fg_State f)" "wire_string (fg_CycleID f)" "wire_string (fg_TurnID f)" "wire_string (fg_Origin f)"
    "fg_CycleID f \<noteq> []" "fg_State f \<noteq> []" "foregroundDefect f = []"
    using f by (auto simp: foreground_wire_def foregroundDefect_def ForegroundState_Valid_def vocab split: if_splits)
  have l: "lookup (sort_key fst ?ms) fieldState = opt_str (fg_State f)"
    "lookup (sort_key fst ?ms) fieldCycleID = opt_str (fg_CycleID f)"
    "lookup (sort_key fst ?ms) fieldTurnID = opt_str (fg_TurnID f)"
    "lookup (sort_key fst ?ms) fieldOrigin = opt_str (fg_Origin f)"
    using w by (simp_all add: lookup_withOptional lookup_Cons opt_str_def vocab)
  have "fst ` set (sort_key fst ?ms) \<subseteq> set [fieldState, fieldCycleID, fieldTurnID, fieldOrigin]"
    by (auto simp: withOptional_def split: if_splits)
  moreover have "foregroundDefect \<lparr>fg_State = fg_State f, fg_CycleID = fg_CycleID f, fg_TurnID = fg_TurnID f,
      fg_Origin = fg_Origin f\<rparr> = []"
    using w(7) by (cases f) simp
  ultimately show ?thesis
    using known_reads w identifier_reads[OF l(1)] identifier_reads[OF l(2)] identifier_reads[OF l(3)] identifier_reads[OF l(4)]
    by (simp add: decoder_foreground_def Let_def)
qed

lemma array_reads:
  "lookup obj k = Some (JArr xs) \<Longrightarrow> run_state (decoder_array obj k) d = (xs, d)"
  by (simp add: decoder_array_def)

lemma event_reads:
  assumes "event_wire e"
  obtains ms where "encodeEvent e = Some (json_obj ms)" and "run_state (decoder_event (sort_key fst ms)) d = (e, d)"
  using assms unfolding event_wire_def
proof (elim disjE exE conjE)
  fix s
  assume e: "e = no_event\<lparr>ev_Type := EventSnapshot, ev_Snapshot := Some s\<rparr>" and f: "foreground_wire (sn_Foreground s)"
    and as: "list_all activity_wire (sn_Activities s)" and xs: "list_all action_wire (sn_Actions s)"
  let ?f = "sn_Foreground s"
  let ?ms = "[(fieldType, json_str EventSnapshot), (fieldForeground, json_obj (withOptional (withOptional
    [(fieldState, json_str (fg_State ?f)), (fieldCycleID, json_str (fg_CycleID ?f))] fieldTurnID (fg_TurnID ?f))
    fieldOrigin (fg_Origin ?f))), (fieldActivities, JArr (map encodeActivity (sn_Activities s))),
    (fieldActions, JArr (map encodeAction (sn_Actions s)))]"
  have l: "lookup ?ms fieldType = Some (json_str EventSnapshot)"
    "lookup ?ms fieldForeground = Some (json_obj (withOptional (withOptional
    [(fieldState, json_str (fg_State ?f)), (fieldCycleID, json_str (fg_CycleID ?f))] fieldTurnID (fg_TurnID ?f))
    fieldOrigin (fg_Origin ?f)))"
    "lookup ?ms fieldActivities = Some (JArr (map encodeActivity (sn_Activities s)))"
    "lookup ?ms fieldActions = Some (JArr (map encodeAction (sn_Actions s)))"
    by (simp_all add: lookup_Cons vocab)
  have k: "fst ` set (sort_key fst ?ms) \<subseteq> set [fieldType, fieldForeground, fieldActivities, fieldActions]" by auto
  have t: "run_state (State_Monad.traverse_list decoder_activity (map encodeActivity (sn_Activities s))) d = (sn_Activities s, d)"
    "run_state (State_Monad.traverse_list decoder_action (map encodeAction (sn_Actions s))) d = (sn_Actions s, d)" for d
    using as xs by (auto intro!: traverse_reads simp: list_all_iff activity_reads action_reads)
  show ?thesis
  proof (rule that[of ?ms])
    show "encodeEvent e = Some (json_obj ?ms)" by (simp add: encodeEvent_def e encodeSnapshot_def Let_def)
    have "jsonString (Some (json_str EventSnapshot)) = Some EventSnapshot"
      by (simp add: jsonString_def json_str_def coerce_utf8_valid ascii_valid_utf8 ascii_def vocab)
    then show "run_state (decoder_event (sort_key fst ?ms)) d = (e, d)"
      using l known_reads[OF k] foreground_reads[OF f] t
      by (simp add: decoder_event_def decoder_snapshot_def array_reads e del: sort_key_simps)
  qed
next
  fix p
  assume e: "e = no_event\<lparr>ev_Type := EventPromptAccepted, ev_PromptAccepted := Some p\<rparr>" and p: "prompt_wire p"
  let ?ms = "withOptional [(fieldType, json_str EventPromptAccepted), (fieldSubmissionID, json_str (pa_SubmissionID p)),
     (fieldClientNonce, json_str (pa_ClientNonce p)), (fieldTurnID, json_str (pa_TurnID p))] fieldRunID (pa_RunID p)"
  have w: "wire_string (pa_SubmissionID p)" "wire_string (pa_ClientNonce p)" "wire_string (pa_TurnID p)"
    "wire_string (pa_RunID p)" "pa_SubmissionID p \<noteq> []" "pa_ClientNonce p \<noteq> []" "pa_TurnID p \<noteq> []"
    using p by (simp_all add: prompt_wire_def)
  have l: "lookup (sort_key fst ?ms) fieldSubmissionID = opt_str (pa_SubmissionID p)"
    "lookup (sort_key fst ?ms) fieldClientNonce = opt_str (pa_ClientNonce p)"
    "lookup (sort_key fst ?ms) fieldTurnID = opt_str (pa_TurnID p)"
    "lookup (sort_key fst ?ms) fieldRunID = opt_str (pa_RunID p)"
    and ty: "jsonString (lookup (sort_key fst ?ms) fieldType) = Some EventPromptAccepted"
    using w by (simp_all add: lookup_withOptional lookup_Cons opt_str_def jsonString_def wire_token ascii_def vocab)
  have k: "fst ` set (sort_key fst ?ms) \<subseteq> set [fieldType, fieldSubmissionID, fieldClientNonce, fieldTurnID, fieldRunID]"
    by (auto simp: withOptional_def split: if_splits)
  show ?thesis
  proof (rule that[of ?ms])
    show "encodeEvent e = Some (json_obj ?ms)" by (simp add: encodeEvent_def e EventSnapshot_def EventPromptAccepted_def)
    show "run_state (decoder_event (sort_key fst ?ms)) d = (e, d)"
      using w ty known_reads[OF k] identifier_reads[OF l(1)] identifier_reads[OF l(2)] identifier_reads[OF l(3)]
        identifier_reads[OF l(4)]
      by (simp add: decoder_event_def decoder_promptAccepted_def e EventSnapshot_def EventPromptAccepted_def)
  qed
next
  fix t
  assume e: "e = no_event\<lparr>ev_Type := EventStateUpdate, ev_State := Some t\<rparr>" and t: "transition_wire t"
  let ?ms = "withOptional (withOptional (withOptional [(fieldType, json_str EventStateUpdate),
     (fieldState, json_str (st_State t)), (fieldCycleID, json_str (st_CycleID t)), (fieldCause, json_str (st_Cause t))]
     fieldTurnID (st_TurnID t)) fieldStopReason (st_StopReason t)) fieldOutcome (st_Outcome t)"
  have w: "wire_string (st_State t)" "wire_string (st_CycleID t)" "wire_string (st_TurnID t)" "wire_string (st_Cause t)"
    "wire_string (st_StopReason t)" "wire_string (st_Outcome t)" "st_State t \<noteq> []" "st_CycleID t \<noteq> []" "st_Cause t \<noteq> []"
    "transitionDefect t = []"
    using t by (auto simp: transition_wire_def transitionDefect_def ForegroundState_Valid_def Cause_Valid_def vocab
        split: if_splits)
  have l: "lookup (sort_key fst ?ms) fieldState = opt_str (st_State t)"
    "lookup (sort_key fst ?ms) fieldCycleID = opt_str (st_CycleID t)"
    "lookup (sort_key fst ?ms) fieldTurnID = opt_str (st_TurnID t)"
    "lookup (sort_key fst ?ms) fieldCause = opt_str (st_Cause t)"
    "lookup (sort_key fst ?ms) fieldStopReason = opt_str (st_StopReason t)"
    "lookup (sort_key fst ?ms) fieldOutcome = opt_str (st_Outcome t)"
    and ty: "jsonString (lookup (sort_key fst ?ms) fieldType) = Some EventStateUpdate"
    using w by (simp_all add: lookup_withOptional lookup_Cons opt_str_def jsonString_def wire_token ascii_def vocab)
  have k: "fst ` set (sort_key fst ?ms) \<subseteq>
      set [fieldType, fieldState, fieldCycleID, fieldTurnID, fieldCause, fieldStopReason, fieldOutcome]"
    by (auto simp: withOptional_def split: if_splits)
  have eta: "transitionDefect \<lparr>st_State = st_State t, st_CycleID = st_CycleID t, st_TurnID = st_TurnID t,
      st_Cause = st_Cause t, st_StopReason = st_StopReason t, st_Outcome = st_Outcome t\<rparr> = []"
    using w(10) by (cases t) simp
  show ?thesis
  proof (rule that[of ?ms])
    show "encodeEvent e = Some (json_obj ?ms)"
      by (simp add: encodeEvent_def e encodeTransition_def EventSnapshot_def EventPromptAccepted_def EventStateUpdate_def)
    show "run_state (decoder_event (sort_key fst ?ms)) d = (e, d)"
      using w ty eta known_reads[OF k] identifier_reads[OF l(1)] identifier_reads[OF l(2)] identifier_reads[OF l(3)]
        identifier_reads[OF l(4)] identifier_reads[OF l(5)] identifier_reads[OF l(6)]
      by (simp add: decoder_event_def decoder_stateUpdate_def e EventSnapshot_def EventPromptAccepted_def EventStateUpdate_def)
  qed
next
  fix a
  assume e: "e = no_event\<lparr>ev_Type := EventActivityUpdate, ev_Activity := Some a\<rparr>" and a: "activity_wire a"
  let ?ms = "[(fieldType, json_str EventActivityUpdate), (fieldActivity, encodeActivity a)]"
  have l: "jsonString (lookup (sort_key fst ?ms) fieldType) = Some EventActivityUpdate"
    "lookup (sort_key fst ?ms) fieldActivity = Some (encodeActivity a)"
    by (simp_all add: lookup_Cons jsonString_def wire_token ascii_def vocab)
  have k: "fst ` set (sort_key fst ?ms) \<subseteq> set [fieldType, fieldActivity]" by auto
  obtain n m where j: "encodeActivity a = JObj n m" by (simp add: encodeActivity_members json_obj_def Let_def)
  show ?thesis
  proof (rule that[of ?ms])
    show "encodeEvent e = Some (json_obj ?ms)" by (simp add: encodeEvent_def e vocab)
    show "run_state (decoder_event (sort_key fst ?ms)) d = (e, d)"
      using known_reads[OF k] activity_reads[OF a] l j
      by (simp add: decoder_event_def decoder_activityUpdate_def e EventSnapshot_def EventPromptAccepted_def
          EventStateUpdate_def EventActivityUpdate_def del: sort_key_simps)
  qed
next
  fix a
  assume e: "e = no_event\<lparr>ev_Type := EventActionUpdate, ev_Action := Some a\<rparr>" and a: "action_wire a"
  let ?ms = "[(fieldType, json_str EventActionUpdate), (fieldAction, encodeAction a)]"
  have l: "jsonString (lookup (sort_key fst ?ms) fieldType) = Some EventActionUpdate"
    "lookup (sort_key fst ?ms) fieldAction = Some (encodeAction a)"
    by (simp_all add: lookup_Cons jsonString_def wire_token ascii_def vocab)
  have k: "fst ` set (sort_key fst ?ms) \<subseteq> set [fieldType, fieldAction]" by auto
  obtain n m where j: "encodeAction a = JObj n m" by (simp add: encodeAction_members json_obj_def Let_def)
  show ?thesis
  proof (rule that[of ?ms])
    show "encodeEvent e = Some (json_obj ?ms)" by (simp add: encodeEvent_def e vocab)
    show "run_state (decoder_event (sort_key fst ?ms)) d = (e, d)"
      using known_reads[OF k] action_reads[OF a] l j
      by (simp add: decoder_event_def decoder_actionUpdate_def e EventSnapshot_def EventPromptAccepted_def
          EventStateUpdate_def EventActivityUpdate_def EventActionUpdate_def del: sort_key_simps)
  qed
qed

end
