(* ===== verification/Emitters.thy ===== *)
theory Emitters
  imports Emit
begin

text \<open>
  An emitter and its consumers.  An emitter keeps no frames; apart from them it and a consumer
  that was handed every envelope hold the same reducer.  \<open>with_frames\<close> commutes with every
  handler, since none reads the frames but the duplicate check, which an emitter never passes.
\<close>

section \<open>Frames do not matter to the handlers\<close>

definition with_frames :: "(u64 \<rightharpoonup> string) option \<Rightarrow> Reducer \<Rightarrow> Reducer" where
  "with_frames f r = r\<lparr>rd_frames := f\<rparr>"

abbreviation framed :: "(u64 \<rightharpoonup> string) option \<Rightarrow> outcome \<Rightarrow> outcome" where
  "framed f \<equiv> map_prod id (with_frames f)"

lemma framed_fields [simp]:
  "rd_state (with_frames f r) = rd_state r" "rd_negotiated (with_frames f r) = rd_negotiated r"
  "rd_base (with_frames f r) = rd_base r" "rd_started (with_frames f r) = rd_started r"
  "rd_failed (with_frames f r) = rd_failed r" "rd_turnSeen (with_frames f r) = rd_turnSeen r"
  "rd_activitySeen (with_frames f r) = rd_activitySeen r" "rd_blockedCycle (with_frames f r) = rd_blockedCycle r"
  "rd_actionCycle (with_frames f r) = rd_actionCycle r" "rd_retired (with_frames f r) = rd_retired r"
  "rd_frames (with_frames f r) = f"
  by (simp_all add: with_frames_def)

lemma framed_twice [simp]: "with_frames f (with_frames g r) = with_frames f r"
  by (simp add: with_frames_def)

lemma framed_same [simp]: "rd_frames r = f \<Longrightarrow> with_frames f r = r"
  by (auto simp: with_frames_def)

lemma framed_fail [simp]: "fail d k t (with_frames f r) = framed f (fail d k t r)"
  by (simp add: fail_def Let_def with_frames_def)

lemma framed_and_then:
  "(\<And>s. k (with_frames f s) = framed f (k' s)) \<Longrightarrow> and_then (framed f c) k = framed f (and_then c k')"
  by (cases c) (simp add: and_then_def split: option.split)

lemma framed_lookups [simp]:
  "turnIndex (with_frames f r) = turnIndex r" "activityIndex (with_frames f r) = activityIndex r"
  "actionIndex (with_frames f r) = actionIndex r" "turnKnown (with_frames f r) = turnKnown r"
  "activityKnown (with_frames f r) = activityKnown r" "blocked (with_frames f r) = blocked r"
  by (simp_all add: fun_eq_iff turnIndex_def activityIndex_def actionIndex_def turnKnown_def activityKnown_def
      blocked_def)

lemma framed_updates [simp]:
  "openTurn t (with_frames f r) = with_frames f (openTurn t r)"
  "setForeground g (with_frames f r) = with_frames f (setForeground g r)"
  "updateTurn i h (with_frames f r) = with_frames f (updateTurn i h r)"
  "recordActivity u (with_frames f r) = with_frames f (recordActivity u r)"
  "projectActivity u (with_frames f r) = with_frames f (projectActivity u r)"
  "updateActivity i p (with_frames f r) = with_frames f (updateActivity i p r)"
  "updateAction i q (with_frames f r) = with_frames f (updateAction i q r)"
  by (simp_all add: openTurn_def setForeground_def updateTurn_def recordActivity_def projectActivity_def
      updateActivity_def updateAction_def with_frames_def)

lemma framed_recordAction [simp]: "recordAction u (with_frames f r) = with_frames f (recordAction u r)"
  by (simp add: recordAction_def blockForeground_def Let_def with_frames_def split: option.split)

lemma framed_fold: "(\<And>x r. g x (with_frames f r) = with_frames f (g x r)) \<Longrightarrow>
    fold g xs (with_frames f r) = with_frames f (fold g xs r)"
  by (induction xs arbitrary: r) simp_all

lemma framed_projectSnapshot: "projectSnapshot s (with_frames f r) = with_frames f (projectSnapshot s r)"
  by (simp add: projectSnapshot_def Let_def framed_fold)

lemma framed_checks [simp]:
  "checkActivityIdentity d u (with_frames f r) = framed f (checkActivityIdentity d u r)"
  "checkActionIdentity d a (with_frames f r) = framed f (checkActionIdentity d a r)"
  "checkActivityReferences d u (with_frames f r) = framed f (checkActivityReferences d u r)"
  "checkActivityParent d i j (with_frames f r) = framed f (checkActivityParent d i j r)"
  "checkDescendantsTerminal d i (with_frames f r) = framed f (checkDescendantsTerminal d i r)"
  "checkActionOwner d a (with_frames f r) = framed f (checkActionOwner d a r)"
  by (simp_all add: checkActivityIdentity_def checkActionIdentity_def checkActivityReferences_def
      checkActivityParent_def checkDescendantsTerminal_def checkActionOwner_def Let_def split: option.split)

lemma framed_checkBlockedCycle [simp]:
  "checkBlockedCycle d t (with_frames f r) = framed f (checkBlockedCycle d t r)"
proof -
  have "(with_frames f r)\<lparr>rd_blockedCycle := c\<rparr> = with_frames f (r\<lparr>rd_blockedCycle := c\<rparr>)" for c
    by (simp add: with_frames_def)
  then show ?thesis by (simp add: checkBlockedCycle_def)
qed

lemma framed_snapshot_activities [simp]:
  "checkSnapshotActivities d i l as (with_frames f r) = framed f (checkSnapshotActivities d i l as r)"
  by (induction as arbitrary: l r) (simp_all add: framed_and_then)

lemma framed_snapshot_actions [simp]:
  "checkSnapshotActions d i l xs (with_frames f r) = framed f (checkSnapshotActions d i l xs r)"
  by (induction xs arbitrary: l r) (simp_all add: framed_and_then)

lemma framed_checkSnapshot [simp]: "checkSnapshot d s (with_frames f r) = framed f (checkSnapshot d s r)"
  by (simp add: checkSnapshot_def Let_def framed_and_then)

lemma framed_applySnapshot: "applySnapshot d (with_frames f r) = framed f (applySnapshot d r)"
  by (simp add: applySnapshot_def framed_and_then framed_projectSnapshot split: option.split)

lemma framed_apply_event: "apply_event d (with_frames f r) = framed f (apply_event d r)"
proof -
  have "applyPromptAccepted d (with_frames f r) = framed f (applyPromptAccepted d r)"
    by (simp add: applyPromptAccepted_def split: option.split)
  moreover have "applyIdle d t (with_frames f s) = framed f (applyIdle d t s)"
    "applyLive d t (with_frames f s) = framed f (applyLive d t s)" for t s
    by (auto simp: applyIdle_def applyLive_def Let_def split: option.split)
  then have "applyStateUpdate d (with_frames f r) = framed f (applyStateUpdate d r)"
    by (simp add: applyStateUpdate_def framed_and_then split: option.split)
  moreover have "patchActivity d u i (with_frames f s) = framed f (patchActivity d u i s)" for u i s
    by (simp add: patchActivity_def Let_def framed_and_then framed_and_then[where c = "(None, s)", simplified])
  then have "applyActivityUpdate d (with_frames f r) = framed f (applyActivityUpdate d r)"
    by (simp add: applyActivityUpdate_def framed_and_then split: option.split)
  moreover have "applyActionUpdate d (with_frames f r) = framed f (applyActionUpdate d r)"
    by (simp add: applyActionUpdate_def patchAction_def Let_def framed_and_then split: option.split)
  ultimately show ?thesis by (simp add: apply_event_def Let_def)
qed

lemma framed_commit:
  "commit d (with_frames f r) =
    with_frames (map_option (\<lambda>m. m(dl_Sequence d \<mapsto> frameDigest (dl_Frame d))) f) (commit d r)"
  by (simp add: commit_def with_frames_def Let_def)

lemma framed_reduceFirst:
  "reduceFirst d (with_frames f r) =
    map_prod id (\<lambda>s. with_frames (if fst (reduceFirst d r) = None
      then map_option (\<lambda>m. m(dl_Sequence d \<mapsto> frameDigest (dl_Frame d))) f else f) s) (reduceFirst d r)"
proof -
  let ?p = "(rd_state_update (s_StreamID_update (\<lambda>_. dl_StreamID d)) r)\<lparr>rd_started := True, rd_base := dl_Sequence d\<rparr>"
  have p: "(rd_state_update (s_StreamID_update (\<lambda>_. dl_StreamID d)) (with_frames f r))
      \<lparr>rd_started := True, rd_base := dl_Sequence d\<rparr> = with_frames f ?p"
    by (simp add: with_frames_def)
  have q: "rd_state_update (s_StreamID_update (\<lambda>_. dl_StreamID d)) (with_frames f r) =
      with_frames f (rd_state_update (s_StreamID_update (\<lambda>_. dl_StreamID d)) r)"
    by (simp add: with_frames_def)
  show ?thesis
  proof (cases "ev_Type (dl_Event d) = EventSnapshot")
    case False
    then show ?thesis unfolding reduceFirst_def Let_def p q by (simp add: fail_def Let_def with_frames_def)
  next
    case True
    obtain e s where a: "applySnapshot d ?p = (e, s)" by fastforce
    show ?thesis
    proof (cases e)
      case None
      then show ?thesis using True a unfolding reduceFirst_def Let_def p
        by (simp add: framed_applySnapshot framed_commit)
    next
      case (Some v)
      then show ?thesis using True a unfolding reduceFirst_def Let_def p
        by (simp add: framed_applySnapshot)
    qed
  qed
qed

section \<open>An emitter's invariant\<close>

text \<open>Before its stream opens an emitter's reducer is fresh; afterwards it reports the
  emitter's own stream (as UTF-8, the way its identity is rendered).\<close>

definition emitter_ok :: "stream \<Rightarrow> bool" where
  "emitter_ok s \<longleftrightarrow> reducer_inv (sm_reducer s) \<and> rd_frames (sm_reducer s) = None \<and>
     (rd_started (sm_reducer s) \<longrightarrow> s_StreamID (rd_state (sm_reducer s)) = coerce_utf8 (sm_id s))"

text \<open>A stream that refused an event after it opened is spent: its reducer is latched, or its
  sequence has moved past what was reduced.\<close>

definition spent :: "stream \<Rightarrow> bool" where
  "spent s \<longleftrightarrow> rd_started (sm_reducer s) \<and>
     (rd_failed (sm_reducer s) \<noteq> None \<or> s_ReducedThrough (rd_state (sm_reducer s)) < sm_sequence s)"

lemma emitter_ok_new: "emitter_ok (newStream i n)"
proof -
  have "reducer_inv (NewReducer n)" by (rule inv_NewReducer)
  then show ?thesis
    by (simp add: emitter_ok_def newStream_def NewReducer_def reset_def blank_reducer_def reducer_inv_def
        unopened_def empty_state_def)
qed

text \<open>A delivery an emitter accepted is accepted by every consumer that agrees with it but for
  the frames.\<close>

lemma consumer_accepts:
  assumes h: "Reduce d (with_frames None c) = (None, r')"
    and own: "rd_started c \<Longrightarrow> dl_StreamID d = s_StreamID (rd_state c)"
  shows "\<exists>c'. Reduce d c = (None, c') \<and> with_frames None c' = r'"
  using h
proof (cases rule: Reduce_accepted)
  case opens
  have "reduceFirst d (with_frames None c) = map_prod id (with_frames None) (reduceFirst d c)"
    using framed_reduceFirst[of d None c] by simp
  with opens have "map_prod id (with_frames None) (reduceFirst d c) = (None, r')" by simp
  then obtain c' where "reduceFirst d c = (None, c')" "with_frames None c' = r'"
    by (cases "reduceFirst d c") auto
  moreover have "Reduce d c = reduceFirst d c" using opens by (simp add: Reduce_def Let_def)
  ultimately show ?thesis by simp
next
  case (advances q)
  have "framed None (apply_event d c) = (None, q)"
    using advances(9) by (simp add: framed_apply_event)
  then obtain c' where c': "apply_event d c = (None, c')" "with_frames None c' = q"
    by (cases "apply_event d c") auto
  moreover have "with_frames None (commit d c') = commit d (with_frames None c')"
    by (simp add: commit_def with_frames_def Let_def)
  moreover have "\<not> dl_Sequence d < rd_base c"
  proof
    assume "dl_Sequence d < rd_base c"
    moreover have "fst (Reduce d (with_frames None c)) = None" using h by simp
    ultimately show False using advances by (simp add: Reduce_def Let_def fail_def)
  qed
  then have "Reduce d c = (case apply_event d c of (Some e, r) \<Rightarrow> (Some e, r) | (None, r) \<Rightarrow> (None, commit d r))"
    using advances(1-8) by (simp add: Reduce_def Let_def)
  ultimately show ?thesis using advances(10) by simp
qed (use own in auto)

section \<open>One emission\<close>

text \<open>What an emission can be: the sequence is claimed whatever happens.\<close>

lemma emit_cases:
  assumes "emit e s = Some (out, s')"
  obtains (undecoded) encoded err where "encodeEvent e = Some encoded"
    "DecodeSessionUpdate (Some (notification_of (envelope_of (sm_id s) (sm_sequence s + 1) encoded)))
       (rd_negotiated (sm_reducer s)) = Inl err"
    "out = Inl err" "s' = s\<lparr>sm_sequence := sm_sequence s + 1\<rparr>"
  | (refused) encoded d v r where "encodeEvent e = Some encoded"
    "DecodeSessionUpdate (Some (notification_of (envelope_of (sm_id s) (sm_sequence s + 1) encoded)))
       (rd_negotiated (sm_reducer s)) = Inr d"
    "Reduce d (sm_reducer s) = (Some v, r)" "out = Inl (Refused v)"
    "s' = s\<lparr>sm_sequence := sm_sequence s + 1, sm_reducer := r\<rparr>"
  | (emitted) encoded d r where "encodeEvent e = Some encoded"
    "DecodeSessionUpdate (Some (notification_of (envelope_of (sm_id s) (sm_sequence s + 1) encoded)))
       (rd_negotiated (sm_reducer s)) = Inr d"
    "Reduce d (sm_reducer s) = (None, r)" "out = Inr (envelope_of (sm_id s) (sm_sequence s + 1) encoded)"
    "s' = s\<lparr>sm_sequence := sm_sequence s + 1, sm_reducer := r\<rparr>"
proof (cases "encodeEvent e")
  case None
  with assms show ?thesis by (simp add: emit_def)
next
  case (Some encoded)
  let ?p = "Some (notification_of (envelope_of (sm_id s) (sm_sequence s + 1) encoded))"
  show ?thesis
  proof (cases "DecodeSessionUpdate ?p (rd_negotiated (sm_reducer s))")
    case (Inl err)
    with assms Some undecoded show ?thesis by (simp add: emit_def Let_def)
  next
    case (Inr d)
    obtain v r where "Reduce d (sm_reducer s) = (v, r)" by fastforce
    with assms Some Inr refused emitted show ?thesis by (cases v) (simp_all add: emit_def Let_def)
  qed
qed

lemma unmarshal_json_str [simp]: "unmarshal_string (json_str s) = Some (coerce_utf8 s)"
  by (simp add: json_str_def)

lemma unat_below: "unat (k :: u64) < 2 ^ 64"
proof -
  have "unat k < 2 ^ LENGTH(64)" by (rule unsigned_less)
  then show ?thesis by simp
qed

text \<open>The delivery an emitter judges names its stream and the claimed sequence.\<close>

lemma judged_identity:
  assumes "DecodeSessionUpdate (Some (notification_of (envelope_of i k ev))) n = Inr d"
  shows "dl_StreamID d = coerce_utf8 i" "dl_Sequence d = k" "dl_Carrier d = CarrierSessionInfo" "Present n"
proof -
  let ?ms = "[(fieldVersion, JNum (show_int Version)), (fieldStreamID, json_str i),
               (fieldSequence, json_uint (unat k)), (fieldEvent, ev)]"
  let ?obj = "sort_key fst ?ms"
  have obj: "jsonObject (Some (envelope_of i k ev)) = Some ?obj" by (simp add: envelope_of_def)
  have l: "lookup ?ms fieldStreamID = Some (json_str i)" "lookup ?ms fieldSequence = Some (json_uint (unat k))"
    by (simp_all add: lookup_Cons vocab)
  have lo: "lookup ?obj fieldStreamID = Some (json_str i)" "lookup ?obj fieldSequence = Some (json_uint (unat k))"
    unfolding lookup_sort_key by (fact l)+
  obtain e d' where run: "run_state (decoder_envelope (envelope_of i k ev)) (fresh_decoder n) = (e, d')" by fastforce
  from assms run show "dl_StreamID d = coerce_utf8 i" "dl_Sequence d = k" "dl_Carrier d = CarrierSessionInfo" "Present n"
  proof -
    have meta: "metaField \<noteq> updateField" by (simp add: vocab)
    have d: "dl_StreamID d = dc_streamID d'" "dl_Sequence d = dc_sequence d'" "dl_Carrier d = CarrierSessionInfo" "Present n"
      using assms run unfolding DecodeSessionUpdate_def notification_of_def
      by (simp_all add: meta lookup_Cons split: if_splits option.splits) auto
    have "dc_streamID d' = coerce_utf8 i"
      using envelope_identity(1)[OF obj run] unfolding decoder_identifier_def lo(1)
      by (simp split: prod.splits)
    moreover have "\<exists>s. dc_sequence d' = fst (run_state (decoder_positive ?obj) s)"
      by (rule envelope_identity(2)[OF obj run])
    then have "dc_sequence d' = k"
      using unat_below[of k] unfolding decoder_positive_def lo(2)
      by (auto simp: unmarshal_uint64_json_uint decoder_fail_def run_state_update split: if_splits prod.splits)
    ultimately show "dl_StreamID d = coerce_utf8 i" "dl_Sequence d = k" "dl_Carrier d = CarrierSessionInfo" "Present n"
      using d by simp_all
  qed
qed

section \<open>What an emitter promises\<close>

lemma emitter_ok_emit:
  assumes ok: "emitter_ok s" and h: "emit e s = Some (out, s')"
  shows "emitter_ok s'"
  using h
proof (cases rule: emit_cases)
  case undecoded
  with ok show ?thesis by (simp add: emitter_ok_def)
next
  case (refused encoded d v r)
  note d = judged_identity[OF refused(2)]
  have inv: "reducer_inv r" using inv_refused[OF _ refused(3)] ok by (simp add: emitter_ok_def)
  from refused(3) show ?thesis
  proof (cases rule: Reduce_refused)
    case latched
    with ok show ?thesis by (simp add: refused(5) emitter_ok_def)
  next
    case first
    from reduceFirst_refused[OF first(3,2)] ok inv show ?thesis by (simp add: refused(5) emitter_ok_def)
  next
    case (refused b)
    with ok inv show ?thesis by (simp add: \<open>s' = _\<close> emitter_ok_def)
  qed
next
  case (emitted encoded d r)
  note d = judged_identity[OF emitted(2)]
  have inv: "reducer_inv r" using inv_accepted[OF _ emitted(3)] ok by (simp add: emitter_ok_def)
  from emitted(3) show ?thesis
  proof (cases rule: Reduce_accepted)
    case opens
    with opened_stream[OF opens(5)] ok inv d show ?thesis by (simp add: emitted(5) emitter_ok_def)
  next
    case replaces
    with ok d show ?thesis by (simp add: emitter_ok_def)
  next
    case suppresses
    with ok show ?thesis by (simp add: emitter_ok_def)
  next
    case (advances q)
    have "same_bookkeeping (sm_reducer s) q" by (rule event.accepted_bookkeeping[OF advances(9)])
    with advances ok inv show ?thesis by (simp add: emitted(5) emitter_ok_def same_bookkeeping_def)
  qed
qed

text \<open>A spent stream stays spent, and emits nothing.\<close>

lemma claimed_next: "(k :: u64) \<noteq> - 1 \<Longrightarrow> k < k + 1"
proof -
  assume "k \<noteq> - 1"
  then have "k + 1 \<noteq> 0" by (metis add_eq_0_iff2)
  then have "unat (k + 1) = Suc (unat k)" by (metis add.commute unatSuc)
  then show ?thesis by (simp add: word_less_nat_alt)
qed

lemma spent_emit:
  assumes ok: "emitter_ok s" and sp: "spent s" and h: "emit e s = Some (out, s')"
    and room: "sm_sequence s \<noteq> - 1"
  shows "spent s' \<and> (\<exists>err. out = Inl err)"
  using h
proof (cases rule: emit_cases)
  case undecoded
  with sp claimed_next[OF room] show ?thesis by (auto simp: spent_def)
next
  case (refused encoded d v r)
  have "rd_started r" using refused_follows[OF _ refused(3)] sp by (simp add: spent_def follows_def)
  with refused_latches[OF refused(3)] refused(4,5) show ?thesis by (simp add: spent_def)
next
  case (emitted encoded d r)
  note d = judged_identity[OF emitted(2)]
  from emitted(3) have False
  proof (cases rule: Reduce_accepted)
    case (suppresses m)
    with ok show ?thesis by (simp add: emitter_ok_def)
  next
    case (advances q)
    then have "s_ReducedThrough (rd_state (sm_reducer s)) < sm_sequence s" using sp by (simp add: spent_def)
    moreover have "sm_sequence s + 1 = s_ReducedThrough (rd_state (sm_reducer s)) + 1"
      using next_sequence(1)[OF advances(6,7)] d(2) by simp
    ultimately show ?thesis by simp
  qed (use ok sp d in \<open>simp_all add: emitter_ok_def spent_def\<close>)
  then show ?thesis ..
qed

lemma refused_spends:
  assumes ok: "emitter_ok s" and st: "rd_started (sm_reducer s)" and h: "emit e s = Some (Inl err, s')"
    and room: "sm_sequence s \<noteq> - 1" and behind: "s_ReducedThrough (rd_state (sm_reducer s)) \<le> sm_sequence s"
  shows "spent s'"
  using h
proof (cases rule: emit_cases)
  case undecoded
  with st behind claimed_next[OF room] show ?thesis by (auto simp: spent_def)
next
  case (refused encoded d v r)
  have "rd_started r" using refused_follows[OF st refused(3)] by (simp add: follows_def)
  with refused_latches[OF refused(3)] refused(5) show ?thesis by (simp add: spent_def)
qed simp

text \<open>Emitting a list of events, and what came of each; \<open>None\<close> when one has no payload.\<close>

fun emit_all :: "Event list \<Rightarrow> stream \<Rightarrow> ((decode_error + json) list \<times> stream) option" where
  "emit_all [] s = Some ([], s)"
| "emit_all (e # es) s =
     (case emit e s of
        None \<Rightarrow> None
      | Some (out, s) \<Rightarrow> map_option (\<lambda>(outs, s). (out # outs, s)) (emit_all es s))"

text \<open>The sequence never falls behind what was reduced.\<close>

definition ahead :: "stream \<Rightarrow> bool" where
  "ahead s \<longleftrightarrow> (rd_started (sm_reducer s) \<longrightarrow> s_ReducedThrough (rd_state (sm_reducer s)) \<le> sm_sequence s)"

lemma emit_ahead:
  assumes ok: "emitter_ok s" and a: "ahead s" and h: "emit e s = Some (out, s')" and room: "sm_sequence s \<noteq> - 1"
  shows "ahead s' \<and> sm_sequence s' = sm_sequence s + 1 \<and> sm_id s' = sm_id s"
  using h
proof (cases rule: emit_cases)
  case undecoded
  with a claimed_next[OF room] show ?thesis by (auto simp: ahead_def)
next
  case (refused encoded d v r)
  note keep = \<open>s' = _\<close>
  from refused(3) have "rd_started r \<Longrightarrow> rd_started (sm_reducer s) \<and>
      s_ReducedThrough (rd_state r) = s_ReducedThrough (rd_state (sm_reducer s))"
    by (cases rule: Reduce_refused) (auto dest: reduceFirst_refused(1))
  with a claimed_next[OF room] keep show ?thesis by (auto simp: ahead_def)
next
  case (emitted encoded d r)
  note d = judged_identity[OF emitted(2)]
  from emitted(3) have "s_ReducedThrough (rd_state r) = sm_sequence s + 1"
  proof (cases rule: Reduce_accepted)
    case opens
    with opened_stream(2)[OF opens(5)] d show ?thesis by simp
  next
    case (advances q)
    with d show ?thesis by simp
  qed (use ok d in \<open>auto simp: emitter_ok_def\<close>)
  with emitted(5) show ?thesis by (simp add: ahead_def)
qed

end
