(* ===== verification/EmitProps.thy ===== *)
theory EmitProps
  imports Emitters Runs
begin

text \<open>
  The promises of the decoder and of an emitter, with the session that instantiates them: a
  stream that opens idle, accepts a prompt and is refused a transition of an unknown turn.
\<close>

section \<open>Rendering and decoding\<close>

definition notification_frame :: "string \<Rightarrow> u64 \<Rightarrow> json \<Rightarrow> val" where
  "notification_frame i k encoded = decode_any (notification_of (envelope_of i k encoded))"

lemma positive_reads:
  assumes "k \<noteq> 0" and "lookup obj fieldSequence = Some (json_uint (unat k))"
  shows "run_state (decoder_positive obj) d = (k, d)"
  using assms unat_below[of k] by (simp add: decoder_positive_def unmarshal_uint64_json_uint)

lemma version_reads:
  "Present (dc_negotiated d) \<Longrightarrow> lookup obj fieldVersion = Some (JNum (show_int Version)) \<Longrightarrow>
   run_state (decoder_version obj) d = ((), d)"
proof -
  have "parse_int (show_int Version) = Some Version" by (simp add: Version_def) code_simp
  moreover assume "Present (dc_negotiated d)" "lookup obj fieldVersion = Some (JNum (show_int Version))"
  ultimately show ?thesis by (simp add: decoder_version_def SupportsVersion_def Present_def)
qed

lemma carrier_rendered:
  "carrierClassForSessionUpdate (Some (json_obj [(sessionUpdateField, json_str (carrier_token CarrierSessionInfo))])) =
   CarrierSessionInfo"
  by (simp add: carrierClassForSessionUpdate_def jsonString_def wire_token ascii_def lookup_Cons vocab)

text \<open>A well-formed event decodes to the delivery that states it.\<close>

lemma rendered_decodes:
  assumes e: "event_wire e" and n: "Present n" and i: "wire_string i" "i \<noteq> []" and k: "k \<noteq> 0"
  shows "\<exists>encoded. encodeEvent e = Some encoded \<and>
    DecodeSessionUpdate (Some (notification_of (envelope_of i k encoded))) n =
      Inr \<lparr>dl_StreamID = i, dl_Sequence = k, dl_Carrier = CarrierSessionInfo, dl_Event = e,
           dl_Frame = notification_frame i k encoded\<rparr>"
proof -
  let ?d = "\<lparr>dc_negotiated = n, dc_streamID = i, dc_sequence = k, dc_err = None\<rparr>"
  obtain ms where ms: "encodeEvent e = Some (json_obj ms)" "run_state (decoder_event (sort_key fst ms)) ?d = (e, ?d)"
    using event_reads[OF e] by blast
  let ?ms = "[(fieldVersion, JNum (show_int Version)), (fieldStreamID, json_str i),
               (fieldSequence, json_uint (unat k)), (fieldEvent, json_obj ms)]"
  let ?obj = "sort_key fst ?ms"
  have l: "lookup ?obj fieldVersion = Some (JNum (show_int Version))" "lookup ?obj fieldStreamID = opt_str i"
    "lookup ?obj fieldSequence = Some (json_uint (unat k))" "lookup ?obj fieldEvent = Some (json_obj ms)"
    unfolding lookup_sort_key using i by (simp_all add: lookup_Cons opt_str_def vocab)
  have known: "fst ` set ?obj \<subseteq> set [fieldVersion, fieldStreamID, fieldSequence, fieldEvent]"
    unfolding set_sort by simp
  have envelope: "run_state (decoder_envelope (envelope_of i k (json_obj ms))) (fresh_decoder n) = (e, ?d)"
    using ms(2) version_reads[of _ ?obj] l(1,4) n known_reads[OF known] identifier_reads[OF l(2) i(1)] i(2)
      positive_reads[OF k l(3)]
    unfolding decoder_envelope_def envelope_of_def jsonObject_json_obj fresh_decoder_def
    by (simp add: run_state_update del: sort_key_simps)
  have "metaField \<noteq> updateField" by (simp add: vocab)
  then have "DecodeSessionUpdate (Some (notification_of (envelope_of i k (json_obj ms)))) n =
      Inr \<lparr>dl_StreamID = i, dl_Sequence = k, dl_Carrier = CarrierSessionInfo, dl_Event = e,
           dl_Frame = notification_frame i k (json_obj ms)\<rparr>"
    using n envelope carrier_rendered
    by (simp add: DecodeSessionUpdate_def notification_of_def lookup_Cons notification_frame_def decodeValue_def
        del: carrier_token.simps)
  with ms(1) show ?thesis by blast
qed

text \<open>What an event is once rendered: the encoder rewrites the text of a progress, dropping spaces and
  escaping HTML characters, and touches nothing else.\<close>

definition rendered_activity :: "ActivityUpdate \<Rightarrow> ActivityUpdate" where
  "rendered_activity a = a\<lparr>au_Progress := map_option compacted (au_Progress a)\<rparr>"

definition rendered_event :: "Event \<Rightarrow> Event" where
  "rendered_event e =
     e\<lparr>ev_Snapshot := map_option (\<lambda>s. s\<lparr>sn_Activities := map rendered_activity (sn_Activities s)\<rparr>) (ev_Snapshot e),
       ev_Activity := map_option rendered_activity (ev_Activity e)\<rparr>"

lemma encode_rendered_activity: "encodeActivity (rendered_activity a) = encodeActivity a"
  by (cases "au_Progress a") (simp_all add: encodeActivity_def rendered_activity_def Let_def)

lemma encode_rendered_snapshot: "encodeSnapshot (s\<lparr>sn_Activities := map rendered_activity (sn_Activities s)\<rparr>) = encodeSnapshot s"
  by (simp add: encodeSnapshot_def comp_def encode_rendered_activity Let_def)

lemma encode_rendered: "encodeEvent (rendered_event e) = encodeEvent e"
  by (cases "ev_Snapshot e"; cases "ev_Activity e")
    (simp_all add: encodeEvent_def rendered_event_def encode_rendered_snapshot encode_rendered_activity Let_def)

text \<open>C11: what an emitter renders is what a consumer decodes.  Every event stated within the
  vocabulary whose rendered members keep the bounds is rendered, and strict decoding reads back,
  under the stream's identity and the claimed sequence and on the one carrier that may bear it,
  the event itself, each activity's progress as the encoder spells it: the same document,
  in compact text with HTML characters escaped, whose length is what the bound on a progress is
  judged by.\<close>

theorem envelope_round_trip:
  assumes e: "event_wire (rendered_event e)" and n: "Present n" and i: "wire_string i" "i \<noteq> []" and k: "k \<noteq> 0"
  shows "\<exists>encoded. encodeEvent e = Some encoded \<and>
    DecodeSessionUpdate (Some (notification_of (envelope_of i k encoded))) n =
      Inr \<lparr>dl_StreamID = i, dl_Sequence = k, dl_Carrier = CarrierSessionInfo, dl_Event = rendered_event e,
           dl_Frame = notification_frame i k encoded\<rparr>"
  using rendered_decodes[OF assms] unfolding encode_rendered .

definition sample_negotiated :: Negotiated where
  "sample_negotiated = \<lparr>ng_Version = 1, ng_UpdatesOutsidePrompt = False, ng_ActivityKinds = []\<rparr>"

lemma ascii_wire: "ascii s \<Longrightarrow> length s \<le> IdentifierBound \<Longrightarrow> wire_string s"
  by (simp add: wire_string_def ascii_valid_utf8)

lemma sample_wire:
  assumes "wire_string c" and "c \<noteq> []"
  shows "event_wire (snapshotEvent c)"
proof -
  let ?s = "\<lparr>sn_Foreground = foreground_of ForegroundIdle c [], sn_Activities = [], sn_Actions = []\<rparr>"
  have "foreground_wire (sn_Foreground ?s)"
    by (simp add: foreground_wire_def foreground_of_def foregroundDefect_def ForegroundState_Valid_def
        IdentifierBound_def ascii_def ascii_wire assms vocab)
  then show ?thesis unfolding event_wire_def snapshotEvent_def by (intro disjI1 exI[of _ ?s]) simp
qed

text \<open>An activity whose progress is \<open>{"note": "<"}\<close>, 13 bytes, and 17 once rendered.\<close>

definition noting :: "nat \<Rightarrow> Event" where
  "noting n = no_event\<lparr>ev_Type := EventActivityUpdate, ev_Activity := Some
     \<lparr>au_ActivityID = ''a1'', au_Kind = [], au_State = ActivityRunning, au_ParentID = [], au_ToolCallID = [], au_Cause = [],
      au_OriginTurnID = [], au_RunID = [], au_Progress = Some (JObj (n, 17) [(''note'', JStr ''<'')])\<rparr>\<rparr>"

lemma noting_rendered: "rendered_event (noting n) = noting 17"
  by (simp add: rendered_event_def rendered_activity_def noting_def no_event_def)

lemma noting_wire: "event_wire (noting 17)"
  unfolding event_wire_def noting_def
  by (rule disjI2, rule disjI2, rule disjI2, rule disjI1, intro exI conjI, rule refl)
    (simp add: activity_wire_def activityDefect_def ActivityState_Valid_def IdentifierBound_def ascii_wire ascii_def vocab)

theorem envelope_round_trip_witness:
  "\<exists>encoded. encodeEvent (noting 13) = Some encoded \<and>
    DecodeSessionUpdate (Some (notification_of (envelope_of ''s1'' 1 encoded))) sample_negotiated =
      Inr \<lparr>dl_StreamID = ''s1'', dl_Sequence = 1, dl_Carrier = CarrierSessionInfo,
           dl_Event = noting 17, dl_Frame = notification_frame ''s1'' 1 encoded\<rparr>"
  using envelope_round_trip[of "noting 13" sample_negotiated "''s1''" 1] noting_wire
  by (simp add: noting_rendered Present_def Version_def sample_negotiated_def ascii_wire ascii_def IdentifierBound_def)

section \<open>A refused emission\<close>

text \<open>Sequences are claimed one by one, so an emitter that has not run out of them is never
  behind what it reduced.\<close>

lemma last_sequence [simp]: "unat (- 1 :: u64) = 2 ^ 64 - 1"
  by (simp add: unsigned_minus_1_eq_mask mask_eq_exp_minus_1)

lemma emit_all_ahead:
  assumes "emitter_ok s" and "ahead s" and "emit_all es s = Some (outs, s')" and "unat (sm_sequence s) + length es < 2 ^ 64"
  shows "emitter_ok s' \<and> ahead s' \<and> unat (sm_sequence s') = unat (sm_sequence s) + length es"
  using assms
proof (induction es arbitrary: s outs)
  case (Cons e es)
  then obtain out t outs' where t: "emit e s = Some (out, t)" "emit_all es t = Some (outs', s')"
    by (auto split: option.splits)
  have room: "sm_sequence s \<noteq> - 1"
  proof
    assume "sm_sequence s = - 1"
    then have "unat (sm_sequence s) = 2 ^ 64 - 1" by simp
    with Cons.prems(4) show False by simp
  qed
  note step = emit_ahead[OF Cons.prems(1,2) t(1) room] emitter_ok_emit[OF Cons.prems(1) t(1)]
  have "sm_sequence s + 1 \<noteq> 0" using room by (metis add_eq_0_iff2)
  then have "unat (sm_sequence t) = Suc (unat (sm_sequence s))"
    using step(1) by (metis add.commute unatSuc)
  with Cons.IH[of t outs'] Cons.prems(4) step t show ?case by simp
qed simp

lemma spent_emits_nothing:
  assumes "emitter_ok s" and "ahead s" and "spent s" and "emit_all es s = Some (outs, s')"
    and "unat (sm_sequence s) + length es < 2 ^ 64"
  shows "Inr env \<notin> set outs"
  using assms
proof (induction es arbitrary: s outs)
  case (Cons e es)
  then obtain out t outs' where t: "emit e s = Some (out, t)" "emit_all es t = Some (outs', s')" "outs = out # outs'"
    by (auto split: option.splits)
  have "emit_all [e] s = Some ([out], t)" using t by simp
  from emit_all_ahead[OF Cons.prems(1,2) this] Cons.prems(5)
  have ok: "emitter_ok t" "ahead t" "unat (sm_sequence t) = Suc (unat (sm_sequence s))" by simp_all
  have room: "sm_sequence s \<noteq> - 1" using ok(3) Cons.prems(5) by auto
  from spent_emit[OF Cons.prems(1,3) t(1) room] have sp: "spent t" "out \<noteq> Inr env" by auto
  have "Inr env \<notin> set outs'" using Cons.IH[OF ok(1,2) sp(1) t(2)] ok(3) Cons.prems(5) by simp
  with sp(2) t(3) show ?case by simp
qed simp

lemma ahead_new: "ahead (newStream i n)"
  by (simp add: ahead_def newStream_def NewReducer_def reset_def blank_reducer_def)

text \<open>a refused emission ends the stream.  A refused event keeps the sequence it
  claimed, so once a stream has opened and refused an event, whether its envelope could not be
  decoded or the reducer turned it down, every later emission is refused too and no envelope
  is handed back again (below the 64-bit range of sequences).\<close>

theorem refused_emission_ends_stream:
  assumes "emit_all before (newStream i n) = Some (outs, s)" and "rd_started (sm_reducer s)"
    and "emit e s = Some (Inl err, s')" and "emit_all after s' = Some (outs', s'')"
    and "length before + 1 + length after < 2 ^ 64"
  shows "Inr envelope \<notin> set outs'"
proof -
  have "unat (sm_sequence (newStream i n)) = 0" by (simp add: newStream_def)
  with emit_all_ahead[OF emitter_ok_new ahead_new assms(1)] assms(5)
  have s: "emitter_ok s" "ahead s" "unat (sm_sequence s) = length before" by simp_all
  have "emit_all [e] s = Some ([Inl err], s')" using assms(3) by simp
  from emit_all_ahead[OF s(1,2) this] s(3) assms(5)
  have s': "emitter_ok s'" "ahead s'" "unat (sm_sequence s') = Suc (length before)" by simp_all
  have "sm_sequence s \<noteq> - 1" using s(3) assms(5) by auto
  with refused_spends[OF s(1) assms(2,3)] s(2) assms(2) have "spent s'" by (simp add: ahead_def)
  from spent_emits_nothing[OF s'(1,2) this assms(4)] s'(3) assms(5) show ?thesis by simp
qed

section \<open>Consumers of an emitter\<close>

text \<open>A consumer that reduces the envelopes it is handed, stopping at the first refusal.\<close>

fun consume :: "json list \<Rightarrow> Reducer \<Rightarrow> decode_error option \<times> Reducer" where
  "consume [] r = (None, r)"
| "consume (envelope # rest) r = and_then (ReduceSessionUpdate (Some (notification_of envelope)) r) (consume rest)"

definition emitted :: "(decode_error + json) list \<Rightarrow> json list" where
  "emitted outs = List.map_filter (\<lambda>out. case out of Inl err \<Rightarrow> None | Inr envelope \<Rightarrow> Some envelope) outs"

lemma emitted_simps [simp]: "emitted [] = []" "emitted (Inl err # outs) = emitted outs"
  "emitted (Inr envelope # outs) = envelope # emitted outs"
  by (simp_all add: emitted_def List.map_filter_simps)

lemma emitter_unfailed:
  assumes "emit e s = Some (out, s')" and "rd_failed (sm_reducer s') = None"
  shows "rd_failed (sm_reducer s) = None"
  using assms(1)
proof (cases rule: emit_cases)
  case (refused encoded d v r)
  with refused_latches[OF refused(3)] assms(2) show ?thesis by simp
next
  case (emitted encoded d r)
  then show ?thesis by (cases "rd_failed (sm_reducer s)") (simp_all add: Reduce_def Let_def)
qed (use assms(2) in simp)

lemma emitter_unfailed_all:
  "emit_all es s = Some (outs, s') \<Longrightarrow> rd_failed (sm_reducer s') = None \<Longrightarrow> rd_failed (sm_reducer s) = None"
  by (induction es arbitrary: s outs) (auto split: option.splits dest: emitter_unfailed)

lemma consumer_follows:
  assumes "emitter_ok s" and "emit e s = Some (out, s')" and "with_frames None c = sm_reducer s"
    and "rd_failed (sm_reducer s') = None"
  shows "\<exists>c'. consume (emitted [out]) c = (None, c') \<and> with_frames None c' = sm_reducer s'"
  using assms(2)
proof (cases rule: emit_cases)
  case undecoded
  with assms(3) show ?thesis by simp
next
  case (refused encoded d v r)
  with refused_latches[OF refused(3)] assms(4) show ?thesis by simp
next
  case (emitted encoded d r)
  note d = judged_identity[OF emitted(2)]
  have c: "rd_negotiated c = rd_negotiated (sm_reducer s)" "rd_started c = rd_started (sm_reducer s)"
    "rd_state c = rd_state (sm_reducer s)" "rd_failed c = rd_failed (sm_reducer s)"
    using framed_fields[of None c] assms(3) by simp_all
  obtain c' where c': "Reduce d c = (None, c')" "with_frames None c' = r"
    using consumer_accepts[of d c r] emitted(3) assms(1,3) c d(1) by (auto simp: emitter_ok_def)
  have "rd_failed c = None" using emitter_unfailed[OF assms(2,4)] c by simp
  then have "ReduceSessionUpdate (Some (notification_of (envelope_of (sm_id s) (sm_sequence s + 1) encoded))) c = (None, c')"
    using emitted(2) c c' by (simp add: ReduceSessionUpdate_def)
  with emitted(4,5) c'(2) show ?thesis by simp
qed

lemma consume_append: "consume (xs @ ys) r = and_then (consume xs r) (consume ys)"
  by (induction xs arbitrary: r) (auto simp: and_then_def split: option.splits)

text \<open>C12: an emitter and its consumer agree.  As long as the emitter's own reducer has refused
  nothing, a fresh consumer that is handed the emitted envelopes in order refuses none of
  them and ends in the emitter's own projection and bookkeeping, frames apart.\<close>

theorem consumer_agrees:
  assumes "emit_all es (newStream i n) = Some (outs, s)" and "rd_failed (sm_reducer s) = None"
  shows "\<exists>c. consume (emitted outs) (NewReducer n) = (None, c) \<and> with_frames None c = sm_reducer s"
proof -
  have "emitter_ok t \<Longrightarrow> emit_all es t = Some (outs, s) \<Longrightarrow> with_frames None c = sm_reducer t \<Longrightarrow>
      \<exists>c'. consume (emitted outs) c = (None, c') \<and> with_frames None c' = sm_reducer s" for t c
  proof (induction es arbitrary: t c outs)
    case (Cons e es)
    then obtain out u rest where u: "emit e t = Some (out, u)" "emit_all es u = Some (rest, s)" "outs = out # rest"
      by (auto split: option.splits)
    obtain c1 where c1: "consume (emitted [out]) c = (None, c1)" "with_frames None c1 = sm_reducer u"
      using consumer_follows[OF Cons.prems(1) u(1) Cons.prems(3) emitter_unfailed_all[OF u(2) assms(2)]] by blast
    obtain c2 where "consume (emitted rest) c1 = (None, c2)" "with_frames None c2 = sm_reducer s"
      using Cons.IH[OF emitter_ok_emit[OF Cons.prems(1) u(1)] u(2) c1(2)] by blast
    moreover have "emitted outs = emitted [out] @ emitted rest" using u(3) by (cases out) simp_all
    ultimately show ?case using c1(1) by (simp add: consume_append)
  qed simp
  moreover have "with_frames None (NewReducer n) = sm_reducer (newStream i n)"
    by (simp add: newStream_def with_frames_def)
  ultimately show ?thesis using emitter_ok_new assms(1) by blast
qed

section \<open>A stream that opens and then refuses\<close>

text \<open>For a well-formed event only the reducer decides an emission.\<close>

definition judged :: "Event \<Rightarrow> u64 \<Rightarrow> stream \<Rightarrow> json \<Rightarrow> Delivery" where
  "judged e k s encoded = \<lparr>dl_StreamID = sm_id s, dl_Sequence = k, dl_Carrier = CarrierSessionInfo, dl_Event = e,
     dl_Frame = notification_frame (sm_id s) k encoded\<rparr>"

lemma emit_wire:
  assumes "event_wire e" and "Present (rd_negotiated (sm_reducer s))" and "wire_string (sm_id s)" and "sm_id s \<noteq> []"
    and "k = sm_sequence s + 1" and "k \<noteq> 0"
  shows "\<exists>encoded. emit e s = Some (case Reduce (judged e k s encoded) (sm_reducer s) of
      (Some v, r) \<Rightarrow> (Inl (Refused v), s\<lparr>sm_sequence := k, sm_reducer := r\<rparr>)
    | (None, r) \<Rightarrow> (Inr (envelope_of (sm_id s) k encoded), s\<lparr>sm_sequence := k, sm_reducer := r\<rparr>))"
proof -
  from rendered_decodes[OF assms(1-4,6)] obtain encoded where d: "encodeEvent e = Some encoded"
    "DecodeSessionUpdate (Some (notification_of (envelope_of (sm_id s) k encoded))) (rd_negotiated (sm_reducer s)) =
      Inr (judged e k s encoded)" by (auto simp: judged_def)
  obtain v r where "Reduce (judged e k s encoded) (sm_reducer s) = (v, r)" by fastforce
  with d assms(5) show ?thesis by (intro exI[of _ encoded]) (cases v; simp add: emit_def Let_def)
qed

definition sample_opened :: stream where
  "sample_opened = \<lparr>sm_id = ''s1'', sm_reducer = opened\<lparr>rd_frames := None, rd_negotiated := sample_negotiated\<rparr>,
     sm_sequence = 1\<rparr>"

lemma sample_identity: "wire_string ''s1''" "Present sample_negotiated"
  by (simp_all add: ascii_wire ascii_def IdentifierBound_def Present_def Version_def sample_negotiated_def)

lemma sample_emits:
  assumes "rd_negotiated (sm_reducer s) = sample_negotiated" and "sm_id s = ''s1''" and "k = sm_sequence s + 1" and "k \<noteq> 0"
  shows "\<exists>encoded. emit (snapshotEvent ''c0'') s = Some (case Reduce (judged (snapshotEvent ''c0'') k s encoded) (sm_reducer s) of
      (Some v, r) \<Rightarrow> (Inl (Refused v), s\<lparr>sm_sequence := k, sm_reducer := r\<rparr>)
    | (None, r) \<Rightarrow> (Inr (envelope_of (sm_id s) k encoded), s\<lparr>sm_sequence := k, sm_reducer := r\<rparr>))"
proof -
  have "event_wire (snapshotEvent ''c0'')"
    by (rule sample_wire) (simp_all add: ascii_wire ascii_def IdentifierBound_def)
  with assms sample_identity show ?thesis by (intro emit_wire) simp_all
qed

lemma sample_opens: "\<exists>outs. emit_all [snapshotEvent ''c0''] (newStream ''s1'' sample_negotiated) = Some (outs, sample_opened)"
proof -
  let ?s = "newStream ''s1'' sample_negotiated" and ?e = "snapshotEvent ''c0''"
  have r: "Reduce (judged ?e 1 ?s encoded) (sm_reducer ?s) = (None, sm_reducer sample_opened)" for encoded
    by (simp add: judged_def newStream_def snapshotEvent_def foreground_of_def no_event_def sample_opened_def
        opened_def stage_def reducer_steps)
  have "\<exists>out. emit ?e ?s = Some (out, ?s\<lparr>sm_sequence := 1, sm_reducer := sm_reducer sample_opened\<rparr>)"
    using sample_emits[of ?s 1] unfolding r by (auto simp: newStream_def NewReducer_def reset_def blank_reducer_def)
  then show ?thesis by (auto simp: newStream_def sample_opened_def)
qed

lemma sample_refuses: "\<exists>err s'. emit (snapshotEvent ''c0'') sample_opened = Some (Inl err, s')"
proof -
  let ?s = sample_opened and ?e = "snapshotEvent ''c0''"
  have r: "\<exists>v r. Reduce (judged ?e 2 ?s encoded) (sm_reducer ?s) = (Some v, r)" for encoded
    by (simp add: judged_def snapshotEvent_def foreground_of_def no_event_def sample_opened_def
        opened_def stage_def reducer_steps fail_def)
  from sample_emits[of ?s 2] obtain encoded where e: "emit ?e ?s = Some (case Reduce (judged ?e 2 ?s encoded) (sm_reducer ?s) of
      (Some v, r) \<Rightarrow> (Inl (Refused v), ?s\<lparr>sm_sequence := 2, sm_reducer := r\<rparr>)
    | (None, r) \<Rightarrow> (Inr (envelope_of (sm_id ?s) 2 encoded), ?s\<lparr>sm_sequence := 2, sm_reducer := r\<rparr>))"
    by (auto simp: sample_opened_def)
  from r[of encoded] obtain v r where "Reduce (judged ?e 2 ?s encoded) (sm_reducer ?s) = (Some v, r)" by blast
  with e show ?thesis by simp
qed

lemma sample_after: "\<exists>outs s'. emit_all [snapshotEvent ''c0''] s = Some (outs, s')"
proof -
  have "encodeEvent (snapshotEvent ''c0'') \<noteq> None" by (simp add: encodeEvent_def snapshotEvent_def no_event_def)
  then have "emit (snapshotEvent ''c0'') s \<noteq> None"
    by (auto simp: emit_def Let_def split: option.split sum.split prod.split)
  then show ?thesis by auto
qed

theorem refused_emission_ends_stream_witness:
  "\<exists>outs s err s' outs' s''. emit_all [snapshotEvent ''c0''] (newStream ''s1'' sample_negotiated) = Some (outs, s) \<and>
     emit (snapshotEvent ''c0'') s = Some (Inl err, s') \<and> emit_all [snapshotEvent ''c0''] s' = Some (outs', s'') \<and>
     Inr JNull \<notin> set outs'"
proof -
  obtain outs err s' outs' s'' where h: "emit_all [snapshotEvent ''c0''] (newStream ''s1'' sample_negotiated) = Some (outs, sample_opened)"
    "emit (snapshotEvent ''c0'') sample_opened = Some (Inl err, s')" "emit_all [snapshotEvent ''c0''] s' = Some (outs', s'')"
    using sample_opens sample_refuses sample_after by metis
  moreover have "rd_started (sm_reducer sample_opened)" by (simp add: sample_opened_def opened_def stage_def)
  ultimately have "Inr JNull \<notin> set outs'" using refused_emission_ends_stream[OF h(1) _ h(2,3)] by simp
  with h show ?thesis by blast
qed

theorem consumer_agrees_witness:
  "\<exists>outs c. emit_all [snapshotEvent ''c0''] (newStream ''s1'' sample_negotiated) = Some (outs, sample_opened) \<and>
     consume (emitted outs) (NewReducer sample_negotiated) = (None, c) \<and>
     s_Foreground (rd_state c) = Some (foreground_of ForegroundIdle ''c0'' [])"
proof -
  obtain outs where h: "emit_all [snapshotEvent ''c0''] (newStream ''s1'' sample_negotiated) = Some (outs, sample_opened)"
    using sample_opens by blast
  moreover have "rd_failed (sm_reducer sample_opened) = None" by (simp add: sample_opened_def opened_def stage_def)
  ultimately obtain c where c: "consume (emitted outs) (NewReducer sample_negotiated) = (None, c)"
    "with_frames None c = sm_reducer sample_opened" using consumer_agrees by blast
  from arg_cong[OF c(2), of rd_state] have "rd_state c = rd_state opened" by (simp add: sample_opened_def)
  with h c(1) show ?thesis by (auto simp: opened_def stage_def)
qed

end
