(* ===== verification/Negotiation.thy ===== *)
theory Negotiation
  imports Emit Complex_Main
begin

text \<open>
  lifecycle/negotiation.go, capability.go, wire_metadata.go and \<open>Negotiated.Advertisement\<close>: what
  a connection reads before any stream exists.  A Go \<open>any\<close> is the datatype \<open>go_any\<close>; a
  \<open>map[string]any\<close> is an association list with distinct names (nil and empty alike), and a raw
  message under one is the document it spells.  A value of another struct type is its type's name and
  its exported fields.
\<close>

section \<open>Go values\<close>

text \<open>A \<open>float64\<close> is known by the rational it denotes, or is one of the special values.\<close>

datatype float64 = Finite rat | Infinite bool | NaN

record ParamError =
  pe_Field :: string
  pe_Verdict :: string

datatype go_any =
    ANil
  | ABool bool
  | AString string
  | AFloat float64
  | AInt int
  | ANumber string
  | ASlice "go_any list"
  | AMap "(string \<times> go_any) list"
  | ARaw json
  | ARefusal ParamError
  | AUint u64
  | AStrings "string list"
  | AStringMap "(string \<times> string) list"
  | AStruct string "(string \<times> go_any) list"

type_synonym go_map = "(string \<times> go_any) list"

section \<open>Refusals\<close>

definition metaPath :: string where
  "metaPath = ''_meta['' @ [CHR 0x22] @ MetaKey @ [CHR 0x22] @ '']''"

definition VerdictUnsupported :: string where [vocab]: "VerdictUnsupported = ''unsupported''"
definition VerdictMissing :: string where [vocab]: "VerdictMissing = ''missing''"

definition ParamError_Error :: "ParamError \<Rightarrow> string" where
  "ParamError_Error e = pe_Verdict e @ '' '' @ pe_Field e"

definition paramError :: "string list \<Rightarrow> ParamError" where
  "paramError members =
     \<lparr>pe_Field = foldl (\<lambda>field member. field @ ''.'' @ member) metaPath members, pe_Verdict = VerdictUnsupported\<rparr>"

definition missingParamError :: ParamError where
  "missingParamError = \<lparr>pe_Field = metaPath, pe_Verdict = VerdictMissing\<rparr>"

definition RejectKey :: "go_map \<Rightarrow> ParamError option" where
  "RejectKey meta = (if map_of meta MetaKey = None then None else Some (paramError []))"

section \<open>Reading values\<close>

text \<open>\<open>math.MinInt\<close> and the first value past \<open>math.MaxInt\<close>, exact in a \<open>float64\<close>.\<close>

definition minIntFloat :: rat where "minIntFloat = - (2 ^ 63)"
definition overMaxIntFloat :: rat where "overMaxIntFloat = - minIntFloat"

fun float_integer :: "float64 \<Rightarrow> int option" where
  "float_integer (Finite v) =
     (if v \<noteq> of_int \<lfloor>v\<rfloor> \<or> v < minIntFloat \<or> v \<ge> overMaxIntFloat then None else Some \<lfloor>v\<rfloor>)"
| "float_integer (Infinite positive) = None"
| "float_integer NaN = None"

text \<open>The text of a raw message is a number's lexeme, or starts with no digit.\<close>

fun integerValue :: "go_any \<Rightarrow> int option" where
  "integerValue (AFloat v) = float_integer v"
| "integerValue (AInt v) = Some v"
| "integerValue (ARaw (JNum lexeme)) = parse_int lexeme"
| "integerValue (ARaw _) = None"
| "integerValue (ANumber lexeme) = parse_int lexeme"
| "integerValue _ = None"

definition integer_member :: "go_map \<Rightarrow> string \<Rightarrow> int option" where
  "integer_member obj key = (case map_of obj key of None \<Rightarrow> None | Some raw \<Rightarrow> integerValue raw)"

text \<open>Members in order; the second of two with one name is the refused one.\<close>

fun object_members :: "string list \<Rightarrow> go_map \<Rightarrow> members \<Rightarrow> ParamError + go_map" where
  "object_members path obj [] = Inr obj"
| "object_members path obj ((key, v) # rest) =
     (if map_of obj key \<noteq> None then Inl (paramError (path @ [key]))
      else object_members path (obj @ [(key, ARaw v)]) rest)"

definition negotiationObject :: "go_any option \<Rightarrow> string list \<Rightarrow> ParamError + go_map" where
  "negotiationObject raw path =
     (case raw of
        Some (ARefusal refusal) \<Rightarrow> Inl refusal
      | Some (AMap obj) \<Rightarrow> Inr obj
      | Some (ARaw (JObj n ms)) \<Rightarrow> object_members path [] ms
      | _ \<Rightarrow> Inl (paramError path))"

text \<open>Go visits the members of a map in an unspecified order; the model names the first
  unknown one.\<close>

definition unknown_member :: "go_map \<Rightarrow> string list \<Rightarrow> string option" where
  "unknown_member obj allowed = find (\<lambda>key. key \<notin> set allowed) (map fst obj)"

section \<open>The offer and the answer\<close>

definition DecodeOffer :: "go_map \<Rightarrow> bool \<times> ParamError option" where
  "DecodeOffer meta =
     (case map_of meta MetaKey of
        None \<Rightarrow> (False, None)
      | Some raw \<Rightarrow>
          (case negotiationObject (Some raw) [] of
             Inl refusal \<Rightarrow> (False, Some refusal)
           | Inr obj \<Rightarrow>
               (case unknown_member obj [fieldVersion] of
                  Some key \<Rightarrow> (False, Some (paramError [key]))
                | None \<Rightarrow>
                    if integer_member obj fieldVersion \<noteq> Some Version then (False, Some (paramError [fieldVersion]))
                    else (True, None))))"

definition Answer :: "Negotiated \<Rightarrow> Negotiated" where
  "Answer proven = proven\<lparr>ng_Version := Version\<rparr>"

definition Advertisement :: "Negotiated \<Rightarrow> members" where
  "Advertisement n =
     [(fieldVersion, JNum (show_int (ng_Version n))), (fieldUpdatesOutsidePrompt, JBool (ng_UpdatesOutsidePrompt n)),
      (fieldActivityKinds, JArr (map json_str (ng_ActivityKinds n)))]"

section \<open>The answer read back\<close>

datatype capability_error =
    NotAnObject
  | DuplicateField string
  | WrongVersion
  | UndecodableField string
  | UnknownCapabilityField string
  | MissingVersion

text \<open>An element of \<open>activityKinds\<close> decodes as a string does; one that is not a string spoils
  the whole member.\<close>

fun unmarshal_strings :: "json list \<Rightarrow> string list option" where
  "unmarshal_strings [] = Some []"
| "unmarshal_strings (x # xs) =
     (case unmarshal_string x of
        None \<Rightarrow> None
      | Some s \<Rightarrow> map_option ((#) s) (unmarshal_strings xs))"

definition capability_field :: "string \<Rightarrow> json \<Rightarrow> Negotiated \<Rightarrow> capability_error + Negotiated" where
  "capability_field field v decoded =
     (if field = fieldVersion then
        if v \<noteq> JNum ''1'' then Inl WrongVersion else Inr (decoded\<lparr>ng_Version := Version\<rparr>)
      else if field = fieldUpdatesOutsidePrompt then
        (case unmarshal_bool v of
           None \<Rightarrow> Inl (UndecodableField field)
         | Some b \<Rightarrow> Inr (decoded\<lparr>ng_UpdatesOutsidePrompt := b\<rparr>))
      else if field = fieldActivityKinds then
        (case Option.bind (unmarshal_array v) unmarshal_strings of
           None \<Rightarrow> Inl (UndecodableField field)
         | Some kinds \<Rightarrow> Inr (decoded\<lparr>ng_ActivityKinds := kinds\<rparr>))
      else Inl (UnknownCapabilityField field))"

fun capability_fields :: "string list \<Rightarrow> members \<Rightarrow> Negotiated \<Rightarrow> capability_error + (string list \<times> Negotiated)" where
  "capability_fields seen [] decoded = Inr (seen, decoded)"
| "capability_fields seen ((field, v) # rest) decoded =
     (if field \<in> set seen then Inl (DuplicateField field)
      else case capability_field field v decoded of
             Inl e \<Rightarrow> Inl e
           | Inr decoded \<Rightarrow> capability_fields (field # seen) rest decoded)"

definition Negotiated_UnmarshalJSON :: "json \<Rightarrow> capability_error + Negotiated" where
  "Negotiated_UnmarshalJSON data =
     (case data of
        JObj n ms \<Rightarrow>
          (case capability_fields [] ms \<lparr>ng_Version = 0, ng_UpdatesOutsidePrompt = False, ng_ActivityKinds = []\<rparr> of
             Inl e \<Rightarrow> Inl e
           | Inr (seen, decoded) \<Rightarrow> if fieldVersion \<notin> set seen then Inl MissingVersion else Inr decoded)
      | _ \<Rightarrow> Inl NotAnObject)"

section \<open>Prompt correlation\<close>

definition blank_submission :: Submission where
  "blank_submission = \<lparr>sb_SubmissionID = [], sb_ClientNonce = [], sb_RunID = []\<rparr>"

definition correlationIdentifier :: "go_map \<Rightarrow> string \<Rightarrow> bool \<Rightarrow> ParamError + string" where
  "correlationIdentifier obj key required =
     (case map_of obj key of
        None \<Rightarrow> if required then Inl (paramError [fieldSubmission, key]) else Inr []
      | Some raw \<Rightarrow>
          (let value = (case raw of AString s \<Rightarrow> Some s | ARaw encoded \<Rightarrow> unmarshal_string encoded | _ \<Rightarrow> None)
           in case value of
                None \<Rightarrow> Inl (paramError [fieldSubmission, key])
              | Some s \<Rightarrow> if s = [] \<or> length s > IdentifierBound then Inl (paramError [fieldSubmission, key]) else Inr s))"

definition decodeSubmission :: "go_any option \<Rightarrow> ParamError + Submission" where
  "decodeSubmission raw =
     (case negotiationObject raw [fieldSubmission] of
        Inl refusal \<Rightarrow> Inl refusal
      | Inr obj \<Rightarrow>
          (case unknown_member obj [fieldSubmissionID, fieldClientNonce, fieldRunID] of
             Some key \<Rightarrow> Inl (paramError [fieldSubmission, key])
           | None \<Rightarrow>
               (case correlationIdentifier obj fieldSubmissionID True of
                  Inl refusal \<Rightarrow> Inl refusal
                | Inr submissionID \<Rightarrow>
                    (case correlationIdentifier obj fieldClientNonce True of
                       Inl refusal \<Rightarrow> Inl refusal
                     | Inr clientNonce \<Rightarrow>
                         (case correlationIdentifier obj fieldRunID False of
                            Inl refusal \<Rightarrow> Inl refusal
                          | Inr runID \<Rightarrow> Inr \<lparr>sb_SubmissionID = submissionID, sb_ClientNonce = clientNonce,
                              sb_RunID = runID\<rparr>)))))"

definition checkCorrelationVersion :: "go_map \<Rightarrow> Negotiated \<Rightarrow> ParamError option" where
  "checkCorrelationVersion obj n =
     (case integer_member obj fieldVersion of
        None \<Rightarrow> Some (paramError [fieldVersion])
      | Some version \<Rightarrow> if SupportsVersion n version then None else Some (paramError [fieldVersion]))"

definition DecodePromptCorrelation :: "go_map \<Rightarrow> Negotiated \<Rightarrow> ParamError + Submission" where
  "DecodePromptCorrelation meta n =
     (case map_of meta MetaKey of
        None \<Rightarrow> if \<not> Present n then Inr blank_submission else Inl missingParamError
      | Some raw \<Rightarrow>
          if \<not> Present n then Inl (paramError [])
          else (case negotiationObject (Some raw) [] of
                  Inl refusal \<Rightarrow> Inl refusal
                | Inr obj \<Rightarrow>
                    (case unknown_member obj [fieldVersion, fieldSubmission] of
                       Some key \<Rightarrow> Inl (paramError [key])
                     | None \<Rightarrow>
                         (case checkCorrelationVersion obj n of
                            Some refusal \<Rightarrow> Inl refusal
                          | None \<Rightarrow> decodeSubmission (map_of obj fieldSubmission)))))"

section \<open>Correlating a callback\<close>

record actionCorrelation =
  ac_streamID :: string
  ac_actionID :: string
  ac_owner :: Owner

definition actionCorrelation_value :: "actionCorrelation \<Rightarrow> members" where
  "actionCorrelation_value c =
     [(fieldVersion, JNum (show_int Version)), (fieldStreamID, json_str (ac_streamID c)),
      (fieldAction, json_obj [(fieldActionID, json_str (ac_actionID c)),
         (fieldOwner, json_obj [(fieldType, json_str (ow_Type (ac_owner c))), (fieldID, json_str (ow_ID (ac_owner c)))])])]"

section \<open>Keeping the owned value of a request\<close>

text \<open>\<open>strings.EqualFold\<close> against a text without the letters k and s, which are the only ASCII
  letters that fold with a character outside ASCII.\<close>

definition ascii_lower :: "char \<Rightarrow> char" where
  "ascii_lower c = (if 65 \<le> (of_char c :: nat) \<and> (of_char c :: nat) \<le> 90 then char_of (of_char c + 32 :: nat) else c)"

definition EqualFold :: "string \<Rightarrow> string \<Rightarrow> bool" where
  "EqualFold s t \<longleftrightarrow> map ascii_lower s = map ascii_lower t"

definition visitWireObject :: "json \<Rightarrow> (string \<Rightarrow> json \<Rightarrow> 'a \<Rightarrow> 'a) \<Rightarrow> 'a \<Rightarrow> 'a" where
  "visitWireObject raw visit s = (case raw of JObj n ms \<Rightarrow> fold (\<lambda>(field, v). visit field v) ms s | _ \<Rightarrow> s)"

text \<open>How often the metadata member and the owned key occur, and the owned value seen last.\<close>

definition count_owned :: "json \<Rightarrow> nat \<times> nat \<times> json option \<Rightarrow> nat \<times> nat \<times> json option" where
  "count_owned params = visitWireObject params (\<lambda>field raw (metaCount, ownedCount, value).
     if \<not> EqualFold field metaField then (metaCount, ownedCount, value)
     else visitWireObject raw (\<lambda>field raw (metaCount, ownedCount, value).
            if field = MetaKey then (metaCount, ownedCount + 1, Some raw) else (metaCount, ownedCount, value))
          (metaCount + 1, ownedCount, value))"

definition RetainRequestMetadata :: "go_map \<Rightarrow> json \<Rightarrow> go_map" where
  "RetainRequestMetadata meta params =
     (case count_owned params (0, 0, None) of
        (metaCount, ownedCount, value) \<Rightarrow>
          if ownedCount = 0 then meta
          else if metaCount > 1 \<or> ownedCount > 1 then AList.update MetaKey (ARefusal (paramError [])) meta
          else AList.update MetaKey (ARaw (the value)) meta)"

end
