(* ===== verification/NegotiationProps.thy ===== *)
theory NegotiationProps
  imports Negotiation
begin

text \<open>
  What negotiation and correlation promise: an answer reads back as it was rendered, a prompt's
  correlation value is accepted exactly when it is well formed, and a request's owned value
  survives the decode of its request unless it is ambiguous.
\<close>

section \<open>The answer\<close>

lemma unmarshal_strings_rendered:
  "list_all valid_utf8 ss \<Longrightarrow> unmarshal_strings (map json_str ss) = Some ss"
  by (induction ss) (simp_all add: json_str_def coerce_utf8_valid)

text \<open>The members of an object decide each field on their own, in whatever order they come.\<close>

lemma capability_fields_accepted:
  assumes "capability_fields seen ms decoded = Inr (seen', n)"
  shows "set seen' = set seen \<union> fst ` set ms" and "distinct (map fst ms)"
proof -
  have "set seen' = set seen \<union> fst ` set ms \<and> distinct (map fst ms) \<and> set seen \<inter> fst ` set ms = {}"
    using assms
  proof (induction seen ms decoded rule: capability_fields.induct)
    case (2 seen field v rest decoded)
    then show ?case by (auto split: if_splits sum.splits)
  qed simp
  then show "set seen' = set seen \<union> fst ` set ms" "distinct (map fst ms)" by blast+
qed

lemma advertised_members:
  "sort_key fst (Advertisement n) =
     [(fieldActivityKinds, JArr (map json_str (ng_ActivityKinds n))),
      (fieldUpdatesOutsidePrompt, JBool (ng_UpdatesOutsidePrompt n)), (fieldVersion, JNum (show_int (ng_Version n)))]"
  by (simp add: Advertisement_def vocab)

text \<open>An answer reads back.  The capability answer a configuration advertises, marshalled
  into \<open>InitializeResponse._meta\<close>, is decoded to that very answer by the strict decoder of the
  other side.\<close>

theorem answer_round_trip:
  assumes "list_all valid_utf8 (ng_ActivityKinds n)"
  shows "Negotiated_UnmarshalJSON (json_obj (Advertisement (Answer n))) = Inr (Answer n)"
proof -
  have "show_int (ng_Version (Answer n)) = ''1''" by (simp add: Answer_def Version_def) code_simp
  moreover have "ng_ActivityKinds (Answer n) = ng_ActivityKinds n" by (simp add: Answer_def)
  ultimately show ?thesis
    using unmarshal_strings_rendered[OF assms]
    by (simp add: Negotiated_UnmarshalJSON_def json_obj_def advertised_members capability_field_def vocab
        Answer_def Let_def)
qed

definition sample_answer :: Negotiated where
  "sample_answer = \<lparr>ng_Version = 0, ng_UpdatesOutsidePrompt = True, ng_ActivityKinds = [ActivityTask]\<rparr>"

theorem answer_round_trip_witness:
  "Negotiated_UnmarshalJSON (json_obj (Advertisement (Answer sample_answer))) =
     Inr \<lparr>ng_Version = 1, ng_UpdatesOutsidePrompt = True, ng_ActivityKinds = [''task'']\<rparr>"
proof -
  have "list_all valid_utf8 (ng_ActivityKinds sample_answer)"
    by (simp add: sample_answer_def vocab ascii_valid_utf8 ascii_def)
  from answer_round_trip[OF this] show ?thesis by (simp add: Answer_def sample_answer_def Version_def vocab)
qed

section \<open>Prompt correlation\<close>

lemma object_members_result:
  "object_members path obj ms = Inr obj' \<longleftrightarrow>
     distinct (map fst ms) \<and> fst ` set obj \<inter> fst ` set ms = {} \<and> obj' = obj @ map (\<lambda>(k, v). (k, ARaw v)) ms"
proof (induction path obj ms rule: object_members.induct)
  case (2 path obj key v rest)
  have "map_of obj key = None \<longleftrightarrow> key \<notin> fst ` set obj" by (rule map_of_eq_None_iff)
  with 2 show ?case by auto
qed auto

lemma negotiation_raw:
  "negotiationObject (Some (ARaw j)) path = Inr obj \<longleftrightarrow>
     (\<exists>n ms. j = JObj n ms \<and> distinct (map fst ms) \<and> obj = map (\<lambda>(k, v). (k, ARaw v)) ms)"
  by (cases j) (simp_all add: negotiationObject_def object_members_result)

lemma map_of_raw: "map_of (map (\<lambda>(k, v). (k, ARaw v)) ms) key = map_option ARaw (map_of ms key)"
  by (induction ms) auto

lemma unknown_member_raw:
  "unknown_member (map (\<lambda>(k, v). (k, ARaw v)) ms) allowed = None \<longleftrightarrow> fst ` set ms \<subseteq> set allowed"
  by (auto simp: unknown_member_def find_None_iff)

text \<open>An opaque handle as it must be written: a string that is neither empty nor over the bound.\<close>

definition handle :: "json option \<Rightarrow> string \<Rightarrow> bool" where
  "handle j s \<longleftrightarrow> j = Some (JStr s) \<and> s \<noteq> [] \<and> length s \<le> IdentifierBound"

lemma identifier_accepts:
  "correlationIdentifier (map (\<lambda>(k, v). (k, ARaw v)) ms) key req = Inr s \<longleftrightarrow>
     handle (map_of ms key) s \<or> \<not> req \<and> map_of ms key = None \<and> s = []"
proof (cases "map_of ms key")
  case None
  then show ?thesis by (auto simp: correlationIdentifier_def map_of_raw handle_def)
next
  case (Some j)
  then show ?thesis by (cases j) (auto simp: correlationIdentifier_def map_of_raw handle_def Let_def)
qed

text \<open>The correlation value the contract prescribes.\<close>

definition correlates :: "members \<Rightarrow> Submission \<Rightarrow> bool" where
  "correlates ms sub \<longleftrightarrow> distinct (map fst ms) \<and> fst ` set ms \<subseteq> {fieldSubmissionID, fieldClientNonce, fieldRunID} \<and>
     handle (map_of ms fieldSubmissionID) (sb_SubmissionID sub) \<and> handle (map_of ms fieldClientNonce) (sb_ClientNonce sub) \<and>
     (handle (map_of ms fieldRunID) (sb_RunID sub) \<or> map_of ms fieldRunID = None \<and> sb_RunID sub = [])"

definition correlation_value :: "members \<Rightarrow> Submission \<Rightarrow> bool" where
  "correlation_value ms sub \<longleftrightarrow> distinct (map fst ms) \<and> fst ` set ms \<subseteq> {fieldVersion, fieldSubmission} \<and>
     (\<exists>lexeme. map_of ms fieldVersion = Some (JNum lexeme) \<and> parse_int lexeme = Some Version) \<and>
     (\<exists>k ss. map_of ms fieldSubmission = Some (JObj k ss) \<and> correlates ss sub)"

lemma decodeSubmission_accepts:
  "decodeSubmission (Some (ARaw j)) = Inr sub \<longleftrightarrow> (\<exists>n ms. j = JObj n ms \<and> correlates ms sub)"
proof (cases "negotiationObject (Some (ARaw j)) [fieldSubmission]")
  case (Inl e)
  have "\<nexists>n ms. j = JObj n ms \<and> distinct (map fst ms)"
    using Inl negotiation_raw[of j "[fieldSubmission]"] by auto
  with Inl show ?thesis by (auto simp: decodeSubmission_def correlates_def)
next
  case (Inr obj)
  then obtain n ms where j: "j = JObj n ms" "distinct (map fst ms)" "obj = map (\<lambda>(k, v). (k, ARaw v)) ms"
    by (auto simp: negotiation_raw)
  show ?thesis
  proof (cases "unknown_member obj [fieldSubmissionID, fieldClientNonce, fieldRunID]")
    case (Some key)
    then have "\<not> fst ` set ms \<subseteq> {fieldSubmissionID, fieldClientNonce, fieldRunID}"
      using unknown_member_raw[of ms "[fieldSubmissionID, fieldClientNonce, fieldRunID]"] j(3) by simp
    with Inr Some j(1) show ?thesis by (auto simp: decodeSubmission_def correlates_def)
  next
    case None
    then have known: "fst ` set ms \<subseteq> {fieldSubmissionID, fieldClientNonce, fieldRunID}"
      using unknown_member_raw[of ms "[fieldSubmissionID, fieldClientNonce, fieldRunID]"] j(3) by simp
    have "decodeSubmission (Some (ARaw j)) = Inr sub \<longleftrightarrow>
        correlationIdentifier obj fieldSubmissionID True = Inr (sb_SubmissionID sub) \<and>
        correlationIdentifier obj fieldClientNonce True = Inr (sb_ClientNonce sub) \<and>
        correlationIdentifier obj fieldRunID False = Inr (sb_RunID sub)"
      using Inr None by (cases sub) (auto simp: decodeSubmission_def split: sum.split)
    with j known show ?thesis by (simp add: identifier_accepts correlates_def)
  qed
qed

text \<open>C13: a prompt is correlated strictly.  On a negotiated connection a correlation value
  taken from the wire is accepted exactly when it is an object without duplicate or unknown
  members, names the negotiated version, and carries a submission whose handles are present
  (the run alone may be absent), never empty and within the bound; the submission is then the
  one it states.\<close>

theorem prompt_correlation_strict:
  assumes "Present n" and "map_of meta MetaKey = Some (ARaw j)"
  shows "DecodePromptCorrelation meta n = Inr sub \<longleftrightarrow> (\<exists>k ms. j = JObj k ms \<and> correlation_value ms sub)"
proof (cases "negotiationObject (Some (ARaw j)) []")
  case (Inl e)
  then have "\<nexists>k ms. j = JObj k ms \<and> distinct (map fst ms)" using negotiation_raw[of j "[]"] by auto
  with assms Inl show ?thesis by (auto simp: DecodePromptCorrelation_def correlation_value_def)
next
  case (Inr obj)
  then obtain k ms where j: "j = JObj k ms" "distinct (map fst ms)" "obj = map (\<lambda>(k, v). (k, ARaw v)) ms"
    by (auto simp: negotiation_raw)
  have known: "unknown_member obj [fieldVersion, fieldSubmission] = None \<longleftrightarrow> fst ` set ms \<subseteq> {fieldVersion, fieldSubmission}"
    using unknown_member_raw[of ms "[fieldVersion, fieldSubmission]"] j(3) by simp
  have "integer_member obj fieldVersion = (case map_of ms fieldVersion of Some (JNum l) \<Rightarrow> parse_int l | _ \<Rightarrow> None)"
    by (simp add: integer_member_def j(3) map_of_raw split: option.split json.split)
  then have version: "checkCorrelationVersion obj n = None \<longleftrightarrow>
      (\<exists>lexeme. map_of ms fieldVersion = Some (JNum lexeme) \<and> parse_int lexeme = Some Version)"
    using assms(1) by (auto simp: checkCorrelationVersion_def SupportsVersion_def Present_def
        split: option.split json.split)
  have "decodeSubmission (map_of obj fieldSubmission) = Inr sub \<longleftrightarrow>
      (\<exists>k ss. map_of ms fieldSubmission = Some (JObj k ss) \<and> correlates ss sub)"
  proof (cases "map_of ms fieldSubmission")
    case None
    then show ?thesis by (simp add: j(3) map_of_raw decodeSubmission_def negotiationObject_def)
  next
    case (Some v)
    then show ?thesis using decodeSubmission_accepts[of v sub] by (simp add: j(3) map_of_raw)
  qed
  moreover have "DecodePromptCorrelation meta n = Inr sub \<longleftrightarrow>
      unknown_member obj [fieldVersion, fieldSubmission] = None \<and> checkCorrelationVersion obj n = None \<and>
      decodeSubmission (map_of obj fieldSubmission) = Inr sub"
    using assms Inr by (simp add: DecodePromptCorrelation_def split: option.split)
  ultimately show ?thesis using known version j by (simp add: correlation_value_def)
qed

definition sample_value :: members where
  "sample_value = [(fieldSubmission, JObj (60, 60) [(fieldClientNonce, JStr ''n1''), (fieldSubmissionID, JStr ''p1'')]),
     (fieldVersion, JNum ''1'')]"

lemma parse_one: "parse_int ''1'' = Some 1"
  by code_simp

theorem prompt_correlation_strict_witness:
  "DecodePromptCorrelation [(MetaKey, ARaw (JObj (99, 99) sample_value))] (sample_answer\<lparr>ng_Version := 1\<rparr>) =
     Inr \<lparr>sb_SubmissionID = ''p1'', sb_ClientNonce = ''n1'', sb_RunID = []\<rparr>"
proof -
  have "Present (sample_answer\<lparr>ng_Version := 1\<rparr>)" by (simp add: Present_def Version_def)
  moreover have "map_of [(MetaKey, ARaw (JObj (99, 99) sample_value))] MetaKey = Some (ARaw (JObj (99, 99) sample_value))" by simp
  moreover have "correlation_value sample_value \<lparr>sb_SubmissionID = ''p1'', sb_ClientNonce = ''n1'', sb_RunID = []\<rparr>"
    by (simp add: correlation_value_def sample_value_def correlates_def handle_def IdentifierBound_def parse_one
        Version_def vocab)
  ultimately show ?thesis using prompt_correlation_strict by blast
qed

section \<open>The owned value of a request\<close>

text \<open>The values of the metadata members, and the values under the owned key in them.\<close>

definition metadata :: "json \<Rightarrow> json list" where
  "metadata params = (case params of
     JObj n ms \<Rightarrow> map snd (filter (\<lambda>(field, v). EqualFold field metaField) ms) | _ \<Rightarrow> [])"

definition owned_in :: "json \<Rightarrow> json list" where
  "owned_in raw = (case raw of JObj n ms \<Rightarrow> map snd (filter (\<lambda>(field, v). field = MetaKey) ms) | _ \<Rightarrow> [])"

definition owned_values :: "json \<Rightarrow> json list" where
  "owned_values params = concat (map owned_in (metadata params))"

definition last_value :: "json option \<Rightarrow> json list \<Rightarrow> json option" where
  "last_value v vs = (if vs = [] then v else Some (last vs))"

lemma count_inner:
  "visitWireObject raw (\<lambda>field raw (metaCount, ownedCount, value).
      if field = MetaKey then (metaCount, ownedCount + 1, Some raw) else (metaCount, ownedCount, value)) (a, b, v) =
   (a, b + length (owned_in raw), last_value v (owned_in raw))"
proof (cases raw)
  case (JObj n ms)
  have "fold (\<lambda>(field, raw) (metaCount, ownedCount, value).
      if field = MetaKey then (metaCount, ownedCount + 1, Some raw) else (metaCount, ownedCount, value)) ms (a, b, v) =
     (a, b + length (filter (\<lambda>(field, v). field = MetaKey) ms), last_value v (map snd (filter (\<lambda>(field, v). field = MetaKey) ms)))"
    by (induction ms arbitrary: b v) (auto simp: last_value_def)
  with JObj show ?thesis by (simp add: visitWireObject_def owned_in_def case_prod_unfold)
qed (simp_all add: visitWireObject_def owned_in_def last_value_def)

lemma last_value_append: "last_value (last_value v xs) ys = last_value v (xs @ ys)"
  by (simp add: last_value_def)

lemma count_owned_result:
  "count_owned params (0, 0, None) =
     (length (metadata params), length (owned_values params), last_value None (owned_values params))"
proof (cases params)
  case (JObj n ms)
  let ?vs = "\<lambda>ms. map snd (filter (\<lambda>(field, v). EqualFold field metaField) ms)"
  have "fold (\<lambda>(field, raw) (metaCount, ownedCount, value).
     if \<not> EqualFold field metaField then (metaCount, ownedCount, value)
     else (metaCount + 1, ownedCount + length (owned_in raw), last_value value (owned_in raw))) ms (a, b, v) =
     (a + length (?vs ms), b + length (concat (map owned_in (?vs ms))), last_value v (concat (map owned_in (?vs ms))))" for a b v
    by (induction ms arbitrary: a b v) (auto simp: last_value_append, simp add: last_value_def)
  note folded = this[of 0 0 None]
  have outer: "visitWireObject params visit s = fold (\<lambda>(field, v). visit field v) ms s" for visit and s :: "nat \<times> nat \<times> json option"
    by (simp add: visitWireObject_def JObj)
  have "count_owned params (0, 0, None) = (length (?vs ms), length (concat (map owned_in (?vs ms))),
      last_value None (concat (map owned_in (?vs ms))))"
    unfolding count_owned_def outer count_inner folded by simp
  then show ?thesis by (simp add: metadata_def owned_values_def JObj)
qed (simp_all add: count_owned_def visitWireObject_def owned_values_def metadata_def last_value_def)

text \<open>a request keeps its owned value, unless it is ambiguous.  After the request decode
  every foreign key reads as before; the owned key reads as before when the request carried
  none, as the one value the request carried when there was exactly one under exactly one
  metadata member (compared without case), and as a refusal otherwise.\<close>

theorem owned_value_retained:
  "map_of (RetainRequestMetadata meta params) key =
     (if key = MetaKey then
        if owned_values params = [] then map_of meta key
        else if length (metadata params) > 1 \<or> length (owned_values params) > 1 then Some (ARefusal (paramError []))
        else Some (ARaw (hd (owned_values params)))
      else map_of meta key)"
proof (cases "owned_values params")
  case Nil
  then show ?thesis by (simp add: RetainRequestMetadata_def count_owned_result)
next
  case (Cons v vs)
  then show ?thesis
    by (auto simp: RetainRequestMetadata_def count_owned_result last_value_def update_conv' fun_upd_def)
qed

text \<open>an ambiguous owned value is refused where it is read.  When a request names the owned
  key more than once, in one metadata member or across several, neither an offer nor a prompt
  correlation is read from it, whatever the decoded metadata held.\<close>

theorem ambiguous_metadata_refused:
  assumes "owned_values params \<noteq> []" and "length (metadata params) > 1 \<or> length (owned_values params) > 1"
  shows "DecodeOffer (RetainRequestMetadata meta params) = (False, Some (paramError [])) \<and>
    DecodePromptCorrelation (RetainRequestMetadata meta params) n = Inl (paramError [])"
proof -
  have "map_of (RetainRequestMetadata meta params) MetaKey = Some (ARefusal (paramError []))"
    using assms
    by (auto simp: RetainRequestMetadata_def count_owned_result update_conv')
  then show ?thesis by (simp add: DecodeOffer_def DecodePromptCorrelation_def negotiationObject_def)
qed

definition twice_named :: json where
  "twice_named = JObj (60, 60) [(''_meta'', JObj (20, 20) [(MetaKey, JNull)]), (''_META'', JObj (20, 20) [(MetaKey, JNull)])]"

theorem ambiguous_metadata_refused_witness:
  "DecodeOffer (RetainRequestMetadata [(MetaKey, AMap [(fieldVersion, AInt 1)])] twice_named) =
     (False, Some (paramError []))"
proof -
  have "EqualFold ''_meta'' metaField" "EqualFold ''_META'' metaField"
    unfolding EqualFold_def metaField_def by code_simp+
  then have "owned_values twice_named = [JNull, JNull]" "length (metadata twice_named) = 2"
    by (simp_all add: owned_values_def metadata_def twice_named_def owned_in_def)
  with ambiguous_metadata_refused[of twice_named] show ?thesis by simp
qed

text \<open>The decoder of a capability answer leaves the activity kinds unchecked, and takes null for none.\<close>

lemma capability_kinds_unchecked:
  "Negotiated_UnmarshalJSON (JObj (0, 0) [(fieldVersion, JNum ''1''), (fieldActivityKinds, JNull)]) =
     Inr \<lparr>ng_Version = 1, ng_UpdatesOutsidePrompt = False, ng_ActivityKinds = []\<rparr>"
  "Negotiated_UnmarshalJSON (JObj (0, 0) [(fieldVersion, JNum ''1''), (fieldActivityKinds, JArr [JStr ''other'', JStr ''other''])]) =
     Inr \<lparr>ng_Version = 1, ng_UpdatesOutsidePrompt = False, ng_ActivityKinds = [''other'', ''other'']\<rparr>"
  by code_simp+

end
