(* ===== verification/Attribution.thy ===== *)
theory Attribution
  imports Negotiation EmitProps
begin

text \<open>
  lifecycle/attribution.go: the check that every content update of a session belongs to the
  running foreground.  The check runs a reducer over the notifications; what it reports is the
  index of the notification at fault and the reason.
\<close>

definition updateAgentMessageChunk :: string where [vocab]: "updateAgentMessageChunk = ''agent_message_chunk''"
definition updateAgentThoughtChunk :: string where [vocab]: "updateAgentThoughtChunk = ''agent_thought_chunk''"
definition updateUserMessageChunk :: string where [vocab]: "updateUserMessageChunk = ''user_message_chunk''"
definition updateToolCall :: string where [vocab]: "updateToolCall = ''tool_call''"
definition updateToolCallUpdate :: string where [vocab]: "updateToolCallUpdate = ''tool_call_update''"
definition updatePlan :: string where [vocab]: "updatePlan = ''plan''"
definition updateUsage :: string where [vocab]: "updateUsage = ''usage_update''"

definition contentUpdates :: "string list" where
  "contentUpdates = [updateAgentMessageChunk, updateAgentThoughtChunk, updateUserMessageChunk, updateToolCall,
     updateToolCallUpdate, updatePlan, updateUsage]"

definition reservedPrefix :: string where [vocab]: "reservedPrefix = ''acp-go.dev/''"
definition vendorHintFields :: "string list" where "vendorHintFields = [''turnId'', ''messageId'']"

text \<open>The content variant a notification carries, when it carries one.\<close>

definition contentUpdate :: "json option \<Rightarrow> string option" where
  "contentUpdate params =
     (case jsonObject params of
        None \<Rightarrow> None
      | Some notification \<Rightarrow>
          (case jsonObject (lookup notification updateField) of
             None \<Rightarrow> None
           | Some update \<Rightarrow>
               (case jsonString (lookup update sessionUpdateField) of
                  None \<Rightarrow> None
                | Some kind \<Rightarrow> if kind \<in> set contentUpdates then Some kind else None)))"

text \<open>The hint a vendor namespace carries.  Go visits the namespaces in an unspecified order;
  the model reports the first in document order, and the last of two members with one name is
  the one read.\<close>

definition vendor_hint :: "members \<Rightarrow> string \<Rightarrow> string option" where
  "vendor_hint meta namespace =
     (if take (length reservedPrefix) namespace = reservedPrefix then None
      else case jsonObject (lookup meta namespace) of
             None \<Rightarrow> None
           | Some obj \<Rightarrow> find (\<lambda>field. lookup obj field \<noteq> None) vendorHintFields)"

definition checkVendorHints :: "json option \<Rightarrow> (string \<times> string) option" where
  "checkVendorHints params =
     (case jsonObject params of
        None \<Rightarrow> None
      | Some notification \<Rightarrow>
          (case jsonObject (lookup notification metaField) of
             None \<Rightarrow> None
           | Some meta \<Rightarrow>
               (case List.map_filter (\<lambda>namespace. map_option (Pair namespace) (vendor_hint meta namespace)) (map fst meta) of
                  [] \<Rightarrow> None
                | hint # _ \<Rightarrow> Some hint)))"

datatype attribution_fault =
    VendorHint string string
  | RefusedEnvelope decode_error
  | NoLiveForeground string

text \<open>One turn of the loop: the fault it reports, or the reducer it goes on with.\<close>

definition attribute :: "json option \<Rightarrow> Reducer \<Rightarrow> attribution_fault option \<times> Reducer" where
  "attribute params r =
     (case checkVendorHints params of
        Some (namespace, field) \<Rightarrow> (Some (VendorHint namespace field), r)
      | None \<Rightarrow>
          (case ReduceSessionUpdate params r of
             (None, r) \<Rightarrow> (None, r)
           | (Some (Refused v), r) \<Rightarrow> (Some (RefusedEnvelope (Refused v)), r)
           | (Some ErrNoEnvelope, r) \<Rightarrow>
               (case contentUpdate params of
                  None \<Rightarrow> (None, r)
                | Some kind \<Rightarrow>
                    (case s_Foreground (rd_state r) of
                       None \<Rightarrow> (Some (NoLiveForeground kind), r)
                     | Some f \<Rightarrow> if fg_State f = ForegroundIdle then (Some (NoLiveForeground kind), r) else (None, r)))))"

fun check_from :: "nat \<Rightarrow> json option list \<Rightarrow> Reducer \<Rightarrow> (nat \<times> attribution_fault) option" where
  "check_from index [] r = None"
| "check_from index (params # rest) r =
     (case attribute params r of
        (Some fault, r) \<Rightarrow> Some (index, fault)
      | (None, r) \<Rightarrow> check_from (index + 1) rest r)"

definition CheckAttribution :: "Negotiated \<Rightarrow> json option list \<Rightarrow> (nat \<times> attribution_fault) option" where
  "CheckAttribution n notifications = check_from 0 notifications (NewReducer n)"

section \<open>What the check means\<close>

text \<open>The projection a host holds before a notification: the envelopes before it, reduced.\<close>

definition reduced :: "Negotiated \<Rightarrow> json option list \<Rightarrow> Reducer" where
  "reduced n notifications = fold (\<lambda>params r. snd (ReduceSessionUpdate params r)) notifications (NewReducer n)"

text \<open>What a notification says, as a relation on its document: the hint a namespace under \<open>_meta\<close> names,
  and the variant of the turn content it carries.\<close>

definition hints :: "json option \<Rightarrow> string \<Rightarrow> string \<Rightarrow> bool" where
  "hints params namespace field \<longleftrightarrow>
     (\<exists>i j k ms meta members. params = Some (JObj i ms) \<and> lookup ms ''_meta'' = Some (JObj j meta) \<and>
        lookup meta namespace = Some (JObj k members) \<and> (\<forall>own. namespace \<noteq> ''acp-go.dev/'' @ own) \<and>
        field \<in> {''turnId'', ''messageId''} \<and> lookup members field \<noteq> None)"

definition turn_content :: "json option \<Rightarrow> string \<Rightarrow> bool" where
  "turn_content params kind \<longleftrightarrow>
     (\<exists>i j ms update. params = Some (JObj i ms) \<and> lookup ms ''update'' = Some (JObj j update) \<and>
        lookup update ''sessionUpdate'' = Some (JStr kind) \<and>
        kind \<in> {''agent_message_chunk'', ''agent_thought_chunk'', ''user_message_chunk'', ''tool_call'', ''tool_call_update'', ''plan'',
          ''usage_update''})"

definition live :: "Reducer \<Rightarrow> bool" where
  "live r \<longleftrightarrow> (\<exists>f. s_Foreground (rd_state r) = Some f \<and> fg_State f \<noteq> ''idle'')"

text \<open>When a notification is at fault against a projection, and for what: a hint first, then an
  envelope the reducer refuses, then content without an envelope and without a live foreground.\<close>

fun at_fault :: "attribution_fault \<Rightarrow> json option \<Rightarrow> Reducer \<Rightarrow> bool" where
  "at_fault (VendorHint namespace field) params r \<longleftrightarrow> hints params namespace field"
| "at_fault (RefusedEnvelope e) params r \<longleftrightarrow>
     (\<forall>namespace field. \<not> hints params namespace field) \<and> e \<noteq> ErrNoEnvelope \<and> fst (ReduceSessionUpdate params r) = Some e"
| "at_fault (NoLiveForeground kind) params r \<longleftrightarrow>
     (\<forall>namespace field. \<not> hints params namespace field) \<and> fst (ReduceSessionUpdate params r) = Some ErrNoEnvelope \<and>
     turn_content params kind \<and> \<not> live r"

lemma jsonObject_Some: "jsonObject j = Some ms \<longleftrightarrow> (\<exists>n. j = Some (JObj n ms))"
  by (auto simp: jsonObject_def split: option.splits json.splits)

lemma jsonString_Some: "s \<noteq> [] \<Longrightarrow> jsonString j = Some s \<longleftrightarrow> j = Some (JStr s)"
  by (cases j; simp add: jsonString_def; rename_tac v; case_tac v) auto

lemma jsonString_JStr [simp]: "jsonString (Some (JStr s)) = Some s"
  by (simp add: jsonString_def)

lemma reserved: "take (length reservedPrefix) namespace = reservedPrefix \<longleftrightarrow> (\<exists>own. namespace = ''acp-go.dev/'' @ own)"
  unfolding reservedPrefix_def by (metis append_eq_conv_conj)

lemma namespace_hint:
  "(\<exists>field. vendor_hint meta namespace = Some field) \<longleftrightarrow>
     (\<forall>own. namespace \<noteq> ''acp-go.dev/'' @ own) \<and> (\<exists>k members. lookup meta namespace = Some (JObj k members) \<and>
        (\<exists>field \<in> {''turnId'', ''messageId''}. lookup members field \<noteq> None))"
proof -
  have "(\<exists>k members. lookup meta namespace = Some (JObj k members) \<and> P members) \<longleftrightarrow>
      (\<exists>members. jsonObject (lookup meta namespace) = Some members \<and> P members)" for P
    unfolding jsonObject_Some by blast
  then show ?thesis
    unfolding vendor_hint_def reserved vendorHintFields_def by (cases "jsonObject (lookup meta namespace)") auto
qed

lemma hinted_member:
  "vendor_hint meta namespace = Some field \<Longrightarrow> lookup meta namespace = Some (JObj k members) \<Longrightarrow>
     field \<in> {''turnId'', ''messageId''} \<and> lookup members field \<noteq> None"
  by (auto simp: vendor_hint_def vendorHintFields_def jsonObject_def split: if_splits)

lemma lookup_named: "lookup ms k = Some v \<Longrightarrow> k \<in> fst ` set ms"
  by (induction ms) (auto simp: lookup_Cons split: option.splits if_splits)

lemma map_filter_hit: "List.map_filter f xs = y # ys \<Longrightarrow> \<exists>x \<in> set xs. f x = Some y"
  by (induction xs) (auto split: option.splits)

lemma checked_hint:
  assumes "checkVendorHints params = Some (namespace, field)"
  shows "hints params namespace field"
proof -
  let ?hint = "\<lambda>meta ns. map_option (Pair ns) (vendor_hint meta ns)"
  obtain ms where ms: "jsonObject params = Some ms" using assms by (cases "jsonObject params") (simp_all add: checkVendorHints_def)
  obtain meta where meta: "jsonObject (lookup ms metaField) = Some meta"
    using assms ms by (cases "jsonObject (lookup ms metaField)") (simp_all add: checkVendorHints_def)
  have "(case List.map_filter (?hint meta) (map fst meta) of [] \<Rightarrow> None | hint # _ \<Rightarrow> Some hint) = Some (namespace, field)"
    using assms ms meta by (simp add: checkVendorHints_def)
  then obtain rest where "List.map_filter (?hint meta) (map fst meta) = (namespace, field) # rest"
    by (cases "List.map_filter (?hint meta) (map fst meta)") auto
  from map_filter_hit[OF this] have h: "vendor_hint meta namespace = Some field" by auto
  obtain i j where ij: "params = Some (JObj i ms)" "lookup ms ''_meta'' = Some (JObj j meta)"
    using ms meta unfolding jsonObject_Some metaField_def by blast
  have own: "\<forall>own. namespace \<noteq> ''acp-go.dev/'' @ own" using iffD1[OF namespace_hint exI, OF h] by (rule conjunct1)
  obtain k members where member: "lookup meta namespace = Some (JObj k members)"
    using iffD1[OF namespace_hint exI, OF h] by (elim conjE exE)
  show ?thesis unfolding hints_def
    by (intro exI conjI) (rule ij member own hinted_member[OF h member, THEN conjunct1] hinted_member[OF h member, THEN conjunct2])+
qed

lemma unchecked_hint:
  assumes "checkVendorHints params = None"
  shows "\<not> hints params namespace field"
proof
  assume "hints params namespace field"
  then obtain i j k ms meta members where h: "params = Some (JObj i ms)" "lookup ms ''_meta'' = Some (JObj j meta)"
    "lookup meta namespace = Some (JObj k members)" "\<forall>own. namespace \<noteq> ''acp-go.dev/'' @ own"
    "field \<in> {''turnId'', ''messageId''}" "lookup members field \<noteq> None"
    unfolding hints_def by blast
  then obtain f where f: "vendor_hint meta namespace = Some f" using namespace_hint[of meta namespace] by blast
  from assms h(1,2) have "List.map_filter (\<lambda>ns. map_option (Pair ns) (vendor_hint meta ns)) (map fst meta) = []"
    by (simp add: checkVendorHints_def jsonObject_def metaField_def split: list.splits)
  then have "map_option (Pair namespace) (vendor_hint meta namespace) = None"
    using lookup_named[OF h(3)] by (auto simp: map_filter_def filter_empty_conv)
  with f show False by simp
qed

lemma content_of_update: "contentUpdate params = Some kind \<longleftrightarrow> turn_content params kind"
proof -
  have content: "kind \<in> set contentUpdates \<longleftrightarrow> kind \<in> {''agent_message_chunk'', ''agent_thought_chunk'', ''user_message_chunk'',
      ''tool_call'', ''tool_call_update'', ''plan'', ''usage_update''}"
    by (simp add: contentUpdates_def vocab)
  then have "kind \<in> set contentUpdates \<Longrightarrow> kind \<noteq> []" by auto
  then have string: "kind \<in> set contentUpdates \<Longrightarrow> jsonString j = Some kind \<longleftrightarrow> j = Some (JStr kind)" for j
    by (rule jsonString_Some)
  have "contentUpdate params = Some kind \<longleftrightarrow>
      (\<exists>ms update. jsonObject params = Some ms \<and> jsonObject (lookup ms updateField) = Some update \<and>
         lookup update sessionUpdateField = Some (JStr kind) \<and> kind \<in> set contentUpdates)"
  proof (cases "jsonObject params")
    case None
    then show ?thesis by (simp add: contentUpdate_def)
  next
    case ms: (Some ms)
    show ?thesis
    proof (cases "jsonObject (lookup ms updateField)")
      case None
      with ms show ?thesis by (simp add: contentUpdate_def)
    next
      case (Some update)
      have "contentUpdate params = Some kind \<longleftrightarrow> jsonString (lookup update sessionUpdateField) = Some kind \<and> kind \<in> set contentUpdates"
        using ms Some by (cases "jsonString (lookup update sessionUpdateField)") (auto simp: contentUpdate_def)
      then show ?thesis using ms Some string by auto
    qed
  qed
  then show ?thesis unfolding turn_content_def content[symmetric] jsonObject_Some updateField_def sessionUpdateField_def by blast
qed

lemma no_envelope_keeps: "ReduceSessionUpdate params r = (Some ErrNoEnvelope, r') \<Longrightarrow> r' = r"
  by (auto simp: ReduceSessionUpdate_def split: option.splits sum.splits decode_error.splits prod.splits)

lemma attribute_judges:
  "case attribute params r of
     (None, r') \<Rightarrow> r' = snd (ReduceSessionUpdate params r) \<and> (\<forall>fault. \<not> at_fault fault params r)
   | (Some fault, r') \<Rightarrow> at_fault fault params r"
proof (cases "checkVendorHints params")
  case (Some hint)
  then show ?thesis using checked_hint by (cases hint) (auto simp: attribute_def)
next
  case None
  note no = unchecked_hint[OF None]
  obtain e r' where r: "ReduceSessionUpdate params r = (e, r')" by fastforce
  have fault: "at_fault fault params r \<Longrightarrow> fst (ReduceSessionUpdate params r) \<noteq> None \<and>
      (fst (ReduceSessionUpdate params r) = Some ErrNoEnvelope \<longrightarrow> \<not> live r \<and> (\<exists>kind. turn_content params kind))" for fault
    using no by (cases fault) auto
  show ?thesis
  proof (cases e)
    case None
    then show ?thesis using r fault \<open>checkVendorHints params = None\<close> by (auto simp: attribute_def)
  next
    case (Some err)
    show ?thesis
    proof (cases err)
      case (Refused v)
      then show ?thesis using r Some no \<open>checkVendorHints params = None\<close> by (simp add: attribute_def)
    next
      case ErrNoEnvelope
      have r: "ReduceSessionUpdate params r = (Some ErrNoEnvelope, r)" using no_envelope_keeps r Some ErrNoEnvelope by simp
      show ?thesis
      proof (cases "contentUpdate params")
        case None
        then have "\<not> turn_content params kind" for kind using content_of_update[of params kind] by simp
        with None r fault \<open>checkVendorHints params = None\<close> show ?thesis by (auto simp: attribute_def)
      next
        case (Some kind)
        then have "turn_content params kind" by (simp add: content_of_update)
        with Some r no fault \<open>checkVendorHints params = None\<close> show ?thesis
          by (cases "live r"; cases "s_Foreground (rd_state r)") (auto simp: attribute_def live_def ForegroundIdle_def)
      qed
    qed
  qed
qed

text \<open>A session is judged from its first notification on.\<close>

definition judged :: "(nat \<times> attribution_fault) option \<Rightarrow> nat \<Rightarrow> json option list \<Rightarrow> Reducer \<Rightarrow> bool" where
  "judged answer start ns r \<longleftrightarrow>
     (let before = (\<lambda>i. fold (\<lambda>params r. snd (ReduceSessionUpdate params r)) (take i ns) r)
      in case answer of
           None \<Rightarrow> \<forall>i < length ns. \<forall>fault. \<not> at_fault fault (ns ! i) (before i)
         | Some (pos, fault) \<Rightarrow> start \<le> pos \<and> pos - start < length ns \<and> at_fault fault (ns ! (pos - start)) (before (pos - start)) \<and>
             (\<forall>i < pos - start. \<forall>fault. \<not> at_fault fault (ns ! i) (before i)))"

lemma judged_Cons:
  assumes "\<forall>fault. \<not> at_fault fault params r" and "judged answer (Suc k) ns (snd (ReduceSessionUpdate params r))"
  shows "judged answer k (params # ns) r"
proof (cases answer)
  case None
  with assms show ?thesis by (auto simp: judged_def nth_Cons take_Cons split: nat.splits)
next
  case (Some found)
  obtain pos fault where "found = (pos, fault)" by (cases found)
  with assms Some obtain i where "pos = Suc k + i" "judged (Some (Suc k + i, fault)) (Suc k) ns (snd (ReduceSessionUpdate params r))"
    by (auto simp: judged_def Let_def le_iff_add)
  with assms(1) Some \<open>found = _\<close> show ?thesis
    by (auto simp: judged_def nth_Cons take_Cons Suc_diff_le split: nat.splits)
qed

lemma check_from_judged: "judged (check_from k ns r) k ns r"
proof (induction k ns r rule: check_from.induct)
  case (2 k params rest r)
  obtain e r' where a: "attribute params r = (e, r')" by fastforce
  show ?case
  proof (cases e)
    case None
    with a attribute_judges[of params r] 2[OF a[symmetric] None] show ?thesis by (auto intro: judged_Cons)
  next
    case (Some fault)
    with a attribute_judges[of params r] show ?thesis by (simp add: judged_def)
  qed
qed (simp add: judged_def)

text \<open>C14: what the attribution check decides.  It passes a session exactly when no notification is at fault
  against the projection that the envelopes before it left, and otherwise it reports the first one that is,
  with what it is at fault for: a namespace under its \<open>_meta\<close>, other than the family's own, that names a turn or a message;
  an envelope that the reducer refuses; or turn content that arrives while no foreground is live.\<close>

theorem attribution_decided:
  "case CheckAttribution n ns of
     None \<Rightarrow> \<forall>i < length ns. \<forall>fault. \<not> at_fault fault (ns ! i) (reduced n (take i ns))
   | Some (i, fault) \<Rightarrow> i < length ns \<and> at_fault fault (ns ! i) (reduced n (take i ns)) \<and>
       (\<forall>j < i. \<forall>other. \<not> at_fault other (ns ! j) (reduced n (take j ns)))"
  using check_from_judged[of 0 ns "NewReducer n"]
  by (auto simp: judged_def CheckAttribution_def reduced_def split: option.splits)

definition content_frame :: "string \<Rightarrow> json option" where
  "content_frame kind = Some (JObj (40, 40) [(updateField, JObj (20, 20) [(sessionUpdateField, JStr kind)])])"

theorem attribution_decided_witness:
  "\<not> at_fault (NoLiveForeground ''plan'') (content_frame ''current_mode_update'') (NewReducer sample_negotiated) \<and>
   (\<exists>fault. at_fault fault (content_frame ''plan'') (NewReducer sample_negotiated) \<and>
      CheckAttribution sample_negotiated [content_frame ''current_mode_update'', content_frame ''plan''] = Some (1, fault))"
proof -
  have no: "ReduceSessionUpdate (content_frame k) (NewReducer n) = (Some ErrNoEnvelope, NewReducer n)" for k n
    by (simp add: ReduceSessionUpdate_def DecodeSessionUpdate_def content_frame_def jsonObject_def lookup_Cons vocab
        NewReducer_def reset_def blank_reducer_def)
  have hint: "checkVendorHints (content_frame k) = None" for k
    by (simp add: checkVendorHints_def content_frame_def jsonObject_def lookup_Cons vocab)
  have "\<not> live (NewReducer n)" for n
    by (simp add: NewReducer_def reset_def blank_reducer_def live_def empty_state_def)
  then have fault: "at_fault fault (content_frame k) (NewReducer n) \<longleftrightarrow> (\<exists>kind. fault = NoLiveForeground kind \<and> turn_content (content_frame k) kind)"
    for fault k n
    using unchecked_hint[OF hint] by (cases fault) (auto simp: no)
  have kinds: "turn_content (content_frame ''plan'') kind \<longleftrightarrow> kind = ''plan''" "\<not> turn_content (content_frame ''current_mode_update'') kind" for kind
    by (auto simp: turn_content_def content_frame_def lookup_Cons vocab)
  let ?ns = "[content_frame ''current_mode_update'', content_frame ''plan'']" and ?r = "NewReducer sample_negotiated"
  have at0: "\<not> at_fault f (?ns ! 0) (reduced sample_negotiated (take 0 ?ns))" for f
    using fault kinds(2) by (simp add: reduced_def)
  have r1: "reduced sample_negotiated (take 1 ?ns) = ?r" by (simp add: reduced_def no)
  have at1: "at_fault f (?ns ! 1) (reduced sample_negotiated (take 1 ?ns)) \<longleftrightarrow> f = NoLiveForeground ''plan''" for f
    unfolding r1 using fault kinds(1) by simp
  note decided = attribution_decided[where n = sample_negotiated and ns = ?ns]
  show ?thesis
  proof (cases "CheckAttribution sample_negotiated ?ns")
    case None
    from decided have all: "\<forall>i < length ?ns. \<forall>f. \<not> at_fault f (?ns ! i) (reduced sample_negotiated (take i ?ns))"
      unfolding None by (simp only: option.case)
    have "\<not> at_fault (NoLiveForeground ''plan'') (?ns ! 1) (reduced sample_negotiated (take 1 ?ns))"
      by (rule all[rule_format]) simp
    with at1 show ?thesis by blast
  next
    case (Some found)
    obtain i f where found: "found = (i, f)" by (cases found)
    with decided Some have i: "i < 2" "at_fault f (?ns ! i) (reduced sample_negotiated (take i ?ns))" by simp_all
    then have "i = 1" using at0 by (cases i) simp_all
    with i(2) at1 have f: "f = NoLiveForeground ''plan''" by simp
    have "at_fault f (content_frame ''plan'') ?r" unfolding f fault by (intro exI[of _ "''plan''"] conjI refl iffD2[OF kinds(1)])
    moreover have "\<not> at_fault (NoLiveForeground ''plan'') (content_frame ''current_mode_update'') ?r" unfolding fault by (simp only: kinds(2) simp_thms)
    ultimately show ?thesis unfolding Some found \<open>i = 1\<close> by blast
  qed
qed

end
