(* ===== verification/Publisher.thy ===== *)
theory Publisher
  imports Negotiation EmitProps
begin

text \<open>
  lifecycle/publisher.go and lifecycle/incarnation.go: the publisher of one session.  Its mutex
  serializes the operations, so each is a function on the publisher and the world its delivery
  function acts on.  An operation returns the error (\<open>None\<close> for nil) and the state it leaves;
  the result is \<open>None\<close> where the source would panic: on a nil stream, a nil blockers map, or
  an event without its payload.  The context only carries cancellation, which delivery is
  shielded from.
\<close>

section \<open>State\<close>

text \<open>\<open>rand.Text\<close> is a parameter.\<close>

definition NewIncarnation :: "string \<Rightarrow> string \<Rightarrow> string" where
  "NewIncarnation random_text sessionID = sessionID @ '':'' @ random_text"

record Cycle =
  cy_TurnID :: string
  cy_CycleID :: string
  cy_Origin :: Cause
  cy_incarnation :: string

type_synonym 'w deliver = "json \<Rightarrow> 'w \<Rightarrow> string option \<times> 'w"

text \<open>The blockers are a map; \<open>None\<close> is the nil map of a publisher that never opened.\<close>

record 'w Publisher =
  pb_stream :: "stream option"
  pb_seq :: u64
  pb_blockers :: "(string \<times> string) list option"
  pb_deliver :: "'w deliver option"

type_synonym 'w session = "'w Publisher \<times> 'w"

datatype publish_error =
    StreamRefused decode_error
  | DeliveryFailed string
  | ForeignCycle

type_synonym 'w published = "(publish_error option \<times> 'w session) option"

definition zero_publisher :: "'w Publisher" where
  "zero_publisher = \<lparr>pb_stream = None, pb_seq = 0, pb_blockers = None, pb_deliver = None\<rparr>"

definition Publisher_active :: "'w Publisher \<Rightarrow> bool" where
  "Publisher_active p \<longleftrightarrow> (case pb_stream p of None \<Rightarrow> False | Some s \<Rightarrow> \<not> fenced s)"

definition nextID :: "string \<Rightarrow> 'w Publisher \<Rightarrow> string \<times> 'w Publisher" where
  "nextID kind p = (let seq = pb_seq p + 1 in (kind @ ''-'' @ show_nat (unat seq), p\<lparr>pb_seq := seq\<rparr>))"

definition Publisher_fence :: "'w Publisher \<Rightarrow> 'w Publisher" where
  "Publisher_fence p = p\<lparr>pb_stream := map_option fence (pb_stream p)\<rparr>"

definition blockers :: "'w Publisher \<Rightarrow> (string \<times> string) list" where
  "blockers p = (case pb_blockers p of None \<Rightarrow> [] | Some m \<Rightarrow> m)"

definition blockedBy :: "'w Publisher \<Rightarrow> string \<Rightarrow> string list" where
  "blockedBy p cycleID = sort (map fst (filter (\<lambda>(actionID, owner). owner = cycleID) (blockers p)))"

definition pendingFor :: "'w Publisher \<Rightarrow> string \<Rightarrow> nat" where
  "pendingFor p cycleID = length (blockedBy p cycleID)"

definition set_blocker :: "string \<Rightarrow> string \<Rightarrow> 'w Publisher \<Rightarrow> 'w Publisher option" where
  "set_blocker actionID cycleID p =
     map_option (\<lambda>m. p\<lparr>pb_blockers := Some (AList.update actionID cycleID m)\<rparr>) (pb_blockers p)"

definition delete_blocker :: "string \<Rightarrow> 'w Publisher \<Rightarrow> 'w Publisher" where
  "delete_blocker actionID p = p\<lparr>pb_blockers := map_option (AList.delete actionID) (pb_blockers p)\<rparr>"

section \<open>Emission\<close>

definition Publisher_emit :: "Event \<Rightarrow> 'w session \<Rightarrow> 'w published" where
  "Publisher_emit event s = (case s of (p, w) \<Rightarrow>
     (case pb_stream p of
        None \<Rightarrow> None
      | Some st \<Rightarrow>
          (case emit event st of
             None \<Rightarrow> None
           | Some (Inl e, st) \<Rightarrow> Some (Some (StreamRefused e), Publisher_fence (p\<lparr>pb_stream := Some st\<rparr>), w)
           | Some (Inr envelope, st) \<Rightarrow>
               (let p = p\<lparr>pb_stream := Some st\<rparr>
                in case pb_deliver p of
                     None \<Rightarrow> Some (None, p, w)
                   | Some send \<Rightarrow>
                       (case send envelope w of
                          (Some failure, w) \<Rightarrow> Some (Some (DeliveryFailed failure), Publisher_fence p, w)
                        | (None, w) \<Rightarrow> Some (None, p, w))))))"

text \<open>\<open>if err := ...; err != nil { return err }\<close>.\<close>

definition then_publish :: "'w published \<Rightarrow> ('w session \<Rightarrow> 'w published) \<Rightarrow> 'w published" where
  "then_publish m k =
     (case m of
        None \<Rightarrow> None
      | Some (Some e, s) \<Rightarrow> Some (Some e, s)
      | Some (None, s) \<Rightarrow> k s)"

section \<open>Operations\<close>

definition NextID :: "string \<Rightarrow> 'w session \<Rightarrow> string \<times> 'w session" where
  "NextID kind s = (case s of (p, w) \<Rightarrow> (case nextID kind p of (i, p) \<Rightarrow> (i, p, w)))"

definition Open :: "string \<Rightarrow> Negotiated \<Rightarrow> 'w deliver option \<Rightarrow> 'w session \<Rightarrow> 'w published" where
  "Open i n send s = (case s of (p, w) \<Rightarrow>
     if \<not> Present n \<or> Publisher_active p then Some (None, p, w)
     else (let p = p\<lparr>pb_stream := Some (newStream i n), pb_deliver := send, pb_blockers := Some []\<rparr>
           in case nextID ''cycle'' p of (cycleID, p) \<Rightarrow> Publisher_emit (snapshotEvent cycleID) (p, w)))"

definition Accept :: "Cycle \<Rightarrow> Submission \<Rightarrow> 'w session \<Rightarrow> (publish_error option \<times> Cycle \<times> 'w session) option" where
  "Accept c submission s = (case s of (p, w) \<Rightarrow>
     if \<not> Publisher_active p then Some (None, c, p, w)
     else (case nextID ''turn'' p of (turnID, p) \<Rightarrow> case nextID ''cycle'' p of (cycleID, p) \<Rightarrow>
       let c = c\<lparr>cy_TurnID := turnID, cy_CycleID := cycleID, cy_Origin := CauseSubmission\<rparr>
       in map_option (\<lambda>(e, s). (e, c, s))
            (then_publish (Publisher_emit (acceptedEvent submission turnID) (p, w))
              (Publisher_emit (transitionEvent ForegroundRunning cycleID turnID CauseSubmission)))))"

definition blank_cycle :: Cycle where
  "blank_cycle = \<lparr>cy_TurnID = [], cy_CycleID = [], cy_Origin = [], cy_incarnation = []\<rparr>"

definition NewAgentCycle :: "'w session \<Rightarrow> Cycle \<times> 'w session" where
  "NewAgentCycle s = (case s of (p, w) \<Rightarrow>
     let c = blank_cycle\<lparr>cy_Origin := CauseActivity\<rparr>
     in case pb_stream p of
          None \<Rightarrow> (c, p, w)
        | Some st \<Rightarrow>
            if fenced st then (c, p, w)
            else (case nextID ''turn'' p of (turnID, p) \<Rightarrow> case nextID ''cycle'' p of (cycleID, p) \<Rightarrow>
              (c\<lparr>cy_TurnID := turnID, cy_CycleID := cycleID, cy_incarnation := sm_id st\<rparr>, p, w)))"

definition OpenAgentCycle :: "Cycle \<Rightarrow> 'w session \<Rightarrow> 'w published" where
  "OpenAgentCycle c s = (case s of (p, w) \<Rightarrow>
     (case pb_stream p of
        None \<Rightarrow> Some (None, p, w)
      | Some st \<Rightarrow>
          if fenced st then Some (None, p, w)
          else if cy_incarnation c \<noteq> sm_id st \<or> cy_Origin c \<noteq> CauseActivity \<or> cy_TurnID c = [] \<or> cy_CycleID c = []
          then Some (Some ForeignCycle, p, w)
          else Publisher_emit (transitionEvent ForegroundRunning (cy_CycleID c) (cy_TurnID c) (cy_Origin c)) (p, w)))"

definition publisher_ActionPending :: "Cycle \<Rightarrow> string \<Rightarrow> ActionKind \<Rightarrow> 'w session \<Rightarrow> 'w published" where
  "publisher_ActionPending c actionID kind s = (case s of (p, w) \<Rightarrow>
     if \<not> Publisher_active p \<or> cy_TurnID c = [] then Some (None, p, w)
     else (let owner = \<lparr>ow_Type = OwnerTurn, ow_ID = cy_TurnID c\<rparr>
           in then_publish (Publisher_emit (actionEvent (pendingAction actionID kind owner True)) (p, w)) (\<lambda>(p, w).
              then_publish
                (if pendingFor p (cy_CycleID c) = 0 then
                   Publisher_emit (transitionEvent ForegroundRequiresAction (cy_CycleID c) (cy_TurnID c) (cy_Origin c)) (p, w)
                 else Some (None, p, w)) (\<lambda>(p, w).
              map_option (\<lambda>p. (None, p, w)) (set_blocker actionID (cy_CycleID c) p)))))"

definition ActionResolved :: "Cycle \<Rightarrow> string \<Rightarrow> ActionState \<Rightarrow> 'w session \<Rightarrow> 'w published" where
  "ActionResolved c actionID state s = (case s of (p, w) \<Rightarrow>
     if map_of (blockers p) actionID \<noteq> Some (cy_CycleID c) \<or> \<not> Publisher_active p then Some (None, p, w)
     else then_publish (Publisher_emit (actionEvent (resolvedAction actionID state)) (delete_blocker actionID p, w)) (\<lambda>(p, w).
       if pendingFor p (cy_CycleID c) > 0 then Some (None, p, w)
       else Publisher_emit (transitionEvent ForegroundRunning (cy_CycleID c) (cy_TurnID c) (cy_Origin c)) (p, w)))"

text \<open>The cancellations of \<open>Idle\<close>, over the identities listed when it began.\<close>

fun cancel_blockers :: "string list \<Rightarrow> 'w session \<Rightarrow> 'w published" where
  "cancel_blockers [] s = Some (None, s)"
| "cancel_blockers (actionID # rest) s =
     then_publish (Publisher_emit (actionEvent (resolvedAction actionID ActionCancelled)) s) (\<lambda>(p, w).
       cancel_blockers rest (delete_blocker actionID p, w))"

definition Idle :: "Cycle \<Rightarrow> string \<Rightarrow> Outcome \<Rightarrow> 'w session \<Rightarrow> 'w published" where
  "Idle c stopReason outcome s = (case s of (p, w) \<Rightarrow>
     if \<not> Publisher_active p \<or> cy_TurnID c = [] then Some (None, p, w)
     else then_publish (cancel_blockers (blockedBy p (cy_CycleID c)) (p, w))
       (Publisher_emit (idleEvent (cy_CycleID c) (cy_TurnID c) (cy_Origin c)
          (if outcome = OutcomeFailed then [] else stopReason) outcome)))"

definition publisher_Fence :: "'w session \<Rightarrow> 'w session" where
  "publisher_Fence s = (case s of (p, w) \<Rightarrow> (Publisher_fence p, w))"

definition Correlation :: "Cycle \<Rightarrow> string \<Rightarrow> 'w Publisher \<Rightarrow> members option" where
  "Correlation c actionID p =
     (case pb_stream p of
        None \<Rightarrow> None
      | Some st \<Rightarrow>
          if actionID = [] \<or> fenced st then None
          else Some [(MetaKey, json_obj (actionCorrelation_value
            \<lparr>ac_streamID = sm_id st, ac_actionID = actionID, ac_owner = \<lparr>ow_Type = OwnerTurn, ow_ID = cy_TurnID c\<rparr>\<rparr>))])"

end
