(* ===== verification/Protocol.thy ===== *)
theory Protocol
  imports Publisher
begin

text \<open>
  The publisher's protocol against the reducer that judges it.  First what an emission of an
  accepted event does; then, for each event a publisher states, when the reducer accepts it
  and what it leaves.  The publisher's own theorems rest on these.
\<close>

section \<open>An accepted emission\<close>

text \<open>An open stream in step with its reducer, fit to name its envelopes.\<close>

definition ready :: "stream \<Rightarrow> bool" where
  "ready s \<longleftrightarrow> (let r = sm_reducer s in
     rd_started r \<and> rd_failed r = None \<and> \<not> s_Closed (rd_state r) \<and> s_StreamID (rd_state r) = sm_id s \<and>
     s_ReducedThrough (rd_state r) = sm_sequence s \<and> rd_base r \<le> sm_sequence s \<and> Present (rd_negotiated r) \<and>
     wire_string (sm_id s) \<and> sm_id s \<noteq> [])"

text \<open>What the reducer decides of an event, whatever the delivery that carries it.\<close>

definition accepts :: "Event \<Rightarrow> Reducer \<Rightarrow> Reducer \<Rightarrow> bool" where
  "accepts e r r' \<longleftrightarrow> (\<forall>d. dl_Event d = e \<longrightarrow> apply_event d r = (None, r'))"

lemma unat_claimed: "unat (k :: u64) + 1 < 2 ^ 64 \<Longrightarrow> unat (k + 1) = unat k + 1"
proof -
  assume a: "unat k + 1 < 2 ^ 64"
  have "k \<noteq> - 1" using a by auto
  then have "k + 1 \<noteq> 0" by (metis add_eq_0_iff2)
  then show ?thesis by (metis Suc_eq_plus1 add.commute unatSuc)
qed

lemma emit_ready:
  assumes s: "ready s" and e: "event_wire e" "ev_Type e \<noteq> EventSnapshot" and room: "unat (sm_sequence s) + 1 < 2 ^ 64"
    and r': "accepts e (sm_reducer s) r'"
  shows "\<exists>envelope d. emit e s =
      Some (Inr envelope, s\<lparr>sm_sequence := sm_sequence s + 1, sm_reducer := commit d r'\<rparr>) \<and>
    ready (s\<lparr>sm_sequence := sm_sequence s + 1, sm_reducer := commit d r'\<rparr>)"
proof -
  let ?k = "sm_sequence s + 1" and ?r = "sm_reducer s"
  have k: "unat ?k = unat (sm_sequence s) + 1" using unat_claimed room by simp
  then have k0: "?k \<noteq> 0" by (metis Suc_eq_plus1 nat.simps(3) unat_eq_0)
  obtain encoded where em: "emit e s = Some (case Reduce (judged e ?k s encoded) ?r of
      (Some v, r) \<Rightarrow> (Inl (Refused v), s\<lparr>sm_sequence := ?k, sm_reducer := r\<rparr>)
    | (None, r) \<Rightarrow> (Inr (envelope_of (sm_id s) ?k encoded), s\<lparr>sm_sequence := ?k, sm_reducer := r\<rparr>))"
    using emit_wire[OF e(1) _ _ _ refl k0] s by (auto simp: ready_def Let_def)
  let ?d = "judged e ?k s encoded"
  have d: "dl_Event ?d = e" "dl_Carrier ?d = CarrierSessionInfo" "dl_StreamID ?d = sm_id s" "dl_Sequence ?d = ?k"
    by (simp_all add: judged_def)
  have a: "apply_event ?d ?r = (None, r')" using r' d(1) by (simp add: accepts_def)
  have keep: "same_bookkeeping ?r r'" by (rule event.accepted_bookkeeping[OF a])
  have b: "\<not> ?k < rd_base ?r" "\<not> ?k \<le> sm_sequence s"
    using s k by (auto simp: ready_def Let_def word_less_nat_alt word_le_nat_alt)
  have "Reduce ?d ?r = (None, commit ?d r')"
    using s b a d e(2) by (simp add: Reduce_def Let_def ready_def)
  with em have "emit e s = Some (Inr (envelope_of (sm_id s) ?k encoded), s\<lparr>sm_sequence := ?k, sm_reducer := commit ?d r'\<rparr>)"
    by simp
  moreover have "ready (s\<lparr>sm_sequence := ?k, sm_reducer := commit ?d r'\<rparr>)"
    using s keep k d by (simp add: ready_def Let_def same_bookkeeping_def word_le_nat_alt)
  ultimately show ?thesis by blast
qed

section \<open>What is delivered\<close>

text \<open>The envelopes that state events on a stream, numbered from the sequence after \<open>k\<close>, and the
  world their delivery leaves.\<close>

fun envelopes :: "string \<Rightarrow> u64 \<Rightarrow> Event list \<Rightarrow> json list" where
  "envelopes i k [] = []"
| "envelopes i k (e # es) = (case encodeEvent e of None \<Rightarrow> [] | Some encoded \<Rightarrow> [envelope_of i (k + 1) encoded]) @ envelopes i (k + 1) es"

definition deliver_all :: "'w deliver option \<Rightarrow> json list \<Rightarrow> 'w \<Rightarrow> 'w" where
  "deliver_all send es w = (case send of None \<Rightarrow> w | Some send \<Rightarrow> fold (\<lambda>envelope w. snd (send envelope w)) es w)"

text \<open>One session state told the events to reach another: the same stream and delivery function, one
  sequence per event, and the world has received exactly their envelopes.\<close>

definition told :: "Event list \<Rightarrow> 'w session \<Rightarrow> 'w session \<Rightarrow> bool" where
  "told es a b \<longleftrightarrow> (case (a, b) of ((p, w), (p', w')) \<Rightarrow>
     pb_deliver p' = pb_deliver p \<and>
     (\<exists>s s'. pb_stream p = Some s \<and> pb_stream p' = Some s' \<and> sm_id s' = sm_id s \<and>
        sm_sequence s' = sm_sequence s + of_nat (length es) \<and>
        w' = deliver_all (pb_deliver p) (envelopes (sm_id s) (sm_sequence s) es) w))"

lemma envelopes_append: "envelopes i k (es @ fs) = envelopes i k es @ envelopes i (k + of_nat (length es)) fs"
  by (induction es arbitrary: k) (simp_all add: algebra_simps)

lemma told_append: "told es a b \<Longrightarrow> told fs b c \<Longrightarrow> told (es @ fs) a c"
  by (cases a; cases b; cases c)
    (auto simp: told_def envelopes_append deliver_all_def algebra_simps split: option.split)

lemma told_none: "told [] (p, w) (p', w) \<longleftrightarrow> pb_deliver p' = pb_deliver p \<and>
    (\<exists>s s'. pb_stream p = Some s \<and> pb_stream p' = Some s' \<and> sm_id s' = sm_id s \<and> sm_sequence s' = sm_sequence s)"
  by (auto simp: told_def deliver_all_def split: option.split)

lemma told_cong:
  "pb_stream q = pb_stream p \<Longrightarrow> pb_deliver q = pb_deliver p \<Longrightarrow> told es (q, w) b = told es (p, w) b"
  "pb_stream q = pb_stream p \<Longrightarrow> pb_deliver q = pb_deliver p \<Longrightarrow> told es a (q, w) = told es a (p, w)"
  by (cases a; cases b; simp add: told_def)+

lemma emit_renders:
  "emit e s = Some (Inr envelope, s') \<Longrightarrow> envelopes (sm_id s) (sm_sequence s) [e] = [envelope]"
  by (auto simp: emit_def Let_def split: option.splits sum.splits prod.splits)

text \<open>A publisher whose stream is ready and whose deliveries do not fail.\<close>

definition delivers :: "'w Publisher \<Rightarrow> bool" where
  "delivers p \<longleftrightarrow> (case pb_deliver p of None \<Rightarrow> True | Some send \<Rightarrow> \<forall>envelope w. fst (send envelope w) = None)"

definition publishing :: "'w Publisher \<Rightarrow> stream \<Rightarrow> bool" where
  "publishing p s \<longleftrightarrow> pb_stream p = Some s \<and> ready s \<and> delivers p"

lemma publishing_active: "publishing p s \<Longrightarrow> Publisher_active p"
  by (simp add: publishing_def Publisher_active_def ready_def Let_def fenced_def)

text \<open>What a publication leaves of the publisher: the reducer after the event, one more sequence, and
  nothing else.\<close>

definition published_to :: "'w Publisher \<Rightarrow> stream \<Rightarrow> Reducer \<Rightarrow> 'w Publisher \<Rightarrow> stream \<Rightarrow> bool" where
  "published_to p s r' p' s' \<longleftrightarrow> publishing p' s' \<and> (\<exists>d. sm_reducer s' = commit d r') \<and>
     sm_sequence s' = sm_sequence s + 1 \<and> p' = p\<lparr>pb_stream := Some s'\<rparr>"

lemma publish_accepted:
  assumes p: "publishing p s" and e: "event_wire e" "ev_Type e \<noteq> EventSnapshot"
    and room: "unat (sm_sequence s) + 1 < 2 ^ 64" and r': "accepts e (sm_reducer s) r'"
  shows "\<exists>p' s' w'. Publisher_emit e (p, w) = Some (None, p', w') \<and> published_to p s r' p' s' \<and> told [e] (p, w) (p', w')"
proof -
  obtain envelope d where em: "emit e s = Some (Inr envelope, s\<lparr>sm_sequence := sm_sequence s + 1, sm_reducer := commit d r'\<rparr>)"
    "ready (s\<lparr>sm_sequence := sm_sequence s + 1, sm_reducer := commit d r'\<rparr>)"
    using emit_ready[OF _ e room r'] p unfolding publishing_def by blast
  let ?s = "s\<lparr>sm_sequence := sm_sequence s + 1, sm_reducer := commit d r'\<rparr>"
  let ?p = "p\<lparr>pb_stream := Some ?s\<rparr>"
  have one: "envelopes (sm_id s) (sm_sequence s) [e] = [envelope]" by (rule emit_renders[OF em(1)])
  have "\<exists>w'. Publisher_emit e (p, w) = Some (None, ?p, w') \<and> told [e] (p, w) (?p, w')"
  proof (cases "pb_deliver p")
    case None
    with p em one show ?thesis by (simp add: Publisher_emit_def publishing_def Let_def told_def deliver_all_def)
  next
    case (Some send)
    then have "fst (send envelope w) = None" using p by (simp add: publishing_def delivers_def)
    then obtain w' where "send envelope w = (None, w')" by (cases "send envelope w") simp
    with p em Some one show ?thesis by (simp add: Publisher_emit_def publishing_def Let_def told_def deliver_all_def)
  qed
  moreover have "published_to p s r' ?p ?s"
    using p em(2) by (auto simp: published_to_def publishing_def delivers_def)
  ultimately show ?thesis by blast
qed

section \<open>When the reducer accepts\<close>

lemma vocabulary_sym [simp]:
  "EventPromptAccepted \<noteq> EventSnapshot" "EventStateUpdate \<noteq> EventSnapshot"
  "EventActivityUpdate \<noteq> EventSnapshot" "EventActionUpdate \<noteq> EventSnapshot"
  "EventStateUpdate \<noteq> EventPromptAccepted" "EventActivityUpdate \<noteq> EventPromptAccepted"
  "EventActionUpdate \<noteq> EventPromptAccepted" "EventActivityUpdate \<noteq> EventStateUpdate"
  "EventActionUpdate \<noteq> EventStateUpdate" "EventActionUpdate \<noteq> EventActivityUpdate"
  "ForegroundIdle \<noteq> ForegroundRunning" "ForegroundRequiresAction \<noteq> ForegroundRunning"
  "ForegroundRequiresAction \<noteq> ForegroundIdle"
  by (simp_all add: vocab)

lemma accepts_prompt:
  assumes "turnID \<notin> rd_turnSeen r" and "tr_TurnID ` set (turns r) \<subseteq> rd_turnSeen r"
  shows "accepts (acceptedEvent sub turnID) r (openTurn ((blank_turn turnID CauseSubmission)
     \<lparr>tr_SubmissionID := sb_SubmissionID sub, tr_ClientNonce := sb_ClientNonce sub, tr_RunID := sb_RunID sub\<rparr>) r)"
proof -
  have "turnIndex r turnID = None" using assms by (auto simp: turnIndex_None)
  then show ?thesis
    using assms by (simp add: accepts_def acceptedEvent_def no_event_def apply_event_def Let_def
        applyPromptAccepted_def turnKnown_def)
qed

text \<open>A live transition of a known turn: the cycle blocks it unless it reports the block.\<close>

definition reported :: "ForegroundState \<Rightarrow> string \<Rightarrow> string \<Rightarrow> nat \<Rightarrow> Reducer \<Rightarrow> Reducer" where
  "reported st cycleID turnID i r =
     setForeground (foreground_of st cycleID turnID) (updateTurn i (tr_CycleID_update (\<lambda>_. cycleID))
       (if st = ForegroundRequiresAction \<and> rd_blockedCycle r = cycleID then r\<lparr>rd_blockedCycle := []\<rparr> else r))"

lemma accepts_live:
  assumes i: "turnIndex r turnID = Some i" "\<not> tr_Terminal (turns r ! i)" and turn: "turnID \<noteq> []"
    and st: "st = ForegroundRunning \<or> st = ForegroundRequiresAction"
    and ok: "if st = ForegroundRequiresAction then blocked r cycleID
      else \<not> blocked r cycleID \<and> rd_blockedCycle r \<noteq> cycleID"
  shows "accepts (transitionEvent st cycleID turnID cause) r (reported st cycleID turnID i r)"
proof -
  let ?c = "if st = ForegroundRequiresAction \<and> rd_blockedCycle r = cycleID then r\<lparr>rd_blockedCycle := []\<rparr> else r"
  have c: "turnIndex ?c = turnIndex r" "turns ?c = turns r" by (simp_all add: turnIndex_def fun_eq_iff)
  have "checkBlockedCycle d \<lparr>st_State = st, st_CycleID = cycleID, st_TurnID = turnID, st_Cause = cause,
      st_StopReason = [], st_Outcome = []\<rparr> r = (None, ?c)" for d
    using ok by (auto simp: checkBlockedCycle_def)
  moreover have "st \<noteq> ForegroundIdle" using st by auto
  ultimately show ?thesis
    using i turn c by (auto simp: accepts_def transitionEvent_def no_event_def apply_event_def Let_def
        applyStateUpdate_def namelessTurnDefect_def endingIdleDefect_def applyLive_def reported_def)
qed

lemma accepts_idle:
  assumes i: "turnIndex r turnID = Some i" "\<not> tr_Terminal (turns r ! i)" and turn: "turnID \<noteq> []"
    and ok: "\<not> blocked r cycleID" "rd_blockedCycle r \<noteq> cycleID"
    and outcome: "outcome \<noteq> []" "outcome = OutcomeFailed \<longleftrightarrow> reason = []"
  shows "accepts (idleEvent cycleID turnID cause reason outcome) r
    (setForeground (foreground_of ForegroundIdle cycleID []) (updateTurn i (endTurn \<lparr>st_State = ForegroundIdle,
       st_CycleID = cycleID, st_TurnID = turnID, st_Cause = cause, st_StopReason = reason, st_Outcome = outcome\<rparr>) r))"
  using assms
  by (auto simp: accepts_def idleEvent_def no_event_def apply_event_def Let_def applyStateUpdate_def
      namelessTurnDefect_def endingIdleDefect_def checkBlockedCycle_def applyIdle_def)

lemma accepts_pending:
  assumes new: "actionID \<notin> cr_ActionID ` set (actions r)" and turn: "turnID \<in> rd_turnSeen r" "turnID \<noteq> []"
    and kind: "kind \<noteq> []"
  shows "accepts (actionEvent (pendingAction actionID kind \<lparr>ow_Type = OwnerTurn, ow_ID = turnID\<rparr> True)) r
    (recordAction (pendingAction actionID kind \<lparr>ow_Type = OwnerTurn, ow_ID = turnID\<rparr> True) r)"
proof -
  have "actionIndex r actionID = None" using new by (simp add: actionIndex_None)
  moreover have "OwnerTurn \<noteq> OwnerActivity" by (simp add: vocab)
  ultimately show ?thesis
    using turn kind by (simp add: accepts_def actionEvent_def pendingAction_def no_event_def apply_event_def Let_def
        applyActionUpdate_def checkActionIdentity_def checkActionOwner_def turnKnown_def)
qed

lemma accepts_resolved:
  assumes i: "actionIndex r actionID = Some i" "\<not> ActionState_Terminal (cr_State (actions r ! i))"
  shows "accepts (actionEvent (resolvedAction actionID st)) r (updateAction i (cr_State_update (\<lambda>_. st)) r)"
  using assms
  by (simp add: accepts_def actionEvent_def resolvedAction_def no_event_def apply_event_def Let_def
      applyActionUpdate_def patchAction_def immutableActionConflict_def blank_owner_def)

end
