(* ===== verification/Conversation.thy ===== *)
theory Conversation
  imports Protocol
begin

text \<open>
  The state of a session between two publications of a disciplined host: the scene its reducer
  shows while a cycle runs, the rest between cycles, and the books the publisher keeps of the
  cycle's blockers.  One lemma per publication moves from scene to scene.
\<close>

section \<open>Allocated identities\<close>

definition allocated :: "u64 \<Rightarrow> string set" where
  "allocated k = (\<lambda>n. ''turn-'' @ show_nat n) ` {..unat k}"

lemma allocated_mono: "unat k \<le> unat l \<Longrightarrow> allocated k \<subseteq> allocated l"
  by (auto simp: allocated_def)

lemma allocated_new: "n > unat k \<Longrightarrow> ''turn-'' @ show_nat n \<notin> allocated k"
  by (auto simp: allocated_def)

lemma ascii_show_nat: "ascii (show_nat n)"
proof (induction n rule: show_nat.induct)
  case (1 n)
  have d: "d < 10 \<Longrightarrow> ascii [digit_char d]" for d by (simp add: ascii_def)
  with 1 show ?case by (subst show_nat.simps) simp
qed

lemma allocated_wire:
  assumes "ascii kind" and "length kind \<le> 100"
  shows "wire_string (kind @ show_nat (unat (k :: u64)))"
proof -
  have "unat k < 10 ^ Suc 20" using unat_below[of k] by simp
  then have "length (show_nat (unat k)) \<le> Suc 20" by (rule show_nat_length)
  with assms show ?thesis by (intro ascii_wire) (simp_all add: ascii_show_nat IdentifierBound_def)
qed

section \<open>Scenes\<close>

text \<open>A cycle runs: its turn is open, the foreground reports it, and its blockers are exactly
  the pending ones.\<close>

definition scene :: "ForegroundState \<Rightarrow> string \<Rightarrow> Cycle \<Rightarrow> string set \<Rightarrow> string set \<Rightarrow> u64 \<Rightarrow> Reducer \<Rightarrow> bool" where
  "scene st owed c pending used k r \<longleftrightarrow>
     rd_turnSeen r \<subseteq> allocated k \<and> tr_TurnID ` set (turns r) \<subseteq> rd_turnSeen r \<and> cy_TurnID c \<in> rd_turnSeen r \<and>
     (\<exists>i. turnIndex r (cy_TurnID c) = Some i \<and> \<not> tr_Terminal (turns r ! i)) \<and>
     (\<exists>f. foreground r = Some f \<and> fg_State f = st \<and> fg_CycleID f = cy_CycleID c) \<and>
     rd_blockedCycle r = owed \<and> distinct (map cr_ActionID (actions r)) \<and> cr_ActionID ` set (actions r) \<subseteq> used \<and>
     pending \<subseteq> cr_ActionID ` set (actions r) \<and>
     (\<forall>a \<in> set (actions r). if cr_ActionID a \<in> pending
        then \<not> ActionState_Terminal (cr_State a) \<and> cr_BlocksForeground a \<and> rd_actionCycle r (cr_ActionID a) = Some (cy_CycleID c)
        else ActionState_Terminal (cr_State a))"

text \<open>No cycle runs, and nothing is pending.\<close>

definition resting :: "string set \<Rightarrow> u64 \<Rightarrow> Reducer \<Rightarrow> bool" where
  "resting used k r \<longleftrightarrow>
     rd_turnSeen r \<subseteq> allocated k \<and> tr_TurnID ` set (turns r) \<subseteq> rd_turnSeen r \<and> foreground r \<noteq> None \<and>
     rd_blockedCycle r = [] \<and> distinct (map cr_ActionID (actions r)) \<and> cr_ActionID ` set (actions r) \<subseteq> used \<and>
     (\<forall>a \<in> set (actions r). ActionState_Terminal (cr_State a))"

lemma indexes_commit [simp]: "turnIndex (commit d r) = turnIndex r" "actionIndex (commit d r) = actionIndex r"
  by (simp_all add: turnIndex_def actionIndex_def fun_eq_iff)

lemma scene_commit [simp]: "scene st owed c pending used k (commit d r) = scene st owed c pending used k r"
  by (simp add: scene_def)

lemma resting_commit [simp]: "resting used k (commit d r) = resting used k r"
  by (simp add: resting_def)

lemma scene_blocked: "scene st owed c pending used k r \<Longrightarrow> blocked r x \<longleftrightarrow> pending \<noteq> {} \<and> x = cy_CycleID c"
  by (fastforce simp: scene_def blocked_def list_ex_iff split: if_splits)

lemma resting_blocked: "resting used k r \<Longrightarrow> \<not> blocked r x"
  by (auto simp: resting_def blocked_def list_ex_iff)

lemma indexOf_identities: "indexOf xs x f = indexOf (map f xs) x id"
  by (induction xs) auto

lemma turnIndex_identities: "map tr_TurnID (turns r) = map tr_TurnID (turns r') \<Longrightarrow> turnIndex r = turnIndex r'"
  by (rule ext) (simp add: turnIndex_def indexOf_identities[of _ _ tr_TurnID])

lemma identities_update:
  "f y = f (xs ! i) \<Longrightarrow> map f (xs[i := y]) = map f xs"
  by (cases "i < length xs") (simp_all add: list_update_beyond)

lemma turnIndex_updates [simp]:
  "turnIndex (setForeground g r) = turnIndex r"
  "turnIndex (updateTurn i (tr_CycleID_update h) r) = turnIndex r"
  by (rule turnIndex_identities, simp add: identities_update)+

lemma turns_stay:
  assumes "turnIndex r turnID = Some i" and "tr_TurnID t = turnID"
  shows "tr_TurnID ` set ((turns r)[i := t]) = tr_TurnID ` set (turns r)"
proof -
  have "map tr_TurnID ((turns r)[i := t]) = map tr_TurnID (turns r)"
    using assms turnIndex_Some[OF assms(1)] by (intro identities_update) simp
  then show ?thesis by (metis list.set_map)
qed

lemma reported_fields [simp]:
  "turns (reported st c t i r) = (turns r)[i := (turns r ! i)\<lparr>tr_CycleID := c\<rparr>]"
  "actions (reported st c t i r) = actions r" "foreground (reported st c t i r) = Some (foreground_of st c t)"
  "rd_turnSeen (reported st c t i r) = rd_turnSeen r" "rd_actionCycle (reported st c t i r) = rd_actionCycle r"
  "rd_blockedCycle (reported st c t i r) = (if st = ForegroundRequiresAction \<and> rd_blockedCycle r = c then [] else rd_blockedCycle r)"
  by (simp_all add: reported_def setForeground_def updateTurn_def)

lemma reported_turnIndex [simp]: "turnIndex (reported st c t i r) = turnIndex r"
  by (rule turnIndex_identities) (simp add: identities_update)

section \<open>From scene to scene\<close>

text \<open>Between its acceptance and its first report a prompt has an open turn and no blocker.\<close>

definition prompted_turn :: "Cycle \<Rightarrow> string set \<Rightarrow> u64 \<Rightarrow> Reducer \<Rightarrow> bool" where
  "prompted_turn c used k r \<longleftrightarrow>
     rd_turnSeen r \<subseteq> allocated k \<and> tr_TurnID ` set (turns r) \<subseteq> rd_turnSeen r \<and> cy_TurnID c \<in> rd_turnSeen r \<and>
     (\<exists>i. turnIndex r (cy_TurnID c) = Some i \<and> \<not> tr_Terminal (turns r ! i)) \<and>
     rd_blockedCycle r = [] \<and> distinct (map cr_ActionID (actions r)) \<and> cr_ActionID ` set (actions r) \<subseteq> used \<and>
     (\<forall>a \<in> set (actions r). ActionState_Terminal (cr_State a))"

lemma prompted_commit [simp]: "prompted_turn c used k (commit d r) = prompted_turn c used k r"
  by (simp add: prompted_turn_def)

lemma rest_prompts:
  assumes r: "resting used k r" and new: "cy_TurnID c \<notin> allocated k" and turn: "cy_TurnID c \<in> allocated l"
    and kl: "unat k \<le> unat l"
  shows "\<exists>r'. accepts (acceptedEvent sub (cy_TurnID c)) r r' \<and> prompted_turn c used l r'"
proof -
  let ?t = "(blank_turn (cy_TurnID c) CauseSubmission)
     \<lparr>tr_SubmissionID := sb_SubmissionID sub, tr_ClientNonce := sb_ClientNonce sub, tr_RunID := sb_RunID sub\<rparr>"
  have t: "tr_TurnID ?t = cy_TurnID c" "\<not> tr_Terminal ?t" by (simp_all add: blank_turn_def)
  have seen: "cy_TurnID c \<notin> rd_turnSeen r" using r new by (auto simp: resting_def)
  have "accepts (acceptedEvent sub (cy_TurnID c)) r (openTurn ?t r)"
    using accepts_prompt[OF seen] r by (simp add: resting_def)
  moreover have "turnIndex (openTurn ?t r) (cy_TurnID c) = Some (length (turns r))"
    using seen r t(1) by (auto simp: resting_def turnIndex_def intro!: indexOf_append_new)
  moreover have "rd_turnSeen (openTurn ?t r) = insert (cy_TurnID c) (rd_turnSeen r)" using t(1) by (simp add: openTurn_def)
  ultimately have "accepts (acceptedEvent sub (cy_TurnID c)) r (openTurn ?t r) \<and> prompted_turn c used l (openTurn ?t r)"
    using r t turn allocated_mono[OF kl] by (auto simp: prompted_turn_def resting_def)
  then show ?thesis by blast
qed

lemma prompted_reports:
  assumes r: "prompted_turn c used k r" and c: "cy_TurnID c \<noteq> []" "cy_CycleID c \<noteq> []"
  shows "\<exists>r'. accepts (transitionEvent ForegroundRunning (cy_CycleID c) (cy_TurnID c) cause) r r' \<and>
    scene ForegroundRunning [] c {} used k r'"
proof -
  obtain i where i: "turnIndex r (cy_TurnID c) = Some i" "\<not> tr_Terminal (turns r ! i)"
    using r by (auto simp: prompted_turn_def)
  let ?r = "reported ForegroundRunning (cy_CycleID c) (cy_TurnID c) i r"
  have "\<not> blocked r x" for x using r by (auto simp: prompted_turn_def blocked_def list_ex_iff)
  then have "accepts (transitionEvent ForegroundRunning (cy_CycleID c) (cy_TurnID c) cause) r ?r"
    using r c by (intro accepts_live i) (simp_all add: prompted_turn_def)
  moreover note stay = turns_stay[OF i(1), of "(turns r ! i)\<lparr>tr_CycleID := cy_CycleID c\<rparr>"]
  have len: "i < length (turns r)" "tr_TurnID (turns r ! i) = cy_TurnID c" using turnIndex_Some[OF i(1)] by auto
  have "\<not> tr_Terminal (turns ?r ! i)" using i(2) len by simp
  then have "\<exists>i. turnIndex ?r (cy_TurnID c) = Some i \<and> \<not> tr_Terminal (turns ?r ! i)" using i(1) by auto
  then have "scene ForegroundRunning [] c {} used k ?r"
    using r stay len by (simp add: prompted_turn_def scene_def foreground_of_def)
  ultimately show ?thesis by blast
qed

lemma scene_reports:
  assumes r: "scene st owed c pending used k r" and c: "cy_TurnID c \<noteq> []" "cy_CycleID c \<noteq> []"
    and st': "if pending = {} then st' = ForegroundRunning \<and> owed = [] else st' = ForegroundRequiresAction \<and> owed \<in> {[], cy_CycleID c}"
  shows "\<exists>r'. accepts (transitionEvent st' (cy_CycleID c) (cy_TurnID c) cause) r r' \<and> scene st' [] c pending used k r'"
proof -
  obtain i where i: "turnIndex r (cy_TurnID c) = Some i" "\<not> tr_Terminal (turns r ! i)"
    using r by (auto simp: scene_def)
  let ?r = "reported st' (cy_CycleID c) (cy_TurnID c) i r"
  have owed: "rd_blockedCycle r = owed" using r by (simp add: scene_def)
  have "accepts (transitionEvent st' (cy_CycleID c) (cy_TurnID c) cause) r ?r"
    using st' owed c scene_blocked[OF r] by (intro accepts_live i) (auto split: if_splits)
  moreover have "scene st' [] c pending used k ?r"
  proof -
    note stay = turns_stay[OF i(1), of "(turns r ! i)\<lparr>tr_CycleID := cy_CycleID c\<rparr>"]
    have len: "i < length (turns r)" "tr_TurnID (turns r ! i) = cy_TurnID c" using turnIndex_Some[OF i(1)] by auto
    have "rd_blockedCycle ?r = []" using st' owed c by (auto split: if_splits)
    moreover have "\<not> tr_Terminal (turns ?r ! i)" using i(2) len by simp
    then have "\<exists>i. turnIndex ?r (cy_TurnID c) = Some i \<and> \<not> tr_Terminal (turns ?r ! i)" using i(1) by auto
    ultimately show ?thesis
      using r stay len by (simp add: scene_def foreground_of_def)
  qed
  ultimately show ?thesis by blast
qed

lemma scene_asks:
  assumes r: "scene st [] c pending used k r" and a: "actionID \<notin> used" "kind \<noteq> []" and c: "cy_TurnID c \<noteq> []"
  shows "\<exists>r'. accepts (actionEvent (pendingAction actionID kind \<lparr>ow_Type = OwnerTurn, ow_ID = cy_TurnID c\<rparr> True)) r r' \<and>
    scene st (if st = ForegroundRequiresAction then [] else cy_CycleID c) c (insert actionID pending) (insert actionID used) k r'"
proof -
  let ?u = "pendingAction actionID kind \<lparr>ow_Type = OwnerTurn, ow_ID = cy_TurnID c\<rparr> True" and ?r = "recordAction
    (pendingAction actionID kind \<lparr>ow_Type = OwnerTurn, ow_ID = cy_TurnID c\<rparr> True) r"
  have new: "actionID \<notin> cr_ActionID ` set (actions r)" using r a by (auto simp: scene_def)
  have "accepts (actionEvent ?u) r ?r" using r a c new by (intro accepts_pending) (auto simp: scene_def)
  moreover obtain f where f: "foreground r = Some f" "fg_State f = st" "fg_CycleID f = cy_CycleID c"
    using r by (auto simp: scene_def)
  have u: "blocksForeground ?u" "\<not> ActionState_Terminal (cu_State ?u)"
    by (simp_all add: pendingAction_def blocksForeground_def ActionState_Terminal_def)
  have "turnIndex ?r = turnIndex r" by (simp add: turnIndex_def fun_eq_iff)
  then have "scene st (if st = ForegroundRequiresAction then [] else cy_CycleID c) c (insert actionID pending) (insert actionID used) k ?r"
    using r new u f recordAction_cycle[OF f(1), of ?u]
    by (auto simp: scene_def ActionRecord_of_def pendingAction_def ActionState_Terminal_def)
  ultimately show ?thesis by blast
qed

lemma scene_answers:
  assumes r: "scene st owed c pending used k r" and a: "actionID \<in> pending" "ActionState_Terminal answer"
  shows "\<exists>r'. accepts (actionEvent (resolvedAction actionID answer)) r r' \<and> scene st owed c (pending - {actionID}) used k r'"
proof -
  have "actionID \<in> cr_ActionID ` set (actions r)" using r a by (auto simp: scene_def)
  then obtain i where i: "actionIndex r actionID = Some i" using actionIndex_None[of r actionID] by auto
  note len = actionIndex_Some[OF i]
  have dist: "distinct (map cr_ActionID (actions r))" using r by (simp add: scene_def)
  have live: "\<not> ActionState_Terminal (cr_State (actions r ! i))"
    using r a len by (auto simp: scene_def)
  let ?r = "updateAction i (cr_State_update (\<lambda>_. answer)) r"
  have "accepts (actionEvent (resolvedAction actionID answer)) r ?r" using i live by (rule accepts_resolved)
  moreover have "scene st owed c (pending - {actionID}) used k ?r"
  proof -
    have other: "b \<in> set (actions ?r) \<Longrightarrow> b = (actions r ! i)\<lparr>cr_State := answer\<rparr> \<or>
        b \<in> set (actions r) \<and> cr_ActionID b \<noteq> actionID" for b
    proof -
      assume "b \<in> set (actions ?r)"
      then obtain j where j: "j < length (actions r)" "b = (actions r)[i := (actions r ! i)\<lparr>cr_State := answer\<rparr>] ! j"
        by (auto simp: in_set_conv_nth)
      show ?thesis
      proof (cases "j = i")
        case False
        then have "cr_ActionID (actions r ! j) \<noteq> cr_ActionID (actions r ! i)"
          using dist j(1) len by (metis length_map nth_eq_iff_index_eq nth_map)
        with j False len show ?thesis by auto
      qed (use j len in simp)
    qed
    have keys: "map cr_ActionID (actions ?r) = map cr_ActionID (actions r)" using len by simp
    then have ids: "cr_ActionID ` set (actions ?r) = cr_ActionID ` set (actions r)" by (metis list.set_map)
    have same: "turnIndex ?r = turnIndex r" "rd_turnSeen ?r = rd_turnSeen r"
      by (simp_all add: turnIndex_def fun_eq_iff updateAction_def)
    have every: "\<forall>b \<in> set (actions ?r). if cr_ActionID b \<in> pending - {actionID}
        then \<not> ActionState_Terminal (cr_State b) \<and> cr_BlocksForeground b \<and> rd_actionCycle ?r (cr_ActionID b) = Some (cy_CycleID c)
        else ActionState_Terminal (cr_State b)"
    proof
      fix b
      assume "b \<in> set (actions ?r)"
      from other[OF this] show "if cr_ActionID b \<in> pending - {actionID}
        then \<not> ActionState_Terminal (cr_State b) \<and> cr_BlocksForeground b \<and> rd_actionCycle ?r (cr_ActionID b) = Some (cy_CycleID c)
        else ActionState_Terminal (cr_State b)"
      proof
        assume "b = (actions r ! i)\<lparr>cr_State := answer\<rparr>"
        with a len show ?thesis by simp
      next
        assume "b \<in> set (actions r) \<and> cr_ActionID b \<noteq> actionID"
        with r show ?thesis by (simp add: scene_def)
      qed
    qed
    show ?thesis using r every unfolding scene_def keys ids same updateAction_fields(1,3,7) by blast
  qed
  ultimately show ?thesis by blast
qed

lemma scene_ends:
  assumes r: "scene st [] c {} used k r" and c: "cy_TurnID c \<noteq> []" "cy_CycleID c \<noteq> []"
    and outcome: "outcome \<noteq> []" "outcome = OutcomeFailed \<longleftrightarrow> reason = []"
  shows "\<exists>r'. accepts (idleEvent (cy_CycleID c) (cy_TurnID c) cause reason outcome) r r' \<and> resting used k r'"
proof -
  obtain i where i: "turnIndex r (cy_TurnID c) = Some i" "\<not> tr_Terminal (turns r ! i)"
    using r by (auto simp: scene_def)
  note len = turnIndex_Some[OF i(1)]
  let ?t = "\<lparr>st_State = ForegroundIdle, st_CycleID = cy_CycleID c, st_TurnID = cy_TurnID c, st_Cause = cause,
       st_StopReason = reason, st_Outcome = outcome\<rparr>"
  let ?r = "setForeground (foreground_of ForegroundIdle (cy_CycleID c) []) (updateTurn i (endTurn ?t) r)"
  have "accepts (idleEvent (cy_CycleID c) (cy_TurnID c) cause reason outcome) r ?r"
    using c outcome scene_blocked[OF r] r by (intro accepts_idle i) (auto simp: scene_def)
  moreover have "resting used k ?r"
  proof -
    have "tr_TurnID (endTurn ?t (turns r ! i)) = cy_TurnID c" using len by (simp add: endTurn_def)
    note stay = turns_stay[OF i(1) this]
    moreover have "rd_turnSeen ?r = rd_turnSeen r" by (simp add: setForeground_def updateTurn_def)
    ultimately show ?thesis using r by (simp add: scene_def resting_def)
  qed
  ultimately show ?thesis by blast
qed

end
