(* ===== verification/PublisherProps.thy ===== *)
theory PublisherProps
  imports Conversation
begin

text \<open>
  What a publisher promises: a host that follows the protocol is never refused, a failed
  publication ends the incarnation and nothing more is delivered, no operation panics, and the
  identities it allocates are distinct.
\<close>

section \<open>A disciplined host\<close>

datatype host_step =
    Prompt Submission
  | Ask string ActionKind
  | Reply string ActionState
  | Finish string Outcome

text \<open>One step of a host that drives one foreground cycle at a time.\<close>

fun drive_step :: "host_step \<Rightarrow> Cycle \<Rightarrow> 'w session \<Rightarrow> (publish_error option \<times> Cycle \<times> 'w session) option" where
  "drive_step (Prompt submission) c s = Accept c submission s"
| "drive_step (Ask actionID kind) c s = map_option (\<lambda>(e, s). (e, c, s)) (publisher_ActionPending c actionID kind s)"
| "drive_step (Reply actionID state) c s = map_option (\<lambda>(e, s). (e, c, s)) (ActionResolved c actionID state s)"
| "drive_step (Finish reason outcome) c s = map_option (\<lambda>(e, s). (e, c, s)) (Idle c reason outcome s)"

fun drive :: "host_step list \<Rightarrow> Cycle \<Rightarrow> 'w session \<Rightarrow> (publish_error option \<times> Cycle \<times> 'w session) option" where
  "drive [] c s = Some (None, c, s)"
| "drive (x # xs) c s =
     (case drive_step x c s of
        None \<Rightarrow> None
      | Some (Some e, c, s) \<Rightarrow> Some (Some e, c, s)
      | Some (None, c, s) \<Rightarrow> drive xs c s)"

text \<open>A script is disciplined when it prompts only between cycles, asks and replies only within
  one, asks under fresh identities, replies to what is pending with a verdict, and finishes
  with an outcome and its stop reason; every value is within the vocabulary and the bounds.\<close>

definition handle_ok :: "string \<Rightarrow> bool" where
  "handle_ok s \<longleftrightarrow> wire_string s \<and> s \<noteq> []"

fun disciplined :: "string set option \<Rightarrow> string set \<Rightarrow> host_step list \<Rightarrow> bool" where
  "disciplined phase used [] = True"
| "disciplined None used (Prompt sub # xs) =
     (handle_ok (sb_SubmissionID sub) \<and> handle_ok (sb_ClientNonce sub) \<and> wire_string (sb_RunID sub) \<and>
      disciplined (Some {}) used xs)"
| "disciplined (Some pending) used (Ask actionID kind # xs) =
     (actionID \<notin> used \<and> handle_ok actionID \<and> ActionKind_Valid kind \<and>
      disciplined (Some (insert actionID pending)) (insert actionID used) xs)"
| "disciplined (Some pending) used (Reply actionID state # xs) =
     (actionID \<in> pending \<and> ActionState_Valid state \<and> ActionState_Terminal state \<and>
      disciplined (Some (pending - {actionID})) used xs)"
| "disciplined (Some pending) used (Finish reason outcome # xs) =
     (Outcome_Valid outcome \<and> (outcome = OutcomeFailed \<or> validStopReason reason) \<and> disciplined None used xs)"
| "disciplined phase used (x # xs) = False"

text \<open>What the protocol says for a script: the events of each step in their order, with the
  identities of each prompt taken from a counter.  A cycle is reported blocked at its first
  pending question and running again at the last answer; finishing cancels what is pending.\<close>

definition prompted :: "u64 \<Rightarrow> Cycle \<Rightarrow> Cycle" where
  "prompted k c = c\<lparr>cy_TurnID := ''turn-'' @ show_nat (unat (k + 1)), cy_CycleID := ''cycle-'' @ show_nat (unat (k + 2)),
     cy_Origin := CauseSubmission\<rparr>"

definition reports :: "ForegroundState \<Rightarrow> Cycle \<Rightarrow> Event" where
  "reports st c = transitionEvent st (cy_CycleID c) (cy_TurnID c) (cy_Origin c)"

fun said :: "Cycle \<Rightarrow> string set \<Rightarrow> host_step \<Rightarrow> Event list" where
  "said c pending (Prompt sub) = [acceptedEvent sub (cy_TurnID c), reports ForegroundRunning c]"
| "said c pending (Ask actionID kind) =
     actionEvent (pendingAction actionID kind \<lparr>ow_Type = OwnerTurn, ow_ID = cy_TurnID c\<rparr> True) #
     (if pending = {} then [reports ForegroundRequiresAction c] else [])"
| "said c pending (Reply actionID state) =
     actionEvent (resolvedAction actionID state) # (if pending - {actionID} = {} then [reports ForegroundRunning c] else [])"
| "said c pending (Finish reason outcome) =
     map (\<lambda>a. actionEvent (resolvedAction a ActionCancelled)) (sorted_list_of_set pending) @
     [idleEvent (cy_CycleID c) (cy_TurnID c) (cy_Origin c) (if outcome = OutcomeFailed then [] else reason) outcome]"

fun announced :: "u64 \<Rightarrow> Cycle \<Rightarrow> string set \<Rightarrow> host_step list \<Rightarrow> Event list" where
  "announced k c pending [] = []"
| "announced k c pending (Prompt sub # xs) =
     said (prompted k c) {} (Prompt sub) @ announced (k + 2) (prompted k c) {} xs"
| "announced k c pending (Ask actionID kind # xs) =
     said c pending (Ask actionID kind) @ announced k c (insert actionID pending) xs"
| "announced k c pending (Reply actionID state # xs) =
     said c pending (Reply actionID state) @ announced k c (pending - {actionID}) xs"
| "announced k c pending (Finish reason outcome # xs) =
     said c pending (Finish reason outcome) @ announced k c {} xs"

section \<open>The events of the protocol are well formed\<close>

lemma token_wire: "wire_string t" if "ascii t" "length t \<le> 100"
  using that by (intro ascii_wire) (simp_all add: IdentifierBound_def)

lemma accepted_wire:
  "handle_ok (sb_SubmissionID sub) \<Longrightarrow> handle_ok (sb_ClientNonce sub) \<Longrightarrow> wire_string (sb_RunID sub) \<Longrightarrow>
   handle_ok turnID \<Longrightarrow> event_wire (acceptedEvent sub turnID)"
  unfolding event_wire_def acceptedEvent_def
  by (rule disjI2, rule disjI1) (auto simp: prompt_wire_def handle_ok_def)

lemma transition_event_wire:
  assumes "st = ForegroundRunning \<or> st = ForegroundRequiresAction" and "handle_ok cycleID" and "handle_ok turnID"
  shows "event_wire (transitionEvent st cycleID turnID CauseSubmission)"
proof -
  have "wire_string st" "wire_string CauseSubmission" "wire_string []"
    using assms(1) by (auto intro!: token_wire simp: vocab ascii_def)
  then have "transition_wire \<lparr>st_State = st, st_CycleID = cycleID, st_TurnID = turnID, st_Cause = CauseSubmission,
      st_StopReason = [], st_Outcome = []\<rparr>"
    using assms by (auto simp: transition_wire_def transitionDefect_def handle_ok_def ForegroundState_Valid_def
        Cause_Valid_def namelessTurnDefect_def endingIdleDefect_def)
  then show ?thesis unfolding event_wire_def transitionEvent_def by blast
qed

lemma outcome_wire: "Outcome_Valid outcome \<Longrightarrow> wire_string outcome \<and> outcome \<noteq> []"
  unfolding Outcome_Valid_def by (elim disjE) (simp_all add: token_wire vocab ascii_def)

lemma stop_reason_wire: "validStopReason reason \<Longrightarrow> wire_string reason \<and> reason \<noteq> []"
  unfolding validStopReason_def by (elim disjE) (simp_all add: token_wire vocab ascii_def)

lemma idle_event_wire:
  assumes o: "Outcome_Valid outcome" and r: "if outcome = OutcomeFailed then reason = [] else validStopReason reason"
    and "handle_ok cycleID" and "handle_ok turnID"
  shows "event_wire (idleEvent cycleID turnID CauseSubmission reason outcome)"
proof -
  have "wire_string ForegroundIdle" "wire_string CauseSubmission" "wire_string []"
    by (simp_all add: token_wire vocab ascii_def)
  moreover have "ForegroundState_Valid ForegroundIdle" "Cause_Valid CauseSubmission"
    by (simp_all add: ForegroundState_Valid_def Cause_Valid_def)
  ultimately have "transition_wire \<lparr>st_State = ForegroundIdle, st_CycleID = cycleID, st_TurnID = turnID,
      st_Cause = CauseSubmission, st_StopReason = reason, st_Outcome = outcome\<rparr>"
    using assms outcome_wire[OF o] stop_reason_wire[of reason]
    by (cases "outcome = OutcomeFailed")
      (simp_all add: transition_wire_def transitionDefect_def handle_ok_def namelessTurnDefect_def endingIdleDefect_def)
  then show ?thesis unfolding event_wire_def idleEvent_def by blast
qed

lemma pending_event_wire:
  assumes "handle_ok actionID" and "ActionKind_Valid kind" and "handle_ok turnID"
  shows "event_wire (actionEvent (pendingAction actionID kind \<lparr>ow_Type = OwnerTurn, ow_ID = turnID\<rparr> True))"
proof -
  have "wire_string kind" "wire_string ActionPending" "wire_string OwnerTurn" "wire_string []"
    using assms(2) by (auto intro!: token_wire simp: ActionKind_Valid_def vocab ascii_def)
  then have "action_wire (pendingAction actionID kind \<lparr>ow_Type = OwnerTurn, ow_ID = turnID\<rparr> True)"
    using assms by (simp add: action_wire_def pendingAction_def actionDefect_def handle_ok_def
        ActionState_Valid_def OwnerType_Valid_def)
  then show ?thesis unfolding event_wire_def actionEvent_def by blast
qed

lemma resolved_event_wire:
  assumes "handle_ok actionID" and "ActionState_Valid state"
  shows "event_wire (actionEvent (resolvedAction actionID state))"
proof -
  have "wire_string state" "wire_string []"
    using assms(2) by (auto intro!: token_wire simp: ActionState_Valid_def vocab ascii_def)
  then have "action_wire (resolvedAction actionID state)"
    using assms by (simp add: action_wire_def resolvedAction_def actionDefect_def handle_ok_def blank_owner_def)
  then show ?thesis unfolding event_wire_def actionEvent_def by blast
qed

lemma event_types [simp]:
  "ev_Type (acceptedEvent sub turnID) = EventPromptAccepted" "ev_Type (transitionEvent st c t cause) = EventStateUpdate"
  "ev_Type (idleEvent c t cause reason outcome) = EventStateUpdate" "ev_Type (actionEvent u) = EventActionUpdate"
  by (simp_all add: acceptedEvent_def transitionEvent_def idleEvent_def actionEvent_def no_event_def)

section \<open>The publisher's books\<close>

definition books :: "Cycle \<Rightarrow> string set \<Rightarrow> 'w Publisher \<Rightarrow> bool" where
  "books c pending p \<longleftrightarrow> (\<exists>m. pb_blockers p = Some m \<and> distinct (map fst m) \<and>
     map_of m = (\<lambda>a. if a \<in> pending then Some (cy_CycleID c) else None))"

lemma books_blockedBy:
  assumes "books c pending p"
  shows "set (blockedBy p (cy_CycleID c)) = pending" and "distinct (blockedBy p (cy_CycleID c))"
    and "blockedBy p (cy_CycleID c) = sorted_list_of_set pending"
    and "pendingFor p (cy_CycleID c) = 0 \<longleftrightarrow> pending = {}"
proof -
  obtain m where m: "pb_blockers p = Some m" "distinct (map fst m)"
    "map_of m = (\<lambda>a. if a \<in> pending then Some (cy_CycleID c) else None)"
    using assms by (auto simp: books_def)
  have "o' = cy_CycleID c" if "(a, o') \<in> set m" for a o'
    using map_of_is_SomeI[OF m(2) that] m(3) by (auto split: if_splits)
  then have "filter (\<lambda>(a, owner). owner = cy_CycleID c) m = m" by (intro filter_True) auto
  then have b: "blockedBy p (cy_CycleID c) = sort (map fst m)" using m(1) by (simp add: blockedBy_def blockers_def)
  have "fst ` set m = dom (map_of m)" by (simp add: dom_map_of_conv_image_fst)
  also have "\<dots> = pending" using m(3) by (auto simp: dom_def)
  finally show s: "set (blockedBy p (cy_CycleID c)) = pending" using b by simp
  show d: "distinct (blockedBy p (cy_CycleID c))" using b m(2) by simp
  have "sorted (blockedBy p (cy_CycleID c))" using b by simp
  with d s show "blockedBy p (cy_CycleID c) = sorted_list_of_set pending"
    by (metis sorted_list_of_set.idem_if_sorted_distinct)
  show "pendingFor p (cy_CycleID c) = 0 \<longleftrightarrow> pending = {}" using s by (auto simp: pendingFor_def)
qed

lemma books_stream [simp]: "books c pending (p\<lparr>pb_stream := s\<rparr>) = books c pending p"
  by (simp add: books_def)

lemma books_set:
  assumes "books c pending p"
  shows "\<exists>p'. set_blocker actionID (cy_CycleID c) p = Some p' \<and> books c (insert actionID pending) p' \<and>
    pb_stream p' = pb_stream p \<and> pb_seq p' = pb_seq p \<and> pb_deliver p' = pb_deliver p"
  using assms by (auto simp: books_def set_blocker_def distinct_update update_conv' fun_eq_iff)

lemma books_delete:
  assumes "books c pending p"
  shows "books c (pending - {actionID}) (delete_blocker actionID p)"
    "pb_stream (delete_blocker actionID p) = pb_stream p" "pb_seq (delete_blocker actionID p) = pb_seq p"
    "pb_deliver (delete_blocker actionID p) = pb_deliver p"
  using assms by (auto simp: books_def delete_blocker_def distinct_delete delete_conv' fun_eq_iff)

section \<open>A session driven by a disciplined host\<close>

definition cycle_ok :: "Cycle \<Rightarrow> bool" where
  "cycle_ok c \<longleftrightarrow> handle_ok (cy_TurnID c) \<and> handle_ok (cy_CycleID c) \<and> cy_Origin c = CauseSubmission"

definition foreground_in :: "string set \<Rightarrow> ForegroundState" where
  "foreground_in pending = (if pending = {} then ForegroundRunning else ForegroundRequiresAction)"

text \<open>While a cycle runs; \<open>n\<close> bounds the sequences claimed, those still owed to blockers, and the
  identities allocated.\<close>

definition running_cycle :: "Cycle \<Rightarrow> string set \<Rightarrow> string set \<Rightarrow> nat \<Rightarrow> 'w Publisher \<Rightarrow> bool" where
  "running_cycle c pending used n p \<longleftrightarrow> (\<exists>s. publishing p s \<and>
     scene (foreground_in pending) [] c pending used (pb_seq p) (sm_reducer s) \<and> books c pending p \<and> cycle_ok c \<and>
     finite pending \<and> (\<forall>a \<in> pending. handle_ok a) \<and> unat (sm_sequence s) + card pending \<le> n \<and> unat (pb_seq p) \<le> n)"

definition between_cycles :: "string set \<Rightarrow> nat \<Rightarrow> 'w Publisher \<Rightarrow> bool" where
  "between_cycles used n p \<longleftrightarrow> (\<exists>s. publishing p s \<and> resting used (pb_seq p) (sm_reducer s) \<and>
     pb_blockers p = Some [] \<and> unat (sm_sequence s) \<le> n \<and> unat (pb_seq p) \<le> n)"

text \<open>A publication within a scene.\<close>

lemma publish_scene:
  assumes "publishing p s" and "event_wire e" and "ev_Type e \<noteq> EventSnapshot" and "unat (sm_sequence s) + 1 < 2 ^ 64"
    and "\<exists>r'. accepts e (sm_reducer s) r' \<and> P r'" and "\<And>d r. P (commit d r) = P r"
  shows "\<exists>p' s' w'. Publisher_emit e (p, w) = Some (None, p', w') \<and> publishing p' s' \<and> P (sm_reducer s') \<and>
    unat (sm_sequence s') = unat (sm_sequence s) + 1 \<and> p' = p\<lparr>pb_stream := Some s'\<rparr> \<and> told [e] (p, w) (p', w')"
proof -
  obtain r' where r': "accepts e (sm_reducer s) r'" "P r'" using assms(5) by blast
  from publish_accepted[OF assms(1-4) r'(1), of w] obtain p' s' w' where
    "Publisher_emit e (p, w) = Some (None, p', w')" "published_to p s r' p' s'" "told [e] (p, w) (p', w')" by blast
  with r'(2) assms(6) unat_claimed[OF assms(4)] show ?thesis unfolding published_to_def by metis
qed

lemma nextID_wire:
  assumes "ascii kind" and "length kind \<le> 90" and "nextID kind p = (i, p')" and "unat (pb_seq p) + 1 < 2 ^ 64"
  shows "handle_ok i" and "i = kind @ ''-'' @ show_nat (unat (pb_seq p'))" and "unat (pb_seq p') = unat (pb_seq p) + 1"
    and "p' = p\<lparr>pb_seq := pb_seq p + 1\<rparr>"
proof -
  show p': "p' = p\<lparr>pb_seq := pb_seq p + 1\<rparr>" and i: "i = kind @ ''-'' @ show_nat (unat (pb_seq p'))"
    using assms(3) by (auto simp: nextID_def Let_def)
  show "unat (pb_seq p') = unat (pb_seq p) + 1" using unat_claimed[OF assms(4)] p' by simp
  have "wire_string ((kind @ ''-'') @ show_nat (unat (pb_seq p')))"
    using assms(1,2) by (intro allocated_wire) (simp_all add: ascii_def)
  then show "handle_ok i" using i by (simp add: handle_ok_def)
qed

lemma prompt_step:
  assumes p: "between_cycles used n p" and sub: "handle_ok (sb_SubmissionID sub)" "handle_ok (sb_ClientNonce sub)"
      "wire_string (sb_RunID sub)" and room: "n + 3 < 2 ^ 64"
  shows "\<exists>p' w'. Accept c sub (p, w) = Some (None, prompted (pb_seq p) c, p', w') \<and>
    running_cycle (prompted (pb_seq p) c) {} used (n + 3) p' \<and> pb_seq p' = pb_seq p + 2 \<and>
    told (said (prompted (pb_seq p) c) {} (Prompt sub)) (p, w) (p', w')"
proof -
  obtain s where s: "publishing p s" "resting used (pb_seq p) (sm_reducer s)" "pb_blockers p = Some []"
    "unat (sm_sequence s) \<le> n" "unat (pb_seq p) \<le> n" using p by (auto simp: between_cycles_def)
  obtain t p1 where t: "nextID ''turn'' p = (t, p1)" by fastforce
  have t1: "handle_ok t" "t = ''turn-'' @ show_nat (unat (pb_seq p1))" "unat (pb_seq p1) = unat (pb_seq p) + 1"
    "p1 = p\<lparr>pb_seq := pb_seq p + 1\<rparr>"
    using nextID_wire[OF _ _ t] s(5) room by (simp_all add: ascii_def)
  obtain y p2 where y: "nextID ''cycle'' p1 = (y, p2)" by fastforce
  have y1: "handle_ok y" "unat (pb_seq p2) = unat (pb_seq p) + 2" "p2 = p1\<lparr>pb_seq := pb_seq p1 + 1\<rparr>"
    using nextID_wire[OF _ _ y] s(5) room t1(3) by (simp_all add: ascii_def)
  let ?c = "c\<lparr>cy_TurnID := t, cy_CycleID := y, cy_Origin := CauseSubmission\<rparr>"
  have c: "cycle_ok ?c" using t1(1) y1(1) by (simp add: cycle_ok_def)
  have p2: "publishing p2 s" "pb_blockers p2 = Some []"
    using s(1,3) t1(4) y1(3) by (simp_all add: publishing_def delivers_def)
  have "t \<notin> allocated (pb_seq p)" "t \<in> allocated (pb_seq p2)" "unat (pb_seq p) \<le> unat (pb_seq p2)"
    using allocated_new[of "pb_seq p" "unat (pb_seq p1)"] t1 y1 by (auto simp: allocated_def)
  then have "\<exists>r'. accepts (acceptedEvent sub t) (sm_reducer s) r' \<and> prompted_turn ?c used (pb_seq p2) r'"
    using rest_prompts[OF s(2), of ?c] by simp
  from publish_scene[OF p2(1) accepted_wire[OF sub t1(1)] _ _ this, of w] obtain p3 s3 w3 where e1:
    "Publisher_emit (acceptedEvent sub t) (p2, w) = Some (None, p3, w3)" "publishing p3 s3"
    "prompted_turn ?c used (pb_seq p2) (sm_reducer s3)" "unat (sm_sequence s3) = unat (sm_sequence s) + 1"
    "p3 = p2\<lparr>pb_stream := Some s3\<rparr>" "told [acceptedEvent sub t] (p2, w) (p3, w3)"
    using s(4) room by auto
  have "\<exists>r'. accepts (transitionEvent ForegroundRunning y t CauseSubmission) (sm_reducer s3) r' \<and>
      scene ForegroundRunning [] ?c {} used (pb_seq p2) r'"
    using prompted_reports[OF e1(3)] c by (simp add: cycle_ok_def handle_ok_def)
  from publish_scene[OF e1(2) transition_event_wire _ _ this, of w3] obtain p4 s4 w4 where e2:
    "Publisher_emit (transitionEvent ForegroundRunning y t CauseSubmission) (p3, w3) = Some (None, p4, w4)"
    "publishing p4 s4" "scene ForegroundRunning [] ?c {} used (pb_seq p2) (sm_reducer s4)"
    "unat (sm_sequence s4) = unat (sm_sequence s3) + 1" "p4 = p3\<lparr>pb_stream := Some s4\<rparr>"
    "told [transitionEvent ForegroundRunning y t CauseSubmission] (p3, w3) (p4, w4)"
    using e1(4) s(4) room t1(1) y1(1) by auto
  have "Accept c sub (p, w) = Some (None, ?c, p4, w4)"
    using publishing_active[OF s(1)] t y e1(1) e2(1) by (simp add: Accept_def Let_def then_publish_def)
  moreover have "running_cycle ?c {} used (n + 3) p4"
    unfolding running_cycle_def
    using e2(2,3,4) e1(4) e2(5) e1(5) p2(2) s(4,5) y1(2) c
    by (intro exI[of _ s4]) (simp add: foreground_in_def books_def)
  moreover have seq: "pb_seq p1 = pb_seq p + 1" "pb_seq p2 = pb_seq p + 2" using t1(4) y1(3) by simp_all
  moreover have "?c = prompted (pb_seq p) c"
    using t1(2) nextID_wire(2)[OF _ _ y] s(5) room t1(3) seq by (simp add: prompted_def ascii_def)
  moreover have "told [acceptedEvent sub t, transitionEvent ForegroundRunning y t CauseSubmission] (p, w) (p4, w4)"
    using told_append[OF e1(6) e2(6)] told_cong(1)[of p2 p] t1(4) y1(3) by simp
  then have "told (said ?c {} (Prompt sub)) (p, w) (p4, w4)" by (simp add: reports_def)
  moreover have "pb_seq p4 = pb_seq p2" using e2(5) e1(5) by simp
  ultimately show ?thesis by metis
qed

lemma ask_step:
  assumes p: "running_cycle c pending used n p" and a: "actionID \<notin> used" "handle_ok actionID" "ActionKind_Valid kind"
    and room: "n + 3 < 2 ^ 64"
  shows "\<exists>p' w'. publisher_ActionPending c actionID kind (p, w) = Some (None, p', w') \<and>
    running_cycle c (insert actionID pending) (insert actionID used) (n + 3) p' \<and> pb_seq p' = pb_seq p \<and>
    told (said c pending (Ask actionID kind)) (p, w) (p', w')"
proof -
  obtain s where s: "publishing p s" "scene (foreground_in pending) [] c pending used (pb_seq p) (sm_reducer s)"
    "books c pending p" "cycle_ok c" "finite pending" "\<forall>a \<in> pending. handle_ok a"
    "unat (sm_sequence s) + card pending \<le> n" "unat (pb_seq p) \<le> n" using p by (auto simp: running_cycle_def)
  have c: "handle_ok (cy_TurnID c)" "handle_ok (cy_CycleID c)" "cy_Origin c = CauseSubmission"
    "cy_TurnID c \<noteq> []" "cy_CycleID c \<noteq> []" using s(4) by (auto simp: cycle_ok_def handle_ok_def)
  have new: "actionID \<notin> pending" using s(2) a(1) unfolding scene_def by blast
  have "kind \<noteq> []" using a(3) by (auto simp: ActionKind_Valid_def vocab)
  define owed where "owed = (if foreground_in pending = ForegroundRequiresAction then [] else cy_CycleID c)"
  let ?owner = "\<lparr>ow_Type = OwnerTurn, ow_ID = cy_TurnID c\<rparr>" and ?all = "insert actionID pending" and ?used = "insert actionID used"
  from publish_scene[OF s(1) pending_event_wire[OF a(2,3) c(1)] _ _ scene_asks[OF s(2) a(1) \<open>kind \<noteq> []\<close> c(4), folded owed_def], of w]
  obtain p1 s1 w1 where e1: "Publisher_emit (actionEvent (pendingAction actionID kind ?owner True)) (p, w) = Some (None, p1, w1)"
    "publishing p1 s1" "scene (foreground_in pending) owed c ?all ?used (pb_seq p) (sm_reducer s1)"
    "unat (sm_sequence s1) = unat (sm_sequence s) + 1" "p1 = p\<lparr>pb_stream := Some s1\<rparr>"
    "told [actionEvent (pendingAction actionID kind ?owner True)] (p, w) (p1, w1)"
    using s(7) room by auto
  have b1: "books c pending p1" using s(3) e1(5) by simp
  have "\<exists>p2 s2 w2. (if pendingFor p1 (cy_CycleID c) = 0 then Publisher_emit (transitionEvent ForegroundRequiresAction
      (cy_CycleID c) (cy_TurnID c) (cy_Origin c)) (p1, w1) else Some (None, p1, w1)) = Some (None, p2, w2) \<and>
    publishing p2 s2 \<and> scene ForegroundRequiresAction [] c ?all ?used (pb_seq p) (sm_reducer s2) \<and>
    unat (sm_sequence s2) \<le> unat (sm_sequence s1) + 1 \<and> p2 = p1\<lparr>pb_stream := Some s2\<rparr> \<and>
    told (if pending = {} then [reports ForegroundRequiresAction c] else []) (p1, w1) (p2, w2)"
  proof (cases "pending = {}")
    case True
    have "\<exists>r'. accepts (transitionEvent ForegroundRequiresAction (cy_CycleID c) (cy_TurnID c) CauseSubmission) (sm_reducer s1) r' \<and>
        scene ForegroundRequiresAction [] c ?all ?used (pb_seq p) r'"
      by (rule scene_reports[OF e1(3) c(4,5)]) (simp add: owed_def)
    from publish_scene[OF e1(2) transition_event_wire[OF _ c(2,1)] _ _ this, of w1] show ?thesis
      using True books_blockedBy(4)[OF b1] c(3) e1(4) s(7) room by (auto simp: le_Suc_eq reports_def)
  next
    case False
    then have "foreground_in pending = ForegroundRequiresAction" "owed = []" by (simp_all add: foreground_in_def owed_def)
    then show ?thesis using False books_blockedBy(4)[OF b1] e1 by (auto simp: told_none publishing_def)
  qed
  then obtain p2 s2 w2 where e2: "(if pendingFor p1 (cy_CycleID c) = 0 then Publisher_emit (transitionEvent ForegroundRequiresAction
      (cy_CycleID c) (cy_TurnID c) (cy_Origin c)) (p1, w1) else Some (None, p1, w1)) = Some (None, p2, w2)"
    "publishing p2 s2" "scene ForegroundRequiresAction [] c ?all ?used (pb_seq p) (sm_reducer s2)"
    "unat (sm_sequence s2) \<le> unat (sm_sequence s1) + 1" "p2 = p1\<lparr>pb_stream := Some s2\<rparr>"
    "told (if pending = {} then [reports ForegroundRequiresAction c] else []) (p1, w1) (p2, w2)" by blast
  have "books c pending p2" using b1 e2(5) by simp
  from books_set[OF this, of actionID] obtain p3 where p3: "set_blocker actionID (cy_CycleID c) p2 = Some p3"
    "books c ?all p3" "pb_stream p3 = pb_stream p2" "pb_seq p3 = pb_seq p2" "pb_deliver p3 = pb_deliver p2" by blast
  have "publisher_ActionPending c actionID kind (p, w) = Some (None, p3, w2)"
    using publishing_active[OF s(1)] c(4) e1(1) e2(1) p3(1)
    by (simp add: publisher_ActionPending_def Let_def then_publish_def)
  moreover have "publishing p3 s2" using e2(2) p3(3,5) by (simp add: publishing_def delivers_def)
  then have "running_cycle c ?all ?used (n + 3) p3"
    unfolding running_cycle_def
    using e2(3,4) e1(4,5) p3(2,4) e2(5) s(4-8) a(2) new
    by (intro exI[of _ s2]) (simp add: foreground_in_def)
  moreover have "told (said c pending (Ask actionID kind)) (p, w) (p3, w2)"
    using told_append[OF e1(6) e2(6)] told_cong(2)[OF p3(3,5)] by simp
  moreover have "pb_seq p3 = pb_seq p" using p3(4) e2(5) e1(5) by simp
  ultimately show ?thesis by blast
qed

lemma reply_step:
  assumes p: "running_cycle c pending used n p" and a: "actionID \<in> pending" "ActionState_Valid state" "ActionState_Terminal state"
    and room: "n + 3 < 2 ^ 64"
  shows "\<exists>p' w'. ActionResolved c actionID state (p, w) = Some (None, p', w') \<and>
    running_cycle c (pending - {actionID}) used (n + 3) p' \<and> pb_seq p' = pb_seq p \<and>
    told (said c pending (Reply actionID state)) (p, w) (p', w')"
proof -
  obtain s where s: "publishing p s" "scene (foreground_in pending) [] c pending used (pb_seq p) (sm_reducer s)"
    "books c pending p" "cycle_ok c" "finite pending" "\<forall>a \<in> pending. handle_ok a"
    "unat (sm_sequence s) + card pending \<le> n" "unat (pb_seq p) \<le> n" using p by (auto simp: running_cycle_def)
  have c: "handle_ok (cy_TurnID c)" "handle_ok (cy_CycleID c)" "cy_Origin c = CauseSubmission"
    "cy_TurnID c \<noteq> []" "cy_CycleID c \<noteq> []" using s(4) by (auto simp: cycle_ok_def handle_ok_def)
  let ?rest = "pending - {actionID}"
  define p0 where "p0 = delete_blocker actionID p"
  note del = books_delete[OF s(3), of actionID, folded p0_def]
  have p0: "publishing p0 s" using s(1) del(2,4) by (simp add: publishing_def delivers_def)
  have ra: "foreground_in pending = ForegroundRequiresAction" using a(1) by (auto simp: foreground_in_def)
  have "handle_ok actionID" using s(6) a(1) by blast
  from publish_scene[OF p0 resolved_event_wire[OF this a(2)] _ _ scene_answers[OF s(2) a(1,3)], of w]
  obtain p1 s1 w1 where e1: "Publisher_emit (actionEvent (resolvedAction actionID state)) (p0, w) = Some (None, p1, w1)"
    "publishing p1 s1" "scene ForegroundRequiresAction [] c ?rest used (pb_seq p) (sm_reducer s1)"
    "unat (sm_sequence s1) = unat (sm_sequence s) + 1" "p1 = p0\<lparr>pb_stream := Some s1\<rparr>"
    "told [actionEvent (resolvedAction actionID state)] (p0, w) (p1, w1)"
    using s(7) room ra by auto
  have b1: "books c ?rest p1" using del(1) e1(5) by simp
  have "\<exists>p2 s2 w2. (if pendingFor p1 (cy_CycleID c) > 0 then Some (None, p1, w1) else Publisher_emit (transitionEvent ForegroundRunning
      (cy_CycleID c) (cy_TurnID c) (cy_Origin c)) (p1, w1)) = Some (None, p2, w2) \<and>
    publishing p2 s2 \<and> scene (foreground_in ?rest) [] c ?rest used (pb_seq p) (sm_reducer s2) \<and>
    unat (sm_sequence s2) \<le> unat (sm_sequence s1) + 1 \<and> p2 = p1\<lparr>pb_stream := Some s2\<rparr> \<and>
    told (if ?rest = {} then [reports ForegroundRunning c] else []) (p1, w1) (p2, w2)"
  proof (cases "?rest = {}")
    case True
    have "\<exists>r'. accepts (transitionEvent ForegroundRunning (cy_CycleID c) (cy_TurnID c) CauseSubmission) (sm_reducer s1) r' \<and>
        scene ForegroundRunning [] c ?rest used (pb_seq p) r'"
      using True by (intro scene_reports[OF e1(3) c(4,5)]) simp
    from publish_scene[OF e1(2) transition_event_wire[OF _ c(2,1)] _ _ this, of w1] e1(4) s(7) room
    obtain p2 s2 w2 where "Publisher_emit (transitionEvent ForegroundRunning (cy_CycleID c) (cy_TurnID c) CauseSubmission) (p1, w1) =
        Some (None, p2, w2)" "publishing p2 s2" "scene ForegroundRunning [] c ?rest used (pb_seq p) (sm_reducer s2)"
      "unat (sm_sequence s2) = unat (sm_sequence s1) + 1" "p2 = p1\<lparr>pb_stream := Some s2\<rparr>"
      "told [transitionEvent ForegroundRunning (cy_CycleID c) (cy_TurnID c) CauseSubmission] (p1, w1) (p2, w2)" by auto
    with True books_blockedBy(4)[OF b1] c(3) show ?thesis
      by (intro exI[of _ p2] exI[of _ s2] exI[of _ w2]) (simp add: foreground_in_def reports_def)
  next
    case False
    then show ?thesis using books_blockedBy(4)[OF b1] e1 by (auto simp: foreground_in_def told_none publishing_def)
  qed
  then obtain p2 s2 w2 where e2: "(if pendingFor p1 (cy_CycleID c) > 0 then Some (None, p1, w1) else Publisher_emit
      (transitionEvent ForegroundRunning (cy_CycleID c) (cy_TurnID c) (cy_Origin c)) (p1, w1)) = Some (None, p2, w2)"
    "publishing p2 s2" "scene (foreground_in ?rest) [] c ?rest used (pb_seq p) (sm_reducer s2)"
    "unat (sm_sequence s2) \<le> unat (sm_sequence s1) + 1" "p2 = p1\<lparr>pb_stream := Some s2\<rparr>"
    "told (if ?rest = {} then [reports ForegroundRunning c] else []) (p1, w1) (p2, w2)" by blast
  have "map_of (blockers p) actionID = Some (cy_CycleID c)"
    using s(3) a(1) by (auto simp: books_def blockers_def)
  then have "ActionResolved c actionID state (p, w) = Some (None, p2, w2)"
    using publishing_active[OF s(1)] e1(1) e2(1) by (simp add: ActionResolved_def then_publish_def p0_def)
  moreover have "Suc (card ?rest) = card pending" using s(5) a(1) by (rule card.remove[symmetric])
  then have "running_cycle c ?rest used (n + 3) p2"
    unfolding running_cycle_def
    using e2(2,3,4,5) e1(4,5) del(3) b1 s(4-8)
    by (intro exI[of _ s2]) simp
  moreover have "told (said c pending (Reply actionID state)) (p, w) (p2, w2)"
    using told_append[OF e1(6) e2(6)] told_cong(1)[OF del(2,4)] by simp
  moreover have "pb_seq p2 = pb_seq p" using del(3) e2(5) e1(5) by simp
  ultimately show ?thesis by blast
qed

text \<open>The cancellations with which a cycle ends.\<close>

lemma cancel_step:
  assumes "publishing p s" and "scene ForegroundRequiresAction [] c (set as) used k (sm_reducer s)" and "books c (set as) p"
    and "distinct as" and "\<forall>a \<in> set as. handle_ok a" and "unat (sm_sequence s) + length as < 2 ^ 64"
  shows "\<exists>p' s' w'. cancel_blockers as (p, w) = Some (None, p', w') \<and> publishing p' s' \<and>
    scene ForegroundRequiresAction [] c {} used k (sm_reducer s') \<and> books c {} p' \<and> pb_seq p' = pb_seq p \<and>
    unat (sm_sequence s') = unat (sm_sequence s) + length as \<and>
    told (map (\<lambda>a. actionEvent (resolvedAction a ActionCancelled)) as) (p, w) (p', w')"
  using assms
proof (induction as arbitrary: p s w)
  case (Cons a as)
  have cancelled: "ActionState_Valid ActionCancelled" "ActionState_Terminal ActionCancelled"
    by (simp_all add: ActionState_Valid_def ActionState_Terminal_def vocab)
  have a: "a \<in> set (a # as)" "set (a # as) - {a} = set as" using Cons.prems(4) by auto
  from publish_scene[OF Cons.prems(1) resolved_event_wire[OF _ cancelled(1)] _ _ scene_answers[OF Cons.prems(2) a(1) cancelled(2), unfolded a(2)], of w]
  obtain p1 s1 w1 where e1: "Publisher_emit (actionEvent (resolvedAction a ActionCancelled)) (p, w) = Some (None, p1, w1)"
    "publishing p1 s1" "scene ForegroundRequiresAction [] c (set as) used k (sm_reducer s1)"
    "unat (sm_sequence s1) = unat (sm_sequence s) + 1" "p1 = p\<lparr>pb_stream := Some s1\<rparr>"
    "told [actionEvent (resolvedAction a ActionCancelled)] (p, w) (p1, w1)"
    using Cons.prems(5,6) by auto
  define p2 where "p2 = delete_blocker a p1"
  have "books c (set (a # as)) p1" using Cons.prems(3) e1(5) by simp
  note del = books_delete[OF this, of a, folded p2_def, unfolded a(2)]
  have "publishing p2 s1" using e1(2) del(2,4) by (simp add: publishing_def delivers_def)
  from Cons.IH[OF this e1(3) del(1), of w1] Cons.prems(4,5,6) e1(4)
  obtain p3 s3 w3 where "cancel_blockers as (p2, w1) = Some (None, p3, w3)" "publishing p3 s3"
    "scene ForegroundRequiresAction [] c {} used k (sm_reducer s3)" "books c {} p3" "pb_seq p3 = pb_seq p2"
    "unat (sm_sequence s3) = unat (sm_sequence s1) + length as"
    "told (map (\<lambda>a. actionEvent (resolvedAction a ActionCancelled)) as) (p2, w1) (p3, w3)" by auto
  moreover from told_append[OF e1(6)] this(7) have
    "told (map (\<lambda>a. actionEvent (resolvedAction a ActionCancelled)) (a # as)) (p, w) (p3, w3)"
    using told_cong(1)[OF del(2,4)] by fastforce
  ultimately show ?case using e1(1,4,5) del(3)
    by (intro exI[of _ p3] exI[of _ s3] exI[of _ w3]) (simp add: then_publish_def p2_def)
next
  case Nil
  then show ?case by (intro exI[of _ p] exI[of _ s] exI[of _ w]) (simp add: told_none publishing_def)
qed

lemma books_empty: "books c {} p \<Longrightarrow> pb_blockers p = Some []"
proof -
  assume "books c {} p"
  then obtain m where m: "pb_blockers p = Some m" "map_of m = (\<lambda>a. None)" by (auto simp: books_def)
  then have "fst ` set m = {}" by (metis dom_map_of_conv_image_fst dom_empty empty_def)
  with m(1) show ?thesis by simp
qed

lemma finish_step:
  assumes p: "running_cycle c pending used n p"
    and o: "Outcome_Valid outcome" "outcome = OutcomeFailed \<or> validStopReason reason" and room: "n + 3 < 2 ^ 64"
  shows "\<exists>p' w'. Idle c reason outcome (p, w) = Some (None, p', w') \<and> between_cycles used (n + 3) p' \<and>
    pb_seq p' = pb_seq p \<and> told (said c pending (Finish reason outcome)) (p, w) (p', w')"
proof -
  obtain s where s: "publishing p s" "scene (foreground_in pending) [] c pending used (pb_seq p) (sm_reducer s)"
    "books c pending p" "cycle_ok c" "finite pending" "\<forall>a \<in> pending. handle_ok a"
    "unat (sm_sequence s) + card pending \<le> n" "unat (pb_seq p) \<le> n" using p by (auto simp: running_cycle_def)
  have c: "handle_ok (cy_TurnID c)" "handle_ok (cy_CycleID c)" "cy_Origin c = CauseSubmission"
    "cy_TurnID c \<noteq> []" "cy_CycleID c \<noteq> []" using s(4) by (auto simp: cycle_ok_def handle_ok_def)
  let ?as = "blockedBy p (cy_CycleID c)"
  note as = books_blockedBy[OF s(3)]
  have len: "length ?as = card pending" using as distinct_card by metis
  let ?cancels = "map (\<lambda>a. actionEvent (resolvedAction a ActionCancelled)) ?as"
  have "\<exists>st p1 s1 w1. cancel_blockers ?as (p, w) = Some (None, p1, w1) \<and> publishing p1 s1 \<and>
    scene st [] c {} used (pb_seq p) (sm_reducer s1) \<and> books c {} p1 \<and> pb_seq p1 = pb_seq p \<and>
    unat (sm_sequence s1) \<le> n \<and> told ?cancels (p, w) (p1, w1)"
  proof (cases "pending = {}")
    case True
    then have "?as = []" using as(1) by simp
    then show ?thesis using s True by (auto simp: told_none publishing_def)
  next
    case False
    then have "scene ForegroundRequiresAction [] c (set ?as) used (pb_seq p) (sm_reducer s)"
      using s(2) as(1) by (simp add: foreground_in_def)
    from cancel_step[OF s(1) this, of w] s(3,6,7) as len room
    obtain p1 s1 w1 where "cancel_blockers ?as (p, w) = Some (None, p1, w1)" "publishing p1 s1"
      "scene ForegroundRequiresAction [] c {} used (pb_seq p) (sm_reducer s1)" "books c {} p1" "pb_seq p1 = pb_seq p"
      "unat (sm_sequence s1) = unat (sm_sequence s) + length ?as" "told ?cancels (p, w) (p1, w1)" by auto
    with s(7) len show ?thesis
      by (intro exI[of _ ForegroundRequiresAction] exI[of _ p1] exI[of _ s1] exI[of _ w1]) simp
  qed
  then obtain st p1 s1 w1 where e1: "cancel_blockers ?as (p, w) = Some (None, p1, w1)" "publishing p1 s1"
    "scene st [] c {} used (pb_seq p) (sm_reducer s1)" "books c {} p1" "pb_seq p1 = pb_seq p"
    "unat (sm_sequence s1) \<le> n" "told ?cancels (p, w) (p1, w1)" by blast
  let ?reason = "if outcome = OutcomeFailed then [] else reason"
  have r: "outcome \<noteq> []" "outcome = OutcomeFailed \<longleftrightarrow> ?reason = []" "if outcome = OutcomeFailed then ?reason = [] else validStopReason ?reason"
    using outcome_wire[OF o(1)] stop_reason_wire[of reason] o(2) by auto
  from publish_scene[OF e1(2) idle_event_wire[OF o(1) r(3) c(2,1)] _ _ scene_ends[OF e1(3) c(4,5) r(1,2)], of w1]
  obtain p2 s2 w2 where e2: "Publisher_emit (idleEvent (cy_CycleID c) (cy_TurnID c) CauseSubmission ?reason outcome) (p1, w1) =
      Some (None, p2, w2)" "publishing p2 s2" "resting used (pb_seq p) (sm_reducer s2)"
    "unat (sm_sequence s2) = unat (sm_sequence s1) + 1" "p2 = p1\<lparr>pb_stream := Some s2\<rparr>"
    "told [idleEvent (cy_CycleID c) (cy_TurnID c) CauseSubmission ?reason outcome] (p1, w1) (p2, w2)"
    using e1(6) room by auto
  have "Idle c reason outcome (p, w) = Some (None, p2, w2)"
    using publishing_active[OF s(1)] c(3,4) e1(1) e2(1) by (simp add: Idle_def then_publish_def)
  moreover have "between_cycles used (n + 3) p2"
    unfolding between_cycles_def using e2 e1(4,5,6) s(8) books_empty[OF e1(4)]
    by (intro exI[of _ s2]) simp
  moreover have "told (said c pending (Finish reason outcome)) (p, w) (p2, w2)"
    using told_append[OF e1(7) e2(6)] as(3) c(3) by simp
  moreover have "pb_seq p2 = pb_seq p" using e1(5) e2(5) by simp
  ultimately show ?thesis by blast
qed

section \<open>Opening\<close>

lemma open_reduces:
  assumes "Present n" and "handle_ok i" and "y \<noteq> []"
  shows "\<exists>r. Reduce (judged (snapshotEvent y) 1 (newStream i n) encoded) (sm_reducer (newStream i n)) = (None, r) \<and>
    ready ((newStream i n)\<lparr>sm_sequence := 1, sm_reducer := r\<rparr>) \<and> resting {} k r"
proof -
  let ?f = "foreground_of ForegroundIdle y []"
  let ?r = "\<lparr>rd_negotiated = n, rd_state = \<lparr>s_StreamID = i, s_ReducedThrough = 1, s_SuppressedRetransmissions = 0,
      s_Foreground = Some ?f, s_Turns = [], s_Activities = [], s_Actions = [], s_Closed = False\<rparr>,
    rd_base = 1, rd_started = True, rd_failed = None, rd_frames = None, rd_turnSeen = {}, rd_activitySeen = {},
    rd_blockedCycle = [], rd_actionCycle = Map.empty, rd_retired = {}\<rparr>"
  have "Reduce (judged (snapshotEvent y) 1 (newStream i n) encoded) (sm_reducer (newStream i n)) = (None, ?r)"
    using assms(3) by (simp add: judged_def newStream_def snapshotEvent_def foreground_of_def no_event_def reducer_steps)
  moreover have "ready ((newStream i n)\<lparr>sm_sequence := 1, sm_reducer := ?r\<rparr>)"
    using assms by (simp add: ready_def newStream_def handle_ok_def)
  ultimately show ?thesis by (intro exI[of _ ?r]) (simp add: resting_def)
qed

definition never_fails :: "'w deliver option \<Rightarrow> bool" where
  "never_fails send \<longleftrightarrow> (case send of None \<Rightarrow> True | Some send \<Rightarrow> \<forall>envelope w. fst (send envelope w) = None)"

lemma open_step:
  assumes "\<not> Publisher_active p" and "Present n" and "handle_ok i" and "never_fails send" and "unat (pb_seq p) + 1 < 2 ^ 64"
  shows "\<exists>p' w'. Open i n send (p, w) = Some (None, p', w') \<and> between_cycles {} (unat (pb_seq p) + 1) p' \<and>
    pb_seq p' = pb_seq p + 1 \<and> told [snapshotEvent (''cycle-'' @ show_nat (unat (pb_seq p + 1)))]
      (p\<lparr>pb_stream := Some (newStream i n), pb_deliver := send\<rparr>, w) (p', w')"
proof -
  let ?s = "newStream i n"
  define p1 where "p1 = p\<lparr>pb_stream := Some ?s, pb_deliver := send, pb_blockers := Some []\<rparr>"
  obtain y p2 where y: "nextID ''cycle'' p1 = (y, p2)" by fastforce
  have y1: "handle_ok y" "unat (pb_seq p2) = unat (pb_seq p) + 1" "p2 = p1\<lparr>pb_seq := pb_seq p1 + 1\<rparr>"
    using nextID_wire[OF _ _ y] assms(5) by (simp_all add: ascii_def p1_def)
  have neg: "rd_negotiated (sm_reducer ?s) = n" "sm_id ?s = i" "sm_sequence ?s = 0"
    by (simp_all add: newStream_def NewReducer_def reset_def blank_reducer_def)
  have "event_wire (snapshotEvent y)" using sample_wire y1(1) by (simp add: handle_ok_def)
  from emit_wire[OF this, of ?s 1, unfolded neg] assms(2,3) have "\<exists>encoded. emit (snapshotEvent y) ?s =
      Some (case Reduce (judged (snapshotEvent y) 1 ?s encoded) (sm_reducer ?s) of
      (Some v, r) \<Rightarrow> (Inl (Refused v), ?s\<lparr>sm_sequence := 1, sm_reducer := r\<rparr>)
    | (None, r) \<Rightarrow> (Inr (envelope_of i 1 encoded), ?s\<lparr>sm_sequence := 1, sm_reducer := r\<rparr>))"
    by (simp add: handle_ok_def)
  then obtain encoded where em: "emit (snapshotEvent y) ?s =
      Some (case Reduce (judged (snapshotEvent y) 1 ?s encoded) (sm_reducer ?s) of
      (Some v, r) \<Rightarrow> (Inl (Refused v), ?s\<lparr>sm_sequence := 1, sm_reducer := r\<rparr>)
    | (None, r) \<Rightarrow> (Inr (envelope_of i 1 encoded), ?s\<lparr>sm_sequence := 1, sm_reducer := r\<rparr>))" by blast
  obtain r where r: "Reduce (judged (snapshotEvent y) 1 ?s encoded) (sm_reducer ?s) = (None, r)"
    "ready (?s\<lparr>sm_sequence := 1, sm_reducer := r\<rparr>)" "resting {} (pb_seq p2) r"
    using open_reduces[OF assms(2,3), of y encoded "pb_seq p2"] y1(1) unfolding handle_ok_def by blast
  let ?s1 = "?s\<lparr>sm_sequence := 1, sm_reducer := r\<rparr>"
  let ?p3 = "p2\<lparr>pb_stream := Some ?s1\<rparr>"
  have p2: "pb_stream p2 = Some ?s" "pb_deliver p2 = send" "pb_blockers p2 = Some []" using y1(3) by (simp_all add: p1_def)
  have out: "emit (snapshotEvent y) ?s = Some (Inr (envelope_of i 1 encoded), ?s1)" using em r(1) by simp
  have one: "envelopes i 0 [snapshotEvent y] = [envelope_of i 1 encoded]" using emit_renders[OF out] neg by simp
  have "\<exists>w'. Publisher_emit (snapshotEvent y) (p2, w) = Some (None, ?p3, w') \<and> told [snapshotEvent y] (p2, w) (?p3, w')"
  proof (cases send)
    case None
    with p2 out one neg show ?thesis
      by (simp add: Publisher_emit_def Let_def told_def deliver_all_def del: envelopes.simps)
  next
    case (Some f)
    then have "fst (f (envelope_of i 1 encoded) w) = None" using assms(4) by (simp add: never_fails_def)
    then obtain w' where "f (envelope_of i 1 encoded) w = (None, w')" by (cases "f (envelope_of i 1 encoded) w") simp
    with p2 out one neg Some show ?thesis
      by (simp add: Publisher_emit_def Let_def told_def deliver_all_def del: envelopes.simps)
  qed
  then obtain w' where w': "Publisher_emit (snapshotEvent y) (p2, w) = Some (None, ?p3, w')"
    "told [snapshotEvent y] (p2, w) (?p3, w')" by blast
  have "Open i n send (p, w) = Some (None, ?p3, w')"
    using assms(1,2) y w'(1) by (simp add: Open_def Let_def p1_def)
  moreover have "publishing ?p3 ?s1"
    using r(2) p2(2) assms(4) by (simp add: publishing_def delivers_def never_fails_def)
  then have "between_cycles {} (unat (pb_seq p) + 1) ?p3"
    unfolding between_cycles_def using r(3) p2(3) y1(2) by (intro exI[of _ ?s1]) simp
  moreover have "y = ''cycle-'' @ show_nat (unat (pb_seq p + 1))" "pb_seq ?p3 = pb_seq p + 1"
    using y y1(3) by (auto simp: nextID_def Let_def p1_def)
  moreover have "told [snapshotEvent y] (p\<lparr>pb_stream := Some ?s, pb_deliver := send\<rparr>, w) (?p3, w')"
    using w'(2) told_cong(1)[of "p\<lparr>pb_stream := Some ?s, pb_deliver := send\<rparr>" p2] p2(1,2) by simp
  ultimately show ?thesis by metis
qed

section \<open>The whole session\<close>

definition in_phase :: "string set option \<Rightarrow> string set \<Rightarrow> nat \<Rightarrow> Cycle \<Rightarrow> 'w Publisher \<Rightarrow> bool" where
  "in_phase phase used n c p \<longleftrightarrow> (case phase of None \<Rightarrow> between_cycles used n p
     | Some pending \<Rightarrow> running_cycle c pending used n p)"

lemma in_phase_active: "in_phase phase used n c p \<Longrightarrow> Publisher_active p"
  by (auto simp: in_phase_def between_cycles_def running_cycle_def intro: publishing_active split: option.splits)

lemma in_phase_told: "in_phase phase used n c p \<Longrightarrow> told [] (p, w) (p, w)"
  by (auto simp: in_phase_def between_cycles_def running_cycle_def publishing_def told_none split: option.splits)

definition pending_in :: "string set option \<Rightarrow> string set" where
  "pending_in phase = (case phase of None \<Rightarrow> {} | Some pending \<Rightarrow> pending)"

lemma pending_in_simps [simp]: "pending_in None = {}" "pending_in (Some pending) = pending"
  by (simp_all add: pending_in_def)

text \<open>A run that goes on after one step.\<close>

lemma drive_goes_on:
  assumes "drive_step x c (p, w) = Some (None, c1, p1, w1)" and "told (said c' pending x) (p, w) (p1, w1)"
    and "\<exists>c2 p2 w2. drive xs c1 (p1, w1) = Some (None, c2, p2, w2) \<and> Publisher_active p2 \<and> told es (p1, w1) (p2, w2)"
  shows "\<exists>c2 p2 w2. drive (x # xs) c (p, w) = Some (None, c2, p2, w2) \<and> Publisher_active p2 \<and>
    told (said c' pending x @ es) (p, w) (p2, w2)"
  using assms told_append by fastforce

lemma drive_disciplined:
  assumes "disciplined phase used xs" and "in_phase phase used n c p" and "n + 3 * length xs < 2 ^ 64"
  shows "\<exists>c' p' w'. drive xs c (p, w) = Some (None, c', p', w') \<and> Publisher_active p' \<and>
    told (announced (pb_seq p) c (pending_in phase) xs) (p, w) (p', w')"
  using assms
proof (induction phase used xs arbitrary: n c p w rule: disciplined.induct)
  case (1 phase used)
  then show ?case using in_phase_active in_phase_told by fastforce
next
  case (2 used sub xs)
  then have "n + 3 < 2 ^ 64" "between_cycles used n p" by (simp_all add: in_phase_def)
  from prompt_step[OF this(2) _ _ _ this(1), of sub c w] 2(2)
  obtain p' w' where step: "Accept c sub (p, w) = Some (None, prompted (pb_seq p) c, p', w')"
    "running_cycle (prompted (pb_seq p) c) {} used (n + 3) p'" "pb_seq p' = pb_seq p + 2"
    "told (said (prompted (pb_seq p) c) {} (Prompt sub)) (p, w) (p', w')" by auto
  have "n + 3 + 3 * length xs < 2 ^ 64" using 2(4) by simp
  with step 2(2) "2.IH"[of "n + 3" "prompted (pb_seq p) c" p' w'] show ?case
    unfolding announced.simps by (intro drive_goes_on[OF _ step(4)]) (simp_all add: in_phase_def)
next
  case (3 pending used actionID kind xs)
  then have "n + 3 < 2 ^ 64" "running_cycle c pending used n p" by (simp_all add: in_phase_def)
  from ask_step[OF this(2) _ _ _ this(1), of actionID kind w] 3(2)
  obtain p' w' where step: "publisher_ActionPending c actionID kind (p, w) = Some (None, p', w')"
    "running_cycle c (insert actionID pending) (insert actionID used) (n + 3) p'" "pb_seq p' = pb_seq p"
    "told (said c pending (Ask actionID kind)) (p, w) (p', w')" by auto
  have "n + 3 + 3 * length xs < 2 ^ 64" using 3(4) by simp
  with step 3(2) "3.IH"[of "n + 3" c p' w'] show ?case
    unfolding announced.simps pending_in_simps by (intro drive_goes_on[OF _ step(4)]) (simp_all add: in_phase_def)
next
  case (4 pending used actionID state xs)
  then have "n + 3 < 2 ^ 64" "running_cycle c pending used n p" by (simp_all add: in_phase_def)
  from reply_step[OF this(2) _ _ _ this(1), of actionID state w] 4(2)
  obtain p' w' where step: "ActionResolved c actionID state (p, w) = Some (None, p', w')"
    "running_cycle c (pending - {actionID}) used (n + 3) p'" "pb_seq p' = pb_seq p"
    "told (said c pending (Reply actionID state)) (p, w) (p', w')" by auto
  have "n + 3 + 3 * length xs < 2 ^ 64" using 4(4) by simp
  with step 4(2) "4.IH"[of "n + 3" c p' w'] show ?case
    unfolding announced.simps pending_in_simps by (intro drive_goes_on[OF _ step(4)]) (simp_all add: in_phase_def)
next
  case (5 pending used reason outcome xs)
  then have "n + 3 < 2 ^ 64" "running_cycle c pending used n p" by (simp_all add: in_phase_def)
  from finish_step[OF this(2) _ _ this(1), of outcome reason w] 5(2)
  obtain p' w' where step: "Idle c reason outcome (p, w) = Some (None, p', w')" "between_cycles used (n + 3) p'"
    "pb_seq p' = pb_seq p" "told (said c pending (Finish reason outcome)) (p, w) (p', w')" by auto
  have "n + 3 + 3 * length xs < 2 ^ 64" using 5(4) by simp
  with step 5(2) "5.IH"[of "n + 3" c p' w'] show ?case
    unfolding announced.simps pending_in_simps by (intro drive_goes_on[OF _ step(4)]) (simp_all add: in_phase_def)
qed simp_all

text \<open>C15: a disciplined host is never refused, and everything it does is delivered.  From an open on
  an inactive publisher, and as long as delivery itself does not fail and the 64-bit counters do
  not run out, every step of every disciplined script returns no error and the incarnation stays
  open, whatever the interleaving of questions and answers: the publisher's announcements always
  agree with the reducer that judges its stream.  The delivery function has then been called with
  exactly the envelopes of the snapshot and of the events the protocol says for the script, each
  once, in their order, numbered from 1.\<close>

theorem disciplined_host_is_served:
  assumes "\<not> Publisher_active p" and "Present n" and "handle_ok i" and "never_fails send"
    and "disciplined None {} xs" and "unat (pb_seq p) + 1 + 3 * length xs < 2 ^ 64"
  shows "\<exists>s c' p'. Open i n send (p, w) = Some (None, s) \<and>
    drive xs c s = Some (None, c', p', deliver_all send (envelopes i 0
      (snapshotEvent (''cycle-'' @ show_nat (unat (pb_seq p + 1))) # announced (pb_seq p + 1) c {} xs)) w) \<and>
    Publisher_active p'"
proof -
  let ?new = "(p\<lparr>pb_stream := Some (newStream i n), pb_deliver := send\<rparr>, w)"
  let ?y = "''cycle-'' @ show_nat (unat (pb_seq p + 1))"
  obtain p1 w1 where p1: "Open i n send (p, w) = Some (None, p1, w1)" "between_cycles {} (unat (pb_seq p) + 1) p1"
    "pb_seq p1 = pb_seq p + 1" "told [snapshotEvent ?y] ?new (p1, w1)"
    using open_step[OF assms(1-4), of w] assms(6) by auto
  have "in_phase None {} (unat (pb_seq p) + 1) c p1" using p1(2) by (simp add: in_phase_def)
  from drive_disciplined[OF assms(5) this assms(6), of w1] p1(3) obtain c' p' w' where run:
    "drive xs c (p1, w1) = Some (None, c', p', w')" "Publisher_active p'"
    "told (announced (pb_seq p + 1) c {} xs) (p1, w1) (p', w')" by auto
  have "w' = deliver_all send (envelopes i 0 (snapshotEvent ?y # announced (pb_seq p + 1) c {} xs)) w"
    using told_append[OF p1(4) run(3)] by (auto simp: told_def newStream_def simp del: envelopes.simps)
  with p1(1) run(1,2) show ?thesis by blast
qed

definition sample_script :: "host_step list" where
  "sample_script = [Prompt \<lparr>sb_SubmissionID = ''p1'', sb_ClientNonce = ''n1'', sb_RunID = []\<rparr>, Ask ''x1'' ActionPermission,
     Ask ''x2'' ActionElicitation, Reply ''x1'' ActionAccepted, Finish ''end_turn'' OutcomeSuccess]"

theorem disciplined_host_is_served_witness:
  "\<exists>s c' p'. Open ''s1'' sample_negotiated (Some (\<lambda>envelope log. (None, log @ [envelope]))) (zero_publisher, []) = Some (None, s) \<and>
     drive sample_script blank_cycle s = Some (None, c', p',
       deliver_all (Some (\<lambda>envelope log. (None, log @ [envelope]))) (envelopes ''s1'' 0
         (snapshotEvent (''cycle-'' @ show_nat (unat (pb_seq (zero_publisher :: json list Publisher) + 1))) #
          announced (pb_seq (zero_publisher :: json list Publisher) + 1) blank_cycle {} sample_script)) []) \<and>
     Publisher_active p'"
proof (rule disciplined_host_is_served)
  have "wire_string s" if "s \<in> {''p1'', ''n1'', ''x1'', ''x2'', ''s1'', []}" for s
    using that by (intro token_wire) (auto simp: ascii_def)
  then show "disciplined None {} sample_script" "handle_ok ''s1''"
    by (simp_all add: sample_script_def handle_ok_def ActionKind_Valid_def ActionState_Valid_def
        ActionState_Terminal_def Outcome_Valid_def validStopReason_def vocab)
qed (simp_all add: zero_publisher_def Publisher_active_def sample_identity never_fails_def sample_script_def)

section \<open>Any host\<close>

text \<open>The operations of a publisher, for hosts that follow no protocol at all.\<close>

datatype 'w operation =
    DoOpen string Negotiated "'w deliver option"
  | DoNextID string
  | DoAccept Cycle Submission
  | DoNewAgentCycle
  | DoOpenAgentCycle Cycle
  | DoPending Cycle string ActionKind
  | DoResolved Cycle string ActionState
  | DoIdle Cycle string Outcome
  | DoFence
  | DoCorrelation Cycle string
  | DoActive

fun perform :: "'w operation \<Rightarrow> 'w session \<Rightarrow> 'w published" where
  "perform (DoOpen i n send) s = Open i n send s"
| "perform (DoNextID kind) s = Some (None, snd (NextID kind s))"
| "perform (DoAccept c sub) s = map_option (\<lambda>(e, c, s). (e, s)) (Accept c sub s)"
| "perform DoNewAgentCycle s = Some (None, snd (NewAgentCycle s))"
| "perform (DoOpenAgentCycle c) s = OpenAgentCycle c s"
| "perform (DoPending c actionID kind) s = publisher_ActionPending c actionID kind s"
| "perform (DoResolved c actionID state) s = ActionResolved c actionID state s"
| "perform (DoIdle c reason outcome) s = Idle c reason outcome s"
| "perform DoFence s = Some (None, publisher_Fence s)"
| "perform (DoCorrelation c actionID) s = (let _ = Correlation c actionID (fst s) in Some (None, s))"
| "perform DoActive s = (let _ = Publisher_active (fst s) in Some (None, s))"

text \<open>The errors of a run, and the state it leaves.\<close>

fun perform_all :: "'w operation list \<Rightarrow> 'w session \<Rightarrow> (publish_error option list \<times> 'w session) option" where
  "perform_all [] s = Some ([], s)"
| "perform_all (x # xs) s =
     (case perform x s of
        None \<Rightarrow> None
      | Some (e, s) \<Rightarrow> map_option (\<lambda>(es, s). (e # es, s)) (perform_all xs s))"

text \<open>A stream brings its blockers map with it, so no operation meets a nil one.\<close>

definition made :: "'w session \<Rightarrow> bool" where
  "made s \<longleftrightarrow> (pb_stream (fst s) \<noteq> None \<longrightarrow> pb_blockers (fst s) \<noteq> None)"

definition keeps_made :: "'w session \<Rightarrow> 'w published \<Rightarrow> bool" where
  "keeps_made s m \<longleftrightarrow> (\<exists>e s'. m = Some (e, s') \<and> made s' \<and> (pb_stream (fst s) \<noteq> None \<longrightarrow> pb_stream (fst s') \<noteq> None))"

lemma emits:
  "encodeEvent e \<noteq> None \<Longrightarrow> pb_stream (fst s) \<noteq> None \<Longrightarrow> made s \<Longrightarrow> keeps_made s (Publisher_emit e s)"
  by (cases s) (auto simp: Publisher_emit_def emit_def Let_def made_def keeps_made_def Publisher_fence_def
      split: option.split sum.split prod.split)

lemma has_payload [simp]:
  "encodeEvent (snapshotEvent c) \<noteq> None" "encodeEvent (acceptedEvent sub t) \<noteq> None"
  "encodeEvent (transitionEvent st c t cause) \<noteq> None" "encodeEvent (idleEvent c t cause reason outcome) \<noteq> None"
  "encodeEvent (actionEvent u) \<noteq> None"
  by (simp_all add: encodeEvent_def snapshotEvent_def acceptedEvent_def transitionEvent_def idleEvent_def actionEvent_def
      no_event_def Let_def)

lemma publishes:
  assumes "pb_stream (fst s) \<noteq> None" and "made s"
  shows "keeps_made s (Publisher_emit (acceptedEvent sub t) s)" "keeps_made s (Publisher_emit (snapshotEvent c) s)"
    "keeps_made s (Publisher_emit (transitionEvent st c t cause) s)"
    "keeps_made s (Publisher_emit (idleEvent c t cause reason outcome) s)" "keeps_made s (Publisher_emit (actionEvent u) s)"
  by (rule emits, rule has_payload, fact+)+

lemma keeps_made_refl [simp]: "made s \<Longrightarrow> keeps_made s (Some (e, s))"
  by (simp add: keeps_made_def)

lemma keeps_made_then:
  assumes "keeps_made s m" and "pb_stream (fst s) \<noteq> None"
    and "\<And>s'. made s' \<Longrightarrow> pb_stream (fst s') \<noteq> None \<Longrightarrow> keeps_made s' (k s')"
  shows "keeps_made s (then_publish m k)"
proof -
  obtain e s' where m: "m = Some (e, s')" "made s'" "pb_stream (fst s') \<noteq> None"
    using assms(1,2) by (auto simp: keeps_made_def)
  from assms(3)[OF m(2,3)] m show ?thesis by (cases e) (auto simp: then_publish_def keeps_made_def)
qed

lemma made_delete [simp]: "made (delete_blocker a p, w) = made (p, w)" "pb_stream (delete_blocker a p) = pb_stream p"
  by (simp_all add: made_def delete_blocker_def)

lemma keeps_made_cancel:
  fixes s :: "'w session"
  shows "made s \<Longrightarrow> pb_stream (fst s) \<noteq> None \<Longrightarrow> keeps_made s (cancel_blockers as s)"
proof (induction as arbitrary: s)
  case (Cons a as)
  have "keeps_made s' (case s' of (p, w) \<Rightarrow> cancel_blockers as (delete_blocker a p, w))"
    if "made s'" "pb_stream (fst s') \<noteq> None" for s' :: "'w session"
    using Cons.IH[of "(delete_blocker a (fst s'), snd s')"] that
    by (cases s') (simp add: keeps_made_def)
  then show ?case unfolding cancel_blockers.simps
    by (rule keeps_made_then[OF publishes(5)[OF Cons.prems(2,1)] Cons.prems(2)])
qed (simp add: keeps_made_def)

lemma active_stream: "Publisher_active p \<Longrightarrow> pb_stream p \<noteq> None"
  by (auto simp: Publisher_active_def split: option.splits)

lemma nextID_keeps: "nextID kind p = (i, p') \<Longrightarrow> pb_stream p' = pb_stream p \<and> pb_blockers p' = pb_blockers p"
  by (auto simp: nextID_def Let_def)

lemma perform_made:
  assumes "made s"
  shows "\<exists>e s'. perform x s = Some (e, s') \<and> made s'"
proof -
  obtain p w where s: "s = (p, w)" by fastforce
  have k: "keeps_made s m \<Longrightarrow> \<exists>e s'. m = Some (e, s') \<and> made s'" for m by (auto simp: keeps_made_def)
  have idle: "\<exists>e s'. Some (None, s) = Some (e :: publish_error option, s') \<and> made s'" using assms by simp
  show ?thesis
  proof (cases x)
    case (DoOpen i n send)
    show ?thesis
    proof (cases "\<not> Present n \<or> Publisher_active p")
      case False
      define p1 where "p1 = p\<lparr>pb_stream := Some (newStream i n), pb_deliver := send, pb_blockers := Some []\<rparr>"
      obtain y p2 where y: "nextID ''cycle'' p1 = (y, p2)" by fastforce
      have "pb_stream (fst (p2, w)) \<noteq> None" "made (p2, w)" using nextID_keeps[OF y] by (simp_all add: p1_def made_def)
      from publishes(2)[OF this, of y] have "\<exists>e s'. Publisher_emit (snapshotEvent y) (p2, w) = Some (e, s') \<and> made s'"
        by (auto simp: keeps_made_def)
      with False y s DoOpen show ?thesis by (simp add: Open_def Let_def p1_def)
    qed (use s idle DoOpen in \<open>simp add: Open_def\<close>)
  next
    case (DoNextID kind)
    with assms s show ?thesis by (simp add: NextID_def nextID_def Let_def made_def)
  next
    case (DoAccept c sub)
    show ?thesis
    proof (cases "Publisher_active p")
      case True
      obtain t p1 where t: "nextID ''turn'' p = (t, p1)" by fastforce
      obtain y p2 where y: "nextID ''cycle'' p1 = (y, p2)" by fastforce
      have st: "pb_stream (fst (p2, w)) \<noteq> None" "made (p2, w)"
        using nextID_keeps[OF t] nextID_keeps[OF y] active_stream[OF True] assms s by (simp_all add: made_def)
      let ?m = "then_publish (Publisher_emit (acceptedEvent sub t) (p2, w))
          (Publisher_emit (transitionEvent ForegroundRunning y t CauseSubmission))"
      have "keeps_made (p2, w) ?m" by (rule keeps_made_then[OF publishes(1)[OF st] st(1) publishes(3)])
      then obtain e s' where "?m = Some (e, s')" "made s'" by (auto simp: keeps_made_def)
      with True t y s DoAccept show ?thesis by (simp add: Accept_def Let_def)
    qed (use s idle DoAccept in \<open>simp add: Accept_def\<close>)
  next
    case DoNewAgentCycle
    with assms s show ?thesis by (simp add: NewAgentCycle_def nextID_def Let_def made_def split: option.split)
  next
    case (DoOpenAgentCycle c)
    then show ?thesis using assms s idle k[OF publishes(3)[of s]]
      by (auto simp: OpenAgentCycle_def split: option.split)
  next
    case (DoPending c actionID kind)
    show ?thesis
    proof (cases "\<not> Publisher_active p \<or> cy_TurnID c = []")
      case False
      have st: "pb_stream (fst s) \<noteq> None" using False active_stream[of p] s by simp
      have ask: "keeps_made s2 (map_option (\<lambda>p. (None, p, snd s2)) (set_blocker actionID (cy_CycleID c) (fst s2)))"
        if "made s2" "pb_stream (fst s2) \<noteq> None" for s2 :: "'a session"
        using that by (auto simp: keeps_made_def made_def set_blocker_def)
      have rest: "keeps_made s1 (then_publish
          (if pendingFor (fst s1) (cy_CycleID c) = 0 then
             Publisher_emit (transitionEvent ForegroundRequiresAction (cy_CycleID c) (cy_TurnID c) (cy_Origin c)) (fst s1, snd s1)
           else Some (None, fst s1, snd s1))
          (\<lambda>s2. map_option (\<lambda>p. (None, p, snd s2)) (set_blocker actionID (cy_CycleID c) (fst s2))))"
        if "made s1" "pb_stream (fst s1) \<noteq> None" for s1 :: "'a session"
        using that publishes(3)[OF that(2,1)] by (intro keeps_made_then[OF _ that(2) ask]) simp
      have "keeps_made s (perform x s)"
        using False s DoPending keeps_made_then[OF publishes(5)[OF st assms] st rest]
        by (simp add: publisher_ActionPending_def Let_def case_prod_unfold)
      then show ?thesis by (rule k)
    qed (use s idle DoPending in \<open>auto simp: publisher_ActionPending_def\<close>)
  next
    case (DoResolved c actionID state)
    show ?thesis
    proof (cases "map_of (blockers p) actionID \<noteq> Some (cy_CycleID c) \<or> \<not> Publisher_active p")
      case False
      let ?s = "(delete_blocker actionID p, w)"
      have st: "pb_stream (fst ?s) \<noteq> None" "made ?s" using False active_stream[of p] s assms by simp_all
      have rest: "keeps_made s1 (if pendingFor (fst s1) (cy_CycleID c) > 0 then Some (None, fst s1, snd s1)
          else Publisher_emit (transitionEvent ForegroundRunning (cy_CycleID c) (cy_TurnID c) (cy_Origin c)) (fst s1, snd s1))"
        if "made s1" "pb_stream (fst s1) \<noteq> None" for s1 :: "'a session"
        using that publishes(3)[OF that(2,1)] by simp
      have "keeps_made ?s (perform x s)"
        using False s DoResolved keeps_made_then[OF publishes(5)[OF st] st(1) rest]
        by (simp add: ActionResolved_def case_prod_unfold)
      then show ?thesis by (auto simp: keeps_made_def)
    qed (use s idle DoResolved in \<open>auto simp: ActionResolved_def\<close>)
  next
    case (DoIdle c reason outcome)
    show ?thesis
    proof (cases "\<not> Publisher_active p \<or> cy_TurnID c = []")
      case False
      have st: "pb_stream (fst s) \<noteq> None" using False active_stream[of p] s by simp
      have "keeps_made s (perform x s)"
        using False s DoIdle keeps_made_then[OF keeps_made_cancel[OF assms st] st publishes(4)]
        by (simp add: Idle_def)
      then show ?thesis by (rule k)
    qed (use s idle DoIdle in \<open>auto simp: Idle_def\<close>)
  next
    case DoFence
    with assms s show ?thesis by (simp add: publisher_Fence_def Publisher_fence_def made_def)
  qed (use assms in simp_all)
qed

text \<open>C16: a publisher never panics.  From its zero value, whatever operations follow in whatever
  order and whatever delivery does, no operation dereferences a nil stream or payload or
  writes to a nil map.\<close>

theorem publisher_never_panics:
  "perform_all xs (zero_publisher, w) \<noteq> None"
proof -
  have "made s \<Longrightarrow> perform_all xs s \<noteq> None" for s :: "'a session"
  proof (induction xs arbitrary: s)
    case (Cons x xs)
    obtain e s' where "perform x s = Some (e, s')" "made s'" using perform_made[OF Cons.prems] by blast
    with Cons.IH[of s'] show ?case by auto
  qed simp
  moreover have "made (zero_publisher, w)" by (simp add: made_def zero_publisher_def)
  ultimately show ?thesis .
qed

section \<open>Failures\<close>

definition fails_closed :: "'w published \<Rightarrow> bool" where
  "fails_closed m \<longleftrightarrow> (\<forall>e s'. m = Some (Some e, s') \<longrightarrow> \<not> Publisher_active (fst s'))"

lemma fence_inactive [simp]: "\<not> Publisher_active (Publisher_fence p)"
  by (simp add: Publisher_active_def Publisher_fence_def fenced_def fence_def Close_def split: option.split)

lemma fails_closed_emit [simp]: "fails_closed (Publisher_emit e s)"
  by (auto simp: fails_closed_def Publisher_emit_def Let_def split: prod.splits option.splits sum.splits)

lemma fails_closed_then [simp]: "fails_closed m \<Longrightarrow> (\<And>s. fails_closed (k s)) \<Longrightarrow> fails_closed (then_publish m k)"
  by (auto simp: fails_closed_def then_publish_def split: option.splits)

lemma fails_closed_ok [simp]: "fails_closed (Some (None, s))" "fails_closed (map_option (\<lambda>p. (None, p, w)) m)"
  by (auto simp: fails_closed_def)

lemma fails_closed_cancel [simp]: "fails_closed (cancel_blockers as s)"
  by (induction as arbitrary: s) (simp_all add: case_prod_unfold)

lemma fails_closed_perform:
  assumes "perform x s = Some (Some e, s')" and "e \<noteq> ForeignCycle"
  shows "\<not> Publisher_active (fst s')"
proof -
  have open_: "fails_closed (Open i n send s)" for i n send by (simp add: Open_def Let_def case_prod_unfold)
  have accept: "fails_closed (map_option (\<lambda>(e, c, s). (e, s)) (Accept c sub s))" for c sub
  proof -
    have "fails_closed m \<Longrightarrow> fails_closed (map_option (\<lambda>(e, c, s). (e, s)) (map_option (\<lambda>(e, s). (e, c, s)) m))"
      for m :: "'a published" and c :: Cycle
      by (auto simp: fails_closed_def)
    then show ?thesis by (simp add: Accept_def Let_def case_prod_unfold)
  qed
  have "fails_closed (publisher_ActionPending c a k s)" for c a k
    by (simp add: publisher_ActionPending_def Let_def case_prod_unfold)
  moreover have "fails_closed (ActionResolved c a st s)" for c a st
    by (simp add: ActionResolved_def case_prod_unfold)
  moreover have "fails_closed (Idle c reason outcome s)" for c reason outcome
    by (simp add: Idle_def case_prod_unfold)
  ultimately have "(\<forall>c. x \<noteq> DoOpenAgentCycle c) \<Longrightarrow> fails_closed (perform x s)"
    using open_ accept by (cases x) simp_all
  moreover have "OpenAgentCycle c s = Some (Some e, s') \<Longrightarrow> \<not> Publisher_active (fst s')" for c
    using assms(2)
    by (auto simp: OpenAgentCycle_def split: prod.splits option.splits if_splits
        dest: fails_closed_emit[unfolded fails_closed_def, rule_format])
  ultimately show ?thesis using assms(1) unfolding fails_closed_def by (metis perform.simps(5))
qed

text \<open>A publisher that is not active answers every operation but an open with no error, and
  leaves the outside world alone.\<close>

definition opens :: "'w operation \<Rightarrow> bool" where
  "opens x \<longleftrightarrow> (\<exists>i n send. x = DoOpen i n send)"

lemma inactive_silent:
  assumes "\<not> Publisher_active (fst s)" and "\<not> opens x"
  shows "\<exists>s'. perform x s = Some (None, s') \<and> snd s' = snd s \<and> \<not> Publisher_active (fst s')"
proof -
  obtain p w where s: "s = (p, w)" by fastforce
  have stream: "case pb_stream p of None \<Rightarrow> True | Some st \<Rightarrow> fenced st"
    using assms(1) s by (auto simp: Publisher_active_def split: option.splits)
  have kept: "\<not> Publisher_active (p\<lparr>pb_seq := k\<rparr>)" for k using assms(1) s by (simp add: Publisher_active_def)
  show ?thesis
    using assms s stream kept
    by (cases x) (auto simp: opens_def NextID_def nextID_def Let_def Accept_def NewAgentCycle_def OpenAgentCycle_def
        publisher_ActionPending_def ActionResolved_def Idle_def publisher_Fence_def split: option.splits)
qed

text \<open>C17: a failed publication ends the incarnation.  When an operation reports that its event
  was refused or its envelope could not be delivered, no operation but a new open publishes
  anything again: every later one reports no error and the outside world stays as the failure
  left it.\<close>

theorem failed_publication_fences:
  assumes "perform x s = Some (Some e, s')" and "e \<noteq> ForeignCycle" and "\<not> list_ex opens xs"
  shows "\<exists>s''. perform_all xs s' = Some (replicate (length xs) None, s'') \<and> snd s'' = snd s'"
proof -
  have "\<not> list_ex opens xs \<Longrightarrow> \<not> Publisher_active (fst t) \<Longrightarrow>
      \<exists>t'. perform_all xs t = Some (replicate (length xs) None, t') \<and> snd t' = snd t" for t :: "'a session"
  proof (induction xs arbitrary: t)
    case (Cons x xs)
    have "\<not> opens x" using Cons.prems(1) by simp
    from inactive_silent[OF Cons.prems(2) this] obtain t1 where t1: "perform x t = Some (None, t1)" "snd t1 = snd t"
      "\<not> Publisher_active (fst t1)" by blast
    with Cons.IH[OF _ t1(3)] Cons.prems(1) show ?case by auto
  qed simp
  with fails_closed_perform[OF assms(1,2)] assms(3) show ?thesis by blast
qed

theorem failed_publication_fences_witness:
  "\<exists>e s' s''. perform (DoOpen ''s1'' sample_negotiated (Some (\<lambda>envelope n. (Some ''broken pipe'', n + 1)))) (zero_publisher, 0 :: nat) =
       Some (Some e, s') \<and>
     perform_all [DoAccept blank_cycle blank_submission, DoFence, DoNewAgentCycle] s' = Some ([None, None, None], s'') \<and>
     snd s'' = 1"
proof -
  let ?send = "\<lambda>envelope n. (Some ''broken pipe'', n + 1 :: nat)"
  let ?p = "zero_publisher\<lparr>pb_stream := Some (newStream ''s1'' sample_negotiated), pb_deliver := Some ?send, pb_blockers := Some []\<rparr>"
  let ?p = "?p\<lparr>pb_seq := 1\<rparr>"
  have "show_nat 1 = ''1''" by code_simp
  then have y: "nextID ''cycle'' (zero_publisher\<lparr>pb_stream := Some (newStream ''s1'' sample_negotiated), pb_deliver := Some ?send,
      pb_blockers := Some []\<rparr>) = (''cycle-1'', ?p)"
    by (simp add: nextID_def zero_publisher_def)
  let ?s = "newStream ''s1'' sample_negotiated"
  have "event_wire (snapshotEvent ''cycle-1'')" by (rule sample_wire) (simp_all add: token_wire ascii_def)
  from emit_wire[OF this, of ?s 1] sample_identity obtain encoded where em: "emit (snapshotEvent ''cycle-1'') ?s =
      Some (case Reduce (judged (snapshotEvent ''cycle-1'') 1 ?s encoded) (sm_reducer ?s) of
      (Some v, r) \<Rightarrow> (Inl (Refused v), ?s\<lparr>sm_sequence := 1, sm_reducer := r\<rparr>)
    | (None, r) \<Rightarrow> (Inr (envelope_of (sm_id ?s) 1 encoded), ?s\<lparr>sm_sequence := 1, sm_reducer := r\<rparr>))"
    by (auto simp: newStream_def NewReducer_def reset_def blank_reducer_def)
  obtain r where "Reduce (judged (snapshotEvent ''cycle-1'') 1 ?s encoded) (sm_reducer ?s) = (None, r)"
    using open_reduces[OF sample_identity(2), of "''s1''"] sample_identity(1) by (force simp: handle_ok_def)
  then have "\<exists>s'. perform (DoOpen ''s1'' sample_negotiated (Some ?send)) (zero_publisher, 0) = Some (Some (DeliveryFailed ''broken pipe''), s', 1)"
    using em y sample_identity(2)
    by (simp add: Open_def Let_def Publisher_active_def zero_publisher_def Publisher_emit_def)
  then obtain s' where h: "perform (DoOpen ''s1'' sample_negotiated (Some ?send)) (zero_publisher, 0) =
    Some (Some (DeliveryFailed ''broken pipe''), s', 1)" by blast
  have "\<not> list_ex opens [DoAccept blank_cycle blank_submission, DoFence, DoNewAgentCycle]" by (simp add: opens_def)
  from failed_publication_fences[OF h _ this] h show ?thesis by (auto simp: numeral_3_eq_3)
qed

end
