(* ===== verification/Bytes.thy ===== *)
theory Bytes
  imports Prelude
begin

text \<open>
  The byte-level part of the standard library that the native logs use: lines, trimming of
  Unicode space, and \<open>json.Valid\<close>, a recognizer of JSON text with the nesting bound of
  \<open>encoding/json\<close>.  The recognizer runs on fuel; \<open>json_fuel_irrelevant\<close> shows that the fuel
  it is given decides nothing.
\<close>

section \<open>Lines\<close>

definition newline :: char where "newline = char_of (10 :: nat)"

text \<open>\<open>bytes.Lines\<close>: each line keeps its newline; only the last may lack one.\<close>

function lines_of :: "string \<Rightarrow> string list" where
  "lines_of s =
     (if s = [] then []
      else (takeWhile (\<lambda>c. c \<noteq> newline) s @ take 1 (dropWhile (\<lambda>c. c \<noteq> newline) s)) #
           lines_of (drop 1 (dropWhile (\<lambda>c. c \<noteq> newline) s)))"
  by pat_completeness auto
termination
proof (relation "measure length")
  fix s :: string
  assume "s \<noteq> []"
  then show "(drop 1 (dropWhile (\<lambda>c. c \<noteq> newline) s), s) \<in> measure length"
    using length_dropWhile_le[of "\<lambda>c. c \<noteq> newline" s] by (cases s) (auto simp: le_imp_less_Suc intro: le_imp_less_Suc)
qed simp

declare lines_of.simps [simp del]

text \<open>\<open>bytes.LastIndexByte(data, '\n') + 1\<close>.\<close>

definition complete_length :: "string \<Rightarrow> nat" where
  "complete_length s = length (dropWhile (\<lambda>c. c \<noteq> newline) (rev s))"

lemma lines_of_Nil [simp]: "lines_of [] = []"
  by (simp add: lines_of.simps)

lemma lines_of_line [simp]:
  "newline \<notin> set l \<Longrightarrow> lines_of ((l @ [newline]) @ rest) = (l @ [newline]) # lines_of rest"
  by (subst lines_of.simps) (auto simp: takeWhile_append dropWhile_append)

lemma concat_lines: "concat (lines_of s) = s"
proof (induction s rule: lines_of.induct)
  case (1 s)
  show ?case
  proof (cases "s = []")
    case False
    have "drop 1 (dropWhile (\<lambda>c. c \<noteq> newline) s) = dropWhile (\<lambda>c. c \<noteq> newline) s \<Longrightarrow> dropWhile (\<lambda>c. c \<noteq> newline) s = []"
      by (cases "dropWhile (\<lambda>c. c \<noteq> newline) s") auto
    have "take 1 (dropWhile (\<lambda>c. c \<noteq> newline) s) @ drop 1 (dropWhile (\<lambda>c. c \<noteq> newline) s) = dropWhile (\<lambda>c. c \<noteq> newline) s"
      by (rule append_take_drop_id)
    with 1 False show ?thesis by (subst lines_of.simps) (simp del: append_take_drop_id)
  qed simp
qed

text \<open>Text that ends on a line boundary can be split there.\<close>

definition on_boundary :: "string \<Rightarrow> bool" where
  "on_boundary s \<longleftrightarrow> s = [] \<or> last s = newline"

lemma lines_of_append: "on_boundary a \<Longrightarrow> lines_of (a @ b) = lines_of a @ lines_of b"
proof (induction a rule: lines_of.induct)
  case (1 a)
  show ?case
  proof (cases "a = []")
    case False
    with "1.prems" have "newline \<in> set a" by (auto simp: on_boundary_def dest: last_in_set)
    then obtain l r where a: "a = (l @ [newline]) @ r" "newline \<notin> set l"
      using split_list_first[of newline a] by auto
    have "dropWhile (\<lambda>c. c \<noteq> newline) (l @ newline # r) = dropWhile (\<lambda>c. c \<noteq> newline) (newline # r)"
      using a(2) by (intro dropWhile_append2) auto
    then have "drop 1 (dropWhile (\<lambda>c. c \<noteq> newline) a) = r" using a by simp
    moreover have "on_boundary r" using "1.prems" a(1) by (auto simp: on_boundary_def split: if_splits)
    ultimately have "lines_of (r @ b) = lines_of r @ lines_of b" using "1.IH" False by simp
    then show ?thesis using lines_of_line[OF a(2), of r] lines_of_line[OF a(2), of "r @ b"] a(1) by simp
  qed simp
qed

lemma boundary_rev: "on_boundary (rev s) \<longleftrightarrow> s = [] \<or> hd s = newline"
  by (cases s) (auto simp: on_boundary_def)

lemma complete_prefix:
  "on_boundary (take (complete_length s) s)" "newline \<notin> set (drop (complete_length s) s)"
  "complete_length s \<le> length s"
proof -
  let ?p = "\<lambda>c. c \<noteq> newline"
  have s: "s = rev (dropWhile ?p (rev s)) @ rev (takeWhile ?p (rev s))"
    by (metis rev_append rev_rev_ident takeWhile_dropWhile_id)
  have n: "complete_length s = length (rev (dropWhile ?p (rev s)))" by (simp add: complete_length_def)
  then have t: "take (complete_length s) s = rev (dropWhile ?p (rev s))"
    "drop (complete_length s) s = rev (takeWhile ?p (rev s))"
    by (metis s append_eq_conv_conj)+
  have "dropWhile ?p (rev s) = [] \<or> hd (dropWhile ?p (rev s)) = newline"
    using hd_dropWhile[of ?p "rev s"] by blast
  with t(1) show "on_boundary (take (complete_length s) s)" by (simp add: boundary_rev)
  show "newline \<notin> set (drop (complete_length s) s)" using t(2) set_takeWhileD[of newline ?p "rev s"] by auto
  show "complete_length s \<le> length s" using n s by (metis length_append le_add1)
qed

lemma complete_unique:
  assumes "s = a @ b" and "on_boundary a" and "newline \<notin> set b"
  shows "complete_length s = length a"
proof -
  have "dropWhile (\<lambda>c. c \<noteq> newline) (rev b @ rev a) = dropWhile (\<lambda>c. c \<noteq> newline) (rev a)"
    using assms(3) by (intro dropWhile_append2) auto
  also have "\<dots> = rev a" using assms(2) by (cases a rule: rev_cases) (auto simp: on_boundary_def)
  finally show ?thesis using assms(1) by (simp add: complete_length_def)
qed

section \<open>Unicode space\<close>

text \<open>The UTF-8 encodings of the characters \<open>unicode.IsSpace\<close> accepts.\<close>

definition spaces :: "nat list list" where
  "spaces = [[9], [10], [11], [12], [13], [32], [194, 133], [194, 160], [225, 154, 128], [226, 128, 128], [226, 128, 129],
     [226, 128, 130], [226, 128, 131], [226, 128, 132], [226, 128, 133], [226, 128, 134], [226, 128, 135], [226, 128, 136],
     [226, 128, 137], [226, 128, 138], [226, 128, 168], [226, 128, 169], [226, 128, 175], [226, 129, 159], [227, 128, 128]]"

definition byte_values :: "string \<Rightarrow> nat list" where
  "byte_values s = map of_char s"

definition leading_space :: "string \<Rightarrow> nat" where
  "leading_space s = (case find (\<lambda>e. take (length e) (byte_values (take 3 s)) = e) spaces of None \<Rightarrow> 0 | Some e \<Rightarrow> length e)"

definition trailing_space :: "string \<Rightarrow> nat" where
  "trailing_space s =
     (case find (\<lambda>e. take (length e) (byte_values (take 3 (rev s))) = rev e) spaces of None \<Rightarrow> 0 | Some e \<Rightarrow> length e)"

lemma find_Some_mem: "find P xs = Some e \<Longrightarrow> P e \<and> e \<in> set xs"
  by (induction xs) (auto split: if_splits)

lemma space_found: "find P spaces = Some e \<Longrightarrow> P e \<and> e \<noteq> []"
  by (drule find_Some_mem) (auto simp: spaces_def)

function trim_space_left :: "string \<Rightarrow> string" where
  "trim_space_left s = (if s = [] \<or> leading_space s = 0 then s else trim_space_left (drop (leading_space s) s))"
  by pat_completeness auto
termination by (relation "measure length") auto

function trim_space_right :: "string \<Rightarrow> string" where
  "trim_space_right s =
     (if s = [] \<or> trailing_space s = 0 then s else trim_space_right (take (length s - trailing_space s) s))"
  by pat_completeness auto
termination by (relation "measure length") auto

declare trim_space_left.simps [simp del] trim_space_right.simps [simp del]

definition TrimSpace :: "string \<Rightarrow> string" where
  "TrimSpace s = trim_space_right (trim_space_left s)"

definition trimmed :: "string \<Rightarrow> bool" where
  "trimmed s \<longleftrightarrow> s = [] \<or> leading_space s = 0 \<and> trailing_space s = 0"

lemma TrimSpace_trimmed: "trimmed s \<Longrightarrow> TrimSpace s = s"
  by (auto simp: TrimSpace_def trimmed_def trim_space_left.simps[of s] trim_space_right.simps[of s])

section \<open>JSON text\<close>

text \<open>Each reader gives what follows the text it recognized.\<close>

definition json_space :: "char \<Rightarrow> bool" where
  "json_space c \<longleftrightarrow> (of_char c :: nat) \<in> {9, 10, 13, 32}"

definition skip_space :: "string \<Rightarrow> string" where
  "skip_space s = dropWhile json_space s"

definition is_hex :: "char \<Rightarrow> bool" where
  "is_hex c \<longleftrightarrow> is_digit c \<or> 65 \<le> (of_char c :: nat) \<and> (of_char c :: nat) \<le> 70 \<or>
     97 \<le> (of_char c :: nat) \<and> (of_char c :: nat) \<le> 102"

definition quote :: char where "quote = CHR 0x22"
definition backslash :: char where "backslash = CHR 0x5C"

text \<open>A string after its opening quote.\<close>

function string_rest :: "string \<Rightarrow> string option" where
  "string_rest [] = None"
| "string_rest (c # r) =
     (if c = quote then Some r
      else if c = backslash then
        (case r of
           [] \<Rightarrow> None
         | e # r' \<Rightarrow>
             if e = CHR ''u'' then
               if length (takeWhile is_hex (take 4 r')) = 4 then string_rest (drop 4 r') else None
             else if e \<in> {CHR ''b'', CHR ''f'', CHR ''n'', CHR ''r'', CHR ''t'', CHR ''/'', backslash, quote} then string_rest r'
             else None)
      else if (of_char c :: nat) < 32 then None
      else string_rest r)"
  by pat_completeness auto
termination by (relation "measure length") auto

declare string_rest.simps [simp del]

definition digits_rest :: "string \<Rightarrow> string option" where
  "digits_rest s = (case s of [] \<Rightarrow> None | c # r \<Rightarrow> if is_digit c then Some (dropWhile is_digit r) else None)"

definition exponent_rest :: "string \<Rightarrow> string option" where
  "exponent_rest s = (case s of
     [] \<Rightarrow> Some []
   | c # r \<Rightarrow>
       if c = CHR ''e'' \<or> c = CHR ''E'' then
         digits_rest (if take 1 r = ''+'' \<or> take 1 r = ''-'' then drop 1 r else r)
       else Some s)"

definition fraction_rest :: "string \<Rightarrow> string option" where
  "fraction_rest s = (case s of
     [] \<Rightarrow> Some []
   | c # r \<Rightarrow> if c = CHR ''.'' then Option.bind (digits_rest r) exponent_rest else exponent_rest s)"

definition number_rest :: "string \<Rightarrow> string option" where
  "number_rest s = (case (if take 1 s = ''-'' then drop 1 s else s) of
     [] \<Rightarrow> None
   | c # r \<Rightarrow>
       if c = CHR ''0'' then fraction_rest r
       else if is_digit c then fraction_rest (dropWhile is_digit r)
       else None)"

definition literal_rest :: "string \<Rightarrow> string \<Rightarrow> string option" where
  "literal_rest l s = (if take (length l) s = l then Some (drop (length l) s) else None)"

text \<open>One level of a reader of values, of the members of an object (after its opening brace or a
  comma) and of the elements of an array, given the readers of the level below; \<open>depth\<close> is the
  nesting to spare.\<close>

definition value_step :: "(nat \<Rightarrow> string \<Rightarrow> string option) \<Rightarrow> (nat \<Rightarrow> string \<Rightarrow> string option) \<Rightarrow> nat \<Rightarrow> string \<Rightarrow>
    string option" where
  "value_step M E depth s =
     (case skip_space s of
        [] \<Rightarrow> None
      | c # r \<Rightarrow>
          if c = quote then string_rest r
          else if c = CHR ''{'' then
            if depth = 0 then None
            else if take 1 (skip_space r) = ''}'' then Some (drop 1 (skip_space r))
            else M (depth - 1) r
          else if c = CHR ''['' then
            if depth = 0 then None
            else if take 1 (skip_space r) = '']'' then Some (drop 1 (skip_space r))
            else E (depth - 1) r
          else if c = CHR ''t'' then literal_rest ''true'' (c # r)
          else if c = CHR ''f'' then literal_rest ''false'' (c # r)
          else if c = CHR ''n'' then literal_rest ''null'' (c # r)
          else number_rest (c # r))"

definition members_step :: "(string \<Rightarrow> string option) \<Rightarrow> (string \<Rightarrow> string option) \<Rightarrow> string \<Rightarrow> string option" where
  "members_step V M s =
     (case skip_space s of
        [] \<Rightarrow> None
      | c # r \<Rightarrow>
          if c \<noteq> quote then None
          else (case string_rest r of
                  None \<Rightarrow> None
                | Some r \<Rightarrow>
                    if take 1 (skip_space r) \<noteq> '':'' then None
                    else (case V (drop 1 (skip_space r)) of
                            None \<Rightarrow> None
                          | Some r \<Rightarrow>
                              if take 1 (skip_space r) = '','' then M (drop 1 (skip_space r))
                              else if take 1 (skip_space r) = ''}'' then Some (drop 1 (skip_space r))
                              else None)))"

definition elements_step :: "(string \<Rightarrow> string option) \<Rightarrow> (string \<Rightarrow> string option) \<Rightarrow> string \<Rightarrow> string option" where
  "elements_step V E s =
     (case V s of
        None \<Rightarrow> None
      | Some r \<Rightarrow>
          if take 1 (skip_space r) = '','' then E (drop 1 (skip_space r))
          else if take 1 (skip_space r) = '']'' then Some (drop 1 (skip_space r))
          else None)"

datatype reader = ReadValue | ReadMembers | ReadElements

primrec json_read :: "nat \<Rightarrow> reader \<Rightarrow> nat \<Rightarrow> string \<Rightarrow> string option" where
  "json_read 0 k depth s = None"
| "json_read (Suc fuel) k depth s =
     (case k of
        ReadValue \<Rightarrow> value_step (json_read fuel ReadMembers) (json_read fuel ReadElements) depth s
      | ReadMembers \<Rightarrow> members_step (json_read fuel ReadValue depth) (json_read fuel ReadMembers depth) s
      | ReadElements \<Rightarrow> elements_step (json_read fuel ReadValue depth) (json_read fuel ReadElements depth) s)"

abbreviation json_value :: "nat \<Rightarrow> nat \<Rightarrow> string \<Rightarrow> string option" where "json_value n \<equiv> json_read n ReadValue"
abbreviation json_members :: "nat \<Rightarrow> nat \<Rightarrow> string \<Rightarrow> string option" where "json_members n \<equiv> json_read n ReadMembers"
abbreviation json_elements :: "nat \<Rightarrow> nat \<Rightarrow> string \<Rightarrow> string option" where "json_elements n \<equiv> json_read n ReadElements"

definition max_nesting :: nat where "max_nesting = 10000"

definition json_valid_depth :: "nat \<Rightarrow> string \<Rightarrow> bool" where
  "json_valid_depth depth s =
     (case json_value (2 * length s + 2) depth s of None \<Rightarrow> False | Some r \<Rightarrow> skip_space r = [])"

definition json_valid :: "string \<Rightarrow> bool" where
  "json_valid s = json_valid_depth max_nesting s"

subsection \<open>The fuel decides nothing\<close>

lemma skip_length: "length (skip_space s) \<le> length s"
  by (simp add: skip_space_def length_dropWhile_le)

lemma skip_Cons: "skip_space s = c # r \<Longrightarrow> length r < length s"
  using skip_length[of s] by simp

lemma string_rest_length: "string_rest s = Some r \<Longrightarrow> length r < length s"
  by (induction s rule: string_rest.induct)
    (auto simp: string_rest.simps split: if_splits list.splits)

lemma digits_rest_length: "digits_rest s = Some r \<Longrightarrow> length r < length s"
  using length_dropWhile_le[of is_digit] by (auto simp: digits_rest_def le_imp_less_Suc split: list.splits if_splits)

lemma exponent_rest_length: "exponent_rest s = Some r \<Longrightarrow> length r \<le> length s"
  by (auto simp: exponent_rest_def split: list.splits if_splits dest!: digits_rest_length)

lemma fraction_rest_length: "fraction_rest s = Some r \<Longrightarrow> length r \<le> length s"
  by (auto simp: fraction_rest_def bind_eq_Some_conv split: list.splits if_splits
      dest!: digits_rest_length exponent_rest_length)

lemma number_rest_length: "number_rest s = Some r \<Longrightarrow> length r < length s"
proof -
  assume h: "number_rest s = Some r"
  then obtain c t where t: "(if take 1 s = ''-'' then drop 1 s else s) = c # t"
    by (auto simp: number_rest_def split: list.splits)
  then have "length (c # t) \<le> length s" by (metis diff_le_self length_drop order_refl)
  moreover have "length r \<le> length t"
    using h t length_dropWhile_le[of is_digit t]
    by (auto simp: number_rest_def split: if_splits dest!: fraction_rest_length)
  ultimately show ?thesis by simp
qed

lemma literal_rest_length: "literal_rest l s = Some r \<Longrightarrow> l \<noteq> [] \<Longrightarrow> length r < length s"
  by (auto simp: literal_rest_def split: if_splits) (metis diff_less length_greater_0_conv take_eq_Nil)

lemma take_drop_length: "take 1 (skip_space s) = [c] \<Longrightarrow> length (drop 1 (skip_space s)) < length s"
  using skip_length[of s] by (cases "skip_space s") auto

lemma value_step_length:
  assumes h: "value_step M E depth s = Some r"
    and M: "\<And>x y. M (depth - 1) x = Some y \<Longrightarrow> length y < length x" and E: "\<And>x y. E (depth - 1) x = Some y \<Longrightarrow> length y < length x"
  shows "length r < length s"
proof -
  obtain c t where t: "skip_space s = c # t" using h by (auto simp: value_step_def split: list.splits)
  have len: "length t < length s" "length (c # t) \<le> length s" using skip_Cons[OF t] by simp_all
  from h t show ?thesis
    using take_drop_length[of t] len M[of t r] E[of t r]
    by (auto simp: value_step_def split: if_splits dest: string_rest_length number_rest_length
        literal_rest_length[of "''true''"] literal_rest_length[of "''false''"] literal_rest_length[of "''null''"])
qed

lemma members_step_length:
  assumes h: "members_step V M s = Some r" and V: "\<And>x y. V x = Some y \<Longrightarrow> length y < length x"
    and M: "\<And>x y. M x = Some y \<Longrightarrow> length y < length x"
  shows "length r < length s"
proof -
  obtain t u v where t: "skip_space s = quote # t" "string_rest t = Some u" "take 1 (skip_space u) = '':''"
    "V (drop 1 (skip_space u)) = Some v"
    and r: "if take 1 (skip_space v) = '','' then M (drop 1 (skip_space v)) = Some r
      else take 1 (skip_space v) = ''}'' \<and> r = drop 1 (skip_space v)"
    using h by (auto simp: members_step_def split: list.splits option.splits if_splits)
  have "length v < length s"
    using skip_Cons[OF t(1)] string_rest_length[OF t(2)] take_drop_length[OF t(3)] V[OF t(4)] by simp
  with r take_drop_length[of v] M[of "drop 1 (skip_space v)" r] show ?thesis
    by (cases "take 1 (skip_space v) = '',''") fastforce+
qed

lemma elements_step_length:
  assumes h: "elements_step V E s = Some r" and V: "\<And>x y. V x = Some y \<Longrightarrow> length y < length x"
    and E: "\<And>x y. E x = Some y \<Longrightarrow> length y < length x"
  shows "length r < length s"
proof -
  obtain v where v: "V s = Some v" and r: "if take 1 (skip_space v) = '','' then E (drop 1 (skip_space v)) = Some r
      else take 1 (skip_space v) = '']'' \<and> r = drop 1 (skip_space v)"
    using h by (auto simp: elements_step_def split: option.splits if_splits)
  from r V[OF v] take_drop_length[of v] E[of "drop 1 (skip_space v)" r] show ?thesis
    by (cases "take 1 (skip_space v) = '',''") fastforce+
qed

lemma json_rest_length: "json_read n k d s = Some r \<Longrightarrow> length r < length s"
proof (induction n arbitrary: k d s r)
  case (Suc n)
  then show ?case
    by (cases k) (auto intro: value_step_length members_step_length elements_step_length)
qed simp

text \<open>A reader depends only on what the readers below do on shorter text.\<close>

lemma value_step_cong:
  assumes "\<And>x. length x < length s \<Longrightarrow> M (d - 1) x = M' (d - 1) x" and "\<And>x. length x < length s \<Longrightarrow> E (d - 1) x = E' (d - 1) x"
  shows "value_step M E d s = value_step M' E' d s"
  using assms skip_Cons[of s] by (auto simp: value_step_def split: list.split)

lemma members_step_cong:
  assumes V: "\<And>x. length x < length s \<Longrightarrow> V x = V' x" and short: "\<And>x y. V x = Some y \<Longrightarrow> length y < length x"
    and M: "\<And>x. length x < length s \<Longrightarrow> M x = M' x"
  shows "members_step V M s = members_step V' M' s"
proof (cases "\<exists>t u. skip_space s = quote # t \<and> string_rest t = Some u \<and> take 1 (skip_space u) = '':''")
  case True
  then obtain t u where t: "skip_space s = quote # t" "string_rest t = Some u" "take 1 (skip_space u) = '':''" by blast
  let ?w = "drop 1 (skip_space u)"
  have len: "length ?w < length s"
    using skip_Cons[OF t(1)] string_rest_length[OF t(2)] take_drop_length[OF t(3)] by simp
  show ?thesis
  proof (cases "V ?w")
    case None
    with V[OF len] t show ?thesis by (simp add: members_step_def)
  next
    case (Some x)
    have "take 1 (skip_space x) = '','' \<Longrightarrow> M (drop 1 (skip_space x)) = M' (drop 1 (skip_space x))"
      using short[OF Some] len take_drop_length[of x] by (intro M) fastforce
    with V[OF len] Some t show ?thesis by (simp add: members_step_def)
  qed
next
  case False
  then show ?thesis by (auto simp: members_step_def split: list.split option.split)
qed

lemma elements_step_cong:
  assumes V: "V s = V' s" and short: "\<And>x y. V x = Some y \<Longrightarrow> length y < length x"
    and E: "\<And>x. length x < length s \<Longrightarrow> E x = E' x"
  shows "elements_step V E s = elements_step V' E' s"
proof (cases "V s")
  case None
  with V show ?thesis by (simp add: elements_step_def)
next
  case (Some x)
  have "take 1 (skip_space x) = '','' \<Longrightarrow> E (drop 1 (skip_space x)) = E' (drop 1 (skip_space x))"
    using short[OF Some] take_drop_length[of x] by (intro E) fastforce
  with V[symmetric] Some show ?thesis by (simp add: elements_step_def)
qed

definition fuel_for :: "reader \<Rightarrow> string \<Rightarrow> nat" where
  "fuel_for k s = 2 * length s + (if k = ReadElements then 3 else 2)"

lemma json_fuel_irrelevant:
  "fuel_for k s \<le> n \<Longrightarrow> fuel_for k s \<le> m \<Longrightarrow> json_read n k d s = json_read m k d s"
proof (induction n arbitrary: m k d s)
  case (Suc n)
  then obtain l where m: "m = Suc l" by (cases m) (auto simp: fuel_for_def split: if_splits)
  have less: "length x < length s \<Longrightarrow> json_read n k' d' x = json_read l k' d' x" for x k' d'
    using Suc.prems m by (intro Suc.IH) (auto simp: fuel_for_def split: if_splits)
  show ?case
  proof (cases k)
    case ReadValue
    show ?thesis unfolding m ReadValue json_read.simps reader.case by (rule value_step_cong; rule less)
  next
    case ReadMembers
    show ?thesis unfolding m ReadMembers json_read.simps reader.case
      by (rule members_step_cong; rule json_rest_length less; assumption)
  next
    case ReadElements
    then have same: "json_value n d s = json_value l d s"
      using Suc.prems m by (intro Suc.IH) (auto simp: fuel_for_def)
    show ?thesis unfolding m ReadElements json_read.simps reader.case
      by (rule elements_step_cong; rule same json_rest_length less; assumption?)
  qed
qed (simp add: fuel_for_def split: if_splits)

end
