(* ===== verification/Store.thy ===== *)
theory Store
  imports Prelude "HOL-Library.AList" "HOL-Library.Product_Lexorder"
begin

text \<open>
  store.go: the durability boundary a host provides and the store kept in memory.  A call sees a
  context, which may be done, and a clock: the model hands each call both.  The mutex makes an
  operation atomic, and copies of entries are the entries, since values are never shared.  The
  locale \<open>session_store\<close> states the contract of \<open>SessionStore\<close> for whatever a host
  provides; the store in memory interprets it.
\<close>

section \<open>Keys and replacements\<close>

definition SessionStoreMainSubpath :: string where "SessionStoreMainSubpath = ''''"

type_synonym SessionStoreEntry = string

type_synonym generation = "string \<rightharpoonup> SessionStoreEntry list"

record SessionKey =
  key_SessionID :: string
  key_Subpath :: string

record SessionStoreReplacement =
  rp_Key :: SessionKey
  rp_Entries :: "SessionStoreEntry list"

record SessionSummary =
  sm_SessionID :: string
  sm_UpdatedAtUnixMilli :: int

datatype store_error =
    ContextDone string
  | SessionIDRequired
  | MainSubpathRequired
  | ForeignKey SessionKey string
  | MainKeyNamed
  | DuplicateKey SessionKey
  | MainKeyOnce
  | NoGeneration string
  | StaleBase int nat

text \<open>What a call is given besides its arguments.\<close>

record call =
  cl_Err :: "string option"
  cl_now :: int

section \<open>The store in memory\<close>

record storedSession =
  ss_subpaths :: generation
  ss_updatedAt :: int

record InMemorySessionStore =
  ms_sessions :: "(string \<times> storedSession) list"
  ms_deleted :: "string set"

definition NewInMemorySessionStore :: InMemorySessionStore where
  "NewInMemorySessionStore = \<lparr>ms_sessions = [], ms_deleted = {}\<rparr>"

definition cloneEntry :: "SessionStoreEntry \<Rightarrow> SessionStoreEntry" where
  "cloneEntry e = [] @ e"

definition cloneEntries :: "SessionStoreEntry list \<Rightarrow> SessionStoreEntry list" where
  "cloneEntries es = (if es = [] then [] else map cloneEntry es)"

definition store_Load :: "call \<Rightarrow> string \<Rightarrow> InMemorySessionStore \<Rightarrow> store_error + generation option" where
  "store_Load ctx sessionID s =
     (case cl_Err ctx of
        Some e \<Rightarrow> Inl (ContextDone e)
      | None \<Rightarrow>
          (case map_of (ms_sessions s) sessionID of
             None \<Rightarrow> Inr None
           | Some r \<Rightarrow> Inr (Some (map_option cloneEntries \<circ> ss_subpaths r))))"

subsection \<open>Validation\<close>

fun validate_replacements :: "SessionKey \<Rightarrow> SessionStoreReplacement list \<Rightarrow> SessionKey set \<Rightarrow> nat \<Rightarrow> store_error option" where
  "validate_replacements main [] seen mainCount = (if mainCount \<noteq> 1 then Some MainKeyOnce else None)"
| "validate_replacements main (r # rs) seen mainCount =
     (if key_SessionID (rp_Key r) \<noteq> key_SessionID main then Some (ForeignKey (rp_Key r) (key_SessionID main))
      else if rp_Key r \<in> seen then Some (DuplicateKey (rp_Key r))
      else validate_replacements main rs (insert (rp_Key r) seen)
        (if key_Subpath (rp_Key r) = SessionStoreMainSubpath then Suc mainCount else mainCount))"

definition validateReplacements :: "SessionKey \<Rightarrow> SessionStoreReplacement list \<Rightarrow> store_error option" where
  "validateReplacements main rs = validate_replacements main rs {} 0"

fun validate_append :: "SessionKey \<Rightarrow> SessionStoreReplacement list \<Rightarrow> string set \<Rightarrow> store_error option" where
  "validate_append main [] seen = None"
| "validate_append main (r # rs) seen =
     (if key_SessionID (rp_Key r) \<noteq> key_SessionID main then Some (ForeignKey (rp_Key r) (key_SessionID main))
      else if key_Subpath (rp_Key r) = SessionStoreMainSubpath then Some MainKeyNamed
      else if key_Subpath (rp_Key r) \<in> seen then Some (DuplicateKey (rp_Key r))
      else validate_append main rs (insert (key_Subpath (rp_Key r)) seen))"

definition validateAppendReplacements :: "SessionKey \<Rightarrow> SessionStoreReplacement list \<Rightarrow> store_error option" where
  "validateAppendReplacements main rs = validate_append main rs {}"

subsection \<open>Writing\<close>

definition listed :: "SessionStoreReplacement list \<Rightarrow> generation \<Rightarrow> generation" where
  "listed rs g = fold (\<lambda>r g. g(key_Subpath (rp_Key r) \<mapsto> cloneEntries (rp_Entries r))) rs g"

definition store_Replace :: "call \<Rightarrow> SessionKey \<Rightarrow> SessionStoreReplacement list \<Rightarrow> InMemorySessionStore \<Rightarrow>
    store_error option \<times> InMemorySessionStore" where
  "store_Replace ctx main rs s =
     (case cl_Err ctx of
        Some e \<Rightarrow> (Some (ContextDone e), s)
      | None \<Rightarrow>
          if key_SessionID main = [] then (Some SessionIDRequired, s)
          else if key_Subpath main \<noteq> SessionStoreMainSubpath then (Some MainSubpathRequired, s)
          else (case validateReplacements main rs of
                  Some e \<Rightarrow> (Some e, s)
                | None \<Rightarrow>
                    if key_SessionID main \<in> ms_deleted s then (None, s)
                    else (None, s\<lparr>ms_sessions := AList.update (key_SessionID main)
                           \<lparr>ss_subpaths = listed rs Map.empty, ss_updatedAt = cl_now ctx\<rparr> (ms_sessions s)\<rparr>)))"

definition main_rows :: "generation \<Rightarrow> SessionStoreEntry list" where
  "main_rows g = (case g SessionStoreMainSubpath of None \<Rightarrow> [] | Some rows \<Rightarrow> rows)"

definition store_Append :: "call \<Rightarrow> SessionKey \<Rightarrow> int \<Rightarrow> SessionStoreEntry list \<Rightarrow> SessionStoreReplacement list \<Rightarrow>
    InMemorySessionStore \<Rightarrow> store_error option \<times> InMemorySessionStore" where
  "store_Append ctx main base es rs s =
     (case cl_Err ctx of
        Some e \<Rightarrow> (Some (ContextDone e), s)
      | None \<Rightarrow>
          if key_SessionID main = [] then (Some SessionIDRequired, s)
          else if key_Subpath main \<noteq> SessionStoreMainSubpath then (Some MainSubpathRequired, s)
          else (case validateAppendReplacements main rs of
                  Some e \<Rightarrow> (Some e, s)
                | None \<Rightarrow>
                    if key_SessionID main \<in> ms_deleted s then (None, s)
                    else (case map_of (ms_sessions s) (key_SessionID main) of
                            None \<Rightarrow> (Some (NoGeneration (key_SessionID main)), s)
                          | Some r \<Rightarrow>
                              (let rows = main_rows (ss_subpaths r)
                               in if int (length rows) \<noteq> base then (Some (StaleBase base (length rows)), s)
                                  else (None, s\<lparr>ms_sessions := AList.update (key_SessionID main)
                                         \<lparr>ss_subpaths = listed rs ((ss_subpaths r)(SessionStoreMainSubpath \<mapsto>
                                            rows @ map cloneEntry es)), ss_updatedAt = cl_now ctx\<rparr> (ms_sessions s)\<rparr>)))))"

definition store_Delete :: "call \<Rightarrow> SessionKey \<Rightarrow> InMemorySessionStore \<Rightarrow> store_error option \<times> InMemorySessionStore" where
  "store_Delete ctx key s =
     (case cl_Err ctx of
        Some e \<Rightarrow> (Some (ContextDone e), s)
      | None \<Rightarrow>
          if key_SessionID key = [] then (None, s)
          else if key_Subpath key = SessionStoreMainSubpath then
            (None, s\<lparr>ms_sessions := AList.delete (key_SessionID key) (ms_sessions s),
                     ms_deleted := insert (key_SessionID key) (ms_deleted s)\<rparr>)
          else (case map_of (ms_sessions s) (key_SessionID key) of
                  None \<Rightarrow> (None, s)
                | Some r \<Rightarrow> (None, s\<lparr>ms_sessions := AList.update (key_SessionID key)
                    (r\<lparr>ss_subpaths := (ss_subpaths r)(key_Subpath key := None)\<rparr>) (ms_sessions s)\<rparr>)))"

text \<open>Newest first, then by id.  The ids are distinct, so the order of the sort is total.\<close>

definition store_ListSessions :: "call \<Rightarrow> InMemorySessionStore \<Rightarrow> store_error + SessionSummary list" where
  "store_ListSessions ctx s =
     (case cl_Err ctx of
        Some e \<Rightarrow> Inl (ContextDone e)
      | None \<Rightarrow> Inr (sort_key (\<lambda>m. (- sm_UpdatedAtUnixMilli m, sm_SessionID m))
          (map (\<lambda>(sessionID, r). \<lparr>sm_SessionID = sessionID, sm_UpdatedAtUnixMilli = ss_updatedAt r\<rparr>) (ms_sessions s))))"

section \<open>The contract\<close>

text \<open>What a session is to its host, and what each operation may do to it.\<close>

datatype session_phase = Missing | Live generation | Gone

definition replaced :: "SessionStoreReplacement list \<Rightarrow> session_phase \<Rightarrow> session_phase" where
  "replaced rs p = (if p = Gone then Gone else Live (listed rs Map.empty))"

definition extended :: "SessionStoreEntry list \<Rightarrow> SessionStoreReplacement list \<Rightarrow> session_phase \<Rightarrow> session_phase" where
  "extended es rs p =
     (case p of Live g \<Rightarrow> Live (listed rs (g(SessionStoreMainSubpath \<mapsto> main_rows g @ es))) | _ \<Rightarrow> p)"

definition holds_base :: "int \<Rightarrow> session_phase \<Rightarrow> bool" where
  "holds_base base p = (case p of Missing \<Rightarrow> False | Live g \<Rightarrow> int (length (main_rows g)) = base | Gone \<Rightarrow> True)"

definition readable :: "session_phase \<Rightarrow> generation option" where
  "readable p = (case p of Live g \<Rightarrow> Some g | _ \<Rightarrow> None)"

lemmas phase_defs = replaced_def extended_def holds_base_def readable_def

text \<open>The calls of the client that writes generations, on a world \<open>'w\<close> that holds the store
  and whatever decides how a call ends.\<close>

record ('w, 'e) SessionStore =
  st_Load :: "string \<Rightarrow> 'w \<Rightarrow> ('e + generation option) \<times> 'w"
  st_Replace :: "SessionKey \<Rightarrow> SessionStoreReplacement list \<Rightarrow> 'w \<Rightarrow> 'e option \<times> 'w"
  st_Append :: "SessionKey \<Rightarrow> int \<Rightarrow> SessionStoreEntry list \<Rightarrow> SessionStoreReplacement list \<Rightarrow> 'w \<Rightarrow> 'e option \<times> 'w"

locale session_store =
  fixes store :: "('w, 'e) SessionStore" and valid :: "'w \<Rightarrow> bool" and phase :: "'w \<Rightarrow> string \<Rightarrow> session_phase"
  assumes load_reads: "valid w \<Longrightarrow> st_Load store i w = (Inr g, v) \<Longrightarrow> g = readable (phase w i)"
    and load_keeps: "valid w \<Longrightarrow> st_Load store i w = (l, v) \<Longrightarrow> valid v \<and> phase v = phase w"
    and replace_valid: "valid w \<Longrightarrow> st_Replace store m rs w = (r, v) \<Longrightarrow> valid v"
    and replace_ok: "valid w \<Longrightarrow> st_Replace store m rs w = (None, v) \<Longrightarrow>
      phase v = (phase w)(key_SessionID m := replaced rs (phase w (key_SessionID m)))"
    and replace_failed: "valid w \<Longrightarrow> st_Replace store m rs w = (Some e, v) \<Longrightarrow> phase v = phase w"
    and append_valid: "valid w \<Longrightarrow> st_Append store m base es rs w = (r, v) \<Longrightarrow> valid v"
    and append_ok: "valid w \<Longrightarrow> st_Append store m base es rs w = (None, v) \<Longrightarrow>
      holds_base base (phase w (key_SessionID m)) \<and>
      phase v = (phase w)(key_SessionID m := extended es rs (phase w (key_SessionID m)))"
    and append_failed: "valid w \<Longrightarrow> st_Append store m base es rs w = (Some e, v) \<Longrightarrow> phase v = phase w"

section \<open>The store in memory keeps the contract\<close>

lemma clone_entry [simp]: "cloneEntry = (\<lambda>e. e)"
  by (simp add: cloneEntry_def fun_eq_iff)

lemma clone_entries [simp]: "cloneEntries = (\<lambda>es. es)"
  by (simp add: cloneEntries_def fun_eq_iff)

lemma clone_generation [simp]: "map_option (\<lambda>es. es) \<circ> g = g"
  by (simp add: fun_eq_iff option.map_ident)

definition memory_phase :: "InMemorySessionStore \<Rightarrow> string \<Rightarrow> session_phase" where
  "memory_phase s i =
     (if i \<in> ms_deleted s then Gone
      else case map_of (ms_sessions s) i of None \<Rightarrow> Missing | Some r \<Rightarrow> Live (ss_subpaths r))"

text \<open>A deleted session has no record, and a session has one.\<close>

definition store_wf :: "InMemorySessionStore \<Rightarrow> bool" where
  "store_wf s \<longleftrightarrow> distinct (map fst (ms_sessions s)) \<and> (\<forall>i \<in> ms_deleted s. map_of (ms_sessions s) i = None)"

lemma store_wf_new: "store_wf NewInMemorySessionStore"
  by (simp add: store_wf_def NewInMemorySessionStore_def)

lemma phase_gone: "memory_phase s i = Gone \<longleftrightarrow> i \<in> ms_deleted s"
  by (simp add: memory_phase_def split: option.split)

lemma phase_Some: "i \<notin> ms_deleted s \<Longrightarrow> map_of (ms_sessions s) i = Some r \<Longrightarrow> memory_phase s i = Live (ss_subpaths r)"
  by (simp add: memory_phase_def)

lemma phase_update:
  "i \<notin> ms_deleted s \<Longrightarrow>
     memory_phase (s\<lparr>ms_sessions := AList.update i r (ms_sessions s)\<rparr>) = (memory_phase s)(i := Live (ss_subpaths r))"
  by (simp add: memory_phase_def fun_eq_iff update_conv')

lemma phase_delete:
  "memory_phase (s\<lparr>ms_sessions := AList.delete i (ms_sessions s), ms_deleted := insert i (ms_deleted s)\<rparr>) =
     (memory_phase s)(i := Gone)"
  by (simp add: memory_phase_def fun_eq_iff delete_conv')

lemma wf_update:
  "store_wf s \<Longrightarrow> i \<notin> ms_deleted s \<Longrightarrow> store_wf (s\<lparr>ms_sessions := AList.update i r (ms_sessions s)\<rparr>)"
  by (auto simp: store_wf_def update_conv' distinct_update)

lemma wf_delete:
  "store_wf s \<Longrightarrow> store_wf (s\<lparr>ms_sessions := AList.delete i (ms_sessions s), ms_deleted := insert i (ms_deleted s)\<rparr>)"
  by (simp add: store_wf_def delete_conv' distinct_delete)

lemma wf_live: "store_wf s \<Longrightarrow> map_of (ms_sessions s) i = Some r \<Longrightarrow> i \<notin> ms_deleted s"
  by (auto simp: store_wf_def)

lemma Load_decided:
  assumes "store_wf s"
  shows "store_Load ctx i s = (case cl_Err ctx of Some e \<Rightarrow> Inl (ContextDone e) | None \<Rightarrow> Inr (readable (memory_phase s i)))"
  using wf_live[OF assms, of i]
  by (cases "cl_Err ctx"; cases "map_of (ms_sessions s) i") (simp_all add: store_Load_def memory_phase_def readable_def)

lemma Replace_decided:
  assumes "store_Replace ctx m rs s = (r, v)"
  shows "r \<noteq> None \<and> v = s \<or> r = None \<and> key_SessionID m \<in> ms_deleted s \<and> v = s \<or>
    r = None \<and> key_SessionID m \<notin> ms_deleted s \<and>
      v = s\<lparr>ms_sessions := AList.update (key_SessionID m) \<lparr>ss_subpaths = listed rs Map.empty, ss_updatedAt = cl_now ctx\<rparr> (ms_sessions s)\<rparr>"
proof (cases "cl_Err ctx")
  case None
  with assms show ?thesis
    by (cases "validateReplacements m rs"; cases "key_SessionID m = []"; cases "key_Subpath m = SessionStoreMainSubpath";
        cases "key_SessionID m \<in> ms_deleted s") (auto simp: store_Replace_def)
qed (use assms in \<open>auto simp: store_Replace_def\<close>)

definition appended :: "call \<Rightarrow> string \<Rightarrow> SessionStoreEntry list \<Rightarrow> SessionStoreReplacement list \<Rightarrow> storedSession \<Rightarrow>
    InMemorySessionStore \<Rightarrow> InMemorySessionStore" where
  "appended ctx i es rs old s =
     s\<lparr>ms_sessions := AList.update i \<lparr>ss_subpaths = listed rs ((ss_subpaths old)(SessionStoreMainSubpath \<mapsto>
         main_rows (ss_subpaths old) @ es)), ss_updatedAt = cl_now ctx\<rparr> (ms_sessions s)\<rparr>"

lemma Append_decided:
  assumes "store_Append ctx m base es rs s = (r, v)"
  shows "r \<noteq> None \<and> v = s \<or> r = None \<and> key_SessionID m \<in> ms_deleted s \<and> v = s \<or>
    r = None \<and> key_SessionID m \<notin> ms_deleted s \<and>
      (\<exists>old. map_of (ms_sessions s) (key_SessionID m) = Some old \<and> int (length (main_rows (ss_subpaths old))) = base \<and>
         v = appended ctx (key_SessionID m) es rs old s)"
proof (cases "cl_Err ctx = None \<and> key_SessionID m \<noteq> [] \<and> key_Subpath m = SessionStoreMainSubpath \<and>
    validateAppendReplacements m rs = None \<and> key_SessionID m \<notin> ms_deleted s")
  case True
  show ?thesis
  proof (cases "map_of (ms_sessions s) (key_SessionID m)")
    case None
    with True assms show ?thesis by (auto simp: store_Append_def)
  next
    case (Some old)
    with True assms show ?thesis
      by (cases "int (length (main_rows (ss_subpaths old))) = base") (auto simp: store_Append_def Let_def appended_def)
  qed
next
  case False
  with assms show ?thesis
    by (cases "validateAppendReplacements m rs"; cases "cl_Err ctx"; cases "key_SessionID m = []";
        cases "key_Subpath m = SessionStoreMainSubpath") (auto simp: store_Append_def)
qed

definition erased :: "SessionKey \<Rightarrow> session_phase \<Rightarrow> session_phase" where
  "erased key p =
     (if key_SessionID key = [] then p
      else if key_Subpath key = SessionStoreMainSubpath then Gone
      else case p of Live g \<Rightarrow> Live (g(key_Subpath key := None)) | _ \<Rightarrow> p)"

lemma Delete_phase:
  assumes "store_wf s" and "store_Delete ctx key s = (r, v)"
  shows "store_wf v \<and> memory_phase v =
    (if r = None then (memory_phase s)(key_SessionID key := erased key (memory_phase s (key_SessionID key))) else memory_phase s)"
proof (cases "cl_Err ctx = None \<and> key_SessionID key \<noteq> [] \<and> key_Subpath key \<noteq> SessionStoreMainSubpath")
  case True
  show ?thesis
  proof (cases "map_of (ms_sessions s) (key_SessionID key)")
    case None
    with True assms show ?thesis
      by (auto simp: store_Delete_def erased_def fun_eq_iff memory_phase_def)
  next
    case (Some old)
    with True assms wf_live[OF assms(1) Some] show ?thesis
      by (auto simp: store_Delete_def erased_def wf_update phase_update phase_Some)
  qed
next
  case False
  with assms show ?thesis
    by (auto simp: store_Delete_def erased_def wf_delete phase_delete split: option.splits if_splits)
qed

text \<open>A host that serves the store in memory: its world holds the store, and what each further
  call is given.\<close>

record memory_host =
  mh_store :: InMemorySessionStore
  mh_calls :: "nat \<Rightarrow> call"
  mh_tick :: nat

definition host_call :: "(call \<Rightarrow> InMemorySessionStore \<Rightarrow> 'r \<times> InMemorySessionStore) \<Rightarrow> memory_host \<Rightarrow> 'r \<times> memory_host" where
  "host_call f h = (case f (mh_calls h (mh_tick h)) (mh_store h) of (r, s) \<Rightarrow> (r, h\<lparr>mh_store := s, mh_tick := Suc (mh_tick h)\<rparr>))"

definition memory_store :: "(memory_host, store_error) SessionStore" where
  "memory_store =
     \<lparr>st_Load = (\<lambda>i. host_call (\<lambda>c s. (store_Load c i s, s))),
      st_Replace = (\<lambda>m rs. host_call (\<lambda>c. store_Replace c m rs)),
      st_Append = (\<lambda>m base es rs. host_call (\<lambda>c. store_Append c m base es rs))\<rparr>"

lemma memory_store_calls:
  "st_Load memory_store i h = (l, g) \<Longrightarrow> store_Load (mh_calls h (mh_tick h)) i (mh_store h) = l \<and> mh_store g = mh_store h"
  "st_Replace memory_store m rs h = (r, g) \<Longrightarrow> store_Replace (mh_calls h (mh_tick h)) m rs (mh_store h) = (r, mh_store g)"
  "st_Append memory_store m base es rs h = (r, g) \<Longrightarrow>
     store_Append (mh_calls h (mh_tick h)) m base es rs (mh_store h) = (r, mh_store g)"
  by (auto simp: memory_store_def host_call_def split: prod.splits)

lemma memory_Replace:
  assumes "store_wf s" and "store_Replace ctx m rs s = (r, v)"
  shows "store_wf v \<and> memory_phase v =
    (if r = None then (memory_phase s)(key_SessionID m := replaced rs (memory_phase s (key_SessionID m))) else memory_phase s)"
  using Replace_decided[OF assms(2)]
proof (elim disjE)
  assume "r = None \<and> key_SessionID m \<in> ms_deleted s \<and> v = s"
  then show ?thesis using assms(1) by (auto simp: replaced_def phase_gone fun_eq_iff)
next
  assume "r = None \<and> key_SessionID m \<notin> ms_deleted s \<and>
      v = s\<lparr>ms_sessions := AList.update (key_SessionID m) \<lparr>ss_subpaths = listed rs Map.empty, ss_updatedAt = cl_now ctx\<rparr> (ms_sessions s)\<rparr>"
  then show ?thesis using assms(1) by (simp add: replaced_def phase_gone wf_update phase_update)
qed (use assms(1) in auto)

lemma memory_Append:
  assumes "store_wf s" and "store_Append ctx m base es rs s = (r, v)"
  shows "store_wf v \<and> (if r = None then holds_base base (memory_phase s (key_SessionID m)) \<and>
      memory_phase v = (memory_phase s)(key_SessionID m := extended es rs (memory_phase s (key_SessionID m)))
    else memory_phase v = memory_phase s)"
  using Append_decided[OF assms(2)]
proof (elim disjE)
  assume h: "r = None \<and> key_SessionID m \<in> ms_deleted s \<and> v = s"
  then have "memory_phase s (key_SessionID m) = Gone" by (simp add: phase_gone)
  with h show ?thesis using assms(1) by (auto simp: extended_def holds_base_def fun_eq_iff)
next
  assume h: "r = None \<and> key_SessionID m \<notin> ms_deleted s \<and>
      (\<exists>old. map_of (ms_sessions s) (key_SessionID m) = Some old \<and> int (length (main_rows (ss_subpaths old))) = base \<and>
         v = appended ctx (key_SessionID m) es rs old s)"
  then obtain old where old: "map_of (ms_sessions s) (key_SessionID m) = Some old" by blast
  with h have "memory_phase s (key_SessionID m) = Live (ss_subpaths old)" by (simp add: phase_Some)
  with h old show ?thesis
    using assms(1) by (simp add: extended_def holds_base_def wf_update phase_update appended_def)
qed (use assms(1) in auto)

interpretation memory: session_store memory_store "\<lambda>h. store_wf (mh_store h)" "\<lambda>h. memory_phase (mh_store h)"
proof
  fix w v :: memory_host and i g l m rs r base es and e :: store_error
  assume wf: "store_wf (mh_store w)"
  show "g = readable (memory_phase (mh_store w) i)" if "st_Load memory_store i w = (Inr g, v)"
    using memory_store_calls(1)[OF that] Load_decided[OF wf] by (auto split: option.splits)
  show "store_wf (mh_store v) \<and> memory_phase (mh_store v) = memory_phase (mh_store w)" if "st_Load memory_store i w = (l, v)"
    using memory_store_calls(1)[OF that] wf by simp
  have replace: "store_wf (mh_store v) \<and> memory_phase (mh_store v) =
      (if r = None then (memory_phase (mh_store w))(key_SessionID m := replaced rs (memory_phase (mh_store w) (key_SessionID m)))
       else memory_phase (mh_store w))" if "st_Replace memory_store m rs w = (r, v)" for r
    using memory_Replace[OF wf memory_store_calls(2)[OF that]] .
  show "store_wf (mh_store v)" if "st_Replace memory_store m rs w = (r, v)" using replace[OF that] by simp
  show "memory_phase (mh_store v) =
      (memory_phase (mh_store w))(key_SessionID m := replaced rs (memory_phase (mh_store w) (key_SessionID m)))"
    if "st_Replace memory_store m rs w = (None, v)" using replace[OF that] by simp
  show "memory_phase (mh_store v) = memory_phase (mh_store w)" if "st_Replace memory_store m rs w = (Some e, v)"
    using replace[OF that] by simp
  have append: "store_wf (mh_store v) \<and> (if r = None then holds_base base (memory_phase (mh_store w) (key_SessionID m)) \<and>
      memory_phase (mh_store v) = (memory_phase (mh_store w))(key_SessionID m :=
        extended es rs (memory_phase (mh_store w) (key_SessionID m)))
      else memory_phase (mh_store v) = memory_phase (mh_store w))" if "st_Append memory_store m base es rs w = (r, v)" for r
    using memory_Append[OF wf memory_store_calls(3)[OF that]] .
  show "store_wf (mh_store v)" if "st_Append memory_store m base es rs w = (r, v)" using append[OF that] by simp
  show "holds_base base (memory_phase (mh_store w) (key_SessionID m)) \<and>
      memory_phase (mh_store v) = (memory_phase (mh_store w))(key_SessionID m :=
        extended es rs (memory_phase (mh_store w) (key_SessionID m)))"
    if "st_Append memory_store m base es rs w = (None, v)" using append[OF that] by simp
  show "memory_phase (mh_store v) = memory_phase (mh_store w)" if "st_Append memory_store m base es rs w = (Some e, v)"
    using append[OF that] by simp
qed

end
