(* ===== verification/Records.thy ===== *)
theory Records
  imports Bytes Json Store
begin

text \<open>
  sessionlog/record.go: reading one generation back.  Two things are parameters: \<open>parse\<close>, what a
  \<open>json.Decoder\<close> finds in a text (its first document and what follows it), and \<open>into\<close>, decoding a
  document into the caller's record type with unknown fields refused.  Where a record has several
  defects the model names a syntax error first.
\<close>

definition ConfigSubpath :: string where "ConfigSubpath = ''config''"

definition validRow :: "string \<Rightarrow> bool" where
  "validRow row =
     (let trimmed_row = TrimSpace row in trimmed_row \<noteq> [] \<and> take 1 trimmed_row = ''{'' \<and> json_valid trimmed_row)"

section \<open>Configuration records\<close>

definition maxRecordDepth :: nat where "maxRecordDepth = 10000"

datatype 'd record_error =
    RecordSyntax
  | RecordTooDeep
  | DuplicateRecordKey string
  | RecordRefused 'd
  | TrailingRecord

text \<open>The walk over the tokens of a value; the members of an object are checked in order, each key
  before its value.\<close>

fun uniqueValue :: "nat \<Rightarrow> json \<Rightarrow> 'd record_error option"
  and unique_elements :: "nat \<Rightarrow> json list \<Rightarrow> 'd record_error option"
  and unique_members :: "nat \<Rightarrow> string set \<Rightarrow> (string \<times> json) list \<Rightarrow> 'd record_error option" where
  "uniqueValue depth v =
     (if depth > maxRecordDepth then Some RecordTooDeep
      else case v of
             JObj n ms \<Rightarrow> unique_members depth {} ms
           | JArr vs \<Rightarrow> unique_elements depth vs
           | _ \<Rightarrow> None)"
| "unique_elements depth [] = None"
| "unique_elements depth (v # vs) =
     (case uniqueValue (Suc depth) v of Some e \<Rightarrow> Some e | None \<Rightarrow> unique_elements depth vs)"
| "unique_members depth seen [] = None"
| "unique_members depth seen ((k, v) # ms) =
     (if k \<in> seen then Some (DuplicateRecordKey k)
      else case uniqueValue (Suc depth) v of Some e \<Rightarrow> Some e | None \<Rightarrow> unique_members depth (insert k seen) ms)"

declare uniqueValue.simps [simp del]

definition decodeRecord :: "(string \<Rightarrow> (json \<times> string) option) \<Rightarrow> (json \<Rightarrow> 'd + 'r) \<Rightarrow> string \<Rightarrow> 'd record_error + 'r" where
  "decodeRecord parse into data =
     (case parse data of
        None \<Rightarrow> Inl RecordSyntax
      | Some (v, rest) \<Rightarrow>
          (case uniqueValue 0 v of
             Some e \<Rightarrow> Inl e
           | None \<Rightarrow>
               (case into v of
                  Inl e \<Rightarrow> Inl (RecordRefused e)
                | Inr r \<Rightarrow> if skip_space rest \<noteq> [] then Inl TrailingRecord else Inr r)))"

section \<open>Generations\<close>

datatype ('e, 'd) load_error =
    LoadFailed 'e
  | NoMainRecord
  | NotOneConfiguration
  | RecordDecode "'d record_error"
  | InvalidNativeRow nat

definition loadGeneration :: "(string \<Rightarrow> (json \<times> string) option) \<Rightarrow> (json \<Rightarrow> 'd + 'r) \<Rightarrow> ('w, 'e) SessionStore \<Rightarrow>
    string \<Rightarrow> 'w \<Rightarrow> (('e, 'd) load_error + (generation \<times> 'r) option) \<times> 'w" where
  "loadGeneration parse into store sessionID w =
     (case st_Load store sessionID w of
        (Inl e, w) \<Rightarrow> (Inl (LoadFailed e), w)
      | (Inr None, w) \<Rightarrow> (Inr None, w)
      | (Inr (Some generation), w) \<Rightarrow>
          (if generation SessionStoreMainSubpath = None then Inl NoMainRecord
           else (let records = (case generation ConfigSubpath of None \<Rightarrow> [] | Some es \<Rightarrow> es)
                 in if length records \<noteq> 1 then Inl NotOneConfiguration
                    else case decodeRecord parse into (records ! 0) of
                           Inl e \<Rightarrow> Inl (RecordDecode e)
                         | Inr r \<Rightarrow> Inr (Some (generation, r))), w))"

text \<open>\<open>Load\<close> gives the rows with the decoded record, or \<open>None\<close> where the session is not found.\<close>

definition record_Load :: "(string \<Rightarrow> (json \<times> string) option) \<Rightarrow> (json \<Rightarrow> 'd + 'r) \<Rightarrow> ('w, 'e) SessionStore \<Rightarrow>
    string \<Rightarrow> 'w \<Rightarrow> (('e, 'd) load_error + (string list \<times> 'r) option) \<times> 'w" where
  "record_Load parse into store sessionID w =
     (case loadGeneration parse into store sessionID w of
        (Inl e, w) \<Rightarrow> (Inl e, w)
      | (Inr None, w) \<Rightarrow> (Inr None, w)
      | (Inr (Some (generation, r)), w) \<Rightarrow>
          (case find (\<lambda>index. \<not> validRow (main_rows generation ! index)) [0..<length (main_rows generation)] of
             Some index \<Rightarrow> Inl (InvalidNativeRow index)
           | None \<Rightarrow> Inr (Some (main_rows generation, r)), w))"

definition LoadRecord :: "(string \<Rightarrow> (json \<times> string) option) \<Rightarrow> (json \<Rightarrow> 'd + 'r) \<Rightarrow> ('w, 'e) SessionStore \<Rightarrow>
    string \<Rightarrow> 'w \<Rightarrow> (('e, 'd) load_error + 'r option) \<times> 'w" where
  "LoadRecord parse into store sessionID w =
     (case loadGeneration parse into store sessionID w of
        (Inl e, w) \<Rightarrow> (Inl e, w)
      | (Inr g, w) \<Rightarrow> (Inr (map_option snd g), w))"

section \<open>Reconciling two logs\<close>

definition reconcile :: "string list \<Rightarrow> string list \<Rightarrow> nat + string list \<times> bool" where
  "reconcile native stored =
     (case find (\<lambda>index. native ! index \<noteq> stored ! index) [0..<min (length native) (length stored)] of
        Some index \<Rightarrow> Inl index
      | None \<Rightarrow> if length native \<ge> length stored then Inr (native, True) else Inr (stored, False))"

lemma reconcile_cases:
  "reconcile native stored = Inr (native, True) \<and> take (length stored) native = stored \<or>
   reconcile native stored = Inr (stored, False) \<and> take (length native) stored = native \<and> length native < length stored \<or>
   (\<exists>i. reconcile native stored = Inl i \<and> i < length native \<and> i < length stored \<and> native ! i \<noteq> stored ! i)"
proof (cases "find (\<lambda>index. native ! index \<noteq> stored ! index) [0..<min (length native) (length stored)]")
  case None
  then have same: "native ! i = stored ! i" if "i < length native" "i < length stored" for i
    using that by (auto simp: find_None_iff)
  show ?thesis
  proof (cases "length native \<ge> length stored")
    case True
    then have "take (length stored) native = stored" using same by (auto intro: nth_equalityI)
    with None True show ?thesis by (simp add: reconcile_def)
  next
    case False
    then have "take (length native) stored = native" using same by (auto intro: nth_equalityI)
    with None False show ?thesis by (simp add: reconcile_def)
  qed
next
  case (Some i)
  then have "i < length native \<and> i < length stored \<and> native ! i \<noteq> stored ! i"
    by (auto simp: find_Some_iff)
  with Some show ?thesis by (simp add: reconcile_def)
qed

end
