(* ===== verification/Jsonl.thy ===== *)
theory Jsonl
  imports Bytes Sha256
begin

text \<open>
  sessionlog/jsonl.go: append-only native logs.  A file is its identity, whether it is regular,
  and its bytes; a missing file is \<open>None\<close>.  Failures of the operating system itself are not
  modelled: opening, reading and renaming succeed on what is there.  \<open>'p\<close> is the type of the
  positions that sources other than files keep in a cursor.
\<close>

section \<open>Files, cursors and tails\<close>

record log_file =
  fl_id :: nat
  fl_regular :: bool
  fl_name :: string
  fl_data :: string

definition cursorCheckBytes :: nat where "cursorCheckBytes = 4096"

record 'p Cursor =
  cu_offset :: nat
  cu_file :: "nat option"
  cu_head :: string
  cu_check :: string
  cu_position :: "'p option"

definition zero_sum :: string where
  "zero_sum = replicate 32 (char_of (0 :: nat))"

definition zero_cursor :: "'p Cursor" where
  "zero_cursor = \<lparr>cu_offset = 0, cu_file = None, cu_head = zero_sum, cu_check = zero_sum, cu_position = None\<rparr>"

definition Position :: "'p \<Rightarrow> 'p Cursor" where
  "Position v = zero_cursor\<lparr>cu_position := Some v\<rparr>"

record 'p Tail =
  tl_Rows :: "string list"
  tl_Next :: "'p Cursor"
  tl_Full :: bool
  tl_origin :: string
  tl_data :: string
  tl_start :: nat

definition blank_tail :: "'p Tail" where
  "blank_tail = \<lparr>tl_Rows = [], tl_Next = zero_cursor, tl_Full = False, tl_origin = [], tl_data = [], tl_start = 0\<rparr>"

datatype jsonl_error =
    NotRegular
  | TooShort nat int
  | ReadPastEnd
  | RowSpansLines nat

type_synonym 'p source = "'p Cursor \<Rightarrow> jsonl_error + 'p Tail"

section \<open>Locating rows\<close>

fun row_offset :: "string list \<Rightarrow> nat \<Rightarrow> nat" where
  "row_offset [] index = 0"
| "row_offset (line # rest) index =
     (if TrimSpace line \<noteq> [] then
        case index of 0 \<Rightarrow> 0 | Suc index \<Rightarrow> length line + row_offset rest index
      else length line + row_offset rest index)"

definition Tail_offset :: "'p Tail \<Rightarrow> nat \<Rightarrow> nat" where
  "Tail_offset t index = tl_start t + row_offset (lines_of (tl_data t)) index"

definition Tail_locate :: "'p Tail \<Rightarrow> nat \<Rightarrow> string" where
  "Tail_locate t index =
     (if tl_origin t = [] then ''row '' @ show_nat index
      else tl_origin t @ '' at byte '' @ show_nat (Tail_offset t index))"

section \<open>Reading\<close>

definition splitLines :: "string \<Rightarrow> string list \<times> nat" where
  "splitLines data = (filter (\<lambda>row. row \<noteq> []) (map TrimSpace (lines_of (take (complete_length data) data))), complete_length data)"

definition digestRange :: "string \<Rightarrow> nat \<Rightarrow> nat \<Rightarrow> string option" where
  "digestRange data start stop = (if stop \<le> length data then Some (sha256 (drop start (take stop data))) else None)"

definition checksums :: "string \<Rightarrow> nat \<Rightarrow> (string \<times> string) option" where
  "checksums data offset =
     (case digestRange data 0 (min offset cursorCheckBytes) of
        None \<Rightarrow> None
      | Some head \<Rightarrow> map_option (Pair head) (digestRange data (offset - cursorCheckBytes) offset))"

definition continue_at :: "log_file \<Rightarrow> 'p Cursor \<Rightarrow> nat \<Rightarrow> nat option" where
  "continue_at f cursor bound =
     (if 0 < cu_offset cursor \<and> cu_offset cursor \<le> bound \<and> cu_file cursor = Some (fl_id f) then
        map_option (\<lambda>sums. if sums = (cu_head cursor, cu_check cursor) then cu_offset cursor else 0)
          (checksums (fl_data f) (cu_offset cursor))
      else Some 0)"

definition ReadJSONLFile :: "log_file \<Rightarrow> 'p Cursor \<Rightarrow> int \<Rightarrow> jsonl_error + 'p Tail" where
  "ReadJSONLFile f cursor limit =
     (if \<not> fl_regular f then Inl NotRegular
      else if limit > int (length (fl_data f)) then Inl (TooShort (length (fl_data f)) limit)
      else (let bound = (if limit < 0 then length (fl_data f) else nat limit)
            in case continue_at f cursor bound of
                 None \<Rightarrow> Inl ReadPastEnd
               | Some start \<Rightarrow>
                   (let data = drop start (take bound (fl_data f));
                        rows = fst (splitLines data);
                        consumed = snd (splitLines data);
                        upto = start + consumed;
                        tail = (\<lambda>cursor. \<lparr>tl_Rows = rows, tl_Next = cursor, tl_Full = (start = 0),
                          tl_origin = fl_name f, tl_data = take consumed data, tl_start = start\<rparr>)
                    in if upto = 0 then Inr (tail (zero_cursor\<lparr>cu_file := Some (fl_id f)\<rparr>))
                       else case checksums (fl_data f) upto of
                              None \<Rightarrow> Inl ReadPastEnd
                            | Some (head, check) \<Rightarrow> Inr (tail \<lparr>cu_offset = upto, cu_file = Some (fl_id f), cu_head = head,
                                cu_check = check, cu_position = None\<rparr>))))"

definition ReadJSONL :: "log_file option \<Rightarrow> 'p source" where
  "ReadJSONL f cursor = (case f of
     None \<Rightarrow> Inr (blank_tail\<lparr>tl_Full := True\<rparr>)
   | Some f \<Rightarrow> ReadJSONLFile f cursor (-1))"

definition source_File :: "log_file option \<Rightarrow> 'p source" where
  "source_File f = ReadJSONL f"

definition source_Rows :: "string list \<Rightarrow> 'p source" where
  "source_Rows rows cursor = Inr (blank_tail\<lparr>tl_Rows := rows, tl_Full := True\<rparr>)"

section \<open>Cutting a torn tail\<close>

record TornTail =
  tt_Cut :: nat
  tt_Terminated :: bool

definition TornTail_Changed :: "TornTail \<Rightarrow> bool" where
  "TornTail_Changed t \<longleftrightarrow> tt_Cut t > 0 \<or> tt_Terminated t"

text \<open>The scan backwards in windows; a window is empty only for an empty file, which the scan
  never enters.\<close>

function last_line_end :: "string \<Rightarrow> nat \<Rightarrow> nat \<Rightarrow> nat" where
  "last_line_end data window stop =
     (if stop = 0 \<or> window = 0 then 0
      else (let start = stop - window; chunk = drop start (take stop data)
            in if newline \<in> set chunk then start + complete_length chunk
               else last_line_end data window start))"
  by pat_completeness auto
termination by (relation "measure (\<lambda>(data, window, stop). stop)") auto

declare last_line_end.simps [simp del]

definition lastLineEnd :: "string \<Rightarrow> nat \<Rightarrow> nat" where
  "lastLineEnd data bound = last_line_end data (min bound cursorCheckBytes) bound"

text \<open>The token walk sets no bound on nesting, and text cannot nest deeper than it is long.\<close>

definition oneObject :: "string \<Rightarrow> bool" where
  "oneObject s \<longleftrightarrow> take 1 (skip_space s) = ''{'' \<and> json_valid_depth (length s) s"

definition cutTornTail :: "log_file \<Rightarrow> TornTail \<times> log_file" where
  "cutTornTail f =
     (let whole = length (fl_data f); stop = lastLineEnd (fl_data f) whole
      in if stop = whole then (\<lparr>tt_Cut = 0, tt_Terminated = False\<rparr>, f)
         else if oneObject (drop stop (fl_data f)) then
           (\<lparr>tt_Cut = 0, tt_Terminated = True\<rparr>, f\<lparr>fl_data := fl_data f @ [newline]\<rparr>)
         else (\<lparr>tt_Cut = whole - stop, tt_Terminated = False\<rparr>, f\<lparr>fl_data := take stop (fl_data f)\<rparr>))"

definition CutTornTail :: "log_file option \<Rightarrow> TornTail \<times> log_file option" where
  "CutTornTail f = (case f of
     None \<Rightarrow> (\<lparr>tt_Cut = 0, tt_Terminated = False\<rparr>, None)
   | Some f \<Rightarrow> map_prod id Some (cutTornTail f))"

section \<open>Writing\<close>

text \<open>The staged file has an identity of its own.  A row that spans lines fails the write before
  anything is published.\<close>

definition writeRows :: "nat \<Rightarrow> string \<Rightarrow> string list \<Rightarrow> jsonl_error + log_file \<times> 'p Cursor" where
  "writeRows identity name rows =
     (case find (\<lambda>i. newline \<in> set (rows ! i)) [0..<length rows] of
        Some index \<Rightarrow> Inl (RowSpansLines index)
      | None \<Rightarrow>
          (let data = concat (map (\<lambda>row. row @ [newline]) rows);
               f = \<lparr>fl_id = identity, fl_regular = True, fl_name = name, fl_data = data\<rparr>
           in if data = [] then Inr (f, zero_cursor)
              else case checksums data (length data) of
                     None \<Rightarrow> Inl ReadPastEnd
                   | Some (head, check) \<Rightarrow> Inr (f, \<lparr>cu_offset = length data, cu_file = Some identity, cu_head = head,
                       cu_check = check, cu_position = None\<rparr>)))"

definition WriteJSONL :: "nat \<Rightarrow> string \<Rightarrow> string list \<Rightarrow> log_file option \<Rightarrow> (jsonl_error + 'p Cursor) \<times> log_file option" where
  "WriteJSONL identity name rows f =
     (case writeRows identity name rows of
        Inl e \<Rightarrow> (Inl e, f)
      | Inr (written, cursor) \<Rightarrow> (Inr cursor, Some written))"

end
