(* ===== verification/Mirror.thy ===== *)
theory Mirror
  imports Records Jsonl Values
begin

text \<open>
  sessionlog/mirror.go: the mirror of one session's native rows in a store.  The running digest is
  the bytes written to it so far; its sum is their SHA-256.  The mutex makes an operation atomic.
  Parameters: the store (a \<open>SessionStore\<close> on a world), the source and the record function, each
  given the number of the read within one commit, since both may run twice and the native history may
  have grown in between, and \<open>json.Marshal\<close> of a record.
\<close>

section \<open>State and reports\<close>

record 'p Mirror =
  mi_sessionID :: string
  mi_committed :: bool
  mi_rows :: nat
  mi_digest :: string
  mi_record :: string
  mi_cursor :: "'p Cursor"

definition NewMirror :: "string \<Rightarrow> 'p Mirror" where
  "NewMirror sessionID = \<lparr>mi_sessionID = sessionID, mi_committed = False, mi_rows = 0, mi_digest = [],
     mi_record = zero_sum, mi_cursor = zero_cursor\<rparr>"

type_synonym Republish = string

definition RepublishInitial :: Republish where "RepublishInitial = ''initial''"
definition RepublishRewritten :: Republish where "RepublishRewritten = ''rewritten''"
definition RepublishAppendFailed :: Republish where "RepublishAppendFailed = ''append_failed''"

record 'e CommitReport =
  cr_Appended :: nat
  cr_Republish :: Republish
  cr_AppendErr :: "'e option"

definition no_commit :: "'e CommitReport" where
  "no_commit = \<lparr>cr_Appended = 0, cr_Republish = '''', cr_AppendErr = None\<rparr>"

definition Recovery :: "'e CommitReport \<Rightarrow> bool" where
  "Recovery r \<longleftrightarrow> cr_Republish r = RepublishRewritten \<or> cr_Republish r = RepublishAppendFailed"

record 'e HydrateReport =
  hr_Tail :: TornTail
  hr_InvalidCut :: nat
  hr_Rewritten :: bool
  hr_Commit :: "'e CommitReport"

definition no_hydrate :: "'e HydrateReport" where
  "no_hydrate = \<lparr>hr_Tail = \<lparr>tt_Cut = 0, tt_Terminated = False\<rparr>, hr_InvalidCut = 0, hr_Rewritten = False, hr_Commit = no_commit\<rparr>"

definition HydrateReport_Changed :: "'e HydrateReport \<Rightarrow> bool" where
  "HydrateReport_Changed r \<longleftrightarrow> TornTail_Changed (hr_Tail r) \<or> hr_InvalidCut r > 0 \<or> hr_Rewritten r"

text \<open>\<open>'e\<close>: what the store's calls fail with; \<open>'d\<close>: encoding and the record function; \<open>'f\<close>: the
  source and the native file.\<close>

datatype ('e, 'd, 'f) mirror_error =
    ReadFailed 'f
  | RecordFailed 'd
  | InvalidRow string
  | Shrank nat nat
  | StoreRefused 'e
  | NativeDisagrees nat
  | HistoryRefused 'd
  | NativeFile jsonl_error

section \<open>What the mirror remembers\<close>

definition mirror_forget :: "'p Mirror \<Rightarrow> 'p Mirror" where
  "mirror_forget m = m\<lparr>mi_committed := False, mi_rows := 0, mi_digest := [], mi_record := zero_sum, mi_cursor := zero_cursor\<rparr>"

definition mirror_Reset :: "'p Mirror \<Rightarrow> 'p Mirror" where
  "mirror_Reset m = mirror_forget m"

definition writeDigest :: "string \<Rightarrow> string \<Rightarrow> string" where
  "writeDigest digest row = digest @ uvarint (length row) @ row"

definition mirror_extend :: "string list \<Rightarrow> 'p Mirror \<Rightarrow> 'p Mirror" where
  "mirror_extend rows m = m\<lparr>mi_digest := foldl writeDigest (mi_digest m) rows, mi_rows := mi_rows m + length rows\<rparr>"

definition mirror_adopt :: "string list \<Rightarrow> string \<Rightarrow> 'p Cursor \<Rightarrow> 'p Mirror \<Rightarrow> 'p Mirror" where
  "mirror_adopt rows encoded cursor m =
     mirror_extend rows ((mirror_forget m)\<lparr>mi_committed := True, mi_record := sha256 encoded, mi_cursor := cursor\<rparr>)"

definition mirror_Adopt :: "string list \<Rightarrow> 'd + string \<Rightarrow> 'p Cursor \<Rightarrow> 'p Mirror \<Rightarrow> 'd option \<times> 'p Mirror" where
  "mirror_Adopt rows marshalled cursor m =
     (case marshalled of Inl e \<Rightarrow> (Some e, m) | Inr encoded \<Rightarrow> (None, mirror_adopt rows encoded cursor m))"

definition extendsCommitted :: "'p Mirror \<Rightarrow> string list \<Rightarrow> bool" where
  "extendsCommitted m rows \<longleftrightarrow> sha256 (foldl writeDigest [] (take (mi_rows m) rows)) = sha256 (mi_digest m)"

section \<open>Calls to the store\<close>

definition mirror_key :: "'p Mirror \<Rightarrow> SessionKey" where
  "mirror_key m = \<lparr>key_SessionID = mi_sessionID m, key_Subpath = ''''\<rparr>"

definition configReplacement :: "'p Mirror \<Rightarrow> string \<Rightarrow> SessionStoreReplacement" where
  "configReplacement m encoded =
     \<lparr>rp_Key = \<lparr>key_SessionID = mi_sessionID m, key_Subpath = ConfigSubpath\<rparr>, rp_Entries = [encoded]\<rparr>"

definition mirror_append :: "('w, 'e) SessionStore \<Rightarrow> 'p Mirror \<Rightarrow> string list \<Rightarrow> string \<Rightarrow> 'w \<Rightarrow> 'e option \<times> 'w" where
  "mirror_append store m rows encoded =
     st_Append store (mirror_key m) (int (mi_rows m)) rows
       (if sha256 encoded \<noteq> mi_record m then [configReplacement m encoded] else [])"

definition mirror_replace :: "('w, 'e) SessionStore \<Rightarrow> 'p Mirror \<Rightarrow> string list \<Rightarrow> string \<Rightarrow> 'w \<Rightarrow> 'e option \<times> 'w" where
  "mirror_replace store m rows encoded =
     st_Replace store (mirror_key m) [\<lparr>rp_Key = mirror_key m, rp_Entries = rows\<rparr>, configReplacement m encoded]"

section \<open>Committing\<close>

text \<open>Where the first invalid row is.\<close>

definition validRows :: "'p Tail \<Rightarrow> nat \<Rightarrow> string option" where
  "validRows tail start =
     map_option (Tail_locate tail)
       (find (\<lambda>index. \<not> validRow (tl_Rows tail ! index)) [start..<length (tl_Rows tail)])"

definition appendTail :: "('w, 'e) SessionStore \<Rightarrow> 'p Tail \<Rightarrow> string \<Rightarrow> 'p Mirror \<Rightarrow> 'w \<Rightarrow>
    (('e, 'd, 'f) mirror_error + 'e CommitReport) \<times> 'p Mirror \<times> 'w" where
  "appendTail store tail encoded m w =
     (case validRows tail 0 of
        Some location \<Rightarrow> (Inl (InvalidRow location), m, w)
      | None \<Rightarrow>
          if tl_Rows tail = [] \<and> sha256 encoded = mi_record m then (Inr no_commit, m\<lparr>mi_cursor := tl_Next tail\<rparr>, w)
          else (case mirror_append store m (tl_Rows tail) encoded w of
                  (Some e, w) \<Rightarrow> (Inl (StoreRefused e), m, w)
                | (None, w) \<Rightarrow> (Inr (no_commit\<lparr>cr_Appended := length (tl_Rows tail)\<rparr>),
                    (mirror_extend (tl_Rows tail) m)\<lparr>mi_record := sha256 encoded, mi_cursor := tl_Next tail\<rparr>, w)))"

definition republish :: "('w, 'e) SessionStore \<Rightarrow> 'p Tail \<Rightarrow> string \<Rightarrow> 'e CommitReport \<Rightarrow> 'p Mirror \<Rightarrow> 'w \<Rightarrow>
    (('e, 'd, 'f) mirror_error + 'e CommitReport) \<times> 'p Mirror \<times> 'w" where
  "republish store tail encoded report m w =
     (case mirror_replace store m (tl_Rows tail) encoded w of
        (Some e, w) \<Rightarrow> (Inl (StoreRefused e), m, w)
      | (None, w) \<Rightarrow> (Inr report, mirror_adopt (tl_Rows tail) encoded (tl_Next tail) m, w))"

definition append_failure :: "'e \<Rightarrow> 'e CommitReport" where
  "append_failure e = \<lparr>cr_Appended = 0, cr_Republish = RepublishAppendFailed, cr_AppendErr = Some e\<rparr>"

definition commitFull :: "('w, 'e) SessionStore \<Rightarrow> 'e option \<Rightarrow> 'p Tail \<Rightarrow> string \<Rightarrow> 'p Mirror \<Rightarrow> 'w \<Rightarrow>
    (('e, 'd, 'f) mirror_error + 'e CommitReport) \<times> 'p Mirror \<times> 'w" where
  "commitFull store appendErr tail encoded m w =
     (if mi_committed m \<and> length (tl_Rows tail) < mi_rows m then (Inl (Shrank (mi_rows m) (length (tl_Rows tail))), m, w)
      else (let extends = (mi_committed m \<and> extendsCommitted m (tl_Rows tail))
            in case validRows tail (if extends then mi_rows m else 0) of
                 Some location \<Rightarrow> (Inl (InvalidRow location), m, w)
               | None \<Rightarrow>
                   if extends then
                     (let added = drop (mi_rows m) (tl_Rows tail)
                      in if added = [] \<and> sha256 encoded = mi_record m then (Inr no_commit, m\<lparr>mi_cursor := tl_Next tail\<rparr>, w)
                         else (case appendErr of
                                 Some e \<Rightarrow> republish store tail encoded (append_failure e) m w
                               | None \<Rightarrow>
                                   (case mirror_append store m added encoded w of
                                      (Some e, w) \<Rightarrow> republish store tail encoded (append_failure e) m w
                                    | (None, w) \<Rightarrow> (Inr (no_commit\<lparr>cr_Appended := length added\<rparr>),
                                        (mirror_extend added m)\<lparr>mi_record := sha256 encoded, mi_cursor := tl_Next tail\<rparr>, w))))
                   else (case appendErr of
                           Some e \<Rightarrow> republish store tail encoded (append_failure e) m w
                         | None \<Rightarrow> republish store tail encoded
                             (no_commit\<lparr>cr_Republish := if mi_committed m then RepublishRewritten else RepublishInitial\<rparr>) m w)))"

definition mirror_read :: "(nat \<Rightarrow> 'p Cursor \<Rightarrow> 'f + 'p Tail) \<Rightarrow> (nat \<Rightarrow> 'p Tail \<Rightarrow> 'd + 'v) \<Rightarrow> ('v \<Rightarrow> 'd + string) \<Rightarrow>
    nat \<Rightarrow> 'p Cursor \<Rightarrow> ('e, 'd, 'f) mirror_error + 'p Tail \<times> string" where
  "mirror_read source recorded marshal k cursor =
     (case source k cursor of
        Inl e \<Rightarrow> Inl (ReadFailed e)
      | Inr tail \<Rightarrow>
          (case recorded k tail of
             Inl e \<Rightarrow> Inl (RecordFailed e)
           | Inr v \<Rightarrow> (case marshal v of Inl e \<Rightarrow> Inl (RecordFailed e) | Inr encoded \<Rightarrow> Inr (tail, encoded))))"

definition mirror_Commit :: "('w, 'e) SessionStore \<Rightarrow> (nat \<Rightarrow> 'p Cursor \<Rightarrow> 'f + 'p Tail) \<Rightarrow> (nat \<Rightarrow> 'p Tail \<Rightarrow> 'd + 'v) \<Rightarrow>
    ('v \<Rightarrow> 'd + string) \<Rightarrow> 'p Mirror \<Rightarrow> 'w \<Rightarrow> (('e, 'd, 'f) mirror_error + 'e CommitReport) \<times> 'p Mirror \<times> 'w" where
  "mirror_Commit store source recorded marshal m w =
     (case mirror_read source recorded marshal 0 (if mi_committed m then mi_cursor m else zero_cursor) of
        Inl e \<Rightarrow> (Inl e, m, w)
      | Inr (tail, encoded) \<Rightarrow>
          if tl_Full tail then commitFull store None tail encoded m w
          else (case appendTail store tail encoded m w of
                  (Inr report, m, w) \<Rightarrow> (Inr report, m, w)
                | (Inl (StoreRefused e), m, w) \<Rightarrow>
                    (case mirror_read source recorded marshal 1 zero_cursor of
                       Inl e \<Rightarrow> (Inl e, m, w)
                     | Inr (tail, encoded) \<Rightarrow> commitFull store (Some e) tail encoded m w)
                | (Inl e, m, w) \<Rightarrow> (Inl e, m, w)))"

section \<open>Hydrating\<close>

definition cutInvalidRows :: "log_file option \<Rightarrow> 'p Tail \<Rightarrow> nat \<Rightarrow> nat \<times> log_file option" where
  "cutInvalidRows f native committed =
     (case find (\<lambda>index. \<not> validRow (tl_Rows native ! index)) [committed..<length (tl_Rows native)] of
        None \<Rightarrow> (0, f)
      | Some index \<Rightarrow>
          (case f of
             None \<Rightarrow> (0, f)
           | Some g \<Rightarrow> (length (fl_data g) - Tail_offset native index,
               Some (g\<lparr>fl_data := take (Tail_offset native index) (fl_data g)\<rparr>))))"

text \<open>The session's rows are settled before the mirror is touched.\<close>

definition hydrate_rows :: "log_file option \<Rightarrow> string list \<Rightarrow> (string list \<Rightarrow> 'd option) option \<Rightarrow>
    (('e, 'd, 'f) mirror_error + string list \<times> bool \<times> 'p Tail) \<times> 'e HydrateReport \<times> log_file option" where
  "hydrate_rows f stored validate =
     (let (torn, f) = CutTornTail f;
          report = no_hydrate\<lparr>hr_Tail := torn\<rparr>
      in case ReadJSONL f zero_cursor of
           Inl e \<Rightarrow> (Inl (NativeFile e), report, f)
         | Inr native \<Rightarrow>
             (let (cut, f) = cutInvalidRows f native (length stored);
                  report = report\<lparr>hr_InvalidCut := cut\<rparr>
              in case (if cut > 0 then ReadJSONL f zero_cursor else Inr native) of
                   Inl e \<Rightarrow> (Inl (NativeFile e), report, f)
                 | Inr native \<Rightarrow>
                     (case reconcile (tl_Rows native) stored of
                        Inl index \<Rightarrow> (Inl (NativeDisagrees index), report, f)
                      | Inr (rows, nativeWins) \<Rightarrow>
                          (case (case validate of None \<Rightarrow> None | Some check \<Rightarrow> if rows \<noteq> [] then check rows else None) of
                             Some e \<Rightarrow> (Inl (HistoryRefused e), report, f)
                           | None \<Rightarrow> (Inr (rows, nativeWins, native), report, f)))))"

definition mirror_Hydrate :: "('w, 'e) SessionStore \<Rightarrow> nat \<Rightarrow> string \<Rightarrow> log_file option \<Rightarrow> string list \<Rightarrow> 'd + string \<Rightarrow>
    (string list \<Rightarrow> 'd option) option \<Rightarrow> 'p Mirror \<Rightarrow> 'w \<Rightarrow>
    (('e, 'd, 'f) mirror_error + string list) \<times> 'e HydrateReport \<times> 'p Mirror \<times> log_file option \<times> 'w" where
  "mirror_Hydrate store identity name f stored marshalled validate m w =
     (case marshalled of
        Inl e \<Rightarrow> (Inl (RecordFailed e), no_hydrate, m, f, w)
      | Inr encoded \<Rightarrow>
          (case hydrate_rows f stored validate of
             (Inl e, report, f) \<Rightarrow> (Inl e, report, m, f, w)
           | (Inr (rows, nativeWins, native), report, f) \<Rightarrow>
               (let m = mirror_adopt stored encoded zero_cursor m
                in if nativeWins then
                     if length rows > length stored then
                       (case commitFull store None (native\<lparr>tl_Rows := rows\<rparr>) encoded m w of
                          (Inl e, m, w) \<Rightarrow> (Inl e, report, m, f, w)
                        | (Inr commit, m, w) \<Rightarrow>
                            (Inr rows, report\<lparr>hr_Commit := commit\<rparr>, m\<lparr>mi_cursor := tl_Next native\<rparr>, f, w))
                     else (Inr rows, report, m\<lparr>mi_cursor := tl_Next native\<rparr>, f, w)
                   else (case WriteJSONL identity name rows f of
                           (Inl e, f) \<Rightarrow> (Inl (NativeFile e), report, m, f, w)
                         | (Inr cursor, f) \<Rightarrow> (Inr rows, report\<lparr>hr_Rewritten := True\<rparr>, m\<lparr>mi_cursor := cursor\<rparr>, f, w)))))"

end
