(* ===== verification/JsonlProps.thy ===== *)
theory JsonlProps
  imports Jsonl
begin

text \<open>
  What the native logs promise: reading a log in pieces is reading it at once, cutting a torn
  tail ends the file on a line boundary without losing a record, and what is written reads back.
\<close>

section \<open>What a read returns\<close>

definition rows_of :: "string \<Rightarrow> string list" where
  "rows_of d = filter (\<lambda>row. row \<noteq> []) (map TrimSpace (lines_of (take (complete_length d) d)))"

definition cursor_at :: "log_file \<Rightarrow> nat \<Rightarrow> 'p Cursor" where
  "cursor_at f n =
     (if n = 0 then zero_cursor\<lparr>cu_file := Some (fl_id f)\<rparr>
      else \<lparr>cu_offset = n, cu_file = Some (fl_id f), cu_head = sha256 (take (min n cursorCheckBytes) (fl_data f)),
        cu_check = sha256 (drop (n - cursorCheckBytes) (take n (fl_data f))), cu_position = None\<rparr>)"

definition read_at :: "log_file \<Rightarrow> nat \<Rightarrow> 'p Tail" where
  "read_at f start =
     (let d = drop start (fl_data f)
      in \<lparr>tl_Rows = rows_of d, tl_Next = cursor_at f (start + complete_length d), tl_Full = (start = 0),
          tl_origin = fl_name f, tl_data = take (complete_length d) d, tl_start = start\<rparr>)"

lemma read_at_fields [simp]:
  "tl_Rows (read_at f n) = rows_of (drop n (fl_data f))"
  "tl_Next (read_at f n) = cursor_at f (n + complete_length (drop n (fl_data f)))"
  "tl_Full (read_at f n) \<longleftrightarrow> n = 0"
  by (simp_all add: read_at_def Let_def)

lemma splitLines_rows: "splitLines d = (rows_of d, complete_length d)"
  by (simp add: splitLines_def rows_of_def)

lemma checksums_within:
  "n \<le> length d \<Longrightarrow> checksums d n = Some (sha256 (take (min n cursorCheckBytes) d), sha256 (drop (n - cursorCheckBytes) (take n d)))"
  by (simp add: checksums_def digestRange_def)

lemma continue_within: "continue_at f c (length (fl_data f)) = Some s \<Longrightarrow> s \<le> length (fl_data f)"
  by (auto simp: continue_at_def split: if_splits option.splits)

lemma continue_decided:
  "continue_at f c (length (fl_data f)) =
     Some (if 0 < cu_offset c \<and> cu_offset c \<le> length (fl_data f) \<and> cu_file c = Some (fl_id f) \<and>
        checksums (fl_data f) (cu_offset c) = Some (cu_head c, cu_check c) then cu_offset c else 0)"
  by (simp add: continue_at_def checksums_within)

text \<open>Reading a regular file never fails, and returns the complete rows from where it starts.\<close>

lemma read_file:
  assumes "fl_regular f" and "continue_at f c (length (fl_data f)) = Some s"
  shows "ReadJSONL (Some f) c = Inr (read_at f s)"
proof -
  let ?d = "drop s (fl_data f)"
  have s: "s \<le> length (fl_data f)" using assms(2) by (rule continue_within)
  have n: "s + complete_length ?d \<le> length (fl_data f)" using complete_prefix(3)[of ?d] s by simp
  show ?thesis
    using assms n s
    by (cases "s = 0") (simp_all add: ReadJSONL_def ReadJSONLFile_def Let_def splitLines_rows checksums_within read_at_def cursor_at_def
        split: prod.split)
qed

lemma read_whole: "fl_regular f \<Longrightarrow> ReadJSONL (Some f) zero_cursor = Inr (read_at f 0)"
  by (intro read_file) (simp_all add: continue_at_def zero_cursor_def)

section \<open>Reading in pieces\<close>

lemma boundary_append: "on_boundary a \<Longrightarrow> on_boundary b \<Longrightarrow> on_boundary (a @ b)"
  by (cases "b = []") (auto simp: on_boundary_def)

text \<open>Past a line boundary the complete part and the rows of the rest simply follow.\<close>

lemma complete_after:
  assumes "on_boundary a"
  shows "complete_length (a @ b) = length a + complete_length b"
    and "rows_of (a @ b) = rows_of a @ rows_of b"
proof -
  have whole: "complete_length (x @ y) = length x + complete_length y" if "on_boundary x" for x y
    using complete_unique[of "x @ y" "x @ take (complete_length y) y" "drop (complete_length y) y"]
      boundary_append[OF that complete_prefix(1)[of y]] complete_prefix(2,3)[of y] by simp
  then show "complete_length (a @ b) = length a + complete_length b" using assms .
  have "complete_length a = length a" using whole[OF assms, of "[]"] by (simp add: complete_length_def)
  with whole[OF assms, of b] assms show "rows_of (a @ b) = rows_of a @ rows_of b"
    by (simp add: rows_of_def lines_of_append)
qed

lemma rows_complete: "rows_of (take (complete_length d) d) = rows_of d"
  using complete_after(2)[OF complete_prefix(1)[of d], of "drop (complete_length d) d"]
    complete_prefix(2)[of d]
  by (simp add: rows_of_def complete_unique[of _ "[]"] on_boundary_def)

lemma grown_split:
  assumes "n = complete_length d"
  shows "rows_of (d @ m) = rows_of d @ rows_of (drop n (d @ m))"
    and "complete_length (d @ m) = n + complete_length (drop n (d @ m))"
proof -
  have "n \<le> length d" using assms complete_prefix(3) by simp
  then have split: "d @ m = take n d @ drop n (d @ m)" by simp
  show "rows_of (d @ m) = rows_of d @ rows_of (drop n (d @ m))"
    "complete_length (d @ m) = n + complete_length (drop n (d @ m))"
    unfolding assms
    using complete_after[OF complete_prefix(1)[of d], of "drop n (d @ m)"] rows_complete[of d] \<open>n \<le> length d\<close> split
    unfolding assms by (metis length_take min.absorb2)+
qed

definition log_extends :: "log_file \<Rightarrow> log_file \<Rightarrow> bool" where
  "log_extends f g \<longleftrightarrow> fl_id g = fl_id f \<and> fl_regular g = fl_regular f \<and> take (length (fl_data f)) (fl_data g) = fl_data f"

lemma log_extends_data: "log_extends f g \<Longrightarrow> fl_data g = fl_data f @ drop (length (fl_data f)) (fl_data g)"
  by (metis append_take_drop_id log_extends_def)

lemma continue_grown:
  assumes "log_extends f g" and n: "n \<le> length (fl_data f)"
  shows "continue_at g (cursor_at f n) (length (fl_data g)) = Some n"
proof (cases "n = 0")
  case False
  obtain m where g: "fl_data g = fl_data f @ m" using log_extends_data[OF assms(1)] by blast
  have "checksums (fl_data g) n = Some (cu_head (cursor_at f n), cu_check (cursor_at f n))"
    using n g False by (simp add: checksums_within cursor_at_def)
  with assms g False show ?thesis
    unfolding continue_decided by (simp add: log_extends_def cursor_at_def)
qed (simp add: continue_decided[of g] cursor_at_def zero_cursor_def)

text \<open>One reader that polls: it keeps its cursor and the rows it has, and a full tail replaces
  them.\<close>

definition poll :: "log_file \<Rightarrow> 'p Cursor \<times> string list \<Rightarrow> 'p Cursor \<times> string list" where
  "poll f state =
     (case ReadJSONL (Some f) (fst state) of
        Inl e \<Rightarrow> state
      | Inr tail \<Rightarrow> (tl_Next tail, if tl_Full tail then tl_Rows tail else snd state @ tl_Rows tail))"

definition seen :: "log_file \<Rightarrow> 'p Cursor \<times> string list" where
  "seen f = (cursor_at f (complete_length (fl_data f)), rows_of (fl_data f))"

fun growing :: "log_file list \<Rightarrow> bool" where
  "growing [] \<longleftrightarrow> True"
| "growing [f] \<longleftrightarrow> fl_regular f"
| "growing (f # g # fs) \<longleftrightarrow> fl_regular f \<and> log_extends f g \<and> growing (g # fs)"

lemma poll_first: "fl_regular f \<Longrightarrow> poll f (zero_cursor, rows) = seen f"
  by (simp add: poll_def read_whole seen_def)

lemma poll_grown:
  assumes "fl_regular f" and "log_extends f g"
  shows "poll g (seen f) = (seen g :: 'p Cursor \<times> string list)"
proof -
  let ?n = "complete_length (fl_data f)"
  obtain m where g: "fl_data g = fl_data f @ m" using log_extends_data[OF assms(2)] by blast
  have "fl_regular g" using assms by (simp add: log_extends_def)
  then have read: "ReadJSONL (Some g) (cursor_at f ?n) = Inr (read_at g ?n)"
    using continue_grown[OF assms(2) complete_prefix(3)] by (rule read_file)
  have "cursor_at g (complete_length (fl_data g)) = (tl_Next (read_at g ?n) :: 'p Cursor)"
    using grown_split(2)[OF refl, of "fl_data f" m] g by simp
  moreover have "rows_of (fl_data g) = rows_of (fl_data f) @ tl_Rows (read_at g ?n)"
    using grown_split(1)[OF refl, of "fl_data f" m] g by simp
  moreover have "?n = 0 \<Longrightarrow> rows_of (fl_data f) = []" by (simp add: rows_of_def)
  ultimately show ?thesis unfolding poll_def seen_def fst_conv read by (cases "?n = 0") simp_all
qed

lemma polls_grown:
  "growing (f # fs) \<Longrightarrow> fold poll fs (seen f) = seen (last (f # fs))"
  by (induction "f # fs" arbitrary: f fs rule: growing.induct) (auto simp: poll_grown)

text \<open>C18: Reading an append-only log in pieces is reading it at once: a reader that starts at the
  zero cursor and polls the file at any moments of its growth, keeping the cursor each read
  returns, holds exactly the rows and the cursor of a single read of the file as it is last. Torn
  lines are left for a later poll, and no row is read twice or lost.\<close>

theorem reading_in_pieces:
  assumes "growing fs" and "fs \<noteq> []"
  shows "\<exists>whole. ReadJSONL (Some (last fs)) zero_cursor = Inr whole \<and> tl_Full whole \<and>
    fold poll fs (zero_cursor, []) = (tl_Next whole, tl_Rows whole)"
proof -
  obtain f rest where fs: "fs = f # rest" using assms(2) by (cases fs) auto
  have "fl_regular (last fs)"
    using assms by (induction fs rule: growing.induct) (auto simp: log_extends_def)
  moreover have "fl_regular f" using assms(1) fs by (cases rest) auto
  ultimately show ?thesis
    using polls_grown[of f rest] assms(1) fs by (simp add: poll_first read_whole seen_def)
qed

theorem reading_in_pieces_witness:
  "\<exists>whole. ReadJSONL (Some \<lparr>fl_id = 7, fl_regular = True, fl_name = ''log'', fl_data = ''{}'' @ [newline] @ ''{}'' @ [newline]\<rparr>)
      (zero_cursor :: nat Cursor) = Inr whole \<and> tl_Full whole \<and>
    fold poll [\<lparr>fl_id = 7, fl_regular = True, fl_name = ''log'', fl_data = ''{}'' @ [newline] @ ''{''\<rparr>,
        \<lparr>fl_id = 7, fl_regular = True, fl_name = ''log'', fl_data = ''{}'' @ [newline] @ ''{}'' @ [newline]\<rparr>]
      (zero_cursor, []) = (tl_Next whole, tl_Rows whole)"
  using reading_in_pieces[of "[\<lparr>fl_id = 7, fl_regular = True, fl_name = ''log'', fl_data = ''{}'' @ [newline] @ ''{''\<rparr>,
        \<lparr>fl_id = 7, fl_regular = True, fl_name = ''log'', fl_data = ''{}'' @ [newline] @ ''{}'' @ [newline]\<rparr>]"]
  by (simp add: log_extends_def)

section \<open>Cutting a torn tail\<close>

lemma complete_chunk:
  assumes "newline \<in> set (drop start (take stop d))" and "stop \<le> length d" and "newline \<notin> set (drop stop d)"
    and "start \<le> stop"
  shows "complete_length d = start + complete_length (drop start (take stop d))"
proof -
  let ?c = "drop start (take stop d)" and ?n = "complete_length (drop start (take stop d))"
  have d: "d = (take start d @ take ?n ?c) @ (drop ?n ?c @ drop stop d)"
  proof -
    have "take start d @ ?c = take stop d"
      using assms(4) by (metis append_take_drop_id min.absorb1 take_take)
    then show ?thesis by (metis append.assoc append_take_drop_id)
  qed
  have "?n \<noteq> 0" using assms(1) complete_prefix(2)[of ?c] by (metis drop0)
  then have "take ?n ?c \<noteq> []" using assms(1) by auto
  then have "on_boundary (take start d @ take ?n ?c)"
    using complete_prefix(1)[of ?c] by (auto simp: on_boundary_def)
  moreover have "newline \<notin> set (drop ?n ?c @ drop stop d)" using complete_prefix(2)[of ?c] assms(3) by simp
  moreover have "length (take start d @ take ?n ?c) = start + ?n"
    using complete_prefix(3)[of ?c] assms(2,4) by simp
  ultimately show ?thesis using complete_unique[OF d] by simp
qed

lemma last_line_end_correct:
  assumes "0 < window" and "stop \<le> length d" and "newline \<notin> set (drop stop d)"
  shows "last_line_end d window stop = complete_length d"
  using assms
proof (induction d window stop rule: last_line_end.induct)
  case (1 d window stop)
  let ?start = "stop - window"
  show ?case
  proof (cases "stop = 0")
    case True
    then have "complete_length d = 0" using 1(4) complete_unique[of d "[]" d] by (simp add: on_boundary_def)
    then show ?thesis using True by (simp add: last_line_end.simps)
  next
    case False
    show ?thesis
    proof (cases "newline \<in> set (drop ?start (take stop d))")
      case True
      then have "complete_length d = ?start + complete_length (drop ?start (take stop d))"
        using 1(3,4) by (intro complete_chunk) auto
      with True False 1(2) show ?thesis by (simp add: last_line_end.simps[of d window stop] Let_def)
    next
      case nl: False
      have "drop ?start d = drop ?start (take stop d) @ drop stop d"
        by (metis append_take_drop_id diff_le_self drop_drop drop_take le_add_diff_inverse2)
      then have "newline \<notin> set (drop ?start d)" using nl 1(4) by simp
      then have "last_line_end d window ?start = complete_length d"
        using 1(1)[of ?start "drop ?start (take stop d)"] False nl 1(2,3) by simp
      with False nl 1(2) show ?thesis by (simp add: last_line_end.simps[of d window stop] Let_def)
    qed
  qed
qed

lemma lastLineEnd_correct: "lastLineEnd d (length d) = complete_length d"
proof (cases "d = []")
  case False
  then show ?thesis by (simp add: lastLineEnd_def cursorCheckBytes_def last_line_end_correct)
qed (simp add: lastLineEnd_def last_line_end.simps complete_length_def)

lemma torn_tail_cases:
  "complete_length d = length d \<longleftrightarrow> drop (complete_length d) d = []"
  using complete_prefix(3)[of d] by auto

lemma boundary_complete: "on_boundary d \<Longrightarrow> complete_length d = length d"
  using complete_after(1)[of d "[]"] by (simp add: complete_length_def)

lemma torn_cut:
  fixes f
  defines "n \<equiv> complete_length (fl_data f)" and "g \<equiv> snd (cutTornTail f)" and "t \<equiv> fst (cutTornTail f)"
  shows "lastLineEnd (fl_data f) (length (fl_data f)) = n \<and>
    fl_data g = (if drop n (fl_data f) = [] then fl_data f
                 else if oneObject (drop n (fl_data f)) then fl_data f @ [newline] else take n (fl_data f)) \<and>
    on_boundary (fl_data g) \<and> take n (fl_data g) = take n (fl_data f) \<and>
    (TornTail_Changed t \<longleftrightarrow> fl_data g \<noteq> fl_data f) \<and>
    length (fl_data g) + tt_Cut t = length (fl_data f) + (if tt_Terminated t then 1 else 0) \<and>
    cutTornTail g = (\<lparr>tt_Cut = 0, tt_Terminated = False\<rparr>, g)"
proof -
  have n: "n \<le> length (fl_data f)" and e: "lastLineEnd (fl_data f) (length (fl_data f)) = n"
    by (simp_all add: n_def complete_prefix lastLineEnd_correct)
  have whole: "n = length (fl_data f) \<longleftrightarrow> drop n (fl_data f) = []" using n by auto
  have data: "fl_data g = (if drop n (fl_data f) = [] then fl_data f
      else if oneObject (drop n (fl_data f)) then fl_data f @ [newline] else take n (fl_data f))"
    using e whole by (auto simp: g_def cutTornTail_def Let_def)
  have boundary: "on_boundary (fl_data g)"
  proof (cases "drop n (fl_data f) = []")
    case True
    then have "take n (fl_data f) = fl_data f" using whole by simp
    with True data show ?thesis using complete_prefix(1)[of "fl_data f"] by (simp add: n_def)
  next
    case False
    then show ?thesis using data complete_prefix(1)[of "fl_data f"] by (auto simp: n_def on_boundary_def)
  qed
  have "lastLineEnd (fl_data g) (length (fl_data g)) = length (fl_data g)"
    using boundary by (simp add: lastLineEnd_correct boundary_complete)
  then have again: "cutTornTail g = (\<lparr>tt_Cut = 0, tt_Terminated = False\<rparr>, g)"
    by (simp add: cutTornTail_def Let_def)
  have kept: "take n (fl_data g) = take n (fl_data f)" using data n by simp
  have report: "TornTail_Changed t \<longleftrightarrow> fl_data g \<noteq> fl_data f"
    "length (fl_data g) + tt_Cut t = length (fl_data f) + (if tt_Terminated t then 1 else 0)"
  proof -
    have "n < length (fl_data f) \<Longrightarrow> take n (fl_data f) \<noteq> fl_data f" by (metis length_take min.absorb4 nat_less_le)
    then show "TornTail_Changed t \<longleftrightarrow> fl_data g \<noteq> fl_data f"
      using e whole n data by (auto simp: t_def cutTornTail_def Let_def TornTail_Changed_def)
    show "length (fl_data g) + tt_Cut t = length (fl_data f) + (if tt_Terminated t then 1 else 0)"
      using e whole n data by (auto simp: t_def cutTornTail_def Let_def)
  qed
  show ?thesis using e data boundary kept report again by blast
qed

lemma complete_take: "complete_length (take (complete_length d) d) = complete_length d"
  using boundary_complete[OF complete_prefix(1)] complete_prefix(3)[of d] by simp

lemma cut_rows:
  "rows_of (fl_data (snd (cutTornTail f))) =
     rows_of (fl_data f) @ (let rest = drop (complete_length (fl_data f)) (fl_data f)
       in if rest \<noteq> [] \<and> oneObject rest \<and> TrimSpace (rest @ [newline]) \<noteq> [] then [TrimSpace (rest @ [newline])] else [])"
proof -
  let ?n = "complete_length (fl_data f)"
  let ?r = "drop ?n (fl_data f)"
  have data: "fl_data (snd (cutTornTail f)) = (if ?r = [] then fl_data f
      else if oneObject ?r then fl_data f @ [newline] else take ?n (fl_data f))"
    using torn_cut[of f] by blast
  have "rows_of (fl_data f @ [newline]) = rows_of (fl_data f) @ rows_of (?r @ [newline])"
    using grown_split(1)[OF refl, of "fl_data f" "[newline]"] complete_prefix(3)[of "fl_data f"] by simp
  moreover have "rows_of (?r @ [newline]) = (if TrimSpace (?r @ [newline]) \<noteq> [] then [TrimSpace (?r @ [newline])] else [])"
    using complete_prefix(2)[of "fl_data f"] lines_of_line[of ?r "[]"] boundary_complete[of "?r @ [newline]"]
    by (simp add: rows_of_def on_boundary_def)
  ultimately show ?thesis using data rows_complete[of "fl_data f"] by (simp add: Let_def)
qed

text \<open>C19: Cutting a torn tail ends the file on a line boundary and loses no record: every complete
  line stays as it was, a last line that is one whole object gets its newline and becomes the last
  row, and any other unterminated tail is removed.  The backward scan in windows finds the end of
  the last line wherever it is, the report says exactly what changed, and a second cut changes
  nothing.\<close>

theorem torn_tail_cut:
  "let n = complete_length (fl_data f); rest = drop n (fl_data f); g = snd (cutTornTail f); t = fst (cutTornTail f)
   in lastLineEnd (fl_data f) (length (fl_data f)) = n \<and>
      fl_data g = (if rest = [] then fl_data f else if oneObject rest then fl_data f @ [newline] else take n (fl_data f)) \<and>
      on_boundary (fl_data g) \<and> take n (fl_data g) = take n (fl_data f) \<and>
      rows_of (fl_data g) = rows_of (fl_data f) @
        (if rest \<noteq> [] \<and> oneObject rest \<and> TrimSpace (rest @ [newline]) \<noteq> [] then [TrimSpace (rest @ [newline])] else []) \<and>
      (TornTail_Changed t \<longleftrightarrow> fl_data g \<noteq> fl_data f) \<and>
      length (fl_data g) + tt_Cut t = length (fl_data f) + (if tt_Terminated t then 1 else 0) \<and>
      cutTornTail g = (\<lparr>tt_Cut = 0, tt_Terminated = False\<rparr>, g)"
  using torn_cut[of f] cut_rows[of f] unfolding Let_def by blast

section \<open>Writing\<close>

lemma newline_char: "newline = CHR 0x0A"
  by (simp add: newline_def char_of_def bit_0)

lemma newline_spaces: "e \<in> set spaces \<Longrightarrow> 10 \<in> set e \<Longrightarrow> e = [10]"
  by (auto simp: spaces_def)

lemma byte_values_newline [simp]: "byte_values [newline] = [10]"
  by (simp add: byte_values_def newline_def)

lemma leading_space_0: "leading_space s = 0 \<longleftrightarrow> (\<forall>e \<in> set spaces. take (length e) (byte_values (take 3 s)) \<noteq> e)"
proof (cases "find (\<lambda>e. take (length e) (byte_values (take 3 s)) = e) spaces")
  case None
  then have "leading_space s = 0" by (simp add: leading_space_def)
  with None show ?thesis by (auto simp: find_None_iff)
next
  case (Some e)
  with space_found[OF Some] find_Some_mem[OF Some] show ?thesis by (auto simp: leading_space_def)
qed

lemma leading_space_line:
  assumes "row \<noteq> []" and "leading_space row = 0"
  shows "leading_space (row @ [newline]) = 0"
  unfolding leading_space_0
proof
  fix e assume e: "e \<in> set spaces"
  let ?t = "\<lambda>s. take (length e) (byte_values (take 3 s))"
  have no: "?t row \<noteq> e" using assms(2) e by (simp add: leading_space_0)
  have le: "length e \<le> 3" using e by (auto simp: spaces_def)
  show "?t (row @ [newline]) \<noteq> e"
  proof
    assume h: "?t (row @ [newline]) = e"
    have t: "?t s = take (length e) (byte_values s)" for s using le by (simp add: byte_values_def take_map[symmetric] min_def)
    show False
    proof (cases "length e \<le> length row")
      case True
      then have "?t (row @ [newline]) = ?t row" unfolding t by (simp add: byte_values_def)
      with h no show False by simp
    next
      case False
      have "byte_values (row @ [newline]) = byte_values row @ [10]" by (simp add: byte_values_def newline_def)
      moreover have "length (byte_values row @ [10]) \<le> length e" using False by (simp add: byte_values_def)
      ultimately have "e = byte_values row @ [10]" using h unfolding t by simp
      then have "e = [10]" using newline_spaces[OF e] by simp
      with False assms(1) show False by (cases row) auto
    qed
  qed
qed

lemma trailing_space_line: "trailing_space (row @ [newline]) = 1"
  by (simp add: trailing_space_def spaces_def byte_values_def newline_def)

lemma trim_line: "row \<noteq> [] \<Longrightarrow> trimmed row \<Longrightarrow> TrimSpace (row @ [newline]) = row"
  by (simp add: TrimSpace_def trimmed_def trim_space_left.simps[of "row @ [newline]"] leading_space_line
      trim_space_right.simps[of "row @ [newline]"] trim_space_right.simps[of row] trailing_space_line del: One_nat_def)

definition plain_row :: "string \<Rightarrow> bool" where
  "plain_row row \<longleftrightarrow> row \<noteq> [] \<and> trimmed row \<and> newline \<notin> set row"

lemma plain_lines:
  "list_all plain_row rows \<Longrightarrow> on_boundary (concat (map (\<lambda>row. row @ [newline]) rows)) \<and>
     rows_of (concat (map (\<lambda>row. row @ [newline]) rows)) = rows"
proof (induction rows)
  case (Cons row rows)
  let ?d = "concat (map (\<lambda>row. row @ [newline]) rows)"
  have row: "plain_row row" and b: "on_boundary ?d" and r: "rows_of ?d = rows" using Cons by simp_all
  have line: "on_boundary (row @ [newline])" by (simp add: on_boundary_def)
  have "rows_of (row @ [newline]) = [row]"
    using row lines_of_line[of row "[]"] boundary_complete[OF line] by (simp add: rows_of_def plain_row_def trim_line)
  then show ?case using complete_after(2)[OF line, of ?d] boundary_append[OF line b] r by simp
qed (simp add: on_boundary_def rows_of_def)

text \<open>What is written reads back: rows that are trimmed, not empty and on one line are read
  back as they were from the published file, as a full history, and the cursor the write returned
  is the one the read continues from.  A row with a newline publishes nothing.\<close>

theorem written_rows_read_back:
  fixes identity :: nat and old :: "log_file option"
  assumes "list_all plain_row rows" and "rows \<noteq> []"
  shows "\<exists>cursor f tail. WriteJSONL identity name rows old = (Inr cursor, Some f) \<and>
    ReadJSONL (Some f) zero_cursor = Inr tail \<and> tl_Rows tail = rows \<and> tl_Full tail \<and> tl_Next tail = cursor \<and>
    WriteJSONL identity name (rows @ [''a'' @ [newline]]) old = (Inl (RowSpansLines (length rows)), old)"
proof -
  let ?d = "concat (map (\<lambda>row. row @ [newline]) rows)"
  let ?f = "\<lparr>fl_id = identity, fl_regular = True, fl_name = name, fl_data = ?d\<rparr>"
  have ok: "find (\<lambda>i. newline \<in> set (rows ! i)) [0..<length rows] = None"
    using assms(1) by (auto simp: find_None_iff list_all_length plain_row_def)
  have d: "?d \<noteq> []" using assms(2) by (cases rows) auto
  have b: "on_boundary ?d" "rows_of ?d = rows" using plain_lines[OF assms(1)] by blast+
  have c: "complete_length ?d = length ?d" using b(1) by (rule boundary_complete)
  have written: "WriteJSONL identity name rows old = (Inr (cursor_at ?f (length ?d)), Some ?f)"
    using d ok by (simp add: WriteJSONL_def writeRows_def Let_def checksums_within cursor_at_def)
  have read: "ReadJSONL (Some ?f) zero_cursor = Inr (read_at ?f 0)" by (simp add: read_whole)
  have "find (\<lambda>i. newline \<in> set ((rows @ [''a'' @ [newline]]) ! i)) [0..<length rows] = None"
    using assms(1) by (auto simp: find_None_iff list_all_length plain_row_def nth_append)
  moreover have find_append: "find P (xs @ ys) = (case find P xs of None \<Rightarrow> find P ys | Some x \<Rightarrow> Some x)" if "True" for P and xs ys :: "nat list"
    by (induction xs) auto
  ultimately have "find (\<lambda>i. newline \<in> set ((rows @ [''a'' @ [newline]]) ! i)) [0..<length (rows @ [''a'' @ [newline]])] =
      Some (length rows)" by simp
  then have bad: "WriteJSONL identity name (rows @ [''a'' @ [newline]]) old = (Inl (RowSpansLines (length rows)), old)"
    unfolding WriteJSONL_def writeRows_def by simp
  show ?thesis using written read bad b c by (intro exI[of _ "cursor_at ?f (length ?d)"] exI[of _ ?f] exI[of _ "read_at ?f 0"]) simp
qed

theorem written_rows_read_back_witness:
  "\<exists>cursor f tail. WriteJSONL 3 ''log'' [''{}'', ''[1]''] None = (Inr (cursor :: nat Cursor), Some f) \<and>
    ReadJSONL (Some f) zero_cursor = Inr tail \<and> tl_Rows tail = [''{}'', ''[1]''] \<and> tl_Full tail \<and> tl_Next tail = cursor \<and>
    WriteJSONL 3 ''log'' ([''{}'', ''[1]''] @ [''a'' @ [newline]]) None =
      (Inl (RowSpansLines (length [''{}'', ''[1]''])) :: jsonl_error + nat Cursor, None)"
  by (rule written_rows_read_back)
    (simp_all add: plain_row_def trimmed_def newline_char leading_space_def trailing_space_def spaces_def byte_values_def)

end
