(* ===== verification/StoreProps.thy ===== *)
theory StoreProps
  imports Store
begin

text \<open>
  The store in memory against its contract: which calls it accepts, stated without the loops that
  decide it, and what each accepted call does to the sessions; a deleted session stays deleted;
  the listing.
\<close>

section \<open>Which replacements are valid\<close>

definition own_keys :: "SessionKey \<Rightarrow> SessionStoreReplacement list \<Rightarrow> bool" where
  "own_keys main rs \<longleftrightarrow> list_all (\<lambda>r. key_SessionID (rp_Key r) = key_SessionID main) rs \<and> distinct (map rp_Key rs)"

definition main_key :: "SessionKey \<Rightarrow> SessionKey" where
  "main_key k = \<lparr>key_SessionID = key_SessionID k, key_Subpath = SessionStoreMainSubpath\<rparr>"

lemma main_key_iff: "key_SessionID k = key_SessionID m \<Longrightarrow> k = main_key m \<longleftrightarrow> key_Subpath k = SessionStoreMainSubpath"
  by (cases k) (auto simp: main_key_def)

lemma key_of_subpath:
  fixes k l m :: SessionKey
  shows "key_SessionID k = key_SessionID m \<Longrightarrow> key_SessionID l = key_SessionID m \<Longrightarrow> key_Subpath k = key_Subpath l \<longleftrightarrow> k = l"
  by (cases k; cases l) auto

lemma validate_replacements_iff:
  "validate_replacements m rs seen n = None \<longleftrightarrow>
     own_keys m rs \<and> set (map rp_Key rs) \<inter> seen = {} \<and> n + (if main_key m \<in> set (map rp_Key rs) then 1 else 0) = 1"
proof (induction rs arbitrary: seen n)
  case (Cons r rs)
  show ?case
  proof (cases "key_SessionID (rp_Key r) = key_SessionID m \<and> rp_Key r \<notin> seen")
    case True
    then show ?thesis
      using Cons[of "insert (rp_Key r) seen" "if key_Subpath (rp_Key r) = SessionStoreMainSubpath then Suc n else n"]
        main_key_iff[of "rp_Key r" m]
      by (auto simp: own_keys_def)
  next
    case False
    then show ?thesis by (auto simp: own_keys_def)
  qed
qed (auto simp: own_keys_def)

lemma validateReplacements_iff:
  "validateReplacements m rs = None \<longleftrightarrow> own_keys m rs \<and> main_key m \<in> set (map rp_Key rs)"
  by (simp add: validateReplacements_def validate_replacements_iff)

lemma same_subpath:
  fixes k m :: SessionKey
  assumes "key_SessionID k = key_SessionID m" and "list_all (\<lambda>r. key_SessionID (rp_Key r) = key_SessionID m) rs"
  shows "key_Subpath k \<in> key_Subpath ` set (map rp_Key rs) \<longleftrightarrow> k \<in> set (map rp_Key rs)"
proof
  assume "key_Subpath k \<in> key_Subpath ` set (map rp_Key rs)"
  then obtain r where "r \<in> set rs" "key_Subpath (rp_Key r) = key_Subpath k" by auto
  moreover from this have "rp_Key r = k" using key_of_subpath[of "rp_Key r" m k] assms by (simp add: list_all_iff)
  ultimately show "k \<in> set (map rp_Key rs)" by auto
qed auto

lemma own_keys_Cons:
  "own_keys m (r # rs) \<longleftrightarrow> key_SessionID (rp_Key r) = key_SessionID m \<and> own_keys m rs \<and> rp_Key r \<notin> set (map rp_Key rs)"
  unfolding own_keys_def by simp blast

lemma validate_append_iff:
  "validate_append m rs seen = None \<longleftrightarrow>
     own_keys m rs \<and> main_key m \<notin> set (map rp_Key rs) \<and> key_Subpath ` set (map rp_Key rs) \<inter> seen = {}"
proof (induction rs arbitrary: seen)
  case (Cons r rs)
  let ?k = "rp_Key r"
  show ?case
  proof (cases "key_SessionID ?k = key_SessionID m \<and> key_Subpath ?k \<noteq> SessionStoreMainSubpath \<and> key_Subpath ?k \<notin> seen")
    case True
    have "validate_append m (r # rs) seen = None \<longleftrightarrow> own_keys m rs \<and> main_key m \<notin> set (map rp_Key rs) \<and>
        key_Subpath ?k \<notin> key_Subpath ` set (map rp_Key rs) \<and> key_Subpath ` set (map rp_Key rs) \<inter> seen = {}"
      using True Cons[of "insert (key_Subpath ?k) seen"] by (simp del: set_map list.set_map)
    moreover have "own_keys m rs \<Longrightarrow> key_Subpath ?k \<in> key_Subpath ` set (map rp_Key rs) \<longleftrightarrow> ?k \<in> set (map rp_Key rs)"
      using True same_subpath[of ?k m rs] unfolding own_keys_def by blast
    moreover have "main_key m \<in> set (map rp_Key (r # rs)) \<longleftrightarrow> main_key m \<in> set (map rp_Key rs)"
      using True main_key_iff[of ?k m] by simp
    moreover have "key_Subpath ` set (map rp_Key (r # rs)) \<inter> seen = key_Subpath ` set (map rp_Key rs) \<inter> seen"
      using True by simp
    ultimately show ?thesis using True unfolding own_keys_Cons by blast
  next
    case False
    moreover have "key_SessionID ?k = key_SessionID m \<Longrightarrow> key_Subpath ?k = SessionStoreMainSubpath \<Longrightarrow>
        main_key m \<in> set (map rp_Key (r # rs))" using main_key_iff[of ?k m] by simp
    ultimately show ?thesis unfolding own_keys_Cons by (simp del: set_map list.set_map) blast
  qed
qed (simp add: own_keys_def)

lemma validateAppendReplacements_iff:
  "validateAppendReplacements m rs = None \<longleftrightarrow> own_keys m rs \<and> main_key m \<notin> set (map rp_Key rs)"
  by (simp add: validateAppendReplacements_def validate_append_iff)

section \<open>Runs of calls\<close>

datatype store_call =
    CallReplace SessionKey "SessionStoreReplacement list"
  | CallAppend SessionKey int "SessionStoreEntry list" "SessionStoreReplacement list"
  | CallDelete SessionKey

definition store_answer :: "call \<Rightarrow> store_call \<Rightarrow> InMemorySessionStore \<Rightarrow> store_error option \<times> InMemorySessionStore" where
  "store_answer ctx c s =
     (case c of
        CallReplace m rs \<Rightarrow> store_Replace ctx m rs s
      | CallAppend m base es rs \<Rightarrow> store_Append ctx m base es rs s
      | CallDelete key \<Rightarrow> store_Delete ctx key s)"

fun store_run :: "(call \<times> store_call) list \<Rightarrow> InMemorySessionStore \<Rightarrow> store_error option list \<times> InMemorySessionStore" where
  "store_run [] s = ([], s)"
| "store_run ((ctx, c) # cs) s =
     (case store_answer ctx c s of (r, s) \<Rightarrow> (case store_run cs s of (rs, s) \<Rightarrow> (r # rs, s)))"

text \<open>The contract, on what the sessions are to their host.\<close>

fun admitted :: "store_call \<Rightarrow> (string \<Rightarrow> session_phase) \<Rightarrow> bool" where
  "admitted (CallReplace m rs) p \<longleftrightarrow>
     key_SessionID m \<noteq> [] \<and> m = main_key m \<and> own_keys m rs \<and> m \<in> set (map rp_Key rs)"
| "admitted (CallAppend m base es rs) p \<longleftrightarrow>
     key_SessionID m \<noteq> [] \<and> m = main_key m \<and> own_keys m rs \<and> m \<notin> set (map rp_Key rs) \<and> holds_base base (p (key_SessionID m))"
| "admitted (CallDelete key) p \<longleftrightarrow> True"

fun effect :: "store_call \<Rightarrow> (string \<Rightarrow> session_phase) \<Rightarrow> string \<Rightarrow> session_phase" where
  "effect (CallReplace m rs) p = p(key_SessionID m := replaced rs (p (key_SessionID m)))"
| "effect (CallAppend m base es rs) p = p(key_SessionID m := extended es rs (p (key_SessionID m)))"
| "effect (CallDelete key) p = p(key_SessionID key := erased key (p (key_SessionID key)))"

fun contract_run :: "(call \<times> store_call) list \<Rightarrow> (string \<Rightarrow> session_phase) \<Rightarrow> bool list \<times> (string \<Rightarrow> session_phase)" where
  "contract_run [] p = ([], p)"
| "contract_run ((ctx, c) # cs) p =
     (let ok = (cl_Err ctx = None \<and> admitted c p); rest = contract_run cs (if ok then effect c p else p)
      in (ok # fst rest, snd rest))"

lemma main_key_self: "m = main_key m \<longleftrightarrow> key_Subpath m = SessionStoreMainSubpath"
  by (rule main_key_iff) simp

lemma Replace_accepts:
  "fst (store_Replace ctx m rs s) = None \<longleftrightarrow> cl_Err ctx = None \<and> admitted (CallReplace m rs) (memory_phase s)"
proof (cases "cl_Err ctx = None \<and> key_SessionID m \<noteq> [] \<and> m = main_key m")
  case True
  then show ?thesis
    using validateReplacements_iff[of m rs] main_key_self[of m]
    by (cases "validateReplacements m rs") (auto simp: store_Replace_def)
next
  case False
  then show ?thesis using main_key_self[of m] by (auto simp: store_Replace_def split: option.split)
qed

lemma Append_accepts:
  assumes "store_wf s"
  shows "fst (store_Append ctx m base es rs s) = None \<longleftrightarrow>
     cl_Err ctx = None \<and> admitted (CallAppend m base es rs) (memory_phase s)"
proof (cases "cl_Err ctx = None \<and> key_SessionID m \<noteq> [] \<and> m = main_key m \<and> validateAppendReplacements m rs = None")
  case True
  then have h: "own_keys m rs" "m \<notin> set (map rp_Key rs)" "key_Subpath m = SessionStoreMainSubpath"
    using validateAppendReplacements_iff[of m rs] main_key_self[of m] by auto
  show ?thesis
  proof (cases "key_SessionID m \<in> ms_deleted s")
    case gone: True
    with True h phase_gone[of s "key_SessionID m"] show ?thesis by (simp add: store_Append_def holds_base_def)
  next
    case False
    show ?thesis
    proof (cases "map_of (ms_sessions s) (key_SessionID m)")
      case None
      with True h False show ?thesis by (simp add: store_Append_def holds_base_def memory_phase_def)
    next
      case (Some old)
      with True h False show ?thesis
        by (cases "int (length (main_rows (ss_subpaths old))) = base")
          (simp_all add: store_Append_def Let_def holds_base_def memory_phase_def)
    qed
  qed
next
  case False
  then show ?thesis
    using main_key_self[of m] validateAppendReplacements_iff[of m rs]
    by (auto simp: store_Append_def split: option.split)
qed

lemma answer_contract:
  assumes "store_wf s" and "store_answer ctx c s = (r, v)"
  shows "store_wf v \<and> (r = None \<longleftrightarrow> cl_Err ctx = None \<and> admitted c (memory_phase s)) \<and>
    memory_phase v = (if r = None then effect c (memory_phase s) else memory_phase s)"
proof (cases c)
  case (CallReplace m rs)
  then show ?thesis
    using assms memory_Replace[OF assms(1), of ctx m rs r v] Replace_accepts[of ctx m rs s]
    by (simp add: store_answer_def)
next
  case (CallAppend m base es rs)
  then show ?thesis
    using assms memory_Append[OF assms(1), of ctx m base es rs r v] Append_accepts[OF assms(1), of ctx m base es rs]
    by (auto simp: store_answer_def)
next
  case (CallDelete key)
  have "fst (store_Delete ctx key s) = None \<longleftrightarrow> cl_Err ctx = None"
    by (auto simp: store_Delete_def split: option.split)
  with CallDelete show ?thesis
    using assms Delete_phase[OF assms(1), of ctx key r v] by (simp add: store_answer_def)
qed

lemma run_contract:
  "store_wf s \<Longrightarrow> store_wf (snd (store_run cs s)) \<and>
     (map (\<lambda>r. r = None) (fst (store_run cs s)), memory_phase (snd (store_run cs s))) = contract_run cs (memory_phase s)"
proof (induction cs s rule: store_run.induct)
  case (2 ctx c cs s)
  obtain r v where a: "store_answer ctx c s = (r, v)" by (metis surj_pair)
  have v: "store_wf v" "r = None \<longleftrightarrow> cl_Err ctx = None \<and> admitted c (memory_phase s)"
    "memory_phase v = (if r = None then effect c (memory_phase s) else memory_phase s)"
    using answer_contract[OF 2(2) a] by blast+
  have ih: "store_wf (snd (store_run cs v))"
    "contract_run cs (memory_phase v) = (map (\<lambda>r. r = None) (fst (store_run cs v)), memory_phase (snd (store_run cs v)))"
    using 2(1)[OF a[symmetric]] v(1) by auto
  obtain rs w where b: "store_run cs v = (rs, w)" by (metis surj_pair)
  show ?case using a b v ih by (simp add: Let_def)
qed simp

lemma phase_new: "memory_phase NewInMemorySessionStore = (\<lambda>i. Missing)"
  by (simp add: memory_phase_def NewInMemorySessionStore_def fun_eq_iff)

lemma reached_load:
  "store_Load ctx i (snd (store_run calls NewInMemorySessionStore)) =
     (case cl_Err ctx of Some e \<Rightarrow> Inl (ContextDone e) | None \<Rightarrow> Inr (readable (snd (contract_run calls (\<lambda>i. Missing)) i)))"
proof -
  let ?s = "snd (store_run calls NewInMemorySessionStore)"
  have "store_wf ?s" "memory_phase ?s = snd (contract_run calls (\<lambda>i. Missing))"
    using run_contract[OF store_wf_new, of calls] by (auto simp: phase_new dest: arg_cong[where f = snd])
  then show ?thesis using Load_decided[of ?s ctx i] by (simp only:)
qed

text \<open>C20: The store in memory keeps the contract of the durability boundary over any sequence of
  calls: a call succeeds exactly when its context is live and the contract admits it (the keys are
  the session's own and distinct, the main key is listed exactly once by a replace and never by an
  append, an append names the number of main entries the session holds), a refused call changes
  nothing, an accepted one does what the contract says, and a load returns exactly the session's
  live generation.\<close>

theorem store_keeps_contract:
  "let (answers, s) = store_run calls NewInMemorySessionStore; (accepted, sessions) = contract_run calls (\<lambda>i. Missing)
   in map (\<lambda>r. r = None) answers = accepted \<and> memory_phase s = sessions \<and>
      (\<forall>ctx i. store_Load ctx i s = (case cl_Err ctx of Some e \<Rightarrow> Inl (ContextDone e) | None \<Rightarrow> Inr (readable (sessions i))))"
  using run_contract[OF store_wf_new, of calls] reached_load[of _ _ calls]
  by (cases "store_run calls NewInMemorySessionStore"; cases "contract_run calls (\<lambda>i. Missing)") (simp add: phase_new split: option.split)

section \<open>Deletion is final\<close>

lemma effect_gone: "p i = Gone \<Longrightarrow> effect c p i = Gone"
  by (cases c) (auto simp: replaced_def extended_def erased_def)

lemma contract_gone: "p i = Gone \<Longrightarrow> snd (contract_run cs p) i = Gone"
  by (induction cs p rule: contract_run.induct) (auto simp: Let_def effect_gone)

lemma contract_append: "snd (contract_run (as @ bs) p) = snd (contract_run bs (snd (contract_run as p)))"
  by (induction as p rule: contract_run.induct) (simp_all add: Let_def)

text \<open>C21: A deleted session never comes back: after a delete of its main key that succeeded, no
  sequence of later calls makes the session loadable or listed, whatever they write to it.\<close>

theorem deleted_session_is_final:
  assumes "cl_Err ctx = None" and "key_SessionID key \<noteq> []" and "key_Subpath key = SessionStoreMainSubpath"
  shows "let s = snd (store_run (earlier @ (ctx, CallDelete key) # later) NewInMemorySessionStore)
    in store_Load c (key_SessionID key) s = (case cl_Err c of Some e \<Rightarrow> Inl (ContextDone e) | None \<Rightarrow> Inr None) \<and>
       key_SessionID key \<notin> set (map fst (ms_sessions s))"
proof -
  let ?cs = "earlier @ (ctx, CallDelete key) # later" and ?i = "key_SessionID key"
  let ?s = "snd (store_run ?cs NewInMemorySessionStore)"
  have wf: "store_wf ?s" and p: "memory_phase ?s = snd (contract_run ?cs (\<lambda>i. Missing))"
    using run_contract[OF store_wf_new, of ?cs] by (auto simp: phase_new dest: arg_cong[where f = snd])
  have "memory_phase ?s ?i = Gone"
    unfolding p using assms by (simp add: contract_append Let_def erased_def contract_gone)
  moreover from this have "?i \<notin> set (map fst (ms_sessions ?s))"
    using wf by (auto simp: phase_gone store_wf_def map_of_eq_None_iff)
  moreover have "readable Gone = None" by (simp add: readable_def)
  ultimately show ?thesis using Load_decided[OF wf, of c ?i] by (simp only: Let_def simp_thms)
qed

theorem deleted_session_is_final_witness:
  "let s = snd (store_run ([] @ (\<lparr>cl_Err = None, cl_now = 5\<rparr>, CallDelete \<lparr>key_SessionID = ''s'', key_Subpath = ''''\<rparr>) #
      [(\<lparr>cl_Err = None, cl_now = 6\<rparr>, CallReplace \<lparr>key_SessionID = ''s'', key_Subpath = ''''\<rparr>
         [\<lparr>rp_Key = \<lparr>key_SessionID = ''s'', key_Subpath = ''''\<rparr>, rp_Entries = [''{}'']\<rparr>])]) NewInMemorySessionStore)
    in store_Load \<lparr>cl_Err = None, cl_now = 7\<rparr> ''s'' s = Inr None \<and> ''s'' \<notin> set (map fst (ms_sessions s))"
  using deleted_session_is_final[of "\<lparr>cl_Err = None, cl_now = 5\<rparr>" "\<lparr>key_SessionID = ''s'', key_Subpath = ''''\<rparr>" "[]"
      "[(\<lparr>cl_Err = None, cl_now = 6\<rparr>, CallReplace \<lparr>key_SessionID = ''s'', key_Subpath = ''''\<rparr>
         [\<lparr>rp_Key = \<lparr>key_SessionID = ''s'', key_Subpath = ''''\<rparr>, rp_Entries = [''{}'']\<rparr>])]" "\<lparr>cl_Err = None, cl_now = 7\<rparr>"]
  by (simp add: SessionStoreMainSubpath_def)

section \<open>Listing\<close>

definition newer :: "SessionSummary \<Rightarrow> SessionSummary \<Rightarrow> bool" where
  "newer a b \<longleftrightarrow> sm_UpdatedAtUnixMilli b < sm_UpdatedAtUnixMilli a \<or>
     sm_UpdatedAtUnixMilli a = sm_UpdatedAtUnixMilli b \<and> sm_SessionID a < sm_SessionID b"

lemma distinct_sort_key: "distinct (map f xs) \<Longrightarrow> distinct (map f (sort_key k xs))"
  by (simp add: distinct_map)

lemma listing_sorted:
  assumes "distinct (map sm_SessionID ms)"
  shows "sorted_wrt newer (sort_key (\<lambda>m. (- sm_UpdatedAtUnixMilli m, sm_SessionID m)) ms)" (is "sorted_wrt newer ?l")
proof -
  let ?k = "\<lambda>m. (- sm_UpdatedAtUnixMilli m, sm_SessionID m)"
  have d: "distinct (map sm_SessionID ?l)" using assms by (rule distinct_sort_key)
  have "sorted (map ?k ?l)" by (rule sorted_sort_key)
  then have "sorted_wrt (\<lambda>a b. ?k a \<le> ?k b) ?l" by (simp add: sorted_wrt_map)
  moreover have "sorted_wrt (\<lambda>a b. sm_SessionID a \<noteq> sm_SessionID b) ?l"
    using d by (simp add: distinct_conv_nth sorted_wrt_iff_nth_less)
  ultimately have "sorted_wrt (\<lambda>a b. ?k a \<le> ?k b \<and> sm_SessionID a \<noteq> sm_SessionID b) ?l"
    by (simp add: sorted_wrt_iff_nth_less)
  then show ?thesis by (rule sorted_wrt_mono_rel[rotated]) (auto simp: newer_def less_eq_prod_def)
qed

text \<open>The listing names each live session exactly once, newest first and by id among those of
  one time.\<close>

theorem listing_newest_first:
  "let s = snd (store_run calls NewInMemorySessionStore)
   in case store_ListSessions ctx s of
        Inl e \<Rightarrow> cl_Err ctx \<noteq> None
      | Inr ms \<Rightarrow> sorted_wrt newer ms \<and> distinct (map sm_SessionID ms) \<and>
          set (map sm_SessionID ms) = {i. readable (memory_phase s i) \<noteq> None}"
proof -
  let ?s = "snd (store_run calls NewInMemorySessionStore)"
  let ?ms = "map (\<lambda>(sessionID, r). \<lparr>sm_SessionID = sessionID, sm_UpdatedAtUnixMilli = ss_updatedAt r\<rparr>) (ms_sessions ?s)"
  have wf: "store_wf ?s" using run_contract[OF store_wf_new, of calls] by blast
  have ids: "map sm_SessionID ?ms = map fst (ms_sessions ?s)" by (induction "ms_sessions ?s") auto
  have "i \<in> set (map fst (ms_sessions ?s)) \<longleftrightarrow> readable (memory_phase ?s i) \<noteq> None" for i
  proof (cases "map_of (ms_sessions ?s) i")
    case None
    moreover have "i \<notin> set (map fst (ms_sessions ?s))" using None by (simp add: map_of_eq_None_iff)
    ultimately show ?thesis by (simp add: memory_phase_def readable_def)
  next
    case (Some r)
    moreover have "i \<in> set (map fst (ms_sessions ?s))" using Some by (force dest: map_of_SomeD)
    ultimately show ?thesis using wf_live[OF wf Some] by (simp add: memory_phase_def readable_def)
  qed
  then have live: "set (map sm_SessionID ?ms) = {i. readable (memory_phase ?s i) \<noteq> None}" unfolding ids by blast
  have d: "distinct (map sm_SessionID ?ms)" using wf unfolding ids by (simp add: store_wf_def)
  then have "distinct (map sm_SessionID (sort_key f ?ms))" for f :: "SessionSummary \<Rightarrow> int \<times> string"
    by (rule distinct_sort_key)
  moreover have "set (map sm_SessionID (sort_key f ?ms)) = {i. readable (memory_phase ?s i) \<noteq> None}"
    for f :: "SessionSummary \<Rightarrow> int \<times> string" using live by (simp only: set_map set_sort)
  ultimately show ?thesis using listing_sorted[OF d]
    by (cases "cl_Err ctx") (simp_all only: store_ListSessions_def Let_def option.case sum.case simp_thms option.distinct)
qed

end
