(* ===== verification/MirrorProps.thy ===== *)
theory MirrorProps
  imports Mirror JsonlProps StoreProps
begin

text \<open>
  The mirror against its promises, over any store that keeps its contract (locale
  \<open>session_store\<close>) and any source that reads one growing history (locale \<open>native_source\<close>, which
  append-only log files interpret).  SHA-256 is computed as it is; where a digest stands for what it
  digests, the two texts at hand are assumed not to collide.
\<close>

section \<open>The running digest\<close>

definition frames :: "string list \<Rightarrow> string" where
  "frames rows = concat (map (\<lambda>row. uvarint (length row) @ row) rows)"

lemma foldl_writeDigest [simp]: "foldl writeDigest d rows = d @ frames rows"
  by (induction rows arbitrary: d) (simp_all add: writeDigest_def frames_def)

lemma frames_append: "frames (a @ b) = frames a @ frames b"
  by (simp add: frames_def)

lemma uvarint_nonempty: "uvarint n \<noteq> []"
  by (simp add: uvarint.simps)

lemma frames_inj: "frames a = frames b \<Longrightarrow> a = b"
proof (induction a arbitrary: b)
  case Nil
  then show ?case by (cases b) (auto simp: frames_def uvarint_nonempty)
next
  case (Cons r a)
  then obtain s c where b: "b = s # c" by (cases b) (auto simp: frames_def uvarint_nonempty)
  with Cons.prems have "uvarint (length r) @ (r @ frames a) = uvarint (length s) @ (s @ frames c)"
    by (simp add: frames_def)
  from uvarint_prefix[OF this] have "r = s" "frames a = frames c" by auto
  with Cons.IH b show ?case by simp
qed

lemma uvarint_length: "n < 128 ^ Suc k \<Longrightarrow> length (uvarint n) \<le> Suc k"
proof (induction k arbitrary: n)
  case 0
  then show ?case by (simp add: uvarint.simps)
next
  case (Suc k)
  have "n div 128 < 128 ^ Suc k" using Suc.prems by (simp add: less_mult_imp_div_less)
  then show ?case using Suc.IH[of "n div 128"] by (subst uvarint.simps) simp
qed

section \<open>What a mirror knows\<close>

definition mirrors :: "'p Mirror \<Rightarrow> string list \<Rightarrow> string \<Rightarrow> bool" where
  "mirrors m rows encoded \<longleftrightarrow>
     mi_committed m \<and> mi_rows m = length rows \<and> mi_digest m = frames rows \<and> mi_record m = sha256 encoded"

definition store_holds :: "session_phase \<Rightarrow> string list \<Rightarrow> string \<Rightarrow> bool" where
  "store_holds p rows encoded \<longleftrightarrow>
     p = Gone \<or> (\<exists>g. p = Live g \<and> g SessionStoreMainSubpath = Some rows \<and> g ConfigSubpath = Some [encoded])"

definition apart :: "string \<Rightarrow> string \<Rightarrow> bool" where
  "apart a b \<longleftrightarrow> (sha256 a = sha256 b \<longrightarrow> a = b)"

lemma apart_same [simp]: "apart a a"
  by (simp add: apart_def)

lemma mirrors_adopt: "mirrors (mirror_adopt rows encoded c m) rows encoded \<and> mi_cursor (mirror_adopt rows encoded c m) = c \<and>
    mi_sessionID (mirror_adopt rows encoded c m) = mi_sessionID m"
  by (simp add: mirrors_def mirror_adopt_def mirror_extend_def mirror_forget_def)

lemma mirrors_extend:
  assumes "mirrors m rows encoded"
  shows "mirrors ((mirror_extend added m)\<lparr>mi_record := sha256 e, mi_cursor := c\<rparr>) (rows @ added) e"
  using assms by (simp add: mirrors_def mirror_extend_def frames_append)

lemma extends_iff:
  assumes "mirrors m rows encoded" and "apart (frames (take (length rows) new)) (frames rows)"
  shows "extendsCommitted m new \<longleftrightarrow> take (length rows) new = rows"
  using assms frames_inj[of "take (length rows) new" rows]
  by (auto simp: extendsCommitted_def mirrors_def apart_def)

lemma subpaths_differ: "SessionStoreMainSubpath \<noteq> ConfigSubpath"
  by (simp add: SessionStoreMainSubpath_def ConfigSubpath_def)

lemma holds_replaced:
  "store_holds (replaced [\<lparr>rp_Key = mirror_key m, rp_Entries = rows\<rparr>, configReplacement m encoded] p) rows encoded"
  by (cases "p = Gone")
    (simp_all add: store_holds_def replaced_def listed_def mirror_key_def configReplacement_def SessionStoreMainSubpath_def ConfigSubpath_def)

lemma holds_extended:
  assumes "store_holds p rows encoded" and "e = encoded \<or> rs = [configReplacement m e]" and "rs = [] \<or> rs = [configReplacement m e]"
  shows "store_holds (extended added rs p) (rows @ added) e"
proof (cases p)
  case (Live g)
  then have g: "g SessionStoreMainSubpath = Some rows" "g ConfigSubpath = Some [encoded]"
    using assms(1) by (auto simp: store_holds_def)
  with Live assms(2,3) subpaths_differ show ?thesis
    by (auto simp: store_holds_def extended_def listed_def configReplacement_def main_rows_def)
qed (use assms(1) in \<open>auto simp: store_holds_def extended_def\<close>)

context session_store
begin

lemma append_publishes:
  assumes w: "valid w" and m: "mirrors m rows encoded" and h: "store_holds (phase w (mi_sessionID m)) rows encoded"
    and a: "apart e encoded" and call: "mirror_append store m added e w = (r, v)"
  shows "valid v \<and> (if r = None then store_holds (phase v (mi_sessionID m)) (rows @ added) e else phase v = phase w)"
proof -
  let ?rs = "if sha256 e \<noteq> mi_record m then [configReplacement m e] else []"
  have call: "st_Append store (mirror_key m) (int (mi_rows m)) added ?rs w = (r, v)"
    using call by (simp add: mirror_append_def)
  have "valid v" using append_valid[OF w call] .
  moreover have "store_holds (extended added ?rs (phase w (mi_sessionID m))) (rows @ added) e"
    using a m by (intro holds_extended[OF h]) (auto simp: apart_def mirrors_def)
  ultimately show ?thesis
    using append_ok[OF w, of "mirror_key m" "int (mi_rows m)" added ?rs v] append_failed[OF w, of "mirror_key m" "int (mi_rows m)" added ?rs _ v] call
    by (cases r) (simp_all add: mirror_key_def)
qed

lemma replace_publishes:
  assumes w: "valid w" and call: "mirror_replace store m rows e w = (r, v)"
  shows "valid v \<and> (if r = None then store_holds (phase v (mi_sessionID m)) rows e else phase v = phase w)"
proof -
  let ?rs = "[\<lparr>rp_Key = mirror_key m, rp_Entries = rows\<rparr>, configReplacement m e]"
  have call: "st_Replace store (mirror_key m) ?rs w = (r, v)" using call by (simp add: mirror_replace_def)
  show ?thesis
    using replace_valid[OF w call] replace_ok[OF w, of "mirror_key m" ?rs v] replace_failed[OF w, of "mirror_key m" ?rs _ v] call
      holds_replaced[of m rows e]
    by (cases r) (simp_all add: mirror_key_def)
qed

text \<open>What a step of a commit that was given the history \<open>rows\<close> and the configuration \<open>e\<close> leaves.\<close>

definition settled :: "'w \<Rightarrow> 'p Mirror \<Rightarrow> string list \<Rightarrow> string \<Rightarrow> 'p Cursor \<Rightarrow>
    (('e, 'd, 'f) mirror_error + 'e CommitReport) \<times> 'p Mirror \<times> 'w \<Rightarrow> bool" where
  "settled w m rows e c out \<longleftrightarrow>
     (case out of
        (Inl err, m', v) \<Rightarrow> m' = m \<and> valid v \<and> phase v = phase w
      | (Inr report, m', v) \<Rightarrow> mirrors m' rows e \<and> mi_cursor m' = c \<and> mi_sessionID m' = mi_sessionID m \<and> valid v \<and>
          store_holds (phase v (mi_sessionID m)) rows e)"

lemma settled_republish:
  assumes "valid w" and "phase u = phase w" and "valid u"
  shows "settled w m (tl_Rows tail) e (tl_Next tail) (republish store tail e report m u)"
proof -
  obtain r v where call: "mirror_replace store m (tl_Rows tail) e u = (r, v)" by (metis surj_pair)
  show ?thesis
    using replace_publishes[OF assms(3) call] call assms(2) mirrors_adopt[of "tl_Rows tail" e "tl_Next tail" m]
    by (cases r) (simp_all add: settled_def republish_def)
qed

lemma settled_kept:
  assumes "valid w" and "mirrors m rows encoded" and "store_holds (phase w (mi_sessionID m)) rows encoded"
    and "apart e encoded" and "sha256 e = mi_record m"
  shows "settled w m rows e c (Inr report, m\<lparr>mi_cursor := c\<rparr>, w)"
proof -
  have "e = encoded" using assms(2,4,5) by (simp add: apart_def mirrors_def)
  with assms show ?thesis by (simp add: settled_def mirrors_def)
qed

lemma settled_appended:
  assumes "valid w" and "mirrors m rows encoded" and "store_holds (phase w (mi_sessionID m)) rows encoded" and "apart e encoded"
    and "mirror_append store m added e w = (None, v)"
  shows "settled w m (rows @ added) e c (Inr report, (mirror_extend added m)\<lparr>mi_record := sha256 e, mi_cursor := c\<rparr>, v)"
  using append_publishes[OF assms] mirrors_extend[OF assms(2), where added = added and e = e and c = c]
  by (simp add: settled_def mirror_extend_def)

lemma settled_commitFull:
  assumes w: "valid w" and m: "mi_committed m \<Longrightarrow> mirrors m rows encoded \<and> store_holds (phase w (mi_sessionID m)) rows encoded \<and>
      apart e encoded \<and> apart (frames (take (length rows) (tl_Rows tail))) (frames rows)"
  shows "settled w m (tl_Rows tail) e (tl_Next tail) (commitFull store ae tail e m w)"
proof (cases "mi_committed m \<and> length (tl_Rows tail) < mi_rows m")
  case True
  then show ?thesis using w by (simp add: commitFull_def settled_def)
next
  case False
  let ?x = "mi_committed m \<and> extendsCommitted m (tl_Rows tail)"
  have re: "settled w m (tl_Rows tail) e (tl_Next tail) (republish store tail e report m w)" for report
    using settled_republish[OF w refl w] .
  show ?thesis
  proof (cases "validRows tail (if ?x then mi_rows m else 0)")
    case (Some err)
    with False w show ?thesis by (simp add: commitFull_def settled_def)
  next
    case None
    show ?thesis
    proof (cases ?x)
      case x: True
      then have s: "mirrors m rows encoded" "store_holds (phase w (mi_sessionID m)) rows encoded" "apart e encoded"
        and rows: "take (length rows) (tl_Rows tail) = rows" "mi_rows m = length rows"
        using m extends_iff[of m rows encoded "tl_Rows tail"] by (auto simp: mirrors_def)
      let ?added = "drop (mi_rows m) (tl_Rows tail)"
      have all: "tl_Rows tail = rows @ ?added" using rows by (metis append_take_drop_id)
      show ?thesis
      proof (cases "?added = [] \<and> sha256 e = mi_record m")
        case True
        then have "tl_Rows tail = rows" using all by simp
        with settled_kept[OF w s, of "tl_Next tail"] True False None x show ?thesis
          by (simp add: commitFull_def)
      next
        case work: False
        show ?thesis
        proof (cases ae)
          case (Some a)
          with re work False None x show ?thesis by (auto simp: commitFull_def Let_def)
        next
          case ae: None
          obtain r v where call: "mirror_append store m ?added e w = (r, v)" by (metis surj_pair)
          show ?thesis
          proof (cases r)
            case r: None
            have "settled w m (tl_Rows tail) e (tl_Next tail)
                (Inr (no_commit\<lparr>cr_Appended := length ?added\<rparr>), (mirror_extend ?added m)\<lparr>mi_record := sha256 e, mi_cursor := tl_Next tail\<rparr>, v)"
              using settled_appended[OF w s call[unfolded r]] all by metis
            with r call ae work False None x show ?thesis by (auto simp: commitFull_def Let_def)
          next
            case (Some a)
            have "valid v" "phase v = phase w" using append_publishes[OF w s call] Some by auto
            then have "settled w m (tl_Rows tail) e (tl_Next tail) (republish store tail e report m v)" for report
              using settled_republish[OF w] by blast
            with Some call ae work False None x show ?thesis by (auto simp: commitFull_def Let_def)
          qed
        qed
      qed
    next
      case x: False
      with re False None show ?thesis by (auto simp: commitFull_def Let_def split: option.split)
    qed
  qed
qed

lemma settled_appendTail:
  assumes w: "valid w" and m: "mirrors m rows encoded" "store_holds (phase w (mi_sessionID m)) rows encoded" "apart e encoded"
  shows "settled w m (rows @ tl_Rows tail) e (tl_Next tail) (appendTail store tail e m w)"
proof (cases "validRows tail 0")
  case (Some err)
  with w show ?thesis by (simp add: appendTail_def settled_def)
next
  case None
  show ?thesis
  proof (cases "tl_Rows tail = [] \<and> sha256 e = mi_record m")
    case True
    with settled_kept[OF w m, of "tl_Next tail"] None show ?thesis by (simp add: appendTail_def)
  next
    case False
    obtain r v where call: "mirror_append store m (tl_Rows tail) e w = (r, v)" by (metis surj_pair)
    show ?thesis
    proof (cases r)
      case r: None
      show ?thesis using settled_appended[OF w m call[unfolded r]] r call False None by (auto simp: appendTail_def)
    next
      case (Some a)
      show ?thesis using append_publishes[OF w m call] Some call False None by (auto simp: appendTail_def settled_def)
    qed
  qed
qed

end

section \<open>Sources\<close>

text \<open>A source read at moments of time: \<open>history k\<close> are the rows there are at moment \<open>k\<close>, and
  \<open>through k c\<close> says that the cursor \<open>c\<close> was returned by a read of them.\<close>

locale native_source =
  fixes source :: "nat \<Rightarrow> 'p Cursor \<Rightarrow> 'f + 'p Tail" and history :: "nat \<Rightarrow> string list"
    and through :: "nat \<Rightarrow> 'p Cursor \<Rightarrow> bool"
  assumes whole: "source k zero_cursor = Inr t \<Longrightarrow> tl_Full t \<and> tl_Rows t = history k \<and> through k (tl_Next t)"
    and continued: "through j c \<Longrightarrow> j \<le> k \<Longrightarrow> source k c = Inr t \<Longrightarrow> through k (tl_Next t) \<and>
      (if tl_Full t then tl_Rows t = history k else history k = history j @ tl_Rows t)"

text \<open>A log a harness appends to, one chunk at a time.\<close>

definition log_at :: "nat \<Rightarrow> string \<Rightarrow> string list \<Rightarrow> nat \<Rightarrow> log_file" where
  "log_at identity name chunks k =
     \<lparr>fl_id = identity, fl_regular = True, fl_name = name, fl_data = concat (take k chunks)\<rparr>"

lemma log_grows: "j \<le> k \<Longrightarrow> log_extends (log_at i n chunks j) (log_at i n chunks k)"
proof -
  assume "j \<le> k"
  then have "take k chunks = take j chunks @ take (k - j) (drop j chunks)"
    by (metis le_add_diff_inverse take_add)
  then show ?thesis by (simp add: log_extends_def log_at_def)
qed

definition log_cursor :: "log_file \<Rightarrow> 'p Cursor" where
  "log_cursor f = cursor_at f (complete_length (fl_data f))"

lemma log_next: "j \<le> k \<Longrightarrow> ReadJSONL (Some (log_at i n chunks k)) (log_cursor (log_at i n chunks j)) =
    Inr (read_at (log_at i n chunks k) (complete_length (fl_data (log_at i n chunks j))))"
  using continue_grown[OF log_grows complete_prefix(3)] by (intro read_file) (auto simp: log_at_def log_cursor_def)

interpretation log: native_source "\<lambda>k. source_File (Some (log_at i n chunks k))" "\<lambda>k. rows_of (fl_data (log_at i n chunks k))"
  "\<lambda>k c. c = log_cursor (log_at i n chunks k)"
proof
  fix k j :: nat and c :: "'p Cursor" and t :: "'p Tail"
  let ?f = "\<lambda>k. log_at i n chunks k"
  show "tl_Full t \<and> tl_Rows t = rows_of (fl_data (?f k)) \<and> tl_Next t = log_cursor (?f k)"
    if "source_File (Some (?f k)) zero_cursor = Inr t"
  proof -
    have "t = read_at (?f k) 0" using that by (simp add: source_File_def read_whole log_at_def)
    then show ?thesis by (simp add: log_cursor_def)
  qed
  assume c: "c = log_cursor (?f j)" and jk: "j \<le> k" and r: "source_File (Some (?f k)) c = Inr t"
  let ?n = "complete_length (fl_data (?f j))"
  have "source_File (Some (?f k)) c = Inr (read_at (?f k) ?n)" unfolding c source_File_def by (rule log_next[OF jk])
  with r have t: "t = read_at (?f k) ?n" by simp
  obtain x where x: "fl_data (?f k) = fl_data (?f j) @ x" using log_extends_data[OF log_grows[OF jk]] by blast
  have "rows_of (fl_data (?f k)) = rows_of (fl_data (?f j)) @ tl_Rows t" "tl_Next t = log_cursor (?f k)"
    using grown_split[OF refl, of "fl_data (?f j)" x] x t by (simp_all add: log_cursor_def)
  moreover have "tl_Full t \<Longrightarrow> rows_of (fl_data (?f j)) = []" using t by (simp add: rows_of_def)
  ultimately show "tl_Next t = log_cursor (?f k) \<and>
      (if tl_Full t then tl_Rows t = rows_of (fl_data (?f k)) else rows_of (fl_data (?f k)) = rows_of (fl_data (?f j)) @ tl_Rows t)"
    by (metis append_Nil)
qed

section \<open>Commits\<close>

text \<open>Where the \<open>k\<close>th read of a commit starts: the first continues at the mirror's cursor, the second
  starts over.  Then: \<open>e\<close> is the configuration the record function gave for what that read returned.\<close>

definition read_from :: "'p Mirror \<Rightarrow> nat \<Rightarrow> 'p Cursor" where
  "read_from m k = (if k = 0 \<and> mi_committed m then mi_cursor m else zero_cursor)"

definition configured :: "(nat \<Rightarrow> 'p Cursor \<Rightarrow> 'f + 'p Tail) \<Rightarrow> (nat \<Rightarrow> 'p Tail \<Rightarrow> 'd + 'v) \<Rightarrow> ('v \<Rightarrow> 'd + string) \<Rightarrow>
    'p Mirror \<Rightarrow> nat \<Rightarrow> string \<Rightarrow> bool" where
  "configured source recorded marshal m k e \<longleftrightarrow>
     (\<exists>tail x. source k (read_from m k) = Inr tail \<and> recorded k tail = Inr x \<and> marshal x = Inr e)"

locale mirrored = session_store store valid phase + native_source source history through
  for store :: "('w, 'e) SessionStore" and valid phase and source :: "nat \<Rightarrow> 'p Cursor \<Rightarrow> 'f + 'p Tail" and history through
begin

text \<open>The mirror store_holds the history of moment \<open>j\<close>, and so does the store.\<close>

definition in_sync :: "nat \<Rightarrow> 'p Mirror \<Rightarrow> string \<Rightarrow> 'w \<Rightarrow> bool" where
  "in_sync j m encoded w \<longleftrightarrow> mirrors m (history j) encoded \<and> through j (mi_cursor m) \<and>
     store_holds (phase w (mi_sessionID m)) (history j) encoded"

definition no_collision :: "nat \<Rightarrow> nat \<Rightarrow> string \<Rightarrow> ('v \<Rightarrow> 'd + string) \<Rightarrow> bool" where
  "no_collision j k encoded marshal \<longleftrightarrow> (\<forall>v e. marshal v = Inr e \<longrightarrow> apart e encoded) \<and>
     apart (frames (take (length (history j)) (history k))) (frames (history j))"

lemma read_marshalled:
  "mirror_read src recorded marshal k (read_from m k) = Inr (tail, e) \<Longrightarrow>
   src k (read_from m k) = Inr tail \<and> (\<exists>v. marshal v = Inr e) \<and> configured src recorded marshal m k e"
  unfolding mirror_read_def configured_def by (auto split: sum.splits)

lemma read_from_simps: "read_from m 0 = (if mi_committed m then mi_cursor m else zero_cursor)" "read_from m 1 = zero_cursor"
  by (simp_all add: read_from_def)

lemma settled_error_or_sync:
  assumes "settled w m (history k) e c out" and "through k c"
  shows "case out of
     (Inl err, m', v) \<Rightarrow> m' = m \<and> valid v \<and> phase v = phase w
   | (Inr report, m', v) \<Rightarrow> in_sync k m' e v \<and> mi_sessionID m' = mi_sessionID m \<and> valid v"
  using assms by (auto simp: settled_def in_sync_def split: prod.splits sum.splits)

text \<open>What a commit leaves: the mirror and the store as they were, or both at one of the histories it
  read.\<close>

definition commit_published :: "(nat \<Rightarrow> nat) \<Rightarrow> (nat \<Rightarrow> string \<Rightarrow> bool) \<Rightarrow> 'p Mirror \<Rightarrow> 'w \<Rightarrow>
    (('e, 'd, 'f) mirror_error + 'e CommitReport) \<times> 'p Mirror \<times> 'w \<Rightarrow> bool" where
  "commit_published t conf m w out \<longleftrightarrow>
     (case out of
        (Inl err, m', v) \<Rightarrow> m' = m \<and> valid v \<and> phase v = phase w
      | (Inr report, m', v) \<Rightarrow> (\<exists>k e. k \<le> 1 \<and> conf k e \<and> in_sync (t k) m' e v) \<and>
          mi_sessionID m' = mi_sessionID m \<and> valid v)"

lemma commit_published_settled:
  assumes "settled u m (history (t k)) e c out" and "through (t k) c" and "phase u = phase w" and "k \<le> 1"
    and "conf k e"
  shows "commit_published t conf m w out"
  using settled_error_or_sync[OF assms(1,2)] assms(3-5)
  unfolding commit_published_def by (cases out; cases "fst out") auto

lemma commit_published_full:
  assumes m: "mi_committed m \<Longrightarrow> in_sync j m encoded w"
    and nc: "mi_committed m \<Longrightarrow> no_collision j (t k) encoded marshal"
    and tail: "tl_Rows tail = history (t k)" "through (t k) (tl_Next tail)" and u: "valid u" "phase u = phase w"
    and k: "k \<le> 1" and e: "\<exists>v. marshal v = Inr e" and conf: "conf k e"
  shows "commit_published t conf m w (commitFull store ae tail e m u)"
proof -
  have "settled u m (tl_Rows tail) e (tl_Next tail) (commitFull store ae tail e m u)"
  proof (rule settled_commitFull[OF u(1)])
    assume "mi_committed m"
    from m[OF this] nc[OF this] u(2) tail(1) e
    show "mirrors m (history j) encoded \<and> store_holds (phase u (mi_sessionID m)) (history j) encoded \<and> apart e encoded \<and>
        apart (frames (take (length (history j)) (tl_Rows tail))) (frames (history j))"
      by (auto simp: in_sync_def no_collision_def)
  qed
  then show ?thesis unfolding tail(1) using tail(2) u(2) k conf by (rule commit_published_settled)
qed

lemma commit_published_append:
  assumes w: "valid w" and m: "in_sync j m encoded w" and nc: "no_collision j (t 0) encoded marshal"
    and tail: "history (t 0) = history j @ tl_Rows tail" "through (t 0) (tl_Next tail)" and e: "\<exists>v. marshal v = Inr e"
    and conf: "conf 0 e"
  shows "commit_published t conf m w (appendTail store tail e m w)"
proof -
  have "settled w m (history j @ tl_Rows tail) e (tl_Next tail) (appendTail store tail e m w)"
    using m nc e by (intro settled_appendTail[OF w]) (auto simp: in_sync_def no_collision_def)
  then show ?thesis unfolding tail(1)[symmetric] using tail(2) refl le0 conf by (rule commit_published_settled)
qed

lemma Commit_decided:
  assumes "mirror_read src recorded marshal 0 (if mi_committed m then mi_cursor m else zero_cursor) =
    (Inr (tail, e) :: ('e, 'd, 'f) mirror_error + 'p Tail \<times> string)"
  shows "tl_Full tail \<Longrightarrow> mirror_Commit store src recorded marshal m w = commitFull store None tail e m w"
    and "\<not> tl_Full tail \<Longrightarrow> appendTail store tail e m w = (Inl (StoreRefused a) :: ('e, 'd, 'f) mirror_error + 'e CommitReport, m', v) \<Longrightarrow>
      mirror_Commit store src recorded marshal m w =
        (case mirror_read src recorded marshal 1 zero_cursor of
           Inl err \<Rightarrow> (Inl err, m', v) | Inr (tail, e) \<Rightarrow> commitFull store (Some a) tail e m' v)"
    and "\<not> tl_Full tail \<Longrightarrow> appendTail store tail e m w = (res :: ('e, 'd, 'f) mirror_error + 'e CommitReport, m', v) \<Longrightarrow> (\<And>a. res \<noteq> Inl (StoreRefused a)) \<Longrightarrow>
      mirror_Commit store src recorded marshal m w = (res, m', v)"
proof -
  show "tl_Full tail \<Longrightarrow> mirror_Commit store src recorded marshal m w = commitFull store None tail e m w"
    unfolding mirror_Commit_def assms by simp
  show "mirror_Commit store src recorded marshal m w =
      (case mirror_read src recorded marshal 1 zero_cursor of
         Inl err \<Rightarrow> (Inl err, m', v) | Inr (tail, e) \<Rightarrow> commitFull store (Some a) tail e m' v)"
    if "\<not> tl_Full tail" "appendTail store tail e m w = (Inl (StoreRefused a) :: ('e, 'd, 'f) mirror_error + 'e CommitReport, m', v)"
    using that unfolding mirror_Commit_def assms by simp
  show "mirror_Commit store src recorded marshal m w = (res, m', v)"
    if "\<not> tl_Full tail" "appendTail store tail e m w = (res :: ('e, 'd, 'f) mirror_error + 'e CommitReport, m', v)" "\<And>a. res \<noteq> Inl (StoreRefused a)"
    using that unfolding mirror_Commit_def assms by (cases res) (auto split: mirror_error.split)
qed

lemma commit_publishes:
  fixes marshal :: "'v \<Rightarrow> 'd + string"
  assumes w: "valid w" and j: "j \<le> t 0" and m: "mi_committed m \<Longrightarrow> in_sync j m encoded w"
    and nc: "\<And>k. mi_committed m \<Longrightarrow> no_collision j (t k) encoded marshal"
  shows "commit_published t (configured (\<lambda>k. source (t k)) recorded marshal m) m w
    (mirror_Commit store (\<lambda>k. source (t k)) recorded marshal m w)"
    (is "commit_published t ?conf m w ?out")
proof -
  let ?src = "\<lambda>k. source (t k)" and ?c = "if mi_committed m then mi_cursor m else zero_cursor"
  show ?thesis
  proof (cases "mirror_read ?src recorded marshal 0 ?c :: ('e, 'd, 'f) mirror_error + 'p Tail \<times> string")
    case (Inl err)
    then have "?out = (Inl err, m, w)" by (simp add: mirror_Commit_def)
    with w show ?thesis by (simp add: commit_published_def)
  next
    case (Inr read)
    obtain tail e where "read = (tail, e)" by (cases read)
    note read = Inr[unfolded this]
    have src: "source (t 0) ?c = Inr tail" and e: "\<exists>v. marshal v = Inr e" and conf: "?conf 0 e"
      using read_marshalled[OF read[folded read_from_simps(1)]] unfolding read_from_simps(1) by simp_all
    have tail: "through (t 0) (tl_Next tail) \<and> (if tl_Full tail then tl_Rows tail = history (t 0)
        else mi_committed m \<and> history (t 0) = history j @ tl_Rows tail)"
      using src whole[of "t 0" tail] continued[of j "mi_cursor m" "t 0" tail] m j by (auto simp: in_sync_def split: if_splits)
    show ?thesis
    proof (cases "tl_Full tail")
      case True
      with tail show ?thesis
        unfolding Commit_decided(1)[OF read True]
        by (intro commit_published_full[where t = t and k = 0 and conf = ?conf, OF m nc _ _ w refl le0 e conf]) auto
    next
      case False
      with tail have com: "mi_committed m" and hist: "history (t 0) = history j @ tl_Rows tail" by auto
      have app: "commit_published t ?conf m w
          (appendTail store tail e m w :: (('e, 'd, 'f) mirror_error + 'e CommitReport) \<times> 'p Mirror \<times> 'w)"
        using tail by (intro commit_published_append[where t = t and conf = ?conf, OF w m[OF com] nc[OF com] hist _ e conf]) simp
      obtain res m' v where out: "appendTail store tail e m w = (res :: ('e, 'd, 'f) mirror_error + 'e CommitReport, m', v)" by (metis prod_cases3)
      show ?thesis
      proof (cases "\<exists>a. res = Inl (StoreRefused a)")
        case no: False
        have "?out = (res, m', v)" using Commit_decided(3)[OF read False out] no by blast
        with app out show ?thesis by simp
      next
        case True
        then obtain a where a: "res = Inl (StoreRefused a)" by blast
        have kept: "m' = m" "valid v" "phase v = phase w" using app out a by (auto simp: commit_published_def)
        note again = Commit_decided(2)[OF read False out[unfolded a kept(1)]]
        show ?thesis
        proof (cases "mirror_read ?src recorded marshal 1 zero_cursor :: ('e, 'd, 'f) mirror_error + 'p Tail \<times> string")
          case (Inl err)
          with again have "?out = (Inl err, m, v)" by simp
          with kept show ?thesis by (simp add: commit_published_def)
        next
          case (Inr read')
          obtain tail' e' where te': "read' = (tail', e')" by (cases read')
          have src': "source (t 1) zero_cursor = Inr tail'" "\<exists>v. marshal v = Inr e'" "?conf 1 e'"
            using read_marshalled[where k = 1 and m = m, unfolded read_from_simps(2), OF Inr[unfolded te']] by simp_all
          have "?out = commitFull store (Some a) tail' e' m v" using again Inr te' by simp
          moreover have "commit_published t ?conf m w
              (commitFull store (Some a) tail' e' m v :: (('e, 'd, 'f) mirror_error + 'e CommitReport) \<times> 'p Mirror \<times> 'w)"
            using whole[of "t 1" tail'] src'
            by (intro commit_published_full[where t = t and k = 1 and conf = ?conf, OF m nc]) (use kept in auto)
          ultimately show ?thesis by simp
        qed
      qed
    qed
  qed
qed

end

interpretation log_mirror: mirrored memory_store "\<lambda>h. store_wf (mh_store h)" "\<lambda>h. memory_phase (mh_store h)"
  "\<lambda>k. source_File (Some (log_at i n chunks k))" "\<lambda>k. rows_of (fl_data (log_at i n chunks k))"
  "\<lambda>k c. c = log_cursor (log_at i n chunks k)"
  by unfold_locales

end
