(* ===== verification/Hydration.thy ===== *)
theory Hydration
  imports MirrorProps
begin

text \<open>
  Hydrating a native file from the rows the store store_holds: where cutting invalid rows leaves the
  file, and what a mirror, its store and its file agree on afterwards.  Then the properties of the
  mirror over any store and source.
\<close>

section \<open>Cutting at a row\<close>

lemma lines_end:
  "on_boundary s \<Longrightarrow> l \<in> set (lines_of s) \<Longrightarrow> \<exists>x. l = x @ [newline] \<and> newline \<notin> set x"
proof (induction s rule: lines_of.induct)
  case (1 s)
  show ?case
  proof (cases "s = []")
    case False
    with "1.prems"(1) have "newline \<in> set s" by (auto simp: on_boundary_def dest: last_in_set)
    then obtain x r where s: "s = (x @ [newline]) @ r" "newline \<notin> set x"
      using split_list_first[of newline s] by auto
    have "on_boundary r" using "1.prems"(1) s(1) by (auto simp: on_boundary_def split: if_splits)
    moreover have "drop 1 (dropWhile (\<lambda>c. c \<noteq> newline) s) = r" using s by (auto simp: dropWhile_append)
    ultimately show ?thesis using "1.IH"[OF False] "1.prems"(2) s lines_of_line[OF s(2), of r] by auto
  qed (use 1 in simp)
qed

lemma lines_of_concat:
  "\<forall>l \<in> set ls. \<exists>x. l = x @ [newline] \<and> newline \<notin> set x \<Longrightarrow> lines_of (concat ls) = ls \<and> on_boundary (concat ls)"
proof (induction ls)
  case (Cons l ls)
  then obtain x where x: "l = x @ [newline]" "newline \<notin> set x" by auto
  with Cons lines_of_line[OF x(2), of "concat ls"] boundary_append[of l "concat ls"] show ?case
    by (simp add: on_boundary_def)
qed (simp add: on_boundary_def)

definition trimmed_rows :: "string list \<Rightarrow> string list" where
  "trimmed_rows ls = filter (\<lambda>row. row \<noteq> []) (map TrimSpace ls)"

lemma row_offset_split:
  "\<exists>a b. ls = a @ b \<and> row_offset ls i = length (concat a) \<and> trimmed_rows a = take i (trimmed_rows ls)"
proof (induction ls i rule: row_offset.induct)
  case (2 line rest i)
  show ?case
  proof (cases "TrimSpace line = []")
    case True
    from 2(2) True obtain a b where "rest = a @ b" "row_offset rest i = length (concat a)"
      "trimmed_rows a = take i (trimmed_rows rest)" by auto
    with True show ?thesis by (intro exI[of _ "line # a"] exI[of _ b]) (simp add: trimmed_rows_def)
  next
    case blank: False
    show ?thesis
    proof (cases i)
      case 0
      then show ?thesis using blank by (intro exI[of _ "[]"] exI[of _ "line # rest"]) (simp add: trimmed_rows_def)
    next
      case (Suc k)
      from 2(1)[OF blank Suc] obtain a b where "rest = a @ b" "row_offset rest k = length (concat a)"
        "trimmed_rows a = take k (trimmed_rows rest)" by auto
      with blank Suc show ?thesis by (intro exI[of _ "line # a"] exI[of _ b]) (simp add: trimmed_rows_def)
    qed
  qed
qed (simp add: trimmed_rows_def)

lemma rows_on_boundary: "on_boundary d \<Longrightarrow> rows_of d = trimmed_rows (lines_of d)"
  by (simp add: rows_of_def trimmed_rows_def boundary_complete)

lemma cut_at_row:
  assumes d: "on_boundary d" and i: "i < length (rows_of d)"
  shows "on_boundary (take (row_offset (lines_of d) i) d)" and "rows_of (take (row_offset (lines_of d) i) d) = take i (rows_of d)"
    and "row_offset (lines_of d) i < length d"
proof -
  obtain a b where ab: "lines_of d = a @ b" "row_offset (lines_of d) i = length (concat a)"
    "trimmed_rows a = take i (trimmed_rows (lines_of d))"
    using row_offset_split[of "lines_of d" i] by blast
  have whole: "d = concat a @ concat b" using concat_lines[of d] ab(1) by simp
  then have t: "take (row_offset (lines_of d) i) d = concat a" using ab(2) by simp
  have "lines_of (concat a) = a \<and> on_boundary (concat a)" using lines_end[OF d] ab(1) by (intro lines_of_concat) auto
  then have "on_boundary (concat a)" "rows_of (concat a) = take i (rows_of d)"
    using ab(3) rows_on_boundary[OF d] rows_on_boundary[of "concat a"] by simp_all
  then show "on_boundary (take (row_offset (lines_of d) i) d)" "rows_of (take (row_offset (lines_of d) i) d) = take i (rows_of d)"
    unfolding t .
  have "b \<noteq> []"
  proof
    assume "b = []"
    then have "rows_of d = take i (rows_of d)" using ab(1,3) rows_on_boundary[OF d] by simp
    then have "length (rows_of d) \<le> i" by (metis length_take min.cobounded2)
    with i show False by simp
  qed
  then obtain l c where "b = l # c" by (cases b) auto
  moreover from this obtain x where "l = x @ [newline]" using lines_end[OF d, of l] ab(1) by auto
  ultimately have "length (concat a) < length d" using whole by simp
  then show "row_offset (lines_of d) i < length d" using ab(2) by simp
qed

section \<open>The file while it is hydrated\<close>

definition file_rows :: "log_file option \<Rightarrow> string list" where
  "file_rows f = (case f of None \<Rightarrow> [] | Some g \<Rightarrow> rows_of (fl_data g))"

definition file_ok :: "log_file option \<Rightarrow> bool" where
  "file_ok f \<longleftrightarrow> (case f of None \<Rightarrow> True | Some g \<Rightarrow> fl_regular g)"

definition file_whole :: "log_file option \<Rightarrow> bool" where
  "file_whole f \<longleftrightarrow> (case f of None \<Rightarrow> True | Some g \<Rightarrow> fl_regular g \<and> on_boundary (fl_data g))"

definition file_cursor :: "log_file option \<Rightarrow> 'p Cursor" where
  "file_cursor f = (case f of None \<Rightarrow> zero_cursor | Some g \<Rightarrow> log_cursor g)"

definition file_tail :: "log_file option \<Rightarrow> 'p Tail" where
  "file_tail f = (case f of None \<Rightarrow> blank_tail\<lparr>tl_Full := True\<rparr> | Some g \<Rightarrow> read_at g 0)"

lemma file_read: "file_ok f \<Longrightarrow> ReadJSONL f zero_cursor = Inr (file_tail f)"
proof (cases f)
  case None
  then show ?thesis by (simp add: file_tail_def ReadJSONL_def)
next
  case (Some g)
  then show "file_ok f \<Longrightarrow> ReadJSONL f zero_cursor = Inr (file_tail f)" by (simp add: file_ok_def file_tail_def read_whole)
qed

lemma file_tail_rows: "tl_Rows (file_tail f) = file_rows f"
  by (cases f) (simp_all add: file_tail_def file_rows_def blank_tail_def)

lemma file_tail_next: "(tl_Next (file_tail f) :: 'p Cursor) = file_cursor f"
  by (cases f) (simp_all add: file_tail_def file_cursor_def log_cursor_def blank_tail_def)

lemma whole_ok: "file_whole f \<Longrightarrow> file_ok f"
  by (cases f) (simp_all add: file_whole_def file_ok_def)

lemma torn_whole: "file_ok f \<Longrightarrow> CutTornTail f = (t, g) \<Longrightarrow> file_whole g"
proof (cases f)
  case (Some h)
  have "fl_regular (snd (cutTornTail h)) = fl_regular h" by (simp add: cutTornTail_def Let_def)
  moreover have "on_boundary (fl_data (snd (cutTornTail h)))" using torn_cut[of h] by blast
  moreover assume "file_ok f" "CutTornTail f = (t, g)"
  ultimately show ?thesis using Some
    by (auto simp: CutTornTail_def file_ok_def file_whole_def map_prod_def split: prod.splits)
qed (simp add: CutTornTail_def file_whole_def)

lemma cut_invalid:
  assumes f: "file_whole f" and cut: "cutInvalidRows f (file_tail f :: 'p Tail) n = (k, g)"
  shows "file_whole g" and "k = 0 \<Longrightarrow> g = f" and "\<exists>i. file_rows g = take i (file_rows f)"
proof -
  let ?rows = "file_rows f"
  have "file_whole g \<and> (k = 0 \<longrightarrow> g = f) \<and> (\<exists>i. file_rows g = take i ?rows)"
  proof (cases "find (\<lambda>index. \<not> validRow (?rows ! index)) [n..<length ?rows]")
    case None
    then have "k = 0 \<and> g = f" using cut by (simp add: cutInvalidRows_def file_tail_rows)
    with f show ?thesis by (auto intro: exI[of _ "length ?rows"])
  next
    case (Some i)
    then have i: "i < length ?rows" by (auto simp: find_Some_iff)
    then obtain h where h: "f = Some h" by (cases f) (auto simp: file_rows_def)
    then have b: "on_boundary (fl_data h)" "fl_regular h" using f by (simp_all add: file_whole_def)
    have off: "Tail_offset (file_tail f :: 'p Tail) i = row_offset (lines_of (fl_data h)) i"
      using h b(1) by (simp add: Tail_offset_def file_tail_def read_at_def boundary_complete Let_def)
    let ?n = "row_offset (lines_of (fl_data h)) i"
    have "k = length (fl_data h) - ?n \<and> g = Some (h\<lparr>fl_data := take ?n (fl_data h)\<rparr>)"
      using cut Some h off by (auto simp: cutInvalidRows_def file_tail_rows)
    with h b cut_at_row[OF b(1), of i] i show ?thesis
      by (auto simp: file_whole_def file_rows_def)
  qed
  then show "file_whole g" "k = 0 \<Longrightarrow> g = f" "\<exists>i. file_rows g = take i (file_rows f)" by blast+
qed

text \<open>The rows settled on: those of the file as it is left, or those stored.\<close>

lemma hydrate_rows_settles:
  fixes native :: "'p Tail"
  assumes "file_ok f" and "hydrate_rows f stored validate = (Inr (rows, nativeWins, native), report, g)"
  shows "file_whole g" and "native = file_tail g"
    and "if nativeWins then rows = file_rows g \<and> take (length stored) rows = stored
         else rows = stored \<and> length (file_rows g) < length stored"
proof -
  obtain t h where t: "CutTornTail f = (t, h)" by (metis surj_pair)
  have h: "file_whole h" using torn_whole[OF assms(1) t] .
  have read: "ReadJSONL h zero_cursor = Inr (file_tail h :: 'p Tail)" using file_read[OF whole_ok[OF h]] .
  obtain k c where k: "cutInvalidRows h (file_tail h :: 'p Tail) (length stored) = (k, c)" by (metis surj_pair)
  have c: "file_whole c" "k = 0 \<Longrightarrow> c = h" using cut_invalid[OF h k] by blast+
  have again: "(if k > 0 then ReadJSONL c zero_cursor else Inr (file_tail h)) = Inr (file_tail c :: 'p Tail)"
    using c file_read[OF whole_ok[OF c(1)]] by (cases "k = 0") auto
  have all: "reconcile (file_rows c) stored = Inr (rows, nativeWins) \<and> native = file_tail c \<and> g = c"
    using assms(2) unfolding hydrate_rows_def Let_def t k prod.case read sum.case again file_tail_rows
    by (auto split: sum.splits option.splits if_splits)
  then show "file_whole g" "native = file_tail g" using c by blast+
  show "if nativeWins then rows = file_rows g \<and> take (length stored) rows = stored
      else rows = stored \<and> length (file_rows g) < length stored"
    using all reconcile_cases[of "file_rows c" stored] by auto
qed

lemma hydrate_rows_report: "hydrate_rows f stored validate = (out, report, g) \<Longrightarrow> \<not> hr_Rewritten report"
  by (auto simp: hydrate_rows_def Let_def no_hydrate_def split: prod.splits sum.splits option.splits if_splits)

text \<open>What a row reads back as: trimming forgets the line ending and the space around the row.\<close>

lemma leading_space_append:
  assumes "row \<noteq> []"
  shows "leading_space (row @ [newline]) = leading_space row" and "leading_space row \<le> length row"
proof -
  let ?t = "\<lambda>e s. take (length e) (byte_values (take 3 s))"
  have t: "?t e s = take (length e) (byte_values s)" if "e \<in> set spaces" for e s
    using that by (auto simp: spaces_def byte_values_def take_map[symmetric] min_def)
  have same: "?t e (row @ [newline]) = e \<longleftrightarrow> ?t e row = e" if e: "e \<in> set spaces" for e
  proof (cases "length e \<le> length row")
    case True
    then show ?thesis unfolding t[OF e] by (simp add: byte_values_def)
  next
    case False
    then have no: "?t e row \<noteq> e" unfolding t[OF e] by (auto simp: byte_values_def dest: arg_cong[where f = length])
    have "?t e (row @ [newline]) = byte_values row @ [10]"
      using False unfolding t[OF e] by (simp add: byte_values_def newline_def)
    then have "?t e (row @ [newline]) = e \<Longrightarrow> False"
      using newline_spaces[OF e] assms by (cases row) (auto simp: byte_values_def)
    with no show ?thesis by blast
  qed
  have "find (\<lambda>e. ?t e (row @ [newline]) = e) spaces = find (\<lambda>e. ?t e row = e) spaces"
    using same by (intro find_cong) auto
  then show "leading_space (row @ [newline]) = leading_space row" by (simp add: leading_space_def)
  show "leading_space row \<le> length row"
  proof (cases "find (\<lambda>e. ?t e row = e) spaces")
    case (Some e)
    from find_Some_mem[OF this] have "take (length e) (byte_values row) = e" using t by metis
    then have "length e \<le> length row" by (metis byte_values_def length_map length_take min.cobounded1)
    with Some show ?thesis by (simp add: leading_space_def)
  qed (simp add: leading_space_def)
qed

lemma trim_left_line: "trim_space_left (row @ [newline]) = (if trim_space_left row = [] then [] else trim_space_left row @ [newline])"
proof (induction row rule: trim_space_left.induct)
  case (1 row)
  have nl: "leading_space [newline] = 1" by (simp add: leading_space_def spaces_def byte_values_def newline_def)
  show ?case
  proof (cases "row = []")
    case True
    then show ?thesis using nl by (simp add: trim_space_left.simps)
  next
    case False
    note sp = leading_space_append[OF False]
    show ?thesis
    proof (cases "leading_space row = 0")
      case True
      then show ?thesis using False sp by (simp add: trim_space_left.simps)
    next
      case more: False
      then have "trim_space_left (row @ [newline]) = trim_space_left (drop (leading_space row) row @ [newline])"
        "trim_space_left row = trim_space_left (drop (leading_space row) row)"
        using False sp by (simp_all add: trim_space_left.simps[of row] trim_space_left.simps[of "row @ [newline]"])
      then show ?thesis using 1[of] False more by simp
    qed
  qed
qed

lemma TrimSpace_line: "TrimSpace (row @ [newline]) = TrimSpace row"
proof -
  have "trim_space_right (x @ [newline]) = trim_space_right x" for x
    by (simp add: trim_space_right.simps[of "x @ [newline]"] trailing_space_line del: One_nat_def)
  moreover have "trim_space_right [] = []" by (simp add: trim_space_right.simps)
  ultimately show ?thesis by (simp add: TrimSpace_def trim_left_line)
qed

lemma written_file:
  fixes cursor :: "'p Cursor"
  assumes "WriteJSONL identity name rows f = (Inr cursor, g)" and "rows \<noteq> []"
  shows "file_whole g \<and> file_rows g = trimmed_rows rows \<and> cursor = file_cursor g"
proof -
  have find: "find (\<lambda>i. newline \<in> set (rows ! i)) [0..<length rows] = None"
    using assms(1) by (cases "find (\<lambda>i. newline \<in> set (rows ! i)) [0..<length rows]") (auto simp: WriteJSONL_def writeRows_def)
  then have "\<forall>row \<in> set rows. newline \<notin> set row" by (auto simp: find_None_iff in_set_conv_nth)
  then have "\<forall>l \<in> set (map (\<lambda>row. row @ [newline]) rows). \<exists>x. l = x @ [newline] \<and> newline \<notin> set x" by auto
  note lines = lines_of_concat[OF this]
  let ?d = "concat (map (\<lambda>row. row @ [newline]) rows)"
  let ?f = "\<lparr>fl_id = identity, fl_regular = True, fl_name = name, fl_data = ?d\<rparr>"
  have b: "on_boundary ?d" "rows_of ?d = trimmed_rows rows"
    using lines rows_on_boundary[of ?d] by (simp_all add: trimmed_rows_def TrimSpace_line comp_def)
  have "?d \<noteq> []" using assms(2) by (cases rows) auto
  then have "WriteJSONL identity name rows f = (Inr (cursor_at ?f (length ?d) :: 'p Cursor), Some ?f)"
    using find by (simp add: WriteJSONL_def writeRows_def Let_def checksums_within cursor_at_def)
  with assms(1) b show ?thesis
    by (auto simp: file_whole_def file_rows_def file_cursor_def log_cursor_def boundary_complete)
qed

section \<open>The length prefix\<close>

text \<open>The length prefix of a digested row fits the ten bytes reserved for it
  (\<open>binary.MaxVarintLen64\<close>): writing it never runs past the buffer, for any length a 64-bit
  machine can hold, and what is written is the prefix followed by the row.\<close>

theorem length_prefix_fits:
  assumes "length row < 2 ^ 64"
  shows "\<exists>prefix. writeDigest digest row = digest @ prefix @ row \<and> 1 \<le> length prefix \<and> length prefix \<le> 10"
proof -
  have "length row < 128 ^ Suc 9" using assms by simp
  then have "length (uvarint (length row)) \<le> 10" using uvarint_length[of "length row" 9] by simp
  moreover have "1 \<le> length (uvarint (length row))" using uvarint_nonempty[of "length row"] by (simp add: Suc_leI)
  ultimately show ?thesis by (auto simp: writeDigest_def)
qed

theorem length_prefix_fits_witness:
  "\<exists>prefix. writeDigest ''abc'' (replicate 300 CHR ''x'') = ''abc'' @ prefix @ replicate 300 CHR ''x'' \<and> 1 \<le> length prefix \<and> length prefix \<le> 10"
  by (rule length_prefix_fits) simp

section \<open>Commits over any store and source\<close>

text \<open>C22: A commit publishes the native history or changes nothing.  Over any store that keeps the
  contract and any source of one history: when the mirror and the store agree on the history of an
  earlier moment, a commit that succeeds leaves both at the history one of its reads saw, with the
  configuration the record function gave for what that very read returned (the first read continues
  at the mirror's cursor, the second starts over), and the cursor after that history; a commit that fails leaves
  the mirror and the store's sessions as they were.  Two distinct texts at hand are assumed not to
  share a SHA-256.\<close>

theorem commit_publishes_history:
  assumes "mirrored store valid phase source history through" and "valid w" and "j \<le> t 0"
    and "mi_committed m \<Longrightarrow> mirrors m (history j) encoded \<and> through j (mi_cursor m) \<and>
      store_holds (phase w (mi_sessionID m)) (history j) encoded"
    and "\<And>k. mi_committed m \<Longrightarrow> (\<forall>v e. marshal v = Inr e \<longrightarrow> apart e encoded) \<and>
      apart (frames (take (length (history j)) (history (t k)))) (frames (history j))"
  shows "case mirror_Commit store (\<lambda>k. source (t k)) recorded marshal m w of
      (Inl err, m', v) \<Rightarrow> m' = m \<and> valid v \<and> phase v = phase w
    | (Inr report, m', v) \<Rightarrow> valid v \<and>
        (\<exists>k tail x e. k \<le> 1 \<and> source (t k) (read_from m k) = Inr tail \<and>
           recorded k tail = Inr x \<and> marshal x = Inr e \<and> mirrors m' (history (t k)) e \<and> through (t k) (mi_cursor m') \<and>
           store_holds (phase v (mi_sessionID m)) (history (t k)) e)"
proof -
  have "mirrored.commit_published valid phase history through t (configured (\<lambda>k. source (t k)) recorded marshal m) m w
      (mirror_Commit store (\<lambda>k. source (t k)) recorded marshal m w)"
    using assms(2-5) by (intro mirrored.commit_publishes[OF assms(1)])
      (auto simp: mirrored.in_sync_def[OF assms(1)] mirrored.no_collision_def[OF assms(1)])
  moreover obtain res m' v where "mirror_Commit store (\<lambda>k. source (t k)) recorded marshal m w = (res, m', v)"
    by (metis prod_cases3)
  ultimately show ?thesis
    unfolding mirrored.commit_published_def[OF assms(1)] mirrored.in_sync_def[OF assms(1)]
    unfolding configured_def by (cases res) (simp_all, metis)
qed

definition sample_host :: memory_host where
  "sample_host = \<lparr>mh_store = NewInMemorySessionStore, mh_calls = (\<lambda>k. \<lparr>cl_Err = None, cl_now = int k\<rparr>), mh_tick = 0\<rparr>"

abbreviation sample_log :: "nat \<Rightarrow> log_file" where
  "sample_log \<equiv> log_at 7 ''native'' (map (\<lambda>row. row @ [newline]) [''{}'', ''{}''])"

text \<open>A mirror committed at the log's first row, and its second row to come.  The configuration is
  computed from the rows read, and refused for any number of them but one.\<close>

definition sample_stored :: memory_host where
  "sample_stored = sample_host\<lparr>mh_store := NewInMemorySessionStore\<lparr>ms_sessions :=
     [(''s'', \<lparr>ss_subpaths = [SessionStoreMainSubpath \<mapsto> [''{}''], ConfigSubpath \<mapsto> [''{}'']], ss_updatedAt = 0\<rparr>)]\<rparr>\<rparr>"

definition sample_mirror :: "nat Mirror" where
  "sample_mirror = mirror_adopt [''{}''] ''{}'' (log_cursor (sample_log 1)) (NewMirror ''s'')"

definition sample_recorded :: "nat \<Rightarrow> nat Tail \<Rightarrow> string + nat" where
  "sample_recorded k tail = Inr (length (tl_Rows tail))"

definition sample_marshal :: "nat \<Rightarrow> string + string" where
  "sample_marshal n = (if n = 1 then Inr ''{}'' else Inl ''unsupported value'')"

lemma sample_history: "rows_of (fl_data (sample_log k)) = take k [''{}'', ''{}'']"
proof -
  let ?rows = "[''{}'', ''{}'']"
  have "list_all plain_row (take k ?rows)"
    by (simp add: take_Cons' plain_row_def trimmed_def newline_char leading_space_def trailing_space_def spaces_def byte_values_def)
  then show ?thesis
    using plain_lines[of "take k ?rows"] by (simp add: log_at_def take_map[symmetric] del: list.map(2))
qed

lemma sample_stored_holds:
  "store_holds (memory_phase (mh_store sample_stored) ''s'') [''{}''] ''{}''" "store_wf (mh_store sample_stored)"
  using subpaths_differ
  by (simp_all add: sample_stored_def store_holds_def memory_phase_def NewInMemorySessionStore_def store_wf_def)

theorem commit_publishes_history_witness:
  "case mirror_Commit memory_store (\<lambda>k. source_File (Some (sample_log (k + 2)))) sample_recorded sample_marshal sample_mirror sample_stored of
      (Inl err, m', v) \<Rightarrow> m' = sample_mirror \<and> store_wf (mh_store v) \<and>
        memory_phase (mh_store v) = memory_phase (mh_store sample_stored)
    | (Inr report, m', v) \<Rightarrow> store_wf (mh_store v) \<and>
        (\<exists>k tail x e. k \<le> 1 \<and> source_File (Some (sample_log (k + 2))) (read_from sample_mirror k) = Inr tail \<and>
           sample_recorded k tail = Inr x \<and> sample_marshal x = Inr e \<and>
           mirrors m' (rows_of (fl_data (sample_log (k + 2)))) e \<and> mi_cursor m' = log_cursor (sample_log (k + 2)) \<and>
           store_holds (memory_phase (mh_store v) (mi_sessionID sample_mirror)) (rows_of (fl_data (sample_log (k + 2)))) e)"
proof (rule commit_publishes_history[OF log_mirror.mirrored_axioms, where t = "\<lambda>k. k + 2" and j = 1])
  have m: "mirrors sample_mirror [''{}''] ''{}''" "mi_cursor sample_mirror = log_cursor (sample_log 1)" "mi_sessionID sample_mirror = ''s''"
    unfolding sample_mirror_def by (simp_all only: mirrors_adopt) (simp add: NewMirror_def)
  show "mirrors sample_mirror (rows_of (fl_data (sample_log 1))) ''{}'' \<and> mi_cursor sample_mirror = log_cursor (sample_log 1) \<and>
      store_holds (memory_phase (mh_store sample_stored) (mi_sessionID sample_mirror)) (rows_of (fl_data (sample_log 1))) ''{}''"
    unfolding sample_history m(3) using m sample_stored_holds(1) by simp
  show "(\<forall>v e. sample_marshal v = Inr e \<longrightarrow> apart e ''{}'') \<and>
      apart (frames (take (length (rows_of (fl_data (sample_log 1)))) (rows_of (fl_data (sample_log (k + 2))))))
        (frames (rows_of (fl_data (sample_log 1))))" for k
    unfolding sample_history by (auto simp: sample_marshal_def)
qed (simp_all add: sample_stored_holds)

text \<open>Every step of a commit that only the store could refuse goes through.\<close>

lemma republish_serves:
  "fst (mirror_replace store m (tl_Rows tail) e w) = None \<Longrightarrow> \<exists>r m' v. republish store tail e report m w = (Inr r, m', v)"
  by (auto simp: republish_def split: prod.splits option.splits)

lemma validRows_valid: "list_all validRow (tl_Rows tail) \<Longrightarrow> validRows tail n = None"
  by (auto simp: validRows_def find_None_iff list_all_length)

lemma commitFull_decided:
  assumes "\<not> (mi_committed m \<and> length (tl_Rows tail) < mi_rows m)" and "\<And>n. validRows tail n = None"
  shows "commitFull store ae tail e m w =
     (if mi_committed m \<and> extendsCommitted m (tl_Rows tail) then
        if drop (mi_rows m) (tl_Rows tail) = [] \<and> sha256 e = mi_record m then (Inr no_commit, m\<lparr>mi_cursor := tl_Next tail\<rparr>, w)
        else (case ae of
                Some a \<Rightarrow> republish store tail e (append_failure a) m w
              | None \<Rightarrow>
                  (case mirror_append store m (drop (mi_rows m) (tl_Rows tail)) e w of
                     (Some a, w) \<Rightarrow> republish store tail e (append_failure a) m w
                   | (None, w) \<Rightarrow> (Inr (no_commit\<lparr>cr_Appended := length (drop (mi_rows m) (tl_Rows tail))\<rparr>),
                       (mirror_extend (drop (mi_rows m) (tl_Rows tail)) m)\<lparr>mi_record := sha256 e, mi_cursor := tl_Next tail\<rparr>, w)))
      else (case ae of
              Some a \<Rightarrow> republish store tail e (append_failure a) m w
            | None \<Rightarrow> republish store tail e
                (no_commit\<lparr>cr_Republish := if mi_committed m then RepublishRewritten else RepublishInitial\<rparr>) m w))"
  unfolding commitFull_def Let_def using assms by (simp only: if_False option.case)

lemma commitFull_serves:
  assumes "list_all validRow (tl_Rows tail)" and "mi_committed m \<Longrightarrow> mi_rows m \<le> length (tl_Rows tail)"
    and serve: "\<And>v. v = w \<or> (\<exists>added e' a. mirror_append store m added e' w = (Some a, v)) \<Longrightarrow>
      fst (mirror_replace store m (tl_Rows tail) e v) = None"
  shows "\<exists>r m' v. commitFull store ae tail e m w = (Inr r, m', v)"
proof -
  let ?done = "\<lambda>out. \<exists>r m' v. out = (Inr r, m', v)"
  have re: "?done (republish store tail e report m u)"
    if "u = w \<or> (\<exists>added e' a. mirror_append store m added e' w = (Some a, u))" for report u
    using republish_serves[of store m tail e u report] serve[OF that] by blast
  have long: "\<not> (mi_committed m \<and> length (tl_Rows tail) < mi_rows m)" using assms(2) by fastforce
  obtain r u where call: "mirror_append store m (drop (mi_rows m) (tl_Rows tail)) e w = (r, u)" by (metis surj_pair)
  have appended: "?done (case (r, u) of
      (Some a, w) \<Rightarrow> republish store tail e (append_failure a) m w
    | (None, w) \<Rightarrow> (Inr (no_commit\<lparr>cr_Appended := n\<rparr>), m', w))" for n m'
  proof (cases r)
    case (Some a)
    then have "?done (republish store tail e report m u)" for report using re call by blast
    then show ?thesis using Some by simp
  qed simp
  have choice: "?done x \<Longrightarrow> ?done y \<Longrightarrow> ?done (if b then x else y)" for b x y by simp
  have same: "w = w \<or> (\<exists>added e' a. mirror_append store m added e' w = (Some a, w))" by simp
  show ?thesis
    unfolding commitFull_decided[OF long validRows_valid[OF assms(1)]] call
  proof (intro choice)
    show "?done (Inr no_commit, m\<lparr>mi_cursor := tl_Next tail\<rparr>, w)" by simp
  qed (cases ae; simp only: option.case appended re[OF same])+
qed

text \<open>C23: A refused append does not lose the history: as long as the source and the record function
  answer, every row of the history is valid, it has not shrunk and the store accepts a replace, a
  commit succeeds, whatever the store does with an append.\<close>

theorem commit_recovers:
  fixes store :: "('w, 'e) SessionStore" and source :: "nat \<Rightarrow> 'p Cursor \<Rightarrow> 'f + 'p Tail" and marshal :: "'v \<Rightarrow> 'd + string"
  assumes "mirrored store valid phase source history through" and "j \<le> t 0" and "mi_committed m \<Longrightarrow> through j (mi_cursor m)"
    and "\<And>k c. \<exists>tail. source k c = Inr tail" and "\<And>k tail. \<exists>v. recorded k tail = Inr v" and "\<And>v. \<exists>e. marshal v = Inr e"
    and "\<And>k. list_all validRow (history (t k))" and "\<And>k. mi_committed m \<Longrightarrow> mi_rows m \<le> length (history (t k))"
    and serve: "\<And>rows e u v. u = w \<or> (\<exists>added e' a. mirror_append store m added e' w = (Some a, u)) \<Longrightarrow>
      v = u \<or> (\<exists>added e' a. mirror_append store m added e' u = (Some a, v)) \<Longrightarrow> fst (mirror_replace store m rows e v) = None"
  shows "\<exists>report m' v. mirror_Commit store (\<lambda>k. source (t k)) recorded marshal m w = (Inr report, m', v)"
proof -
  let ?src = "\<lambda>k. source (t k)" and ?c = "if mi_committed m then mi_cursor m else zero_cursor"
  have native: "native_source source history through" using assms(1) by (simp add: mirrored_def)
  have read: "\<exists>tail e. mirror_read ?src recorded marshal k c = (Inr (tail, e) :: ('e, 'd, 'f) mirror_error + 'p Tail \<times> string) \<and> source (t k) c = Inr tail" for k c
  proof -
    obtain tail v e where "source (t k) c = Inr tail" "recorded k tail = Inr v" "marshal v = Inr e" using assms(4-6) by metis
    then show ?thesis by (simp add: mirror_read_def)
  qed
  obtain tail e where r: "mirror_read ?src recorded marshal 0 ?c = (Inr (tail, e) :: ('e, 'd, 'f) mirror_error + 'p Tail \<times> string)" and src: "source (t 0) ?c = Inr tail"
    using read by blast
  have tail: "if tl_Full tail then tl_Rows tail = history (t 0) else mi_committed m \<and> history (t 0) = history j @ tl_Rows tail"
    using src native_source.whole[OF native, of "t 0" tail] native_source.continued[OF native, of j "mi_cursor m" "t 0" tail] assms(2,3)
    by (cases "mi_committed m") auto
  note decided = mirrored.Commit_decided[OF assms(1) r]
  show ?thesis
  proof (cases "tl_Full tail")
    case True
    have "\<exists>r m' v. commitFull store None tail e m w = (Inr r, m', v)"
      using tail True assms(7,8) serve by (intro commitFull_serves) auto
    then show ?thesis unfolding decided(1)[OF True] .
  next
    case False
    then have rows: "list_all validRow (tl_Rows tail)" using tail assms(7)[of 0] by simp
    obtain a u where call: "mirror_append store m (tl_Rows tail) e w = (a, u)" by (metis surj_pair)
    show ?thesis
    proof (cases "a = None \<or> tl_Rows tail = [] \<and> sha256 e = mi_record m")
      case True
      then have "\<exists>report m' v. appendTail store tail e m w = (Inr report :: ('e, 'd, 'f) mirror_error + 'e CommitReport, m', v)"
        using call validRows_valid[OF rows] by (cases "tl_Rows tail = [] \<and> sha256 e = mi_record m") (auto simp: appendTail_def)
      then obtain report m' v where app: "appendTail store tail e m w = (Inr report :: ('e, 'd, 'f) mirror_error + 'e CommitReport, m', v)"
        by blast
      show ?thesis using decided(3)[OF False app] by blast
    next
      case refused: False
      then obtain x where x: "a = Some x" by auto
      then have app: "appendTail store tail e m w = (Inl (StoreRefused x) :: ('e, 'd, 'f) mirror_error + 'e CommitReport, m, u)"
        using call validRows_valid[OF rows] refused by (auto simp: appendTail_def)
      obtain tail' e' where again: "mirror_read ?src recorded marshal 1 zero_cursor = (Inr (tail', e') :: ('e, 'd, 'f) mirror_error + 'p Tail \<times> string)"
        and src': "source (t 1) zero_cursor = Inr tail'" using read by blast
      have "tl_Rows tail' = history (t 1)" using native_source.whole[OF native src'] by blast
      then have "\<exists>r m' v. commitFull store (Some x) tail' e' m u = (Inr r, m', v)"
      proof (intro commitFull_serves)
        fix v
        assume v: "v = u \<or> (\<exists>added e' a. mirror_append store m added e' u = (Some a, v))"
        have "\<exists>added e' a. mirror_append store m added e' w = (Some a, u)" using call x by blast
        from serve[OF disjI2[OF this] v] show "fst (mirror_replace store m (tl_Rows tail') e' v) = None" .
      qed (use assms(7,8)[of 1] \<open>tl_Rows tail' = _\<close> in simp_all)
      then show ?thesis using decided(2)[OF False app] again by simp
    qed
  qed
qed

lemma sample_calls: "mirror_append memory_store m added e h = (r, g) \<Longrightarrow> mh_calls g = mh_calls h"
  by (auto simp: mirror_append_def memory_store_def host_call_def split: prod.splits)

lemma sample_replace:
  "mh_calls h = mh_calls sample_host \<Longrightarrow> mi_sessionID m = ''s'' \<Longrightarrow> fst (mirror_replace memory_store m rows e h) = None"
  by (simp add: mirror_replace_def memory_store_def host_call_def store_Replace_def sample_host_def validateReplacements_def
      mirror_key_def configReplacement_def ConfigSubpath_def SessionStoreMainSubpath_def split: prod.split)

lemma sample_valid: "validRow ''{}''"
  by code_simp

lemma sample_rows: "list_all validRow (rows_of (fl_data (sample_log k)))"
  unfolding sample_history using sample_valid by (simp add: take_Cons')

lemma log_read: "\<exists>tail. ReadJSONL (Some (log_at i n chunks k)) c = Inr tail"
  using read_file[of "log_at i n chunks k" c] continue_decided[of "log_at i n chunks k" c] by (auto simp: log_at_def)

text \<open>The mirror committed one row, but the store holds another generation of two: the append of the
  next row is refused as stale.\<close>

definition sample_diverged :: memory_host where
  "sample_diverged = sample_host\<lparr>mh_store := NewInMemorySessionStore\<lparr>ms_sessions :=
     [(''s'', \<lparr>ss_subpaths = [SessionStoreMainSubpath \<mapsto> [''{}'', ''{}''], ConfigSubpath \<mapsto> [''{}'']], ss_updatedAt = 0\<rparr>)]\<rparr>\<rparr>"

lemma sample_refuses_append: "\<exists>e v. mirror_append memory_store sample_mirror [''{}''] ''{}'' sample_diverged = (Some e, v)"
proof -
  have "mi_sessionID sample_mirror = ''s''" "mi_rows sample_mirror = 1" "mi_record sample_mirror = sha256 ''{}''"
    by (simp_all add: sample_mirror_def mirror_adopt_def mirror_extend_def mirror_forget_def NewMirror_def)
  then show ?thesis
    by (simp add: mirror_append_def memory_store_def host_call_def store_Append_def sample_diverged_def sample_host_def
        NewInMemorySessionStore_def mirror_key_def validateAppendReplacements_def SessionStoreMainSubpath_def ConfigSubpath_def
        main_rows_def cong: option.case_cong)
qed

theorem commit_recovers_witness:
  "(\<exists>e v. mirror_append memory_store sample_mirror [''{}''] ''{}'' sample_diverged = (Some e, v)) \<and>
   (\<exists>report m' v. mirror_Commit memory_store (\<lambda>k. source_File (Some (sample_log (k + 2)))) (\<lambda>k (tail :: nat Tail). Inr ''{}'' :: nat + string) Inr
      sample_mirror sample_diverged = (Inr report, m', v))"
proof (rule conjI[OF sample_refuses_append], rule commit_recovers[OF log_mirror.mirrored_axioms, where t = "\<lambda>k. k + 2" and j = 1])
  have i: "mi_sessionID sample_mirror = ''s''" "mi_rows sample_mirror = 1" "mi_cursor sample_mirror = log_cursor (sample_log 1)"
    by (simp_all add: sample_mirror_def mirror_adopt_def mirror_extend_def mirror_forget_def NewMirror_def)
  show "mi_cursor sample_mirror = log_cursor (sample_log 1)" by (rule i(3))
  show "mi_rows sample_mirror \<le> length (rows_of (fl_data (sample_log (k + 2))))" for k
    unfolding sample_history i(2) by simp
  fix rows e u v
  assume "u = sample_diverged \<or> (\<exists>added e' a. mirror_append memory_store sample_mirror added e' sample_diverged = (Some a, u))"
    and "v = u \<or> (\<exists>added e' a. mirror_append memory_store sample_mirror added e' u = (Some a, v))"
  then have "mh_calls v = mh_calls sample_diverged" using sample_calls by metis
  then show "fst (mirror_replace memory_store sample_mirror rows e v) = None"
    by (intro sample_replace i) (simp add: sample_diverged_def)
qed (simp_all add: source_File_def log_read sample_rows del: list.map add_2_eq_Suc add_2_eq_Suc')

section \<open>Hydrating\<close>

text \<open>C24: Hydrating reconciles three copies of a session's history.  When the store store_holds exactly the
  rows and the configuration given, a hydration that succeeds returns rows that extend the stored
  ones, and then the store and the mirror hold exactly those rows and the native file, which ends on
  a line boundary, reads as them, with the cursor at its end.  When the file had to be rewritten
  from the store, which the report says, it reads as the rows the way a JSONL read gives them: without
  the space around a row and without rows of nothing but space, so exactly as stored when the stored
  rows have neither.  A hydration that fails leaves the store's sessions as they were.\<close>

theorem hydrate_reconciles:
  fixes store :: "('w, 'e) SessionStore" and m :: "'p Mirror"
  assumes "session_store store valid phase" and "valid w" and "file_ok f"
    and "store_holds (phase w (mi_sessionID m)) stored encoded"
  shows "case mirror_Hydrate store identity name f stored (Inr encoded) validate m w of
      (Inl (err :: ('e, 'd, 'f) mirror_error), report, m', g, v) \<Rightarrow> valid v \<and> phase v = phase w
    | (Inr rows, report, m', g, v) \<Rightarrow> valid v \<and> take (length stored) rows = stored \<and>
        mirrors m' rows encoded \<and> store_holds (phase v (mi_sessionID m)) rows encoded \<and>
        file_whole g \<and> file_rows g = (if hr_Rewritten report then trimmed_rows rows else rows) \<and> mi_cursor m' = file_cursor g"
proof -
  obtain settled_on :: "('e, 'd, 'f) mirror_error + string list \<times> bool \<times> 'p Tail" and report :: "'e HydrateReport" and g
    where h: "hydrate_rows f stored validate = (settled_on, report, g)" by (metis prod_cases3)
  let ?m = "mirror_adopt stored encoded zero_cursor m"
  have m: "mirrors ?m stored encoded" "mi_sessionID ?m = mi_sessionID m" "mi_committed ?m"
    using mirrors_adopt[of stored encoded zero_cursor m] by (auto simp: mirrors_def)
  show ?thesis
  proof (cases settled_on)
    case (Inl err)
    with h assms(2) show ?thesis by (simp add: mirror_Hydrate_def)
  next
    case (Inr settled_rows)
    obtain rows wins native where r: "settled_rows = (rows, wins, native)" by (metis prod_cases3)
    note h = h[unfolded Inr r]
    note s = hydrate_rows_settles[OF assms(3) h] and kept = hydrate_rows_report[OF h]
    show ?thesis
    proof (cases wins)
      case True
      then have rows: "rows = file_rows g" "take (length stored) rows = stored" using s(3) by auto
      show ?thesis
      proof (cases "length rows > length stored")
        case long: True
        let ?tail = "native\<lparr>tl_Rows := rows\<rparr>"
        have settled: "session_store.settled valid phase w ?m (tl_Rows ?tail) encoded (tl_Next ?tail)
            (commitFull store None ?tail encoded ?m w :: (('e, 'd, 'f) mirror_error + 'e CommitReport) \<times> 'p Mirror \<times> 'w)"
          using m assms(4) rows(2) by (intro session_store.settled_commitFull[OF assms(1,2)]) auto
        obtain out :: "('e, 'd, 'f) mirror_error + 'e CommitReport" and m' v where c: "commitFull store None ?tail encoded ?m w = (out, m', v)" by (metis prod_cases3)
        show ?thesis
        proof (cases out)
          case (Inl err)
          with settled c h True long show ?thesis
            by (simp add: mirror_Hydrate_def session_store.settled_def[OF assms(1)] Let_def)
        next
          case (Inr commit)
          with settled c m(2) have "mirrors m' rows encoded" "valid v" "store_holds (phase v (mi_sessionID m)) rows encoded"
            by (simp_all add: session_store.settled_def[OF assms(1)])
          with Inr c h True long rows s(1,2) kept show ?thesis
            by (simp add: mirror_Hydrate_def Let_def file_tail_next mirrors_def)
        qed
      next
        case False
        then have "rows = stored" using rows(2) by simp
        with False h True rows s(1,2) kept m assms(2,4) show ?thesis
          by (simp add: mirror_Hydrate_def Let_def file_tail_next mirrors_def)
      qed
    next
      case False
      then have rows: "rows = stored" "rows \<noteq> []" using s(3) by auto
      obtain out :: "jsonl_error + 'p Cursor" and k where w: "WriteJSONL identity name rows g = (out, k)" by (metis surj_pair)
      show ?thesis
      proof (cases out)
        case (Inl err)
        with w h False assms(2) show ?thesis by (simp add: mirror_Hydrate_def Let_def)
      next
        case (Inr c)
        have "file_whole k \<and> file_rows k = trimmed_rows rows \<and> c = file_cursor k"
          by (rule written_file[OF w[unfolded Inr] rows(2)])
        with Inr w h False rows m assms(2,4) show ?thesis
          by (simp add: mirror_Hydrate_def Let_def mirrors_def)
      qed
    qed
  qed
qed

text \<open>A native file torn in its second row, and a store that holds the first.\<close>

theorem hydrate_reconciles_witness:
  "case mirror_Hydrate memory_store 8 ''native'' (Some \<lparr>fl_id = 7, fl_regular = True, fl_name = ''native'', fl_data = ''{}'' @ [newline] @ ''{''\<rparr>)
      [''{}''] (Inr ''{}'' :: nat + string) None (NewMirror ''s'' :: nat Mirror) sample_stored of
      (Inl (err :: (store_error, nat, nat) mirror_error), report, m', g, v) \<Rightarrow> store_wf (mh_store v) \<and>
        memory_phase (mh_store v) = memory_phase (mh_store sample_stored)
    | (Inr rows, report, m', g, v) \<Rightarrow> store_wf (mh_store v) \<and> take (length [''{}'']) rows = [''{}''] \<and>
        mirrors m' rows ''{}'' \<and> store_holds (memory_phase (mh_store v) (mi_sessionID (NewMirror ''s'' :: nat Mirror))) rows ''{}'' \<and>
        file_whole g \<and> file_rows g = (if hr_Rewritten report then trimmed_rows rows else rows) \<and> mi_cursor m' = file_cursor g"
proof (rule hydrate_reconciles[OF memory.session_store_axioms])
  show "store_wf (mh_store sample_stored)" by (rule sample_stored_holds(2))
  show "store_holds (memory_phase (mh_store sample_stored) (mi_sessionID (NewMirror ''s'' :: nat Mirror))) [''{}''] ''{}''"
    using sample_stored_holds(1) by (simp add: NewMirror_def)
qed (simp add: file_ok_def)

end
