(* ===== verification/Environment.thy ===== *)
theory Environment
  imports Store Bytes
begin

text \<open>
  process/environment.go on a Unix system: the layers of a child's environment, and finding its
  executable.  A Go map is an association list with distinct keys.  The file system a search looks
  at is the parameter \<open>stat\<close>, and \<open>cwd\<close> is the working directory.
\<close>

section \<open>Splitting and joining\<close>

text \<open>\<open>strings.Split\<close> and \<open>strings.Join\<close> with a one-byte separator, and \<open>strings.Cut\<close>.\<close>

function split_on :: "char \<Rightarrow> string \<Rightarrow> string list" where
  "split_on sep s =
     (if sep \<in> set s then takeWhile (\<lambda>c. c \<noteq> sep) s # split_on sep (drop 1 (dropWhile (\<lambda>c. c \<noteq> sep) s)) else [s])"
  by pat_completeness auto
termination
proof (relation "measure (\<lambda>(sep, s). length s)")
  fix sep :: char and s
  assume "sep \<in> set s"
  then show "((sep, drop 1 (dropWhile (\<lambda>c. c \<noteq> sep) s)), (sep, s)) \<in> measure (\<lambda>(sep, s). length s)"
    using length_dropWhile_le[of "\<lambda>c. c \<noteq> sep" s] by (cases s) (auto simp: le_imp_less_Suc)
qed simp

declare split_on.simps [simp del]

fun join_with :: "char \<Rightarrow> string list \<Rightarrow> string" where
  "join_with sep [] = []"
| "join_with sep [p] = p"
| "join_with sep (p # q # ps) = p @ sep # join_with sep (q # ps)"

definition cut_at :: "char \<Rightarrow> string \<Rightarrow> (string \<times> string) option" where
  "cut_at sep s = (if sep \<in> set s then Some (takeWhile (\<lambda>c. c \<noteq> sep) s, drop 1 (dropWhile (\<lambda>c. c \<noteq> sep) s)) else None)"

definition nul :: char where "nul = char_of (0 :: nat)"

section \<open>Validation\<close>

type_synonym env_map = "(string \<times> string) list"

record Environment =
  en_Process :: "string list"
  en_Agent :: env_map
  en_Session :: env_map
  en_Owned :: env_map
  en_InternalPrefix :: string
  en_ExtraPathDirs :: "string list"

datatype env_error = NameError string | PathDirError nat string

definition validName :: "string \<Rightarrow> bool" where
  "validName key \<longleftrightarrow> key \<noteq> [] \<and> CHR ''='' \<notin> set key \<and> nul \<notin> set key"

definition value_of :: "env_map \<Rightarrow> string \<Rightarrow> string" where
  "value_of env key = (case map_of env key of None \<Rightarrow> [] | Some v \<Rightarrow> v)"

definition sorted_keys :: "env_map \<Rightarrow> string list" where
  "sorted_keys env = sort (map fst env)"

definition ValidateNames :: "env_map \<Rightarrow> env_error option" where
  "ValidateNames env =
     map_option NameError (find (\<lambda>key. \<not> validName key \<or> nul \<in> set (value_of env key)) (sorted_keys env))"

definition is_abs :: "string \<Rightarrow> bool" where
  "is_abs path \<longleftrightarrow> take 1 path = ''/''"

definition list_separator :: char where "list_separator = CHR '':''"

definition ValidateOptionalAbsolutePath :: "string \<Rightarrow> bool" where
  "ValidateOptionalAbsolutePath path \<longleftrightarrow> path = [] \<or> is_abs path"

definition ValidateExtraPathDirs :: "string list \<Rightarrow> env_error option" where
  "ValidateExtraPathDirs dirs =
     map_option (\<lambda>index. PathDirError index (dirs ! index))
       (find (\<lambda>index. dirs ! index = [] \<or> \<not> is_abs (dirs ! index) \<or> list_separator \<in> set (dirs ! index)) [0..<length dirs])"

section \<open>Building\<close>

definition composePath :: "string list \<Rightarrow> string \<Rightarrow> string" where
  "composePath dirs base = join_with list_separator (dirs @ filter (\<lambda>c. c \<noteq> []) (split_on list_separator base))"

definition environment_parse :: "string list \<Rightarrow> env_map" where
  "environment_parse entries =
     fold (\<lambda>entry vars. case cut_at (CHR ''='') entry of
       None \<Rightarrow> vars | Some (key, v) \<Rightarrow> if key \<noteq> [] then AList.update key v vars else vars) entries []"

definition overlay :: "env_map \<Rightarrow> env_map \<Rightarrow> env_map" where
  "overlay layer vars = fold (\<lambda>key vars. AList.update key (value_of layer key) vars) (sorted_keys layer) vars"

definition has_prefix :: "string \<Rightarrow> string \<Rightarrow> bool" where
  "has_prefix s prefix \<longleftrightarrow> take (length prefix) s = prefix"

definition drop_internal :: "string \<Rightarrow> env_map \<Rightarrow> env_map" where
  "drop_internal prefix vars =
     (if prefix \<noteq> [] then filter (\<lambda>(key, v). \<not> has_prefix key prefix) vars else vars)"

definition environment_list :: "env_map \<Rightarrow> string list" where
  "environment_list vars = map (\<lambda>key. key @ ''='' @ value_of vars key) (sorted_keys vars)"

definition with_path :: "string list \<Rightarrow> env_map \<Rightarrow> env_map" where
  "with_path dirs vars =
     (if map_of vars ''PATH'' \<noteq> None \<or> dirs \<noteq> [] then AList.update ''PATH'' (composePath dirs (value_of vars ''PATH'')) vars
      else vars)"

definition Build :: "Environment \<Rightarrow> env_error + string list" where
  "Build e =
     (case ValidateNames (en_Agent e) of
        Some err \<Rightarrow> Inl err
      | None \<Rightarrow>
          (case ValidateNames (en_Session e) of
             Some err \<Rightarrow> Inl err
           | None \<Rightarrow>
               (case ValidateNames (en_Owned e) of
                  Some err \<Rightarrow> Inl err
                | None \<Rightarrow>
                    (case ValidateExtraPathDirs (en_ExtraPathDirs e) of
                       Some err \<Rightarrow> Inl err
                     | None \<Rightarrow>
                         (let vars = environment_parse (en_Process e);
                              vars = overlay (en_Session e) (overlay (en_Agent e) vars);
                              vars = overlay (en_Owned e) (drop_internal (en_InternalPrefix e) vars)
                          in Inr (environment_list (with_path (en_ExtraPathDirs e) vars)))))))"

definition Base :: "Environment \<Rightarrow> env_error + string list" where
  "Base e = Build \<lparr>en_Process = en_Process e, en_Agent = en_Agent e, en_Session = [], en_Owned = [],
     en_InternalPrefix = en_InternalPrefix e, en_ExtraPathDirs = []\<rparr>"

definition env_Lookup :: "string list \<Rightarrow> string \<Rightarrow> string option" where
  "env_Lookup env key = map_of (environment_parse env) key"

section \<open>Finding the executable\<close>

text \<open>\<open>filepath.Clean\<close>, \<open>filepath.Join\<close> and \<open>filepath.Abs\<close>.\<close>

definition clean_step :: "bool \<Rightarrow> string \<Rightarrow> string list \<Rightarrow> string list" where
  "clean_step rooted part parts =
     (if part = [] \<or> part = ''.'' then parts
      else if part = ''..'' then
        if parts \<noteq> [] \<and> last parts \<noteq> ''..'' then butlast parts
        else if rooted then parts else parts @ [part]
      else parts @ [part])"

definition path_clean :: "string \<Rightarrow> string" where
  "path_clean path =
     (let parts = fold (clean_step (is_abs path)) (split_on (CHR ''/'') path) [];
          text = join_with (CHR ''/'') parts
      in if is_abs path then CHR ''/'' # text else if text = [] then ''.'' else text)"

definition path_join :: "string \<Rightarrow> string \<Rightarrow> string" where
  "path_join a b =
     (case filter (\<lambda>p. p \<noteq> []) [a, b] of [] \<Rightarrow> [] | ps \<Rightarrow> path_clean (join_with (CHR ''/'') ps))"

definition path_abs :: "string \<Rightarrow> string \<Rightarrow> string" where
  "path_abs cwd path = (if is_abs path then path_clean path else path_join cwd path)"

datatype stat_error = NotExist | StatFailed string

record file_info =
  fi_dir :: bool
  fi_mode :: "32 word"

datatype resolve_error =
    ExecutableEmpty
  | ExecutableNotFound string
  | PathEmpty string
  | ResolveStat stat_error

type_synonym stat = "string \<Rightarrow> stat_error + file_info"

definition candidate :: "stat \<Rightarrow> string \<Rightarrow> resolve_error + string" where
  "candidate stat path =
     (case stat path of
        Inl e \<Rightarrow> Inl (ResolveStat e)
      | Inr info \<Rightarrow> if fi_dir info \<or> and (fi_mode info) 73 = 0 then Inl (ExecutableNotFound path) else Inr path)"

fun search_path :: "stat \<Rightarrow> string \<Rightarrow> string \<Rightarrow> string list \<Rightarrow> resolve_error + string" where
  "search_path stat cwd path [] = Inl (ExecutableNotFound path)"
| "search_path stat cwd path (directory # rest) =
     (case candidate stat (path_abs cwd (path_join (if directory = [] then ''.'' else directory) path)) of
        Inr resolved \<Rightarrow> Inr resolved
      | Inl (ResolveStat NotExist) \<Rightarrow> search_path stat cwd path rest
      | Inl (ExecutableNotFound p) \<Rightarrow> search_path stat cwd path rest
      | Inl e \<Rightarrow> Inl e)"

definition ResolveExecutable :: "stat \<Rightarrow> string \<Rightarrow> string \<Rightarrow> string list \<Rightarrow> resolve_error + string" where
  "ResolveExecutable stat cwd path env =
     (if TrimSpace path = [] then Inl ExecutableEmpty
      else if CHR ''/'' \<in> set path then candidate stat (path_abs cwd path)
      else (let search = (case env_Lookup env ''PATH'' of None \<Rightarrow> [] | Some v \<Rightarrow> v)
            in if search = [] then Inl (PathEmpty path)
               else search_path stat cwd path (split_on list_separator search)))"

section \<open>What a name reads in each layer\<close>

lemma value_of_Some [simp]: "map_of env key = Some v \<Longrightarrow> value_of env key = v"
  by (simp add: value_of_def)












section \<open>The environment a child receives\<close>







end
