(* ===== verification/Transport.thy ===== *)
theory Transport
  imports Json Vocabulary Bytes
begin

text \<open>
  wire/transport.go and actions.go.  A line is what \<open>decode\<close> finds in it: \<open>json.Unmarshal\<close> into a
  frame's head and its params, a parameter of the operations that read text (\<open>None\<close> for a line that
  is not JSON).  The id keeps its text as it arrived.  A channel is a number; it is closed when it is
  in \<open>tr_closed\<close>.  \<open>'h\<close> is the type of the publications the hooks stand for.
\<close>

section \<open>Frames\<close>

definition AgentMethodInitialize :: string where "AgentMethodInitialize = ''initialize''"
definition AgentMethodSessionNew :: string where "AgentMethodSessionNew = ''session/new''"
definition AgentMethodSessionLoad :: string where "AgentMethodSessionLoad = ''session/load''"
definition AgentMethodSessionResume :: string where "AgentMethodSessionResume = ''session/resume''"
definition AgentMethodSessionPrompt :: string where "AgentMethodSessionPrompt = ''session/prompt''"
definition ClientMethodSessionRequestPermission :: string where
  "ClientMethodSessionRequestPermission = ''session/request_permission''"
definition ClientMethodElicitationCreate :: string where "ClientMethodElicitationCreate = ''elicitation/create''"

lemmas method_names = AgentMethodInitialize_def AgentMethodSessionNew_def AgentMethodSessionLoad_def
  AgentMethodSessionResume_def AgentMethodSessionPrompt_def ClientMethodSessionRequestPermission_def
  ClientMethodElicitationCreate_def

record frameHead =
  fh_ID :: string
  fh_Method :: string
  fh_Error :: string
  fh_SessionID :: string
  fh_Params :: "json option"

type_synonym decode = "string \<Rightarrow> frameHead option"

text \<open>\<open>json.Marshal\<close> of a raw message: its text compacted outside strings, with HTML characters
  escaped.\<close>

definition html_escape :: "char \<Rightarrow> string" where
  "html_escape c =
     (if c = CHR ''<'' then backslash # ''u003c'' else if c = CHR ''>'' then backslash # ''u003e''
      else if c = CHR ''&'' then backslash # ''u0026'' else [c])"

definition separator_escape :: "string \<Rightarrow> string option" where
  "separator_escape s =
     (if map of_char (take 3 s) = [226, 128, 168 :: nat] then Some (backslash # ''u2028'')
      else if map of_char (take 3 s) = [226, 128, 169 :: nat] then Some (backslash # ''u2029'') else None)"

function canonical_text :: "bool \<Rightarrow> string \<Rightarrow> string" where
  "canonical_text quoted [] = []"
| "canonical_text quoted (c # s) =
     (if \<not> quoted \<and> json_space c then canonical_text quoted s
      else if c = quote then c # canonical_text (\<not> quoted) s
      else if quoted \<and> c = backslash then c # take 1 s @ canonical_text quoted (drop 1 s)
      else (case separator_escape (c # s) of
              Some e \<Rightarrow> e @ canonical_text quoted (drop 2 s)
            | None \<Rightarrow> html_escape c @ canonical_text quoted s))"
  by pat_completeness auto
termination by (relation "measure (\<lambda>(quoted, s). length s)") auto

declare canonical_text.simps [simp del]

definition frameID :: "string \<Rightarrow> string" where
  "frameID raw = canonical_text False raw"

section \<open>State\<close>

record inboundRequest =
  iq_method :: string
  iq_sessionID :: string

record rawParams =
  rq_id :: string
  rq_params :: "json option"

record 'h openingPublication =
  op_sessionID :: string
  op_hook :: 'h
  op_ready :: nat
  op_previous :: "nat option"

record actionWriteKey =
  ak_streamID :: string
  ak_actionID :: string

record 'h Transport =
  tr_requests :: "string \<rightharpoonup> inboundRequest"
  tr_raw :: "string \<Rightarrow> rawParams list"
  tr_hooks :: "string \<rightharpoonup> 'h openingPublication"
  tr_ready :: "string \<rightharpoonup> nat"
  tr_written :: "actionWriteKey \<rightharpoonup> nat"
  tr_requestKey :: string
  tr_partial :: string
  tr_fresh :: nat
  tr_closed :: "nat set"

definition NewTransport :: "string \<Rightarrow> 'h Transport" where
  "NewTransport requestKey = \<lparr>tr_requests = Map.empty, tr_raw = (\<lambda>key. []), tr_hooks = Map.empty, tr_ready = Map.empty,
     tr_written = Map.empty, tr_requestKey = requestKey, tr_partial = [], tr_fresh = 0, tr_closed = {}\<rparr>"

section \<open>Inbound\<close>

definition rawKeyPrompt :: "string \<Rightarrow> string" where
  "rawKeyPrompt sessionID = ''prompt/'' @ sessionID"

definition observeInbound :: "frameHead \<Rightarrow> 'h Transport \<Rightarrow> 'h Transport" where
  "observeInbound head t =
     (let rid = frameID (fh_ID head);
          t = t\<lparr>tr_requests := (tr_requests t)(rid \<mapsto> \<lparr>iq_method = fh_Method head, iq_sessionID = fh_SessionID head\<rparr>)\<rparr>;
          keep = (\<lambda>key. t\<lparr>tr_raw := (tr_raw t)(key := tr_raw t key @ [\<lparr>rq_id = rid, rq_params = fh_Params head\<rparr>])\<rparr>)
      in if fh_Method head = AgentMethodInitialize then keep AgentMethodInitialize
         else if fh_Method head = AgentMethodSessionPrompt then keep (rawKeyPrompt (fh_SessionID head))
         else t)"

definition establishing :: "string \<Rightarrow> bool" where
  "establishing m \<longleftrightarrow> m \<in> {AgentMethodSessionNew, AgentMethodSessionLoad, AgentMethodSessionResume}"

text \<open>The members of an object as a Go map: the last of two with one name.\<close>

definition with_member :: "string \<Rightarrow> json \<Rightarrow> members \<Rightarrow> members" where
  "with_member k v ms = filter (\<lambda>m. fst m \<noteq> k) ms @ [(k, v)]"

definition bindInbound :: "frameHead \<Rightarrow> 'h Transport \<Rightarrow> frameHead" where
  "bindInbound head t =
     (if \<not> establishing (fh_Method head) then head
      else case fh_Params head of
             Some (JObj n params) \<Rightarrow>
               (let bound = (\<lambda>meta. head\<lparr>fh_Params := Some (json_obj (with_member ''_meta''
                    (json_obj (with_member (tr_requestKey t) (json_str (fh_ID head)) (spliced meta))) (spliced params)))\<rparr>)
                in case lookup params ''_meta'' of
                     None \<Rightarrow> bound []
                   | Some JNull \<Rightarrow> bound []
                   | Some (JObj m meta) \<Rightarrow> bound meta
                   | _ \<Rightarrow> head)
           | _ \<Rightarrow> head)"

text \<open>What the SDK reads for one line: the line itself, or the bound frame.\<close>

definition inbound :: "decode \<Rightarrow> string \<Rightarrow> 'h Transport \<Rightarrow> (string + frameHead) \<times> 'h Transport" where
  "inbound decode line t =
     (case decode line of
        None \<Rightarrow> (Inl line, t)
      | Some head \<Rightarrow>
          if fh_Method head = [] \<or> fh_ID head = [] then (Inl line, t)
          else (let t = observeInbound head t; bound = bindInbound head t
                in (if bound = head then Inl line else Inr bound, t)))"

text \<open>The marker leaves the decoded metadata; its string is the request's identity.\<close>

definition RequestContext :: "members \<Rightarrow> 'h Transport \<Rightarrow> string option \<times> members" where
  "RequestContext meta t =
     (case lookup meta (tr_requestKey t) of Some (JStr rid) \<Rightarrow> Some rid | _ \<Rightarrow> None,
      filter (\<lambda>m. fst m \<noteq> tr_requestKey t) meta)"

section \<open>Raw params\<close>

definition TakeRaw :: "string \<Rightarrow> 'h Transport \<Rightarrow> json option \<times> 'h Transport" where
  "TakeRaw key t =
     (case tr_raw t key of
        [] \<Rightarrow> (None, t)
      | raw # rest \<Rightarrow> (rq_params raw, t\<lparr>tr_raw := (tr_raw t)(key := rest)\<rparr>))"

text \<open>Decoding into \<open>any\<close> and encoding again; \<open>number\<close> is what becomes of a number's lexeme as a
  \<open>float64\<close>.\<close>

fun recoded :: "(string \<Rightarrow> string) \<Rightarrow> json \<Rightarrow> json" where
  "recoded number JNull = JNull"
| "recoded number (JBool b) = JBool b"
| "recoded number (JNum l) = JNum (number l)"
| "recoded number (JStr s) = json_str s"
| "recoded number (JArr vs) = JArr (map (recoded number) vs)"
| "recoded number (JObj n ms) =
     JObj (0, 0) (sort_key fst (fold (\<lambda>m acc. with_member (fst m) (snd m) acc) (map (\<lambda>m. (fst m, recoded number (snd m))) ms) []))"

definition sameJSON :: "(string \<Rightarrow> string) \<Rightarrow> json option \<Rightarrow> json option \<Rightarrow> bool" where
  "sameJSON number left right \<longleftrightarrow>
     recoded number (case left of None \<Rightarrow> JNull | Some v \<Rightarrow> v) = recoded number (case right of None \<Rightarrow> JNull | Some v \<Rightarrow> v)"

definition lifecycle_member :: "json option \<Rightarrow> json option" where
  "lifecycle_member params =
     (case params of
        Some (JObj n ms) \<Rightarrow> (case lookup ms ''_meta'' of Some (JObj m meta) \<Rightarrow> lookup meta MetaKey | _ \<Rightarrow> None)
      | _ \<Rightarrow> None)"

definition take_first :: "('a \<Rightarrow> bool) \<Rightarrow> 'a list \<Rightarrow> ('a \<times> 'a list) option" where
  "take_first P queue =
     (case find (\<lambda>i. P (queue ! i)) [0..<length queue] of
        None \<Rightarrow> None
      | Some i \<Rightarrow> Some (queue ! i, take i queue @ drop (Suc i) queue))"

definition TakeRawPrompt :: "(string \<Rightarrow> string) \<Rightarrow> string \<Rightarrow> members \<Rightarrow> 'h Transport \<Rightarrow> json option \<times> 'h Transport" where
  "TakeRawPrompt number sessionID meta t =
     (let key = rawKeyPrompt sessionID
      in case take_first (\<lambda>raw. sameJSON number (lifecycle_member (rq_params raw)) (lookup meta MetaKey)) (tr_raw t key) of
           None \<Rightarrow> (None, t)
         | Some (raw, rest) \<Rightarrow> (rq_params raw, t\<lparr>tr_raw := (tr_raw t)(key := rest)\<rparr>))"

definition dropRaw :: "string \<Rightarrow> string \<Rightarrow> 'h Transport \<Rightarrow> 'h Transport" where
  "dropRaw key rid t =
     (case take_first (\<lambda>raw. rq_id raw = rid) (tr_raw t key) of
        None \<Rightarrow> t
      | Some (raw, rest) \<Rightarrow> t\<lparr>tr_raw := (tr_raw t)(key := rest)\<rparr>)"

section \<open>Opening publications\<close>

definition RegisterHook :: "string option \<Rightarrow> string \<Rightarrow> 'h \<Rightarrow> 'h Transport \<Rightarrow> string option \<times> 'h Transport" where
  "RegisterHook ctx sessionID hook t =
     (let rid = (case ctx of None \<Rightarrow> [] | Some rid \<Rightarrow> rid);
          refused = (Some ''opening publication has no establishing request'', t)
      in case tr_requests t rid of
           None \<Rightarrow> refused
         | Some request \<Rightarrow>
             if \<not> establishing (iq_method request) \<or>
                 iq_method request \<noteq> AgentMethodSessionNew \<and> iq_sessionID request \<noteq> sessionID then refused
             else (case tr_hooks t rid of
                     Some pending \<Rightarrow> (None, t\<lparr>tr_hooks := (tr_hooks t)(rid \<mapsto> pending\<lparr>op_hook := hook\<rparr>)\<rparr>)
                   | None \<Rightarrow>
                       (let publication = \<lparr>op_sessionID = sessionID, op_hook = hook, op_ready = tr_fresh t,
                              op_previous = tr_ready t sessionID\<rparr>
                        in (None, t\<lparr>tr_ready := (tr_ready t)(sessionID \<mapsto> op_ready publication),
                              tr_hooks := (tr_hooks t)(rid \<mapsto> publication), tr_fresh := Suc (tr_fresh t)\<rparr>))))"

text \<open>What \<open>publishOpening\<close> does when it is over.\<close>

definition publication_over :: "'h openingPublication \<Rightarrow> 'h Transport \<Rightarrow> 'h Transport" where
  "publication_over p t =
     t\<lparr>tr_ready := (if tr_ready t (op_sessionID p) = Some (op_ready p) then (tr_ready t)(op_sessionID p := None) else tr_ready t),
       tr_closed := insert (op_ready p) (tr_closed t)\<rparr>"

definition previous_over :: "'h openingPublication \<Rightarrow> 'h Transport \<Rightarrow> bool" where
  "previous_over p t \<longleftrightarrow> (case op_previous p of None \<Rightarrow> True | Some c \<Rightarrow> c \<in> tr_closed t)"

text \<open>\<open>AwaitSession\<close> has nothing to wait for.\<close>

definition AwaitSession :: "string \<Rightarrow> 'h Transport \<Rightarrow> bool" where
  "AwaitSession sessionID t \<longleftrightarrow> tr_ready t sessionID = None"

section \<open>Action announcements\<close>

definition json_text :: "json option \<Rightarrow> string" where
  "json_text v = (case v of Some (JStr s) \<Rightarrow> s | _ \<Rightarrow> [])"

definition json_member :: "json option \<Rightarrow> string \<Rightarrow> json option" where
  "json_member v k = (case v of Some (JObj n ms) \<Rightarrow> lookup ms k | _ \<Rightarrow> None)"

definition actionKey :: "members \<Rightarrow> actionWriteKey" where
  "actionKey meta =
     (let correlation = lookup meta MetaKey; action = json_member correlation ''action''
      in \<lparr>ak_streamID = json_text (json_member correlation ''streamId''), ak_actionID = json_text (json_member action ''actionId'')\<rparr>)"

definition awaitRequestWrite :: "members \<Rightarrow> 'h Transport \<Rightarrow> nat \<times> 'h Transport" where
  "awaitRequestWrite meta t =
     (tr_fresh t, t\<lparr>tr_written := (tr_written t)(actionKey meta \<mapsto> tr_fresh t), tr_fresh := Suc (tr_fresh t)\<rparr>)"

text \<open>The function \<open>awaitRequestWrite\<close> returns for the channel \<open>ch\<close>.\<close>

definition stop_waiting :: "members \<Rightarrow> nat \<Rightarrow> 'h Transport \<Rightarrow> 'h Transport" where
  "stop_waiting meta ch t =
     (if tr_written t (actionKey meta) = Some ch then t\<lparr>tr_written := (tr_written t)(actionKey meta := None)\<rparr> else t)"

definition releaseRequestWrite :: "json option \<Rightarrow> 'h Transport \<Rightarrow> 'h Transport" where
  "releaseRequestWrite params t =
     (let meta = (case json_member params ''_meta'' of Some (JObj n ms) \<Rightarrow> ms | _ \<Rightarrow> []); key = actionKey meta
      in if ak_streamID key = [] \<or> ak_actionID key = [] then t
         else case tr_written t key of
                None \<Rightarrow> t
              | Some ch \<Rightarrow> t\<lparr>tr_written := (tr_written t)(key := None), tr_closed := insert ch (tr_closed t)\<rparr>)"

section \<open>Outbound\<close>

text \<open>A write is cut into the complete frames it finishes.\<close>

definition complete_frames :: "string \<Rightarrow> string list \<times> string" where
  "complete_frames s = (map butlast (lines_of (take (complete_length s) s)), drop (complete_length s) s)"

definition observed_lines :: "string \<Rightarrow> 'h Transport \<Rightarrow> string list \<times> 'h Transport" where
  "observed_lines data t =
     (if tr_partial t = [] \<and> data \<noteq> [] \<and> last data = newline \<and> newline \<notin> set (butlast data) then ([butlast data], t)
      else (let (frames, rest) = complete_frames (tr_partial t @ data) in (frames, t\<lparr>tr_partial := rest\<rparr>)))"

text \<open>A frame's effect, and the publication it starts with whether the response was a success.\<close>

definition observeOutboundFrame :: "decode \<Rightarrow> string \<Rightarrow> 'h Transport \<Rightarrow> ('h openingPublication \<times> bool) option \<times> 'h Transport" where
  "observeOutboundFrame decode line t =
     (case decode line of
        None \<Rightarrow> (None, t)
      | Some head \<Rightarrow>
          if fh_Method head \<noteq> [] then
            (None, if fh_ID head \<noteq> [] \<and> (fh_Method head = ClientMethodSessionRequestPermission \<or>
                 fh_Method head = ClientMethodElicitationCreate) then releaseRequestWrite (fh_Params head) t else t)
          else if fh_ID head = [] then (None, t)
          else (let rid = frameID (fh_ID head)
                in case tr_requests t rid of
                     None \<Rightarrow> (None, t)
                   | Some request \<Rightarrow>
                       (let t = t\<lparr>tr_requests := (tr_requests t)(rid := None)\<rparr>;
                            t = (if iq_method request = AgentMethodInitialize then dropRaw AgentMethodInitialize rid t
                                 else if iq_method request = AgentMethodSessionPrompt then dropRaw (rawKeyPrompt (iq_sessionID request)) rid t
                                 else t)
                        in (map_option (\<lambda>p. (p, fh_Error head = [])) (tr_hooks t rid), t\<lparr>tr_hooks := (tr_hooks t)(rid := None)\<rparr>))))"

section \<open>Reading bounded lines\<close>

definition maxInboundLine :: nat where "maxInboundLine = 10 * 1024 * 1024"

record line_input =
  li_rest :: string
  li_pending :: string
  li_refused :: bool

datatype read_end = ReadOk | ReadEOF | LineTooLong

text \<open>One frame, refused once it exceeds the bound; the input ends after \<open>li_rest\<close>.\<close>

definition transport_readLine :: "line_input \<Rightarrow> string \<times> read_end \<times> line_input" where
  "transport_readLine r =
     (let line = (case lines_of (li_rest r) of [] \<Rightarrow> [] | l # ls \<Rightarrow> l)
      in if length line > maxInboundLine then ([], LineTooLong, r\<lparr>li_refused := True\<rparr>)
         else (line, if newline \<in> set line then ReadOk else ReadEOF, r\<lparr>li_rest := drop (length line) (li_rest r)\<rparr>))"

text \<open>\<open>forward\<close> is what \<open>inbound\<close> hands on for a line.\<close>

definition transport_Read :: "(string \<Rightarrow> 't \<Rightarrow> string \<times> 't) \<Rightarrow> nat \<Rightarrow> line_input \<Rightarrow> 't \<Rightarrow> string \<times> read_end \<times> line_input \<times> 't" where
  "transport_Read forward room r t =
     (if li_refused r then ([], LineTooLong, r, t)
      else if li_pending r = [] then
        (case transport_readLine r of
           (line, e, r) \<Rightarrow>
             (let (line, t) = (if line \<noteq> [] then forward line t else (line, t))
              in if line = [] then ([], e, r\<lparr>li_pending := []\<rparr>, t)
                 else (take room line, ReadOk, r\<lparr>li_pending := drop room line\<rparr>, t)))
      else (take room (li_pending r), ReadOk, r\<lparr>li_pending := drop room (li_pending r)\<rparr>, t))"

end
