(* ===== verification/TransportProps.thy ===== *)
theory TransportProps
  imports Transport JsonlProps "HOL-Library.Sublist"
begin

text \<open>
  The transport's promises: what is observed of the output does not depend on how it is written.
\<close>

section \<open>Observing the output\<close>

lemma complete_frames_append:
  "complete_frames (s @ d) =
     (fst (complete_frames s) @ fst (complete_frames (snd (complete_frames s) @ d)), snd (complete_frames (snd (complete_frames s) @ d)))"
proof -
  let ?a = "take (complete_length s) s" and ?r = "drop (complete_length s) s @ d"
  have s: "s @ d = ?a @ ?r" by simp
  have a: "on_boundary ?a" "length ?a = complete_length s" using complete_prefix[of s] by simp_all
  have n: "complete_length (s @ d) = complete_length s + complete_length ?r"
    using complete_after(1)[OF a(1), of ?r] unfolding s[symmetric] a(2) .
  have "take (complete_length (s @ d)) (s @ d) = ?a @ take (complete_length ?r) ?r"
  proof -
    have "take (length x + k) (x @ y) = x @ take k y" for x y :: string and k by simp
    from this[of ?a "complete_length ?r" ?r] show ?thesis unfolding a(2) s[symmetric] n .
  qed
  moreover have "drop (complete_length (s @ d)) (s @ d) = drop (complete_length ?r) ?r"
    unfolding n using s a(2) by (metis add.commute append_eq_conv_conj drop_drop)
  ultimately show ?thesis by (simp add: complete_frames_def lines_of_append[OF a(1)])
qed

lemma complete_frames_one: "newline \<notin> set x \<Longrightarrow> complete_frames (x @ [newline]) = ([x], [])"
  using lines_of_line[of x "[]"] boundary_complete[of "x @ [newline]"]
  by (simp add: complete_frames_def on_boundary_def)

lemma observed_lines_frames:
  "fst (observed_lines data t) = fst (complete_frames (tr_partial t @ data)) \<and>
   tr_partial (snd (observed_lines data t)) = snd (complete_frames (tr_partial t @ data))"
proof (cases "tr_partial t = [] \<and> data \<noteq> [] \<and> last data = newline \<and> newline \<notin> set (butlast data)")
  case True
  then have "complete_frames data = ([butlast data], [])"
    using complete_frames_one[of "butlast data"] append_butlast_last_id[of data] by simp
  with True show ?thesis by (simp add: observed_lines_def)
next
  case False
  then have "observed_lines data t =
      (fst (complete_frames (tr_partial t @ data)), t\<lparr>tr_partial := snd (complete_frames (tr_partial t @ data))\<rparr>)"
    by (auto simp: observed_lines_def split: prod.split)
  then show ?thesis by simp
qed

fun observe_writes :: "string list \<Rightarrow> 'h Transport \<Rightarrow> string list \<times> 'h Transport" where
  "observe_writes [] t = ([], t)"
| "observe_writes (data # rest) t =
     (let (frames, t) = observed_lines data t; (more, t) = observe_writes rest t in (frames @ more, t))"

lemma writes_frames:
  "newline \<notin> set (tr_partial t) \<Longrightarrow>
   fst (observe_writes writes t) = fst (complete_frames (tr_partial t @ concat writes)) \<and>
   tr_partial (snd (observe_writes writes t)) = snd (complete_frames (tr_partial t @ concat writes))"
proof (induction writes arbitrary: t)
  case Nil
  then have "complete_length (tr_partial t) = 0"
    using complete_unique[of "tr_partial t" "[]" "tr_partial t"] by (simp add: on_boundary_def)
  then show ?case by (simp add: complete_frames_def)
next
  case (Cons data rest)
  obtain frames u where o: "observed_lines data t = (frames, u)" by (metis surj_pair)
  then have p: "frames = fst (complete_frames (tr_partial t @ data))" "tr_partial u = snd (complete_frames (tr_partial t @ data))"
    using observed_lines_frames[of data t] by simp_all
  then have "newline \<notin> set (tr_partial u)"
    using complete_prefix(2)[of "tr_partial t @ data"] by (simp add: complete_frames_def)
  moreover obtain more v where "observe_writes rest u = (more, v)" by (metis surj_pair)
  ultimately show ?case
    using Cons.IH[of u] o p complete_frames_append[of "tr_partial t @ data" "concat rest"] by simp
qed

text \<open>C26: The transport observes the same frames however the output is cut into writes: over any
  sequence of writes, the frames observed are the complete lines of the bytes written, each once and
  in order, and only an unfinished line is kept.\<close>

theorem observed_frames_are_the_output:
  "let t = (NewTransport key :: 'h Transport)
   in fst (observe_writes writes t) = fst (complete_frames (concat writes)) \<and>
      tr_partial (snd (observe_writes writes t)) = snd (complete_frames (concat writes))"
  using writes_frames[of "NewTransport key :: 'h Transport" writes] by (simp add: Let_def NewTransport_def)

section \<open>The identity of an establishing request\<close>

text \<open>The metadata a bound frame carries, as its handler reads it.\<close>

definition handler_meta :: "frameHead \<Rightarrow> members" where
  "handler_meta head = (case json_member (fh_Params head) ''_meta'' of Some (JObj n ms) \<Rightarrow> ms | _ \<Rightarrow> [])"

text \<open>A session/new whose id is the string \<open>a<b\<close>: requests are kept under the canonical text of
  the id, which escapes the sign, and the marker carries the text that arrived.\<close>

definition establish :: "string \<Rightarrow> frameHead" where
  "establish rid = \<lparr>fh_ID = rid, fh_Method = AgentMethodSessionNew, fh_Error = [], fh_SessionID = [], fh_Params = Some (json_obj [])\<rparr>"

definition registration :: "string \<Rightarrow> string option" where
  "registration rid =
     (let t = observeInbound (establish rid) (NewTransport ''key'' :: unit Transport)
      in fst (RegisterHook (fst (RequestContext (handler_meta (bindInbound (establish rid) t)) t)) ''session'' () t))"

lemma canonical_ids:
  "frameID (quote # ''a'' @ [quote]) = quote # ''a'' @ [quote]"
  "frameID (quote # ''a<b'' @ [quote]) = quote # ''a'' @ backslash # ''u003cb'' @ [quote]"
  by (simp_all add: frameID_def canonical_text.simps html_escape_def separator_escape_def json_space_def quote_def backslash_def)

lemma registration_decided:
  assumes "ascii rid"
  shows "registration rid = (if frameID rid = rid then None else Some ''opening publication has no establishing request'')"
  using coerce_utf8_valid[OF ascii_valid_utf8[OF assms]]
  by (simp add: registration_def establish_def handler_meta_def observeInbound_def bindInbound_def NewTransport_def
      RequestContext_def RegisterHook_def method_names establishing_def json_member_def
      with_member_def lookup_def json_str_def json_obj_def spliced_def Let_def)

theorem escaped_request_id_unbound:
  "registration (quote # ''a'' @ [quote]) = None \<and>
   registration (quote # ''a<b'' @ [quote]) = Some ''opening publication has no establishing request''"
  using registration_decided[of "quote # ''a'' @ [quote]"] registration_decided[of "quote # ''a<b'' @ [quote]"] canonical_ids
  by (simp add: ascii_def quote_def backslash_def)

end
