(* ===== verification/Openings.thy ===== *)
theory Openings
  imports TransportProps
begin

text \<open>
  The transport with its goroutines: a session's opening publications start only after their own
  responses are written and after every earlier one of the session is over.
\<close>

section \<open>Opening publications\<close>

text \<open>The transport with the goroutines it has started.  A task runs once the publication before it
  is over, or gives up when the transport is closed; its hook may run between those two moments.  The
  trace records what happened.\<close>

datatype phase = Waiting | Running

record 'h task =
  tk_pub :: "'h openingPublication"
  tk_success :: bool
  tk_phase :: phase

datatype event = Registered string nat string | Answered string bool | Opened string nat | Ended string nat

record 'h conn =
  cn_transport :: "'h Transport"
  cn_tasks :: "'h task list"
  cn_done :: bool
  cn_trace :: "event list"

definition NewConn :: "string \<Rightarrow> 'h conn" where
  "NewConn key = \<lparr>cn_transport = NewTransport key, cn_tasks = [], cn_done = False, cn_trace = []\<rparr>"

definition remove_at :: "nat \<Rightarrow> 'a list \<Rightarrow> 'a list" where
  "remove_at i xs = take i xs @ drop (Suc i) xs"

definition over :: "nat \<Rightarrow> 'h conn \<Rightarrow> 'h conn" where
  "over i c =
     (let p = tk_pub (cn_tasks c ! i)
      in c\<lparr>cn_transport := publication_over p (cn_transport c), cn_tasks := remove_at i (cn_tasks c),
           cn_trace := cn_trace c @ [Ended (op_sessionID p) (op_ready p)]\<rparr>)"

inductive conn_step :: "decode \<Rightarrow> 'h conn \<Rightarrow> 'h conn \<Rightarrow> bool" for decode where
  read: "conn_step decode c (c\<lparr>cn_transport := snd (inbound decode line (cn_transport c))\<rparr>)"
| raw: "conn_step decode c (c\<lparr>cn_transport := (cn_transport c)\<lparr>tr_raw := raw\<rparr>\<rparr>)"
| await: "conn_step decode c (c\<lparr>cn_transport := snd (awaitRequestWrite meta (cn_transport c))\<rparr>)"
| unawait: "conn_step decode c (c\<lparr>cn_transport := stop_waiting meta ch (cn_transport c)\<rparr>)"
| buffer: "conn_step decode c (c\<lparr>cn_transport := snd (observed_lines data (cn_transport c))\<rparr>)"
| register: "RegisterHook ctx s h (cn_transport c) = (None, t) \<Longrightarrow>
    conn_step decode c (c\<lparr>cn_transport := t, cn_trace := cn_trace c @
      (if tr_fresh t = tr_fresh (cn_transport c) then []
       else [Registered s (tr_fresh (cn_transport c)) (case ctx of None \<Rightarrow> [] | Some i \<Rightarrow> i)])\<rparr>)"
| frame: "observeOutboundFrame decode line (cn_transport c) = (None, t) \<Longrightarrow> conn_step decode c (c\<lparr>cn_transport := t\<rparr>)"
| answer: "observeOutboundFrame decode line (cn_transport c) = (Some (p, ok), t) \<Longrightarrow> decode line = Some head \<Longrightarrow>
    conn_step decode c (c\<lparr>cn_transport := t, cn_tasks := cn_tasks c @ [\<lparr>tk_pub = p, tk_success = ok, tk_phase = Waiting\<rparr>],
      cn_trace := cn_trace c @ [Answered (frameID (fh_ID head)) ok]\<rparr>)"
| start: "i < length (cn_tasks c) \<Longrightarrow> tk_phase (cn_tasks c ! i) = Waiting \<Longrightarrow> tk_success (cn_tasks c ! i) \<Longrightarrow>
    previous_over (tk_pub (cn_tasks c ! i)) (cn_transport c) \<Longrightarrow>
    conn_step decode c (c\<lparr>cn_tasks := (cn_tasks c)[i := (cn_tasks c ! i)\<lparr>tk_phase := Running\<rparr>],
      cn_trace := cn_trace c @ [Opened (op_sessionID (tk_pub (cn_tasks c ! i))) (op_ready (tk_pub (cn_tasks c ! i)))]\<rparr>)"
| finish: "i < length (cn_tasks c) \<Longrightarrow>
    tk_phase (cn_tasks c ! i) = Running \<or> \<not> tk_success (cn_tasks c ! i) \<and> previous_over (tk_pub (cn_tasks c ! i)) (cn_transport c) \<or>
      cn_done c \<Longrightarrow> conn_step decode c (over i c)"
| close: "conn_step decode c (c\<lparr>cn_done := True\<rparr>)"

inductive reachable_conn :: "decode \<Rightarrow> 'h conn \<Rightarrow> bool" for decode where
  new: "reachable_conn decode (NewConn key)"
| step: "reachable_conn decode c \<Longrightarrow> conn_step decode c d \<Longrightarrow> reachable_conn decode d"

subsection \<open>The order of publications\<close>

fun registered :: "string \<Rightarrow> event list \<Rightarrow> nat list" where
  "registered s [] = []"
| "registered s (Registered s' r i # tr) = (if s' = s then r # registered s tr else registered s tr)"
| "registered s (_ # tr) = registered s tr"

lemma registered_append [simp]: "registered s (a @ b) = registered s a @ registered s b"
  by (induction s a rule: registered.induct) auto

definition ended :: "string \<Rightarrow> event list \<Rightarrow> nat set" where
  "ended s tr = {r. Ended s r \<in> set tr}"

definition answered :: "string \<Rightarrow> nat \<Rightarrow> event list \<Rightarrow> bool" where
  "answered s r tr \<longleftrightarrow> (\<exists>x i y z. tr = x @ Registered s r i # y @ Answered i True # z)"

text \<open>Every publication registered before \<open>r\<close> is over.\<close>

definition first_left :: "string \<Rightarrow> nat \<Rightarrow> event list \<Rightarrow> bool" where
  "first_left s r tr \<longleftrightarrow> (\<forall>xs ys. registered s tr = xs @ r # ys \<longrightarrow> set xs \<subseteq> ended s tr)"

definition opened_well :: "event list \<Rightarrow> bool" where
  "opened_well tr \<longleftrightarrow> (\<forall>a s r b. tr = a @ Opened s r # b \<longrightarrow> answered s r a \<and> first_left s r a)"

lemma ended_append [simp]: "ended s (tr @ [e]) = (if \<exists>r. e = Ended s r then insert (THE r. e = Ended s r) (ended s tr) else ended s tr)"
  by (auto simp: ended_def)

lemma answered_append: "answered s r tr \<Longrightarrow> answered s r (tr @ es)"
proof -
  assume "answered s r tr"
  then obtain x i y z where "tr = x @ Registered s r i # y @ Answered i True # z" by (auto simp: answered_def)
  then have "tr @ es = x @ Registered s r i # y @ Answered i True # (z @ es)" by simp
  then show ?thesis unfolding answered_def by blast
qed

lemma opened_well_append:
  assumes "opened_well tr" and "\<And>s r. e = Opened s r \<Longrightarrow> answered s r tr \<and> first_left s r tr"
  shows "opened_well (tr @ [e])"
  unfolding opened_well_def
proof (intro allI impI)
  fix a s r b
  assume eq: "tr @ [e] = a @ Opened s r # b"
  show "answered s r a \<and> first_left s r a"
  proof (cases b rule: rev_cases)
    case Nil
    with eq assms(2) show ?thesis by simp
  next
    case (snoc b' x)
    then have "tr = a @ Opened s r # b'" using eq by simp
    with assms(1) show ?thesis by (auto simp: opened_well_def)
  qed
qed

text \<open>What a publication that is not over knows of the one before it.\<close>

definition pub_ok :: "event list \<Rightarrow> 'h openingPublication \<Rightarrow> bool" where
  "pub_ok tr p \<longleftrightarrow> op_ready p \<in> set (registered (op_sessionID p) tr) \<and> op_ready p \<notin> ended (op_sessionID p) tr \<and>
     (\<forall>xs ys. registered (op_sessionID p) tr = xs @ op_ready p # ys \<longrightarrow>
        (case op_previous p of None \<Rightarrow> set xs \<subseteq> ended (op_sessionID p) tr | Some c \<Rightarrow> xs \<noteq> [] \<and> c = last xs))"

definition queued :: "'h Transport \<Rightarrow> event list \<Rightarrow> string \<Rightarrow> bool" where
  "queued t tr s \<longleftrightarrow> (\<exists>E L. registered s tr = E @ L \<and> set E = ended s tr \<and>
     tr_ready t s = (if L = [] then None else Some (last L)))"

definition channels_ok :: "'h Transport \<Rightarrow> event list \<Rightarrow> bool" where
  "channels_ok t tr \<longleftrightarrow>
     (\<forall>s. distinct (registered s tr)) \<and>
     (\<forall>s r. r \<in> set (registered s tr) \<longrightarrow> r < tr_fresh t \<and> (r \<in> tr_closed t \<longrightarrow> r \<in> ended s tr) \<and>
        (\<forall>s'. r \<in> set (registered s' tr) \<longrightarrow> s' = s)) \<and>
     (\<forall>k ch. tr_written t k = Some ch \<longrightarrow> ch < tr_fresh t \<and> (\<forall>s. ch \<notin> set (registered s tr))) \<and>
     (\<forall>ch \<in> tr_closed t. ch < tr_fresh t)"

definition hooks_ok :: "'h Transport \<Rightarrow> 'h task list \<Rightarrow> event list \<Rightarrow> bool" where
  "hooks_ok t tasks tr \<longleftrightarrow>
     (\<forall>i p. tr_hooks t i = Some p \<longrightarrow> pub_ok tr p \<and> Registered (op_sessionID p) (op_ready p) i \<in> set tr \<and>
        op_ready p \<notin> (\<lambda>k. op_ready (tk_pub k)) ` set tasks \<and>
        (\<forall>j q. tr_hooks t j = Some q \<longrightarrow> op_ready q = op_ready p \<longrightarrow> j = i))"

definition tasks_ok :: "'h task list \<Rightarrow> event list \<Rightarrow> bool" where
  "tasks_ok tasks tr \<longleftrightarrow> distinct (map (\<lambda>k. op_ready (tk_pub k)) tasks) \<and>
     (\<forall>k \<in> set tasks. pub_ok tr (tk_pub k) \<and>
        (tk_success k \<longrightarrow> answered (op_sessionID (tk_pub k)) (op_ready (tk_pub k)) tr) \<and>
        (tk_phase k = Running \<longrightarrow> first_left (op_sessionID (tk_pub k)) (op_ready (tk_pub k)) tr))"

definition conn_ok :: "'h conn \<Rightarrow> bool" where
  "conn_ok c \<longleftrightarrow> channels_ok (cn_transport c) (cn_trace c) \<and> (\<forall>s. queued (cn_transport c) (cn_trace c) s) \<and>
     hooks_ok (cn_transport c) (cn_tasks c) (cn_trace c) \<and> tasks_ok (cn_tasks c) (cn_trace c) \<and> opened_well (cn_trace c)"

lemma conn_ok_new: "conn_ok (NewConn key)"
  by (simp add: conn_ok_def NewConn_def NewTransport_def channels_ok_def queued_def hooks_ok_def tasks_ok_def opened_well_def ended_def)

text \<open>Whatever is registered before a publication that may go on is over.\<close>

lemma first_left_previous:
  assumes p: "pub_ok tr p" and o: "previous_over p t" and c: "channels_ok t tr" and q: "queued t tr (op_sessionID p)"
  shows "first_left (op_sessionID p) (op_ready p) tr"
  unfolding first_left_def
proof (intro allI impI)
  let ?s = "op_sessionID p"
  fix xs ys
  assume reg: "registered ?s tr = xs @ op_ready p # ys"
  show "set xs \<subseteq> ended ?s tr"
  proof (cases "op_previous p")
    case None
    with p reg show ?thesis by (auto simp: pub_ok_def)
  next
    case (Some c0)
    with p reg have xs: "xs \<noteq> []" "c0 = last xs" by (auto simp: pub_ok_def)
    have "c0 \<in> tr_closed t" using o Some by (simp add: previous_over_def)
    moreover have "c0 \<in> set (registered ?s tr)" using reg xs by simp
    ultimately have "c0 \<in> ended ?s tr" using c by (auto simp: channels_ok_def)
    then obtain E L where EL: "registered ?s tr = E @ L" "set E = ended ?s tr" using q by (auto simp: queued_def)
    have "distinct (xs @ op_ready p # ys)" using c reg by (metis channels_ok_def)
    moreover have "last xs \<in> set E" using EL(2) xs \<open>c0 \<in> ended ?s tr\<close> by simp
    ultimately have "set xs \<subseteq> set E"
    proof -
      assume d: "distinct (xs @ op_ready p # ys)" and l: "last xs \<in> set E"
      have "E @ L = xs @ op_ready p # ys" using EL(1) reg by simp
      then consider us where "E = xs @ us" | us where "xs = E @ us" "L = us @ op_ready p # ys"
        by (auto simp: append_eq_append_conv2)
      then show ?thesis
      proof cases
        case 2
        have "us = []"
        proof (rule ccontr)
          assume "us \<noteq> []"
          then have "last xs \<in> set us" using 2(1) by simp
          with l d 2(1) show False by auto
        qed
        with 2 show ?thesis by simp
      qed auto
    qed
    with EL(2) show ?thesis by simp
  qed
qed

subsection \<open>Every step keeps the order\<close>

definition aside :: "'h Transport \<Rightarrow> 'h Transport \<Rightarrow> bool" where
  "aside t u \<longleftrightarrow> tr_hooks u = tr_hooks t \<and> tr_ready u = tr_ready t \<and> tr_fresh t \<le> tr_fresh u \<and>
     tr_closed u \<subseteq> tr_closed t \<union> ran (tr_written t) \<and>
     (\<forall>k ch. tr_written u k = Some ch \<longrightarrow> tr_written t k = Some ch \<or> ch = tr_fresh t \<and> ch < tr_fresh u)"

lemma aside_refl [simp]: "aside t t"
  by (simp add: aside_def)

lemma conn_ok_aside:
  assumes "conn_ok c" and t: "aside (cn_transport c) t"
  shows "conn_ok (c\<lparr>cn_transport := t\<rparr>)"
proof -
  let ?t = "cn_transport c" and ?tr = "cn_trace c"
  have ok: "channels_ok ?t ?tr" "\<forall>s. queued ?t ?tr s" "hooks_ok ?t (cn_tasks c) ?tr" "tasks_ok (cn_tasks c) ?tr" "opened_well ?tr"
    using assms(1) by (simp_all add: conn_ok_def)
  have "channels_ok t ?tr"
    unfolding channels_ok_def
  proof (intro conjI allI impI ballI)
    fix s r assume r: "r \<in> set (registered s ?tr)"
    then have old: "r < tr_fresh ?t" "r \<in> tr_closed ?t \<Longrightarrow> r \<in> ended s ?tr" "r \<notin> ran (tr_written ?t)"
      using ok(1) by (auto simp: channels_ok_def ran_def)
    then show "r < tr_fresh t" using t by (auto simp: aside_def)
    show "r \<in> ended s ?tr" if "r \<in> tr_closed t" using old(2,3) that t by (auto simp: aside_def)
    show "s' = s" if "r \<in> set (registered s' ?tr)" for s' using ok(1) r that by (auto simp: channels_ok_def)
  next
    fix k ch assume "tr_written t k = Some ch"
    then consider "tr_written ?t k = Some ch" | "ch = tr_fresh ?t" "ch < tr_fresh t" using t by (auto simp: aside_def)
    then have "ch < tr_fresh t \<and> (\<forall>s. ch \<notin> set (registered s ?tr))"
    proof cases
      case 1
      then show ?thesis using ok(1) t by (fastforce simp: channels_ok_def aside_def)
    next
      case 2
      then show ?thesis using ok(1) by (fastforce simp: channels_ok_def)
    qed
    then show "ch < tr_fresh t" "\<And>s. ch \<notin> set (registered s ?tr)" by blast+
  next
    fix ch assume "ch \<in> tr_closed t"
    then have "ch \<in> tr_closed ?t \<or> ch \<in> ran (tr_written ?t)" using t by (auto simp: aside_def)
    then have "ch < tr_fresh ?t" using ok(1) by (auto simp: channels_ok_def ran_def)
    then show "ch < tr_fresh t" using t by (auto simp: aside_def)
  qed (use ok(1) in \<open>simp add: channels_ok_def\<close>)
  moreover have "\<forall>s. queued t ?tr s" "hooks_ok t (cn_tasks c) ?tr"
    using ok(2,3) t by (simp_all add: queued_def hooks_ok_def aside_def)
  ultimately show ?thesis using ok(4,5) by (simp add: conn_ok_def)
qed

lemma aside_raw: "aside t (t\<lparr>tr_raw := raw\<rparr>)"
  by (simp add: aside_def)

lemma dropRaw_same: "tr_hooks (dropRaw k i t) = tr_hooks t \<and> tr_ready (dropRaw k i t) = tr_ready t \<and>
    tr_fresh (dropRaw k i t) = tr_fresh t \<and> tr_closed (dropRaw k i t) = tr_closed t \<and> tr_written (dropRaw k i t) = tr_written t"
  by (auto simp: dropRaw_def split: option.split)

lemma aside_inbound: "aside t (snd (inbound decode line t))"
  by (auto simp: inbound_def observeInbound_def aside_def Let_def split: option.split)

lemma aside_release: "aside t (releaseRequestWrite params t)"
  by (auto simp: releaseRequestWrite_def aside_def Let_def ran_def split: option.split)

lemma aside_await: "aside t (snd (awaitRequestWrite meta t))" "aside t (stop_waiting meta ch t)"
  by (auto simp: awaitRequestWrite_def stop_waiting_def aside_def)

lemma aside_buffer: "aside t (snd (observed_lines data t))"
  by (auto simp: observed_lines_def aside_def split: prod.split)

text \<open>A frame either leaves the openings alone, or takes the publication of the request it answers.\<close>

lemma frame_cases:
  assumes "observeOutboundFrame decode line t = (out, u)"
  shows "case out of None \<Rightarrow> aside t u
    | Some (p, ok) \<Rightarrow> (\<exists>head v. decode line = Some head \<and> ok = (fh_Error head = []) \<and>
        tr_hooks t (frameID (fh_ID head)) = Some p \<and> aside t v \<and> u = v\<lparr>tr_hooks := (tr_hooks v)(frameID (fh_ID head) := None)\<rparr>)"
proof (cases "decode line")
  case None
  with assms show ?thesis by (auto simp: observeOutboundFrame_def)
next
  case (Some head)
  let ?i = "frameID (fh_ID head)"
  show ?thesis
  proof (cases "fh_Method head \<noteq> [] \<or> fh_ID head = [] \<or> tr_requests t ?i = None")
    case True
    with assms Some aside_release[of t "fh_Params head"] show ?thesis
      by (auto simp: observeOutboundFrame_def Let_def split: if_splits)
  next
    case False
    then obtain request where q: "tr_requests t ?i = Some request" by auto
    let ?t = "t\<lparr>tr_requests := (tr_requests t)(?i := None)\<rparr>"
    let ?v = "if iq_method request = AgentMethodInitialize then dropRaw AgentMethodInitialize ?i ?t
      else if iq_method request = AgentMethodSessionPrompt then dropRaw (rawKeyPrompt (iq_sessionID request)) ?i ?t else ?t"
    have v: "aside t ?v" "tr_hooks ?v = tr_hooks t" using dropRaw_same[of _ ?i ?t] by (auto simp: aside_def)
    have out: "out = map_option (\<lambda>p. (p, fh_Error head = [])) (tr_hooks t ?i)" and u: "u = ?v\<lparr>tr_hooks := (tr_hooks ?v)(?i := None)\<rparr>"
      using assms Some False q v(2) by (auto simp: observeOutboundFrame_def Let_def)
    show ?thesis
    proof (cases "tr_hooks t ?i")
      case None
      then have "(tr_hooks ?v)(?i := None) = tr_hooks t" using v(2) by auto
      then have "aside t u" using v(1) u by (simp add: aside_def)
      with None out show ?thesis by simp
    next
      case p: (Some p)
      with out u v Some show ?thesis by (auto intro!: exI[of _ ?v])
    qed
  qed
qed

definition neutral :: "event \<Rightarrow> bool" where
  "neutral e \<longleftrightarrow> (case e of Answered i ok \<Rightarrow> True | Opened s r \<Rightarrow> True | _ \<Rightarrow> False)"

lemma neutral_same:
  assumes "neutral e"
  shows "registered s (tr @ [e]) = registered s tr" and "ended s (tr @ [e]) = ended s tr"
    and "pub_ok (tr @ [e]) p = pub_ok tr p" and "first_left s r (tr @ [e]) = first_left s r tr"
    and "channels_ok t (tr @ [e]) = channels_ok t tr" and "queued t (tr @ [e]) s = queued t tr s"
proof -
  have r: "registered s (tr @ [e]) = registered s tr" for s using assms by (cases e) (auto simp: neutral_def)
  have n: "ended s (tr @ [e]) = ended s tr" for s using assms by (cases e) (auto simp: neutral_def ended_def)
  show "registered s (tr @ [e]) = registered s tr" "ended s (tr @ [e]) = ended s tr"
    "pub_ok (tr @ [e]) p = pub_ok tr p" "first_left s r (tr @ [e]) = first_left s r tr"
    "channels_ok t (tr @ [e]) = channels_ok t tr" "queued t (tr @ [e]) s = queued t tr s"
    by (simp_all only: r n pub_ok_def first_left_def channels_ok_def queued_def)
qed

lemma conn_ok_answer:
  assumes ok: "conn_ok c" and f: "observeOutboundFrame decode line (cn_transport c) = (Some (p, success), t)"
    and head: "decode line = Some head"
  shows "conn_ok (c\<lparr>cn_transport := t, cn_tasks := cn_tasks c @ [\<lparr>tk_pub = p, tk_success = success, tk_phase = Waiting\<rparr>],
      cn_trace := cn_trace c @ [Answered (frameID (fh_ID head)) success]\<rparr>)"
proof -
  let ?t = "cn_transport c" and ?i = "frameID (fh_ID head)" and ?e = "Answered (frameID (fh_ID head)) success"
  let ?k = "\<lparr>tk_pub = p, tk_success = success, tk_phase = Waiting\<rparr>"
  obtain v where v: "tr_hooks ?t ?i = Some p" "aside ?t v" "t = v\<lparr>tr_hooks := (tr_hooks v)(?i := None)\<rparr>"
    using frame_cases[OF f] head by auto
  have n: "neutral ?e" by (simp add: neutral_def)
  have okv: "conn_ok (c\<lparr>cn_transport := v\<rparr>)" using conn_ok_aside[OF ok v(2)] .
  then have parts: "channels_ok v (cn_trace c)" "\<forall>s. queued v (cn_trace c) s" "hooks_ok v (cn_tasks c) (cn_trace c)"
    "tasks_ok (cn_tasks c) (cn_trace c)" "opened_well (cn_trace c)" by (simp_all add: conn_ok_def)
  have hp: "tr_hooks v ?i = Some p" using v(1,2) by (simp add: aside_def)
  have p: "pub_ok (cn_trace c) p" "Registered (op_sessionID p) (op_ready p) ?i \<in> set (cn_trace c)"
    "op_ready p \<notin> (\<lambda>k. op_ready (tk_pub k)) ` set (cn_tasks c)"
    "\<And>j q. tr_hooks v j = Some q \<Longrightarrow> op_ready q = op_ready p \<Longrightarrow> j = ?i"
    using parts(3) hp unfolding hooks_ok_def by blast+
  have "channels_ok t (cn_trace c @ [?e])" using parts(1) v(3) by (simp add: neutral_same(5)[OF n] channels_ok_def)
  moreover have "\<forall>s. queued t (cn_trace c @ [?e]) s" using parts(2) v(3) by (simp add: neutral_same(6)[OF n] queued_def)
  moreover have "hooks_ok t (cn_tasks c @ [?k]) (cn_trace c @ [?e])"
    unfolding hooks_ok_def
  proof (intro allI impI)
    fix j q assume "tr_hooks t j = Some q"
    then have q: "tr_hooks v j = Some q" "j \<noteq> ?i" using v(3) by (auto split: if_splits)
    then have "op_ready q \<noteq> op_ready p" using p(4) by blast
    moreover have "pub_ok (cn_trace c) q \<and> Registered (op_sessionID q) (op_ready q) j \<in> set (cn_trace c) \<and>
        op_ready q \<notin> (\<lambda>k. op_ready (tk_pub k)) ` set (cn_tasks c) \<and>
        (\<forall>l q'. tr_hooks v l = Some q' \<longrightarrow> op_ready q' = op_ready q \<longrightarrow> l = j)"
      using parts(3) q(1) unfolding hooks_ok_def by blast
    ultimately show "pub_ok (cn_trace c @ [?e]) q \<and> Registered (op_sessionID q) (op_ready q) j \<in> set (cn_trace c @ [?e]) \<and>
        op_ready q \<notin> (\<lambda>k. op_ready (tk_pub k)) ` set (cn_tasks c @ [?k]) \<and>
        (\<forall>l q'. tr_hooks t l = Some q' \<longrightarrow> op_ready q' = op_ready q \<longrightarrow> l = j)"
      using v(3) by (auto simp: neutral_same(3)[OF n])
  qed
  moreover have "tasks_ok (cn_tasks c @ [?k]) (cn_trace c @ [?e])"
  proof -
    have "success \<Longrightarrow> answered (op_sessionID p) (op_ready p) (cn_trace c @ [?e])"
    proof -
      assume "success"
      obtain x y where "cn_trace c = x @ Registered (op_sessionID p) (op_ready p) ?i # y" using split_list[OF p(2)] by blast
      then have "cn_trace c @ [?e] = x @ Registered (op_sessionID p) (op_ready p) ?i # y @ Answered ?i True # []"
        using \<open>success\<close> by simp
      then show ?thesis unfolding answered_def by blast
    qed
    then show ?thesis
      using parts(4) p(1,3) by (auto simp: tasks_ok_def neutral_same(3,4)[OF n] answered_append)
  qed
  moreover have "opened_well (cn_trace c @ [?e])" using parts(5) by (rule opened_well_append) simp
  ultimately show ?thesis by (simp add: conn_ok_def)
qed

lemma conn_ok_start:
  assumes ok: "conn_ok c" and i: "i < length (cn_tasks c)" and k: "k = cn_tasks c ! i" and s: "tk_success k"
    and o: "previous_over (tk_pub k) (cn_transport c)"
  shows "conn_ok (c\<lparr>cn_tasks := (cn_tasks c)[i := k\<lparr>tk_phase := Running\<rparr>],
      cn_trace := cn_trace c @ [Opened (op_sessionID (tk_pub k)) (op_ready (tk_pub k))]\<rparr>)"
proof -
  let ?e = "Opened (op_sessionID (tk_pub k)) (op_ready (tk_pub k))"
  let ?tasks = "(cn_tasks c)[i := k\<lparr>tk_phase := Running\<rparr>]"
  have n: "neutral ?e" by (simp add: neutral_def)
  have parts: "channels_ok (cn_transport c) (cn_trace c)" "\<forall>s. queued (cn_transport c) (cn_trace c) s"
    "hooks_ok (cn_transport c) (cn_tasks c) (cn_trace c)" "tasks_ok (cn_tasks c) (cn_trace c)" "opened_well (cn_trace c)"
    using ok by (simp_all add: conn_ok_def)
  have "k \<in> set (cn_tasks c)" using i k by simp
  then have kok: "pub_ok (cn_trace c) (tk_pub k)" "answered (op_sessionID (tk_pub k)) (op_ready (tk_pub k)) (cn_trace c)"
    using parts(4) s unfolding tasks_ok_def by blast+
  have first: "first_left (op_sessionID (tk_pub k)) (op_ready (tk_pub k)) (cn_trace c)"
    using first_left_previous[OF kok(1) o parts(1)] parts(2) by blast
  have same: "map (\<lambda>k. op_ready (tk_pub k)) ?tasks = map (\<lambda>k. op_ready (tk_pub k)) (cn_tasks c)"
    using i k by (simp add: map_update list_update_same_conv)
  then have ready: "(\<lambda>k. op_ready (tk_pub k)) ` set ?tasks = (\<lambda>k. op_ready (tk_pub k)) ` set (cn_tasks c)"
    by (metis set_map)
  have "hooks_ok (cn_transport c) ?tasks (cn_trace c @ [?e])"
    using parts(3) unfolding hooks_ok_def ready neutral_same(3)[OF n] by auto
  moreover have "tasks_ok ?tasks (cn_trace c @ [?e])"
    unfolding tasks_ok_def same
  proof (intro conjI ballI)
    show "distinct (map (\<lambda>k. op_ready (tk_pub k)) (cn_tasks c))" using parts(4) by (simp add: tasks_ok_def)
    fix x assume "x \<in> set ?tasks"
    then have "x = k\<lparr>tk_phase := Running\<rparr> \<or> x \<in> set (cn_tasks c)" by (rule list_update_set_cases)
    then show "pub_ok (cn_trace c @ [?e]) (tk_pub x)"
      "tk_success x \<longrightarrow> answered (op_sessionID (tk_pub x)) (op_ready (tk_pub x)) (cn_trace c @ [?e])"
      "tk_phase x = Running \<longrightarrow> first_left (op_sessionID (tk_pub x)) (op_ready (tk_pub x)) (cn_trace c @ [?e])"
      using kok first parts(4) by (auto simp: tasks_ok_def neutral_same(3,4)[OF n] answered_append)
  qed
  moreover have "opened_well (cn_trace c @ [?e])"
    using parts(5) kok(2) first by (intro opened_well_append) auto
  ultimately show ?thesis using parts(1,2) by (simp add: conn_ok_def neutral_same(5,6)[OF n])
qed

lemma remove_at_set: "i < length xs \<Longrightarrow> distinct (map f xs) \<Longrightarrow> x \<in> set (remove_at i xs) \<longleftrightarrow> x \<in> set xs \<and> f x \<noteq> f (xs ! i)"
proof -
  assume i: "i < length xs" and d: "distinct (map f xs)"
  have xs: "xs = take i xs @ xs ! i # drop (Suc i) xs" using i by (rule id_take_nth_drop)
  then have "distinct (map f (take i xs @ xs ! i # drop (Suc i) xs))" using d by simp
  then have "f (xs ! i) \<notin> f ` set (take i xs @ drop (Suc i) xs)" by auto
  moreover have "set xs = insert (xs ! i) (set (take i xs @ drop (Suc i) xs))" by (subst xs) simp
  ultimately show ?thesis unfolding remove_at_def by (metis image_eqI insert_iff)
qed

lemma remove_at_distinct: "distinct (map f xs) \<Longrightarrow> distinct (map f (remove_at i xs))"
proof -
  assume d: "distinct (map f xs)"
  have "distinct (take i (map f xs) @ drop (Suc i) (map f xs))"
    using d set_take_disj_set_drop_if_distinct[OF d, of i "Suc i"] by (simp add: distinct_take distinct_drop)
  then show ?thesis by (simp add: remove_at_def take_map drop_map)
qed

lemma registered_ended [simp]: "registered s (tr @ [Ended s' r]) = registered s tr"
  by simp

lemma ended_ended: "ended s (tr @ [Ended s' r]) = (if s' = s then insert r (ended s tr) else ended s tr)"
  by (auto simp: ended_def)

lemma channels_over:
  fixes p :: "'h openingPublication"
  assumes "channels_ok t tr" and "pub_ok tr p"
  shows "channels_ok (publication_over p t) (tr @ [Ended (op_sessionID p) (op_ready p)])"
proof -
  have old: "\<And>s. distinct (registered s tr)" "\<And>s r. r \<in> set (registered s tr) \<Longrightarrow> r < tr_fresh t"
    "\<And>s r. r \<in> set (registered s tr) \<Longrightarrow> r \<in> tr_closed t \<Longrightarrow> r \<in> ended s tr"
    "\<And>s s' r. r \<in> set (registered s tr) \<Longrightarrow> r \<in> set (registered s' tr) \<Longrightarrow> s' = s"
    "\<And>k ch. tr_written t k = Some ch \<Longrightarrow> ch < tr_fresh t \<and> (\<forall>s. ch \<notin> set (registered s tr))"
    "\<And>ch. ch \<in> tr_closed t \<Longrightarrow> ch < tr_fresh t"
    using assms(1) unfolding channels_ok_def by blast+
  have p: "op_ready p \<in> set (registered (op_sessionID p) tr)" using assms(2) by (simp add: pub_ok_def)
  let ?u = "publication_over p t"
  have u: "tr_fresh ?u = tr_fresh t" "tr_written ?u = tr_written t" "tr_closed ?u = insert (op_ready p) (tr_closed t)"
    by (simp_all add: publication_over_def)
  show ?thesis
    unfolding channels_ok_def registered_ended ended_ended u
  proof (intro conjI allI impI ballI)
    fix s r assume r: "r \<in> set (registered s tr)" "r \<in> insert (op_ready p) (tr_closed t)"
    show "r \<in> (if op_sessionID p = s then insert (op_ready p) (ended s tr) else ended s tr)"
    proof (cases "r = op_ready p")
      case True
      then have "op_sessionID p = s" using old(4)[OF r(1), of "op_sessionID p"] p by simp
      with True show ?thesis by simp
    qed (use r old(3) in simp)
  next
    fix ch assume "ch \<in> insert (op_ready p) (tr_closed t)"
    then show "ch < tr_fresh t" using old(2)[OF p] old(6) by blast
  qed (use old(1,2,4,5) in blast)+
qed

lemma conn_ok_finish:
  assumes ok: "conn_ok c" and i: "i < length (cn_tasks c)"
    and k: "tk_phase (cn_tasks c ! i) = Running \<or> previous_over (tk_pub (cn_tasks c ! i)) (cn_transport c)"
  shows "conn_ok (over i c)"
proof -
  let ?t = "cn_transport c" and ?tr = "cn_trace c" and ?p = "tk_pub (cn_tasks c ! i)"
  let ?s = "op_sessionID ?p" and ?r = "op_ready ?p"
  let ?e = "Ended ?s ?r"
  let ?u = "publication_over ?p ?t"
  have parts: "channels_ok ?t ?tr" "\<forall>s. queued ?t ?tr s" "hooks_ok ?t (cn_tasks c) ?tr" "tasks_ok (cn_tasks c) ?tr" "opened_well ?tr"
    using ok by (simp_all add: conn_ok_def)
  have mem: "cn_tasks c ! i \<in> set (cn_tasks c)" using i by simp
  have p: "pub_ok ?tr ?p" using parts(4) mem unfolding tasks_ok_def by blast
  have first: "first_left ?s ?r ?tr"
    using k parts(4) mem first_left_previous[OF p _ parts(1)] parts(2) unfolding tasks_ok_def by blast
  have dist: "distinct (map (\<lambda>k. op_ready (tk_pub k)) (cn_tasks c))" using parts(4) by (simp add: tasks_ok_def)
  have keep: "pub_ok (?tr @ [?e]) q" if "pub_ok ?tr q" "op_ready q \<noteq> ?r" for q :: "'h openingPublication"
    using that by (fastforce simp: pub_ok_def ended_ended split: option.splits)
  have ch: "channels_ok ?u (?tr @ [?e])"
    using parts(1) p by (rule channels_over)
  have "queued ?u (?tr @ [?e]) s" for s
  proof (cases "s = ?s")
    case False
    obtain E L where "registered s ?tr = E @ L" "set E = ended s ?tr" "tr_ready ?t s = (if L = [] then None else Some (last L))"
      using parts(2)[THEN spec, of s] unfolding queued_def by blast
    with False have "registered s (?tr @ [?e]) = E @ L" "set E = ended s (?tr @ [?e])"
      "tr_ready ?u s = (if L = [] then None else Some (last L))"
      by (auto simp: publication_over_def ended_ended)
    then show ?thesis unfolding queued_def by blast
  next
    case True
    obtain E L where EL: "registered ?s ?tr = E @ L" "set E = ended ?s ?tr"
      "tr_ready ?t ?s = (if L = [] then None else Some (last L))"
      using parts(2)[THEN spec, of ?s] unfolding queued_def by blast
    have rL: "?r \<in> set L" using p EL by (auto simp: pub_ok_def)
    then obtain A B where L: "L = A @ ?r # B" by (metis split_list)
    have "registered ?s ?tr = (E @ A) @ ?r # B" using EL(1) L by simp
    then have "set (E @ A) \<subseteq> set E" using first EL(2) unfolding first_left_def by blast
    moreover have "distinct (E @ L)" using parts(1) EL(1) by (metis channels_ok_def)
    ultimately have A: "A = []" using L by (cases A) auto
    have d: "?r \<notin> set B" using \<open>distinct (E @ L)\<close> L by auto
    have lb: "B \<noteq> [] \<Longrightarrow> last B \<noteq> ?r" using d last_in_set by metis
    have "tr_ready ?u ?s = (if B = [] then None else Some (last B))"
      using EL(3) L A lb by (cases "B = []") (auto simp: publication_over_def)
    moreover have "registered ?s (?tr @ [?e]) = (E @ [?r]) @ B" using EL(1) L A by simp
    moreover have "set (E @ [?r]) = ended ?s (?tr @ [?e])" using EL(2) by (simp add: ended_ended)
    ultimately show ?thesis unfolding True queued_def by blast
  qed
  moreover have "hooks_ok ?u (remove_at i (cn_tasks c)) (?tr @ [?e])"
    unfolding hooks_ok_def
  proof (intro allI impI)
    fix j q assume "tr_hooks ?u j = Some q"
    then have q: "tr_hooks ?t j = Some q" by (simp add: publication_over_def)
    have h: "pub_ok ?tr q \<and> Registered (op_sessionID q) (op_ready q) j \<in> set ?tr \<and>
        op_ready q \<notin> (\<lambda>k. op_ready (tk_pub k)) ` set (cn_tasks c) \<and>
        (\<forall>l q'. tr_hooks ?t l = Some q' \<longrightarrow> op_ready q' = op_ready q \<longrightarrow> l = j)"
      using parts(3) q unfolding hooks_ok_def by blast
    then have "op_ready q \<noteq> ?r" using mem by force
    moreover have "set (remove_at i (cn_tasks c)) \<subseteq> set (cn_tasks c)" using remove_at_set[OF i dist] by auto
    ultimately show "pub_ok (?tr @ [?e]) q \<and> Registered (op_sessionID q) (op_ready q) j \<in> set (?tr @ [?e]) \<and>
        op_ready q \<notin> (\<lambda>k. op_ready (tk_pub k)) ` set (remove_at i (cn_tasks c)) \<and>
        (\<forall>l q'. tr_hooks ?u l = Some q' \<longrightarrow> op_ready q' = op_ready q \<longrightarrow> l = j)"
      using h keep by (auto simp: publication_over_def)
  qed
  moreover have "tasks_ok (remove_at i (cn_tasks c)) (?tr @ [?e])"
    unfolding tasks_ok_def
  proof (intro conjI ballI)
    show "distinct (map (\<lambda>k. op_ready (tk_pub k)) (remove_at i (cn_tasks c)))" using dist by (rule remove_at_distinct)
    fix x assume "x \<in> set (remove_at i (cn_tasks c))"
    then have x: "x \<in> set (cn_tasks c)" "op_ready (tk_pub x) \<noteq> ?r" using remove_at_set[OF i dist] by auto
    then have old: "pub_ok ?tr (tk_pub x)" "tk_success x \<longrightarrow> answered (op_sessionID (tk_pub x)) (op_ready (tk_pub x)) ?tr"
      "tk_phase x = Running \<longrightarrow> first_left (op_sessionID (tk_pub x)) (op_ready (tk_pub x)) ?tr"
      using parts(4) unfolding tasks_ok_def by blast+
    show "pub_ok (?tr @ [?e]) (tk_pub x)" using keep[OF old(1) x(2)] .
    show "tk_success x \<longrightarrow> answered (op_sessionID (tk_pub x)) (op_ready (tk_pub x)) (?tr @ [?e])"
      using old(2) answered_append by blast
    show "tk_phase x = Running \<longrightarrow> first_left (op_sessionID (tk_pub x)) (op_ready (tk_pub x)) (?tr @ [?e])"
      using old(3) by (fastforce simp: first_left_def ended_ended)
  qed
  moreover have "opened_well (?tr @ [?e])" using parts(5) by (rule opened_well_append) simp
  ultimately show ?thesis using ch by (simp add: conn_ok_def over_def Let_def)
qed

lemma registered_new: "registered s' (tr @ [Registered s r i]) = registered s' tr @ (if s = s' then [r] else [])"
  by simp

lemma ended_new: "ended s' (tr @ [Registered s r i]) = ended s' tr"
  by (simp add: ended_def)

text \<open>Registering at the end changes nothing before it.\<close>

lemma registered_before:
  assumes "registered s' (tr @ [Registered s r i]) = xs @ q # ys" and "q \<noteq> r"
  shows "\<exists>zs. registered s' tr = xs @ q # zs"
proof (cases "s = s'")
  case True
  then have "registered s' tr @ [r] = xs @ q # ys" using assms(1) by simp
  then show ?thesis using assms(2) by (cases ys rule: rev_cases) auto
qed (use assms in simp)

lemma pub_ok_new:
  assumes "pub_ok tr q" and "op_ready q \<noteq> r"
  shows "pub_ok (tr @ [Registered s r i]) q"
proof -
  have "case op_previous q of None \<Rightarrow> set xs \<subseteq> ended (op_sessionID q) tr | Some c \<Rightarrow> xs \<noteq> [] \<and> c = last xs"
    if "registered (op_sessionID q) (tr @ [Registered s r i]) = xs @ op_ready q # ys" for xs ys
    using registered_before[OF that assms(2)] assms(1) unfolding pub_ok_def by blast
  moreover have "op_ready q \<in> set (registered (op_sessionID q) tr)" "op_ready q \<notin> ended (op_sessionID q) tr"
    using assms(1) by (simp_all add: pub_ok_def)
  ultimately show ?thesis unfolding pub_ok_def ended_new by (simp add: registered_new)
qed

lemma first_left_new:
  assumes "first_left s' q tr" and "q \<noteq> r"
  shows "first_left s' q (tr @ [Registered s r i])"
  using assms(1) registered_before[OF _ assms(2)] unfolding first_left_def ended_new by blast

lemma channels_new:
  assumes "channels_ok t tr"
  shows "channels_ok (t\<lparr>tr_ready := rd, tr_hooks := hk, tr_fresh := Suc (tr_fresh t)\<rparr>) (tr @ [Registered s (tr_fresh t) i])"
proof -
  have old: "\<And>s. distinct (registered s tr)" "\<And>s r. r \<in> set (registered s tr) \<Longrightarrow> r < tr_fresh t"
    "\<And>s r. r \<in> set (registered s tr) \<Longrightarrow> r \<in> tr_closed t \<Longrightarrow> r \<in> ended s tr"
    "\<And>s s' r. r \<in> set (registered s tr) \<Longrightarrow> r \<in> set (registered s' tr) \<Longrightarrow> s' = s"
    "\<And>k ch. tr_written t k = Some ch \<Longrightarrow> ch < tr_fresh t" "\<And>k ch s. tr_written t k = Some ch \<Longrightarrow> ch \<notin> set (registered s tr)"
    "\<And>ch. ch \<in> tr_closed t \<Longrightarrow> ch < tr_fresh t"
    using assms unfolding channels_ok_def by blast+
  have fresh: "tr_fresh t \<notin> set (registered s' tr)" "tr_fresh t \<notin> tr_closed t" "tr_written t k \<noteq> Some (tr_fresh t)" for s' k
    using old(2,5,7) by blast+
  have mem: "r \<in> set (registered s' tr @ (if s = s' then [tr_fresh t] else [])) \<longleftrightarrow>
      r \<in> set (registered s' tr) \<or> r = tr_fresh t \<and> s = s'" for r s' by auto
  show ?thesis
    unfolding channels_ok_def registered_new ended_new mem
  proof (intro conjI allI impI ballI)
    show "distinct (registered s' tr @ (if s = s' then [tr_fresh t] else []))" for s' using old(1) fresh(1) by simp
  qed (use old fresh in \<open>auto simp: less_Suc_eq\<close>)
qed

lemma ready_not_fresh: "pub_ok tr q \<Longrightarrow> channels_ok t tr \<Longrightarrow> op_ready q \<noteq> tr_fresh t"
proof -
  assume "pub_ok tr q" "channels_ok t tr"
  then have "op_ready q < tr_fresh t" unfolding pub_ok_def channels_ok_def by blast
  then show ?thesis by simp
qed

lemma queued_new:
  assumes "queued t tr s'"
  shows "queued (t\<lparr>tr_ready := (tr_ready t)(s \<mapsto> r), tr_hooks := hk, tr_fresh := n\<rparr>) (tr @ [Registered s r i]) s'"
proof -
  obtain E L where EL: "registered s' tr = E @ L" "set E = ended s' tr" "tr_ready t s' = (if L = [] then None else Some (last L))"
    using assms unfolding queued_def by blast
  then show ?thesis
    unfolding queued_def ended_new registered_new
    by (intro exI[of _ E] exI[of _ "L @ (if s = s' then [r] else [])"]) simp
qed

lemma pub_new:
  assumes c: "channels_ok t tr" and q: "queued t tr (op_sessionID p)"
    and p: "op_ready p = tr_fresh t" "op_previous p = tr_ready t (op_sessionID p)"
  shows "pub_ok (tr @ [Registered (op_sessionID p) (tr_fresh t) i]) p"
proof -
  let ?s = "op_sessionID p" and ?r = "tr_fresh t"
  have new: "?r \<notin> set (registered ?s tr)" using c by (auto simp: channels_ok_def)
  obtain E L where EL: "registered ?s tr = E @ L" "set E = ended ?s tr" "tr_ready t ?s = (if L = [] then None else Some (last L))"
    using q unfolding queued_def by blast
  have "xs = registered ?s tr" if "registered ?s tr @ [?r] = xs @ ?r # ys" for xs ys
  proof (cases ys rule: rev_cases)
    case (snoc ys' y)
    with that have "registered ?s tr = xs @ ?r # ys'" by simp
    with new show ?thesis by simp
  qed (use that in simp)
  then have "case tr_ready t ?s of None \<Rightarrow> set xs \<subseteq> ended ?s tr | Some c \<Rightarrow> xs \<noteq> [] \<and> c = last xs"
    if "registered ?s tr @ [?r] = xs @ ?r # ys" for xs ys
  proof -
    have "xs = E @ L" using \<open>\<And>xs ys. registered ?s tr @ [?r] = xs @ ?r # ys \<Longrightarrow> xs = registered ?s tr\<close>[OF that] EL(1) by simp
    then show ?thesis using EL(2,3) by simp
  qed
  moreover have "?r \<notin> ended ?s tr" using new EL by auto
  ultimately show ?thesis unfolding pub_ok_def ended_new p by (simp add: registered_new)
qed

lemma hooks_new:
  assumes h: "hooks_ok t tasks tr" and c: "channels_ok t tr" and p: "pub_ok (tr @ [Registered s (tr_fresh t) i]) p"
    and r: "op_ready p = tr_fresh t" "op_sessionID p = s" and tasks: "tasks_ok tasks tr" and none: "tr_hooks t i = None"
  shows "hooks_ok (t\<lparr>tr_ready := rd, tr_hooks := (tr_hooks t)(i \<mapsto> p), tr_fresh := n\<rparr>) tasks (tr @ [Registered s (tr_fresh t) i])"
  unfolding hooks_ok_def
proof (intro allI impI)
  let ?u = "t\<lparr>tr_ready := rd, tr_hooks := (tr_hooks t)(i \<mapsto> p), tr_fresh := n\<rparr>" and ?e = "Registered s (tr_fresh t) i"
  have old: "pub_ok tr q" "Registered (op_sessionID q) (op_ready q) j \<in> set tr" "op_ready q \<notin> (\<lambda>k. op_ready (tk_pub k)) ` set tasks"
    "\<forall>l q'. tr_hooks t l = Some q' \<longrightarrow> op_ready q' = op_ready q \<longrightarrow> l = j" if "tr_hooks t j = Some q" for j q
    using h that unfolding hooks_ok_def by blast+
  have fresh: "op_ready q \<noteq> tr_fresh t" if "tr_hooks t j = Some q" for j q
    using old(1)[OF that] c by (rule ready_not_fresh)
  have free: "tr_fresh t \<notin> (\<lambda>k. op_ready (tk_pub k)) ` set tasks"
  proof
    assume "tr_fresh t \<in> (\<lambda>k. op_ready (tk_pub k)) ` set tasks"
    then obtain k where "k \<in> set tasks" and k: "op_ready (tk_pub k) = tr_fresh t" by force
    then have "pub_ok tr (tk_pub k)" using tasks unfolding tasks_ok_def by blast
    then show False using ready_not_fresh c k by blast
  qed
  fix j q
  assume jq: "tr_hooks ?u j = Some q"
  show "pub_ok (tr @ [?e]) q \<and> Registered (op_sessionID q) (op_ready q) j \<in> set (tr @ [?e]) \<and>
      op_ready q \<notin> (\<lambda>k. op_ready (tk_pub k)) ` set tasks \<and>
      (\<forall>l q'. tr_hooks ?u l = Some q' \<longrightarrow> op_ready q' = op_ready q \<longrightarrow> l = j)"
  proof (cases "j = i")
    case True
    then have "q = p" using jq by simp
    have "l = j" if "tr_hooks ?u l = Some q'" "op_ready q' = op_ready q" for l q'
    proof (rule ccontr)
      assume "l \<noteq> j"
      then have "tr_hooks t l = Some q'" using that(1) True by simp
      then show False using fresh that(2) r(1) \<open>q = p\<close> by simp
    qed
    moreover have "op_ready q \<notin> (\<lambda>k. op_ready (tk_pub k)) ` set tasks" using free r(1) \<open>q = p\<close> by simp
    moreover have "Registered (op_sessionID q) (op_ready q) j \<in> set (tr @ [?e])" using r True \<open>q = p\<close> by simp
    ultimately show ?thesis using p \<open>q = p\<close> by blast
  next
    case False
    then have q: "tr_hooks t j = Some q" using jq by simp
    have "l = j" if "tr_hooks ?u l = Some q'" "op_ready q' = op_ready q" for l q'
    proof (cases "l = i")
      case True
      then have "q' = p" using that(1) by simp
      then show ?thesis using that(2) fresh[OF q] r(1) by simp
    next
      case False
      then have "tr_hooks t l = Some q'" using that(1) by simp
      then show ?thesis using old(4)[OF q] that(2) by blast
    qed
    moreover have "Registered (op_sessionID q) (op_ready q) j \<in> set (tr @ [?e])" using old(2)[OF q] by simp
    ultimately show ?thesis using old(3)[OF q] pub_ok_new[OF old(1)[OF q] fresh[OF q]] by blast
  qed
qed

lemma tasks_new:
  assumes "tasks_ok tasks tr" and c: "channels_ok t tr"
  shows "tasks_ok tasks (tr @ [Registered s (tr_fresh t) i])"
  unfolding tasks_ok_def
proof (intro conjI ballI)
  show "distinct (map (\<lambda>k. op_ready (tk_pub k)) tasks)" using assms(1) by (simp add: tasks_ok_def)
  fix x assume "x \<in> set tasks"
  then have old: "pub_ok tr (tk_pub x)" "tk_success x \<longrightarrow> answered (op_sessionID (tk_pub x)) (op_ready (tk_pub x)) tr"
    "tk_phase x = Running \<longrightarrow> first_left (op_sessionID (tk_pub x)) (op_ready (tk_pub x)) tr"
    using assms(1) unfolding tasks_ok_def by blast+
  note r = ready_not_fresh[OF old(1) c]
  show "pub_ok (tr @ [Registered s (tr_fresh t) i]) (tk_pub x)" using old(1) r by (rule pub_ok_new)
  show "tk_success x \<longrightarrow> answered (op_sessionID (tk_pub x)) (op_ready (tk_pub x)) (tr @ [Registered s (tr_fresh t) i])"
    using old(2) answered_append by blast
  show "tk_phase x = Running \<longrightarrow> first_left (op_sessionID (tk_pub x)) (op_ready (tk_pub x)) (tr @ [Registered s (tr_fresh t) i])"
    using old(3) first_left_new[OF _ r] by blast
qed

text \<open>Registering again under one request only replaces the hook.\<close>

lemma hooks_replaced:
  assumes "hooks_ok t tasks tr" and "tr_hooks t i = Some pending"
  shows "hooks_ok (t\<lparr>tr_hooks := (tr_hooks t)(i \<mapsto> pending\<lparr>op_hook := h\<rparr>)\<rparr>) tasks tr"
proof -
  have same: "pub_ok tr (pending\<lparr>op_hook := h\<rparr>) = pub_ok tr pending"
    by (cases pending) (simp only: pub_ok_def openingPublication.select_convs openingPublication.update_convs)
  have old: "\<exists>q'. tr_hooks t l = Some q' \<and> op_ready q' = op_ready q \<and> op_sessionID q' = op_sessionID q \<and> pub_ok tr q' = pub_ok tr q"
    if "((tr_hooks t)(i \<mapsto> pending\<lparr>op_hook := h\<rparr>)) l = Some q" for l q
    using that assms(2) same by (auto split: if_splits)
  show ?thesis
    unfolding hooks_ok_def
  proof (intro allI impI)
    fix j q
    assume "tr_hooks (t\<lparr>tr_hooks := (tr_hooks t)(i \<mapsto> pending\<lparr>op_hook := h\<rparr>)\<rparr>) j = Some q"
    then obtain q0 where q0: "tr_hooks t j = Some q0" "op_ready q0 = op_ready q" "op_sessionID q0 = op_sessionID q"
      "pub_ok tr q0 = pub_ok tr q" using old[of j q] by auto
    have "pub_ok tr q0 \<and> Registered (op_sessionID q0) (op_ready q0) j \<in> set tr \<and>
        op_ready q0 \<notin> (\<lambda>k. op_ready (tk_pub k)) ` set tasks \<and>
        (\<forall>l q'. tr_hooks t l = Some q' \<longrightarrow> op_ready q' = op_ready q0 \<longrightarrow> l = j)"
      using assms(1) q0(1) unfolding hooks_ok_def by blast
    then show "pub_ok tr q \<and> Registered (op_sessionID q) (op_ready q) j \<in> set tr \<and>
        op_ready q \<notin> (\<lambda>k. op_ready (tk_pub k)) ` set tasks \<and>
        (\<forall>l q'. tr_hooks (t\<lparr>tr_hooks := (tr_hooks t)(i \<mapsto> pending\<lparr>op_hook := h\<rparr>)\<rparr>) l = Some q' \<longrightarrow>
          op_ready q' = op_ready q \<longrightarrow> l = j)"
      using q0(2-4) old by fastforce
  qed
qed

lemma register_cases:
  assumes "RegisterHook ctx s h t = (None, u)"
  shows "let i = (case ctx of None \<Rightarrow> [] | Some i \<Rightarrow> i)
    in case tr_hooks t i of
         Some pending \<Rightarrow> u = t\<lparr>tr_hooks := (tr_hooks t)(i \<mapsto> pending\<lparr>op_hook := h\<rparr>)\<rparr>
       | None \<Rightarrow> u = t\<lparr>tr_ready := (tr_ready t)(s \<mapsto> tr_fresh t),
           tr_hooks := (tr_hooks t)(i \<mapsto> \<lparr>op_sessionID = s, op_hook = h, op_ready = tr_fresh t, op_previous = tr_ready t s\<rparr>),
           tr_fresh := Suc (tr_fresh t)\<rparr>"
  using assms by (auto simp: RegisterHook_def Let_def split: option.splits if_splits)

lemma conn_ok_register:
  assumes ok: "conn_ok c" and r: "RegisterHook ctx s h (cn_transport c) = (None, t)"
  shows "conn_ok (c\<lparr>cn_transport := t, cn_trace := cn_trace c @
      (if tr_fresh t = tr_fresh (cn_transport c) then []
       else [Registered s (tr_fresh (cn_transport c)) (case ctx of None \<Rightarrow> [] | Some i \<Rightarrow> i)])\<rparr>)"
proof -
  let ?t = "cn_transport c" and ?tr = "cn_trace c" and ?i = "case ctx of None \<Rightarrow> [] | Some i \<Rightarrow> i"
  have parts: "channels_ok ?t ?tr" "\<forall>s. queued ?t ?tr s" "hooks_ok ?t (cn_tasks c) ?tr" "tasks_ok (cn_tasks c) ?tr" "opened_well ?tr"
    using ok by (simp_all add: conn_ok_def)
  show ?thesis
  proof (cases "tr_hooks ?t ?i")
    case (Some pending)
    then have t: "t = ?t\<lparr>tr_hooks := (tr_hooks ?t)(?i \<mapsto> pending\<lparr>op_hook := h\<rparr>)\<rparr>"
      using register_cases[OF r] by (simp add: Let_def)
    have "hooks_ok t (cn_tasks c) ?tr" unfolding t using parts(3) Some by (rule hooks_replaced)
    moreover have "channels_ok t ?tr" "\<forall>s. queued t ?tr s" using parts(1,2) t by (simp_all add: channels_ok_def queued_def)
    moreover have "tr_fresh t = tr_fresh ?t" using t by simp
    ultimately show ?thesis using parts(4,5) by (simp add: conn_ok_def)
  next
    case None
    let ?p = "\<lparr>op_sessionID = s, op_hook = h, op_ready = tr_fresh ?t, op_previous = tr_ready ?t s\<rparr>"
    let ?e = "Registered s (tr_fresh ?t) ?i"
    have t: "t = ?t\<lparr>tr_ready := (tr_ready ?t)(s \<mapsto> tr_fresh ?t), tr_hooks := (tr_hooks ?t)(?i \<mapsto> ?p), tr_fresh := Suc (tr_fresh ?t)\<rparr>"
      using register_cases[OF r] None by (simp add: Let_def)
    have p: "pub_ok (?tr @ [?e]) ?p"
      using pub_new[OF parts(1), of ?p ?i] parts(2) by simp
    have "channels_ok t (?tr @ [?e])" unfolding t by (rule channels_new[OF parts(1)])
    moreover have "\<forall>s'. queued t (?tr @ [?e]) s'" unfolding t using queued_new parts(2) by blast
    moreover have "hooks_ok t (cn_tasks c) (?tr @ [?e])"
      unfolding t by (rule hooks_new[OF parts(3,1) p _ _ parts(4) None]) simp_all
    moreover have "tasks_ok (cn_tasks c) (?tr @ [?e])" by (rule tasks_new[OF parts(4,1)])
    moreover have "opened_well (?tr @ [?e])" using parts(5) by (rule opened_well_append) simp
    moreover have "tr_fresh t \<noteq> tr_fresh ?t" using t by simp
    ultimately show ?thesis by (simp add: conn_ok_def)
  qed
qed

lemma reachable_ok:
  assumes "reachable_conn decode c" and "\<not> cn_done c"
  shows "conn_ok c"
  using assms
proof (induction rule: reachable_conn.induct)
  case (new key)
  show ?case by (rule conn_ok_new)
next
  case (step c d)
  have nd: "\<not> cn_done c" using step.hyps(2) step.prems by (cases rule: conn_step.cases) (auto simp: over_def Let_def)
  then have ok: "conn_ok c" using step.IH by blast
  from step.hyps(2) show ?case
  proof (cases rule: conn_step.cases)
    case (read line)
    then show ?thesis using conn_ok_aside[OF ok aside_inbound] by simp
  next
    case (raw r)
    then show ?thesis using conn_ok_aside[OF ok aside_raw] by simp
  next
    case (await meta)
    then show ?thesis using conn_ok_aside[OF ok aside_await(1)] by simp
  next
    case (unawait meta ch)
    then show ?thesis using conn_ok_aside[OF ok aside_await(2)] by simp
  next
    case (buffer data)
    then show ?thesis using conn_ok_aside[OF ok aside_buffer] by simp
  next
    case (register ctx s h t)
    show ?thesis unfolding register(1) by (rule conn_ok_register[OF ok register(2)])
  next
    case (frame line t)
    then show ?thesis using conn_ok_aside[OF ok] frame_cases[OF frame(2)] by simp
  next
    case (answer line p success t head)
    show ?thesis unfolding answer(1) by (rule conn_ok_answer[OF ok answer(2,3)])
  next
    case (start i)
    show ?thesis unfolding start(1) by (rule conn_ok_start[OF ok start(2) refl start(4,5)])
  next
    case (finish i)
    then show ?thesis using conn_ok_finish[OF ok finish(2)] nd by auto
  next
    case close
    then show ?thesis using step.prems by simp
  qed
qed

definition sample_decode :: decode where
  "sample_decode line =
     (if line = ''ask'' then Some \<lparr>fh_ID = ''7'', fh_Method = AgentMethodSessionNew, fh_Error = [], fh_SessionID = [], fh_Params = None\<rparr>
      else if line = ''reply'' then Some \<lparr>fh_ID = ''7'', fh_Method = [], fh_Error = [], fh_SessionID = [], fh_Params = None\<rparr>
      else None)"

lemma sample_run:
  "\<exists>c. reachable_conn sample_decode (c :: unit conn) \<and> \<not> cn_done c \<and>
     cn_trace c = [Registered ''s'' 0 ''7'', Answered ''7'' True] @ Opened ''s'' 0 # []"
proof -
  let ?c0 = "NewConn ''key'' :: unit conn"
  let ?t1 = "snd (inbound sample_decode ''ask'' (cn_transport ?c0))"
  let ?t2 = "snd (RegisterHook (Some ''7'') ''s'' () ?t1)"
  let ?t3 = "snd (observeOutboundFrame sample_decode ''reply'' ?t2)"
  let ?p = "\<lparr>op_sessionID = ''s'', op_hook = (), op_ready = 0, op_previous = None\<rparr>"
  have 2: "fst (RegisterHook (Some ''7'') ''s'' () ?t1) = None" "tr_fresh ?t1 = 0" "tr_fresh ?t2 = 1" by code_simp+
  have 3: "fst (observeOutboundFrame sample_decode ''reply'' ?t2) = Some (?p, True)" by code_simp
  have head: "sample_decode ''reply'' = Some (the (sample_decode ''reply''))" by (simp add: sample_decode_def)
  have id: "frameID (fh_ID (the (sample_decode ''reply''))) = ''7''" by code_simp
  let ?c1 = "?c0\<lparr>cn_transport := ?t1\<rparr>"
  have r1: "reachable_conn sample_decode ?c1" by (rule reachable_conn.step[OF reachable_conn.new conn_step.read])
  have "reachable_conn sample_decode (?c1\<lparr>cn_transport := ?t2, cn_trace := [Registered ''s'' 0 ''7'']\<rparr>)" (is "reachable_conn _ ?c2")
    using reachable_conn.step[OF r1 conn_step.register[of "Some ''7''" "''s''" "()" ?c1 ?t2]] 2
    by (simp add: NewConn_def prod_eq_iff)
  then have r3: "reachable_conn sample_decode (?c2\<lparr>cn_transport := ?t3, cn_tasks := [\<lparr>tk_pub = ?p, tk_success = True, tk_phase = Waiting\<rparr>],
      cn_trace := [Registered ''s'' 0 ''7'', Answered ''7'' True]\<rparr>)" (is "reachable_conn _ ?c3")
    using reachable_conn.step[OF _ conn_step.answer[of sample_decode "''reply''" ?c2 ?p True ?t3, OF _ head]] 3 id
    by (simp add: NewConn_def prod_eq_iff)
  have "reachable_conn sample_decode (?c3\<lparr>cn_tasks := [\<lparr>tk_pub = ?p, tk_success = True, tk_phase = Running\<rparr>],
      cn_trace := [Registered ''s'' 0 ''7'', Answered ''7'' True, Opened ''s'' 0]\<rparr>)" (is "reachable_conn _ ?c4")
    using reachable_conn.step[OF r3 conn_step.start[of 0 ?c3]] by (simp add: previous_over_def)
  then show ?thesis by (intro exI[of _ ?c4]) (simp add: NewConn_def)
qed

text \<open>C27: On a connection that is not closed, a session's opening publication starts only after the
  successful response to the request it was registered under has been written, and only after every
  publication registered earlier for that session is over.\<close>

theorem openings_follow_their_responses:
  assumes "reachable_conn decode c" and "\<not> cn_done c" and "cn_trace c = earlier @ Opened s r # later"
  shows "(\<exists>x i y z. earlier = x @ Registered s r i # y @ Answered i True # z) \<and>
    (\<forall>xs ys. registered s earlier = xs @ r # ys \<longrightarrow> set xs \<subseteq> {q. Ended s q \<in> set earlier})"
  using reachable_ok[OF assms(1,2)] assms(3)
  by (simp add: conn_ok_def opened_well_def answered_def first_left_def ended_def)

theorem openings_follow_their_responses_witness:
  "\<exists>c. reachable_conn sample_decode (c :: unit conn) \<and> \<not> cn_done c \<and>
     cn_trace c = [Registered ''s'' 0 ''7'', Answered ''7'' True] @ Opened ''s'' 0 # [] \<and>
     (\<exists>x i y z. [Registered ''s'' 0 ''7'', Answered ''7'' True] = x @ Registered ''s'' 0 i # y @ Answered i True # z)"
  using sample_run openings_follow_their_responses[of sample_decode] by blast

end
