(* ===== verification/Utf8.thy ===== *)
theory Utf8
  imports Json Bytes "HOL-Library.Sublist"
begin

text \<open>
  A byte string as the runes Go reads from it: well-formed sequences, and single bytes that start
  none.
\<close>

section \<open>Runes\<close>

function runes :: "string \<Rightarrow> string list" where
  "runes s = (if s = [] then [] else take (max 1 (utf8_len s)) s # runes (drop (max 1 (utf8_len s)) s))"
  by pat_completeness auto
termination by (relation "measure length") auto

declare runes.simps [simp del]

definition rune_ok :: "string \<Rightarrow> bool" where
  "rune_ok r \<longleftrightarrow> r \<noteq> [] \<and> utf8_len r = length r"

definition rune_space :: "string \<Rightarrow> bool" where
  "rune_space r \<longleftrightarrow> byte_values r \<in> set spaces"

text \<open>\<open>strings.ToValidUTF8\<close> with the empty replacement, \<open>string\<close> of a list of runes, and
  \<open>strings.Fields\<close>.\<close>

definition drop_invalid :: "string \<Rightarrow> string" where
  "drop_invalid s = concat (filter rune_ok (runes s))"

definition runes_text :: "string list \<Rightarrow> string" where
  "runes_text rs = concat (map (\<lambda>r. if rune_ok r then r else rune_error) rs)"

function words_of :: "string list \<Rightarrow> string list list" where
  "words_of rs =
     (case dropWhile rune_space rs of
        [] \<Rightarrow> []
      | r # rest \<Rightarrow> (r # takeWhile (\<lambda>r. \<not> rune_space r) rest) # words_of (dropWhile (\<lambda>r. \<not> rune_space r) rest))"
  by pat_completeness auto
termination
proof (relation "measure length")
  fix rs rest :: "string list" and r
  assume "dropWhile rune_space rs = r # rest"
  then have "length rest < length rs" using length_dropWhile_le[of rune_space rs] by simp
  then show "(dropWhile (\<lambda>r. \<not> rune_space r) rest, rs) \<in> measure length"
    using length_dropWhile_le[of "\<lambda>r. \<not> rune_space r" rest] by simp
qed simp

declare words_of.simps [simp del]

definition Fields :: "string \<Rightarrow> string list" where
  "Fields s = map concat (words_of (runes s))"

section \<open>Well-formed runes\<close>

lemma runes_Nil [simp]: "runes [] = []"
  by (simp add: runes.simps)

lemma concat_runes [simp]: "concat (runes s) = s"
proof (induction s rule: runes.induct)
  case (1 s)
  then show ?case by (cases "s = []") (simp_all add: runes.simps[of s])
qed

lemma utf8_head_take: "utf8_head bs = n \<Longrightarrow> 0 < n \<Longrightarrow> utf8_head (take n bs @ cs) = n"
  by (cases bs; cases "tl bs"; cases "tl (tl bs)"; cases "tl (tl (tl bs))") (auto simp: utf8_head_def split: if_splits)

lemma utf8_head_4: "utf8_head (take 4 bs) = utf8_head bs"
  by (auto simp: utf8_head_def take_Cons' split: list.splits)

lemma utf8_len_bytes: "utf8_len s = utf8_head (map of_char s)"
  unfolding utf8_len_def take_map[symmetric] by (rule utf8_head_4)

lemma rune_ok_append:
  assumes "rune_ok r"
  shows "utf8_len (r @ t) = length r"
  using utf8_head_take[of "map of_char r" "length r" "map of_char t"] assms
  by (simp add: rune_ok_def utf8_len_bytes)

lemma rune_ok_head: "utf8_len s \<noteq> 0 \<Longrightarrow> rune_ok (take (utf8_len s) s)"
  using utf8_head_take[of "map of_char s" "utf8_len s" "[]"] utf8_len_le[of s]
  by (auto simp: rune_ok_def utf8_len_bytes take_map[symmetric] utf8_head_def)

lemma runes_append:
  assumes "list_all rune_ok rs"
  shows "runes (concat rs @ t) = rs @ runes t"
  using assms
proof (induction rs)
  case (Cons r rs)
  then have r: "utf8_len (r @ concat rs @ t) = length r" "r \<noteq> []" using rune_ok_append by (auto simp: rune_ok_def)
  then have "max 1 (length r) = length r" by (cases r) auto
  with r Cons show ?case by (simp add: runes.simps[of "r @ concat rs @ t"])
qed simp

lemma runes_concat: "list_all rune_ok rs \<Longrightarrow> runes (concat rs) = rs"
  using runes_append[of rs "[]"] by simp

lemma valid_runes: "valid_utf8 s \<longleftrightarrow> list_all rune_ok (runes s)"
proof (induction s rule: runes.induct)
  case (1 s)
  show ?case
  proof (cases "s = []")
    case False
    then show ?thesis
    proof (cases "utf8_len s = 0")
      case True
      have "utf8_len (take 1 s) = 0"
        using True False by (cases s) (auto simp: utf8_len_bytes utf8_head_def split: if_splits list.splits)
      then have "\<not> rune_ok (take 1 s)" using False by (auto simp: rune_ok_def)
      then show ?thesis using False True by (simp add: valid_utf8.simps[of s] runes.simps[of s])
    next
      case n: False
      then have "max 1 (utf8_len s) = utf8_len s" by simp
      then show ?thesis
        using 1[OF False] False n rune_ok_head[OF n] by (simp add: valid_utf8.simps[of s] runes.simps[of s])
    qed
  qed simp
qed

lemma valid_concat: "list_all rune_ok rs \<Longrightarrow> valid_utf8 (concat rs)"
  by (simp add: valid_runes runes_concat)

lemma list_all_filter: "list_all P (filter P xs)"
  by (simp add: list_all_iff)

lemma drop_invalid_valid: "valid_utf8 (drop_invalid s)"
  unfolding drop_invalid_def by (rule valid_concat[OF list_all_filter])

lemma drop_invalid_same: "valid_utf8 s \<Longrightarrow> drop_invalid s = s"
  by (simp add: drop_invalid_def valid_runes list_all_iff filter_id_conv)

lemma length_concat_filter: "length (concat (filter P xs)) \<le> length (concat xs)"
  by (induction xs) auto

lemma drop_invalid_length: "length (drop_invalid s) \<le> length s"
  using length_concat_filter[of rune_ok "runes s"] by (simp add: drop_invalid_def)

section \<open>Trimming runes\<close>

lemma rune_bytes:
  assumes "rune_ok r"
  shows "\<not> cont_byte (of_char (hd r))" and "\<forall>c \<in> set (tl r). cont_byte (of_char c)"
proof -
  obtain c r' where r: "r = c # r'" using assms by (cases r) (auto simp: rune_ok_def)
  have head: "utf8_head (map of_char r) = length r" using assms by (simp add: rune_ok_def utf8_len_bytes)
  have "\<not> cont_byte (of_char c) \<and> (\<forall>c \<in> set r'. cont_byte (of_char c))"
    using head unfolding r utf8_head_def
    by (cases r'; cases "tl r'"; cases "tl (tl r')") (auto simp: cont_byte_def utf8_second_def split: if_splits list.splits)
  then show "\<not> cont_byte (of_char (hd r))" "\<forall>c \<in> set (tl r). cont_byte (of_char c)" by (simp_all add: r)
qed

lemma spaces_ok: "e \<in> set spaces \<Longrightarrow> utf8_head e = length e \<and> e \<noteq> [] \<and> \<not> cont_byte (hd e) \<and> (\<forall>b \<in> set (tl e). cont_byte b) \<and> length e \<le> 3"
  by (auto simp: spaces_def utf8_head_def cont_byte_def utf8_second_def)

lemma find_one: "(\<And>e. e \<in> set xs \<Longrightarrow> P e \<longleftrightarrow> e = x) \<Longrightarrow> find P xs = (if x \<in> set xs then Some x else None)"
  by (induction xs) auto

lemma take_3: "length e \<le> 3 \<Longrightarrow> take (length e) (byte_values (take 3 s)) = e \<longleftrightarrow> prefix e (byte_values s)"
  by (auto simp: byte_values_def prefix_def take_map[symmetric] min_def) (metis append_take_drop_id take_map)+

lemma space_prefix:
  assumes "rune_ok r" and "e \<in> set spaces"
  shows "prefix e (byte_values (r @ t)) \<longleftrightarrow> e = byte_values r"
proof
  assume "prefix e (byte_values (r @ t))"
  then obtain u where u: "map of_char (r @ t) = e @ u" by (auto simp: prefix_def byte_values_def)
  have "utf8_head (e @ u) = length e"
    using utf8_head_take[of e "length e" u] spaces_ok[OF assms(2)] by simp
  moreover have "utf8_head (e @ u) = length r" using rune_ok_append[OF assms(1), of t] u by (simp add: utf8_len_bytes)
  ultimately show "e = byte_values r" using u by (simp add: byte_values_def append_eq_append_conv)
qed (simp add: byte_values_def)

lemma space_suffix:
  assumes r: "rune_ok r" and e: "e \<in> set spaces"
  shows "suffix e (byte_values (t @ r)) \<longleftrightarrow> e = byte_values r"
proof
  have tail: "zs = []" if "f = zs @ g" "\<forall>b \<in> set (tl f). cont_byte b" "g \<noteq> []" "\<not> cont_byte (hd g)" for f g zs :: "nat list"
    using that by (cases zs; cases g) auto
  have r': "\<not> cont_byte (hd (byte_values r))" "\<forall>b \<in> set (tl (byte_values r)). cont_byte b" "byte_values r \<noteq> []"
    using rune_bytes[OF r] r by (cases r; auto simp: rune_ok_def byte_values_def)+
  assume "suffix e (byte_values (t @ r))"
  moreover have "suffix (byte_values r) (byte_values (t @ r))" by (simp add: byte_values_def suffix_def)
  ultimately consider "suffix e (byte_values r)" | "suffix (byte_values r) e" using suffix_same_cases by blast
  then show "e = byte_values r"
  proof cases
    case 1
    then show ?thesis using tail[of "byte_values r" _ e] r'(2) spaces_ok[OF e] by (auto simp: suffix_def)
  next
    case 2
    then show ?thesis using tail[of e _ "byte_values r"] r' spaces_ok[OF e] by (auto simp: suffix_def)
  qed
qed (simp add: byte_values_def suffix_def)

lemma leading_rune: "rune_ok r \<Longrightarrow> leading_space (r @ t) = (if rune_space r then length r else 0)"
proof -
  assume r: "rune_ok r"
  have "find (\<lambda>e. take (length e) (byte_values (take 3 (r @ t))) = e) spaces = (if byte_values r \<in> set spaces then Some (byte_values r) else None)"
    by (rule find_one) (use r space_prefix take_3 spaces_ok in blast)
  then show ?thesis by (simp add: leading_space_def rune_space_def byte_values_def)
qed

lemma trailing_rune: "rune_ok r \<Longrightarrow> trailing_space (t @ r) = (if rune_space r then length r else 0)"
proof -
  assume r: "rune_ok r"
  have ends: "take (length e) (byte_values (take 3 (rev (t @ r)))) = rev e \<longleftrightarrow> e = byte_values r" if e: "e \<in> set spaces" for e
  proof -
    have "length (rev e) \<le> 3" using spaces_ok[OF e] by simp
    from take_3[OF this, of "rev (t @ r)"]
    have "take (length e) (byte_values (take 3 (rev (t @ r)))) = rev e \<longleftrightarrow> prefix (rev e) (byte_values (rev (t @ r)))"
      unfolding length_rev .
    also have "\<dots> \<longleftrightarrow> suffix e (byte_values (t @ r))" by (simp add: suffix_to_prefix byte_values_def rev_map)
    finally show ?thesis using space_suffix[OF r e] by simp
  qed
  have "find (\<lambda>e. take (length e) (byte_values (take 3 (rev (t @ r)))) = rev e) spaces = (if byte_values r \<in> set spaces then Some (byte_values r) else None)"
    by (rule find_one) (use ends in blast)
  then show ?thesis unfolding trailing_space_def rune_space_def by (simp add: byte_values_def del: rev_append)
qed

lemma trim_left_runes: "list_all rune_ok rs \<Longrightarrow> trim_space_left (concat rs) = concat (dropWhile rune_space rs)"
proof (induction rs)
  case Nil
  then show ?case by (simp add: trim_space_left.simps)
next
  case (Cons r rs)
  then show ?case
    using leading_rune[of r "concat rs"] by (auto simp: trim_space_left.simps[of "r @ concat rs"] rune_ok_def)
qed

lemma trim_right_runes: "list_all rune_ok rs \<Longrightarrow> trim_space_right (concat rs) = concat (rev (dropWhile rune_space (rev rs)))"
proof (induction rs rule: rev_induct)
  case Nil
  then show ?case by (simp add: trim_space_right.simps)
next
  case (snoc r rs)
  then show ?case
    using trailing_rune[of r "concat rs"] by (auto simp: trim_space_right.simps[of "concat rs @ r"] rune_ok_def)
qed

definition strip_runes :: "string list \<Rightarrow> string list" where
  "strip_runes rs = rev (dropWhile rune_space (rev (dropWhile rune_space rs)))"

lemma strip_runes_all: "list_all P rs \<Longrightarrow> list_all P (strip_runes rs)"
  by (auto simp: strip_runes_def list_all_iff dest!: set_dropWhileD)

lemma strip_runes_length: "length (strip_runes rs) \<le> length rs"
  using length_dropWhile_le[of rune_space "rev (dropWhile rune_space rs)"] length_dropWhile_le[of rune_space rs]
  by (simp add: strip_runes_def)

lemma TrimSpace_runes:
  assumes "list_all rune_ok rs"
  shows "TrimSpace (concat rs) = concat (strip_runes rs)"
proof -
  have "list_all rune_ok (dropWhile rune_space rs)" using assms by (auto simp: list_all_iff dest: set_dropWhileD)
  then show ?thesis using assms by (simp add: TrimSpace_def trim_left_runes trim_right_runes strip_runes_def)
qed

lemma TrimSpace_valid: "valid_utf8 s \<Longrightarrow> valid_utf8 (TrimSpace s)"
  using TrimSpace_runes[of "runes s"] valid_concat[OF strip_runes_all[of rune_ok "runes s"]] by (simp add: valid_runes)

lemma trim_length: "length (trim_space_left s) \<le> length s" "length (trim_space_right s) \<le> length s"
proof -
  show "length (trim_space_left s) \<le> length s"
    by (induction s rule: trim_space_left.induct) (subst trim_space_left.simps, auto)
  show "length (trim_space_right s) \<le> length s"
    by (induction s rule: trim_space_right.induct) (subst trim_space_right.simps, auto)
qed

lemma TrimSpace_length: "length (TrimSpace s) \<le> length s"
  unfolding TrimSpace_def using trim_length le_trans by blast

end
