(* ===== verification/Refusals.thy ===== *)
theory Refusals
  imports Negotiation Environment Utf8
begin

text \<open>
  wire/errors.go: the uniform error shapes every request is refused with.  A \<open>RequestError\<close> of the
  SDK is the kind of error it was built as and the data it carries.
\<close>

section \<open>The shapes\<close>

datatype RequestError = InvalidParams go_map | InvalidRequest go_map | InternalError go_map

definition nativeCauseMaxBytes :: nat where "nativeCauseMaxBytes = 2048"
definition processCauseMaxBytes :: nat where "processCauseMaxBytes = nativeCauseMaxBytes + 16 * 1024"

definition FieldError :: string where "FieldError = ''error''"
definition FieldField :: string where "FieldField = ''field''"
definition FieldCause :: string where "FieldCause = ''cause''"
definition FieldMessage :: string where "FieldMessage = ''message''"
definition FieldClass :: string where "FieldClass = ''class''"
definition FieldLimit :: string where "FieldLimit = ''limit''"
definition FieldRecovery :: string where "FieldRecovery = ''recovery''"

definition verdictUnknownSession :: string where "verdictUnknownSession = ''unknown session''"
definition verdictBackpressure :: string where "verdictBackpressure = ''backpressure''"
definition verdictAgentClosed :: string where "verdictAgentClosed = ''agent closed''"
definition fieldSessionID :: string where "fieldSessionID = ''sessionId''"
definition fieldSeedFiles :: string where "fieldSeedFiles = ''seedFiles''"

definition RecoveryRecovered :: string where "RecoveryRecovered = ''recovered''"
definition RecoveryFailed :: string where "RecoveryFailed = ''failed''"
definition CauseProcessExit :: string where "CauseProcessExit = ''process_exit''"
definition CauseTransport :: string where "CauseTransport = ''transport''"
definition CauseProvider :: string where "CauseProvider = ''provider''"

definition TokenInvalidOptions :: string where "TokenInvalidOptions = ''invalid_options''"
definition TokenRestoreFailed :: string where "TokenRestoreFailed = ''restore_failed''"
definition TokenRuntimeUnavailable :: string where "TokenRuntimeUnavailable = ''runtime_unavailable''"
definition TokenSessionPoisoned :: string where "TokenSessionPoisoned = ''session_poisoned''"
definition TokenInternalFailure :: string where "TokenInternalFailure = ''internal_failure''"
definition TokenTurnFailed :: string where "TokenTurnFailed = ''turn_failed''"

lemmas error_fields = FieldError_def FieldField_def FieldCause_def FieldMessage_def FieldClass_def FieldLimit_def FieldRecovery_def

section \<open>Parameter refusals\<close>

definition Unsupported :: "string \<Rightarrow> RequestError" where
  "Unsupported f = InvalidParams [(FieldError, AString VerdictUnsupported), (FieldField, AString f)]"

definition Missing :: "string \<Rightarrow> RequestError" where
  "Missing f = InvalidParams [(FieldError, AString VerdictMissing), (FieldField, AString f)]"

definition SessionIDMaxBytes :: nat where "SessionIDMaxBytes = 4096"

definition UnknownSession :: RequestError where
  "UnknownSession = InvalidParams [(FieldError, AString verdictUnknownSession), (FieldField, AString fieldSessionID)]"

definition CheckSessionID :: "string \<Rightarrow> RequestError option" where
  "CheckSessionID sid = (if length sid > SessionIDMaxBytes then Some UnknownSession else None)"

definition Backpressure :: "string \<Rightarrow> RequestError" where
  "Backpressure limit = InvalidRequest [(FieldError, AString verdictBackpressure), (FieldLimit, AString limit)]"

definition AgentClosed :: RequestError where
  "AgentClosed = InvalidRequest [(FieldError, AString verdictAgentClosed)]"

definition ParamRefusal :: "ParamError \<Rightarrow> RequestError" where
  "ParamRefusal err = (if pe_Verdict err = VerdictMissing then Missing (pe_Field err) else Unsupported (pe_Field err))"

definition AuthenticateRefused :: "go_map \<Rightarrow> string \<Rightarrow> RequestError" where
  "AuthenticateRefused meta methodID =
     (case RejectKey meta of
        Some refusal \<Rightarrow> ParamRefusal refusal
      | None \<Rightarrow> InvalidParams [(''methodId'', AString methodID)])"

text \<open>The stop reason and the message id a prompt is answered with.\<close>

definition CancelledResponse :: "string option \<Rightarrow> string \<times> string option" where
  "CancelledResponse messageID = (''cancelled'', messageID)"

section \<open>Turn failures\<close>

definition boundNativeCause :: "string \<Rightarrow> string \<Rightarrow> string" where
  "boundNativeCause message cause =
     (let message =
        (if cause = CauseProcessExit then
           if length message > processCauseMaxBytes then drop (length message - processCauseMaxBytes) message else message
         else if length message > nativeCauseMaxBytes then take nativeCauseMaxBytes message
         else message)
      in TrimSpace (drop_invalid message))"

record TurnFailure =
  tf_Cause :: string
  tf_Message :: string
  tf_StatusCode :: int
  tf_ProviderCode :: string
  tf_Recovery :: string
  tf_Stage :: string
  tf_Reason :: string
  tf_SizeBytes :: int
  tf_MaxBytes :: int

definition stated :: "string \<Rightarrow> string \<Rightarrow> go_map" where
  "stated key text = (if text \<noteq> [] then [(key, AString text)] else [])"

definition counted :: "string \<Rightarrow> int \<Rightarrow> go_map" where
  "counted key n = (if n > 0 then [(key, AInt n)] else [])"

definition TurnFailed :: "string \<Rightarrow> TurnFailure \<Rightarrow> RequestError" where
  "TurnFailed vendor failure =
     InternalError
       ([(FieldError, AString (vendor @ ''_'' @ TokenTurnFailed)),
         (FieldCause, AString (tf_Cause failure)),
         (FieldMessage, AString (boundNativeCause (tf_Message failure) (tf_Cause failure)))] @
        counted ''statusCode'' (tf_StatusCode failure) @
        stated ''providerCode'' (tf_ProviderCode failure) @
        stated FieldRecovery (tf_Recovery failure) @
        stated ''stage'' (tf_Stage failure) @
        stated ''reason'' (tf_Reason failure) @
        counted ''sizeBytes'' (tf_SizeBytes failure) @
        counted ''maxBytes'' (tf_MaxBytes failure))"

definition failure_token :: "string \<Rightarrow> string \<Rightarrow> string \<times> go_any" where
  "failure_token vendor token = (FieldError, AString (vendor @ ''_'' @ token))"

definition InvalidOptions :: "string \<Rightarrow> string \<Rightarrow> RequestError" where
  "InvalidOptions vendor f = InternalError (failure_token vendor TokenInvalidOptions # stated FieldField f)"

definition RestoreFailed :: "string \<Rightarrow> RequestError" where
  "RestoreFailed vendor = InternalError [failure_token vendor TokenRestoreFailed]"

text \<open>What is logged, and the error.\<close>

definition RestoreRefused :: "string \<Rightarrow> string \<Rightarrow> string \<Rightarrow> (string \<times> string) list \<times> RequestError" where
  "RestoreRefused vendor sessionID reason =
     ([(''vendor'', vendor), (''session_id'', sessionID), (''reason'', reason)], RestoreFailed vendor)"

definition RuntimeUnavailable :: "string \<Rightarrow> RequestError" where
  "RuntimeUnavailable vendor = InternalError [failure_token vendor TokenRuntimeUnavailable]"

definition SessionPoisoned :: "string \<Rightarrow> string \<Rightarrow> RequestError" where
  "SessionPoisoned vendor cause = InternalError [failure_token vendor TokenSessionPoisoned, (FieldCause, AString cause)]"

definition InternalFailure :: "string \<Rightarrow> string \<Rightarrow> RequestError" where
  "InternalFailure vendor class = InternalError (failure_token vendor TokenInternalFailure # stated FieldClass class)"

section \<open>The native cause\<close>

definition cause_bound :: "string \<Rightarrow> nat" where
  "cause_bound cause = (if cause = CauseProcessExit then processCauseMaxBytes else nativeCauseMaxBytes)"

lemma cause_length: "length (boundNativeCause message cause) \<le> cause_bound cause"
proof -
  have "length (TrimSpace (drop_invalid s)) \<le> length s" for s using TrimSpace_length drop_invalid_length le_trans by blast
  from le_trans[OF this, of _ "cause_bound cause"] show ?thesis
    by (simp add: boundNativeCause_def cause_bound_def Let_def)
qed

text \<open>The native cause a turn failure carries is valid UTF-8 of at most 2048 bytes, or of at most
  18432 bytes when the process exited: the start of the cause, or its end when the process exited,
  less surrounding whitespace.  A valid cause within its bound is carried whole.\<close>

theorem native_cause_bounded:
  "\<exists>data text. TurnFailed vendor failure = InternalError data \<and> map_of data FieldMessage = Some (AString text) \<and> valid_utf8 text \<and>
     (let message = tf_Message failure; exit = (tf_Cause failure = CauseProcessExit); bound = (if exit then 18432 else 2048)
      in length text \<le> bound \<and>
         text = TrimSpace (drop_invalid (if length message \<le> bound then message
           else if exit then drop (length message - bound) message else take bound message)) \<and>
         (if length message \<le> bound then if valid_utf8 message then text = TrimSpace message else True else True))"
proof -
  let ?text = "boundNativeCause (tf_Message failure) (tf_Cause failure)"
  have data: "\<exists>data. TurnFailed vendor failure = InternalError data \<and> map_of data FieldMessage = Some (AString ?text)"
    by (simp add: TurnFailed_def error_fields)
  have valid: "valid_utf8 ?text" by (simp add: boundNativeCause_def Let_def TrimSpace_valid drop_invalid_valid)
  have "length ?text \<le> (if tf_Cause failure = CauseProcessExit then 18432 else 2048)"
    using cause_length[of "tf_Message failure" "tf_Cause failure"]
    by (simp add: cause_bound_def processCauseMaxBytes_def nativeCauseMaxBytes_def split: if_splits)
  then have "let message = tf_Message failure; exit = (tf_Cause failure = CauseProcessExit); bound = (if exit then 18432 else 2048)
      in length ?text \<le> bound \<and>
         ?text = TrimSpace (drop_invalid (if length message \<le> bound then message
           else if exit then drop (length message - bound) message else take bound message)) \<and>
         (if length message \<le> bound then if valid_utf8 message then ?text = TrimSpace message else True else True)"
    by (simp add: boundNativeCause_def Let_def processCauseMaxBytes_def nativeCauseMaxBytes_def drop_invalid_same)
  with data valid show ?thesis by blast
qed

end
