(* ===== verification/Rfc3339.thy ===== *)
theory Rfc3339
  imports Prelude
begin

text \<open>
  Instants as \<open>time.Parse\<close> with the layouts \<open>RFC3339\<close> and \<open>RFC3339Nano\<close> reads them and \<open>Format\<close>
  writes them: seconds since the start of year 1 in UTC, and nanoseconds.
\<close>

section \<open>The calendar\<close>

definition leap_year :: "int \<Rightarrow> bool" where
  "leap_year y \<longleftrightarrow> y mod 4 = 0 \<and> (y mod 100 \<noteq> 0 \<or> y mod 400 = 0)"

definition year_days :: "int \<Rightarrow> int" where
  "year_days y = (if leap_year y then 366 else 365)"

definition month_lengths :: "int \<Rightarrow> int list" where
  "month_lengths y = [31, if leap_year y then 29 else 28, 31, 30, 31, 30, 31, 31, 30, 31, 30, 31]"

definition days_in :: "int \<Rightarrow> nat \<Rightarrow> int" where
  "days_in y m = month_lengths y ! (m - 1)"

text \<open>Days from the start of year 1 to the start of a year.\<close>

definition days_before_year :: "int \<Rightarrow> int" where
  "days_before_year y = 365 * (y - 1) + (y - 1) div 4 - (y - 1) div 100 + (y - 1) div 400"

definition days_before_month :: "int \<Rightarrow> nat \<Rightarrow> int" where
  "days_before_month y m = sum_list (take (m - 1) (month_lengths y))"

text \<open>The year a day from year \<open>y\<close> on falls in, and its day of that year.\<close>

function year_of :: "int \<Rightarrow> int \<Rightarrow> int \<times> int" where
  "year_of y d = (if d < year_days y then (y, d) else year_of (y + 1) (d - year_days y))"
  by pat_completeness auto
termination by (relation "measure (\<lambda>(y, d). nat (d + 1))") (auto simp: year_days_def split: if_splits)

declare year_of.simps [simp del]

fun month_of :: "nat \<Rightarrow> int list \<Rightarrow> int \<Rightarrow> nat \<times> int" where
  "month_of m [] d = (m, d)"
| "month_of m (n # ns) d = (if d < n then (m, d) else month_of (Suc m) ns (d - n))"

section \<open>Reading\<close>

record instant =
  in_Seconds :: int
  in_Nanos :: nat

definition zero_time :: instant where
  "zero_time = \<lparr>in_Seconds = 0, in_Nanos = 0\<rparr>"

text \<open>A number of a fixed width at the head of the text, and what follows it.\<close>

definition number :: "nat \<Rightarrow> string \<Rightarrow> (nat \<times> string) option" where
  "number width s =
     (if length (take width s) = width \<and> list_all is_digit (take width s) then Some (digits_value (take width s), drop width s)
      else None)"

definition hour_number :: "string \<Rightarrow> (nat \<times> string) option" where
  "hour_number s = (case number 2 s of Some r \<Rightarrow> Some r | None \<Rightarrow> number 1 s)"

definition literal :: "char \<Rightarrow> string \<Rightarrow> string option" where
  "literal c s = (case s of [] \<Rightarrow> None | b # rest \<Rightarrow> if b = c then Some rest else None)"

text \<open>The digits after the point, of which nine count.\<close>

definition fraction :: "string \<Rightarrow> nat \<times> string" where
  "fraction s =
     (case s of
        c # d # rest \<Rightarrow>
          if (c = CHR ''.'' \<or> c = CHR '','') \<and> is_digit d then
            (let digits = takeWhile is_digit (d # rest); used = take 9 digits
             in (digits_value used * 10 ^ (9 - length used), drop (length digits) (d # rest)))
          else (0, s)
      | _ \<Rightarrow> (0, s))"

definition zone :: "string \<Rightarrow> int option" where
  "zone s =
     (if s = ''Z'' then Some 0
      else if length s = 6 \<and> s ! 3 = CHR '':'' \<and> (s ! 0 = CHR ''+'' \<or> s ! 0 = CHR ''-'') then
        (case (number 2 (take 2 (drop 1 s)), number 2 (drop 4 s)) of
           (Some (hr, _), Some (mm, _)) \<Rightarrow>
             if hr > 24 \<or> mm > 60 then None
             else Some ((if s ! 0 = CHR ''-'' then -1 else 1) * int ((hr * 60 + mm) * 60))
         | _ \<Rightarrow> None)
      else None)"

definition seconds_at :: "int \<Rightarrow> nat \<Rightarrow> nat \<Rightarrow> nat \<Rightarrow> nat \<Rightarrow> nat \<Rightarrow> int" where
  "seconds_at y mo d h mi s =
     (days_before_year y + days_before_month y mo + int d - 1) * 86400 + int (h * 3600 + mi * 60 + s)"

definition parse_clock :: "int \<Rightarrow> nat \<Rightarrow> nat \<Rightarrow> string \<Rightarrow> instant option" where
  "parse_clock y mo d s = Option.bind (hour_number s) (\<lambda>(h, s). Option.bind (literal (CHR '':'') s) (\<lambda>s.
     Option.bind (number 2 s) (\<lambda>(mi, s). Option.bind (literal (CHR '':'') s) (\<lambda>s.
     Option.bind (number 2 s) (\<lambda>(sec, s). (let (ns, s) = fraction s
       in Option.bind (zone s) (\<lambda>offset.
            if h < 24 \<and> mi < 60 \<and> sec < 60 then
              Some \<lparr>in_Seconds = seconds_at y mo d h mi sec - offset, in_Nanos = ns\<rparr> else None)))))))"

definition time_Parse :: "string \<Rightarrow> instant option" where
  "time_Parse s = Option.bind (number 4 s) (\<lambda>(y, s). Option.bind (literal (CHR ''-'') s) (\<lambda>s.
     Option.bind (number 2 s) (\<lambda>(mo, s). Option.bind (literal (CHR ''-'') s) (\<lambda>s.
     Option.bind (number 2 s) (\<lambda>(d, s). Option.bind (literal (CHR ''T'') s) (\<lambda>s.
       if 1 \<le> mo \<and> mo \<le> 12 \<and> 1 \<le> d \<and> int d \<le> days_in (int y) mo then parse_clock (int y) mo d s else None))))))"

section \<open>Writing\<close>

definition padded :: "nat \<Rightarrow> nat \<Rightarrow> string" where
  "padded width n = (let s = show_nat n in replicate (width - length s) (CHR ''0'') @ s)"

text \<open>An instant from year 1 on, in UTC with whole seconds.\<close>

definition format_utc :: "int \<Rightarrow> string" where
  "format_utc seconds =
     (let (y, day) = year_of 1 (seconds div 86400); (mo, d) = month_of 1 (month_lengths y) day; clock = nat (seconds mod 86400)
      in padded 4 (nat y) @ ''-'' @ padded 2 mo @ ''-'' @ padded 2 (nat d + 1) @ ''T'' @
         padded 2 (clock div 3600) @ '':'' @ padded 2 (clock div 60 mod 60) @ '':'' @ padded 2 (clock mod 60) @ ''Z'')"

text \<open>The instants \<open>9999-12-31T23:59:59Z\<close> and earlier, from year 1.\<close>

definition in_years :: "int \<Rightarrow> bool" where
  "in_years seconds \<longleftrightarrow> 0 \<le> seconds \<and> seconds < days_before_year 10000 * 86400"

section \<open>The calendar is counted exactly\<close>

lemma div_step: "0 < k \<Longrightarrow> (y :: int) div k = (y - 1) div k + (if y mod k = 0 then 1 else 0)"
proof -
  assume k: "0 < k"
  have y: "y = k * (y div k) + y mod k" by simp
  show ?thesis
  proof (cases "y mod k = 0")
    case True
    then have "y - 1 = k * (y div k - 1) + (k - 1)" using y by (simp add: algebra_simps)
    then have "(y - 1) div k = y div k - 1" using k int_div_pos_eq[of "y - 1" k "y div k - 1" "k - 1"] by simp
    with True show ?thesis by simp
  next
    case False
    then have "y - 1 = k * (y div k) + (y mod k - 1)" using y by simp
    moreover have "0 \<le> y mod k - 1" "y mod k - 1 < k" using False k pos_mod_sign[of k y] pos_mod_bound[of k y] by linarith+
    ultimately have "(y - 1) div k = y div k" by (rule int_div_pos_eq)
    with False show ?thesis by simp
  qed
qed

lemma leap_sum:
  fixes y :: int
  assumes "d4 = a + (if p then 1 else 0)" and "d100 = b + (if q then 1 else 0)" and "d400 = c + (if r then 1 else 0)"
    and "r \<Longrightarrow> q" and "q \<Longrightarrow> p"
  shows "365 * y + d4 - d100 + d400 = 365 * (y - 1) + a - b + c + (if p \<and> (\<not> q \<or> r) then 366 else 365)"
  using assms by (cases p; cases q; cases r) simp_all

lemma multiples: "(y :: int) mod 400 = 0 \<Longrightarrow> y mod 100 = 0" "(y :: int) mod 100 = 0 \<Longrightarrow> y mod 4 = 0"
proof -
  have "400 dvd y \<Longrightarrow> 100 dvd y" by (rule dvd_trans[of 100 400]) simp_all
  then show "y mod 400 = 0 \<Longrightarrow> y mod 100 = 0" by (simp only: mod_eq_0_iff_dvd)
  have "100 dvd y \<Longrightarrow> 4 dvd y" by (rule dvd_trans[of 4 100]) simp_all
  then show "y mod 100 = 0 \<Longrightarrow> y mod 4 = 0" by (simp only: mod_eq_0_iff_dvd)
qed

lemma year_step: "days_before_year (y + 1) = days_before_year y + year_days y"
proof -
  have d: "y div 4 = (y - 1) div 4 + (if y mod 4 = 0 then 1 else 0)" by (rule div_step) simp
  have d100: "y div 100 = (y - 1) div 100 + (if y mod 100 = 0 then 1 else 0)" by (rule div_step) simp
  have d400: "y div 400 = (y - 1) div 400 + (if y mod 400 = 0 then 1 else 0)" by (rule div_step) simp
  have next_year: "days_before_year (y + 1) = 365 * y + y div 4 - y div 100 + y div 400" by (simp add: days_before_year_def)
  show ?thesis
    unfolding next_year unfolding days_before_year_def year_days_def leap_year_def
    by (rule leap_sum[OF d d100 d400 multiples])
qed

lemma days_mono: "a \<le> b \<Longrightarrow> days_before_year a \<le> days_before_year b"
proof (induction "nat (b - a)" arbitrary: b)
  case (Suc m)
  then have "days_before_year a \<le> days_before_year (b - 1)" by (intro Suc.hyps) auto
  then show ?case using year_step[of "b - 1"] by (simp add: year_days_def split: if_splits)
qed simp

lemma year_of_exact: "y0 \<le> y \<Longrightarrow> 0 \<le> r \<Longrightarrow> r < year_days y \<Longrightarrow> year_of y0 (days_before_year y - days_before_year y0 + r) = (y, r)"
proof (induction "nat (y - y0)" arbitrary: y0)
  case 0
  then show ?case by (simp add: year_of.simps)
next
  case (Suc n)
  then have le: "y0 + 1 \<le> y" by simp
  let ?d = "days_before_year y - days_before_year y0 + r"
  have "\<not> ?d < year_days y0" using days_mono[OF le] year_step[of y0] Suc.prems(2) by linarith
  then have "year_of y0 ?d = year_of (y0 + 1) (?d - year_days y0)" by (simp add: year_of.simps[of y0])
  also have "?d - year_days y0 = days_before_year y - days_before_year (y0 + 1) + r" using year_step[of y0] by simp
  also have "year_of (y0 + 1) \<dots> = (y, r)" using Suc.hyps(2) Suc.prems le by (intro Suc.hyps(1)) auto
  finally show ?case .
qed

lemma year_of_within:
  "0 \<le> d \<Longrightarrow> year_of y0 d = (y, r) \<Longrightarrow> y0 \<le> y \<and> 0 \<le> r \<and> r < year_days y \<and> d = days_before_year y - days_before_year y0 + r"
proof (induction y0 d rule: year_of.induct)
  case (1 y0 d)
  show ?case
  proof (cases "d < year_days y0")
    case True
    then show ?thesis using "1.prems" by (simp add: year_of.simps)
  next
    case False
    then have "year_of (y0 + 1) (d - year_days y0) = (y, r)" using "1.prems" by (simp add: year_of.simps[of y0])
    then show ?thesis using "1.IH"[OF False] False year_step[of y0] by auto
  qed
qed

lemma month_of_exact:
  "k < length ns \<Longrightarrow> 0 \<le> d \<Longrightarrow> d < ns ! k \<Longrightarrow> \<forall>n \<in> set ns. 0 \<le> n \<Longrightarrow> month_of m ns (sum_list (take k ns) + d) = (m + k, d)"
proof (induction k arbitrary: m ns)
  case 0
  then show ?case by (cases ns) auto
next
  case (Suc k)
  obtain n ns' where ns: "ns = n # ns'" using Suc.prems(1) by (cases ns) auto
  have "0 \<le> sum_list (take k ns')" using Suc.prems(4) unfolding ns by (intro sum_list_nonneg) (auto dest: in_set_takeD)
  then show ?case using Suc.IH[of ns' "Suc m"] Suc.prems by (simp add: ns)
qed

lemma month_of_within:
  "0 \<le> d \<Longrightarrow> d < sum_list ns \<Longrightarrow> \<exists>k e. month_of m ns d = (m + k, e) \<and> k < length ns \<and> 0 \<le> e \<and> e < ns ! k \<and> d = sum_list (take k ns) + e"
proof (induction m ns d rule: month_of.induct)
  case (2 m n ns d)
  show ?case
  proof (cases "d < n")
    case True
    then show ?thesis using "2.prems" by (auto intro!: exI[of _ 0])
  next
    case False
    then obtain k e where "month_of (Suc m) ns (d - n) = (Suc m + k, e)" "k < length ns" "0 \<le> e" "e < ns ! k" "d - n = sum_list (take k ns) + e"
      using 2 by auto
    then show ?thesis using False by (intro exI[of _ "Suc k"] exI[of _ e]) auto
  qed
qed simp

section \<open>What is written is read back\<close>

lemma show_nat_width: "n < 10 ^ w \<Longrightarrow> 0 < w \<Longrightarrow> length (show_nat n) \<le> w"
proof (induction n arbitrary: w rule: show_nat.induct)
  case (1 n)
  show ?case
  proof (cases "n < 10")
    case False
    with "1.prems" obtain v where w: "w = Suc v" "0 < v" by (cases w; cases "w - 1") auto
    with "1.prems" have "n div 10 < 10 ^ v" by auto
    with False w "1.IH" show ?thesis by (simp add: show_nat.simps[of n])
  qed (use "1.prems" in \<open>simp add: show_nat.simps[of n]\<close>)
qed

lemma padded_number:
  assumes "n < 10 ^ w" and "0 < w"
  shows "number w (padded w n @ t) = Some (n, t)"
proof -
  have len: "length (padded w n) = w" using show_nat_width[OF assms] by (simp add: padded_def Let_def)
  have zeros: "digits_value (replicate k (CHR ''0'') @ s) = digits_value s" for k s
    by (induction k) (simp_all add: digits_value_def)
  have "list_all is_digit (padded w n)" using show_nat_digits[of n] by (auto simp: padded_def Let_def list_all_iff is_digit_def)
  moreover have "digits_value (padded w n) = n" by (simp add: padded_def Let_def zeros)
  ultimately show ?thesis using len by (simp add: number_def)
qed

definition rendered :: "int \<Rightarrow> nat \<Rightarrow> nat \<Rightarrow> nat \<Rightarrow> nat \<Rightarrow> nat \<Rightarrow> string" where
  "rendered y mo d h mi s =
     padded 4 (nat y) @ ''-'' @ padded 2 mo @ ''-'' @ padded 2 d @ ''T'' @ padded 2 h @ '':'' @ padded 2 mi @ '':'' @ padded 2 s @ ''Z''"

definition moment :: "int \<Rightarrow> nat \<Rightarrow> nat \<Rightarrow> nat \<Rightarrow> nat \<Rightarrow> nat \<Rightarrow> bool" where
  "moment y mo d h mi s \<longleftrightarrow> 1 \<le> y \<and> y \<le> 9999 \<and> 1 \<le> mo \<and> mo \<le> 12 \<and> 1 \<le> d \<and> int d \<le> days_in y mo \<and> h < 24 \<and> mi < 60 \<and> s < 60"

lemma month_facts:
  "length (month_lengths y) = 12" "n \<in> set (month_lengths y) \<Longrightarrow> 0 \<le> n \<and> n \<le> 31" "sum_list (month_lengths y) = year_days y"
  by (auto simp: month_lengths_def year_days_def)

lemma parse_rendered:
  assumes "moment y mo d h mi s"
  shows "time_Parse (rendered y mo d h mi s) = Some \<lparr>in_Seconds = seconds_at y mo d h mi s, in_Nanos = 0\<rparr>"
proof -
  have "mo - 1 < length (month_lengths y)" using assms by (auto simp: moment_def month_facts(1))
  then have "int d \<le> 31" using assms nth_mem[of "mo - 1" "month_lengths y"] month_facts(2)[of _ y]
    by (fastforce simp: moment_def days_in_def)
  then have n: "nat y < 10 ^ 4" "mo < 10 ^ 2" "d < 10 ^ 2" "h < 10 ^ 2" "mi < 10 ^ 2" "s < 10 ^ 2"
    using assms by (auto simp: moment_def)
  note read = n[THEN padded_number]
  have "parse_clock y mo d (padded 2 h @ '':'' @ padded 2 mi @ '':'' @ padded 2 s @ ''Z'') =
      Some \<lparr>in_Seconds = seconds_at y mo d h mi s, in_Nanos = 0\<rparr>"
    using assms by (simp add: parse_clock_def hour_number_def read literal_def fraction_def zone_def moment_def)
  then show ?thesis
    using assms by (simp add: time_Parse_def rendered_def read literal_def moment_def)
qed

lemma format_rendered:
  assumes "moment y mo d h mi s"
  shows "format_utc (seconds_at y mo d h mi s) = rendered y mo d h mi s" and "in_years (seconds_at y mo d h mi s)"
proof -
  let ?clock = "h * 3600 + mi * 60 + s"
  let ?day = "days_before_month y mo + int d - 1"
  have "?clock = (h * 60 + mi) * 60 + s" by simp
  then have minutes: "?clock div 60 = h * 60 + mi" "?clock mod 60 = s"
    using assms by (simp_all only: div_mult_self3 mod_mult_self3) (simp_all add: moment_def)
  have clock: "?clock < 86400" "?clock div 3600 = h" "?clock div 60 mod 60 = mi" "?clock mod 60 = s"
    using assms minutes by (auto simp: moment_def)
  have k: "mo - 1 < length (month_lengths y)" "0 \<le> int d - 1" "int d - 1 < month_lengths y ! (mo - 1)"
    using assms by (auto simp: moment_def days_in_def month_facts(1))
  have m: "month_of 1 (month_lengths y) ?day = (mo, int d - 1)"
    using month_of_exact[OF k, of 1] month_facts(2)[of _ y] assms
    by (simp add: days_before_month_def moment_def add_diff_eq)
  have split: "sum_list (take (mo - 1) ns) + ns ! (mo - 1) + sum_list (drop (Suc (mo - 1)) ns) = sum_list ns"
    if "mo - 1 < length ns" for ns :: "int list"
    using that by (metis add.assoc id_take_nth_drop sum_list.Cons sum_list_append)
  have "0 \<le> sum_list (drop (Suc (mo - 1)) (month_lengths y))" "0 \<le> sum_list (take (mo - 1) (month_lengths y))"
    using month_facts(2) by (auto intro!: sum_list_nonneg dest: in_set_dropD in_set_takeD)
  then have day: "0 \<le> ?day" "?day < year_days y"
    using split[OF k(1)] k month_facts(3)[of y] by (auto simp: days_before_month_def)
  have y: "year_of 1 (days_before_year y + ?day) = (y, ?day)"
    using year_of_exact[OF _ day, of 1] assms by (simp add: moment_def days_before_year_def)
  have sec: "seconds_at y mo d h mi s = (days_before_year y + ?day) * 86400 + int ?clock" by (simp add: seconds_at_def)
  moreover have "(D * 86400 + C) div 86400 = D \<and> (D * 86400 + C) mod 86400 = C" if "0 \<le> C" "C < 86400" for D C :: int
    using that by simp
  ultimately have q: "seconds_at y mo d h mi s div 86400 = days_before_year y + ?day" "seconds_at y mo d h mi s mod 86400 = int ?clock"
    using clock(1) by (simp_all only: of_nat_0_le_iff)
  show "format_utc (seconds_at y mo d h mi s) = rendered y mo d h mi s"
    using assms by (simp add: format_utc_def q y m[unfolded One_nat_def] rendered_def Let_def clock moment_def Suc_nat_eq_nat_zadd1 del: of_nat_add of_nat_mult)
  have "0 \<le> days_before_year y" using assms days_mono[of 1 y] by (simp add: moment_def days_before_year_def)
  moreover have "days_before_year y + year_days y \<le> days_before_year 10000"
    using assms year_step[of y] days_mono[of "y + 1" 10000] by (simp add: moment_def)
  ultimately show "in_years (seconds_at y mo d h mi s)" using day clock(1) unfolding in_years_def sec by auto
qed

lemma in_years_moment:
  assumes "in_years seconds"
  shows "\<exists>y mo d h mi s. moment y mo d h mi s \<and> format_utc seconds = rendered y mo d h mi s"
proof -
  obtain y day where y: "year_of 1 (seconds div 86400) = (y, day)" by fastforce
  have pos: "0 \<le> seconds div 86400" using assms by (simp add: in_years_def pos_imp_zdiv_nonneg_iff)
  note w = year_of_within[OF pos y]
  have "day < sum_list (month_lengths y)" using w by (simp add: month_facts(3))
  then obtain k e where m: "month_of 1 (month_lengths y) day = (1 + k, e)" "k < 12" "0 \<le> e" "e < month_lengths y ! k"
    using month_of_within[of day "month_lengths y" 1] w month_facts(1) by auto
  have "y < 10000"
  proof (rule ccontr)
    assume "\<not> y < 10000"
    then have "days_before_year 10000 \<le> days_before_year y" by (intro days_mono) simp
    then have "days_before_year 10000 \<le> seconds div 86400" using w by (simp add: days_before_year_def)
    moreover have "seconds div 86400 * 86400 \<le> seconds" using div_mult_mod_eq[of seconds 86400] pos_mod_sign[of 86400 seconds] by linarith
    ultimately show False using assms unfolding in_years_def by linarith
  qed
  let ?clock = "nat (seconds mod 86400)"
  have clock: "?clock < 86400" by (simp add: nat_less_iff)
  then have "?clock div 3600 < 24" "?clock div 60 mod 60 < 60" "?clock mod 60 < 60" by (auto simp: less_mult_imp_div_less)
  moreover have "format_utc seconds = rendered y (1 + k) (nat e + 1) (?clock div 3600) (?clock div 60 mod 60) (?clock mod 60)"
    by (simp add: format_utc_def y m(1)[unfolded One_nat_def] rendered_def Let_def)
  moreover have "moment y (1 + k) (nat e + 1) (?clock div 3600) (?clock div 60 mod 60) (?clock mod 60)"
    using w m(2-4) \<open>y < 10000\<close> calculation(1-3) by (auto simp: moment_def days_in_def)
  ultimately show ?thesis by blast
qed

text \<open>An instant in range is read back from its form, and only the forms of such instants are their
  own forms.\<close>

lemma own_form:
  "(case time_Parse text of None \<Rightarrow> False | Some t \<Rightarrow> in_years (in_Seconds t) \<and> format_utc (in_Seconds t) = text) \<longleftrightarrow>
   (\<exists>y mo d h mi s. moment y mo d h mi s \<and> text = rendered y mo d h mi s)" (is "?read \<longleftrightarrow> ?form")
proof
  assume ?read
  then obtain t where "time_Parse text = Some t" by (auto split: option.splits)
  with \<open>?read\<close> have t: "in_years (in_Seconds t)" "format_utc (in_Seconds t) = text" by simp_all
  with in_years_moment[OF t(1)] show ?form by metis
next
  assume ?form
  then obtain y mo d h mi s where m: "moment y mo d h mi s" "text = rendered y mo d h mi s" by blast
  show ?read unfolding m(2) parse_rendered[OF m(1)] by (simp add: format_rendered[OF m(1)])
qed

end
