(* ===== verification/Sessions.thy ===== *)
theory Sessions
  imports Refusals Rfc3339 "HOL-Library.Multiset"
begin

text \<open>
  wire/sessions.go: session gates, the reservations of establishing requests, and pages of sessions.
  A gate is a buffered channel of tokens.  A release function is named by the acquisition it came
  from; \<open>released\<close> holds those already called, since each runs once.
\<close>

definition NativeSessionMeta :: "string \<Rightarrow> string \<Rightarrow> go_map" where
  "NativeSessionMeta vendor nativeID = [(vendor, AMap [(''nativeSessionId'', AString nativeID)])]"

definition sessionsPageSize :: nat where "sessionsPageSize = 50"

section \<open>Gates\<close>

record gate =
  gt_capacity :: nat
  gt_tokens :: nat
  gt_acquired :: nat
  gt_released :: "nat set"

definition AcquireSessionGate :: "string \<Rightarrow> gate \<Rightarrow> (RequestError + nat) \<times> gate" where
  "AcquireSessionGate limit g =
     (if gt_tokens g < gt_capacity g then
        (Inr (gt_acquired g), g\<lparr>gt_tokens := Suc (gt_tokens g), gt_acquired := Suc (gt_acquired g)\<rparr>)
      else (Inl (Backpressure limit), g))"

text \<open>\<open>None\<close> where the caller waits: the gate must be free.\<close>

definition HoldSessionGate :: "gate \<Rightarrow> (nat \<times> gate) option" where
  "HoldSessionGate g =
     (if gt_tokens g < gt_capacity g then
        Some (gt_acquired g, g\<lparr>gt_tokens := Suc (gt_tokens g), gt_acquired := Suc (gt_acquired g)\<rparr>)
      else None)"

definition release_gate :: "nat \<Rightarrow> gate \<Rightarrow> gate" where
  "release_gate h g =
     (if h \<in> gt_released g then g else g\<lparr>gt_tokens := gt_tokens g - 1, gt_released := insert h (gt_released g)\<rparr>)"

section \<open>Reservations\<close>

record SessionRequests =
  sq_pending :: "string set"
  sq_acquired :: nat
  sq_released :: "nat set"

definition requests_Pending :: "string \<Rightarrow> SessionRequests \<Rightarrow> bool" where
  "requests_Pending sid r \<longleftrightarrow> sid \<in> sq_pending r"

definition requests_Acquire :: "string \<Rightarrow> SessionRequests \<Rightarrow> (RequestError + nat) \<times> SessionRequests" where
  "requests_Acquire sid r =
     (if sid \<in> sq_pending r then (Inl (Backpressure ''session_restore''), r)
      else (Inr (sq_acquired r), r\<lparr>sq_pending := insert sid (sq_pending r), sq_acquired := Suc (sq_acquired r)\<rparr>))"

definition requests_release :: "string \<Rightarrow> nat \<Rightarrow> SessionRequests \<Rightarrow> SessionRequests" where
  "requests_release sid h r =
     (if h \<in> sq_released r then r else r\<lparr>sq_pending := sq_pending r - {sid}, sq_released := insert h (sq_released r)\<rparr>)"

section \<open>Cursors\<close>

text \<open>\<open>base64.RawURLEncoding\<close>: the alphabet of URLs, no padding, line ends ignored when decoding.\<close>

definition base64_char :: "nat \<Rightarrow> char" where
  "base64_char n =
     (if n < 26 then char_of (65 + n) else if n < 52 then char_of (71 + n) else if n < 62 then char_of (n - 4)
      else if n = 62 then CHR ''-'' else CHR ''_'')"

definition base64_value :: "char \<Rightarrow> nat option" where
  "base64_value c =
     (let n = of_char c
      in if 65 \<le> n \<and> n \<le> 90 then Some (n - 65) else if 97 \<le> n \<and> n \<le> 122 then Some (n - 71)
         else if 48 \<le> n \<and> n \<le> 57 then Some (n + 4) else if c = CHR ''-'' then Some 62 else if c = CHR ''_'' then Some 63 else None)"

fun sextets :: "nat list \<Rightarrow> nat list" where
  "sextets (a # b # c # rest) =
     a div 4 # (a mod 4 * 16 + b div 16) # (b mod 16 * 4 + c div 64) # c mod 64 # sextets rest"
| "sextets [a, b] = [a div 4, a mod 4 * 16 + b div 16, b mod 16 * 4]"
| "sextets [a] = [a div 4, a mod 4 * 16]"
| "sextets [] = []"

fun octets :: "nat list \<Rightarrow> nat list option" where
  "octets (w # x # y # z # rest) =
     map_option (\<lambda>bytes. (w * 4 + x div 16) # (x mod 16 * 16 + y div 4) # (y mod 4 * 64 + z) # bytes) (octets rest)"
| "octets [w, x, y] = Some [w * 4 + x div 16, x mod 16 * 16 + y div 4]"
| "octets [w, x] = Some [w * 4 + x div 16]"
| "octets [w] = None"
| "octets [] = Some []"

definition base64_encode :: "string \<Rightarrow> string" where
  "base64_encode s = map base64_char (sextets (map of_char s))"

definition base64_decode :: "string \<Rightarrow> string option" where
  "base64_decode s =
     (case those (map base64_value (filter (\<lambda>c. c \<noteq> char_of (10 :: nat) \<and> c \<noteq> char_of (13 :: nat)) s)) of
        None \<Rightarrow> None
      | Some values \<Rightarrow> map_option (map char_of) (octets values))"

section \<open>Pages\<close>

record SessionInfo =
  si_SessionId :: string
  si_UpdatedAt :: "string option"
  si_Cwd :: string

definition timestamp :: "string option \<Rightarrow> instant" where
  "timestamp stamp =
     (case stamp of None \<Rightarrow> zero_time | Some text \<Rightarrow> (case time_Parse text of None \<Rightarrow> zero_time | Some t \<Rightarrow> t))"

text \<open>Newest first, then by id.  Go leaves the order of sessions equal in both unspecified; the model
  keeps theirs.\<close>

definition page_key :: "SessionInfo \<Rightarrow> int \<times> int \<times> string" where
  "page_key s = (let t = timestamp (si_UpdatedAt s) in (- in_Seconds t, - int (in_Nanos t), si_SessionId s))"

definition ordered :: "SessionInfo list \<Rightarrow> SessionInfo list" where
  "ordered sessions = sort_key page_key sessions"

definition cursor_offset :: "string option \<Rightarrow> nat \<Rightarrow> nat option" where
  "cursor_offset cursor many =
     (case cursor of
        None \<Rightarrow> Some 0
      | Some text \<Rightarrow>
          if text = [] then Some 0
          else case base64_decode text of
                 None \<Rightarrow> None
               | Some data \<Rightarrow> (case parse_int data of
                   None \<Rightarrow> None
                 | Some i \<Rightarrow> if i < 0 \<or> i > int many then None else Some (nat i)))"

definition PaginateSessions :: "SessionInfo list \<Rightarrow> string option \<Rightarrow> RequestError + SessionInfo list \<times> string option" where
  "PaginateSessions sessions cursor =
     (let sessions = ordered sessions
      in case cursor_offset cursor (length sessions) of
           None \<Rightarrow> Inl (Unsupported ''cursor'')
         | Some offset \<Rightarrow>
             (let stop = offset + sessionsPageSize
              in if stop \<ge> length sessions then Inr (drop offset sessions, None)
                 else Inr (take (stop - offset) (drop offset sessions), Some (base64_encode (show_nat stop)))))"

text \<open>A client that follows the cursors it is given, with fuel for the pages.\<close>

fun follow :: "nat \<Rightarrow> SessionInfo list \<Rightarrow> string option \<Rightarrow> SessionInfo list option" where
  "follow 0 sessions cursor = None"
| "follow (Suc n) sessions cursor =
     (case PaginateSessions sessions cursor of
        Inl e \<Rightarrow> None
      | Inr (page, None) \<Rightarrow> Some page
      | Inr (page, Some c) \<Rightarrow> map_option (\<lambda>rest. page @ rest) (follow n sessions (Some c)))"

section \<open>Cursors are read back\<close>

lemma octets_sextets: "list_all (\<lambda>b. b < 256) bs \<Longrightarrow> octets (sextets bs) = Some bs"
  by (induction bs rule: sextets.induct) auto

lemma sextets_bound: "list_all (\<lambda>b. b < 256) bs \<Longrightarrow> list_all (\<lambda>v. v < 64) (sextets bs)"
  by (induction bs rule: sextets.induct) auto

lemma base64_value_char: "n < 64 \<Longrightarrow> base64_value (base64_char n) = Some n"
  by (auto simp: base64_value_def base64_char_def Let_def)

lemma base64_char_visible: "n < 64 \<Longrightarrow> base64_char n \<noteq> char_of (10 :: nat) \<and> base64_char n \<noteq> char_of (13 :: nat)"
  by (auto simp: base64_char_def dest!: arg_cong[where f = "of_char :: char \<Rightarrow> nat"])

lemma base64_round_trip: "base64_decode (base64_encode s) = Some s"
proof -
  have bytes: "list_all (\<lambda>b. b < 256) (map of_char s :: nat list)" by (simp add: list_all_iff)
  note bound = sextets_bound[OF bytes]
  have visible: "filter (\<lambda>c. c \<noteq> char_of (10 :: nat) \<and> c \<noteq> char_of (13 :: nat)) (map base64_char vs) = map base64_char vs"
    if "list_all (\<lambda>v. v < 64) vs" for vs
    using that base64_char_visible by (induction vs) simp_all
  have each: "those (map base64_value (map base64_char vs)) = Some vs" if "list_all (\<lambda>v. v < 64) vs" for vs
    using that base64_value_char by (induction vs) simp_all
  show ?thesis
    unfolding base64_decode_def base64_encode_def visible[OF bound] each[OF bound]
    by (simp add: octets_sextets[OF bytes] comp_def)
qed

lemma cursor_reads: "n < 2 ^ 63 \<Longrightarrow> n \<le> many \<Longrightarrow> cursor_offset (Some (base64_encode (show_nat n))) many = Some n"
proof -
  assume n: "n < 2 ^ 63" "n \<le> many"
  have "base64_encode (show_nat n) \<noteq> []"
  proof
    assume "base64_encode (show_nat n) = []"
    then have "base64_decode [] = Some (show_nat n)" using base64_round_trip[of "show_nat n"] by simp
    then show False using show_nat_digits[of n] by (simp add: base64_decode_def)
  qed
  then show ?thesis using n by (simp add: cursor_offset_def base64_round_trip parse_int_show_nat)
qed

lemma follow_rest:
  assumes "length sessions < 2 ^ 63" and "offset \<le> length sessions" and "cursor_offset cursor (length sessions) = Some offset"
    and "length sessions - offset < n * sessionsPageSize"
  shows "follow n sessions cursor = Some (drop offset (ordered sessions))"
  using assms(2-)
proof (induction n arbitrary: offset cursor)
  case (Suc n)
  have len: "length (ordered sessions) = length sessions" by (simp add: ordered_def)
  let ?stop = "offset + sessionsPageSize"
  show ?case
  proof (cases "?stop \<ge> length sessions")
    case True
    then show ?thesis using Suc.prems by (simp add: PaginateSessions_def len Let_def)
  next
    case False
    let ?c = "Some (base64_encode (show_nat ?stop))"
    have "follow n sessions ?c = Some (drop ?stop (ordered sessions))"
      using Suc.prems False assms(1) by (intro Suc.IH cursor_reads) auto
    moreover have "PaginateSessions sessions cursor = Inr (take sessionsPageSize (drop offset (ordered sessions)), ?c)"
      using Suc.prems False by (simp add: PaginateSessions_def len Let_def)
    moreover have "take k xs @ drop k xs = xs" for k and xs :: "SessionInfo list" by simp
    from this[of sessionsPageSize "drop offset (ordered sessions)"]
    have "take sessionsPageSize (drop offset (ordered sessions)) @ drop ?stop (ordered sessions) = drop offset (ordered sessions)"
      by (simp add: add.commute)
    ultimately show ?thesis by simp
  qed
qed simp

text \<open>C28: A client that follows the cursors of a listing ends: after one page for every fifty sessions
  and one more at most, it holds every session exactly once, newest first and then by id.\<close>

theorem following_cursors_lists_all:
  assumes "length sessions < 2 ^ 63"
  shows "\<exists>listed. follow (length sessions div 50 + 1) sessions None = Some listed \<and> mset listed = mset sessions \<and>
     sorted (map page_key listed)"
proof -
  have "follow (length sessions div 50 + 1) sessions None = Some (drop 0 (ordered sessions))"
  proof (rule follow_rest[OF assms])
    have "length sessions < (length sessions div 50 + 1) * 50" using div_mult_mod_eq[of "length sessions" 50] mod_less_divisor[of 50 "length sessions"] by simp
    then show "length sessions - 0 < (length sessions div 50 + 1) * sessionsPageSize" by (simp add: sessionsPageSize_def)
  qed (simp_all add: cursor_offset_def)
  then show ?thesis by (intro exI conjI, assumption) (simp_all add: ordered_def)
qed

definition numbered :: "nat \<Rightarrow> SessionInfo" where
  "numbered n = \<lparr>si_SessionId = show_nat n, si_UpdatedAt = None, si_Cwd = ''/''\<rparr>"

theorem following_cursors_lists_all_witness:
  "\<exists>listed. follow (length (map numbered [0..<60]) div 50 + 1) (map numbered [0..<60]) None = Some listed \<and>
     mset listed = mset (map numbered [0..<60]) \<and> sorted (map page_key listed)"
  by (rule following_cursors_lists_all) simp

end
