(* ===== verification/Options.thy ===== *)
theory Options
  imports Refusals
begin

text \<open>
  The options and metadata of requests: wire/options.go, session_meta.go, reserved.go, callusage.go,
  catalog.go, lifecycle.go and requests.go.  A request of the SDK is a record of the members the
  builders set; a builder that panics is \<open>None\<close>.
\<close>

section \<open>Copying and merging\<close>

fun CloneValue :: "go_any \<Rightarrow> go_any" where
  "CloneValue (AMap values) = AMap (map (\<lambda>(key, v). (key, CloneValue v)) values)"
| "CloneValue (ASlice items) = ASlice (map CloneValue items)"
| "CloneValue v = v"

definition CloneMap :: "go_map \<Rightarrow> go_map" where
  "CloneMap values = map (\<lambda>(key, v). (key, CloneValue v)) values"

lemma members_size: "(\<Sum>(key, v)\<leftarrow>ms. size v) \<le> sum_list (map (size_prod (\<lambda>x. 0) size) ms)"
  by (induction ms) auto

function merge_into :: "go_map \<Rightarrow> go_map \<Rightarrow> go_map" where
  "merge_into result [] = result"
| "merge_into result ((key, v) # rest) =
     merge_into
       (case (v, map_of result key) of
          (AMap values, Some (AMap existing)) \<Rightarrow> AList.update key (AMap (merge_into (CloneMap existing) values)) result
        | _ \<Rightarrow> AList.update key (CloneValue v) result) rest"
  by pat_completeness auto
termination by (relation "measure (\<lambda>(result, extra). size_list (\<lambda>(key, v). size v) extra)")
   (auto simp: size_list_conv_sum_list intro!: le_less_trans[OF members_size])

definition MergeMap :: "go_map \<Rightarrow> go_map \<Rightarrow> go_map" where
  "MergeMap base extra = merge_into (CloneMap base) extra"

section \<open>Typed options\<close>

fun first_other :: "(string \<times> go_any) list \<Rightarrow> string + (string \<times> string) list" where
  "first_other [] = Inr []"
| "first_other ((key, AString text) # rest) =
     (case first_other rest of Inl k \<Rightarrow> Inl k | Inr found \<Rightarrow> Inr ((key, text) # found))"
| "first_other ((key, _) # rest) = Inl key"

text \<open>Go visits the members in an unspecified order; the model names the first that is no string.\<close>

definition StringMapOption :: "go_any \<Rightarrow> string \<Rightarrow> RequestError + (string \<times> string) list" where
  "StringMapOption v path =
     (case v of
        AStringMap typed \<Rightarrow> Inr typed
      | AMap typed \<Rightarrow> (case first_other typed of Inl key \<Rightarrow> Inl (Unsupported (path @ ''.'' @ key)) | Inr found \<Rightarrow> Inr found)
      | _ \<Rightarrow> Inl (Unsupported path))"

definition indexed :: "string \<Rightarrow> nat \<Rightarrow> string" where
  "indexed path index = path @ ''['' @ show_nat index @ '']''"

fun strings_of :: "string \<Rightarrow> nat \<Rightarrow> go_any list \<Rightarrow> RequestError + string list" where
  "strings_of path index [] = Inr []"
| "strings_of path index (AString text # rest) =
     (case strings_of path (Suc index) rest of Inl e \<Rightarrow> Inl e | Inr texts \<Rightarrow> Inr (text # texts))"
| "strings_of path index (_ # rest) = Inl (Unsupported (indexed path index))"

definition StringSliceOption :: "go_any \<Rightarrow> string \<Rightarrow> RequestError + string list" where
  "StringSliceOption v path =
     (case v of
        AStrings typed \<Rightarrow> Inr typed
      | ASlice typed \<Rightarrow> strings_of path 0 typed
      | _ \<Rightarrow> Inl (Unsupported path))"

datatype model_error = NotModelID nat string | ListedTwice string

fun configured_from :: "nat \<Rightarrow> string set \<Rightarrow> string list \<Rightarrow> model_error option" where
  "configured_from index seen [] = None"
| "configured_from index seen (mid # ids) =
     (if mid = [] \<or> mid \<noteq> TrimSpace mid then Some (NotModelID index mid)
      else if mid \<in> seen then Some (ListedTwice mid)
      else configured_from (Suc index) (insert mid seen) ids)"

definition ValidateConfiguredModels :: "string list \<Rightarrow> model_error option" where
  "ValidateConfiguredModels ids = configured_from 0 {} ids"

definition ValidateSessionEnvironment :: "env_map \<Rightarrow> string list \<Rightarrow> string \<Rightarrow> RequestError option" where
  "ValidateSessionEnvironment env dirs path =
     (case ValidateNames env of
        Some (NameError key) \<Rightarrow> Some (Unsupported (path @ ''.env.'' @ key))
      | Some _ \<Rightarrow> Some (Unsupported (path @ ''.env''))
      | None \<Rightarrow>
          (case ValidateExtraPathDirs dirs of
             Some (PathDirError index dir) \<Rightarrow> Some (Unsupported (indexed (path @ ''.extraPathDirs'') index))
           | Some _ \<Rightarrow> Some (Unsupported (path @ ''.extraPathDirs''))
           | None \<Rightarrow> None))"

definition MetaOptionPath :: "string \<Rightarrow> string \<Rightarrow> string" where
  "MetaOptionPath vendor key =
     (let path = ''_meta.'' @ vendor @ ''.options'' in if key = [] then path else path @ ''.'' @ key)"

definition StructuredOutputAdvertisement :: "string \<Rightarrow> go_map" where
  "StructuredOutputAdvertisement vendor =
     [(''config'', AString (MetaOptionPath vendor ''outputSchema'')),
      (''result'', AString (''_meta.'' @ vendor @ ''.structuredOutput'')),
      (''schema'', AString ''json_schema'')]"

definition ValidateConcurrencyLimits :: "int \<Rightarrow> int \<Rightarrow> bool" where
  "ValidateConcurrencyLimits maxActiveSessions maxConcurrentClientCalls \<longleftrightarrow>
     \<not> (maxActiveSessions < 0 \<or> maxConcurrentClientCalls < 0)"

section \<open>Reserved literals\<close>

definition MediaEnvelopeKey :: string where "MediaEnvelopeKey = ''acp-go.dev/mediaEnvelope''"
definition HandoffKey :: string where "HandoffKey = ''acp-go.dev/handoff''"
definition LifecycleKey :: string where "LifecycleKey = MetaKey"
definition CallUsageKey :: string where "CallUsageKey = ''acp-go.dev/callUsage''"
definition CompactionKey :: string where "CompactionKey = ''acp-go.dev/compaction''"

definition ReservedLiterals :: "string list" where
  "ReservedLiterals = [MediaEnvelopeKey, HandoffKey, LifecycleKey, CallUsageKey, CompactionKey]"

text \<open>The key the metadata is refused for.\<close>

definition CheckReservedMeta :: "go_map \<Rightarrow> string option" where
  "CheckReservedMeta meta = find (\<lambda>key. map_of meta key \<noteq> None) ReservedLiterals"

definition LifecycleCarrier :: "string \<Rightarrow> go_map \<Rightarrow> string \<times> go_map" where
  "LifecycleCarrier sessionID envelope = (sessionID, [(LifecycleKey, AMap envelope)])"

section \<open>Session metadata\<close>

definition SessionMetaKey :: string where "SessionMetaKey = ''acp-go.dev/session''"
definition sessionMetaFieldEphemeral :: string where "sessionMetaFieldEphemeral = ''ephemeral''"

record SessionMeta =
  sm_Ephemeral :: bool

definition session_meta_path :: "string \<Rightarrow> string" where
  "session_meta_path name = ''_meta.'' @ SessionMetaKey @ ''.'' @ name"

fun session_meta_fields :: "go_map \<Rightarrow> string list \<Rightarrow> SessionMeta \<Rightarrow> RequestError + SessionMeta" where
  "session_meta_fields obj [] decoded = Inr decoded"
| "session_meta_fields obj (name # names) decoded =
     (if name \<noteq> sessionMetaFieldEphemeral then Inl (Unsupported (session_meta_path name))
      else case map_of obj name of
             Some (ABool b) \<Rightarrow> session_meta_fields obj names (decoded\<lparr>sm_Ephemeral := b\<rparr>)
           | _ \<Rightarrow> Inl (Unsupported (session_meta_path name)))"

definition DecodeSessionMeta :: "go_map \<Rightarrow> RequestError + SessionMeta" where
  "DecodeSessionMeta meta =
     (case map_of meta SessionMetaKey of
        None \<Rightarrow> Inr \<lparr>sm_Ephemeral = False\<rparr>
      | Some (AMap obj) \<Rightarrow> session_meta_fields obj (sort (map fst obj)) \<lparr>sm_Ephemeral = False\<rparr>
      | Some _ \<Rightarrow> Inl (Unsupported (''_meta.'' @ SessionMetaKey)))"

definition RefuseSessionMeta :: "go_map \<Rightarrow> RequestError option" where
  "RefuseSessionMeta meta =
     (if map_of meta SessionMetaKey \<noteq> None then Some (Unsupported (''_meta.'' @ SessionMetaKey)) else None)"

definition SessionMeta_Apply :: "SessionMeta \<Rightarrow> go_map \<Rightarrow> go_map" where
  "SessionMeta_Apply m meta =
     (if \<not> sm_Ephemeral m then meta
      else AList.update SessionMetaKey (AMap [(sessionMetaFieldEphemeral, ABool True)]) meta)"

section \<open>Call usage\<close>

record CallUsage =
  cu_ResponseID :: string
  cu_InputTokens :: "int option"
  cu_CachedReadTokens :: "int option"
  cu_CachedWriteTokens :: "int option"
  cu_OutputTokens :: "int option"

definition CallUsage_Known :: "CallUsage \<Rightarrow> bool" where
  "CallUsage_Known u \<longleftrightarrow>
     list_ex (\<lambda>member. member \<noteq> None \<and> member \<noteq> Some 0)
       [cu_InputTokens u, cu_CachedReadTokens u, cu_CachedWriteTokens u, cu_OutputTokens u]"

definition int_pointer :: "int option \<Rightarrow> go_any" where
  "int_pointer p = (case p of None \<Rightarrow> ANil | Some n \<Rightarrow> AInt n)"

definition CallUsage_value :: "CallUsage \<Rightarrow> go_any" where
  "CallUsage_value u = AStruct ''CallUsage''
     [(''ResponseID'', AString (cu_ResponseID u)), (''InputTokens'', int_pointer (cu_InputTokens u)),
      (''CachedReadTokens'', int_pointer (cu_CachedReadTokens u)),
      (''CachedWriteTokens'', int_pointer (cu_CachedWriteTokens u)), (''OutputTokens'', int_pointer (cu_OutputTokens u))]"

definition CallUsage_Apply :: "CallUsage \<Rightarrow> go_map \<Rightarrow> go_map" where
  "CallUsage_Apply u meta = (if \<not> CallUsage_Known u then meta else AList.update CallUsageKey (CallUsage_value u) meta)"

section \<open>The model menu\<close>

record ModelRow =
  mr_ID :: string
  mr_Name :: string
  mr_Description :: string
  mr_Meta :: go_map

record SelectOption =
  so_Name :: string
  so_Value :: string
  so_Description :: "string option"
  so_Meta :: go_map

definition row_option :: "string \<Rightarrow> ModelRow \<Rightarrow> SelectOption" where
  "row_option vendor row =
     \<lparr>so_Name = (if mr_Name row = [] then mr_ID row else mr_Name row), so_Value = mr_ID row,
      so_Description = (if mr_Description row \<noteq> [] then Some (mr_Description row) else None),
      so_Meta = [(vendor, AMap (AList.update ''modelId'' (AString (mr_ID row)) (mr_Meta row)))]\<rparr>"

fun native_options :: "string \<Rightarrow> string set \<Rightarrow> ModelRow list \<Rightarrow> SelectOption list \<times> string set" where
  "native_options vendor seen [] = ([], seen)"
| "native_options vendor seen (row # rows) =
     (if mr_ID row \<in> seen \<or> mr_ID row = [] then native_options vendor seen rows
      else (let (options, seen) = native_options vendor (insert (mr_ID row) seen) rows
            in (row_option vendor row # options, seen)))"

fun named_options :: "string set \<Rightarrow> string list \<Rightarrow> SelectOption list" where
  "named_options seen [] = []"
| "named_options seen (mid # ids) =
     (if mid \<in> seen \<or> mid = [] then named_options seen ids
      else \<lparr>so_Name = mid, so_Value = mid, so_Description = None, so_Meta = []\<rparr> # named_options (insert mid seen) ids)"

definition ModelSelectOptions :: "string \<Rightarrow> string \<Rightarrow> ModelRow list \<Rightarrow> string list \<Rightarrow> SelectOption list" where
  "ModelSelectOptions vendor current native configured =
     (let (options, seen) = native_options vendor {} native in options @ named_options seen (configured @ [current]))"

section \<open>Requests\<close>

record SessionRequestConfig =
  rc_AdditionalDirectories :: "string list"
  rc_Meta :: go_map

type_synonym SessionRequestOption = "SessionRequestConfig \<Rightarrow> SessionRequestConfig"

definition newSessionRequestConfig :: "SessionRequestOption list \<Rightarrow> SessionRequestConfig" where
  "newSessionRequestConfig opts = fold (\<lambda>opt config. opt config) opts \<lparr>rc_AdditionalDirectories = [], rc_Meta = []\<rparr>"

record SessionRequest =
  sr_SessionId :: "string option"
  sr_Cwd :: string
  sr_McpServers :: "unit list"
  sr_AdditionalDirectories :: "string list"
  sr_Meta :: go_map

definition configured_request :: "string option \<Rightarrow> string \<Rightarrow> SessionRequestOption list \<Rightarrow> SessionRequest" where
  "configured_request sessionID cwd opts =
     (let config = newSessionRequestConfig opts
      in \<lparr>sr_SessionId = sessionID, sr_Cwd = cwd, sr_McpServers = [],
          sr_AdditionalDirectories = rc_AdditionalDirectories config, sr_Meta = CloneMap (rc_Meta config)\<rparr>)"

definition NewSessionRequest :: "string \<Rightarrow> SessionRequestOption list \<Rightarrow> SessionRequest" where
  "NewSessionRequest cwd opts = configured_request None cwd opts"

definition LoadSessionRequest :: "string \<Rightarrow> string \<Rightarrow> SessionRequestOption list \<Rightarrow> SessionRequest" where
  "LoadSessionRequest sessionID cwd opts = configured_request (Some sessionID) cwd opts"

definition ResumeSessionRequest :: "string \<Rightarrow> string \<Rightarrow> SessionRequestOption list \<Rightarrow> SessionRequest" where
  "ResumeSessionRequest sessionID cwd opts = configured_request (Some sessionID) cwd opts"

definition WithSessionAdditionalDirectories :: "string list \<Rightarrow> SessionRequestOption" where
  "WithSessionAdditionalDirectories paths = (\<lambda>config. config\<lparr>rc_AdditionalDirectories := paths\<rparr>)"

definition WithSessionMetaValue :: "go_map \<Rightarrow> SessionRequestOption" where
  "WithSessionMetaValue meta = (let cloned = CloneMap meta in (\<lambda>config. config\<lparr>rc_Meta := MergeMap (rc_Meta config) cloned\<rparr>))"

definition WithSessionMeta :: "go_map \<Rightarrow> SessionRequestOption option" where
  "WithSessionMeta meta =
     (if CheckReservedMeta meta \<noteq> None then None
      else (let cloned = CloneMap meta in Some (\<lambda>config. config\<lparr>rc_Meta := MergeMap (rc_Meta config) cloned\<rparr>)))"

record ListSessionsRequest =
  lr_Cwd :: "string option"
  lr_Cursor :: "string option"
  lr_Meta :: go_map

type_synonym ListSessionsRequestOption = "ListSessionsRequest \<Rightarrow> ListSessionsRequest"

definition ListSessionsRequest :: "ListSessionsRequestOption list \<Rightarrow> ListSessionsRequest" where
  "ListSessionsRequest opts = fold (\<lambda>opt req. opt req) opts \<lparr>lr_Cwd = None, lr_Cursor = None, lr_Meta = []\<rparr>"

definition WithListSessionsCwd :: "string \<Rightarrow> ListSessionsRequestOption" where
  "WithListSessionsCwd cwd = (\<lambda>req. req\<lparr>lr_Cwd := Some cwd\<rparr>)"

definition WithListSessionsCursor :: "string \<Rightarrow> ListSessionsRequestOption" where
  "WithListSessionsCursor cursor = (\<lambda>req. req\<lparr>lr_Cursor := Some cursor\<rparr>)"

definition WithListSessionsMeta :: "go_map \<Rightarrow> ListSessionsRequestOption option" where
  "WithListSessionsMeta meta =
     (if CheckReservedMeta meta \<noteq> None then None
      else (let cloned = CloneMap meta in Some (\<lambda>req. req\<lparr>lr_Meta := MergeMap (lr_Meta req) cloned\<rparr>)))"

section \<open>What a merge reads\<close>

lemma CloneValue_same [simp]: "CloneValue v = v"
  by (induction v) (auto intro!: map_idI)

lemma CloneMap_same [simp]: "CloneMap values = values"
  by (auto simp: CloneMap_def intro!: map_idI)

definition merged :: "go_any option \<Rightarrow> go_any option \<Rightarrow> go_any option" where
  "merged old new =
     (case new of
        None \<Rightarrow> old
      | Some (AMap values) \<Rightarrow> (case old of Some (AMap existing) \<Rightarrow> Some (AMap (MergeMap existing values)) | _ \<Rightarrow> new)
      | _ \<Rightarrow> new)"

lemma merge_into_reads:
  assumes "distinct (map fst extra)"
  shows "map_of (merge_into base extra) key = merged (map_of base key) (map_of extra key)"
  using assms
proof (induction extra arbitrary: base)
  case (Cons m extra)
  obtain k v where m: "m = (k, v)" by (cases m)
  let ?step = "case (v, map_of base k) of
    (AMap values, Some (AMap existing)) \<Rightarrow> AList.update k (AMap (merge_into (CloneMap existing) values)) base
    | _ \<Rightarrow> AList.update k (CloneValue v) base"
  have step: "map_of ?step = (map_of base)(k := merged (map_of base k) (Some v))"
    by (auto simp: merged_def MergeMap_def update_conv' split: go_any.split option.split)
  have "map_of (merge_into base (m # extra)) key = merged (map_of ?step key) (map_of extra key)"
    using Cons m by simp
  moreover have "k = key \<Longrightarrow> map_of extra key = None" using Cons.prems m by (auto simp: map_of_eq_None_iff)
  ultimately show ?case unfolding step m by (auto simp: merged_def)
qed (simp add: merged_def)

lemma MergeMap_reads:
  "distinct (map fst extra) \<Longrightarrow> map_of (MergeMap base extra) key = merged (map_of base key) (map_of extra key)"
  by (simp add: MergeMap_def merge_into_reads)

end
