(* ===== verification/Streaming.thy ===== *)
theory Streaming
  imports Options
begin

text \<open>
  What a session streams: wire/streamed_text.go, line_reader.go, rawevents.go and compaction.go.
  Marshalling a payload and delivering a notification are parameters; delivery acts on a world \<open>'w\<close>.
\<close>

section \<open>Streamed text\<close>

text \<open>\<open>unstreamedSuffix\<close> of session\_text.go.\<close>

definition unstreamedSuffix :: "string \<Rightarrow> string \<Rightarrow> string" where
  "unstreamedSuffix streamed full =
     (if streamed = [] then full else if \<not> has_prefix full streamed then [] else drop (length streamed) full)"

type_synonym StreamedText = "string \<rightharpoonup> string"

definition streamed_item :: "string \<Rightarrow> StreamedText \<Rightarrow> string" where
  "streamed_item key s = (case s key of None \<Rightarrow> [] | Some text \<Rightarrow> text)"

definition streamed_Add :: "string \<Rightarrow> string \<Rightarrow> StreamedText \<Rightarrow> StreamedText" where
  "streamed_Add key delta s = (if delta = [] then s else s(key \<mapsto> streamed_item key s @ delta))"

definition streamed_Suffix :: "string \<Rightarrow> string \<Rightarrow> StreamedText \<Rightarrow> string \<times> StreamedText" where
  "streamed_Suffix key final s =
     (let suffix = unstreamedSuffix (streamed_item key s) final in (suffix, s(key \<mapsto> streamed_item key s @ suffix)))"

definition streamed_Text :: "string \<Rightarrow> StreamedText \<Rightarrow> string" where
  "streamed_Text key s = (case s key of None \<Rightarrow> [] | Some text \<Rightarrow> text)"

definition streamed_Forget :: "string \<Rightarrow> StreamedText \<Rightarrow> StreamedText" where
  "streamed_Forget key s = s(key := None)"

definition streamed_Reset :: "StreamedText \<Rightarrow> StreamedText" where
  "streamed_Reset s = Map.empty"

section \<open>Native records\<close>

definition NativeLineMaxBytes :: nat where "NativeLineMaxBytes = 64 * 2 ^ 20"
definition lineReaderBuffer :: nat where "lineReaderBuffer = 64 * 2 ^ 10"

definition NewLineReader :: "int \<Rightarrow> nat" where
  "NewLineReader maxBytes = (if maxBytes \<le> 0 then NativeLineMaxBytes else nat maxBytes)"

datatype slice_end = Delimited | BufferFull | EndOfInput

text \<open>\<open>ReadSlice\<close> of a buffer of fixed size, over what the stream still holds: the bytes up to the
  delimiter, a full buffer without one, or what is left.\<close>

definition read_slice :: "string \<Rightarrow> string \<times> slice_end \<times> string" where
  "read_slice input =
     (let line = takeWhile (\<lambda>c. c \<noteq> newline) (take lineReaderBuffer input); n = length line
      in if n < length (take lineReaderBuffer input) then (take (Suc n) input, Delimited, drop (Suc n) input)
         else if n = lineReaderBuffer then (line, BufferFull, drop n input)
         else (line, EndOfInput, []))"

datatype line_error = LineTooLongError nat | UnexpectedEOF | EOF

definition trim_return :: "string \<Rightarrow> string" where
  "trim_return line = (if line \<noteq> [] \<and> last line = char_of (13 :: nat) then butlast line else line)"

lemma read_slice_shrinks: "read_slice input = (chunk, e, rest) \<Longrightarrow> e \<noteq> EndOfInput \<Longrightarrow> length rest < length input"
proof -
  have "length (takeWhile (\<lambda>c. c \<noteq> newline) (take lineReaderBuffer input)) \<le> length input"
    using length_takeWhile_le[of "\<lambda>c. c \<noteq> newline" "take lineReaderBuffer input"] by simp
  moreover have "0 < lineReaderBuffer" by (simp add: lineReaderBuffer_def)
  moreover assume "read_slice input = (chunk, e, rest)" "e \<noteq> EndOfInput"
  ultimately show ?thesis unfolding read_slice_def Let_def by (auto split: if_splits)
qed

function next_record :: "nat \<Rightarrow> string \<Rightarrow> string \<Rightarrow> (line_error + string) \<times> string" where
  "next_record maxBytes line input =
     (let (chunk, e, rest) = read_slice input; line = line @ chunk;
          n = (if e = Delimited then length line - 1 else length line)
      in if n > maxBytes then (Inl (LineTooLongError maxBytes), rest)
         else case e of
                Delimited \<Rightarrow> (Inr (trim_return (butlast line)), rest)
              | BufferFull \<Rightarrow> next_record maxBytes line rest
              | EndOfInput \<Rightarrow> (Inl (if line \<noteq> [] then UnexpectedEOF else EOF), rest))"
  by pat_completeness auto
termination
  by (relation "measure (\<lambda>(maxBytes, line, input). length input)") (auto dest: read_slice_shrinks[OF sym])

declare next_record.simps [simp del]

definition Next :: "nat \<Rightarrow> string \<Rightarrow> (line_error + string) \<times> string" where
  "Next maxBytes input = next_record maxBytes [] input"

section \<open>Raw events\<close>

definition RawEventMaxBytes :: nat where "RawEventMaxBytes = 64 * 1024"

definition rawFieldSequence :: string where "rawFieldSequence = ''sequence''"
definition rawFieldSource :: string where "rawFieldSource = ''source''"
definition rawFieldEvent :: string where "rawFieldEvent = ''event''"

lemmas raw_fields = rawFieldSequence_def rawFieldSource_def rawFieldEvent_def fieldSessionID_def

definition rawEventMethod :: "string \<Rightarrow> string" where
  "rawEventMethod vendor = ''_'' @ vendor @ ''/rawEvent''"

record RawEvents =
  re_method :: string
  re_sessionID :: string
  re_source :: string
  re_enabled :: bool
  re_sequence :: u64

definition NewRawEvents :: "string \<Rightarrow> string \<Rightarrow> string \<Rightarrow> bool \<Rightarrow> RawEvents" where
  "NewRawEvents vendor sessionID source enabled =
     \<lparr>re_method = rawEventMethod vendor, re_sessionID = sessionID, re_source = source, re_enabled = enabled, re_sequence = 0\<rparr>"

definition raw_Enabled :: "RawEvents option \<Rightarrow> bool" where
  "raw_Enabled r = (case r of None \<Rightarrow> False | Some r \<Rightarrow> re_enabled r)"

text \<open>The size of a payload's encoding, or \<open>None\<close> where it has none.\<close>

type_synonym encoding = "go_map \<Rightarrow> nat option"

datatype 'e raw_error = MarshalCapped | CappedTooLong nat | NotifyFailed 'e

definition raw_marker :: "nat option \<Rightarrow> go_map" where
  "raw_marker encoded =
     (case encoded of
        Some n \<Rightarrow> [(''truncated'', ABool True), (''reason'', AString ''oversize''),
           (''maxBytes'', AInt (int RawEventMaxBytes)), (''sizeBytes'', AInt (int n))]
      | None \<Rightarrow> [(''truncated'', ABool True), (''reason'', AString ''unserializable''),
           (''maxBytes'', AInt (int RawEventMaxBytes))])"

definition member_or_nil :: "go_map \<Rightarrow> string \<Rightarrow> go_any" where
  "member_or_nil m key = (case map_of m key of None \<Rightarrow> ANil | Some v \<Rightarrow> v)"

definition capRawEvent :: "encoding \<Rightarrow> go_map \<Rightarrow> 'e raw_error + go_map" where
  "capRawEvent encode payload =
     (if (case encode payload of None \<Rightarrow> False | Some n \<Rightarrow> n \<le> RawEventMaxBytes) then Inr payload
      else (let capped =
              [(fieldSessionID, member_or_nil payload fieldSessionID), (rawFieldSequence, member_or_nil payload rawFieldSequence),
               (rawFieldSource, member_or_nil payload rawFieldSource), (rawFieldEvent, AMap (raw_marker (encode payload)))]
            in case encode capped of
                 None \<Rightarrow> Inl MarshalCapped
               | Some n \<Rightarrow> if n > RawEventMaxBytes then Inl (CappedTooLong n) else Inr capped))"

definition raw_payload :: "RawEvents \<Rightarrow> go_map \<Rightarrow> go_map" where
  "raw_payload r event =
     [(fieldSessionID, AString (re_sessionID r)), (rawFieldSequence, AUint (re_sequence r + 1)),
      (rawFieldSource, AString (re_source r)), (rawFieldEvent, AMap event)]"

type_synonym ('w, 'e) Notifier = "string \<Rightarrow> go_map \<Rightarrow> 'w \<Rightarrow> 'e option \<times> 'w"

definition raw_Emit :: "encoding \<Rightarrow> ('w, 'e) Notifier \<Rightarrow> go_map option \<Rightarrow> RawEvents \<Rightarrow> 'w \<Rightarrow> 'e raw_error option \<times> RawEvents \<times> 'w" where
  "raw_Emit encode notify event r w =
     (case event of
        None \<Rightarrow> (None, r, w)
      | Some event \<Rightarrow>
          if \<not> raw_Enabled (Some r) then (None, r, w)
          else (case capRawEvent encode (raw_payload r event) of
                  Inl e \<Rightarrow> (Some e, r, w)
                | Inr payload \<Rightarrow>
                    (case notify (re_method r) payload w of
                       (Some e, w) \<Rightarrow> (Some (NotifyFailed e), r, w)
                     | (None, w) \<Rightarrow> (None, r\<lparr>re_sequence := re_sequence r + 1\<rparr>, w))))"

section \<open>Compactions\<close>

definition CompactionInProgress :: string where "CompactionInProgress = ''in_progress''"
definition CompactionCompleted :: string where "CompactionCompleted = ''completed''"
definition CompactionFailed :: string where "CompactionFailed = ''failed''"
definition CompactionCancelled :: string where "CompactionCancelled = ''cancelled''"
definition CompactionTriggerAuto :: string where "CompactionTriggerAuto = ''auto''"
definition CompactionTriggerManual :: string where "CompactionTriggerManual = ''manual''"

lemmas compaction_tokens = CompactionInProgress_def CompactionCompleted_def CompactionFailed_def CompactionCancelled_def
  CompactionTriggerAuto_def CompactionTriggerManual_def

record Compaction =
  cp_CompactionID :: string
  cp_Status :: string
  cp_Trigger :: string
  cp_ContextBefore :: "int option"
  cp_ContextAfter :: "int option"

datatype 'e compaction_error =
  InvalidStatus | StartNeedsKey | InvalidTrigger | NegativeContext | UpdateFailed 'e

definition compactionTokens :: "int option \<Rightarrow> int option \<Rightarrow> int option" where
  "compactionTokens current previous = (if current \<noteq> None then current else if previous \<noteq> None then previous else None)"

definition zero_compaction :: Compaction where
  "zero_compaction = \<lparr>cp_CompactionID = [], cp_Status = [], cp_Trigger = [], cp_ContextBefore = None, cp_ContextAfter = None\<rparr>"

text \<open>The session a carrier names, and the compaction under its reserved key.\<close>

definition CompactionCarrier :: "string \<Rightarrow> Compaction \<Rightarrow> string \<times> Compaction" where
  "CompactionCarrier sessionID c = (sessionID, c)"

definition compaction_refusal :: "string \<Rightarrow> Compaction \<Rightarrow> 'e compaction_error option" where
  "compaction_refusal key c =
     (if cp_Status c \<notin> {CompactionInProgress, CompactionCompleted, CompactionFailed, CompactionCancelled} then Some InvalidStatus
      else if cp_Status c = CompactionInProgress \<and> key = [] then Some StartNeedsKey
      else if cp_Trigger c \<noteq> [] \<and> cp_Trigger c \<noteq> CompactionTriggerAuto \<and> cp_Trigger c \<noteq> CompactionTriggerManual then Some InvalidTrigger
      else if list_ex (\<lambda>tokens. case tokens of None \<Rightarrow> False | Some n \<Rightarrow> n < 0) [cp_ContextBefore c, cp_ContextAfter c] then Some NegativeContext
      else None)"

text \<open>What is retained of the attempt so far.\<close>

definition retained :: "string \<Rightarrow> Compaction \<Rightarrow> Compaction \<Rightarrow> Compaction" where
  "retained fresh previous c =
     c\<lparr>cp_CompactionID := (if cp_CompactionID previous = [] then fresh else cp_CompactionID previous),
       cp_Trigger := (if cp_Trigger c = [] then cp_Trigger previous else cp_Trigger c),
       cp_ContextBefore := compactionTokens (cp_ContextBefore c) (cp_ContextBefore previous),
       cp_ContextAfter := compactionTokens (cp_ContextAfter c) (cp_ContextAfter previous)\<rparr>"

type_synonym Compactions = "string \<rightharpoonup> Compaction"
type_synonym ('w, 'e) Updater = "string \<times> Compaction \<Rightarrow> 'w \<Rightarrow> 'e option \<times> 'w"

definition compaction_Publish ::
    "string \<Rightarrow> ('w, 'e) Updater option \<Rightarrow> string \<Rightarrow> string \<Rightarrow> Compaction \<Rightarrow> Compactions \<Rightarrow> 'w \<Rightarrow>
     'e compaction_error option \<times> Compactions \<times> 'w" where
  "compaction_Publish fresh client sessionID key c attempts w =
     (case compaction_refusal key c of
        Some e \<Rightarrow> (Some e, attempts, w)
      | None \<Rightarrow>
          (let previous = (case attempts key of None \<Rightarrow> zero_compaction | Some p \<Rightarrow> p)
           in if key \<noteq> [] \<and> attempts key \<noteq> None \<and> (cp_Status previous \<noteq> CompactionInProgress \<or> cp_Status c = CompactionInProgress)
              then (None, attempts, w)
              else (let c = retained fresh previous c;
                        attempts = (if key \<noteq> [] then attempts(key \<mapsto> c) else attempts)
                    in case client of
                         None \<Rightarrow> (None, attempts, w)
                       | Some update \<Rightarrow>
                           (case update (CompactionCarrier sessionID c) w of
                              (Some e, w) \<Rightarrow> (Some (UpdateFailed e), attempts, w)
                            | (None, w) \<Rightarrow> (None, attempts, w)))))"

end
