(* ===== verification/StreamingProps.thy ===== *)
theory StreamingProps
  imports Streaming
begin

text \<open>What the streams of a session promise: records, raw events, compactions.\<close>

section \<open>Native records\<close>

text \<open>Every record to the end of the stream, and how it ended.\<close>

function read_records :: "nat \<Rightarrow> string \<Rightarrow> string list \<times> line_error" where
  "read_records maxBytes input =
     (case Next maxBytes input of
        (Inl e, rest) \<Rightarrow> ([], e)
      | (Inr record, rest) \<Rightarrow>
          if length rest < length input then (let (records, e) = read_records maxBytes rest in (record # records, e)) else ([record], EOF))"
  by pat_completeness auto
termination by (relation "measure (\<lambda>(maxBytes, input). length input)") auto

declare read_records.simps [simp del]

text \<open>The reference: the lines of the stream, each with its line end.\<close>

fun native_lines :: "nat \<Rightarrow> string list \<Rightarrow> string list \<times> line_error" where
  "native_lines maxBytes [] = ([], EOF)"
| "native_lines maxBytes (line # lines) =
     (let whole = (last line = newline); record = (if whole then butlast line else line)
      in if length record > maxBytes then ([], LineTooLongError maxBytes)
         else if \<not> whole then ([], UnexpectedEOF)
         else (let (records, e) = native_lines maxBytes lines in (trim_return record # records, e)))"

lemma buffer_positive [simp]: "0 < lineReaderBuffer"
  by (simp add: lineReaderBuffer_def)

lemma no_line_end: "newline \<notin> set l \<Longrightarrow> takeWhile (\<lambda>c. c \<noteq> newline) (take n l) = take n l"
  by (rule takeWhile_eq_all_conv[THEN iffD2]) (auto dest: in_set_takeD)

lemma read_slice_line:
  assumes "newline \<notin> set l"
  shows "read_slice (l @ newline # rest) =
    (if length l < lineReaderBuffer then (l @ [newline], Delimited, rest)
     else (take lineReaderBuffer l, BufferFull, drop lineReaderBuffer l @ newline # rest))"
proof (cases "length l < lineReaderBuffer")
  case True
  then obtain k where k: "lineReaderBuffer - length l = Suc k" by (cases "lineReaderBuffer - length l") auto
  have "takeWhile (\<lambda>c. c \<noteq> newline) (l @ newline # take k rest) = l" using assms by (subst takeWhile_append2) auto
  then show ?thesis using True k by (simp add: read_slice_def Let_def)
next
  case False
  then have "take lineReaderBuffer (l @ newline # rest) = take lineReaderBuffer l" by simp
  with False show ?thesis unfolding read_slice_def Let_def by (simp only: no_line_end[OF assms]) simp
qed

lemma read_slice_tail:
  assumes "newline \<notin> set l"
  shows "read_slice l = (if length l < lineReaderBuffer then (l, EndOfInput, [])
     else (take lineReaderBuffer l, BufferFull, drop lineReaderBuffer l))"
  unfolding read_slice_def Let_def no_line_end[OF assms] by simp

lemma next_short:
  assumes "newline \<notin> set l" and "length l < lineReaderBuffer"
  shows "next_record maxBytes line (l @ newline # rest) =
    (if length line + length l > maxBytes then (Inl (LineTooLongError maxBytes), rest) else (Inr (trim_return (line @ l)), rest))"
  using assms by (simp add: next_record.simps[of maxBytes line "l @ newline # rest"] read_slice_line butlast_append Let_def)

lemma next_full:
  assumes "read_slice input = (chunk, BufferFull, rest)"
  shows "next_record maxBytes line input =
    (if length line + length chunk > maxBytes then (Inl (LineTooLongError maxBytes), rest) else next_record maxBytes (line @ chunk) rest)"
  using assms by (simp add: next_record.simps[of maxBytes line input] Let_def)

lemma shorter: "\<not> length l < lineReaderBuffer \<Longrightarrow> length (drop lineReaderBuffer l) < length l"
  by (simp add: lineReaderBuffer_def)

lemma next_record_line:
  assumes "newline \<notin> set l"
  shows "(if length line + length l > maxBytes then fst (next_record maxBytes line (l @ newline # rest)) = Inl (LineTooLongError maxBytes)
    else next_record maxBytes line (l @ newline # rest) = (Inr (trim_return (line @ l)), rest))"
  using assms
proof (induction "length l" arbitrary: l line rule: less_induct)
  case less
  let ?b = lineReaderBuffer
  show ?case
  proof (cases "length l < ?b")
    case True
    then show ?thesis using next_short[OF less.prems] by simp
  next
    case False
    have "newline \<notin> set (drop ?b l)" using less.prems by (auto dest: in_set_dropD)
    note IH = less.hyps[OF shorter[OF False] this, of "line @ take ?b l"]
    have n: "length (line @ take ?b l) + length (drop ?b l) = length line + length l" "length (take ?b l) = ?b" using False by simp_all
    have t: "(line @ take ?b l) @ drop ?b l = line @ l" by simp
    have "read_slice (l @ newline # rest) = (take ?b l, BufferFull, drop ?b l @ newline # rest)"
      using read_slice_line[OF less.prems, of rest] False by simp
    note step = next_full[OF this, of maxBytes line, unfolded n(2)]
    show ?thesis using IH False unfolding step n(1) t by auto
  qed
qed

lemma next_record_tail:
  assumes "newline \<notin> set l"
  shows "fst (next_record maxBytes line l) =
    Inl (if length line + length l > maxBytes then LineTooLongError maxBytes else if line @ l = [] then EOF else UnexpectedEOF)"
  using assms
proof (induction "length l" arbitrary: l line rule: less_induct)
  case less
  let ?b = lineReaderBuffer
  show ?case
  proof (cases "length l < ?b")
    case True
    then show ?thesis using read_slice_tail[OF less.prems] by (simp add: next_record.simps[of maxBytes line l] Let_def)
  next
    case False
    have "newline \<notin> set (drop ?b l)" using less.prems by (auto dest: in_set_dropD)
    note IH = less.hyps[OF shorter[OF False] this, of "line @ take ?b l"]
    have n: "length (line @ take ?b l) + length (drop ?b l) = length line + length l" "length (take ?b l) = ?b" using False by simp_all
    have t: "(line @ take ?b l) @ drop ?b l = line @ l" by simp
    have "read_slice l = (take ?b l, BufferFull, drop ?b l)" using read_slice_tail[OF less.prems] False by simp
    note step = next_full[OF this, of maxBytes line, unfolded n(2)]
    show ?thesis using IH False unfolding step n(1) t by auto
  qed
qed

text \<open>The native reader yields exactly the records of its stream, however long they are beside its
  buffer: the lines in order, each less its line end and one carriage return, until the stream ends
  at a record boundary, ends inside a record, or brings a record past the bound.\<close>

theorem records_are_the_lines:
  "read_records maxBytes input = native_lines maxBytes (lines_of input)"
proof (induction "length input" arbitrary: input rule: less_induct)
  case less
  show ?case
  proof (cases "newline \<in> set input")
    case True
    then obtain l rest where input: "input = l @ newline # rest" "newline \<notin> set l" by (meson split_list_first)
    then have lines: "lines_of input = (l @ [newline]) # lines_of rest" using lines_of_line[of l rest] by simp
    show ?thesis
    proof (cases "length l > maxBytes")
      case True
      then have "fst (Next maxBytes input) = Inl (LineTooLongError maxBytes)"
        using next_record_line[OF input(2), where line = "[]" and maxBytes = maxBytes and rest = rest] by (simp add: Next_def input(1))
      with True show ?thesis unfolding lines by (cases "Next maxBytes input") (simp add: read_records.simps[of maxBytes input])
    next
      case False
      then have n: "Next maxBytes input = (Inr (trim_return l), rest)"
        using next_record_line[OF input(2), where line = "[]" and maxBytes = maxBytes and rest = rest] by (simp add: Next_def input(1))
      have "length rest < length input" by (simp add: input(1))
      with less.hyps[OF this] False show ?thesis unfolding lines by (simp add: read_records.simps[of maxBytes input] n)
    qed
  next
    case False
    note tail = next_record_tail[OF this, where line = "[]" and maxBytes = maxBytes]
    have t: "takeWhile (\<lambda>c. c \<noteq> newline) input = input" "dropWhile (\<lambda>c. c \<noteq> newline) input = []"
      using False by (auto simp: takeWhile_eq_all_conv dropWhile_eq_Nil_conv)
    have "lines_of input = (if input = [] then [] else [input])" by (subst lines_of.simps, simp only: t) simp
    moreover have "input \<noteq> [] \<Longrightarrow> last input \<noteq> newline" using False last_in_set[of input] by metis
    ultimately show ?thesis
      using tail by (cases "Next maxBytes input") (auto simp: read_records.simps[of maxBytes input] Next_def)
  qed
qed

section \<open>Raw events\<close>

text \<open>A notifier that keeps what it delivered.\<close>

definition delivering :: "('w, 'e) Notifier \<Rightarrow> ('w \<times> go_map list, 'e) Notifier" where
  "delivering notify method payload s =
     (case notify method payload (fst s) of
        (Some e, w) \<Rightarrow> (Some e, w, snd s)
      | (None, w) \<Rightarrow> (None, w, snd s @ [payload]))"

fun emit_raw :: "encoding \<Rightarrow> ('w, 'e) Notifier \<Rightarrow> go_map option list \<Rightarrow> RawEvents \<Rightarrow> 'w \<times> go_map list \<Rightarrow> RawEvents \<times> 'w \<times> go_map list" where
  "emit_raw encode notify [] r s = (r, s)"
| "emit_raw encode notify (event # events) r s =
     (case raw_Emit encode (delivering notify) event r s of (e, r, s) \<Rightarrow> emit_raw encode notify events r s)"

definition numbered_events :: "encoding \<Rightarrow> RawEvents \<Rightarrow> go_map list \<Rightarrow> bool" where
  "numbered_events encode r delivered \<longleftrightarrow>
     re_sequence r = of_nat (length delivered) \<and>
     (\<forall>i < length delivered. map_of (delivered ! i) rawFieldSequence = Some (AUint (of_nat (Suc i))) \<and>
        (\<exists>n. encode (delivered ! i) = Some n \<and> n \<le> RawEventMaxBytes))"

lemma capped_sequence:
  assumes "capRawEvent encode (raw_payload r event) = Inr payload"
  shows "map_of payload rawFieldSequence = Some (AUint (re_sequence r + 1))" and "\<exists>n. encode payload = Some n \<and> n \<le> RawEventMaxBytes"
  using assms
  by (auto simp: capRawEvent_def Let_def raw_payload_def raw_fields member_or_nil_def split: if_splits option.splits)

lemma raw_Emit_numbered:
  fixes notify :: "('w, 'e) Notifier"
  assumes "numbered_events encode r (snd s)" and "raw_Emit encode (delivering notify) event r s = (e, r', s')"
  shows "numbered_events encode r' (snd s')"
proof -
  have unchanged: ?thesis if "r' = r" "snd s' = snd s" using assms(1) that by simp
  show ?thesis
  proof (cases "event = None \<or> \<not> re_enabled r")
    case True
    then show ?thesis using unchanged assms(2) by (auto simp: raw_Emit_def raw_Enabled_def split: option.splits)
  next
    case False
    then obtain ev where ev: "event = Some ev" "re_enabled r" by auto
    show ?thesis
    proof (cases "capRawEvent encode (raw_payload r ev) :: 'e raw_error + go_map")
      case (Inl x)
      then show ?thesis using unchanged assms(2) ev by (simp add: raw_Emit_def raw_Enabled_def)
    next
      case (Inr payload)
      note capped = capped_sequence[OF Inr]
      obtain x w where n: "notify (re_method r) payload (fst s) = (x, w)" by fastforce
      show ?thesis
      proof (cases x)
        case (Some f)
        then show ?thesis using unchanged assms(2) ev Inr n by (auto simp: raw_Emit_def raw_Enabled_def delivering_def)
      next
        case None
        then have s': "r' = r\<lparr>re_sequence := re_sequence r + 1\<rparr>" "snd s' = snd s @ [payload]"
          using assms(2) ev Inr n by (auto simp: raw_Emit_def raw_Enabled_def delivering_def)
        show ?thesis
          using assms(1) capped unfolding numbered_events_def s'
          by (auto simp: nth_append less_Suc_eq add.commute)
      qed
    qed
  qed
qed

text \<open>A session's raw events are numbered without gaps from one in the order they are delivered,
  whatever the notifier refuses, and no delivered payload exceeds its bound.\<close>

theorem raw_events_numbered:
  fixes notify :: "('w, 'e) Notifier"
  shows "case emit_raw encode notify events (NewRawEvents vendor sessionID source enabled) (w, []) of
      (r, w', delivered) \<Rightarrow>
        map (\<lambda>d. map_of d ''sequence'') delivered = map (\<lambda>i. Some (AUint (of_nat (Suc i)))) [0..<length delivered] \<and>
        list_all (\<lambda>d. case encode d of Some n \<Rightarrow> n \<le> 65536 | None \<Rightarrow> False) delivered"
proof -
  have "numbered_events encode r (snd s) \<Longrightarrow> numbered_events encode (fst (emit_raw encode notify events r s)) (snd (snd (emit_raw encode notify events r s)))"
    for r s
  proof (induction events arbitrary: r s)
    case (Cons event events)
    obtain e r' s' where "raw_Emit encode (delivering notify) event r s = (e, r', s')" by (metis prod_cases3)
    with Cons.IH raw_Emit_numbered[OF Cons.prems this] show ?case by simp
  qed simp
  then have all: "numbered_events encode r (snd s) \<Longrightarrow> emit_raw encode notify events r s = (r', s') \<Longrightarrow> numbered_events encode r' (snd s')"
    for r s r' s' by fastforce
  obtain r w' delivered where run: "emit_raw encode notify events (NewRawEvents vendor sessionID source enabled) (w, []) = (r, w', delivered)"
    by (metis prod_cases3)
  then have "numbered_events encode r delivered" using all[OF _ run] by (simp add: numbered_events_def NewRawEvents_def)
  then have each: "\<And>i. i < length delivered \<Longrightarrow> map_of (delivered ! i) ''sequence'' = Some (AUint (of_nat (Suc i))) \<and>
      (\<exists>n. encode (delivered ! i) = Some n \<and> n \<le> 65536)"
    by (simp add: numbered_events_def rawFieldSequence_def RawEventMaxBytes_def)
  have "map (\<lambda>d. map_of d ''sequence'') delivered = map (\<lambda>i. Some (AUint (of_nat (Suc i)))) [0..<length delivered]"
    by (rule nth_equalityI) (simp_all del: of_nat_Suc add: each)
  moreover have "list_all (\<lambda>d. case encode d of Some n \<Rightarrow> n \<le> 65536 | None \<Rightarrow> False) delivered"
    using each by (fastforce simp: list_all_length)
  ultimately show ?thesis unfolding run by simp
qed

section \<open>Compactions\<close>

text \<open>A run of publications, each with its fresh id and whether its delivery fails; what is handed to
  the client is kept with its attempt key.\<close>

fun publish_all :: "(string \<times> bool \<times> string \<times> Compaction) list \<Rightarrow> Compactions \<Rightarrow> (string \<times> Compaction) list \<Rightarrow> (string \<times> Compaction) list" where
  "publish_all [] attempts sent = sent"
| "publish_all ((fresh, fails, key, c) # steps) attempts sent =
     (case compaction_Publish fresh (Some (\<lambda>u sent. (if fails then Some () else None, sent @ [(key, snd u)]))) ''session'' key c attempts sent of
        (e, attempts, sent) \<Rightarrow> publish_all steps attempts sent)"

definition attempt :: "Compaction option \<Rightarrow> Compaction list \<Rightarrow> bool" where
  "attempt known sent \<longleftrightarrow>
     (case known of
        None \<Rightarrow> sent = []
      | Some c \<Rightarrow> cp_CompactionID c \<noteq> [] \<and>
          (if cp_Status c = CompactionInProgress then sent = [c]
           else sent = [c] \<or> (\<exists>b. sent = [b, c] \<and> cp_Status b = CompactionInProgress \<and> cp_CompactionID b = cp_CompactionID c)))"

definition of_key :: "string \<Rightarrow> (string \<times> Compaction) list \<Rightarrow> Compaction list" where
  "of_key key sent = map snd (filter (\<lambda>s. fst s = key) sent)"

lemma publish_step:
  assumes "attempt (attempts k) (of_key k sent)" and "k \<noteq> []" and "fresh \<noteq> []"
    and "compaction_Publish fresh (Some (\<lambda>u sent. (if fails then Some () else None, sent @ [(key, snd u)]))) s key c attempts sent = (e, attempts', sent')"
  shows "attempt (attempts' k) (of_key k sent')"
proof (cases "attempts' = attempts \<and> sent' = sent")
  case False
  let ?previous = "case attempts key of None \<Rightarrow> zero_compaction | Some p \<Rightarrow> p"
  let ?c = "retained fresh ?previous c"
  have go: "compaction_refusal key c = (None :: unit compaction_error option)"
    "\<not> (key \<noteq> [] \<and> attempts key \<noteq> None \<and> (cp_Status ?previous \<noteq> CompactionInProgress \<or> cp_Status c = CompactionInProgress))"
    using False assms(4) unfolding compaction_Publish_def Let_def by (auto split: option.splits if_splits)
  then have n: "attempts' = (if key \<noteq> [] then attempts(key \<mapsto> ?c) else attempts)" "sent' = sent @ [(key, ?c)]"
    using assms(4) unfolding compaction_Publish_def Let_def by (auto simp: CompactionCarrier_def split: option.splits if_splits)
  show ?thesis
  proof (cases "key = k")
    case True
    have status: "cp_Status ?c = cp_Status c" by (simp add: retained_def)
    show ?thesis
    proof (cases "attempts k")
      case None
      then show ?thesis using assms(1-3) n True by (auto simp: attempt_def of_key_def retained_def zero_compaction_def)
    next
      case (Some p)
      then have "cp_Status p = CompactionInProgress" "cp_Status c \<noteq> CompactionInProgress" "of_key k sent = [p]" "cp_CompactionID p \<noteq> []"
        using go(2) assms(1,2) True by (auto simp: attempt_def)
      then show ?thesis using Some n True assms(2) status by (auto simp: attempt_def of_key_def retained_def)
    qed
  qed (use assms(1) n in \<open>simp add: of_key_def\<close>)
qed (use assms(1) in simp)

text \<open>Each compaction attempt is published at most twice, its start once and its outcome once,
  under one id that no later report changes, and nothing follows its outcome.\<close>

theorem compaction_published_once:
  assumes "list_all (\<lambda>(fresh, fails, key, c). fresh \<noteq> []) steps" and "key \<noteq> []"
  shows "let sent = of_key key (publish_all steps Map.empty [])
    in sent = [] \<or> (\<exists>c. sent = [c]) \<or>
       (\<exists>b c. sent = [b, c] \<and> cp_Status b = ''in_progress'' \<and> cp_Status c \<noteq> ''in_progress'' \<and> cp_CompactionID b = cp_CompactionID c)"
proof -
  have "attempt (attempts key) (of_key key sent) \<Longrightarrow> \<exists>known. attempt known (of_key key (publish_all steps attempts sent))" for attempts sent
    using assms(1)
  proof (induction steps arbitrary: attempts sent)
    case (Cons step steps)
    obtain fresh fails k c where step: "step = (fresh, fails, k, c)" by (cases step)
    obtain e attempts' sent' where p: "compaction_Publish fresh (Some (\<lambda>u sent. (if fails then Some () else None, sent @ [(k, snd u)]))) ''session'' k c attempts sent = (e, attempts', sent')"
      by (metis prod_cases3)
    have "attempt (attempts' key) (of_key key sent')" using Cons.prems step by (intro publish_step[OF _ assms(2) _ p]) auto
    then show ?case using Cons.IH Cons.prems(2) by (simp add: step p)
  qed auto
  from this[of Map.empty "[]"] show ?thesis
    by (auto simp: attempt_def of_key_def Let_def CompactionInProgress_def split: option.splits if_splits)
qed

definition sample_compactions :: "(string \<times> bool \<times> string \<times> Compaction) list" where
  "sample_compactions =
     [(''a'', False, ''k'', zero_compaction\<lparr>cp_Status := CompactionInProgress\<rparr>),
      (''b'', True, ''k'', zero_compaction\<lparr>cp_Status := CompactionCompleted\<rparr>),
      (''c'', False, ''k'', zero_compaction\<lparr>cp_Status := CompactionFailed\<rparr>)]"

theorem compaction_published_once_witness:
  "let sent = of_key ''k'' (publish_all sample_compactions Map.empty [])
    in sent = [] \<or> (\<exists>c. sent = [c]) \<or>
       (\<exists>b c. sent = [b, c] \<and> cp_Status b = ''in_progress'' \<and> cp_Status c \<noteq> ''in_progress'' \<and> cp_CompactionID b = cp_CompactionID c)"
  by (rule compaction_published_once) (simp_all add: sample_compactions_def)

end
