(* ===== verification/Titles.thy ===== *)
theory Titles
  imports Options
begin

text \<open>wire/session\_text.go: the texts a session shows.\<close>

definition sessionTitleMaxRunes :: nat where "sessionTitleMaxRunes = 256"

definition SelectPositionEncoding :: "string list \<Rightarrow> string" where
  "SelectPositionEncoding encodings = (if ''utf-8'' \<in> set encodings then ''utf-8'' else ''utf-16'')"

definition NormalizeTitle :: "string \<Rightarrow> string" where
  "NormalizeTitle text =
     (let title = join_with (CHR '' '') (Fields text)
      in if length (runes title) \<le> sessionTitleMaxRunes then title
         else TrimSpace (runes_text (take (sessionTitleMaxRunes - 3) (runes title))) @ ''...'')"

text \<open>A content block as its text, if it is a text block.\<close>

definition PromptTitle :: "string option list \<Rightarrow> string" where
  "PromptTitle prompt =
     (case find (\<lambda>block. block \<noteq> None \<and> NormalizeTitle (the block) \<noteq> []) prompt of
        Some (Some text) \<Rightarrow> NormalizeTitle text
      | _ \<Rightarrow> [])"

text \<open>The code point a well-formed sequence spells.\<close>

definition code_point :: "string \<Rightarrow> nat" where
  "code_point r =
     (case byte_values r of
        [a] \<Rightarrow> a
      | [a, b] \<Rightarrow> (a - 192) * 64 + (b - 128)
      | [a, b, c] \<Rightarrow> (a - 224) * 4096 + (b - 128) * 64 + (c - 128)
      | [a, b, c, d] \<Rightarrow> (a - 240) * 262144 + (b - 128) * 4096 + (c - 128) * 64 + (d - 128)
      | _ \<Rightarrow> 65533)"

definition is_control :: "nat \<Rightarrow> bool" where
  "is_control p \<longleftrightarrow> p < 32 \<or> 127 \<le> p \<and> p < 160"

text \<open>The ranges of \<open>unicode.Cf\<close>.\<close>

definition format_ranges :: "(nat \<times> nat) list" where
  "format_ranges =
     [(0xad, 0xad), (0x600, 0x605), (0x61c, 0x61c), (0x6dd, 0x6dd), (0x70f, 0x70f), (0x890, 0x891), (0x8e2, 0x8e2),
      (0x180e, 0x180e), (0x200b, 0x200f), (0x202a, 0x202e), (0x2060, 0x2064), (0x2066, 0x206f), (0xfeff, 0xfeff),
      (0xfff9, 0xfffb), (0x110bd, 0x110bd), (0x110cd, 0x110cd), (0x13430, 0x1343f), (0x1bca0, 0x1bca3),
      (0x1d173, 0x1d17a), (0xe0001, 0xe0001), (0xe0020, 0xe007f)]"

definition is_format :: "nat \<Rightarrow> bool" where
  "is_format p \<longleftrightarrow> list_ex (\<lambda>(low, high). low \<le> p \<and> p \<le> high) format_ranges"

definition ValidCommandName :: "string \<Rightarrow> bool" where
  "ValidCommandName name \<longleftrightarrow>
     \<not> (name = [] \<or> CHR ''/'' \<in> set name \<or> \<not> valid_utf8 name) \<and>
     list_all (\<lambda>r. \<not> (rune_space r \<or> is_control (code_point r) \<or> is_format (code_point r))) (runes name)"

definition escape_char :: "char \<Rightarrow> string" where
  "escape_char c =
     (if c = CHR ''&'' then ''&amp;'' else if c = CHR ''<'' then ''&lt;'' else if c = CHR ''>'' then ''&gt;''
      else if c = CHR 0x22 then ''&quot;'' else if c = CHR 0x27 then ''&apos;'' else [c])"

definition escape_markup :: "string \<Rightarrow> string" where
  "escape_markup s = concat (map escape_char s)"

definition ContextResourceText :: "string \<Rightarrow> string \<Rightarrow> string" where
  "ContextResourceText uri text =
     newline # ''<context ref='' @ [CHR 0x22] @ escape_markup uri @ [CHR 0x22] @ ''>'' @ [newline] @ escape_markup text @ [newline] @ ''</context>''"

text \<open>The audience of a block's annotations, if it has any.\<close>

definition AudienceIsUserOnly :: "string list option \<Rightarrow> bool" where
  "AudienceIsUserOnly annotations \<longleftrightarrow> annotations = Some [''user'']"

section \<open>What they promise\<close>

lemma plain_runes: "rune_ok rune_error" "rune_ok ''.''"
  by (simp_all add: rune_ok_def utf8_len_bytes utf8_head_def rune_error_def cont_byte_def utf8_second_def)

lemma shortened_runes:
  assumes "list_all rune_ok rs" and "length rs + 3 \<le> n"
  shows "length (runes (TrimSpace (concat rs) @ ''...'')) \<le> n"
proof -
  have "list_all rune_ok (strip_runes rs @ [''.'', ''.'', ''.''])" using strip_runes_all[OF assms(1)] plain_runes(2) by simp
  from runes_concat[OF this] have "runes (concat (strip_runes rs) @ ''...'') = strip_runes rs @ [''.'', ''.'', ''.'']" by simp
  then show ?thesis unfolding TrimSpace_runes[OF assms(1)] using strip_runes_length[of rs] assms(2) by simp
qed

lemma NormalizeTitle_bounded: "length (runes (NormalizeTitle text)) \<le> sessionTitleMaxRunes"
proof (cases "length (runes (join_with (CHR '' '') (Fields text))) \<le> sessionTitleMaxRunes")
  case False
  let ?rs = "map (\<lambda>r. if rune_ok r then r else rune_error) (take (sessionTitleMaxRunes - 3) (runes (join_with (CHR '' '') (Fields text))))"
  have "list_all rune_ok ?rs" using plain_runes(1) by (auto simp: list_all_iff)
  then have "length (runes (TrimSpace (concat ?rs) @ ''...'')) \<le> sessionTitleMaxRunes"
    by (rule shortened_runes) (simp add: sessionTitleMaxRunes_def)
  moreover have "NormalizeTitle text = TrimSpace (concat ?rs) @ ''...''"
    using False unfolding NormalizeTitle_def runes_text_def Let_def by (simp only: if_False)
  ultimately show ?thesis by (simp only:)
qed (simp only: NormalizeTitle_def Let_def if_True)

text \<open>An escaped text holds no markup, so a resource cannot close the envelope it rides in.\<close>

lemma escaped_char: "list_all (\<lambda>b. b \<noteq> CHR ''<'' \<and> b \<noteq> CHR ''>'' \<and> b \<noteq> CHR 0x22 \<and> b \<noteq> CHR 0x27) (escape_char c)"
  unfolding escape_char_def by (simp split: if_split)

lemma escaped_no_markup: "list_all (\<lambda>b. b \<noteq> CHR ''<'' \<and> b \<noteq> CHR ''>'' \<and> b \<noteq> CHR 0x22 \<and> b \<noteq> CHR 0x27) (escape_markup s)"
  using escaped_char by (induction s) (simp_all add: escape_markup_def)

end
