(* ===== verification/AccountUsage.thy ===== *)
theory AccountUsage
  imports Options Rfc3339
begin

text \<open>
  Account usage: wire/accountusage.go and accountusage\_amounts.go, usage/usage.go and verified.go.  The
  params of a request are the text of a document, a text that is none, or absent.  An instant is a
  number of seconds since the start of year 1, and nanoseconds.
\<close>

section \<open>Requests\<close>

definition AccountUsageScopeSession :: string where "AccountUsageScopeSession = ''session''"
definition AccountUsageScopeAgent :: string where "AccountUsageScopeAgent = ''agent''"
definition AccountUsageNotAuthenticated :: string where "AccountUsageNotAuthenticated = ''not_authenticated''"
definition AccountUsageNotReported :: string where "AccountUsageNotReported = ''not_reported''"
definition accountUsageFieldParams :: string where "accountUsageFieldParams = ''params''"
definition accountUsageFieldMeta :: string where "accountUsageFieldMeta = ''_meta''"
definition accountUsageFieldProviderID :: string where "accountUsageFieldProviderID = ''providerId''"

lemmas account_fields = accountUsageFieldParams_def accountUsageFieldMeta_def accountUsageFieldProviderID_def fieldSessionID_def

definition AccountUsageAdvertisement :: "string \<Rightarrow> string \<Rightarrow> string list \<Rightarrow> go_map" where
  "AccountUsageAdvertisement m scope providers =
     [(''method'', AString m), (''scope'', AString scope)] @
     (if providers \<noteq> [] then [(''providers'', AStrings providers)] else [])"

record AccountUsageRequest =
  au_SessionID :: string
  au_ProviderID :: string
  au_Meta :: members

definition no_request :: AccountUsageRequest where
  "no_request = \<lparr>au_SessionID = [], au_ProviderID = [], au_Meta = []\<rparr>"

datatype raw_params = NoParams | Malformed | Params json

text \<open>The first member whose name came before.\<close>

fun repeated_member :: "string list \<Rightarrow> members \<Rightarrow> string option" where
  "repeated_member seen [] = None"
| "repeated_member seen ((name, v) # ms) = (if name \<in> set seen then Some name else repeated_member (name # seen) ms)"

text \<open>A text with a syntax error is refused naming the params even where a member repeats before it.\<close>

definition decodeAccountUsageMembers :: "raw_params \<Rightarrow> RequestError + members" where
  "decodeAccountUsageMembers params =
     (case params of
        NoParams \<Rightarrow> Inr []
      | Malformed \<Rightarrow> Inl (Unsupported accountUsageFieldParams)
      | Params JNull \<Rightarrow> Inr []
      | Params (JObj n ms) \<Rightarrow> (case repeated_member [] ms of Some name \<Rightarrow> Inl (Unsupported name) | None \<Rightarrow> Inr ms)
      | Params _ \<Rightarrow> Inl (Unsupported accountUsageFieldParams))"

definition raw_map :: "members \<Rightarrow> go_map" where
  "raw_map ms = map (\<lambda>(k, v). (k, ARaw v)) ms"

definition usage_member_names :: "members \<Rightarrow> string option" where
  "usage_member_names ms =
     find (\<lambda>name. name \<noteq> fieldSessionID \<and> name \<noteq> accountUsageFieldProviderID \<and> name \<noteq> accountUsageFieldMeta) (sort (map fst ms))"

definition decode_usage_session :: "members \<Rightarrow> string \<Rightarrow> AccountUsageRequest \<Rightarrow> AccountUsageRequest \<times> RequestError option" where
  "decode_usage_session ms scope request =
     (case lookup ms fieldSessionID of
        None \<Rightarrow> (request, if scope \<noteq> AccountUsageScopeAgent then Some (Missing fieldSessionID) else None)
      | Some raw \<Rightarrow>
          (case unmarshal_string raw of
             None \<Rightarrow> (request, Some (Unsupported fieldSessionID))
           | Some sid \<Rightarrow> if sid = [] then (request, Some (Unsupported fieldSessionID)) else (request\<lparr>au_SessionID := sid\<rparr>, None)))"

definition decode_usage_members :: "members \<Rightarrow> string \<Rightarrow> AccountUsageRequest \<Rightarrow> AccountUsageRequest \<times> RequestError option" where
  "decode_usage_members ms scope request =
     (case usage_member_names ms of
        Some name \<Rightarrow> (request, Some (Unsupported name))
      | None \<Rightarrow>
          (case lookup ms accountUsageFieldProviderID of
             None \<Rightarrow> decode_usage_session ms scope request
           | Some raw \<Rightarrow>
               (case unmarshal_string raw of
                  None \<Rightarrow> (request, Some (Unsupported accountUsageFieldProviderID))
                | Some provider \<Rightarrow>
                    (let request = request\<lparr>au_ProviderID := provider\<rparr>
                     in if provider = [] \<or> provider \<noteq> TrimSpace provider then (request, Some (Unsupported accountUsageFieldProviderID))
                        else decode_usage_session ms scope request))))"

definition DecodeAccountUsageRequest :: "raw_params \<Rightarrow> string \<Rightarrow> AccountUsageRequest \<times> RequestError option" where
  "DecodeAccountUsageRequest params scope =
     (case decodeAccountUsageMembers params of
        Inl refusal \<Rightarrow> (no_request, Some refusal)
      | Inr ms \<Rightarrow>
          (case lookup ms accountUsageFieldMeta of
             None \<Rightarrow> decode_usage_members ms scope no_request
           | Some JNull \<Rightarrow> decode_usage_members ms scope no_request
           | Some (JObj n meta) \<Rightarrow>
               (let request = no_request\<lparr>au_Meta := meta\<rparr>
                in case RejectKey (raw_map meta) of
                     Some refusal \<Rightarrow> (request, Some (ParamRefusal refusal))
                   | None \<Rightarrow> decode_usage_members ms scope request)
           | Some _ \<Rightarrow> (no_request, Some (Unsupported accountUsageFieldMeta))))"

section \<open>Responses\<close>

record AccountUsageLimit =
  al_ObservedAt :: string
  al_ID :: string
  al_Label :: string
  al_WindowSeconds :: int
  al_UsedPercent :: float64
  al_UsageAllowed :: "bool option"
  al_ResetsAt :: string

record AccountUsageMoney =
  am_Amount :: float64
  am_Currency :: string

record AccountUsageBalance =
  ab_ID :: string
  ab_Label :: string
  ab_ObservedAt :: string
  ab_Used :: "AccountUsageMoney option"
  ab_Limit :: "AccountUsageMoney option"
  ab_Remaining :: "AccountUsageMoney option"
  ab_Uncapped :: bool
  ab_ResetInterval :: string
  ab_ResetsAt :: string

record AccountUsageRequestLimit =
  aq_ID :: string
  aq_Label :: string
  aq_ObservedAt :: string
  aq_Used :: int
  aq_Limit :: int
  aq_Remaining :: int
  aq_ResetInterval :: string
  aq_ResetsAt :: string

record AccountUsageResponse =
  ar_Available :: bool
  ar_Reason :: string
  ar_Plan :: string
  ar_UsageAllowed :: "bool option"
  ar_Limits :: "AccountUsageLimit list"
  ar_Balances :: "AccountUsageBalance list"
  ar_RequestLimits :: "AccountUsageRequestLimit list"

definition AccountUsageUnavailable :: "string \<Rightarrow> AccountUsageResponse" where
  "AccountUsageUnavailable reason =
     \<lparr>ar_Available = False, ar_Reason = reason, ar_Plan = [], ar_UsageAllowed = None, ar_Limits = [], ar_Balances = [], ar_RequestLimits = []\<rparr>"

definition AccountUsageTime :: "instant \<Rightarrow> string" where
  "AccountUsageTime t = (if \<not> in_years (in_Seconds t) then [] else format_utc (in_Seconds t))"

datatype usage_error =
    ReasonPresent | PlanSpace | NoMeasurement | UnknownReason string | MoreThanReason
  | BadTime string | BadID | LabelSpace | NegativeWindow | BadPercent
  | BadIdentity | UnknownInterval | BalanceEmpty | UncappedCapped | BadCurrency | MixedCurrency | NotFinite | NegativeAmount
  | NegativeCount | InLimit nat usage_error | InBalance nat usage_error | InRequestLimit nat usage_error | RepeatedID string

definition validateAccountUsageTime :: "string \<Rightarrow> string \<Rightarrow> usage_error option" where
  "validateAccountUsageTime v name =
     (if (case time_Parse v of None \<Rightarrow> True | Some parsed \<Rightarrow> AccountUsageTime parsed \<noteq> v) then Some (BadTime name) else None)"

fun finite_float :: "float64 \<Rightarrow> bool" where
  "finite_float (Finite q) = True"
| "finite_float _ = False"

fun negative_float :: "float64 \<Rightarrow> bool" where
  "negative_float (Finite q) = (q < 0)"
| "negative_float (Infinite positive) = (\<not> positive)"
| "negative_float NaN = False"

text \<open>The first check that fails.\<close>

fun first_failure :: "usage_error option list \<Rightarrow> usage_error option" where
  "first_failure [] = None"
| "first_failure (Some e # checks) = Some e"
| "first_failure (None # checks) = first_failure checks"

definition check_that :: "bool \<Rightarrow> usage_error \<Rightarrow> usage_error option" where
  "check_that ok e = (if ok then None else Some e)"

definition limit_validate :: "AccountUsageLimit \<Rightarrow> usage_error option" where
  "limit_validate l = first_failure
     [validateAccountUsageTime (al_ObservedAt l) ''observedAt'',
      check_that (\<not> (al_ID l = [] \<or> al_ID l \<noteq> TrimSpace (al_ID l))) BadID,
      check_that (al_Label l = TrimSpace (al_Label l)) LabelSpace,
      check_that (\<not> al_WindowSeconds l < 0) NegativeWindow,
      check_that (\<not> (\<not> finite_float (al_UsedPercent l) \<or> negative_float (al_UsedPercent l))) BadPercent,
      (if al_ResetsAt l = [] then None else validateAccountUsageTime (al_ResetsAt l) ''resetsAt'')]"

definition validateAccountMeasurement :: "string \<Rightarrow> string \<Rightarrow> string \<Rightarrow> string \<Rightarrow> string \<Rightarrow> usage_error option" where
  "validateAccountMeasurement mid label observedAt interval resetsAt = first_failure
     [check_that (\<not> (mid = [] \<or> mid \<noteq> TrimSpace mid \<or> label \<noteq> TrimSpace label)) BadIdentity,
      validateAccountUsageTime observedAt ''observedAt'',
      check_that (\<not> (interval \<noteq> [] \<and> interval \<noteq> ''daily'' \<and> interval \<noteq> ''weekly'' \<and> interval \<noteq> ''monthly'')) UnknownInterval,
      (if resetsAt \<noteq> [] then validateAccountUsageTime resetsAt ''resetsAt'' else None)]"

definition currency_code :: "string \<Rightarrow> bool" where
  "currency_code c \<longleftrightarrow> length c = 3 \<and> list_all (\<lambda>b. CHR ''A'' \<le> b \<and> b \<le> CHR ''Z'') c"

fun amounts_validate :: "string \<Rightarrow> AccountUsageMoney option list \<Rightarrow> usage_error option" where
  "amounts_validate currency [] = None"
| "amounts_validate currency (None # amounts) = amounts_validate currency amounts"
| "amounts_validate currency (Some a # amounts) =
     (if \<not> currency_code (am_Currency a) then Some BadCurrency
      else if currency \<noteq> [] \<and> currency \<noteq> am_Currency a then Some MixedCurrency
      else if \<not> finite_float (am_Amount a) then Some NotFinite
      else amounts_validate (am_Currency a) amounts)"

definition negative_money :: "AccountUsageMoney option \<Rightarrow> bool" where
  "negative_money m = (case m of None \<Rightarrow> False | Some a \<Rightarrow> negative_float (am_Amount a))"

definition balance_validate :: "AccountUsageBalance \<Rightarrow> usage_error option" where
  "balance_validate b = first_failure
     [validateAccountMeasurement (ab_ID b) (ab_Label b) (ab_ObservedAt b) (ab_ResetInterval b) (ab_ResetsAt b),
      check_that (\<not> (ab_Used b = None \<and> ab_Remaining b = None)) BalanceEmpty,
      check_that (\<not> (ab_Uncapped b \<and> (ab_Limit b \<noteq> None \<or> ab_Remaining b \<noteq> None \<or> ab_ResetInterval b \<noteq> [] \<or> ab_ResetsAt b \<noteq> []))) UncappedCapped,
      amounts_validate [] [ab_Used b, ab_Limit b, ab_Remaining b],
      check_that (\<not> (negative_money (ab_Used b) \<or> negative_money (ab_Limit b))) NegativeAmount]"

definition request_limit_validate :: "AccountUsageRequestLimit \<Rightarrow> usage_error option" where
  "request_limit_validate l = first_failure
     [validateAccountMeasurement (aq_ID l) (aq_Label l) (aq_ObservedAt l) (aq_ResetInterval l) (aq_ResetsAt l),
      check_that (\<not> (aq_Used l < 0 \<or> aq_Limit l < 0 \<or> aq_Remaining l < 0)) NegativeCount]"

text \<open>One list of measurements: each is valid and its id is new.\<close>

fun validate_each :: "(nat \<Rightarrow> usage_error \<Rightarrow> usage_error) \<Rightarrow> ('m \<Rightarrow> usage_error option) \<Rightarrow> ('m \<Rightarrow> string) \<Rightarrow> nat \<Rightarrow>
    string set \<Rightarrow> 'm list \<Rightarrow> usage_error + string set" where
  "validate_each place check ident index seen [] = Inr seen"
| "validate_each place check ident index seen (m # ms) =
     (case check m of
        Some e \<Rightarrow> Inl (place index e)
      | None \<Rightarrow> if ident m \<in> seen then Inl (place index (RepeatedID (ident m)))
          else validate_each place check ident (Suc index) (insert (ident m) seen) ms)"

definition validateUnavailable :: "AccountUsageResponse \<Rightarrow> usage_error option" where
  "validateUnavailable r = first_failure
     [check_that (ar_Reason r = AccountUsageNotAuthenticated \<or> ar_Reason r = AccountUsageNotReported) (UnknownReason (ar_Reason r)),
      check_that (\<not> (ar_Plan r \<noteq> [] \<or> ar_UsageAllowed r \<noteq> None \<or>
        length (ar_Limits r) + length (ar_Balances r) + length (ar_RequestLimits r) \<noteq> 0)) MoreThanReason]"

definition validate_measurements :: "AccountUsageResponse \<Rightarrow> usage_error option" where
  "validate_measurements r =
     (case validate_each InLimit limit_validate al_ID 0 {} (ar_Limits r) of
        Inl e \<Rightarrow> Some e
      | Inr seen \<Rightarrow>
          (case validate_each InBalance balance_validate ab_ID 0 seen (ar_Balances r) of
             Inl e \<Rightarrow> Some e
           | Inr seen \<Rightarrow>
               (case validate_each InRequestLimit request_limit_validate aq_ID 0 seen (ar_RequestLimits r) of
                  Inl e \<Rightarrow> Some e
                | Inr seen \<Rightarrow> None)))"

definition Validate :: "AccountUsageResponse \<Rightarrow> usage_error option" where
  "Validate r =
     (if \<not> ar_Available r then validateUnavailable r
      else first_failure
        [check_that (ar_Reason r = []) ReasonPresent,
         check_that (ar_Plan r = TrimSpace (ar_Plan r)) PlanSpace,
         check_that (length (ar_Limits r) + length (ar_Balances r) + length (ar_RequestLimits r) \<noteq> 0) NoMeasurement,
         validate_measurements r])"

section \<open>Reading the account\<close>

record Credential =
  ce_Token :: string
  ce_AccountID :: string
  ce_BaseURL :: string

record Access =
  ac_APIKey :: string
  ac_AccountID :: string
  ac_BaseURL :: string
  ac_Reason :: string
  ac_Fingerprint :: "nat list"

datatype 'e verified_error = AccessFailed 'e | ReadFailed 'e | CredentialsChanged | InvalidResponse usage_error

definition empty_response :: AccountUsageResponse where
  "empty_response = AccountUsageUnavailable []"

text \<open>\<open>access\<close> and \<open>reader\<close> act on a world; the response comes with the error, as the code returns both.\<close>

definition ReadVerified ::
    "('w \<Rightarrow> ('e + Access) \<times> 'w) \<Rightarrow> (Credential \<Rightarrow> 'w \<Rightarrow> ('e + AccountUsageResponse) \<times> 'w) \<Rightarrow> 'w \<Rightarrow>
     (AccountUsageResponse \<times> 'e verified_error option) \<times> 'w" where
  "ReadVerified access reader w =
     (case access w of
        (Inl e, w) \<Rightarrow> ((empty_response, Some (AccessFailed e)), w)
      | (Inr before, w) \<Rightarrow>
          if ac_Reason before \<noteq> [] then ((AccountUsageUnavailable (ac_Reason before), None), w)
          else (case reader \<lparr>ce_Token = ac_APIKey before, ce_AccountID = ac_AccountID before, ce_BaseURL = ac_BaseURL before\<rparr> w of
                  (Inl e, w) \<Rightarrow> ((empty_response, Some (ReadFailed e)), w)
                | (Inr response, w) \<Rightarrow>
                    (case access w of
                       (Inl e, w) \<Rightarrow> ((empty_response, Some (AccessFailed e)), w)
                     | (Inr after, w) \<Rightarrow>
                         if before \<noteq> after then ((empty_response, Some CredentialsChanged), w)
                         else ((response, map_option InvalidResponse (Validate response)), w))))"

text \<open>The status and the retry instant of a provider's refusal, for an error that is one.\<close>

definition RequestError_of :: "string \<Rightarrow> (int \<times> instant) option \<Rightarrow> RequestError" where
  "RequestError_of vendor provider =
     (case (InternalFailure vendor ''account_usage'', provider) of
        (InternalError data, Some (status, retryAt)) \<Rightarrow>
          InternalError (data @ [(''statusCode'', AInt status)] @
            (if retryAt \<noteq> zero_time then [(''retryAt'', AString (AccountUsageTime retryAt))] else []))
      | (failure, _) \<Rightarrow> failure)"

section \<open>What is accepted\<close>

text \<open>The form of an instant: year 1 to 9999, a date of the calendar, whole seconds, \<open>Z\<close>.\<close>

definition own_time :: "string \<Rightarrow> bool" where
  "own_time text \<longleftrightarrow> (\<exists>y mo d h mi s. moment y mo d h mi s \<and> text = rendered y mo d h mi s)"

lemma rendered_nonempty: "rendered y mo d h mi s \<noteq> []"
  by (simp add: rendered_def)

lemma time_decided [simp]: "validateAccountUsageTime v name = None \<longleftrightarrow> own_time v"
proof -
  have "time_Parse [] = None" by (simp add: time_Parse_def number_def)
  then have "v \<noteq> []" if "time_Parse v = Some t" for t using that by auto
  then have "validateAccountUsageTime v name = None \<longleftrightarrow>
      (case time_Parse v of None \<Rightarrow> False | Some t \<Rightarrow> in_years (in_Seconds t) \<and> format_utc (in_Seconds t) = v)"
    by (auto simp: validateAccountUsageTime_def AccountUsageTime_def split: option.split)
  then show ?thesis by (simp only: own_form own_time_def)
qed

lemma first_failure_None [simp]: "first_failure checks = None \<longleftrightarrow> list_all (\<lambda>c. c = None) checks"
  by (induction checks rule: first_failure.induct) auto

lemma check_that_None [simp]: "check_that ok e = None \<longleftrightarrow> ok"
  by (simp add: check_that_def)

definition identity_ok :: "string \<Rightarrow> string \<Rightarrow> bool" where
  "identity_ok mid label \<longleftrightarrow> mid \<noteq> [] \<and> TrimSpace mid = mid \<and> TrimSpace label = label"

definition reset_ok :: "string \<Rightarrow> string \<Rightarrow> bool" where
  "reset_ok interval resetsAt \<longleftrightarrow> interval \<in> {[], ''daily'', ''weekly'', ''monthly''} \<and> (resetsAt = [] \<or> own_time resetsAt)"

definition amount_ok :: "bool \<Rightarrow> AccountUsageMoney \<Rightarrow> bool" where
  "amount_ok owing a \<longleftrightarrow> currency_code (am_Currency a) \<and> (\<exists>q. am_Amount a = Finite q \<and> (owing \<or> 0 \<le> q))"

definition limit_ok :: "AccountUsageLimit \<Rightarrow> bool" where
  "limit_ok l \<longleftrightarrow> identity_ok (al_ID l) (al_Label l) \<and> own_time (al_ObservedAt l) \<and> 0 \<le> al_WindowSeconds l \<and>
     (\<exists>q. al_UsedPercent l = Finite q \<and> 0 \<le> q) \<and> (al_ResetsAt l = [] \<or> own_time (al_ResetsAt l))"

definition balance_ok :: "AccountUsageBalance \<Rightarrow> bool" where
  "balance_ok b \<longleftrightarrow> identity_ok (ab_ID b) (ab_Label b) \<and> own_time (ab_ObservedAt b) \<and> reset_ok (ab_ResetInterval b) (ab_ResetsAt b) \<and>
     (ab_Used b \<noteq> None \<or> ab_Remaining b \<noteq> None) \<and>
     (ab_Uncapped b \<longrightarrow> ab_Limit b = None \<and> ab_Remaining b = None \<and> ab_ResetInterval b = [] \<and> ab_ResetsAt b = []) \<and>
     pred_option (amount_ok False) (ab_Used b) \<and> pred_option (amount_ok False) (ab_Limit b) \<and> pred_option (amount_ok True) (ab_Remaining b) \<and>
     (\<forall>a b'. Some a \<in> {ab_Used b, ab_Limit b, ab_Remaining b} \<longrightarrow> Some b' \<in> {ab_Used b, ab_Limit b, ab_Remaining b} \<longrightarrow>
        am_Currency a = am_Currency b')"

definition request_limit_ok :: "AccountUsageRequestLimit \<Rightarrow> bool" where
  "request_limit_ok l \<longleftrightarrow> identity_ok (aq_ID l) (aq_Label l) \<and> own_time (aq_ObservedAt l) \<and> reset_ok (aq_ResetInterval l) (aq_ResetsAt l) \<and>
     0 \<le> aq_Used l \<and> 0 \<le> aq_Limit l \<and> 0 \<le> aq_Remaining l"

lemma finite_decided: "finite_float v \<and> \<not> negative_float v \<longleftrightarrow> (\<exists>q. v = Finite q \<and> 0 \<le> q)"
  by (cases v) auto

lemma limit_decided: "limit_validate l = None \<longleftrightarrow> limit_ok l"
  using finite_decided[of "al_UsedPercent l"] by (auto simp: limit_validate_def limit_ok_def identity_ok_def)

lemma measurement_decided:
  "validateAccountMeasurement mid label observedAt interval resetsAt = None \<longleftrightarrow>
   identity_ok mid label \<and> own_time observedAt \<and> reset_ok interval resetsAt"
  by (auto simp: validateAccountMeasurement_def identity_ok_def reset_ok_def)

lemma request_limit_decided: "request_limit_validate l = None \<longleftrightarrow> request_limit_ok l"
  by (auto simp: request_limit_validate_def request_limit_ok_def measurement_decided)

definition of_currency :: "string \<Rightarrow> AccountUsageMoney \<Rightarrow> bool" where
  "of_currency currency a \<longleftrightarrow> currency_code (am_Currency a) \<and> finite_float (am_Amount a) \<and> (currency = [] \<or> am_Currency a = currency)"

lemma amounts_decided:
  "amounts_validate currency amounts = None \<longleftrightarrow>
   (\<exists>c. (currency = [] \<or> currency = c) \<and> (\<forall>a. Some a \<in> set amounts \<longrightarrow> of_currency c a \<and> c \<noteq> []))"
proof (induction currency amounts rule: amounts_validate.induct)
  case (3 currency a amounts)
  show ?case
  proof (cases "currency_code (am_Currency a) \<and> (currency = [] \<or> am_Currency a = currency) \<and> finite_float (am_Amount a)")
    case True
    then have "am_Currency a \<noteq> []" by (auto simp: currency_code_def)
    then show ?thesis using True 3 by (auto simp: of_currency_def)
  next
    case False
    then have "amounts_validate currency (Some a # amounts) \<noteq> None" by auto
    moreover have "\<not> (\<exists>c. (currency = [] \<or> currency = c) \<and> (\<forall>b. Some b \<in> set (Some a # amounts) \<longrightarrow> of_currency c b \<and> c \<noteq> []))"
      using False by (auto simp: of_currency_def)
    ultimately show ?thesis by blast
  qed
qed auto

lemma money_decided:
  "pred_option (amount_ok False) m \<longleftrightarrow> pred_option (amount_ok True) m \<and> \<not> negative_money m"
  "pred_option (amount_ok True) m \<longleftrightarrow> pred_option (\<lambda>a. currency_code (am_Currency a) \<and> finite_float (am_Amount a)) m"
proof -
  have "\<And>a. amount_ok True a \<longleftrightarrow> currency_code (am_Currency a) \<and> finite_float (am_Amount a)"
    "\<And>a. amount_ok False a \<longleftrightarrow> currency_code (am_Currency a) \<and> finite_float (am_Amount a) \<and> \<not> negative_float (am_Amount a)"
    using finite_decided by (auto simp: amount_ok_def elim: finite_float.elims)
  then show "pred_option (amount_ok False) m \<longleftrightarrow> pred_option (amount_ok True) m \<and> \<not> negative_money m"
    "pred_option (amount_ok True) m \<longleftrightarrow> pred_option (\<lambda>a. currency_code (am_Currency a) \<and> finite_float (am_Amount a)) m"
    by (cases m; auto simp: negative_money_def)+
qed

lemma one_currency:
  "(\<exists>c. \<forall>a. Some a \<in> S \<longrightarrow> of_currency c a \<and> c \<noteq> []) \<longleftrightarrow>
   (\<forall>a. Some a \<in> S \<longrightarrow> currency_code (am_Currency a) \<and> finite_float (am_Amount a)) \<and>
   (\<forall>a b. Some a \<in> S \<longrightarrow> Some b \<in> S \<longrightarrow> am_Currency a = am_Currency b)" (is "?one \<longleftrightarrow> ?each \<and> ?same")
proof
  assume ?one
  then obtain c where c: "\<forall>a. Some a \<in> S \<longrightarrow> of_currency c a \<and> c \<noteq> []" by (elim exE)
  have f: "am_Currency a = c" "currency_code (am_Currency a)" "finite_float (am_Amount a)" if "Some a \<in> S" for a
    using c[rule_format, OF that] by (auto simp: of_currency_def)
  show "?each \<and> ?same"
  proof (intro conjI allI impI)
    fix a b assume "Some a \<in> S" "Some b \<in> S"
    then show "am_Currency a = am_Currency b" by (simp only: f(1))
  qed (simp_all add: f(2,3))
next
  assume e: "?each \<and> ?same"
  show ?one
  proof (cases "\<exists>a. Some a \<in> S")
    case True
    then obtain a where a: "Some a \<in> S" ..
    then have "am_Currency a \<noteq> []" using conjunct1[OF e] by (auto simp: currency_code_def)
    moreover have "of_currency (am_Currency a) b" if b: "Some b \<in> S" for b
      using conjunct1[OF e, rule_format, OF b] conjunct2[OF e, rule_format, OF b a] by (simp add: of_currency_def)
    ultimately show ?thesis by (intro exI[of _ "am_Currency a"]) simp
  qed simp
qed

lemma balance_decided: "balance_validate b = None \<longleftrightarrow> balance_ok b"
proof -
  let ?S = "{ab_Used b, ab_Limit b, ab_Remaining b}"
  have "(\<forall>a. Some a \<in> ?S \<longrightarrow> currency_code (am_Currency a) \<and> finite_float (am_Amount a)) \<longleftrightarrow>
      pred_option (amount_ok True) (ab_Used b) \<and> pred_option (amount_ok True) (ab_Limit b) \<and> pred_option (amount_ok True) (ab_Remaining b)"
    unfolding money_decided(2) by (cases "ab_Used b"; cases "ab_Limit b"; cases "ab_Remaining b") auto
  moreover have "amounts_validate [] [ab_Used b, ab_Limit b, ab_Remaining b] = None \<longleftrightarrow> (\<exists>c. \<forall>a. Some a \<in> ?S \<longrightarrow> of_currency c a \<and> c \<noteq> [])"
    by (simp add: amounts_decided)
  moreover have "list_all (\<lambda>c. c = (None :: usage_error option)) [] = True" by simp
  ultimately show ?thesis
    unfolding balance_validate_def balance_ok_def first_failure_None list.pred_inject(2) check_that_None measurement_decided money_decided(1) one_currency
    by argo
qed

lemma validate_each_decided:
  "validate_each place check ident index seen ms = Inr seen' \<longleftrightarrow>
   (\<forall>m \<in> set ms. check m = None) \<and> distinct (map ident ms) \<and> seen \<inter> ident ` set ms = {} \<and> seen' = seen \<union> ident ` set ms"
proof (induction place check ident index seen ms rule: validate_each.induct)
  case (2 place check ident index seen m ms)
  show ?case
  proof (cases "check m = None \<and> ident m \<notin> seen")
    case True
    with 2 have "validate_each place check ident index seen (m # ms) = Inr seen' \<longleftrightarrow>
        (\<forall>m \<in> set ms. check m = None) \<and> distinct (map ident ms) \<and> insert (ident m) seen \<inter> ident ` set ms = {} \<and>
        seen' = insert (ident m) seen \<union> ident ` set ms" by simp
    with True show ?thesis by auto
  next
    case False
    then show ?thesis by (cases "check m") auto
  qed
qed auto

text \<open>C29: A response is accepted exactly when it keeps the contract: an unavailable one states a known
  reason and nothing else; an available one states no reason and at least one measurement, every
  measurement is well formed, and no two measurements of any kind share an id.\<close>

theorem usage_response_contract:
  "Validate r = None \<longleftrightarrow>
   (if ar_Available r then
      ar_Reason r = [] \<and> TrimSpace (ar_Plan r) = ar_Plan r \<and> \<not> (ar_Limits r = [] \<and> ar_Balances r = [] \<and> ar_RequestLimits r = []) \<and>
      list_all limit_ok (ar_Limits r) \<and> list_all balance_ok (ar_Balances r) \<and> list_all request_limit_ok (ar_RequestLimits r) \<and>
      distinct (map al_ID (ar_Limits r) @ map ab_ID (ar_Balances r) @ map aq_ID (ar_RequestLimits r))
    else (ar_Reason r = ''not_authenticated'' \<or> ar_Reason r = ''not_reported'') \<and> ar_Plan r = [] \<and> ar_UsageAllowed r = None \<and>
      ar_Limits r = [] \<and> ar_Balances r = [] \<and> ar_RequestLimits r = [])"
proof (cases "ar_Available r")
  case False
  then show ?thesis
    by (auto simp: Validate_def validateUnavailable_def AccountUsageNotAuthenticated_def AccountUsageNotReported_def)
next
  case True
  have "validate_measurements r = None \<longleftrightarrow> (\<exists>s1 s2 s3. validate_each InLimit limit_validate al_ID 0 {} (ar_Limits r) = Inr s1 \<and>
      validate_each InBalance balance_validate ab_ID 0 s1 (ar_Balances r) = Inr s2 \<and>
      validate_each InRequestLimit request_limit_validate aq_ID 0 s2 (ar_RequestLimits r) = Inr s3)"
    by (simp add: validate_measurements_def split: sum.split)
  also have "\<dots> \<longleftrightarrow> list_all limit_ok (ar_Limits r) \<and> list_all balance_ok (ar_Balances r) \<and> list_all request_limit_ok (ar_RequestLimits r) \<and>
      distinct (map al_ID (ar_Limits r) @ map ab_ID (ar_Balances r) @ map aq_ID (ar_RequestLimits r))"
    unfolding validate_each_decided limit_decided balance_decided request_limit_decided
    by (auto simp: list_all_iff)
  finally show ?thesis using True by (auto simp: Validate_def)
qed

text \<open>A verified read publishes what the reader returned only when it keeps the contract and the
  harness selects the same credential and route before and after the read.\<close>

theorem verified_usage:
  assumes "ReadVerified access reader w = ((response, None), w')"
  shows "\<exists>before w1. access w = (Inr before, w1) \<and>
    (if ac_Reason before \<noteq> [] then response = AccountUsageUnavailable (ac_Reason before)
     else \<exists>w2. reader \<lparr>ce_Token = ac_APIKey before, ce_AccountID = ac_AccountID before, ce_BaseURL = ac_BaseURL before\<rparr> w1 = (Inr response, w2) \<and>
       access w2 = (Inr before, w') \<and> Validate response = None)"
  using assms by (auto simp: ReadVerified_def split: prod.splits sum.splits if_splits)

definition sample_access :: Access where
  "sample_access = \<lparr>ac_APIKey = ''key'', ac_AccountID = [], ac_BaseURL = [], ac_Reason = [], ac_Fingerprint = []\<rparr>"

theorem verified_usage_witness:
  "\<exists>before w1. (\<lambda>w :: unit. (Inr sample_access :: unit + Access, w)) () = (Inr before, w1) \<and>
    (if ac_Reason before \<noteq> [] then AccountUsageUnavailable ''not_reported'' = AccountUsageUnavailable (ac_Reason before)
     else \<exists>w2. (\<lambda>c w. (Inr (AccountUsageUnavailable ''not_reported'') :: unit + AccountUsageResponse, w))
         \<lparr>ce_Token = ac_APIKey before, ce_AccountID = ac_AccountID before, ce_BaseURL = ac_BaseURL before\<rparr> w1 =
           (Inr (AccountUsageUnavailable ''not_reported''), w2) \<and>
       (\<lambda>w :: unit. (Inr sample_access :: unit + Access, w)) w2 = (Inr before, ()) \<and> Validate (AccountUsageUnavailable ''not_reported'') = None)"
proof (rule verified_usage)
  have "Validate (AccountUsageUnavailable ''not_reported'') = None"
    by (simp add: Validate_def validateUnavailable_def AccountUsageUnavailable_def AccountUsageNotReported_def)
  then show "ReadVerified (\<lambda>w :: unit. (Inr sample_access :: unit + Access, w))
      (\<lambda>c w. (Inr (AccountUsageUnavailable ''not_reported'') :: unit + AccountUsageResponse, w)) () =
      ((AccountUsageUnavailable ''not_reported'', None), ())"
    by (simp add: ReadVerified_def sample_access_def)
qed

end
