(* ===== verification/Rasters.thy ===== *)
theory Rasters
  imports Prelude "HOL-Library.Sublist" "HOL-Library.Monad_Syntax"
begin

unbundle bit_operations_syntax

text \<open>
  image/raster.go: what a decode-free walk over the header of a raster learns.  Reading an index or a
  slice outside the data panics in Go; here it is \<open>None\<close>, so an inspection is \<open>None\<close> for a panic, \<open>Inl\<close> for
  the error returned and \<open>Inr\<close> for the raster.  An \<open>int\<close> has 64 bits, so offsets and 32-bit lengths
  are natural numbers.
\<close>

section \<open>Bytes\<close>

definition byte_at :: "string \<Rightarrow> nat \<Rightarrow> nat option" where
  "byte_at data i = (if i < length data then Some (of_char (data ! i)) else None)"

definition slice :: "string \<Rightarrow> nat \<Rightarrow> nat \<Rightarrow> string option" where
  "slice data a b = (if a \<le> b \<and> b \<le> length data then Some (take (b - a) (drop a data)) else None)"

definition be_uint :: "string \<Rightarrow> nat" where
  "be_uint s = foldl (\<lambda>acc c. acc * 256 + of_char c) 0 s"

definition le_uint :: "string \<Rightarrow> nat" where
  "le_uint s = be_uint (rev s)"

definition be_uint32 :: "string \<Rightarrow> nat \<Rightarrow> nat option" where
  "be_uint32 data i = map_option be_uint (slice data i (i + 4))"

definition be_uint16 :: "string \<Rightarrow> nat \<Rightarrow> nat option" where
  "be_uint16 data i = map_option be_uint (slice data i (i + 2))"

definition le_uint32 :: "string \<Rightarrow> nat \<Rightarrow> nat option" where
  "le_uint32 data i = map_option le_uint (slice data i (i + 4))"

definition le_uint16 :: "string \<Rightarrow> nat \<Rightarrow> nat option" where
  "le_uint16 data i = map_option le_uint (slice data i (i + 2))"

lemma byte_at_Some [simp]: "i < length data \<Longrightarrow> byte_at data i = Some (of_char (data ! i))"
  by (simp add: byte_at_def)

lemma slice_Some [simp]: "a \<le> b \<Longrightarrow> b \<le> length data \<Longrightarrow> slice data a b = Some (take (b - a) (drop a data))"
  by (simp add: slice_def)

lemmas uints = be_uint32_def be_uint16_def le_uint32_def le_uint16_def

section \<open>Formats\<close>

definition MIMEPNG :: string where "MIMEPNG = ''image/png''"
definition MIMEJPEG :: string where "MIMEJPEG = ''image/jpeg''"
definition MIMEGIF :: string where "MIMEGIF = ''image/gif''"
definition MIMEWebP :: string where "MIMEWebP = ''image/webp''"

definition formats :: "string list" where
  "formats = [MIMEPNG, MIMEJPEG, MIMEGIF, MIMEWebP]"

lemmas mimes = MIMEPNG_def MIMEJPEG_def MIMEGIF_def MIMEWebP_def

record raster =
  rs_MIME :: string
  rs_Animated :: bool

datatype raster_error = UnknownRaster | InvalidDimensions string

type_synonym inspection = "(raster_error + raster) option"

section \<open>PNG\<close>

definition png_magic :: string where
  "png_magic = CHR 0x89 # ''PNG'' @ [CHR 0x0D, CHR 0x0A, CHR 0x1A, CHR 0x0A]"

function png_animated :: "string \<Rightarrow> nat \<Rightarrow> bool option" where
  "png_animated data offset =
     (if offset + 12 \<le> length data then do {
        len \<leftarrow> be_uint32 data offset;
        if offset + 12 + len > length data then Some False
        else do {
          chunkType \<leftarrow> slice data (offset + 4) (offset + 8);
          if chunkType = ''acTL'' then Some True
          else if chunkType = ''IDAT'' \<or> chunkType = ''IEND'' then Some False
          else png_animated data (offset + 12 + len)
        }
      }
      else Some False)"
  by pat_completeness auto
termination by (relation "measure (\<lambda>(data, offset). length data - offset)") auto

declare png_animated.simps [simp del]

definition inspectPNG :: "string \<Rightarrow> inspection" where
  "inspectPNG data =
     (if length data < 33 \<or> take 4 (drop 12 data) \<noteq> ''IHDR'' \<or> be_uint (take 4 (drop 8 data)) \<noteq> 13
      then Some (Inl (InvalidDimensions ''invalid PNG dimensions''))
      else do {
        width \<leftarrow> be_uint32 data 16;
        height \<leftarrow> be_uint32 data 20;
        if width = 0 \<or> height = 0 then Some (Inl (InvalidDimensions ''invalid PNG dimensions''))
        else do {
          animated \<leftarrow> png_animated data 8;
          Some (Inr \<lparr>rs_MIME = MIMEPNG, rs_Animated = animated\<rparr>)
        }
      })"

section \<open>JPEG\<close>

definition jpegSOFMarker :: "nat \<Rightarrow> bool" where
  "jpegSOFMarker marker \<longleftrightarrow> marker \<in> {0xc0, 0xc1, 0xc2, 0xc3, 0xc5, 0xc6, 0xc7, 0xc9, 0xca, 0xcb, 0xcd, 0xce, 0xcf}"

text \<open>Markers without a segment, and the offset after the fill bytes at one.\<close>

definition standalone_marker :: "nat \<Rightarrow> bool" where
  "standalone_marker marker \<longleftrightarrow> marker = 0xd8 \<or> marker = 0xd9 \<or> marker = 0x01 \<or> marker \<ge> 0xd0 \<and> marker \<le> 0xd7"

definition skip_fill :: "string \<Rightarrow> nat \<Rightarrow> nat" where
  "skip_fill data offset = offset + length (takeWhile (\<lambda>c. c = CHR 0xFF) (drop offset data))"

text \<open>Whether the frame header the walk finds has valid dimensions.\<close>

function jpeg_dimensions :: "string \<Rightarrow> nat \<Rightarrow> bool option" where
  "jpeg_dimensions data offset =
     (if offset + 1 < length data then do {
        b \<leftarrow> byte_at data offset;
        if b \<noteq> 0xff then jpeg_dimensions data (offset + 1)
        else (let offset = skip_fill data offset
          in if offset \<ge> length data then Some False
             else do {
               marker \<leftarrow> byte_at data offset;
               (let offset = offset + 1
                in if standalone_marker marker then jpeg_dimensions data offset
                   else if offset + 2 > length data then Some False
                   else do {
                     len \<leftarrow> be_uint16 data offset;
                     if len < 2 \<or> offset + len > length data then Some False
                     else if jpegSOFMarker marker \<and> len \<ge> 7 then do {
                       height \<leftarrow> be_uint16 data (offset + 3);
                       width \<leftarrow> be_uint16 data (offset + 5);
                       Some (\<not> (width = 0 \<or> height = 0))
                     }
                     else jpeg_dimensions data (offset + len)
                   })
             })
      }
      else Some False)"
  by pat_completeness auto
termination
  by (relation "measure (\<lambda>(data, offset). length data - offset)") (auto simp: skip_fill_def)

declare jpeg_dimensions.simps [simp del]

definition inspectJPEG :: "string \<Rightarrow> inspection" where
  "inspectJPEG data = do {
     valid \<leftarrow> jpeg_dimensions data 2;
     Some (if valid then Inr \<lparr>rs_MIME = MIMEJPEG, rs_Animated = False\<rparr>
           else Inl (InvalidDimensions ''invalid JPEG dimensions''))
   }"

section \<open>GIF\<close>

text \<open>The size of the color table a packed byte announces.\<close>

definition color_table :: "nat \<Rightarrow> nat" where
  "color_table packed = (if packed AND 0x80 \<noteq> 0 then 3 * 2 ^ ((packed AND 0x07) + 1) else 0)"

function skipGIFSubBlocks :: "string \<Rightarrow> nat \<Rightarrow> nat" where
  "skipGIFSubBlocks data offset =
     (if offset < length data then
        (let size = of_char (data ! offset); offset = offset + 1
         in if size = 0 then offset
            else if offset + size > length data then length data
            else skipGIFSubBlocks data (offset + size))
      else offset)"
  by pat_completeness auto
termination by (relation "measure (\<lambda>(data, offset). length data - offset)") auto

declare skipGIFSubBlocks.simps [simp del]

lemma skip_sub_blocks_le: "offset \<le> skipGIFSubBlocks data offset"
proof (induction data offset rule: skipGIFSubBlocks.induct)
  case (1 data offset)
  then show ?case by (subst skipGIFSubBlocks.simps) (force simp: Let_def intro: le_trans)
qed

text \<open>Whether more than one image follows.\<close>

function gif_animated :: "string \<Rightarrow> nat \<Rightarrow> nat \<Rightarrow> bool option" where
  "gif_animated data offset images =
     (if offset < length data then do {
        b \<leftarrow> byte_at data offset;
        if b = 0x2c then
          (let images = images + 1
           in if images > 1 then Some True
              else if offset + 10 > length data then Some False
              else do {
                packed \<leftarrow> byte_at data (offset + 9);
                (let offset = offset + 10 + color_table packed
                 in if offset \<ge> length data then Some False
                    else gif_animated data (skipGIFSubBlocks data (offset + 1)) images)
              })
        else if b = 0x21 then
          (if offset + 2 > length data then Some False
           else gif_animated data (skipGIFSubBlocks data (offset + 2)) images)
        else Some False
      }
      else Some False)"
  by pat_completeness auto
termination
proof (relation "measure (\<lambda>(data, offset, images). length data - offset)", goal_cases)
  case (2 data offset images b x packed y)
  then show ?case using skip_sub_blocks_le[of "offset + 10 + color_table packed + 1" data] by simp
next
  case (3 data offset images b)
  then show ?case using skip_sub_blocks_le[of "offset + 2" data] by simp
qed simp

declare gif_animated.simps [simp del]

definition inspectGIF :: "string \<Rightarrow> inspection" where
  "inspectGIF data =
     (if length data < 13 then Some (Inl (InvalidDimensions ''invalid GIF dimensions''))
      else do {
        width \<leftarrow> le_uint16 data 6;
        height \<leftarrow> le_uint16 data 8;
        if width = 0 \<or> height = 0 then Some (Inl (InvalidDimensions ''invalid GIF dimensions''))
        else do {
          packed \<leftarrow> byte_at data 10;
          animated \<leftarrow> gif_animated data (13 + color_table packed) 0;
          Some (Inr \<lparr>rs_MIME = MIMEGIF, rs_Animated = animated\<rparr>)
        }
      })"

section \<open>WebP\<close>

definition webp_lossy :: "string \<Rightarrow> nat \<Rightarrow> nat \<Rightarrow> bool option" where
  "webp_lossy data payload len =
     (if len < 10 then Some False
      else do {
        a \<leftarrow> byte_at data (payload + 3);
        b \<leftarrow> byte_at data (payload + 4);
        c \<leftarrow> byte_at data (payload + 5);
        if a = 0x9d \<and> b = 0x01 \<and> c = 0x2a then do {
          width \<leftarrow> le_uint16 data (payload + 6);
          height \<leftarrow> le_uint16 data (payload + 8);
          Some (width AND 0x3fff > 0 \<and> height AND 0x3fff > 0)
        }
        else Some False
      })"

definition webp_lossless :: "string \<Rightarrow> nat \<Rightarrow> nat \<Rightarrow> bool option" where
  "webp_lossless data payload len =
     (if len < 5 then Some False else map_option (\<lambda>b. b = 0x2f) (byte_at data payload))"

function inspect_chunks :: "string \<Rightarrow> nat \<Rightarrow> inspection" where
  "inspect_chunks data offset =
     (if offset + 8 \<le> length data then do {
        chunkType \<leftarrow> slice data offset (offset + 4);
        size \<leftarrow> le_uint32 data (offset + 4);
        (let payload = offset + 8
         in if payload + size > length data then Some (Inl (InvalidDimensions ''invalid WebP dimensions''))
            else if chunkType = ''VP8X'' then
              (if size < 10 then Some (Inl (InvalidDimensions ''invalid WebP dimensions''))
               else do {
                 flags \<leftarrow> byte_at data payload;
                 Some (Inr \<lparr>rs_MIME = MIMEWebP, rs_Animated = flags AND 0x02 \<noteq> 0\<rparr>)
               })
            else do {
              found \<leftarrow> (if chunkType = ''VP8 '' then webp_lossy data payload size
                        else if chunkType = ''VP8L'' then webp_lossless data payload size else Some False);
              if found then Some (Inr \<lparr>rs_MIME = MIMEWebP, rs_Animated = False\<rparr>)
              else inspect_chunks data (payload + size + size mod 2)
            })
      }
      else Some (Inl (InvalidDimensions ''invalid WebP dimensions'')))"
  by pat_completeness auto
termination by (relation "measure (\<lambda>(data, offset). length data - offset)") auto

declare inspect_chunks.simps [simp del]

definition inspectWebP :: "string \<Rightarrow> inspection" where
  "inspectWebP data = inspect_chunks data 12"

section \<open>Any raster\<close>

definition inspect :: "string \<Rightarrow> inspection" where
  "inspect data =
     (if prefix png_magic data then inspectPNG data
      else if prefix [CHR 0xFF, CHR 0xD8, CHR 0xFF] data then inspectJPEG data
      else if prefix ''GIF87a'' data \<or> prefix ''GIF89a'' data then inspectGIF data
      else if length data \<ge> 12 \<and> prefix ''RIFF'' data \<and> take 4 (drop 8 data) = ''WEBP'' then inspectWebP data
      else Some (Inl UnknownRaster))"

text \<open>The image types \<open>http.DetectContentType\<close> finds that are asked for: no signature before theirs in its
  table can match the same bytes.\<close>

definition detected_image :: "string \<Rightarrow> string option" where
  "detected_image data =
     (if prefix [CHR 0x00, CHR 0x00, CHR 0x01, CHR 0x00] data \<or> prefix [CHR 0x00, CHR 0x00, CHR 0x02, CHR 0x00] data
      then Some ''image/x-icon''
      else if prefix ''BM'' data then Some ''image/bmp'' else None)"

definition sniffMIME :: "string \<Rightarrow> string option option" where
  "sniffMIME data =
     (case inspect data of
        None \<Rightarrow> None
      | Some (Inr info) \<Rightarrow> Some (Some (rs_MIME info))
      | Some (Inl e) \<Rightarrow>
          Some (case detected_image data of
                  Some mime \<Rightarrow> Some mime
                | None \<Rightarrow>
                    if prefix (''II*'' @ [CHR 0x00]) data \<or> prefix (''MM'' @ [CHR 0x00] @ ''*'') data
                    then Some ''image/tiff'' else None))"

end
