(* ===== verification/Images.thy ===== *)
theory Images
  imports Options Titles Rasters
begin

text \<open>
  image/limits.go and errors.go: the byte limits of images with their advertisement, and the refusals of
  prompt images and the verdicts on output images.  An \<open>int64\<close> is an integer: every sum stays within the
  sizes of data held in memory.
\<close>

section \<open>Limits\<close>

definition defaultLimitBytes :: int where "defaultLimitBytes = 6 * 1024 * 1024"
definition FrameClamp :: int where "FrameClamp = 7864155"
definition maxHandoffBlocksPerPrompt :: int where "maxHandoffBlocksPerPrompt = 64"

record Limits =
  lm_InputPerImage :: int
  lm_InputPerPrompt :: int
  lm_OutputPerImage :: int
  lm_OutputPerToolCall :: int

definition DefaultLimits :: Limits where
  "DefaultLimits = \<lparr>lm_InputPerImage = defaultLimitBytes, lm_InputPerPrompt = defaultLimitBytes,
     lm_OutputPerImage = defaultLimitBytes, lm_OutputPerToolCall = defaultLimitBytes\<rparr>"

text \<open>The name of the first negative field.\<close>

definition limits_Validate :: "Limits \<Rightarrow> string option" where
  "limits_Validate l =
     map_option fst (find (\<lambda>(name, value). value < 0)
       [(''MaxInputBytesPerImage'', lm_InputPerImage l), (''MaxInputBytesPerPrompt'', lm_InputPerPrompt l),
        (''MaxOutputBytesPerImage'', lm_OutputPerImage l), (''MaxOutputBytesPerToolCall'', lm_OutputPerToolCall l)])"

definition effectiveInputPerImage :: "Limits \<Rightarrow> int \<Rightarrow> int" where
  "effectiveInputPerImage l nativeCeiling =
     (let effective = lm_InputPerImage l;
          effective = (if effective \<le> 0 \<or> effective > FrameClamp then FrameClamp else effective)
      in if nativeCeiling > 0 \<and> nativeCeiling < effective then nativeCeiling else effective)"

definition effectiveInputPerPrompt :: "Limits \<Rightarrow> int" where
  "effectiveInputPerPrompt l = lm_InputPerPrompt l"

definition clampOutput :: "int \<Rightarrow> int" where
  "clampOutput configured = (if configured \<le> 0 \<or> configured > FrameClamp then FrameClamp else configured)"

definition EffectiveOutputPerImage :: "Limits \<Rightarrow> int" where
  "EffectiveOutputPerImage l = clampOutput (lm_OutputPerImage l)"

definition EffectiveOutputPerToolCall :: "Limits \<Rightarrow> int" where
  "EffectiveOutputPerToolCall l = clampOutput (lm_OutputPerToolCall l)"

record Envelope =
  ev_NativeCeiling :: int
  ev_MaxDimension :: int
  ev_DocumentFormats :: "string list"

definition MediaEnvelope :: "Limits \<Rightarrow> Envelope \<Rightarrow> go_map" where
  "MediaEnvelope limits envelope =
     [(''maxBytes'', AInt (effectiveInputPerImage limits (ev_NativeCeiling envelope))),
      (''maxPromptBytes'', AInt (effectiveInputPerPrompt limits)),
      (''maxDimension'', AInt (ev_MaxDimension envelope)),
      (''imageFormats'', AStrings formats),
      (''documentFormats'', AStrings (ev_DocumentFormats envelope))]"

section \<open>Input refusals\<close>

definition FieldPromptImage :: string where "FieldPromptImage = ''prompt.image''"
definition FieldPromptResource :: string where "FieldPromptResource = ''prompt.resource''"

definition ErrorMissingData :: string where "ErrorMissingData = ''missing_data''"
definition ErrorInvalidBase64 :: string where "ErrorInvalidBase64 = ''invalid_base64''"
definition ErrorInvalidMediaType :: string where "ErrorInvalidMediaType = ''invalid_media_type''"
definition ErrorMediaTypeMismatch :: string where "ErrorMediaTypeMismatch = ''media_type_mismatch''"
definition ErrorAnimatedUnsupported :: string where "ErrorAnimatedUnsupported = ''animated_not_supported''"
definition ErrorInvalidDimensions :: string where "ErrorInvalidDimensions = ''invalid_dimensions''"
definition ErrorTooLarge :: string where "ErrorTooLarge = ''too_large''"
definition ErrorUnsupportedByModel :: string where "ErrorUnsupportedByModel = ''unsupported_by_model''"
definition ErrorInvalidHandoff :: string where "ErrorInvalidHandoff = ''invalid_handoff''"
definition ErrorPathNotAllowed :: string where "ErrorPathNotAllowed = ''path_not_allowed''"
definition ErrorMissingFile :: string where "ErrorMissingFile = ''missing_file''"
definition ErrorDigestMismatch :: string where "ErrorDigestMismatch = ''handoff_digest_mismatch''"

lemmas input_codes = ErrorMissingData_def ErrorInvalidBase64_def ErrorInvalidMediaType_def ErrorMediaTypeMismatch_def
  ErrorAnimatedUnsupported_def ErrorInvalidDimensions_def ErrorTooLarge_def ErrorUnsupportedByModel_def
  ErrorInvalidHandoff_def ErrorPathNotAllowed_def ErrorMissingFile_def ErrorDigestMismatch_def VerdictUnsupported_def

record InputError =
  ie_Code :: string
  ie_Field :: string
  ie_Message :: string
  ie_Index :: int
  ie_SizeBytes :: int
  ie_MaxBytes :: int

definition input_error :: "string \<Rightarrow> string \<Rightarrow> int \<Rightarrow> InputError" where
  "input_error code f index = \<lparr>ie_Code = code, ie_Field = f, ie_Message = [], ie_Index = index, ie_SizeBytes = 0, ie_MaxBytes = 0\<rparr>"

definition InputError_Error :: "InputError \<Rightarrow> string" where
  "InputError_Error e = (if ie_Message e \<noteq> [] then ie_Code e @ '': '' @ ie_Message e else ie_Code e)"

definition InputError_InvalidParams :: "InputError \<Rightarrow> RequestError" where
  "InputError_InvalidParams e = InvalidParams
     ([(FieldField, AString (ie_Field e)), (FieldError, AString (ie_Code e))] @
      (if ie_Index e \<ge> 0 then [(''index'', AInt (ie_Index e))] else []) @
      (if ie_Message e \<noteq> [] then [(FieldMessage, AString (ie_Message e))] else []) @
      (if ie_SizeBytes e > 0 \<or> ie_Code e = ErrorTooLarge then [(''sizeBytes'', AInt (ie_SizeBytes e))] else []) @
      (if ie_MaxBytes e > 0 \<or> ie_Code e = ErrorTooLarge then [(''maxBytes'', AInt (ie_MaxBytes e))] else []))"

definition UnsupportedByModel :: "string \<Rightarrow> int \<Rightarrow> InputError" where
  "UnsupportedByModel f index = input_error ErrorUnsupportedByModel f index"

section \<open>Output verdicts\<close>

definition OutputStage :: string where "OutputStage = ''image_output''"

definition ReasonInvalidBase64 :: string where "ReasonInvalidBase64 = ''invalid_base64''"
definition ReasonNotRaster :: string where "ReasonNotRaster = ''not_a_raster''"
definition ReasonMediaTypeMismatch :: string where "ReasonMediaTypeMismatch = ''media_type_mismatch''"
definition ReasonMissingFile :: string where "ReasonMissingFile = ''missing_file''"
definition ReasonPathNotAllowed :: string where "ReasonPathNotAllowed = ''path_not_allowed''"
definition ReasonTooLarge :: string where "ReasonTooLarge = ''too_large''"
definition ReasonStorageFailed :: string where "ReasonStorageFailed = ''storage_failed''"

lemmas output_reasons = ReasonInvalidBase64_def ReasonNotRaster_def ReasonMediaTypeMismatch_def ReasonMissingFile_def
  ReasonPathNotAllowed_def ReasonTooLarge_def ReasonStorageFailed_def

definition GuidancePathNotAllowed :: string where
  "GuidancePathNotAllowed = ''write the image inside the workspace and try again''"
definition GuidanceMissingFile :: string where
  "GuidanceMissingFile = ''the image file could not be read; write the image inside the workspace and try again''"
definition GuidanceTooLarge :: string where
  "GuidanceTooLarge = ''the image is too large to send; write a smaller image and try again''"
definition GuidanceNotRaster :: string where
  "GuidanceNotRaster = ''the file is not a supported raster image; write a PNG, JPEG, GIF, WebP, BMP, ICO, or TIFF and try again''"
definition GuidanceInvalidBase64 :: string where
  "GuidanceInvalidBase64 = ''the image payload could not be decoded; write the image to a file inside the workspace and try again''"
definition GuidanceMediaTypeMismatch :: string where
  "GuidanceMediaTypeMismatch = ''the declared media type does not match the image; write the image again with a matching media type''"

record OutputError =
  oe_Reason :: string
  oe_Message :: string
  oe_SizeBytes :: int
  oe_MaxBytes :: int

definition output_error :: "string \<Rightarrow> string \<Rightarrow> OutputError" where
  "output_error reason message = \<lparr>oe_Reason = reason, oe_Message = message, oe_SizeBytes = 0, oe_MaxBytes = 0\<rparr>"

definition OutputError_Error :: "OutputError \<Rightarrow> string" where
  "OutputError_Error e = oe_Message e"

definition Guidance :: "OutputError \<Rightarrow> string \<times> bool" where
  "Guidance e =
     (let reason = oe_Reason e
      in if reason = ReasonPathNotAllowed then (GuidancePathNotAllowed, True)
         else if reason = ReasonMissingFile then (GuidanceMissingFile, True)
         else if reason = ReasonTooLarge then (GuidanceTooLarge, True)
         else if reason = ReasonNotRaster then (GuidanceNotRaster, True)
         else if reason = ReasonInvalidBase64 then (GuidanceInvalidBase64, True)
         else if reason = ReasonMediaTypeMismatch then (GuidanceMediaTypeMismatch, True)
         else ([], False))"

definition OutputError_TurnFailure :: "OutputError \<Rightarrow> TurnFailure" where
  "OutputError_TurnFailure e =
     \<lparr>tf_Cause = CauseTransport, tf_Message = oe_Message e, tf_StatusCode = 0, tf_ProviderCode = [], tf_Recovery = [],
       tf_Stage = OutputStage, tf_Reason = oe_Reason e, tf_SizeBytes = oe_SizeBytes e, tf_MaxBytes = oe_MaxBytes e\<rparr>"

section \<open>The limits hold what they advertise\<close>

lemma effective_input_bounds:
  "0 < effectiveInputPerImage l c" "effectiveInputPerImage l c \<le> FrameClamp"
  "0 < lm_InputPerImage l \<Longrightarrow> effectiveInputPerImage l c \<le> lm_InputPerImage l"
  "0 < c \<Longrightarrow> effectiveInputPerImage l c \<le> c"
  by (auto simp: effectiveInputPerImage_def FrameClamp_def Let_def)

lemma effective_output_bounds: "0 < clampOutput c" "clampOutput c \<le> FrameClamp"
  by (auto simp: clampOutput_def FrameClamp_def)

text \<open>The frame clamp is the largest size whose base64 form fits the connection's line with its envelope.\<close>

lemma frame_clamp_largest: "(n + 2) div 3 * 4 + 220 \<le> 10485760 \<longleftrightarrow> n \<le> FrameClamp"
  unfolding FrameClamp_def by presburger

end
