(* ===== verification/Payloads.thy ===== *)
theory Payloads
  imports Sessions
begin

text \<open>
  \<open>base64.StdEncoding\<close> as the image gates use it: decoding a whole text, and decoding a stream of it, which
  works on a buffer of 1024 characters.
\<close>

section \<open>Decoding\<close>

definition std_char :: "nat \<Rightarrow> char" where
  "std_char n = (if n = 62 then CHR ''+'' else if n = 63 then CHR ''/'' else base64_char n)"

definition std_value :: "char \<Rightarrow> nat option" where
  "std_value c =
     (if c = CHR ''+'' then Some 62 else if c = CHR ''/'' then Some 63
      else if c = CHR ''-'' \<or> c = CHR ''_'' then None else base64_value c)"

definition visible :: "char \<Rightarrow> bool" where
  "visible c \<longleftrightarrow> c \<noteq> char_of (10 :: nat) \<and> c \<noteq> char_of (13 :: nat)"

definition std_quantum :: "string \<Rightarrow> string option" where
  "std_quantum cs =
     (case those (map std_value cs) of
        None \<Rightarrow> None
      | Some values \<Rightarrow> map_option (map char_of) (octets values))"

text \<open>Padding ends the text.\<close>

fun std_quanta :: "string \<Rightarrow> string option" where
  "std_quanta (a # b # c # d # rest) =
     (if d = CHR ''='' then (if rest \<noteq> [] then None else std_quantum (if c = CHR ''='' then [a, b] else [a, b, c]))
      else (case std_quantum [a, b, c, d] of
              None \<Rightarrow> None
            | Some bytes \<Rightarrow> map_option (\<lambda>more. bytes @ more) (std_quanta rest)))"
| "std_quanta [] = Some []"
| "std_quanta [a] = None"
| "std_quanta [a, b] = None"
| "std_quanta [a, b, c] = None"

definition std_decode :: "string \<Rightarrow> string option" where
  "std_decode s = std_quanta (filter visible s)"

fun std_encode :: "string \<Rightarrow> string" where
  "std_encode (a # b # c # rest) = map std_char (sextets (map of_char [a, b, c])) @ std_encode rest"
| "std_encode [] = []"
| "std_encode [a] = map std_char (sextets [of_char a]) @ ''==''"
| "std_encode [a, b] = map std_char (sextets [of_char a, of_char b]) @ ''=''"

text \<open>The writes that copying \<open>base64.NewDecoder\<close> makes, or \<open>None\<close> for an error: whole quanta are decoded out of
  what is held, and the buffer is refilled from the text when less than a quantum is held.\<close>

function stream_chunks :: "string \<Rightarrow> string \<Rightarrow> string list option" where
  "stream_chunks held raw =
     (if length held < 4 then
        (if raw \<noteq> [] then
           stream_chunks (held @ filter visible (take (1024 - length held) raw)) (drop (1024 - length held) raw)
         else if held = [] then Some [] else None)
      else (let n = length held div 4 * 4
        in case std_quanta (take n held) of
             None \<Rightarrow> None
           | Some bytes \<Rightarrow> map_option (\<lambda>chunks. bytes # chunks) (stream_chunks (drop n held) raw)))"
  by pat_completeness auto
termination
proof (relation "measures [\<lambda>(held, raw). length raw, \<lambda>(held, raw). length held]", goal_cases)
  case (2 held raw)
  from \<open>raw \<noteq> []\<close> have "0 < length raw" by blast
  with \<open>length held < 4\<close> have "length (drop (1024 - length held) raw) < length raw"
    by (simp del: length_greater_0_conv)
  then show ?case by simp
qed auto

declare stream_chunks.simps [simp del]

section \<open>What is encoded is decoded\<close>

lemma std_value_char: "n < 64 \<Longrightarrow> std_value (std_char n) = Some n"
proof -
  assume "n < 64"
  then have "n < 62 \<Longrightarrow> base64_char n \<notin> {CHR ''+'', CHR ''/'', CHR ''-'', CHR ''_''}"
    by (auto simp: base64_char_def dest!: arg_cong[where f = "of_char :: char \<Rightarrow> nat"])
  then show ?thesis
    using \<open>n < 64\<close> base64_value_char[of n] by (auto simp: std_value_def std_char_def)
qed

lemma std_char_plain: "n < 64 \<Longrightarrow> std_char n \<noteq> CHR ''='' \<and> visible (std_char n)"
  using base64_char_visible[of n]
  by (auto simp: std_char_def visible_def base64_char_def dest!: arg_cong[where f = "of_char :: char \<Rightarrow> nat"])

lemma std_quantum_chars:
  assumes "list_all (\<lambda>v. v < 64) vs"
  shows "std_quantum (map std_char vs) = map_option (map char_of) (octets vs)"
proof -
  have "those (map std_value (map std_char vs)) = Some vs"
    using assms std_value_char by (induction vs) simp_all
  then show ?thesis by (simp add: std_quantum_def)
qed

lemma sextets_of:
  "list_all (\<lambda>v. v < 64) (sextets (map of_char s))" "octets (sextets (map of_char s)) = Some (map of_char s)"
  using sextets_bound[of "map of_char s"] octets_sextets[of "map of_char s"] by (simp_all add: list_all_iff)

lemma std_quantum_encoded: "std_quantum (map std_char (sextets (map of_char s))) = Some s"
  using std_quantum_chars[OF sextets_of(1)[of s]] sextets_of(2)[of s] by (simp add: comp_def)

lemma std_quanta_padded:
  "a \<noteq> CHR ''='' \<Longrightarrow> std_quanta [a, b, CHR ''='', CHR ''=''] = std_quantum [a, b]"
  "c \<noteq> CHR ''='' \<Longrightarrow> std_quanta [a, b, c, CHR ''=''] = std_quantum [a, b, c]"
  by simp_all

lemma std_quanta_encode: "std_quanta (std_encode s) = Some s"
proof (induction s rule: std_encode.induct)
  case (1 a b c rest)
  obtain w x y z where q: "sextets (map of_char [a, b, c]) = [w, x, y, z]" "z < 64"
    using sextets_of(1)[of "[a, b, c]"] by simp
  show ?case
    using 1 std_quantum_encoded[of "[a, b, c]"] std_char_plain[OF q(2)] by (simp only: std_encode.simps q) simp
next
  case (3 a)
  then show ?case using std_quantum_encoded[of "[a]"] by simp
next
  case (4 a b)
  obtain w x y where q: "sextets (map of_char [a, b]) = [w, x, y]" "y < 64"
    using sextets_of(1)[of "[a, b]"] by simp
  then show ?case using std_quantum_encoded[of "[a, b]"] std_char_plain[OF q(2)] by simp
qed simp

lemma visible_pad: "visible CHR ''=''"
  by code_simp

lemma visible_encode: "list_all visible (std_encode s)"
proof (induction s rule: std_encode.induct)
  have vis: "list_all visible (map std_char (sextets (map of_char s)))" for s
    using sextets_of(1)[of s] std_char_plain by (simp add: list_all_iff)
  {
    case (1 a b c rest)
    then show ?case using vis[of "[a, b, c]"] by simp
  next
    case (3 a)
    then show ?case using vis[of "[a]"] visible_pad by simp
  next
    case (4 a b)
    then show ?case using vis[of "[a, b]"] visible_pad by simp
  }
qed simp

lemma std_round_trip: "std_decode (std_encode s) = Some s"
  using visible_encode[of s] std_quanta_encode[of s] by (simp add: std_decode_def filter_id_conv list_all_iff)

section \<open>The stream decodes what the text decodes to\<close>

lemma std_quanta_append:
  assumes "length x mod 4 = 0" and "std_quanta (x @ y) = Some d"
  shows "\<exists>d1 d2. std_quanta x = Some d1 \<and> std_quanta y = Some d2 \<and> d = d1 @ d2"
  using assms
proof (induction x arbitrary: d rule: std_quanta.induct)
  case (1 a b c e rest)
  have rest: "length rest mod 4 = 0" using "1.prems"(1) by simp
  show ?case
  proof (cases "e = CHR ''=''")
    case True
    then have "rest = []" "y = []" using "1.prems"(2) by (auto split: if_splits)
    then show ?thesis using "1.prems"(2) by auto
  next
    case False
    then obtain bytes more where "std_quantum [a, b, c, e] = Some bytes" "std_quanta (rest @ y) = Some more" "d = bytes @ more"
      using "1.prems"(2) by (auto split: option.splits)
    then show ?thesis using "1.IH"[OF False _ rest] False by fastforce
  qed
qed auto

lemma stream_decodes:
  "std_quanta (held @ filter visible raw) = Some d \<Longrightarrow>
   \<exists>chunks. stream_chunks held raw = Some chunks \<and> concat chunks = d"
proof (induction held raw arbitrary: d rule: stream_chunks.induct)
  case (1 held raw)
  show ?case
  proof (cases "length held < 4")
    case short: True
    show ?thesis
    proof (cases "raw = []")
      case True
      then have "held = []" using short "1.prems" by (cases held rule: std_quanta.cases) auto
      then show ?thesis using True "1.prems" by (subst stream_chunks.simps) simp
    next
      case False
      have "filter visible raw = filter visible (take (1024 - length held) raw) @ filter visible (drop (1024 - length held) raw)"
        by (metis append_take_drop_id filter_append)
      then show ?thesis
        using "1.IH"(1)[OF short False, of d] "1.prems" short False by (subst stream_chunks.simps) simp
    qed
  next
    case long: False
    let ?n = "length held div 4 * 4"
    have n: "?n \<le> length held" by simp
    have quanta: "length (take ?n held) mod 4 = 0" by (simp only: length_take min_absorb2[OF n]) simp
    have whole: "std_quanta (take ?n held @ (drop ?n held @ filter visible raw)) = Some d"
      using "1.prems" by (metis append_assoc append_take_drop_id)
    obtain d1 d2 where parts: "std_quanta (take ?n held) = Some d1" "std_quanta (drop ?n held @ filter visible raw) = Some d2"
      "d = d1 @ d2" using std_quanta_append[OF quanta whole] by blast
    from "1.IH"(2)[OF long refl parts(1,2)] obtain chunks where
      "stream_chunks (drop ?n held) raw = Some chunks" "concat chunks = d2" by blast
    then show ?thesis using long parts by (subst stream_chunks.simps) simp
  qed
qed

end
