(* ===== verification/Urls.thy ===== *)
theory Urls
  imports Environment
begin

text \<open>
  The part of \<open>net/url\<close> and \<open>path/filepath\<close> that resolving a handed-off file uses, on a Unix system.  A parsed
  URL is its scheme, host and path.  \<open>ip6\<close> is \<open>netip.ParseAddr\<close>: whether it takes the host in brackets.
\<close>

section \<open>Unescaping\<close>

datatype escaping = EscapePath | EscapeHost | EscapeUser | EscapeFragment

definition hex_value :: "char \<Rightarrow> nat option" where
  "hex_value c =
     (let n = of_char c
      in if 48 \<le> n \<and> n \<le> 57 then Some (n - 48) else if 97 \<le> n \<and> n \<le> 102 then Some (n - 87)
         else if 65 \<le> n \<and> n \<le> 70 then Some (n - 55) else None)"

definition is_letter :: "char \<Rightarrow> bool" where
  "is_letter c \<longleftrightarrow> (let n = of_char c :: nat in 65 \<le> n \<and> n \<le> 90 \<or> 97 \<le> n \<and> n \<le> 122)"

text \<open>The characters of ASCII that a host may hold unescaped.\<close>

definition host_char :: "char \<Rightarrow> bool" where
  "host_char c \<longleftrightarrow> is_letter c \<or> is_digit c \<or> c \<in> set ''!$&()*+,;=:[]<>-_.~'' \<or> c = CHR 0x27 \<or> c = CHR 0x22"

fun unescape :: "escaping \<Rightarrow> string \<Rightarrow> string option" where
  "unescape mode [] = Some []"
| "unescape mode (c # s) =
     (if c = CHR ''%'' then
        (case s of
           x # y # rest \<Rightarrow>
             (case (hex_value x, hex_value y) of
                (Some h, Some l) \<Rightarrow>
                  if mode = EscapeHost \<and> h < 8 \<and> \<not> (x = CHR ''2'' \<and> y = CHR ''5'') then None
                  else map_option (\<lambda>more. char_of (16 * h + l) # more) (unescape mode rest)
              | _ \<Rightarrow> None)
         | _ \<Rightarrow> None)
      else if mode = EscapeHost \<and> (of_char c :: nat) < 128 \<and> \<not> host_char c then None
      else map_option (\<lambda>more. c # more) (unescape mode s))"

section \<open>Parsing\<close>

record url =
  ur_Scheme :: string
  ur_Host :: string
  ur_Path :: string

definition lower_char :: "char \<Rightarrow> char" where
  "lower_char c = (let n = of_char c :: nat in if 65 \<le> n \<and> n \<le> 90 then char_of (n + 32) else c)"

text \<open>The scheme and what follows it; \<open>None\<close> for an address that starts with a colon.\<close>

definition getScheme :: "string \<Rightarrow> (string \<times> string) option" where
  "getScheme raw =
     (let head = takeWhile (\<lambda>c. is_letter c \<or> is_digit c \<or> c \<in> set ''+-.'') raw; rest = drop (length head) raw
      in if rest = [] \<or> hd rest \<noteq> CHR '':'' then Some ([], raw)
         else if head = [] then None
         else if \<not> is_letter (hd head) then Some ([], raw)
         else Some (head, tl rest))"

definition validOptionalPort :: "string \<Rightarrow> bool" where
  "validOptionalPort port \<longleftrightarrow> port = [] \<or> hd port = CHR '':'' \<and> list_all is_digit (tl port)"

text \<open>\<open>strings.Cut\<close> at the last of a character.\<close>

definition cut_last :: "char \<Rightarrow> string \<Rightarrow> (string \<times> string) option" where
  "cut_last c s = map_option (\<lambda>(after, before). (rev before, rev after)) (cut_at c (rev s))"

definition before_first :: "char \<Rightarrow> string \<Rightarrow> string" where
  "before_first c s = takeWhile (\<lambda>x. x \<noteq> c) s"

definition parseHost :: "(string \<Rightarrow> bool) \<Rightarrow> string \<Rightarrow> string option" where
  "parseHost ip6 host =
     (if CHR ''['' \<in> set (drop 1 host) then None
      else if take 1 host = ''['' then
        (case cut_last (CHR '']'') host of
           None \<Rightarrow> None
         | Some (inner, port) \<Rightarrow> if validOptionalPort port \<and> ip6 (drop 1 inner) then Some host else None)
      else if validOptionalPort (dropWhile (\<lambda>c. c \<noteq> CHR '':'') host) then unescape EscapeHost host
      else None)"

definition user_char :: "char \<Rightarrow> bool" where
  "user_char c \<longleftrightarrow> is_letter c \<or> is_digit c \<or> c \<in> set ''-._:~!$&()*+,;=%@'' \<or> c = CHR 0x27"

definition parseAuthority :: "(string \<Rightarrow> bool) \<Rightarrow> string \<Rightarrow> string option" where
  "parseAuthority ip6 authority =
     (case cut_last (CHR ''@'') authority of
        None \<Rightarrow> parseHost ip6 authority
      | Some (user, host) \<Rightarrow>
          (case parseHost ip6 host of
             None \<Rightarrow> None
           | Some h \<Rightarrow>
               if list_all user_char user \<and>
                  (case cut_at (CHR '':'') user of
                     None \<Rightarrow> unescape EscapeUser user \<noteq> None
                   | Some (name, password) \<Rightarrow> unescape EscapeUser name \<noteq> None \<and> unescape EscapeUser password \<noteq> None)
               then Some h else None))"

definition has_prefix2 :: "string \<Rightarrow> bool" where
  "has_prefix2 rest \<longleftrightarrow> take 2 rest = ''//''"

definition parse_rest :: "(string \<Rightarrow> bool) \<Rightarrow> string \<Rightarrow> string \<Rightarrow> url option" where
  "parse_rest ip6 scheme rest =
     (if take 1 rest \<noteq> ''/'' \<and> scheme \<noteq> [] then Some \<lparr>ur_Scheme = scheme, ur_Host = [], ur_Path = []\<rparr>
      else if take 1 rest \<noteq> ''/'' \<and> CHR '':'' \<in> set (before_first (CHR ''/'') rest) then None
      else
        (let authority = (if (scheme \<noteq> [] \<or> take 3 rest \<noteq> ''///'') \<and> has_prefix2 rest
                          then Some (before_first (CHR ''/'') (drop 2 rest)) else None);
             host = (case authority of None \<Rightarrow> Some [] | Some a \<Rightarrow> parseAuthority ip6 a);
             path = (case authority of None \<Rightarrow> rest | Some a \<Rightarrow> drop (2 + length a) rest)
         in case (host, unescape EscapePath path) of
              (Some h, Some p) \<Rightarrow> Some \<lparr>ur_Scheme = scheme, ur_Host = h, ur_Path = p\<rparr>
            | _ \<Rightarrow> None))"

definition is_ctl :: "char \<Rightarrow> bool" where
  "is_ctl c \<longleftrightarrow> (of_char c :: nat) < 32 \<or> (of_char c :: nat) = 127"

definition url_Parse :: "(string \<Rightarrow> bool) \<Rightarrow> string \<Rightarrow> url option" where
  "url_Parse ip6 raw =
     (let address = before_first (CHR ''#'') raw; fragment = drop (Suc (length address)) raw
      in if list_ex is_ctl address then None
         else if address = ''*'' then
           (if unescape EscapeFragment fragment = None then None else Some \<lparr>ur_Scheme = [], ur_Host = [], ur_Path = ''*''\<rparr>)
         else (case getScheme address of
                 None \<Rightarrow> None
               | Some (scheme, rest) \<Rightarrow>
                   if unescape EscapeFragment fragment = None then None
                   else parse_rest ip6 (map lower_char scheme) (before_first (CHR ''?'') rest)))"

section \<open>Paths\<close>

text \<open>\<open>filepath.Dir\<close> and \<open>filepath.Base\<close>.\<close>

definition path_dir :: "string \<Rightarrow> string" where
  "path_dir path = path_clean (rev (dropWhile (\<lambda>c. c \<noteq> CHR ''/'') (rev path)))"

definition path_base :: "string \<Rightarrow> string" where
  "path_base path =
     (if path = [] then ''.''
      else (let name = takeWhile (\<lambda>c. c \<noteq> CHR ''/'') (dropWhile (\<lambda>c. c = CHR ''/'') (rev path))
            in if name = [] then ''/'' else rev name))"

text \<open>\<open>filepath.Rel\<close>, on the components of the cleaned paths; the sources relate absolute paths.\<close>

definition path_parts :: "string \<Rightarrow> string list" where
  "path_parts path = filter (\<lambda>p. p \<noteq> []) (split_on (CHR ''/'') path)"

fun without_common :: "string list \<Rightarrow> string list \<Rightarrow> string list \<times> string list" where
  "without_common (x # xs) (y # ys) = (if x = y then without_common xs ys else (x # xs, y # ys))"
| "without_common xs ys = (xs, ys)"

definition path_rel :: "string \<Rightarrow> string \<Rightarrow> string option" where
  "path_rel basepath targpath =
     (let base = path_clean basepath; target = path_clean targpath;
          base = (if base = ''.'' \<and> target \<noteq> ''.'' then [] else base)
      in if target = base then Some ''.''
         else if is_abs base \<noteq> is_abs target then None
         else (let (up, down) = without_common (path_parts base) (path_parts target)
               in if take 1 up = [''..''] then None
                  else Some (join_with (CHR ''/'') (replicate (length up) ''..'' @ down))))"

text \<open>\<open>filepath.IsLocal\<close>.\<close>

definition path_local :: "string \<Rightarrow> bool" where
  "path_local path \<longleftrightarrow>
     (if is_abs path \<or> path = [] then False
      else (let parts = split_on (CHR ''/'') path;
                path = (if ''.'' \<in> set parts \<or> ''..'' \<in> set parts then path_clean path else path)
            in path \<noteq> ''..'' \<and> take 3 path \<noteq> ''../''))"

section \<open>The ancestors of a path come to an end\<close>

definition parts_weight :: "string list \<Rightarrow> nat" where
  "parts_weight ps = sum_list (map (\<lambda>p. if p = [] then 0 else Suc (length p)) ps)"

lemma parts_weight_simps [simp]:
  "parts_weight [] = 0" "parts_weight (p # ps) = (if p = [] then 0 else Suc (length p)) + parts_weight ps"
  "parts_weight (ps @ qs) = parts_weight ps + parts_weight qs"
  by (simp_all add: parts_weight_def)

lemma split_on_at: "c \<notin> set a \<Longrightarrow> split_on c (a @ c # b) = a # split_on c b"
proof -
  assume "c \<notin> set a"
  then have "takeWhile (\<lambda>x. x \<noteq> c) (a @ c # b) = a" "dropWhile (\<lambda>x. x \<noteq> c) (a @ c # b) = c # b"
    by (induction a) auto
  then show ?thesis by (subst split_on.simps) simp
qed

lemma split_on_none: "c \<notin> set a \<Longrightarrow> split_on c a = [a]"
  by (subst split_on.simps) simp

lemma split_on_induct [case_names none at]:
  assumes "\<And>s. c \<notin> set s \<Longrightarrow> P s" and "\<And>a b. c \<notin> set a \<Longrightarrow> P b \<Longrightarrow> P (a @ c # b)"
  shows "P s"
proof (induction s rule: length_induct)
  case (1 s)
  show ?case
  proof (cases "c \<in> set s")
    case True
    then obtain a b where "s = a @ c # b" "c \<notin> set a" by (meson split_list_first)
    then show ?thesis using 1 assms(2) by simp
  qed (rule assms(1))
qed

lemma split_on_snoc: "split_on c (s @ [c]) = split_on c s @ [[]]"
proof (induction s rule: split_on_induct[of c])
  case (none s)
  then show ?case using split_on_at[OF none, of "[]"] by (simp add: split_on_none)
next
  case (at a b)
  then show ?case by (simp add: split_on_at)
qed

lemma split_on_first: "split_on c (c # s) = [] # split_on c s"
  by (simp add: split_on.simps[of c "c # s"])

lemma split_weight: "parts_weight (split_on c s) \<le> Suc (length s)"
proof (induction s rule: split_on_induct[of c])
  case (at a b)
  then show ?case by (simp add: split_on_at)
qed (simp add: split_on_none)

lemma clean_step_weight: "parts_weight (clean_step rooted p ps) \<le> parts_weight ps + parts_weight [p]"
  by (cases ps rule: rev_cases) (auto simp: clean_step_def)

lemma clean_weight: "parts_weight (fold (clean_step rooted) ps acc) \<le> parts_weight acc + parts_weight ps"
proof (induction ps arbitrary: acc)
  case (Cons p ps)
  have "parts_weight (fold (clean_step rooted) ps (clean_step rooted p acc)) \<le> parts_weight (clean_step rooted p acc) + parts_weight ps"
    by (rule Cons.IH)
  then show ?case using clean_step_weight[of rooted p acc] by simp
qed simp

lemma clean_parts_nonempty: "[] \<notin> set acc \<Longrightarrow> [] \<notin> set (fold (clean_step rooted) ps acc)"
proof (induction ps arbitrary: acc)
  case (Cons p ps)
  have "[] \<notin> set (clean_step rooted p acc)" using Cons.prems by (auto simp: clean_step_def dest: in_set_butlastD)
  then show ?case using Cons.IH by simp
qed simp

lemma join_weight: "[] \<notin> set ps \<Longrightarrow> ps \<noteq> [] \<Longrightarrow> Suc (length (join_with c ps)) = parts_weight ps"
  by (induction c ps rule: join_with.induct) auto

lemma path_clean_shorter:
  assumes "path = q @ ''/''" and "q \<noteq> []"
  shows "length (path_clean path) < length path"
proof -
  let ?parts = "fold (clean_step (is_abs path)) (split_on (CHR ''/'') path) []"
  have bound: "parts_weight ?parts \<le> parts_weight (split_on (CHR ''/'') q)"
    using clean_weight[of "is_abs path" "split_on (CHR ''/'') path" "[]"] by (simp add: assms(1) split_on_snoc)
  have joined: "length (join_with (CHR ''/'') ?parts) = parts_weight ?parts - 1"
    using join_weight[of ?parts "CHR ''/''"] clean_parts_nonempty[of "[]" "is_abs path" "split_on (CHR ''/'') path"]
    by (cases "?parts = []") auto
  have q: "0 < length q" using assms(2) by simp
  show ?thesis
  proof (cases "is_abs path")
    case True
    then obtain r where r: "q = CHR ''/'' # r" using assms by (cases q) (auto simp: is_abs_def)
    then have "parts_weight ?parts \<le> Suc (length r)" using bound split_weight[of "CHR ''/''" r] by (simp add: split_on_first)
    then have "length (join_with (CHR ''/'') ?parts) \<le> length r" using joined by simp
    then show ?thesis using True r assms(1) by (simp add: path_clean_def Let_def)
  next
    case False
    have "length (join_with (CHR ''/'') ?parts) \<le> length q"
      using joined le_trans[OF bound split_weight[of "CHR ''/''" q]] by simp
    then show ?thesis using False q assms(1) by (simp add: path_clean_def Let_def)
  qed
qed

definition path_size :: "string \<Rightarrow> nat" where
  "path_size p = (if p = ''.'' then 0 else Suc (length p))"

lemma path_clean_ends [simp]: "path_clean [] = ''.''" "path_clean ''/'' = ''/''"
  by code_simp+

lemma path_dir_smaller:
  assumes "path_dir p \<noteq> p"
  shows "path_size (path_dir p) < path_size p"
proof -
  let ?q = "rev (dropWhile (\<lambda>c. c \<noteq> CHR ''/'') (rev p))"
  have len: "length ?q \<le> length p" using length_dropWhile_le[of "\<lambda>c. c \<noteq> CHR ''/''" "rev p"] by simp
  consider (none) "?q = []" | (slash) r where "?q = r @ ''/''"
  proof (cases "dropWhile (\<lambda>c. c \<noteq> CHR ''/'') (rev p)")
    case (Cons c r)
    then have "c = CHR ''/''" by (simp add: dropWhile_eq_Cons_conv)
    then show thesis using Cons that(2)[of "rev r"] by simp
  qed (use that(1) in simp)
  then show ?thesis
  proof cases
    case none
    then have "path_dir p = ''.''" by (simp only: path_dir_def path_clean_ends)
    then show ?thesis using assms by (simp add: path_size_def)
  next
    case (slash r)
    show ?thesis
    proof (cases "r = []")
      case True
      then have "?q = ''/''" using slash by simp
      then have dir: "path_dir p = ''/''" by (simp only: path_dir_def path_clean_ends)
      have "p \<noteq> ''.''" using slash by auto
      moreover have "1 < length p"
      proof (rule ccontr)
        assume "\<not> 1 < length p"
        then have "p = [] \<or> (\<exists>c. p = [c])" by (cases p) auto
        then show False using assms dir \<open>?q = ''/''\<close> by (auto split: if_splits)
      qed
      ultimately show ?thesis using dir by (simp add: path_size_def)
    next
      case False
      have "length (path_dir p) < length ?q" unfolding path_dir_def by (rule path_clean_shorter[OF slash False])
      moreover have "p \<noteq> ''.''" using slash by auto
      ultimately show ?thesis using len by (simp add: path_size_def)
    qed
  qed
qed

end
