(* ===== verification/Handoffs.thy ===== *)
theory Handoffs
  imports Images Payloads Urls
begin

text \<open>
  image/handoff.go: reading an image a host left in a file, named by a URL and declared by an envelope.  The
  file system is what it answers to each call; nothing is assumed of the answers, so they may change from one
  call to the next.  A file read is the bytes it holds and, where reading it fails, after how many.
\<close>

section \<open>The file system\<close>

record opened =
  of_regular :: "bool option"
  of_size :: int
  of_data :: string
  of_fails :: "nat option"

record filesystem =
  fs_EvalSymlinks :: "string \<Rightarrow> stat_error + string"
  fs_OpenRoot :: "string \<Rightarrow> bool"
  fs_OpenFile :: "string \<Rightarrow> string \<Rightarrow> stat_error + opened"

text \<open>\<open>io.ReadAll\<close> of an \<open>io.LimitReader\<close>.\<close>

definition read_bounded :: "nat \<Rightarrow> opened \<Rightarrow> string option" where
  "read_bounded n f =
     (case of_fails f of
        Some k \<Rightarrow> if k < n \<and> k \<le> length (of_data f) then None else Some (take n (of_data f))
      | None \<Rightarrow> Some (take n (of_data f)))"

section \<open>Media\<close>

datatype promptMediaKind = mediaImageBlock | mediaImageBlob | mediaOpaqueBlob | mediaTextResource

definition nativeImage :: "promptMediaKind \<Rightarrow> bool" where
  "nativeImage k \<longleftrightarrow> k = mediaImageBlock \<or> k = mediaImageBlob"

definition perImageBounded :: "promptMediaKind \<Rightarrow> bool" where
  "perImageBounded k \<longleftrightarrow> k \<noteq> mediaTextResource"

definition kind_field :: "promptMediaKind \<Rightarrow> string" where
  "kind_field k = (if k = mediaImageBlock then FieldPromptImage else FieldPromptResource)"

record promptMedia =
  pm_kind :: promptMediaKind
  pm_data :: string
  pm_mimeType :: string
  pm_uri :: string
  pm_meta :: go_map

section \<open>The envelope\<close>

definition handoffVersion :: int where "handoffVersion = 1"
definition handoffVersionKey :: string where "handoffVersionKey = ''version''"
definition handoffDigestKey :: string where "handoffDigestKey = ''digest''"
definition handoffSizeBytesKey :: string where "handoffSizeBytesKey = ''sizeBytes''"
definition handoffURIScheme :: string where "handoffURIScheme = ''file''"
definition handoffLocalhost :: string where "handoffLocalhost = ''localhost''"
definition handoffFields :: nat where "handoffFields = 3"
definition handoffDigestLength :: nat where "handoffDigestLength = 64"
definition handoffParentName :: string where "handoffParentName = ''..''"
definition handoffNumberCeiling :: rat where "handoffNumberCeiling = 9223372036854775808"

definition handoffCauseRootUnset :: string where "handoffCauseRootUnset = ''no input handoff root is configured''"
definition handoffCauseRootUnopenable :: string where "handoffCauseRootUnopenable = ''configured handoff root cannot be opened''"
definition handoffCauseEnvelopeMissing :: string where "handoffCauseEnvelopeMissing = ''_meta.'' @ HandoffKey @ '' is required''"
definition handoffCauseEnvelopeNotObject :: string where
  "handoffCauseEnvelopeNotObject = ''_meta.'' @ HandoffKey @ '' must be an object''"
definition handoffCauseEnvelopeFields :: string where
  "handoffCauseEnvelopeFields = ''_meta.'' @ HandoffKey @ '' must contain exactly version, digest, and sizeBytes''"
definition handoffCauseEnvelopeVersion :: string where
  "handoffCauseEnvelopeVersion = ''_meta.'' @ HandoffKey @ ''.version must be the supported handoff version''"
definition handoffCauseEnvelopeDigest :: string where
  "handoffCauseEnvelopeDigest = ''_meta.'' @ HandoffKey @ ''.digest must be a lowercase hex sha256''"
definition handoffCauseEnvelopeSizeBytes :: string where
  "handoffCauseEnvelopeSizeBytes = ''_meta.'' @ HandoffKey @ ''.sizeBytes must be a non-negative integer''"
definition handoffCauseURIMissing :: string where "handoffCauseURIMissing = ''uri is required''"
definition handoffCauseURIUnparsable :: string where "handoffCauseURIUnparsable = ''uri is not parseable''"
definition handoffCauseURIScheme :: string where "handoffCauseURIScheme = ''uri scheme is not '' @ handoffURIScheme"
definition handoffCauseURIHost :: string where "handoffCauseURIHost = ''uri host is not this host''"
definition handoffCauseURIRelative :: string where "handoffCauseURIRelative = ''uri path is not absolute''"
definition handoffCauseOutsideRoot :: string where
  "handoffCauseOutsideRoot = ''path cannot be opened inside the configured handoff root''"
definition handoffCauseNotRegular :: string where "handoffCauseNotRegular = ''path is not a regular file''"
definition handoffCauseMissing :: string where "handoffCauseMissing = ''path does not exist''"
definition handoffCauseUnreadable :: string where "handoffCauseUnreadable = ''path cannot be read''"
definition handoffCauseDigestMismatch :: string where
  "handoffCauseDigestMismatch = ''handoff file does not match the declared envelope''"

definition HandoffAdvertisement :: go_map where
  "HandoffAdvertisement = [(handoffVersionKey, AInt handoffVersion)]"

text \<open>The refused directory, if it is refused.\<close>

definition ValidateHandoffRoot :: "string \<Rightarrow> string option" where
  "ValidateHandoffRoot dir = (if dir = [] \<or> is_abs dir then None else Some dir)"

record handoffEnvelope =
  he_digest :: string
  he_sizeBytes :: int

record handoffVerdict =
  hv_code :: string
  hv_message :: string
  hv_sizeBytes :: int
  hv_maxBytes :: int

definition handoff_verdict :: "string \<Rightarrow> string \<Rightarrow> handoffVerdict" where
  "handoff_verdict code message = \<lparr>hv_code = code, hv_message = message, hv_sizeBytes = 0, hv_maxBytes = 0\<rparr>"

fun handoffNumber :: "go_any option \<Rightarrow> int option" where
  "handoffNumber (Some (AInt i)) = Some i"
| "handoffNumber (Some (ANumber lexeme)) = parse_int lexeme"
| "handoffNumber (Some (AFloat (Finite q))) =
     (if q \<noteq> of_int \<lfloor>q\<rfloor> \<or> q < 0 \<or> q \<ge> handoffNumberCeiling then None else Some \<lfloor>q\<rfloor>)"
| "handoffNumber v = None"

definition handoffDigest :: "string \<Rightarrow> bool" where
  "handoffDigest digest \<longleftrightarrow> length digest = handoffDigestLength \<and>
     list_all (\<lambda>c. is_digit c \<or> (let n = of_char c :: nat in 97 \<le> n \<and> n \<le> 102)) digest"

definition parseHandoffEnvelope :: "go_map \<Rightarrow> string + handoffEnvelope" where
  "parseHandoffEnvelope meta =
     (case map_of meta HandoffKey of
        None \<Rightarrow> Inl handoffCauseEnvelopeMissing
      | Some (AMap value) \<Rightarrow>
          if length value \<noteq> handoffFields then Inl handoffCauseEnvelopeFields
          else if handoffNumber (map_of value handoffVersionKey) \<noteq> Some handoffVersion then Inl handoffCauseEnvelopeVersion
          else (case map_of value handoffDigestKey of
                  Some (AString digest) \<Rightarrow>
                    if \<not> handoffDigest digest then Inl handoffCauseEnvelopeDigest
                    else (case handoffNumber (map_of value handoffSizeBytesKey) of
                            None \<Rightarrow> Inl handoffCauseEnvelopeSizeBytes
                          | Some sizeBytes \<Rightarrow>
                              if sizeBytes < 0 then Inl handoffCauseEnvelopeSizeBytes
                              else Inr \<lparr>he_digest = digest, he_sizeBytes = sizeBytes\<rparr>)
                | _ \<Rightarrow> Inl handoffCauseEnvelopeDigest)
      | _ \<Rightarrow> Inl handoffCauseEnvelopeNotObject)"

definition handoffBytesMatch :: "string \<Rightarrow> handoffEnvelope \<Rightarrow> bool" where
  "handoffBytesMatch data envelope \<longleftrightarrow>
     (if int (length data) \<noteq> he_sizeBytes envelope then False
      else hex_encode (sha256 data) = he_digest envelope)"

section \<open>The path\<close>

definition handoffIntent :: "(string \<Rightarrow> bool) \<Rightarrow> promptMedia \<Rightarrow> bool" where
  "handoffIntent ip6 media \<longleftrightarrow>
     (if map_of (pm_meta media) HandoffKey \<noteq> None then True
      else (case url_Parse ip6 (pm_uri media) of None \<Rightarrow> False | Some u \<Rightarrow> ur_Scheme u = handoffURIScheme))"

definition handoffURIPath :: "(string \<Rightarrow> bool) \<Rightarrow> string \<Rightarrow> string + string" where
  "handoffURIPath ip6 uri =
     (if uri = [] then Inl handoffCauseURIMissing
      else case url_Parse ip6 uri of
             None \<Rightarrow> Inl handoffCauseURIUnparsable
           | Some u \<Rightarrow>
               if ur_Scheme u \<noteq> handoffURIScheme then Inl handoffCauseURIScheme
               else if ur_Host u \<noteq> [] \<and> ur_Host u \<noteq> handoffLocalhost then Inl handoffCauseURIHost
               else if \<not> is_abs (ur_Path u) then Inl handoffCauseURIRelative
               else Inr (ur_Path u))"

text \<open>The deepest existing ancestor is resolved, and the rest is joined to it again.\<close>

function relative_ancestor :: "filesystem \<Rightarrow> string \<Rightarrow> string \<Rightarrow> string \<Rightarrow> string" where
  "relative_ancestor fs resolvedRoot remainder parent =
     (case fs_EvalSymlinks fs parent of
        Inr resolvedParent \<Rightarrow>
          (case path_rel resolvedRoot (path_join resolvedParent remainder) of
             None \<Rightarrow> handoffParentName
           | Some relative \<Rightarrow> relative)
      | Inl e \<Rightarrow>
          if e \<noteq> NotExist \<or> parent = path_dir parent then handoffParentName
          else relative_ancestor fs resolvedRoot (path_join (path_base parent) remainder) (path_dir parent))"
  by pat_completeness auto
termination
  by (relation "measure (\<lambda>(fs, dir, remainder, parent). path_size parent)") (auto intro!: path_dir_smaller)

declare relative_ancestor.simps [simp del]

definition handoffRelativeName :: "filesystem \<Rightarrow> string \<Rightarrow> string \<Rightarrow> string" where
  "handoffRelativeName fs dir path =
     (let resolve = (case fs_EvalSymlinks fs dir of
             Inl e \<Rightarrow> handoffParentName
           | Inr resolvedRoot \<Rightarrow> relative_ancestor fs resolvedRoot (path_base path) (path_dir path))
      in case path_rel dir path of
           Some relative \<Rightarrow> if path_local relative then relative else resolve
         | None \<Rightarrow> resolve)"

section \<open>Reading\<close>

definition openHandoff :: "filesystem \<Rightarrow> string \<Rightarrow> string \<Rightarrow> handoffVerdict + opened" where
  "openHandoff fs dir path =
     (if \<not> fs_OpenRoot fs dir then Inl (handoff_verdict ErrorPathNotAllowed handoffCauseRootUnopenable)
      else case fs_OpenFile fs dir (handoffRelativeName fs dir path) of
             Inl e \<Rightarrow> Inl (if e = NotExist then handoff_verdict ErrorMissingFile handoffCauseMissing
                           else handoff_verdict ErrorPathNotAllowed handoffCauseOutsideRoot)
           | Inr file \<Rightarrow>
               if of_regular file \<noteq> Some True then Inl (handoff_verdict ErrorPathNotAllowed handoffCauseNotRegular)
               else Inr file)"

text \<open>\<open>interrupted\<close> is what the context reports before the file is opened; an aborted read is \<open>Inl\<close>.\<close>

definition readHandoff :: "(string \<Rightarrow> bool) \<Rightarrow> filesystem \<Rightarrow> 'e option \<Rightarrow> string \<Rightarrow> promptMedia \<Rightarrow> int \<Rightarrow>
    'e + handoffVerdict + string" where
  "readHandoff ip6 fs interrupted dir media maxBytes =
     (if dir = [] then Inr (Inl (handoff_verdict ErrorInvalidHandoff handoffCauseRootUnset))
      else case parseHandoffEnvelope (pm_meta media) of
             Inl message \<Rightarrow> Inr (Inl (handoff_verdict ErrorInvalidHandoff message))
           | Inr envelope \<Rightarrow>
      case handoffURIPath ip6 (pm_uri media) of
             Inl message \<Rightarrow> Inr (Inl (handoff_verdict ErrorInvalidHandoff message))
           | Inr path \<Rightarrow>
      if pm_mimeType media \<notin> set formats then Inr (Inl (handoff_verdict ErrorInvalidMediaType []))
      else if he_sizeBytes envelope > maxBytes then
        Inr (Inl \<lparr>hv_code = ErrorTooLarge, hv_message = [], hv_sizeBytes = he_sizeBytes envelope, hv_maxBytes = maxBytes\<rparr>)
      else case interrupted of
             Some e \<Rightarrow> Inl e
           | None \<Rightarrow>
      case openHandoff fs dir path of
             Inl verdict \<Rightarrow> Inr (Inl verdict)
           | Inr file \<Rightarrow>
      case read_bounded (nat (he_sizeBytes envelope + 1)) file of
             None \<Rightarrow> Inr (Inl (handoff_verdict ErrorMissingFile handoffCauseUnreadable))
           | Some data \<Rightarrow>
      if \<not> handoffBytesMatch data envelope then Inr (Inl (handoff_verdict ErrorDigestMismatch handoffCauseDigestMismatch))
      else Inr (Inr data))"

section \<open>What is read is what was declared\<close>

lemma envelope_parsed:
  assumes "parseHandoffEnvelope meta = Inr envelope"
  shows "\<exists>value. map_of meta HandoffKey = Some (AMap value) \<and> length value = 3 \<and>
     handoffNumber (map_of value ''version'') = Some 1 \<and>
     map_of value ''digest'' = Some (AString (he_digest envelope)) \<and> handoffDigest (he_digest envelope) \<and>
     handoffNumber (map_of value ''sizeBytes'') = Some (he_sizeBytes envelope) \<and> 0 \<le> he_sizeBytes envelope"
  using assms
  by (auto simp: parseHandoffEnvelope_def handoffFields_def handoffVersion_def handoffVersionKey_def handoffDigestKey_def
      handoffSizeBytesKey_def split: option.splits go_any.splits if_splits)

lemma handoff_path:
  assumes "handoffURIPath ip6 uri = Inr path"
  shows "\<exists>u. url_Parse ip6 uri = Some u \<and> ur_Scheme u = ''file'' \<and> ur_Host u \<in> {[], ''localhost''} \<and>
     ur_Path u = path \<and> is_abs path"
  using assms by (auto simp: handoffURIPath_def handoffURIScheme_def handoffLocalhost_def split: option.splits if_splits)

lemma handoff_opened:
  assumes "openHandoff fs dir path = Inr f"
  shows "fs_OpenRoot fs dir" "fs_OpenFile fs dir (handoffRelativeName fs dir path) = Inr f" "of_regular f = Some True"
  using assms by (auto simp: openHandoff_def split: sum.splits if_splits)

lemma read_bounded_take: "read_bounded n f = Some data \<Longrightarrow> data = take n (of_data f)"
  by (auto simp: read_bounded_def split: option.splits if_splits)

lemma handoff_read:
  assumes "readHandoff ip6 fs interrupted dir media maxBytes = Inr (Inr data)"
  shows "\<exists>envelope path f. parseHandoffEnvelope (pm_meta media) = Inr envelope \<and>
     handoffURIPath ip6 (pm_uri media) = Inr path \<and> openHandoff fs dir path = Inr f \<and>
     data = of_data f \<and> int (length data) = he_sizeBytes envelope \<and> he_sizeBytes envelope \<le> maxBytes \<and>
     hex_encode (sha256 data) = he_digest envelope \<and> pm_mimeType media \<in> set formats \<and> dir \<noteq> []"
proof -
  from assms obtain envelope path f where steps: "parseHandoffEnvelope (pm_meta media) = Inr envelope"
    "handoffURIPath ip6 (pm_uri media) = Inr path" "openHandoff fs dir path = Inr f"
    "read_bounded (nat (he_sizeBytes envelope + 1)) f = Some data" "handoffBytesMatch data envelope"
    "he_sizeBytes envelope \<le> maxBytes" "pm_mimeType media \<in> set formats" "dir \<noteq> []"
    by (auto simp: readHandoff_def split: sum.splits option.splits if_splits)
  from steps(5) have len: "int (length data) = he_sizeBytes envelope" and sha: "hex_encode (sha256 data) = he_digest envelope"
    by (auto simp: handoffBytesMatch_def split: if_splits)
  have "data = take (Suc (length data)) (of_data f)"
    using read_bounded_take[OF steps(4)] by (simp add: len[symmetric] nat_add_distrib)
  then have "data = of_data f" by (metis Suc_n_not_le_n length_take min.cobounded1 min_def take_all_iff)
  with steps len sha show ?thesis by blast
qed

end
