(* ===== verification/ImageInput.thy ===== *)
theory ImageInput
  imports Handoffs
begin

text \<open>
  image/input.go: the gates a prompt's images pass, block by block.  What the validation asks of its
  surroundings is a record: the case table of Unicode beyond ASCII, the address parser of \<open>net/url\<close>, the file
  system, and what the context reports at a block and before its file is opened (\<open>Some\<close> once the caller
  stopped waiting).  An inspection never panics (\<open>inspect_total\<close>), so \<open>checkRaster\<close> takes its value.
\<close>

section \<open>Media types\<close>

text \<open>\<open>strings.ToLower\<close>; \<open>table\<close> is the case table for a character outside ASCII.\<close>

definition ToLower :: "(string \<Rightarrow> string) \<Rightarrow> string \<Rightarrow> string" where
  "ToLower table s =
     (if ascii s then map lower_char s
      else concat (map (\<lambda>r. if \<not> rune_ok r then rune_error else if ascii r then map lower_char r else table r) (runes s)))"

definition normalizeMIME :: "(string \<Rightarrow> string) \<Rightarrow> string \<Rightarrow> string" where
  "normalizeMIME table declared = ToLower table (TrimSpace (before_first (CHR '';'') declared))"

definition IsImageMIME :: "(string \<Rightarrow> string) \<Rightarrow> string \<Rightarrow> bool" where
  "IsImageMIME table declared \<longleftrightarrow> has_prefix (normalizeMIME table declared) ''image/''"

section \<open>Blocks\<close>

text \<open>The content blocks of the SDK, as far as they are read: at most one member is set.\<close>

record text_block =
  tb_Text :: string
  tb_Audience :: "string list option"

record image_block =
  ib_Data :: string
  ib_MimeType :: string
  ib_Uri :: "string option"
  ib_Meta :: go_map

record text_contents =
  tc_Text :: string
  tc_Uri :: string

record blob_contents =
  bc_Blob :: string
  bc_MimeType :: "string option"
  bc_Uri :: string

record resource_contents =
  rc_Text :: "text_contents option"
  rc_Blob :: "blob_contents option"

record ContentBlock =
  cb_Text :: "text_block option"
  cb_Image :: "image_block option"
  cb_ResourceLink :: "string option"
  cb_Resource :: "resource_contents option"

definition string_of :: "string option \<Rightarrow> string" where
  "string_of s = (case s of None \<Rightarrow> [] | Some s \<Rightarrow> s)"

definition promptMediaBlock :: "(string \<Rightarrow> string) \<Rightarrow> ContentBlock \<Rightarrow> promptMedia option" where
  "promptMediaBlock table block =
     (case cb_Image block of
        Some img \<Rightarrow> Some \<lparr>pm_kind = mediaImageBlock, pm_data = ib_Data img, pm_mimeType = ib_MimeType img,
            pm_uri = string_of (ib_Uri img), pm_meta = ib_Meta img\<rparr>
      | None \<Rightarrow>
          (case cb_Resource block of
             None \<Rightarrow> None
           | Some resource \<Rightarrow>
               (case rc_Text resource of
                  Some text \<Rightarrow> Some \<lparr>pm_kind = mediaTextResource, pm_data = tc_Text text, pm_mimeType = [],
                      pm_uri = tc_Uri text, pm_meta = []\<rparr>
                | None \<Rightarrow>
                    (case rc_Blob resource of
                       None \<Rightarrow> None
                     | Some blob \<Rightarrow>
                         (let declared = string_of (bc_MimeType blob)
                          in Some \<lparr>pm_kind = (if IsImageMIME table declared then mediaImageBlob else mediaOpaqueBlob),
                               pm_data = bc_Blob blob, pm_mimeType = declared, pm_uri = bc_Uri blob, pm_meta = []\<rparr>)))))"

section \<open>Options and results\<close>

datatype BlobDisposition = BlobGate | BlobRefuse

record image_options =
  io_Limits :: Limits
  io_HandoffRoot :: string
  io_NativeCeiling :: int
  io_Blobs :: "(string \<Rightarrow> BlobDisposition) option"
  io_TextBeforeImages :: bool

record Decoded =
  dd_Data :: string
  dd_MIME :: string
  dd_Field :: string
  dd_Block :: nat
  dd_Index :: nat

record 'e surroundings =
  su_lower :: "string \<Rightarrow> string"
  su_ip6 :: "string \<Rightarrow> bool"
  su_files :: filesystem
  su_at_block :: "nat \<Rightarrow> 'e option"
  su_at_open :: "nat \<Rightarrow> 'e option"

datatype ('e, 'a) answer = Abort 'e | Refuse InputError | Value 'a

section \<open>One block\<close>

definition checkRaster :: "string \<Rightarrow> string \<Rightarrow> string \<Rightarrow> int \<Rightarrow> InputError option" where
  "checkRaster data mimeType f index =
     (case the (inspect data) of
        Inl UnknownRaster \<Rightarrow> Some (input_error ErrorMediaTypeMismatch f index)
      | Inl (InvalidDimensions m) \<Rightarrow> Some (input_error ErrorInvalidDimensions f index)
      | Inr r \<Rightarrow>
          if rs_Animated r then Some (input_error ErrorAnimatedUnsupported f index)
          else if rs_MIME r \<noteq> mimeType then Some (input_error ErrorMediaTypeMismatch f index)
          else None)"

definition handoffForm :: "(string \<Rightarrow> bool) \<Rightarrow> promptMedia \<Rightarrow> bool" where
  "handoffForm ip6 media \<longleftrightarrow> pm_kind media = mediaImageBlock \<and> pm_data media = [] \<and> handoffIntent ip6 media"

definition decodeEmbedded :: "promptMedia \<Rightarrow> int \<Rightarrow> InputError + string" where
  "decodeEmbedded media index =
     (let f = kind_field (pm_kind media)
      in if pm_data media = [] then Inl (input_error ErrorMissingData f index)
         else if pm_mimeType media \<notin> set formats then Inl (input_error ErrorInvalidMediaType f index)
         else case std_decode (pm_data media) of
                None \<Rightarrow> Inl (input_error ErrorInvalidBase64 f index)
              | Some decoded \<Rightarrow>
                  (case checkRaster decoded (pm_mimeType media) f index of
                     Some refusal \<Rightarrow> Inl refusal
                   | None \<Rightarrow> Inr decoded))"

definition decodeHandoff :: "'e surroundings \<Rightarrow> nat \<Rightarrow> promptMedia \<Rightarrow> int \<Rightarrow> int \<Rightarrow> image_options \<Rightarrow> ('e, string) answer" where
  "decodeHandoff su position media index maxImageBytes opts =
     (let f = kind_field (pm_kind media)
      in case readHandoff (su_ip6 su) (su_files su) (su_at_open su position) (io_HandoffRoot opts) media maxImageBytes of
           Inl e \<Rightarrow> Abort e
         | Inr (Inl verdict) \<Rightarrow>
             Refuse \<lparr>ie_Code = hv_code verdict, ie_Field = f, ie_Message = hv_message verdict, ie_Index = index,
               ie_SizeBytes = hv_sizeBytes verdict, ie_MaxBytes = hv_maxBytes verdict\<rparr>
         | Inr (Inr data) \<Rightarrow>
             (case checkRaster data (pm_mimeType media) f index of
                Some refusal \<Rightarrow> Refuse refusal
              | None \<Rightarrow> Value data))"

definition decodeMedia :: "'e surroundings \<Rightarrow> nat \<Rightarrow> promptMedia \<Rightarrow> int \<Rightarrow> int \<Rightarrow> image_options \<Rightarrow> ('e, string) answer" where
  "decodeMedia su position media index maxImageBytes opts =
     (if pm_kind media = mediaTextResource then Value (pm_data media)
      else if \<not> nativeImage (pm_kind media) then
        (case std_decode (pm_data media) of
           None \<Rightarrow> Refuse (input_error ErrorInvalidBase64 (kind_field (pm_kind media)) index)
         | Some decoded \<Rightarrow> Value decoded)
      else if handoffForm (su_ip6 su) media then decodeHandoff su position media index maxImageBytes opts
      else (case decodeEmbedded media index of Inl refusal \<Rightarrow> Refuse refusal | Inr data \<Rightarrow> Value data))"

section \<open>A prompt\<close>

record progress =
  pr_images :: "Decoded list"
  pr_promptBytes :: int
  pr_handoffBlocks :: int
  pr_index :: nat

definition no_progress :: progress where
  "no_progress = \<lparr>pr_images = [], pr_promptBytes = 0, pr_handoffBlocks = 0, pr_index = 0\<rparr>"

definition too_large :: "promptMedia \<Rightarrow> int \<Rightarrow> int \<Rightarrow> int \<Rightarrow> InputError" where
  "too_large media index len bound =
     (input_error ErrorTooLarge (kind_field (pm_kind media)) index)\<lparr>ie_SizeBytes := len, ie_MaxBytes := bound\<rparr>"

text \<open>What a decoded block adds, within the bounds.\<close>

definition admit :: "image_options \<Rightarrow> nat \<Rightarrow> promptMedia \<Rightarrow> string \<Rightarrow> progress \<Rightarrow> ('e, progress) answer" where
  "admit opts position media data p =
     (let index = int (pr_index p); maxImageBytes = effectiveInputPerImage (io_Limits opts) (io_NativeCeiling opts);
          maxPromptBytes = effectiveInputPerPrompt (io_Limits opts);
          len = int (length data); promptBytes = pr_promptBytes p + len
      in if perImageBounded (pm_kind media) \<and> len > maxImageBytes then Refuse (too_large media index len maxImageBytes)
         else if maxPromptBytes > 0 \<and> promptBytes > maxPromptBytes then Refuse (too_large media index promptBytes maxPromptBytes)
         else Value (p\<lparr>pr_promptBytes := promptBytes,
           pr_images := (if nativeImage (pm_kind media) \<or> pm_kind media = mediaOpaqueBlob
             then pr_images p @ [\<lparr>dd_Data = data, dd_MIME = pm_mimeType media, dd_Field = kind_field (pm_kind media),
                    dd_Block = position, dd_Index = pr_index p\<rparr>]
             else pr_images p),
           pr_index := (if pm_kind media \<noteq> mediaTextResource then pr_index p + 1 else pr_index p)\<rparr>))"

definition validate_block :: "'e surroundings \<Rightarrow> image_options \<Rightarrow> nat \<Rightarrow> ContentBlock \<Rightarrow> progress \<Rightarrow> ('e, progress) answer" where
  "validate_block su opts position block p =
     (case su_at_block su position of
        Some e \<Rightarrow> Abort e
      | None \<Rightarrow>
      case promptMediaBlock (su_lower su) block of
        None \<Rightarrow> Value p
      | Some media \<Rightarrow>
          if pm_kind media = mediaOpaqueBlob \<and>
              (case io_Blobs opts of None \<Rightarrow> False | Some policy \<Rightarrow> policy (normalizeMIME (su_lower su) (pm_mimeType media)) = BlobRefuse) then
            Refuse (input_error VerdictUnsupported FieldPromptResource (- 1))
          else
            (let counted = (io_HandoffRoot opts \<noteq> [] \<and> handoffForm (su_ip6 su) media);
                 p = (if counted then p\<lparr>pr_handoffBlocks := pr_handoffBlocks p + 1\<rparr> else p)
             in if counted \<and> pr_handoffBlocks p > maxHandoffBlocksPerPrompt then
                  Refuse (too_large media (int (pr_index p)) (pr_handoffBlocks p) maxHandoffBlocksPerPrompt)
                else case decodeMedia su position media (int (pr_index p))
                       (effectiveInputPerImage (io_Limits opts) (io_NativeCeiling opts)) opts of
                       Abort e \<Rightarrow> Abort e
                     | Refuse refusal \<Rightarrow> Refuse refusal
                     | Value data \<Rightarrow> admit opts position media data p))"

fun validate_blocks :: "'e surroundings \<Rightarrow> image_options \<Rightarrow> nat \<Rightarrow> ContentBlock list \<Rightarrow> progress \<Rightarrow> ('e, progress) answer" where
  "validate_blocks su opts position [] p = Value p"
| "validate_blocks su opts position (block # blocks) p =
     (case validate_block su opts position block p of
        Value p \<Rightarrow> validate_blocks su opts (Suc position) blocks p
      | stop \<Rightarrow> stop)"

text \<open>A block after an image that carries text of its own.\<close>

definition carries_text :: "ContentBlock \<Rightarrow> bool" where
  "carries_text block \<longleftrightarrow>
     (case cb_Text block of
        Some text \<Rightarrow> \<not> AudienceIsUserOnly (tb_Audience text) \<and> tb_Text text \<noteq> []
      | None \<Rightarrow>
          (case cb_ResourceLink block of
             Some uri \<Rightarrow> TrimSpace uri \<noteq> []
           | None \<Rightarrow>
               (case cb_Resource block of
                  None \<Rightarrow> False
                | Some resource \<Rightarrow>
                    rc_Text resource \<noteq> None \<or>
                    (case rc_Blob resource of None \<Rightarrow> False | Some blob \<Rightarrow> TrimSpace (bc_Uri blob) \<noteq> []))))"

fun text_before_from :: "(string \<Rightarrow> string) \<Rightarrow> bool \<Rightarrow> ContentBlock list \<Rightarrow> bool" where
  "text_before_from table seenImage [] = True"
| "text_before_from table seenImage (block # blocks) =
     (if (case promptMediaBlock table block of None \<Rightarrow> False | Some media \<Rightarrow> nativeImage (pm_kind media))
      then text_before_from table True blocks
      else if \<not> seenImage then text_before_from table seenImage blocks
      else if carries_text block then False
      else text_before_from table seenImage blocks)"

definition textBeforeImages :: "(string \<Rightarrow> string) \<Rightarrow> ContentBlock list \<Rightarrow> bool" where
  "textBeforeImages table blocks = text_before_from table False blocks"

definition ValidatePrompt :: "'e surroundings \<Rightarrow> ContentBlock list \<Rightarrow> image_options \<Rightarrow> ('e, Decoded list) answer" where
  "ValidatePrompt su blocks opts =
     (case validate_blocks su opts 0 blocks no_progress of
        Abort e \<Rightarrow> Abort e
      | Refuse refusal \<Rightarrow> Refuse refusal
      | Value p \<Rightarrow>
          if io_TextBeforeImages opts \<and> \<not> textBeforeImages (su_lower su) blocks
          then Refuse (input_error VerdictUnsupported ''prompt'' (- 1))
          else Value (pr_images p))"

end
