(* ===== verification/RasterProps.thy ===== *)
theory RasterProps
  imports Rasters
begin

text \<open>
  What an inspection promises: it reads nothing outside the data, it finds a format by its signature, and
  it decides animation from the chunks of a PNG and the blocks of a GIF.
\<close>

section \<open>No inspection reads outside the data\<close>

named_theorems total

lemma total_bind [total]: "m \<noteq> None \<Longrightarrow> (\<And>x. m = Some x \<Longrightarrow> f x \<noteq> None) \<Longrightarrow> m \<bind> f \<noteq> None"
  by (cases m) auto

lemma total_if [total]: "(b \<Longrightarrow> x \<noteq> None) \<Longrightarrow> (\<not> b \<Longrightarrow> y \<noteq> None) \<Longrightarrow> (if b then x else y) \<noteq> None"
  by simp

lemma total_let [total]: "(\<And>v. v = a \<Longrightarrow> f v \<noteq> None) \<Longrightarrow> Let a f \<noteq> None"
  by simp

lemma total_Some [total]: "Some x \<noteq> None"
  by simp

lemma total_reads:
  "i < length data \<Longrightarrow> byte_at data i \<noteq> None"
  "i + 4 \<le> length data \<Longrightarrow> be_uint32 data i \<noteq> None" "i + 4 \<le> length data \<Longrightarrow> le_uint32 data i \<noteq> None"
  "i + 2 \<le> length data \<Longrightarrow> be_uint16 data i \<noteq> None" "i + 2 \<le> length data \<Longrightarrow> le_uint16 data i \<noteq> None"
  "i \<le> j \<Longrightarrow> j \<le> length data \<Longrightarrow> slice data i j \<noteq> None"
  by (simp_all add: uints)

lemma png_animated_total: "png_animated data offset \<noteq> None"
proof (induction data offset rule: png_animated.induct)
  case (1 data offset)
  show ?case by (subst png_animated.simps, intro total; (rule "1.IH"; assumption)?) (simp_all add: total_reads)
qed

lemma jpeg_dimensions_total: "jpeg_dimensions data offset \<noteq> None"
proof (induction data offset rule: jpeg_dimensions.induct)
  case (1 data offset)
  show ?case by (subst jpeg_dimensions.simps, intro total; (rule "1.IH"; assumption)?) (simp_all add: total_reads)
qed

lemma gif_animated_total: "gif_animated data offset images \<noteq> None"
proof (induction data offset images rule: gif_animated.induct)
  case (1 data offset images)
  show ?case by (subst gif_animated.simps, intro total; (rule "1.IH"; assumption)?) (simp_all add: total_reads)
qed

lemma webp_parts_total:
  assumes "payload + len \<le> length data"
  shows "webp_lossy data payload len \<noteq> None" "webp_lossless data payload len \<noteq> None"
  unfolding webp_lossy_def webp_lossless_def using assms
  by (intro total; simp add: total_reads)+

lemma inspect_chunks_total: "inspect_chunks data offset \<noteq> None"
proof (induction data offset rule: inspect_chunks.induct)
  case (1 data offset)
  show ?case by (subst inspect_chunks.simps, intro total; (rule "1.IH"; assumption)?) (simp_all add: total_reads webp_parts_total)
qed

lemma headers_total:
  "inspectPNG data \<noteq> None" "inspectJPEG data \<noteq> None" "inspectGIF data \<noteq> None" "inspectWebP data \<noteq> None"
  unfolding inspectPNG_def inspectJPEG_def inspectGIF_def inspectWebP_def
  by (intro total png_animated_total jpeg_dimensions_total gif_animated_total inspect_chunks_total; simp add: total_reads)+

lemma inspect_total: "inspect data \<noteq> None"
  using headers_total[of data] by (simp add: inspect_def)

lemma sniff_total: "sniffMIME data \<noteq> None"
  using inspect_total[of data] by (auto simp: sniffMIME_def split: sum.split)

section \<open>PNG files\<close>

definition be_bytes32 :: "nat \<Rightarrow> string" where
  "be_bytes32 n = map char_of [n div 16777216 mod 256, n div 65536 mod 256, n div 256 mod 256, n mod 256]"

lemma length_be_bytes32 [simp]: "length (be_bytes32 n) = 4"
  by (simp add: be_bytes32_def)

lemma be_uint_bytes32:
  assumes "n < 4294967296"
  shows "be_uint (be_bytes32 n) = n"
proof -
  define a b c where "a = n div 256" and "b = a div 256" and "c = b div 256"
  have steps: "n = a * 256 + n mod 256" "a = b * 256 + a mod 256" "b = c * 256 + b mod 256"
    by (simp_all add: a_def b_def c_def)
  have c: "c < 256" using assms by (simp add: a_def b_def c_def)
  have "n div 65536 = b" "n div 16777216 = c"
    by (simp_all add: a_def b_def c_def div_mult2_eq [symmetric])
  then have "be_uint (be_bytes32 n) = ((c * 256 + b mod 256) * 256 + a mod 256) * 256 + n mod 256"
    using c by (simp add: be_uint_def be_bytes32_def a_def [symmetric])
  then show ?thesis using steps by simp
qed

record png_chunk =
  pc_kind :: string
  pc_body :: string
  pc_crc :: string

definition png_chunk_ok :: "png_chunk \<Rightarrow> bool" where
  "png_chunk_ok c \<longleftrightarrow> length (pc_kind c) = 4 \<and> length (pc_crc c) = 4 \<and> length (pc_body c) < 4294967296"

definition png_chunk_bytes :: "png_chunk \<Rightarrow> string" where
  "png_chunk_bytes c = be_bytes32 (length (pc_body c)) @ pc_kind c @ pc_body c @ pc_crc c"

lemma be_uint32_at: "length pre = i \<Longrightarrow> n < 4294967296 \<Longrightarrow> be_uint32 (pre @ be_bytes32 n @ rest) i = Some n"
  by (simp add: be_uint32_def be_uint_bytes32)

lemma slice_at: "length pre = i \<Longrightarrow> i + length s = j \<Longrightarrow> slice (pre @ s @ rest) i j = Some s"
  by auto

lemma png_chunk_walked:
  assumes "png_chunk_ok c" and "length pre = i"
  shows "png_animated (pre @ png_chunk_bytes c @ rest) i =
     (if pc_kind c = ''acTL'' then Some True
      else if pc_kind c = ''IDAT'' \<or> pc_kind c = ''IEND'' then Some False
      else png_animated (pre @ png_chunk_bytes c @ rest) (i + length (png_chunk_bytes c)))"
proof -
  have "slice ((pre @ be_bytes32 (length (pc_body c))) @ pc_kind c @ (pc_body c @ pc_crc c @ rest)) (i + 4) (i + 8) = Some (pc_kind c)"
    using assms by (intro slice_at) (simp_all add: png_chunk_ok_def)
  moreover have "be_uint32 (pre @ be_bytes32 (length (pc_body c)) @ (pc_kind c @ pc_body c @ pc_crc c @ rest)) i = Some (length (pc_body c))"
    using assms by (intro be_uint32_at) (simp_all add: png_chunk_ok_def)
  ultimately show ?thesis
    using assms by (subst png_animated.simps) (simp add: png_chunk_bytes_def png_chunk_ok_def add_ac)
qed

lemma png_chunks_walked:
  assumes "list_all png_chunk_ok cs" and "length pre = i" and "''IDAT'' \<in> set (map pc_kind cs)"
  shows "png_animated (pre @ concat (map png_chunk_bytes cs) @ rest) i =
     Some (''acTL'' \<in> set (takeWhile (\<lambda>k. k \<noteq> ''IDAT'' \<and> k \<noteq> ''IEND'') (map pc_kind cs)))"
  using assms
proof (induction cs arbitrary: pre i)
  case (Cons c cs)
  have walked: "png_animated (pre @ concat (map png_chunk_bytes (c # cs)) @ rest) i =
     (if pc_kind c = ''acTL'' then Some True else if pc_kind c = ''IDAT'' \<or> pc_kind c = ''IEND'' then Some False
      else png_animated ((pre @ png_chunk_bytes c) @ concat (map png_chunk_bytes cs) @ rest) (i + length (png_chunk_bytes c)))"
    using png_chunk_walked[of c pre i "concat (map png_chunk_bytes cs) @ rest"] Cons.prems by simp
  show ?case
    unfolding walked using Cons.IH[of "pre @ png_chunk_bytes c" "i + length (png_chunk_bytes c)"] Cons.prems by auto
qed simp

text \<open>A PNG file: the signature, the header chunk, the further chunks.\<close>

definition png_header :: "nat \<Rightarrow> nat \<Rightarrow> string \<Rightarrow> string \<Rightarrow> png_chunk" where
  "png_header width height format crc =
     \<lparr>pc_kind = ''IHDR'', pc_body = be_bytes32 width @ be_bytes32 height @ format, pc_crc = crc\<rparr>"

definition png_file :: "png_chunk list \<Rightarrow> string" where
  "png_file chunks = png_magic @ concat (map png_chunk_bytes chunks)"

text \<open>An image with positive dimensions is animated exactly when an animation control chunk comes before
  its image data, whatever the chunks hold and whatever follows them.\<close>

lemma png_file_inspected:
  assumes "0 < width" "width < 4294967296" "0 < height" "height < 4294967296" "length format = 5" "length crc = 4"
    and cs: "list_all png_chunk_ok cs" "''IDAT'' \<in> set (map pc_kind cs)"
  shows "inspect (png_file (png_header width height format crc # cs) @ rest) =
     Some (Inr \<lparr>rs_MIME = MIMEPNG,
       rs_Animated = ''acTL'' \<in> set (takeWhile (\<lambda>k. k \<noteq> ''IDAT'' \<and> k \<noteq> ''IEND'') (map pc_kind cs))\<rparr>)"
proof -
  let ?h = "png_header width height format crc"
  let ?data = "png_file (?h # cs) @ rest"
  have magic: "length png_magic = 8" by (simp add: png_magic_def)
  have layout: "?data = png_magic @ be_bytes32 13 @ ''IHDR'' @ be_bytes32 width @ be_bytes32 height @ format @ crc @
      concat (map png_chunk_bytes cs) @ rest"
    using assms(5) by (simp add: png_file_def png_chunk_bytes_def png_header_def)
  have fields: "take 4 (drop 12 ?data) = ''IHDR''" "be_uint (take 4 (drop 8 ?data)) = 13"
      "be_uint32 ?data 16 = Some width" "be_uint32 ?data 20 = Some height" "33 \<le> length ?data"
    unfolding layout be_uint32_def using magic assms by (simp_all add: be_uint_bytes32)
  have "png_animated (png_magic @ concat (map png_chunk_bytes (?h # cs)) @ rest) 8 =
     Some (''acTL'' \<in> set (takeWhile (\<lambda>k. k \<noteq> ''IDAT'' \<and> k \<noteq> ''IEND'') (map pc_kind (?h # cs))))"
    using magic assms by (intro png_chunks_walked) (simp_all add: png_header_def png_chunk_ok_def)
  then have "png_animated ?data 8 = Some (''acTL'' \<in> set (takeWhile (\<lambda>k. k \<noteq> ''IDAT'' \<and> k \<noteq> ''IEND'') (map pc_kind cs)))"
    by (simp add: png_file_def png_header_def)
  moreover have "prefix png_magic ?data" by (simp add: png_file_def)
  ultimately show ?thesis
    using fields assms(1,3) by (simp add: inspect_def inspectPNG_def)
qed

section \<open>GIF files\<close>

definition sub_block_bytes :: "string list \<Rightarrow> string" where
  "sub_block_bytes ss = concat (map (\<lambda>s. char_of (length s) # s) ss) @ [CHR 0x00]"

datatype gif_block =
    Extension char "string list"
  | Picture string char string char "string list"

fun gif_block_bytes :: "gif_block \<Rightarrow> string" where
  "gif_block_bytes (Extension label ss) = CHR 0x21 # label # sub_block_bytes ss"
| "gif_block_bytes (Picture place packed table lzw ss) = CHR 0x2C # place @ packed # table @ lzw # sub_block_bytes ss"

definition sub_blocks_ok :: "string list \<Rightarrow> bool" where
  "sub_blocks_ok ss \<longleftrightarrow> list_all (\<lambda>s. 0 < length s \<and> length s < 256) ss"

fun gif_block_ok :: "gif_block \<Rightarrow> bool" where
  "gif_block_ok (Extension label ss) \<longleftrightarrow> sub_blocks_ok ss"
| "gif_block_ok (Picture place packed table lzw ss) \<longleftrightarrow>
     length place = 8 \<and> length table = color_table (of_char packed) \<and> sub_blocks_ok ss"

fun is_picture :: "gif_block \<Rightarrow> bool" where
  "is_picture (Extension label ss) = False"
| "is_picture (Picture place packed table lzw ss) = True"

lemma sub_blocks_skipped:
  "sub_blocks_ok ss \<Longrightarrow> length pre = i \<Longrightarrow>
   skipGIFSubBlocks (pre @ sub_block_bytes ss @ rest) i = i + length (sub_block_bytes ss)"
proof (induction ss arbitrary: pre i)
  case Nil
  then show ?case by (subst skipGIFSubBlocks.simps) (simp add: sub_block_bytes_def nth_append)
next
  case (Cons s ss)
  have "skipGIFSubBlocks ((pre @ char_of (length s) # s) @ sub_block_bytes ss @ rest) (i + 1 + length s)
      = i + 1 + length s + length (sub_block_bytes ss)"
    using Cons.prems by (intro Cons.IH) (simp_all add: sub_blocks_ok_def)
  then show ?case
    using Cons.prems by (subst skipGIFSubBlocks.simps) (simp add: sub_block_bytes_def sub_blocks_ok_def nth_append Let_def)
qed

lemma gif_extension_walked:
  assumes "sub_blocks_ok ss" and "length pre = i"
  shows "gif_animated (pre @ gif_block_bytes (Extension label ss) @ rest) i n =
    gif_animated (pre @ gif_block_bytes (Extension label ss) @ rest) (i + length (gif_block_bytes (Extension label ss))) n"
proof -
  have "skipGIFSubBlocks ((pre @ [CHR 0x21, label]) @ sub_block_bytes ss @ rest) (i + 2) = i + 2 + length (sub_block_bytes ss)"
    using assms by (intro sub_blocks_skipped) simp_all
  then show ?thesis
    using assms by (subst gif_animated.simps) (simp add: nth_append)
qed

lemma gif_picture_walked:
  assumes ok: "gif_block_ok (Picture place packed table lzw ss)" and i: "length pre = i"
  shows "gif_animated (pre @ gif_block_bytes (Picture place packed table lzw ss) @ rest) i n =
    (if n = 0 then gif_animated (pre @ gif_block_bytes (Picture place packed table lzw ss) @ rest)
        (i + length (gif_block_bytes (Picture place packed table lzw ss))) 1
     else Some True)"
proof -
  let ?data = "pre @ gif_block_bytes (Picture place packed table lzw ss) @ rest"
  have "skipGIFSubBlocks ((pre @ CHR 0x2C # place @ packed # table @ [lzw]) @ sub_block_bytes ss @ rest)
      (i + 10 + color_table (of_char packed) + 1) = i + 10 + color_table (of_char packed) + 1 + length (sub_block_bytes ss)"
    using assms by (intro sub_blocks_skipped) simp_all
  then have "skipGIFSubBlocks ?data (i + 10 + color_table (of_char packed) + 1) =
      i + length (gif_block_bytes (Picture place packed table lzw ss))"
    using ok by simp
  moreover have "?data ! i = CHR 0x2C" "?data ! (i + 9) = packed" "i + 10 + color_table (of_char packed) < length ?data"
    using ok i by (simp_all add: nth_append)
  ultimately show ?thesis
    by (subst gif_animated.simps) simp
qed

lemma block_marks:
  "of_char c = (44 :: nat) \<Longrightarrow> c = CHR 0x2C" "of_char c = (33 :: nat) \<Longrightarrow> c = CHR 0x21"
  using of_char_eq_iff[of c "CHR 0x2C", where 'a = nat] of_char_eq_iff[of c "CHR 0x21", where 'a = nat] by simp_all

lemma gif_end:
  assumes "length pre = i" and "rest = [] \<or> hd rest \<notin> {CHR 0x2C, CHR 0x21}"
  shows "gif_animated (pre @ rest) i n = Some False"
proof (cases rest)
  case (Cons c cs)
  then have "of_char c \<noteq> (44 :: nat)" "of_char c \<noteq> (33 :: nat)" using assms(2) block_marks[of c] by auto
  then show ?thesis using Cons assms(1) by (subst gif_animated.simps) (simp add: nth_append)
next
  case Nil
  then show ?thesis using assms(1) by (subst gif_animated.simps) simp
qed

lemma gif_blocks_walked:
  assumes "list_all gif_block_ok bs" and "length pre = i" and "n \<le> 1" and "rest = [] \<or> hd rest \<notin> {CHR 0x2C, CHR 0x21}"
  shows "gif_animated (pre @ concat (map gif_block_bytes bs) @ rest) i n = Some (1 < n + length (filter is_picture bs))"
  using assms(1-3)
proof (induction bs arbitrary: pre i n)
  case Nil
  then show ?case using gif_end[OF _ assms(4)] by simp
next
  case (Cons b bs)
  note next_block = Cons.IH[of "pre @ gif_block_bytes b" "i + length (gif_block_bytes b)"]
  show ?case
  proof (cases b)
    case (Extension label ss)
    then show ?thesis
      using gif_extension_walked[of ss pre i label "concat (map gif_block_bytes bs) @ rest" n] next_block[of n] Cons.prems by simp
  next
    case (Picture place packed table lzw ss)
    then show ?thesis
      using gif_picture_walked[of place packed table lzw ss pre i "concat (map gif_block_bytes bs) @ rest" n] next_block[of 1] Cons.prems
      by (auto simp: add_ac)
  qed
qed

text \<open>A GIF file: the signature, the screen of 2 + 2 bytes with its packed byte, two more bytes, the global
  color table, the blocks and the trailer.\<close>

definition le_bytes16 :: "nat \<Rightarrow> string" where
  "le_bytes16 n = [char_of (n mod 256), char_of (n div 256 mod 256)]"

definition gif_file :: "nat \<Rightarrow> nat \<Rightarrow> char \<Rightarrow> char \<Rightarrow> char \<Rightarrow> string \<Rightarrow> gif_block list \<Rightarrow> string" where
  "gif_file width height packed background ratio table blocks =
     ''GIF89a'' @ le_bytes16 width @ le_bytes16 height @ packed # background # ratio # table @
     concat (map gif_block_bytes blocks) @ [CHR 0x3B]"

lemma le_uint_bytes16: "n < 65536 \<Longrightarrow> le_uint (le_bytes16 n) = n"
  by (simp add: le_uint_def be_uint_def le_bytes16_def)

lemma length_le_bytes16 [simp]: "length (le_bytes16 n) = 2"
  by (simp add: le_bytes16_def)

lemma gif_fields:
  assumes "width < 65536" "height < 65536"
  shows "le_uint16 (gif_file width height packed background ratio table blocks @ rest) 6 = Some width"
    "le_uint16 (gif_file width height packed background ratio table blocks @ rest) 8 = Some height"
    "gif_file width height packed background ratio table blocks @ rest =
       (''GIF89a'' @ le_bytes16 width @ le_bytes16 height) @ packed # background # ratio # table @
       concat (map gif_block_bytes blocks) @ CHR 0x3B # rest"
proof -
  have "le_uint16 (''GIF89a'' @ le_bytes16 width @ more) 6 = Some width" for more
    using assms by (simp add: le_uint16_def le_uint_bytes16)
  moreover have "le_uint16 ((''GIF89a'' @ le_bytes16 width) @ le_bytes16 height @ more) 8 = Some height" for more
    using assms by (simp add: le_uint16_def le_uint_bytes16 del: append_assoc)
  ultimately show "le_uint16 (gif_file width height packed background ratio table blocks @ rest) 6 = Some width"
    "le_uint16 (gif_file width height packed background ratio table blocks @ rest) 8 = Some height"
    by (simp_all add: gif_file_def)
qed (simp add: gif_file_def)

lemma gif_file_inspected:
  assumes "0 < width" "width < 65536" "0 < height" "height < 65536" and "length table = color_table (of_char packed)"
    and "list_all gif_block_ok blocks"
  shows "inspect (gif_file width height packed background ratio table blocks @ rest) =
     Some (Inr \<lparr>rs_MIME = MIMEGIF, rs_Animated = 1 < length (filter is_picture blocks)\<rparr>)"
proof -
  let ?data = "gif_file width height packed background ratio table blocks @ rest"
  let ?pre = "''GIF89a'' @ le_bytes16 width @ le_bytes16 height"
  note layout = gif_fields(3)[OF assms(2,4), of packed background ratio table blocks rest]
  have packed: "?data ! 10 = packed" "13 \<le> length ?data" unfolding layout by (simp_all add: nth_append)
  have "gif_animated ((?pre @ packed # background # ratio # table) @ concat (map gif_block_bytes blocks) @ (CHR 0x3B # rest))
      (13 + color_table (of_char packed)) 0 = Some (1 < 0 + length (filter is_picture blocks))"
    using assms by (intro gif_blocks_walked) simp_all
  then have "gif_animated ?data (13 + color_table (of_char packed)) 0 = Some (1 < length (filter is_picture blocks))"
    unfolding layout by simp
  moreover have "\<not> prefix png_magic ?data" "\<not> prefix [CHR 0xFF, CHR 0xD8, CHR 0xFF] ?data" "prefix ''GIF89a'' ?data"
    unfolding layout by (simp_all add: png_magic_def)
  ultimately show ?thesis
    using gif_fields(1,2)[OF assms(2,4)] packed assms(1,3) by (simp add: inspect_def inspectGIF_def del: append_assoc)
qed

end
