(* ===== verification/ImageOutput.thy ===== *)
theory ImageOutput
  imports ImageInput RasterProps
begin

text \<open>
  image/output.go: the images a harness emits, inline in base64 or as files under the allowed roots.  The
  file system is the record of \<open>Handoffs\<close>.
\<close>

section \<open>Inline images\<close>

definition outputTooLargeMessage :: string where
  "outputTooLargeMessage = ''image output exceeds the configured per-image limit''"

record Output =
  ou_Data :: string
  ou_MIME :: string
  ou_SizeBytes :: int
  ou_Fingerprint :: string

record boundedDecoder =
  bd_data :: string
  bd_limit :: int
  bd_size :: int

definition bounded_Write :: "string \<Rightarrow> boundedDecoder \<Rightarrow> boundedDecoder" where
  "bounded_Write p w =
     (let w = w\<lparr>bd_size := bd_size w + int (length p)\<rparr>; remaining = bd_limit w - int (length (bd_data w))
      in if remaining > 0 then w\<lparr>bd_data := bd_data w @ take (nat (min (int (length p)) remaining)) p\<rparr> else w)"

definition too_large_output :: "int \<Rightarrow> int \<Rightarrow> OutputError" where
  "too_large_output len limit =
     (output_error ReasonTooLarge outputTooLargeMessage)\<lparr>oe_SizeBytes := len, oe_MaxBytes := limit\<rparr>"

text \<open>The bytes, the type and the size; the size is also returned with the refusal of an oversize image.\<close>

definition DecodeInline :: "string \<Rightarrow> int \<Rightarrow> string \<times> string \<times> int \<times> OutputError option" where
  "DecodeInline data limit =
     (case stream_chunks [] data of
        None \<Rightarrow> ([], [], 0, Some (output_error ReasonInvalidBase64 ''image output contains invalid base64''))
      | Some chunks \<Rightarrow>
          (let decoded = fold bounded_Write chunks \<lparr>bd_data = [], bd_limit = limit + 1, bd_size = 0\<rparr>
           in if bd_size decoded > limit then
                ([], [], bd_size decoded, Some (too_large_output (bd_size decoded) limit))
              else (case the (sniffMIME (bd_data decoded)) of
                      None \<Rightarrow> ([], [], 0, Some (output_error ReasonNotRaster ''image output bytes are not a raster''))
                    | Some mimeType \<Rightarrow> (bd_data decoded, mimeType, bd_size decoded, None))))"

definition DecodeOutput :: "(string \<Rightarrow> string) \<Rightarrow> string \<Rightarrow> string \<Rightarrow> int \<Rightarrow> OutputError + Output" where
  "DecodeOutput table encoded declaredMIME limit =
     (case DecodeInline encoded limit of
        (data, mime, len, Some failure) \<Rightarrow> Inl failure
      | (data, mime, len, None) \<Rightarrow>
          if declaredMIME \<noteq> [] \<and> declaredMIME \<noteq> mime \<and> IsImageMIME table declaredMIME then
            Inl (output_error ReasonMediaTypeMismatch ''declared media type does not match the image'')
          else Inr \<lparr>ou_Data = std_encode data, ou_MIME = mime, ou_SizeBytes = len,
                 ou_Fingerprint = hex_encode (sha256 data)\<rparr>)"

section \<open>Image files\<close>

definition readContents :: "opened \<Rightarrow> int \<Rightarrow> OutputError + string \<times> string" where
  "readContents opn limit =
     (case read_bounded (nat (limit + 1)) opn of
        None \<Rightarrow> Inl (output_error ReasonMissingFile ''image output file cannot be read'')
      | Some data \<Rightarrow>
          if int (length data) > limit then Inl (too_large_output (int (length data)) limit)
          else (case the (sniffMIME data) of
                  None \<Rightarrow> Inl (output_error ReasonNotRaster ''image output file is not a raster'')
                | Some mimeType \<Rightarrow> Inr (data, mimeType)))"

function resolve_from :: "filesystem \<Rightarrow> string \<Rightarrow> string \<Rightarrow> string" where
  "resolve_from fs dir tail =
     (let parent = path_dir dir
      in if parent = dir then []
         else (let tail = path_join (path_base dir) tail; dir = parent
           in case fs_EvalSymlinks fs dir of
                Inr resolved \<Rightarrow> path_join resolved tail
              | Inl e \<Rightarrow> if e \<noteq> NotExist then [] else resolve_from fs dir tail))"
  by pat_completeness auto
termination
  by (relation "measure (\<lambda>(fs, dir, tail). path_size dir)") (auto intro!: path_dir_smaller)

declare resolve_from.simps [simp del]

definition resolveMissing :: "filesystem \<Rightarrow> string \<Rightarrow> string" where
  "resolveMissing fs path = resolve_from fs (path_clean path) []"

fun holding_root :: "filesystem \<Rightarrow> string \<Rightarrow> string list \<Rightarrow> (string \<times> string) option" where
  "holding_root fs path [] = None"
| "holding_root fs path (dir # dirs) =
     (if dir = [] then holding_root fs path dirs
      else case fs_EvalSymlinks fs dir of
             Inl e \<Rightarrow> holding_root fs path dirs
           | Inr resolvedRoot \<Rightarrow>
               (case path_rel resolvedRoot path of
                  None \<Rightarrow> holding_root fs path dirs
                | Some relative \<Rightarrow>
                    if \<not> path_local relative then holding_root fs path dirs else Some (resolvedRoot, relative)))"

definition containingRoot :: "filesystem \<Rightarrow> string \<Rightarrow> string list \<Rightarrow> (string \<times> string) option" where
  "containingRoot fs path dirs = (if path = [] then None else holding_root fs path dirs)"

definition not_allowed :: "string \<Rightarrow> OutputError" where
  "not_allowed message = output_error ReasonPathNotAllowed message"

definition ReadFile :: "filesystem \<Rightarrow> string \<Rightarrow> string list \<Rightarrow> int \<Rightarrow> OutputError + string \<times> string" where
  "ReadFile fs path dirs limit =
     (case fs_EvalSymlinks fs path of
        Inl e \<Rightarrow>
          Inl (if e \<noteq> NotExist then not_allowed ''image output path cannot be resolved safely''
               else if containingRoot fs (resolveMissing fs path) dirs = None then not_allowed ''image output path is outside the allowed roots''
               else output_error ReasonMissingFile ''image output file is missing'')
      | Inr resolved \<Rightarrow>
          (case containingRoot fs resolved dirs of
             None \<Rightarrow> Inl (not_allowed ''image output path is outside the allowed roots'')
           | Some (dir, relative) \<Rightarrow>
               if \<not> fs_OpenRoot fs dir then Inl (not_allowed ''image output root cannot be opened'')
               else (case fs_OpenFile fs dir relative of
                       Inl e \<Rightarrow> Inl (if e = NotExist then output_error ReasonMissingFile ''image output file is missing''
                                     else not_allowed ''image output path cannot be opened safely'')
                     | Inr opn \<Rightarrow>
                         (case of_regular opn of
                            None \<Rightarrow> Inl (not_allowed ''image output path cannot be inspected safely'')
                          | Some False \<Rightarrow> Inl (not_allowed ''image output path is not a regular file'')
                          | Some True \<Rightarrow>
                              if of_size opn > limit then Inl (too_large_output (of_size opn) limit)
                              else readContents opn limit))))"

section \<open>What they promise\<close>

lemma bounded_writes:
  assumes "bd_data w = take (nat (bd_limit w)) all" and "bd_size w = int (length all)"
  shows "let v = fold bounded_Write chunks w
    in bd_data v = take (nat (bd_limit w)) (all @ concat chunks) \<and> bd_size v = int (length (all @ concat chunks))"
  using assms
proof (induction chunks arbitrary: w all)
  case (Cons p ps)
  have "bd_data (bounded_Write p w) = take (nat (bd_limit w)) (all @ p)" "bd_limit (bounded_Write p w) = bd_limit w"
    "bd_size (bounded_Write p w) = int (length (all @ p))"
    using Cons.prems by (auto simp: bounded_Write_def Let_def min_def nat_diff_distrib not_less intro: take_all)
  then show ?case using Cons.IH[of "bounded_Write p w" "all @ p"] by simp
qed simp

lemma inline_decoded:
  assumes "stream_chunks [] encoded = Some chunks"
  shows "DecodeInline encoded limit =
    (let data = concat chunks in
     if int (length data) > limit then ([], [], int (length data), Some (too_large_output (int (length data)) limit))
     else case the (sniffMIME data) of
            None \<Rightarrow> ([], [], 0, Some (output_error ReasonNotRaster ''image output bytes are not a raster''))
          | Some mimeType \<Rightarrow> (data, mimeType, int (length data), None))"
proof -
  have "bd_data (fold bounded_Write chunks \<lparr>bd_data = [], bd_limit = limit + 1, bd_size = 0\<rparr>) = take (nat (limit + 1)) (concat chunks)"
    "bd_size (fold bounded_Write chunks \<lparr>bd_data = [], bd_limit = limit + 1, bd_size = 0\<rparr>) = int (length (concat chunks))"
    using bounded_writes[of "\<lparr>bd_data = [], bd_limit = limit + 1, bd_size = 0\<rparr>" "[]" chunks] by (simp_all add: Let_def)
  moreover have "take (nat (limit + 1)) (concat chunks) = concat chunks" if "\<not> int (length (concat chunks)) > limit"
    using that by (intro take_all) linarith
  ultimately show ?thesis
    using assms by (cases "limit < int (length (concat chunks))") (simp_all add: DecodeInline_def Let_def split: option.split)
qed

lemma decoded_output:
  assumes "DecodeOutput table encoded declared limit = Inr out"
  shows "\<exists>chunks. stream_chunks [] encoded = Some chunks \<and>
    (let data = concat chunks in
     ou_Data out = std_encode data \<and> ou_SizeBytes out = int (length data) \<and> ou_SizeBytes out \<le> limit \<and>
     sniffMIME data = Some (Some (ou_MIME out)) \<and> ou_Fingerprint out = hex_encode (sha256 data) \<and>
     (declared = [] \<or> declared = ou_MIME out \<or> \<not> IsImageMIME table declared))"
proof (cases "stream_chunks [] encoded")
  case None
  then show ?thesis using assms by (simp add: DecodeOutput_def DecodeInline_def)
next
  case (Some chunks)
  obtain m where m: "sniffMIME (concat chunks) = Some m" using sniff_total by blast
  show ?thesis
    using assms m unfolding DecodeOutput_def inline_decoded[OF Some]
    by (auto simp: Some Let_def split: if_splits option.splits)
qed

lemma container_local:
  "containingRoot fs path dirs = Some (dir, relative) \<Longrightarrow>
   \<exists>configured \<in> set dirs. fs_EvalSymlinks fs configured = Inr dir \<and> path_rel dir path = Some relative \<and> path_local relative"
proof -
  have "holding_root fs path dirs = Some (dir, relative) \<Longrightarrow>
     \<exists>configured \<in> set dirs. fs_EvalSymlinks fs configured = Inr dir \<and> path_rel dir path = Some relative \<and> path_local relative"
    by (induction dirs) (auto split: if_splits sum.splits option.splits)
  then show "containingRoot fs path dirs = Some (dir, relative) \<Longrightarrow> ?thesis"
    by (simp add: containingRoot_def split: if_splits)
qed

end
