(* ===== verification/ImageProps.thy ===== *)
theory ImageProps
  imports ImageOutput
begin

text \<open>
  What the image gates promise: an accepted prompt carries exactly its media blocks, each verified and within
  the advertised bounds; a file handed off is read inside the configured root and matches its declaration; an
  emitted image is what it says it is.
\<close>

section \<open>Where a block's bytes come from\<close>

text \<open>The bytes of a block, by the form it came in.\<close>

definition block_source :: "'e surroundings \<Rightarrow> image_options \<Rightarrow> promptMedia \<Rightarrow> string \<Rightarrow> bool" where
  "block_source su opts media data \<longleftrightarrow>
     (if handoffForm (su_ip6 su) media then
        (\<exists>envelope path opn. parseHandoffEnvelope (pm_meta media) = Inr envelope \<and>
           handoffURIPath (su_ip6 su) (pm_uri media) = Inr path \<and>
           fs_OpenFile (su_files su) (io_HandoffRoot opts) (handoffRelativeName (su_files su) (io_HandoffRoot opts) path) = Inr opn \<and>
           of_regular opn = Some True \<and> data = of_data opn \<and>
           int (length data) = he_sizeBytes envelope \<and> hex_encode (sha256 data) = he_digest envelope)
      else std_decode (pm_data media) = Some data)"

text \<open>An image shown to a model is a still raster of the declared, advertised format.\<close>

definition shown_raster :: "promptMedia \<Rightarrow> string \<Rightarrow> bool" where
  "shown_raster media data \<longleftrightarrow>
     (if nativeImage (pm_kind media) then pm_mimeType media \<in> set formats \<and>
        inspect data = Some (Inr \<lparr>rs_MIME = pm_mimeType media, rs_Animated = False\<rparr>)
      else True)"

definition verified_block :: "'e surroundings \<Rightarrow> image_options \<Rightarrow> ContentBlock list \<Rightarrow> Decoded \<Rightarrow> bool" where
  "verified_block su opts blocks d \<longleftrightarrow>
     dd_Block d < length blocks \<and>
     (case promptMediaBlock (su_lower su) (blocks ! dd_Block d) of
        None \<Rightarrow> False
      | Some media \<Rightarrow>
          pm_kind media \<noteq> mediaTextResource \<and> dd_MIME d = pm_mimeType media \<and> dd_Field d = kind_field (pm_kind media) \<and>
          block_source su opts media (dd_Data d) \<and> shown_raster media (dd_Data d) \<and>
          int (length (dd_Data d)) \<le> effectiveInputPerImage (io_Limits opts) (io_NativeCeiling opts))"

definition media_block :: "'e surroundings \<Rightarrow> ContentBlock \<Rightarrow> bool" where
  "media_block su block \<longleftrightarrow>
     (case promptMediaBlock (su_lower su) block of None \<Rightarrow> False | Some media \<Rightarrow> pm_kind media \<noteq> mediaTextResource)"

lemma raster_checked:
  assumes "checkRaster data mime f index = None"
  shows "inspect data = Some (Inr \<lparr>rs_MIME = mime, rs_Animated = False\<rparr>)"
proof -
  obtain v where v: "inspect data = Some v" using inspect_total by blast
  with assms obtain r where "v = Inr r" "\<not> rs_Animated r" "rs_MIME r = mime"
    by (auto simp: checkRaster_def split: sum.splits raster_error.splits if_splits)
  then show ?thesis using v by (cases r) simp
qed

lemma embedded_decoded:
  assumes "decodeEmbedded media index = Inr data"
  shows "std_decode (pm_data media) = Some data" "pm_mimeType media \<in> set formats"
    "inspect data = Some (Inr \<lparr>rs_MIME = pm_mimeType media, rs_Animated = False\<rparr>)"
  using assms by (auto simp: decodeEmbedded_def Let_def split: option.splits if_splits dest: raster_checked)

lemma media_decoded:
  assumes "decodeMedia su position media index maxImageBytes opts = Value data" and "pm_kind media \<noteq> mediaTextResource"
  shows "block_source su opts media data" "shown_raster media data"
proof -
  have "block_source su opts media data \<and> shown_raster media data"
  proof (cases "nativeImage (pm_kind media)")
    case False
    then have "\<not> handoffForm (su_ip6 su) media" by (auto simp: handoffForm_def nativeImage_def)
    then show ?thesis
      using assms False by (auto simp: decodeMedia_def block_source_def shown_raster_def split: option.splits)
  next
    case native: True
    show ?thesis
    proof (cases "handoffForm (su_ip6 su) media")
      case True
      then obtain read: "readHandoff (su_ip6 su) (su_files su) (su_at_open su position) (io_HandoffRoot opts) media maxImageBytes = Inr (Inr data)"
        and raster: "checkRaster data (pm_mimeType media) (kind_field (pm_kind media)) index = None"
        using assms native by (auto simp: decodeMedia_def decodeHandoff_def Let_def split: sum.splits option.splits)
      from handoff_read[OF read] obtain envelope path opn where "parseHandoffEnvelope (pm_meta media) = Inr envelope"
        "handoffURIPath (su_ip6 su) (pm_uri media) = Inr path" "openHandoff (su_files su) (io_HandoffRoot opts) path = Inr opn"
        "data = of_data opn" "int (length data) = he_sizeBytes envelope" "hex_encode (sha256 data) = he_digest envelope"
        "pm_mimeType media \<in> set formats" by blast
      with True native raster_checked[OF raster] handoff_opened show ?thesis
        by (auto simp: block_source_def shown_raster_def)
    next
      case False
      then have "decodeEmbedded media index = Inr data"
        using assms native by (auto simp: decodeMedia_def split: sum.splits)
      then show ?thesis using False native embedded_decoded by (simp add: block_source_def shown_raster_def)
    qed
  qed
  then show "block_source su opts media data" "shown_raster media data" by simp_all
qed

section \<open>Progress through a prompt\<close>

definition progress_ok :: "'e surroundings \<Rightarrow> image_options \<Rightarrow> ContentBlock list \<Rightarrow> nat \<Rightarrow> progress \<Rightarrow> bool" where
  "progress_ok su opts blocks position p \<longleftrightarrow>
     map dd_Block (pr_images p) = filter (\<lambda>i. media_block su (blocks ! i)) [0..<position] \<and>
     map dd_Index (pr_images p) = [0..<length (pr_images p)] \<and> pr_index p = length (pr_images p) \<and>
     list_all (verified_block su opts blocks) (pr_images p) \<and>
     sum_list (map (\<lambda>d. int (length (dd_Data d))) (pr_images p)) \<le> pr_promptBytes p \<and>
     (effectiveInputPerPrompt (io_Limits opts) > 0 \<longrightarrow> pr_promptBytes p \<le> effectiveInputPerPrompt (io_Limits opts))"

lemma admitted:
  assumes "admit opts position media data p = Value q" and ok: "progress_ok su opts blocks position p"
    and block: "position < length blocks" "promptMediaBlock (su_lower su) (blocks ! position) = Some media"
    and source: "pm_kind media \<noteq> mediaTextResource \<Longrightarrow> block_source su opts media data \<and> shown_raster media data"
  shows "progress_ok su opts blocks (Suc position) q"
proof (cases "pm_kind media = mediaTextResource")
  case True
  then show ?thesis
    using assms by (auto simp: admit_def progress_ok_def media_block_def Let_def nativeImage_def split: if_splits)
next
  case False
  then have kinds: "nativeImage (pm_kind media) \<or> pm_kind media = mediaOpaqueBlob" "perImageBounded (pm_kind media)"
    by (cases "pm_kind media"; simp add: nativeImage_def perImageBounded_def)+
  let ?d = "\<lparr>dd_Data = data, dd_MIME = pm_mimeType media, dd_Field = kind_field (pm_kind media), dd_Block = position, dd_Index = pr_index p\<rparr>"
  from assms(1) kinds False have q: "q = p\<lparr>pr_promptBytes := pr_promptBytes p + int (length data), pr_images := pr_images p @ [?d], pr_index := pr_index p + 1\<rparr>"
    "int (length data) \<le> effectiveInputPerImage (io_Limits opts) (io_NativeCeiling opts)"
    "effectiveInputPerPrompt (io_Limits opts) > 0 \<longrightarrow> pr_promptBytes p + int (length data) \<le> effectiveInputPerPrompt (io_Limits opts)"
    by (auto simp: admit_def Let_def split: if_splits)
  have "verified_block su opts blocks ?d" using q(2) block source[OF False] False by (simp add: verified_block_def)
  moreover have "media_block su (blocks ! position)" using block False by (simp add: media_block_def)
  ultimately show ?thesis using ok q(1,3) by (auto simp: progress_ok_def)
qed

lemma block_validated:
  fixes su :: "'e surroundings"
  assumes "validate_block su opts position block p = Value q" and "progress_ok su opts blocks position p"
    and "position < length blocks" "blocks ! position = block"
  shows "progress_ok su opts blocks (Suc position) q"
proof (cases "promptMediaBlock (su_lower su) block")
  case None
  then show ?thesis
    using assms by (auto simp: validate_block_def progress_ok_def media_block_def split: option.splits)
next
  case (Some media)
  let ?counted = "io_HandoffRoot opts \<noteq> [] \<and> handoffForm (su_ip6 su) media"
  let ?p = "if ?counted then p\<lparr>pr_handoffBlocks := pr_handoffBlocks p + 1\<rparr> else p"
  have "\<exists>data. decodeMedia su position media (int (pr_index ?p)) (effectiveInputPerImage (io_Limits opts) (io_NativeCeiling opts)) opts = Value data
      \<and> (admit opts position media data ?p :: ('e, progress) answer) = Value q"
    using assms(1) Some
    by (cases ?counted) (auto simp: validate_block_def Let_def split: option.splits answer.splits if_splits)
  then obtain data where
    decoded: "decodeMedia su position media (int (pr_index ?p)) (effectiveInputPerImage (io_Limits opts) (io_NativeCeiling opts)) opts = Value data"
    and admit: "(admit opts position media data ?p :: ('e, progress) answer) = Value q" by blast
  have "progress_ok su opts blocks position ?p" using assms(2) by (simp add: progress_ok_def)
  from admitted[OF admit this assms(3) _ ] media_decoded[OF decoded] Some assms(4) show ?thesis by blast
qed

lemma blocks_validated:
  assumes "validate_blocks su opts position rest p = Value q" and "progress_ok su opts blocks position p"
    and "rest = drop position blocks" and "position \<le> length blocks"
  shows "progress_ok su opts blocks (length blocks) q"
  using assms
proof (induction rest arbitrary: position p)
  case (Cons block rest)
  then have "position < length blocks" by (cases "position < length blocks") simp_all
  moreover from this have "blocks ! position # drop (Suc position) blocks = block # rest"
    using Cons.prems(3) by (simp add: Cons_nth_drop_Suc)
  ultimately have here: "position < length blocks" "blocks ! position = block" "rest = drop (Suc position) blocks" by simp_all
  from Cons.prems(1) obtain r where "validate_block su opts position block p = Value r"
    "validate_blocks su opts (Suc position) rest r = Value q" by (auto split: answer.splits)
  with Cons.IH[OF this(2) _ here(3)] block_validated[OF this(1) Cons.prems(2) here(1,2)] here(1) show ?case by simp
qed simp

text \<open>C30: An accepted prompt hands on its media blocks, all of them in order and numbered from zero.  Each is
  verified: its bytes are those embedded in the block, or those of a regular file that was opened through the
  configured root and matches the size and the digest the block declares; an image is a still raster of the
  declared format, which is advertised.  No image exceeds the advertised per-image bound, which is positive
  and at most the frame clamp, and together they stay within the prompt's bound where there is one.\<close>

theorem prompt_images_verified:
  assumes "ValidatePrompt su blocks opts = Value images"
  shows "map dd_Block images = filter (\<lambda>i. media_block su (blocks ! i)) [0..<length blocks] \<and>
     map dd_Index images = [0..<length images] \<and> list_all (verified_block su opts blocks) images \<and>
     (\<exists>bound. map_of (MediaEnvelope (io_Limits opts) \<lparr>ev_NativeCeiling = io_NativeCeiling opts, ev_MaxDimension = d, ev_DocumentFormats = fs\<rparr>)
          ''maxBytes'' = Some (AInt bound) \<and> 0 < bound \<and> bound \<le> 7864155 \<and>
        list_all (\<lambda>i. int (length (dd_Data i)) \<le> bound) images) \<and>
     (effectiveInputPerPrompt (io_Limits opts) \<le> 0 \<or>
      sum_list (map (\<lambda>i. int (length (dd_Data i))) images) \<le> effectiveInputPerPrompt (io_Limits opts))"
proof -
  from assms obtain p where p: "validate_blocks su opts 0 blocks no_progress = Value p" "images = pr_images p"
    by (auto simp: ValidatePrompt_def split: answer.splits if_splits)
  have "progress_ok su opts blocks 0 no_progress" by (simp add: progress_ok_def no_progress_def)
  from blocks_validated[OF p(1) this] have ok: "progress_ok su opts blocks (length blocks) p" by simp
  then have "list_all (\<lambda>i. int (length (dd_Data i)) \<le> effectiveInputPerImage (io_Limits opts) (io_NativeCeiling opts)) images"
    using p(2) by (auto simp: progress_ok_def list_all_iff verified_block_def split: option.splits)
  moreover note effective_input_bounds(1,2)[of "io_Limits opts" "io_NativeCeiling opts"]
  ultimately show ?thesis
    using ok p(2) unfolding progress_ok_def by (auto simp: MediaEnvelope_def FrameClamp_def)
qed

text \<open>A still image, and a prompt that embeds it before a text.\<close>

definition still_gif :: string where
  "still_gif = gif_file 1 1 CHR 0x00 CHR 0x00 CHR 0x00 [] [Picture (replicate 8 CHR 0x00) CHR 0x00 [] CHR 0x02 [''x'']]"

lemma still_gif_inspected: "inspect still_gif = Some (Inr \<lparr>rs_MIME = ''image/gif'', rs_Animated = False\<rparr>)"
  using gif_file_inspected[of 1 1 "[]" "CHR 0x00" "[Picture (replicate 8 CHR 0x00) CHR 0x00 [] CHR 0x02 [''x'']]" "CHR 0x00" "CHR 0x00" "[]"]
  by (simp add: still_gif_def color_table_def sub_blocks_ok_def MIMEGIF_def)

lemma still_gif_length: "length still_gif = 28"
  by (simp add: still_gif_def gif_file_def sub_block_bytes_def)

definition nowhere :: "unit surroundings" where
  "nowhere = \<lparr>su_lower = (\<lambda>r. r), su_ip6 = (\<lambda>h. False),
     su_files = \<lparr>fs_EvalSymlinks = (\<lambda>p. Inl NotExist), fs_OpenRoot = (\<lambda>d. False), fs_OpenFile = (\<lambda>d p. Inl NotExist)\<rparr>,
     su_at_block = (\<lambda>i. None), su_at_open = (\<lambda>i. None)\<rparr>"

definition sample_options :: image_options where
  "sample_options = \<lparr>io_Limits = DefaultLimits, io_HandoffRoot = [], io_NativeCeiling = 0, io_Blobs = None, io_TextBeforeImages = False\<rparr>"

definition sample_prompt :: "ContentBlock list" where
  "sample_prompt =
     [\<lparr>cb_Text = None, cb_Image = Some \<lparr>ib_Data = std_encode still_gif, ib_MimeType = ''image/gif'', ib_Uri = None, ib_Meta = []\<rparr>,
        cb_ResourceLink = None, cb_Resource = None\<rparr>,
      \<lparr>cb_Text = Some \<lparr>tb_Text = ''hello'', tb_Audience = None\<rparr>, cb_Image = None, cb_ResourceLink = None, cb_Resource = None\<rparr>]"

lemma encoded_nonempty: "s \<noteq> [] \<Longrightarrow> std_encode s \<noteq> []"
  using std_round_trip[of s] by (auto simp: std_decode_def)

lemma sample_prompt_accepted:
  "ValidatePrompt nowhere sample_prompt sample_options =
     Value [\<lparr>dd_Data = still_gif, dd_MIME = ''image/gif'', dd_Field = ''prompt.image'', dd_Block = 0, dd_Index = 0\<rparr>]"
proof -
  let ?m = "\<lparr>pm_kind = mediaImageBlock, pm_data = std_encode still_gif, pm_mimeType = ''image/gif'', pm_uri = [], pm_meta = []\<rparr>"
  have data: "std_encode still_gif \<noteq> []" using still_gif_length by (intro encoded_nonempty) auto
  then have form: "\<not> handoffForm ip6 ?m" for ip6 by (simp add: handoffForm_def)
  have "decodeEmbedded ?m 0 = Inr still_gif"
    using data std_round_trip[of still_gif] still_gif_inspected by (simp add: decodeEmbedded_def formats_def mimes checkRaster_def)
  then have decoded: "decodeMedia nowhere 0 ?m 0 6291456 sample_options = Value still_gif"
    using form by (simp add: decodeMedia_def nativeImage_def)
  then show ?thesis
    using still_gif_length form
    by (simp add: ValidatePrompt_def sample_prompt_def sample_options_def nowhere_def validate_block_def promptMediaBlock_def
        string_of_def no_progress_def admit_def DefaultLimits_def defaultLimitBytes_def effectiveInputPerImage_def FrameClamp_def
        effectiveInputPerPrompt_def nativeImage_def kind_field_def FieldPromptImage_def perImageBounded_def)
qed

theorem prompt_images_verified_witness:
  "verified_block nowhere sample_options sample_prompt
     \<lparr>dd_Data = still_gif, dd_MIME = ''image/gif'', dd_Field = ''prompt.image'', dd_Block = 0, dd_Index = 0\<rparr>"
  using prompt_images_verified[OF sample_prompt_accepted, of 0 "[]"] by simp

section \<open>Rasters\<close>

text \<open>C31: Inspecting and sniffing read nothing outside the data: no input makes them panic.\<close>

theorem inspection_stays_inside: "inspect data \<noteq> None \<and> sniffMIME data \<noteq> None"
  using inspect_total sniff_total by blast

text \<open>Animation is decided from the file's own structure: a PNG with positive dimensions is a PNG that is
  animated exactly when an animation control chunk comes before its image data, whatever its chunks hold and
  whatever follows them.\<close>

theorem png_animation_decided:
  assumes "0 < width" "width < 4294967296" "0 < height" "height < 4294967296" "length format = 5" "length crc = 4"
    and "list_all png_chunk_ok chunks" "''IDAT'' \<in> set (map pc_kind chunks)"
  shows "inspect (png_file (png_header width height format crc # chunks) @ rest) =
     Some (Inr \<lparr>rs_MIME = ''image/png'',
       rs_Animated = ''acTL'' \<in> set (takeWhile (\<lambda>k. k \<noteq> ''IDAT'' \<and> k \<noteq> ''IEND'') (map pc_kind chunks))\<rparr>)"
  using png_file_inspected[OF assms] by (simp add: MIMEPNG_def)

definition plain_chunk :: "string \<Rightarrow> png_chunk" where
  "plain_chunk kind = \<lparr>pc_kind = kind, pc_body = [], pc_crc = ''....''\<rparr>"

theorem png_animation_decided_witness:
  "inspect (png_file [png_header 1 1 ''.....'' ''....'', plain_chunk ''acTL'', plain_chunk ''IDAT'']) =
     Some (Inr \<lparr>rs_MIME = ''image/png'', rs_Animated = True\<rparr>)"
  using png_animation_decided[of 1 1 "''.....''" "''....''" "[plain_chunk ''acTL'', plain_chunk ''IDAT'']" "[]"]
  by (simp add: plain_chunk_def png_chunk_ok_def)

text \<open>A GIF with positive dimensions is animated exactly when it holds more than one picture, whatever
  extensions and color tables come between them.\<close>

theorem gif_animation_decided:
  assumes "0 < width" "width < 65536" "0 < height" "height < 65536" and "length table = color_table (of_char packed)"
    and "list_all gif_block_ok blocks"
  shows "inspect (gif_file width height packed background ratio table blocks @ rest) =
     Some (Inr \<lparr>rs_MIME = ''image/gif'', rs_Animated = 1 < length (filter is_picture blocks)\<rparr>)"
  using gif_file_inspected[OF assms] by (simp add: MIMEGIF_def)

definition plain_picture :: gif_block where
  "plain_picture = Picture (replicate 8 CHR 0x00) CHR 0x00 [] CHR 0x02 [''x'']"

theorem gif_animation_decided_witness:
  "inspect (gif_file 1 1 CHR 0x00 CHR 0x00 CHR 0x00 [] [plain_picture, Extension CHR 0xF9 [''....''], plain_picture]) =
     Some (Inr \<lparr>rs_MIME = ''image/gif'', rs_Animated = True\<rparr>)"
  using gif_animation_decided[of 1 1 "[]" "CHR 0x00" "[plain_picture, Extension CHR 0xF9 [''....''], plain_picture]"
      "CHR 0x00" "CHR 0x00" "[]"]
  by (simp add: plain_picture_def color_table_def sub_blocks_ok_def)

section \<open>Output\<close>

text \<open>An emitted image is what it says it is: its payload is the base64 text of bytes no longer than the limit,
  whose sniffed type, length and digest are those stated; they are what the native payload decodes to, and a
  declared image type that differs is refused.\<close>

theorem emitted_image_truthful:
  assumes "DecodeOutput table encoded declared limit = Inr out"
  shows "\<exists>data. std_decode (ou_Data out) = Some data \<and> ou_SizeBytes out = int (length data) \<and> ou_SizeBytes out \<le> limit \<and>
     sniffMIME data = Some (Some (ou_MIME out)) \<and> ou_Fingerprint out = hex_encode (sha256 data) \<and>
     std_decode encoded \<in> {None, Some data} \<and>
     (if IsImageMIME table declared then declared \<in> {[], ou_MIME out} else True)"
proof -
  from decoded_output[OF assms] obtain chunks where chunks: "stream_chunks [] encoded = Some chunks"
    "ou_Data out = std_encode (concat chunks)" "ou_SizeBytes out = int (length (concat chunks))" "ou_SizeBytes out \<le> limit"
    "sniffMIME (concat chunks) = Some (Some (ou_MIME out))" "ou_Fingerprint out = hex_encode (sha256 (concat chunks))"
    "declared = [] \<or> declared = ou_MIME out \<or> \<not> IsImageMIME table declared"
    unfolding Let_def by blast
  have "std_decode encoded \<in> {None, Some (concat chunks)}"
    using stream_decodes[of "[]" encoded] chunks(1) by (cases "std_decode encoded") (auto simp: std_decode_def)
  then show ?thesis using chunks std_round_trip[of "concat chunks"] by (intro exI[of _ "concat chunks"]) auto
qed

text \<open>Every raster within the limit is emitted: its encoding goes out unchanged.\<close>

theorem raster_emitted:
  assumes "int (length data) \<le> limit" and "sniffMIME data = Some (Some mime)" and "declared \<in> {[], mime}"
  shows "DecodeOutput table (std_encode data) declared limit =
     Inr \<lparr>ou_Data = std_encode data, ou_MIME = mime, ou_SizeBytes = int (length data), ou_Fingerprint = hex_encode (sha256 data)\<rparr>"
proof -
  have "std_quanta ([] @ filter visible (std_encode data)) = Some data" using std_round_trip[of data] by (simp add: std_decode_def)
  from stream_decodes[OF this] obtain chunks where c: "stream_chunks [] (std_encode data) = Some chunks" "concat chunks = data" by blast
  show ?thesis unfolding DecodeOutput_def inline_decoded[OF c(1)] c(2) using assms by (auto simp: Let_def)
qed

lemma still_gif_sniffed: "sniffMIME still_gif = Some (Some ''image/gif'')"
  by (simp add: sniffMIME_def still_gif_inspected)

theorem raster_emitted_witness:
  "DecodeOutput (\<lambda>r. r) (std_encode still_gif) ''image/gif'' 28 =
     Inr \<lparr>ou_Data = std_encode still_gif, ou_MIME = ''image/gif'', ou_SizeBytes = 28, ou_Fingerprint = hex_encode (sha256 still_gif)\<rparr>"
  using raster_emitted[of still_gif 28 "''image/gif''" "''image/gif''" "\<lambda>r. r"] by (simp add: still_gif_length still_gif_sniffed)

lemma still_gif_emitted: "\<exists>out. DecodeOutput (\<lambda>r. r) (std_encode still_gif) [] 28 = Inr out \<and> ou_SizeBytes out = 28"
proof -
  have "std_quanta ([] @ filter visible (std_encode still_gif)) = Some still_gif" using std_round_trip[of still_gif] by (simp add: std_decode_def)
  from stream_decodes[OF this] obtain chunks where c: "stream_chunks [] (std_encode still_gif) = Some chunks" "concat chunks = still_gif" by blast
  show ?thesis unfolding DecodeOutput_def inline_decoded[OF c(1)] c(2) by (simp add: still_gif_length still_gif_sniffed)
qed

theorem emitted_image_truthful_witness:
  "\<exists>out data. DecodeOutput (\<lambda>r. r) (std_encode still_gif) [] 28 = Inr out \<and> std_decode (ou_Data out) = Some data \<and> length data = 28"
proof -
  from still_gif_emitted obtain out where out: "DecodeOutput (\<lambda>r. r) (std_encode still_gif) [] 28 = Inr out" "ou_SizeBytes out = 28" by blast
  from emitted_image_truthful[OF out(1)] out show ?thesis by auto
qed

text \<open>C32: A harness's file is read inside an allowed root only: whatever the file system answers, and however it
  changes between the calls, the bytes come from a regular file opened through the resolved form of one of the
  allowed roots, under a name that does not leave it and that is where the resolved path lies.  They are all
  the file held, within the limit, with their sniffed type.\<close>

theorem image_file_confined:
  assumes "ReadFile fs path dirs limit = Inr (data, mime)"
  shows "\<exists>configured resolved dir name opn. configured \<in> set dirs \<and>
     fs_EvalSymlinks fs path = Inr resolved \<and> fs_EvalSymlinks fs configured = Inr dir \<and>
     path_rel dir resolved = Some name \<and> path_local name \<and>
     fs_OpenRoot fs dir \<and> fs_OpenFile fs dir name = Inr opn \<and> of_regular opn = Some True \<and>
     data = of_data opn \<and> int (length data) \<le> limit \<and> of_size opn \<le> limit \<and> sniffMIME data = Some (Some mime)"
proof -
  from assms obtain resolved dir name opn where steps: "fs_EvalSymlinks fs path = Inr resolved"
    "containingRoot fs resolved dirs = Some (dir, name)" "fs_OpenRoot fs dir" "fs_OpenFile fs dir name = Inr opn"
    "of_regular opn = Some True" "of_size opn \<le> limit" "readContents opn limit = Inr (data, mime)"
    by (auto simp: ReadFile_def split: sum.splits option.splits prod.splits bool.splits if_splits)
  from steps(7) have data: "read_bounded (nat (limit + 1)) opn = Some data" "int (length data) \<le> limit" "the (sniffMIME data) = Some mime"
    by (auto simp: readContents_def Let_def split: option.splits if_splits)
  have "data = take (nat (limit + 1)) (of_data opn)" using read_bounded_take[OF data(1)] .
  moreover from this have "length (of_data opn) \<le> nat (limit + 1)" using data(2) by (auto simp: min_def split: if_splits)
  ultimately have "data = of_data opn" by simp
  moreover obtain m where "sniffMIME data = Some m" using sniff_total by blast
  ultimately show ?thesis using steps data container_local[OF steps(2)] by force
qed

definition one_file :: filesystem where
  "one_file = \<lparr>fs_EvalSymlinks = (\<lambda>p. Inr p), fs_OpenRoot = (\<lambda>d. d = ''/w''),
     fs_OpenFile = (\<lambda>d n. if n = ''a.gif'' then Inr \<lparr>of_regular = Some True, of_size = 28, of_data = still_gif, of_fails = None\<rparr> else Inl NotExist)\<rparr>"

theorem image_file_confined_witness:
  "ReadFile one_file ''/w/a.gif'' [''/w''] 28 = Inr (still_gif, ''image/gif'') \<and> path_local ''a.gif''"
proof -
  have rel: "path_rel ''/w'' ''/w/a.gif'' = Some ''a.gif''" "path_local ''a.gif''" by code_simp+
  have read: "ReadFile one_file ''/w/a.gif'' [''/w''] 28 = Inr (still_gif, ''image/gif'')"
    by (simp add: ReadFile_def containingRoot_def one_file_def rel readContents_def read_bounded_def still_gif_length still_gif_sniffed)
  from image_file_confined[OF read] obtain dir name where "path_rel dir ''/w/a.gif'' = Some name" "path_local name" "dir = ''/w''"
    by (auto simp: one_file_def)
  then show ?thesis using read rel by simp
qed

end
