(* ===== verification/Seeds.thy ===== *)
theory Seeds
  imports Refusals Urls
begin

text \<open>
  process/seed.go with its lock (filelock.go), and \<open>SeedFileRefusal\<close> of wire/errors.go, on a Unix system.  The
  seed root is what the operating system answers: a record of calls on a world \<open>'w\<close>, each of which may fail.
  What the calls promise is the locale \<open>seed_root\<close>.  Closing and syncing a directory are calls whose outcome
  is dropped; taking the lock is one call, which waits while it is interrupted, and opening and reading a file
  is one call, bounded where the code limits the reader.  An error is the innermost step's.  The text of a manifest is
  written and read by the parameters \<open>marshal\<close> and \<open>unmarshal\<close>, \<open>encoding/json\<close> on documents.
\<close>

section \<open>The seed root\<close>

datatype os_error = ErrNotExist | ErrExist | ErrOther string

record 'w seed_os =
  so_CreateDir :: "'w \<Rightarrow> os_error option \<times> 'w"
  so_OpenRoot :: "'w \<Rightarrow> os_error option \<times> 'w"
  so_CloseRoot :: "'w \<Rightarrow> 'w"
  so_OpenFile :: "bool \<Rightarrow> string \<Rightarrow> 'w \<Rightarrow> os_error option \<times> 'w"
  so_Flock :: "'w \<Rightarrow> os_error option \<times> 'w"
  so_Unlock :: "'w \<Rightarrow> 'w"
  so_Lstat :: "string \<Rightarrow> 'w \<Rightarrow> (os_error + bool) \<times> 'w"
  so_ReadFile :: "nat option \<Rightarrow> string \<Rightarrow> 'w \<Rightarrow> (os_error + string) \<times> 'w"
  so_MkdirAll :: "string \<Rightarrow> 'w \<Rightarrow> os_error option \<times> 'w"
  so_Write :: "string \<Rightarrow> string \<Rightarrow> 'w \<Rightarrow> os_error option \<times> 'w"
  so_Sync :: "string \<Rightarrow> 'w \<Rightarrow> os_error option \<times> 'w"
  so_Close :: "string \<Rightarrow> 'w \<Rightarrow> os_error option \<times> 'w"
  so_Rename :: "string \<Rightarrow> string \<Rightarrow> 'w \<Rightarrow> os_error option \<times> 'w"
  so_Remove :: "string \<Rightarrow> 'w \<Rightarrow> 'w"
  so_SyncDir :: "string \<Rightarrow> 'w \<Rightarrow> 'w"
  so_Text :: "'w \<Rightarrow> string \<times> 'w"

definition seedManifestFileName :: string where "seedManifestFileName = ''.seed-manifest.json''"
definition seedManifestMaxBytes :: nat where "seedManifestMaxBytes = 1048576"

datatype seed_error =
    SeedFileError string
  | SeedStep string os_error
  | ManifestBound
  | ManifestDecode

definition SeedFileError_Error :: "string \<Rightarrow> string" where
  "SeedFileError_Error quoted = ''invalid seed file '' @ quoted"

definition SeedFileRefusal :: "seed_error \<Rightarrow> RequestError option" where
  "SeedFileRefusal e = (case e of SeedFileError name \<Rightarrow> Some (Unsupported fieldSeedFiles) | _ \<Rightarrow> None)"

section \<open>The command-line flag\<close>

type_synonym seed_files = "(string \<times> string) list"

datatype flag_error = FlagForm string | FlagRead string os_error

definition flag_String :: "seed_files \<Rightarrow> string" where
  "flag_String files = join_with (CHR '','') (sort (map fst files))"

text \<open>\<open>read\<close> is \<open>os.ReadFile\<close>.\<close>

definition flag_Set :: "(string \<Rightarrow> os_error + string) \<Rightarrow> string \<Rightarrow> seed_files \<Rightarrow> flag_error option \<times> seed_files" where
  "flag_Set read value files =
     (let (relPath, hostPath) = (case cut_at (CHR ''='') value of None \<Rightarrow> (value, []) | Some parts \<Rightarrow> parts);
          relPath = TrimSpace relPath; hostPath = TrimSpace hostPath
      in if cut_at (CHR ''='') value = None \<or> relPath = [] \<or> hostPath = [] then (Some (FlagForm value), files)
         else case read hostPath of
                Inl e \<Rightarrow> (Some (FlagRead hostPath e), files)
              | Inr contents \<Rightarrow> (None, AList.update relPath contents files))"

section \<open>Paths\<close>

definition validSeedFilePath :: "string \<Rightarrow> bool" where
  "validSeedFilePath name \<longleftrightarrow>
     (let cleanName = path_clean name
      in if TrimSpace name = [] \<or> is_abs name \<or> has_prefix name ''/'' \<or> nul \<in> set name \<or>
            cleanName = seedManifestFileName \<or> has_prefix cleanName (seedManifestFileName @ ''.'') then False
         else list_all (\<lambda>part. \<not> (part = [] \<or> part = ''.'' \<or> part = ''..'')) (split_on (CHR ''/'') name))"

section \<open>The lock\<close>

definition lockName :: string where "lockName = seedManifestFileName @ ''.lock''"

definition openSeedLock :: "'w seed_os \<Rightarrow> 'w \<Rightarrow> os_error option \<times> 'w" where
  "openSeedLock os w =
     (case so_OpenFile os True lockName w of
        (e, w) \<Rightarrow> if e = Some ErrExist then so_OpenFile os False lockName w else (e, w))"

definition lockSeedRoot :: "'w seed_os \<Rightarrow> 'w \<Rightarrow> seed_error option \<times> 'w" where
  "lockSeedRoot os w =
     (case openSeedLock os w of
        (Some e, w) \<Rightarrow> (Some (SeedStep ''open seed lock'' e), w)
      | (None, w) \<Rightarrow>
          (case so_Flock os w of
             (Some e, w) \<Rightarrow> (Some (SeedStep ''lock seed root'' e), snd (so_Close os lockName w))
           | (None, w) \<Rightarrow> (None, w)))"

section \<open>Publishing a file\<close>

definition writeSeedFile :: "'w seed_os \<Rightarrow> string \<Rightarrow> string \<Rightarrow> 'w \<Rightarrow> seed_error option \<times> 'w" where
  "writeSeedFile os name data w =
     (case so_Text os w of
        (text, w) \<Rightarrow>
          (let staging = seedManifestFileName @ ''.'' @ text
           in case so_OpenFile os True staging w of
                (Some e, w) \<Rightarrow> (Some (SeedStep ''stage seed file'' e), w)
              | (None, w) \<Rightarrow>
                  (case so_Write os staging data w of
                     (writeErr, w) \<Rightarrow>
                  case (if writeErr = None then so_Sync os staging w else (writeErr, w)) of
                     (writeErr, w) \<Rightarrow>
                  case so_Close os staging w of
                     (closeErr, w) \<Rightarrow>
                  (let writeErr = (if writeErr = None then closeErr else writeErr)
                   in case (if writeErr = None then so_Rename os staging name w else (writeErr, w)) of
                        (Some e, w) \<Rightarrow> (Some (SeedStep ''publish seed file'' e), so_Remove os staging w)
                      | (None, w) \<Rightarrow> (None, so_SyncDir os (path_dir name) w)))))"

section \<open>The manifest\<close>

definition manifest_document :: "string set \<Rightarrow> json" where
  "manifest_document manifest = JArr (map json_str (sorted_list_of_set manifest))"

definition writeSeedManifest :: "(json \<Rightarrow> string) \<Rightarrow> 'w seed_os \<Rightarrow> string set \<Rightarrow> 'w \<Rightarrow> seed_error option \<times> 'w" where
  "writeSeedManifest marshal os manifest w =
     writeSeedFile os seedManifestFileName (marshal (manifest_document manifest)) w"

definition manifest_entries :: "(string \<Rightarrow> json option) \<Rightarrow> string \<Rightarrow> string set option" where
  "manifest_entries unmarshal data =
     (case unmarshal data of
        None \<Rightarrow> None
      | Some document \<Rightarrow>
          (case unmarshal_array document of
             None \<Rightarrow> None
           | Some entries \<Rightarrow> map_option set (those (map unmarshal_string entries))))"

definition loadSeedManifest :: "(string \<Rightarrow> json option) \<Rightarrow> 'w seed_os \<Rightarrow> 'w \<Rightarrow> (seed_error + string set) \<times> 'w" where
  "loadSeedManifest unmarshal os w =
     (case so_ReadFile os (Some (seedManifestMaxBytes + 1)) seedManifestFileName w of
        (Inl e, w) \<Rightarrow> (if e = ErrNotExist then Inr {} else Inl (SeedStep ''read seed manifest'' e), w)
      | (Inr data, w) \<Rightarrow>
          (if length data > seedManifestMaxBytes then Inl ManifestBound
           else case manifest_entries unmarshal data of None \<Rightarrow> Inl ManifestDecode | Some manifest \<Rightarrow> Inr manifest, w))"

section \<open>Writing the seed files\<close>

fun seed_targets :: "'w seed_os \<Rightarrow> string set \<Rightarrow> string list \<Rightarrow> 'w \<Rightarrow> (seed_error + (string \<times> bool) list) \<times> 'w" where
  "seed_targets os manifest [] w = (Inr [], w)"
| "seed_targets os manifest (name # names) w =
     (if \<not> validSeedFilePath name then (Inl (SeedFileError name), w)
      else case so_Lstat os name w of
             (info, w) \<Rightarrow>
               if (case info of Inl e \<Rightarrow> e \<noteq> ErrNotExist | Inr r \<Rightarrow> False) then
                 (Inl (SeedStep ''stat seed file'' (projl info)), w)
               else
                 (let existing = (case info of Inl e \<Rightarrow> False | Inr r \<Rightarrow> True)
                  in if info = Inr False then (Inl (SeedFileError name), w)
                     else if existing \<and> name \<notin> manifest then (Inl (SeedFileError name), w)
                     else (case seed_targets os manifest names w of
                             (Inl e, w) \<Rightarrow> (Inl e, w)
                           | (Inr targets, w) \<Rightarrow> (Inr ((name, existing) # targets), w))))"

text \<open>One target; nothing is written where the file already holds its contents.\<close>

definition write_target :: "'w seed_os \<Rightarrow> string \<Rightarrow> string \<Rightarrow> 'w \<Rightarrow> seed_error option \<times> 'w" where
  "write_target os name contents w =
     (case (if path_dir name \<noteq> ''.'' then so_MkdirAll os (path_dir name) w else (None, w)) of
        (Some e, w) \<Rightarrow> (Some (SeedStep ''create seed file directory'' e), w)
      | (None, w) \<Rightarrow> writeSeedFile os name contents w)"

definition seed_contents :: "seed_files \<Rightarrow> string \<Rightarrow> string" where
  "seed_contents files name = (case map_of files name of None \<Rightarrow> [] | Some contents \<Rightarrow> contents)"

fun write_targets :: "'w seed_os \<Rightarrow> seed_files \<Rightarrow> (string \<times> bool) list \<Rightarrow> 'w \<Rightarrow> seed_error option \<times> 'w" where
  "write_targets os files [] w = (None, w)"
| "write_targets os files ((name, existing) # targets) w =
     (let contents = seed_contents files name
      in case (if existing then so_ReadFile os None name w else (Inr [], w)) of
           (Inl e, w) \<Rightarrow> (Some (SeedStep ''read managed seed file'' e), w)
         | (Inr current, w) \<Rightarrow>
             if existing \<and> current = contents then write_targets os files targets w
             else (case write_target os name contents w of
                     (Some e, w) \<Rightarrow> (Some e, w)
                   | (None, w) \<Rightarrow> write_targets os files targets w))"

definition seed_locked :: "(json \<Rightarrow> string) \<Rightarrow> (string \<Rightarrow> json option) \<Rightarrow> 'w seed_os \<Rightarrow> seed_files \<Rightarrow> 'w \<Rightarrow> seed_error option \<times> 'w" where
  "seed_locked marshal unmarshal os files w =
     (case loadSeedManifest unmarshal os w of
        (Inl e, w) \<Rightarrow> (Some e, w)
      | (Inr manifest, w) \<Rightarrow>
          (case seed_targets os manifest (sort (map fst files)) w of
             (Inl e, w) \<Rightarrow> (Some e, w)
           | (Inr targets, w) \<Rightarrow>
               (let managed = manifest \<union> fst ` set targets
                in case (if managed \<noteq> manifest then writeSeedManifest marshal os managed w else (None, w)) of
                     (Some e, w) \<Rightarrow> (Some e, w)
                   | (None, w) \<Rightarrow> write_targets os files targets w)))"

definition WriteSeedFiles :: "(json \<Rightarrow> string) \<Rightarrow> (string \<Rightarrow> json option) \<Rightarrow> 'w seed_os \<Rightarrow> seed_files \<Rightarrow> 'w \<Rightarrow> seed_error option \<times> 'w" where
  "WriteSeedFiles marshal unmarshal os files w =
     (if files = [] then (None, w)
      else case so_CreateDir os w of
        (Some e, w) \<Rightarrow> (Some (SeedStep ''create native home'' e), w)
      | (None, w) \<Rightarrow>
          (case so_OpenRoot os w of
             (Some e, w) \<Rightarrow> (Some (SeedStep ''open native home'' e), w)
           | (None, w) \<Rightarrow>
               (case lockSeedRoot os w of
                  (Some e, w) \<Rightarrow> (Some e, so_CloseRoot os w)
                | (None, w) \<Rightarrow>
                    (case seed_locked marshal unmarshal os files w of
                       (e, w) \<Rightarrow> (e, so_CloseRoot os (so_Unlock os w))))))"

section \<open>What the calls promise\<close>

datatype node = Regular string | Directory | Other

text \<open>Names of the manifest's own files: the lock and the staging files.\<close>

definition scratch_name :: "string \<Rightarrow> bool" where
  "scratch_name p \<longleftrightarrow> has_prefix p (seedManifestFileName @ ''.'')"

text \<open>The names a manifest on disk lists.\<close>

definition managed :: "('w \<Rightarrow> string \<Rightarrow> node option) \<Rightarrow> (string \<Rightarrow> json option) \<Rightarrow> 'w \<Rightarrow> string set" where
  "managed view unmarshal w =
     (case view w seedManifestFileName of
        Some (Regular data) \<Rightarrow> (case manifest_entries unmarshal data of Some names \<Rightarrow> names | None \<Rightarrow> {})
      | _ \<Rightarrow> {})"

text \<open>The contract of the calls.  A path stands for one node of the home: the contract is about homes
  no part of whose directories is a symbolic link (inside the home \<open>os.Root\<close> would follow one, and then two
  paths could name one file).  What stands at a seed name or at the manifest's may be anything; of a
  node that is neither a regular file nor a directory nothing is promised.\<close>

locale seed_root =
  fixes os :: "'w seed_os" and view :: "'w \<Rightarrow> string \<Rightarrow> node option"
    and marshal :: "json \<Rightarrow> string" and unmarshal :: "string \<Rightarrow> json option"
  assumes quiet: "view (snd (so_CreateDir os w)) = view w" "view (snd (so_OpenRoot os w)) = view w"
      "view (so_CloseRoot os w) = view w" "view (snd (so_Flock os w)) = view w" "view (so_Unlock os w) = view w"
      "view (snd (so_Lstat os p w)) = view w" "view (snd (so_ReadFile os n p w)) = view w"
      "view (snd (so_Sync os p w)) = view w" "view (snd (so_Close os p w)) = view w" "view (so_SyncDir os p w) = view w"
      "view (snd (so_Text os w)) = view w"
    and lstat: "fst (so_Lstat os p w) = Inr r \<Longrightarrow> view w p \<noteq> None \<and> (r \<longleftrightarrow> (\<exists>x. view w p = Some (Regular x)))"
      "fst (so_Lstat os p w) = Inl ErrNotExist \<Longrightarrow> view w p = None"
    and read: "fst (so_ReadFile os n p w) = Inr data \<Longrightarrow> view w p = Some Other \<or>
        (\<exists>x. view w p = Some (Regular x) \<and> data = (case n of None \<Rightarrow> x | Some k \<Rightarrow> take k x))"
      "fst (so_ReadFile os n p w) = Inl ErrNotExist \<Longrightarrow> view w p \<in> {None, Some Other}"
    and create: "q \<noteq> p \<Longrightarrow> view (snd (so_OpenFile os ex p w)) q = view w q"
      "so_OpenFile os True p w = (None, w') \<Longrightarrow> view w' p = Some (Regular [])"
    and write_file: "q \<noteq> p \<Longrightarrow> view (snd (so_Write os p data w)) q = view w q"
      "so_Write os p data w = (None, w') \<Longrightarrow> view w p = Some (Regular x) \<Longrightarrow> view w' p = Some (Regular (x @ data))"
    and rename: "so_Rename os p q w = (Some e, w') \<Longrightarrow> view w' = view w"
      "so_Rename os p q w = (None, w') \<Longrightarrow> p \<noteq> q \<Longrightarrow> view w' = (view w)(q := view w p, p := None)"
    and remove: "q \<noteq> p \<Longrightarrow> view (so_Remove os p w) q = view w q"
    and mkdir: "view (snd (so_MkdirAll os p w)) q = view w q \<or> view w q = None \<and> view (snd (so_MkdirAll os p w)) q = Some Directory"
    and json_text: "unmarshal (marshal (JArr (map JStr ss))) = Some (JArr (map JStr ss))"

end
