(* ===== verification/SeedProps.thy ===== *)
theory SeedProps
  imports Seeds
begin

text \<open>
  What writing the seed files does to a home: a file is written only under a name the caller gave, with the
  caller's contents, where nothing stood or a file the manifest lists; the manifest lists it before it exists; a
  name that is invalid or not the adapter's stops the write first.  Every call may fail, so a write that is cut
  short is one of the outcomes.
\<close>

section \<open>Names\<close>

lemma join_split: "join_with c (split_on c s) = s"
proof (induction s rule: split_on_induct[of c])
  case (at a b)
  obtain p ps where "split_on c b = p # ps" by (cases "c \<in> set b") (auto simp: split_on.simps[of c b])
  with at show ?case by (simp add: split_on_at)
qed (simp add: split_on_none)

lemma clean_good:
  "list_all (\<lambda>p. \<not> (p = [] \<or> p = ''.'' \<or> p = ''..'')) ps \<Longrightarrow> fold (clean_step rooted) ps acc = acc @ ps"
  by (induction ps arbitrary: acc) (auto simp: clean_step_def)

lemma valid_seed_clean:
  assumes "validSeedFilePath name"
  shows "path_clean name = name" and "\<not> scratch_name name" and "name \<noteq> seedManifestFileName"
proof -
  have parts: "list_all (\<lambda>p. \<not> (p = [] \<or> p = ''.'' \<or> p = ''..'')) (split_on (CHR ''/'') name)"
    and clean: "path_clean name \<noteq> seedManifestFileName" "\<not> has_prefix (path_clean name) (seedManifestFileName @ ''.'')"
    and "\<not> is_abs name" "name \<noteq> []"
    using assms split_on_none[of "CHR ''/''" "[]"] by (auto simp: validSeedFilePath_def Let_def split: if_splits)
  then show same: "path_clean name = name"
    by (simp add: path_clean_def clean_good[OF parts] join_split)
  show "\<not> scratch_name name" "name \<noteq> seedManifestFileName"
    using clean by (simp_all add: same scratch_name_def)
qed

lemma target_names:
  assumes "\<forall>(n, ex)\<in>set ts. validSeedFilePath n \<and> P n ex"
  shows "\<forall>n\<in>fst ` set ts. \<not> scratch_name n \<and> n \<noteq> seedManifestFileName"
proof
  fix n assume "n \<in> fst ` set ts"
  then have "validSeedFilePath n" using assms by auto
  then show "\<not> scratch_name n \<and> n \<noteq> seedManifestFileName" using valid_seed_clean(2,3) by blast
qed

lemma scratch_names [simp]: "scratch_name (seedManifestFileName @ CHR ''.'' # t)" "scratch_name lockName"
    "\<not> scratch_name seedManifestFileName"
  by (simp_all add: scratch_name_def lockName_def seedManifestFileName_def has_prefix_def)

section \<open>The calls\<close>

context seed_root begin

lemma quiet_calls:
  "so_CreateDir os w = (e, w') \<Longrightarrow> view w' = view w" "so_OpenRoot os w = (e, w') \<Longrightarrow> view w' = view w"
  "so_Flock os w = (e, w') \<Longrightarrow> view w' = view w" "so_Lstat os p w = (r, w') \<Longrightarrow> view w' = view w"
  "so_ReadFile os n p w = (c, w') \<Longrightarrow> view w' = view w" "so_Sync os p w = (e, w') \<Longrightarrow> view w' = view w"
  "so_Close os p w = (e, w') \<Longrightarrow> view w' = view w" "so_Text os w = (text, w') \<Longrightarrow> view w' = view w"
  using quiet by (metis snd_conv)+

lemma openSeedLock_view: "\<not> scratch_name q \<Longrightarrow> openSeedLock os w = (e, w') \<Longrightarrow> view w' q = view w q"
  using create(1)[of q lockName]
  by (auto simp: openSeedLock_def split: prod.splits if_splits) (metis scratch_names(2) snd_conv)+

lemma lockSeedRoot_view: "\<not> scratch_name q \<Longrightarrow> lockSeedRoot os w = (e, w') \<Longrightarrow> view w' q = view w q"
  by (auto simp: lockSeedRoot_def quiet dest!: quiet_calls openSeedLock_view split: prod.splits option.splits)

lemma staged:
  assumes "so_OpenFile os True s w = (None, w1)" "so_Write os s data w1 = (writeErr, w2)"
  shows "q \<noteq> s \<Longrightarrow> view w2 q = view w q" and "writeErr = None \<Longrightarrow> view w2 s = Some (Regular data)"
  using create(1)[of q s True w] create(2)[OF assms(1)] write_file(1)[of q s data w1] write_file(2)[of s data w1 w2 "[]"] assms
  by auto

lemma writeSeedFile_view:
  assumes "writeSeedFile os name data w = (e, w')" and "\<not> scratch_name name" and q: "\<not> scratch_name q"
  shows "view w' q = (if e = None \<and> q = name then Some (Regular data) else view w q)"
proof -
  obtain t w0 where named: "so_Text os w = (t, w0)" by fastforce
  define s where "s = seedManifestFileName @ CHR ''.'' # t"
  have away: "q \<noteq> s" "name \<noteq> s" using assms(2) q by (auto simp: s_def)
  obtain oe w1 where opened: "so_OpenFile os True s w0 = (oe, w1)" by fastforce
  have kept: "view w1 q = view w q"
    using create(1)[OF away(1), of True w0] quiet_calls(8)[OF named] opened by simp
  show ?thesis
  proof (cases oe)
    case (Some x)
    then show ?thesis using assms(1) kept by (auto simp: writeSeedFile_def named s_def[symmetric] opened Let_def)
  next
    case None
    obtain we w2 where wrote: "so_Write os s data w1 = (we, w2)" by fastforce
    obtain se w3 where synced: "(if we = None then so_Sync os s w2 else (we, w2)) = (se, w3)" by fastforce
    obtain ce w4 where closed: "so_Close os s w3 = (ce, w4)" by fastforce
    have same: "view w4 = view w2"
      using quiet_calls(6)[of s w2] quiet_calls(7)[OF closed] synced by (auto split: if_splits)
    note stage = staged[OF opened[unfolded None] wrote]
    have before: "view w4 q = view w q" using same stage(1)[OF away(1)] quiet_calls(8)[OF named] by simp
    have full: "se = None \<Longrightarrow> view w4 s = Some (Regular data)"
      using synced stage(2) same by (auto split: if_splits)
    define ended where "ended = (if se = None then ce else se)"
    obtain re w5 where renamed: "(if ended = None then so_Rename os s name w4 else (ended, w4)) = (re, w5)" by fastforce
    have result: "(e, w') = (case re of Some x \<Rightarrow> (Some (SeedStep ''publish seed file'' x), so_Remove os s w5)
        | None \<Rightarrow> (None, so_SyncDir os (path_dir name) w5))"
      using assms(1)
      by (simp add: writeSeedFile_def named s_def opened[unfolded s_def] None wrote[unfolded s_def] synced[unfolded s_def]
        closed[unfolded s_def] Let_def renamed[unfolded s_def ended_def] split: option.splits)
    show ?thesis
    proof (cases re)
      case (Some x)
      then have "view w5 = view w4" using renamed rename(1)[of s name w4] by (auto split: if_splits)
      then show ?thesis using result Some remove[OF away(1)] before by simp
    next
      case None
      then have "ended = None" "so_Rename os s name w4 = (None, w5)" using renamed by (auto split: if_splits)
      moreover from this have "se = None" by (auto simp: ended_def split: if_splits)
      ultimately show ?thesis
        using result None rename(2)[of s name w4 w5] full quiet(10) before away by auto
    qed
  qed
qed

lemma load_managed:
  assumes "loadSeedManifest unmarshal os w = (r, w')" and "view w seedManifestFileName \<noteq> Some Other"
  shows "view w' = view w" and "r = Inr m \<Longrightarrow> m = managed view unmarshal w"
proof -
  obtain c w1 where c: "so_ReadFile os (Some (Suc seedManifestMaxBytes)) seedManifestFileName w = (c, w1)" by fastforce
  show "view w' = view w"
    using assms(1) quiet_calls(5)[OF c] by (auto simp: loadSeedManifest_def c split: sum.splits)
  show "m = managed view unmarshal w" if "r = Inr m"
    using assms(1) that assms(2) read[of "Some (Suc seedManifestMaxBytes)" seedManifestFileName w]
    by (auto simp: loadSeedManifest_def c managed_def split: sum.splits if_splits option.splits)
qed

section \<open>The targets\<close>

lemma seed_targets_all:
  "seed_targets os m names w = (r, w') \<Longrightarrow> view w' = view w \<and>
     (\<forall>ts. r = Inr ts \<longrightarrow> map fst ts = names \<and> (\<forall>(n, ex)\<in>set ts.
        validSeedFilePath n \<and> (if ex then n \<in> m \<and> (\<exists>x. view w n = Some (Regular x)) else view w n = None)))"
proof (induction names arbitrary: w r w')
  case (Cons name names)
  obtain i w1 where i: "so_Lstat os name w = (i, w1)" by fastforce
  obtain r2 w2 where r2: "seed_targets os m names w1 = (r2, w2)" by fastforce
  have same: "view w1 = view w" by (rule quiet_calls(4)[OF i])
  note ih = Cons.IH[OF r2, unfolded same]
  consider (bad) x where "r = Inl x" "view w' = view w"
    | (old) "i = Inr True" "validSeedFilePath name" "name \<in> m" "w' = w2" "r = map_sum id ((#) (name, True)) r2"
    | (new) "i = Inl ErrNotExist" "validSeedFilePath name" "w' = w2" "r = map_sum id ((#) (name, False)) r2"
    using Cons.prems same by (cases i; cases r2) (auto simp: i r2 Let_def split: if_splits)
  then show ?case
  proof cases
    case old
    then show ?thesis using ih lstat(1)[of name w True] i by (cases r2) auto
  next
    case new
    then show ?thesis using ih lstat(2)[of name w] i by (cases r2) auto
  qed simp
qed simp

lemma seed_targets_sound:
  assumes "seed_targets os m names w = (r, w')"
  shows "view w' = view w" and "r = Inr ts \<Longrightarrow> map fst ts = names"
    and "r = Inr ts \<Longrightarrow> (n, ex) \<in> set ts \<Longrightarrow>
      validSeedFilePath n \<and> (if ex then n \<in> m \<and> (\<exists>x. view w n = Some (Regular x)) else view w n = None)"
  using seed_targets_all[OF assms] by auto

lemma seed_targets_refused:
  assumes "seed_targets os m names w = (Inr ts, w')" and "n \<in> set names"
  shows "validSeedFilePath n \<and> (view w n = None \<or> n \<in> m \<and> (\<exists>x. view w n = Some (Regular x)))"
proof -
  have "n \<in> fst ` set ts" using seed_targets_sound(2)[OF assms(1) refl] assms(2) by (metis list.set_map)
  then obtain ex where "(n, ex) \<in> set ts" by auto
  from seed_targets_sound(3)[OF assms(1) refl this] show ?thesis by (auto split: if_splits)
qed

lemma write_target_view:
  assumes "write_target os name c w = (e, w')" and "\<not> scratch_name name" and "\<not> scratch_name q"
  shows "view w' q = view w q \<or> view w q = None \<and> view w' q = Some Directory \<or> q = name \<and> view w' q = Some (Regular c)"
    and "e = None \<Longrightarrow> view w' name = Some (Regular c)"
proof -
  obtain me w1 where m: "(if path_dir name \<noteq> ''.'' then so_MkdirAll os (path_dir name) w else (None, w)) = (me, w1)"
    by fastforce
  have made: "view w1 q = view w q \<or> view w q = None \<and> view w1 q = Some Directory"
    using mkdir[of "path_dir name" w q] m by (auto split: if_splits)
  show "view w' q = view w q \<or> view w q = None \<and> view w' q = Some Directory \<or> q = name \<and> view w' q = Some (Regular c)"
  proof (cases me)
    case None
    then have "writeSeedFile os name c w1 = (e, w')" using assms(1) by (simp add: write_target_def m)
    from writeSeedFile_view[OF this assms(2,3)] made show ?thesis by auto
  next
    case (Some x)
    then show ?thesis using assms(1) made by (auto simp: write_target_def m)
  qed
  assume "e = None"
  then have "me = None" using assms(1) by (cases me) (auto simp: write_target_def m)
  then have "writeSeedFile os name c w1 = (e, w')" using assms(1) by (simp add: write_target_def m)
  from writeSeedFile_view[OF this assms(2) assms(2)] \<open>e = None\<close> show "view w' name = Some (Regular c)" by simp
qed

lemma write_targets_step:
  assumes "write_targets os files ((name, ex) # ts) w = (e, w')"
  obtains (unread) x where "e = Some (SeedStep ''read managed seed file'' x)" "view w' = view w"
    | (kept) w1 where "ex" "view w1 = view w" "write_targets os files ts w1 = (e, w')"
        "view w name = Some Other \<or> view w name = Some (Regular (seed_contents files name))"
    | (failed) x w1 where "view w1 = view w" "write_target os name (seed_contents files name) w1 = (Some x, w')" "e = Some x"
    | (wrote) w1 w2 where "view w1 = view w" "write_target os name (seed_contents files name) w1 = (None, w2)"
        "write_targets os files ts w2 = (e, w')"
proof -
  obtain c w1 where c: "(if ex then so_ReadFile os None name w else (Inr [], w)) = (c, w1)" by fastforce
  have same: "view w1 = view w" using c quiet_calls(5)[of None name w] by (auto split: if_splits)
  obtain t w2 where t: "write_target os name (seed_contents files name) w1 = (t, w2)" by fastforce
  show thesis
  proof (cases c)
    case (Inl x)
    then show thesis using assms same unread by (auto simp: c)
  next
    case (Inr data)
    show thesis
    proof (cases "ex \<and> data = seed_contents files name")
      case True
      then have "fst (so_ReadFile os None name w) = Inr data" using c Inr by simp
      then have "view w name = Some Other \<or> view w name = Some (Regular (seed_contents files name))"
        using read(1)[of None name w data] True by auto
      moreover have "so_ReadFile os None name w = (Inr data, w1)" using c Inr True by simp
      ultimately show thesis using kept[of w1] assms True same by simp
    next
      case False
      then show thesis using assms same t failed[of w1] wrote[of w1 w2]
        by (cases t) (auto simp: c Inr seed_contents_def Let_def)
    qed
  qed
qed

text \<open>What writing the targets may change, and what it reaches when it succeeds.\<close>

lemma write_targets_view:
  assumes "write_targets os files ts w = (e, w')" and "\<forall>n\<in>fst ` set ts. \<not> scratch_name n" and q: "\<not> scratch_name q"
  shows "view w' q = view w q \<or> view w q = None \<and> view w' q = Some Directory \<or>
    q \<in> fst ` set ts \<and> view w' q = Some (Regular (seed_contents files q))"
  using assms(1,2)
proof (induction ts arbitrary: w)
  case (Cons t ts)
  obtain name ex where t: "t = (name, ex)" by fastforce
  have name: "\<not> scratch_name name" using Cons.prems(2) t by simp
  from Cons.prems(1)[unfolded t] show ?case
  proof (cases rule: write_targets_step)
    case (kept w1)
    with Cons.IH[of w1] Cons.prems(2) show ?thesis by (auto simp: t)
  next
    case (failed x w1)
    with write_target_view(1)[OF failed(2) name q] show ?thesis by (auto simp: t)
  next
    case (wrote w1 w2)
    from Cons.IH[OF wrote(3)] Cons.prems(2) write_target_view(1)[OF wrote(2) name q] wrote(1) show ?thesis
      by (auto simp: t)
  qed simp
qed simp

lemma write_targets_done:
  assumes "write_targets os files ts w = (None, w')" and "\<forall>n\<in>fst ` set ts. \<not> scratch_name n"
    and "\<forall>(n, ex)\<in>set ts. ex \<longrightarrow> (\<exists>x. view w n = Some (Regular x))" and "n \<in> fst ` set ts"
  shows "view w' n = Some (Regular (seed_contents files n))"
  using assms
proof (induction ts arbitrary: w)
  case (Cons t ts)
  obtain name ex where t: "t = (name, ex)" by fastforce
  have names: "\<not> scratch_name name" "\<not> scratch_name n" "\<forall>n\<in>fst ` set ts. \<not> scratch_name n"
    using Cons.prems(2,4) t by auto
  have rest: "view w' n = Some (Regular (seed_contents files n))"
    if "write_targets os files ts w2 = (None, w')" "n = name \<Longrightarrow> view w2 n = Some (Regular (seed_contents files n))"
      "\<forall>(n, ex)\<in>set ts. ex \<longrightarrow> (\<exists>x. view w2 n = Some (Regular x))" for w2
    using Cons.IH[OF that(1) names(3) that(3)] that(2) write_targets_view[OF that(1) names(3,2)] Cons.prems(4) by (auto simp: t)
  from Cons.prems(1)[unfolded t] show ?case
  proof (cases rule: write_targets_step)
    case (kept w1)
    show ?thesis by (rule rest[OF kept(3)]) (use Cons.prems(3) kept in \<open>auto simp: t\<close>)
  next
    case (wrote w1 w2)
    have "\<exists>x. view w2 m = Some (Regular x)" if "(m, True) \<in> set ts" for m
    proof -
      have "\<not> scratch_name m" using that names(3) by force
      moreover have "\<exists>x. view w1 m = Some (Regular x)" using that Cons.prems(3) wrote(1) by (auto simp: t)
      ultimately show ?thesis using write_target_view(1)[OF wrote(2) names(1), of m] by auto
    qed
    then show ?thesis using rest[OF wrote(3)] write_target_view(2)[OF wrote(2) names(1) names(1)] by fastforce
  qed simp_all
qed simp

lemma manifest_written:
  "manifest_entries unmarshal (marshal (manifest_document names)) =
     Some (coerce_utf8 ` set (sorted_list_of_set names))"
proof -
  have "manifest_document names = JArr (map JStr (map coerce_utf8 (sorted_list_of_set names)))"
    by (simp add: manifest_document_def json_str_def)
  moreover have "those (map unmarshal_string (map JStr xs)) = Some xs" for xs
    by (induction xs) simp_all
  ultimately show ?thesis unfolding manifest_entries_def by (simp add: json_text del: map_map)
qed

text \<open>The step between the targets and their files: the manifest.\<close>

lemma managed_before_files:
  assumes "(if names \<noteq> managed view unmarshal w then writeSeedManifest marshal os names w else (None, w)) = (e, w')"
  shows "\<not> scratch_name q \<Longrightarrow> q \<noteq> seedManifestFileName \<Longrightarrow> view w' q = view w q"
    and "e = None \<Longrightarrow> finite names \<Longrightarrow> p \<in> names \<Longrightarrow> p \<in> managed view unmarshal w' \<or> coerce_utf8 p \<in> managed view unmarshal w'"
proof -
  show "view w' q = view w q" if "\<not> scratch_name q" "q \<noteq> seedManifestFileName"
    using assms that writeSeedFile_view[of seedManifestFileName "marshal (manifest_document names)" w e w' q]
    by (auto simp: writeSeedManifest_def split: if_splits)
  show "p \<in> managed view unmarshal w' \<or> coerce_utf8 p \<in> managed view unmarshal w'"
    if "e = None" "finite names" "p \<in> names"
    using assms that writeSeedFile_view[of seedManifestFileName "marshal (manifest_document names)" w e w' seedManifestFileName]
    by (auto simp: writeSeedManifest_def managed_def manifest_written split: if_splits)
qed

lemma managed_finite: "finite (managed view unmarshal w)"
  by (auto simp: managed_def manifest_entries_def split: option.splits node.splits)

lemma seed_locked_steps:
  assumes "seed_locked marshal unmarshal os files w = (e, w')" and "view w seedManifestFileName \<noteq> Some Other"
  obtains (stopped) x where "e = Some x" "view w' = view w"
    | (listed) ts w1 e1 where "fst ` set ts = fst ` set files"
        "\<forall>(n, ex)\<in>set ts. validSeedFilePath n \<and>
          (if ex then n \<in> managed view unmarshal w \<and> (\<exists>x. view w n = Some (Regular x)) else view w n = None)"
        "\<And>q. \<not> scratch_name q \<Longrightarrow> q \<noteq> seedManifestFileName \<Longrightarrow> view w1 q = view w q"
        "\<And>p. e1 = None \<Longrightarrow> p \<in> fst ` set files \<Longrightarrow> p \<in> managed view unmarshal w1 \<or> coerce_utf8 p \<in> managed view unmarshal w1"
        "if e1 = None then write_targets os files ts w1 = (e, w') else e = e1 \<and> w' = w1"
proof -
  obtain r w0 where load: "loadSeedManifest unmarshal os w = (r, w0)" by fastforce
  show thesis
  proof (cases r)
    case (Inl x)
    then show thesis using assms(1) stopped[of x] load_managed(1)[OF load assms(2)] by (auto simp: seed_locked_def load)
  next
    case (Inr m)
    note m = load_managed[OF load assms(2)]
    obtain t w2 where t: "seed_targets os m (sort (map fst files)) w0 = (t, w2)" by fastforce
    note sound = seed_targets_sound[OF t, unfolded m(1) m(2)[OF Inr]]
    show thesis
    proof (cases t)
      case (Inl x)
      then show thesis using assms(1) stopped[of x] sound(1) by (auto simp: seed_locked_def load Inr t)
    next
      case (Inr ts)
      define names where "names = m \<union> fst ` set ts"
      have same: "managed view unmarshal w2 = m" using sound(1) m(2)[OF \<open>r = Inr m\<close>] by (simp add: managed_def)
      have fin: "finite names" using managed_finite[of w2] by (simp add: names_def same)
      have keys: "fst ` set ts = fst ` set files" using sound(2)[OF Inr] by (metis list.set_map set_sort)
      obtain e1 w1 where step: "(if names \<noteq> managed view unmarshal w2 then writeSeedManifest marshal os names w2 else (None, w2)) = (e1, w1)"
        by fastforce
      have "if e1 = None then write_targets os files ts w1 = (e, w') else e = e1 \<and> w' = w1"
        using assms(1) step unfolding names_def by (cases e1) (auto simp: seed_locked_def load \<open>r = Inr m\<close> t Inr same Let_def)
      moreover have "p \<in> fst ` set files \<Longrightarrow> p \<in> names" for p by (simp add: names_def keys)
      moreover have "view w1 q = view w q" if "\<not> scratch_name q" "q \<noteq> seedManifestFileName" for q
        using managed_before_files(1)[OF step that] sound(1) by simp
      moreover have "\<forall>(n, ex)\<in>set ts. validSeedFilePath n \<and>
          (if ex then n \<in> managed view unmarshal w \<and> (\<exists>x. view w n = Some (Regular x)) else view w n = None)"
        using sound(3)[OF Inr] by blast
      ultimately show thesis
        using managed_before_files(2)[OF step] fin by (intro listed[OF keys, of w1 e1]) auto
    qed
  qed
qed

text \<open>\<open>WriteSeedFiles\<close> is the locked write, or stops before it.\<close>

lemma WriteSeedFiles_steps:
  assumes "WriteSeedFiles marshal unmarshal os files w = (e, w')"
  obtains (empty) "files = []" "e = None" "w' = w"
    | (stopped) x where "e = Some x" "\<And>q. \<not> scratch_name q \<Longrightarrow> view w' q = view w q"
    | (locked) w1 w2 where "\<And>q. \<not> scratch_name q \<Longrightarrow> view w1 q = view w q"
        "seed_locked marshal unmarshal os files w1 = (e, w2)" "view w' = view w2"
proof (cases "files = []")
  case False
  obtain ce w1 where c: "so_CreateDir os w = (ce, w1)" by fastforce
  obtain oe w2 where o: "so_OpenRoot os w1 = (oe, w2)" by fastforce
  obtain le w3 where l: "lockSeedRoot os w2 = (le, w3)" by fastforce
  obtain se w4 where k: "seed_locked marshal unmarshal os files w3 = (se, w4)" by fastforce
  note same = quiet_calls(1)[OF c] quiet_calls(2)[OF o] lockSeedRoot_view[OF _ l]
  show thesis
  proof (cases "ce = None \<and> oe = None \<and> le = None")
    case True
    then show thesis using assms same quiet(3,5) False by (intro locked[of w3 w4]) (auto simp: WriteSeedFiles_def c o l k)
  next
    case stop: False
    then show thesis using assms same quiet(3) False stopped
      by (auto simp: WriteSeedFiles_def c o l k split: option.splits)
  qed
qed (use assms empty in \<open>simp add: WriteSeedFiles_def\<close>)

lemma managed_cong: "view w' seedManifestFileName = view w seedManifestFileName \<Longrightarrow> managed view unmarshal w' = managed view unmarshal w"
  by (simp add: managed_def)

lemma seed_locked_owned:
  assumes run: "seed_locked marshal unmarshal os files w = (e, w')" and "view w seedManifestFileName \<noteq> Some Other"
    and p: "\<not> scratch_name p" "p \<noteq> seedManifestFileName"
  shows "view w' p = view w p \<or> view w p = None \<and> view w' p = Some Directory \<or>
      p \<in> fst ` set files \<and> view w' p = Some (Regular (seed_contents files p)) \<and>
      (view w p = None \<or> p \<in> managed view unmarshal w) \<and>
      (p \<in> managed view unmarshal w' \<or> coerce_utf8 p \<in> managed view unmarshal w')"
  using run assms(2)
proof (cases rule: seed_locked_steps)
  case (listed ts w1 e1)
  have names: "\<forall>n\<in>fst ` set ts. \<not> scratch_name n" "seedManifestFileName \<notin> fst ` set ts"
    using target_names[OF listed(2)] by auto
  show ?thesis
  proof (cases e1)
    case None
    then have go: "write_targets os files ts w1 = (e, w')" using listed(5) by simp
    have "managed view unmarshal w' = managed view unmarshal w1" if "managed view unmarshal w1 \<noteq> {}"
      using write_targets_view[OF go names(1), of seedManifestFileName] names(2) that
      by (auto simp: managed_def split: option.splits)
    then have kept: "m \<in> managed view unmarshal w1 \<Longrightarrow> m \<in> managed view unmarshal w'" for m by blast
    have own: "view w p = None \<or> p \<in> managed view unmarshal w" if mine: "p \<in> fst ` set files"
    proof -
      obtain ex where "(p, ex) \<in> set ts" using mine unfolding listed(1)[symmetric] by auto
      then show ?thesis using listed(2) by (auto split: if_splits)
    qed
    from write_targets_view[OF go names(1) p(1), unfolded listed(1) listed(3)[OF p]] show ?thesis
    proof (elim disjE conjE)
      assume mine: "p \<in> fst ` set files" and "view w' p = Some (Regular (seed_contents files p))"
      then show ?thesis using own[OF mine] listed(4)[OF None mine] kept by blast
    qed blast+
  next
    case (Some x)
    then show ?thesis using listed(3)[OF p] listed(5) by simp
  qed
qed simp

lemma seed_locked_done:
  assumes "seed_locked marshal unmarshal os files w = (None, w')" and "view w seedManifestFileName \<noteq> Some Other"
    and "n \<in> fst ` set files"
  shows "view w' n = Some (Regular (seed_contents files n))"
  using assms(1,2)
proof (cases rule: seed_locked_steps)
  case (listed ts w1 e1)
  have names: "\<forall>n\<in>fst ` set ts. \<not> scratch_name n \<and> n \<noteq> seedManifestFileName"
    by (rule target_names[OF listed(2)])
  have go: "write_targets os files ts w1 = (None, w')" using listed(5) by (auto split: if_splits)
  have "\<forall>(n, ex)\<in>set ts. ex \<longrightarrow> (\<exists>x. view w1 n = Some (Regular x))"
    using listed(2) listed(3) names by force
  then show ?thesis using write_targets_done[OF go] names listed(1) assms(3) by auto
qed simp

lemma seed_locked_refused:
  assumes run: "seed_locked marshal unmarshal os files w = (e, w')" and "view w seedManifestFileName \<noteq> Some Other"
    and "n \<in> fst ` set files"
    and "\<not> validSeedFilePath n \<or> view w n \<noteq> None \<and> \<not> (n \<in> managed view unmarshal w \<and> (\<exists>x. view w n = Some (Regular x)))"
  shows "e \<noteq> None \<and> view w' = view w"
  using run assms(2)
proof (cases rule: seed_locked_steps)
  case (listed ts w1 e1)
  obtain ex where "(n, ex) \<in> set ts" using assms(3) listed(1) by (metis fst_conv imageE surj_pair)
  then show ?thesis using listed(2) assms(4) by (auto split: if_splits)
qed simp

text \<open>The whole write, and its refusals.\<close>

lemma WriteSeedFiles_owned:
  assumes "distinct (map fst files)" and "view w seedManifestFileName \<noteq> Some Other"
    and run: "WriteSeedFiles marshal unmarshal os files w = (e, w')"
  shows "(\<forall>p. \<not> scratch_name p \<longrightarrow> p \<noteq> seedManifestFileName \<longrightarrow>
      view w' p = view w p \<or> view w p = None \<and> view w' p = Some Directory \<or>
      (\<exists>contents. (p, contents) \<in> set files \<and> view w' p = Some (Regular contents)) \<and>
      (view w p = None \<or> p \<in> managed view unmarshal w) \<and>
      (p \<in> managed view unmarshal w' \<or> coerce_utf8 p \<in> managed view unmarshal w')) \<and>
    (e = None \<longrightarrow> (\<forall>(name, contents)\<in>set files. view w' name = Some (Regular contents)))"
proof -
  have named: "p \<in> fst ` set files \<longleftrightarrow> (p, seed_contents files p) \<in> set files" for p
    using assms(1) by (force simp: seed_contents_def split: option.splits dest: map_of_SomeD)
  show ?thesis
    using run
  proof (cases rule: WriteSeedFiles_steps)
    case (locked w1 w2)
    have wf: "view w1 seedManifestFileName \<noteq> Some Other" using locked(1) assms(2) by simp
    note owned = seed_locked_owned[OF locked(2) wf]
    have "managed view unmarshal w1 = managed view unmarshal w" "managed view unmarshal w' = managed view unmarshal w2"
      using locked(1,3) managed_cong[of w1 w] managed_cong[of w' w2] by simp_all
    then have "\<forall>p. \<not> scratch_name p \<longrightarrow> p \<noteq> seedManifestFileName \<longrightarrow>
      view w' p = view w p \<or> view w p = None \<and> view w' p = Some Directory \<or>
      (\<exists>contents. (p, contents) \<in> set files \<and> view w' p = Some (Regular contents)) \<and>
      (view w p = None \<or> p \<in> managed view unmarshal w) \<and>
      (p \<in> managed view unmarshal w' \<or> coerce_utf8 p \<in> managed view unmarshal w')"
      using owned locked(1,3) named by metis
    moreover have "view w' name = Some (Regular contents)" if "e = None" "(name, contents) \<in> set files" for name contents
    proof -
      have "seed_contents files name = contents" using that(2) assms(1) by (simp add: seed_contents_def)
      moreover have "name \<in> fst ` set files" using that(2) by force
      ultimately show ?thesis using seed_locked_done[of files w1 w2] wf that(1) locked(2,3) by simp
    qed
    ultimately show ?thesis by auto
  qed (auto)
qed

lemma WriteSeedFiles_refused:
  assumes "WriteSeedFiles marshal unmarshal os files w = (e, w')" and "view w seedManifestFileName \<noteq> Some Other"
    and "n \<in> fst ` set files" and "\<not> scratch_name q"
    and "\<not> validSeedFilePath n \<or> view w n \<noteq> None \<and> \<not> (n \<in> managed view unmarshal w \<and> (\<exists>x. view w n = Some (Regular x)))"
  shows "e \<noteq> None \<and> view w' q = view w q"
  using assms(1)
proof (cases rule: WriteSeedFiles_steps)
  case (locked w1 w2)
  have "view w1 seedManifestFileName \<noteq> Some Other" "managed view unmarshal w1 = managed view unmarshal w"
    using locked(1) assms(2) managed_cong[of w1 w] by simp_all
  moreover have "validSeedFilePath n \<Longrightarrow> view w1 n = view w n" using locked(1) valid_seed_clean(2) by blast
  ultimately show ?thesis using seed_locked_refused[OF locked(2) _ assms(3)] assms(4,5) locked(1,3) by metis
qed (use assms(3,4) in auto)

end

section \<open>A disk\<close>

text \<open>Nodes by path and the calls still to fail, one for each call that can.\<close>

record disk =
  dk_nodes :: "string \<rightharpoonup> node"
  dk_faults :: "bool list"

definition attempt :: "(disk \<Rightarrow> 'a \<times> disk) \<Rightarrow> (os_error \<Rightarrow> 'a) \<Rightarrow> disk \<Rightarrow> 'a \<times> disk" where
  "attempt run failure d =
     (let rest = d\<lparr>dk_faults := tl (dk_faults d)\<rparr>
      in if dk_faults d \<noteq> [] \<and> hd (dk_faults d) then (failure (ErrOther ''fault''), rest) else run rest)"

definition put_node :: "string \<Rightarrow> node option \<Rightarrow> disk \<Rightarrow> disk" where
  "put_node p n d = d\<lparr>dk_nodes := (dk_nodes d)(p := n)\<rparr>"

definition disk_open :: "bool \<Rightarrow> string \<Rightarrow> disk \<Rightarrow> os_error option \<times> disk" where
  "disk_open exclusive p = attempt (\<lambda>d.
     case dk_nodes d p of
       None \<Rightarrow> if exclusive then (None, put_node p (Some (Regular [])) d) else (Some ErrNotExist, d)
     | Some n \<Rightarrow> (if exclusive then Some ErrExist else None, d)) Some"

definition disk_lstat :: "string \<Rightarrow> disk \<Rightarrow> (os_error + bool) \<times> disk" where
  "disk_lstat p = attempt (\<lambda>d. (case dk_nodes d p of None \<Rightarrow> Inl ErrNotExist | Some (Regular x) \<Rightarrow> Inr True | Some n \<Rightarrow> Inr False, d)) Inl"

definition disk_read :: "nat option \<Rightarrow> string \<Rightarrow> disk \<Rightarrow> (os_error + string) \<times> disk" where
  "disk_read bound p = attempt (\<lambda>d.
     (case dk_nodes d p of
        None \<Rightarrow> Inl ErrNotExist
      | Some (Regular x) \<Rightarrow> Inr (case bound of None \<Rightarrow> x | Some k \<Rightarrow> take k x)
      | Some n \<Rightarrow> Inl (ErrOther ''not a file''), d)) Inl"

definition disk_mkdir :: "string \<Rightarrow> disk \<Rightarrow> os_error option \<times> disk" where
  "disk_mkdir p = attempt (\<lambda>d.
     case dk_nodes d p of
       None \<Rightarrow> (None, put_node p (Some Directory) d)
     | Some n \<Rightarrow> (if n = Directory then None else Some (ErrOther ''not a directory''), d)) Some"

definition disk_write :: "string \<Rightarrow> string \<Rightarrow> disk \<Rightarrow> os_error option \<times> disk" where
  "disk_write p data = attempt (\<lambda>d.
     case dk_nodes d p of
       Some (Regular x) \<Rightarrow> (None, put_node p (Some (Regular (x @ data))) d)
     | n \<Rightarrow> (Some (ErrOther ''not a file''), d)) Some"

definition disk_rename :: "string \<Rightarrow> string \<Rightarrow> disk \<Rightarrow> os_error option \<times> disk" where
  "disk_rename p q = attempt (\<lambda>d.
     if dk_nodes d q = Some Directory then (Some ErrExist, d)
     else (None, put_node p None (put_node q (dk_nodes d p) d))) Some"

definition disk_os :: "disk seed_os" where
  "disk_os =
     \<lparr>so_CreateDir = attempt (Pair None) Some, so_OpenRoot = attempt (Pair None) Some, so_CloseRoot = id,
      so_OpenFile = disk_open, so_Flock = attempt (Pair None) Some, so_Unlock = id, so_Lstat = disk_lstat,
      so_ReadFile = disk_read, so_MkdirAll = disk_mkdir, so_Write = disk_write,
      so_Sync = (\<lambda>p. attempt (Pair None) Some), so_Close = (\<lambda>p. attempt (Pair None) Some),
      so_Rename = disk_rename, so_Remove = (\<lambda>p. put_node p None), so_SyncDir = (\<lambda>p. id), so_Text = Pair ''T''\<rparr>"

text \<open>A text for documents that are lists of strings: every byte follows a mark, a string ends in another.\<close>

definition marked_string :: "string \<Rightarrow> string" where
  "marked_string s = concat (map (\<lambda>c. [CHR ''+'', c]) s) @ [CHR '';'']"

fun read_marked :: "string \<Rightarrow> string \<Rightarrow> string list option" where
  "read_marked acc [] = (if acc = [] then Some [] else None)"
| "read_marked acc [c] = (if c = CHR '';'' then Some [acc] else None)"
| "read_marked acc (c # d # s) =
     (if c = CHR '';'' then map_option ((#) acc) (read_marked [] (d # s)) else read_marked (acc @ [d]) s)"

definition marked_text :: "json \<Rightarrow> string" where
  "marked_text document = concat (map (\<lambda>j. case j of JStr s \<Rightarrow> marked_string s | _ \<Rightarrow> []) (case document of JArr js \<Rightarrow> js | _ \<Rightarrow> []))"

definition marked_document :: "string \<Rightarrow> json option" where
  "marked_document s = map_option (\<lambda>ss. JArr (map JStr ss)) (read_marked [] s)"

lemma read_marked_string: "read_marked acc (marked_string s @ rest) = map_option ((#) (acc @ s)) (read_marked [] rest)"
  by (induction s arbitrary: acc) (cases rest; auto simp: marked_string_def)+

lemma marked_round_trip: "marked_document (marked_text (JArr (map JStr ss))) = Some (JArr (map JStr ss))"
proof -
  have "read_marked [] (concat (map marked_string ss)) = Some ss"
    by (induction ss) (simp_all add: read_marked_string)
  then show ?thesis by (simp add: marked_text_def marked_document_def comp_def)
qed

lemmas disk_calls = disk_open_def disk_lstat_def disk_read_def disk_mkdir_def disk_write_def disk_rename_def
  attempt_def put_node_def

interpretation disk: seed_root disk_os dk_nodes marked_text marked_document
  by unfold_locales
    (auto simp: disk_os_def disk_calls Let_def marked_round_trip fun_eq_iff split: option.splits node.splits if_splits)

section \<open>What writing the seed files guarantees\<close>

text \<open>
  C33: Whatever call fails, and so wherever a write is cut short, every path of the home other than the manifest and
  its scratch files is as before, or is a new directory, or is a file the caller named that now holds exactly
  its contents, where nothing was or a file the manifest already listed, and which the manifest on disk now lists:
  under exactly its name when the name is valid UTF-8, and otherwise under its name or the one JSON makes of it,
  with the replacement character for the bytes it cannot spell.  A write that succeeds leaves every file with its
  contents.  The home is one where a regular file, a directory or nothing stands at the manifest's own name.
\<close>

theorem seed_files_owned:
  assumes "seed_root os view marshal unmarshal" and "distinct (map fst files)"
    and "view w seedManifestFileName \<noteq> Some Other" and "WriteSeedFiles marshal unmarshal os files w = (e, w')"
  shows "(\<forall>p. \<not> scratch_name p \<longrightarrow> p \<noteq> seedManifestFileName \<longrightarrow>
      view w' p = view w p \<or> view w p = None \<and> view w' p = Some Directory \<or>
      (\<exists>contents. (p, contents) \<in> set files \<and> view w' p = Some (Regular contents)) \<and>
      (view w p = None \<or> p \<in> managed view unmarshal w) \<and>
      (if valid_utf8 p then p \<in> managed view unmarshal w'
       else p \<in> managed view unmarshal w' \<or> coerce_utf8 p \<in> managed view unmarshal w')) \<and>
    (e = None \<longrightarrow> (\<forall>(name, contents)\<in>set files. view w' name = Some (Regular contents)))"
  using seed_root.WriteSeedFiles_owned[OF assms] by (metis coerce_utf8_valid)

text \<open>
  C34: A name that is invalid, or under which something stands that is not a regular file the manifest lists, stops
  the write before any path but the scratch files changes.  As before, what stands at the manifest's own name is
  a regular file, a directory or nothing.
\<close>

theorem seed_refusal_writes_nothing:
  assumes "seed_root os view marshal unmarshal" and "WriteSeedFiles marshal unmarshal os files w = (e, w')"
    and "view w seedManifestFileName \<noteq> Some Other" and "n \<in> fst ` set files" and "\<not> scratch_name q"
    and "\<not> validSeedFilePath n \<or> view w n \<noteq> None \<and> \<not> (n \<in> managed view unmarshal w \<and> (\<exists>x. view w n = Some (Regular x)))"
  shows "e \<noteq> None \<and> view w' q = view w q"
  by (rule seed_root.WriteSeedFiles_refused[OF assms])

text \<open>A home that already has a file the manifest lists, and one that has nothing and loses a call.\<close>

definition listed_disk :: disk where
  "listed_disk = \<lparr>dk_nodes = [seedManifestFileName \<mapsto> Regular (marked_string ''a''), ''a'' \<mapsto> Regular ''old''], dk_faults = []\<rparr>"

definition failing_disk :: disk where
  "failing_disk = \<lparr>dk_nodes = Map.empty, dk_faults = replicate 14 False @ [True]\<rparr>"

definition seed_run :: "seed_files \<Rightarrow> disk \<Rightarrow> seed_error option \<times> disk" where
  "seed_run = WriteSeedFiles marked_text marked_document disk_os"

lemma seed_run_is: "WriteSeedFiles marked_text marked_document disk_os fs d = (fst (seed_run fs d), snd (seed_run fs d))"
  by (simp add: seed_run_def)

lemma seed_run_done: "fst (seed_run [(''a'', ''x'')] listed_disk) = None"
proof -
  have "validSeedFilePath ''a''" "path_dir ''a'' = ''.''" by code_simp+
  then show ?thesis
    by (simp add: seed_run_def WriteSeedFiles_def seed_locked_def lockSeedRoot_def openSeedLock_def loadSeedManifest_def
      writeSeedFile_def write_target_def disk_os_def disk_calls listed_disk_def lockName_def seedManifestFileName_def
      seedManifestMaxBytes_def manifest_entries_def marked_document_def marked_string_def seed_contents_def Let_def)
qed

lemma seed_manifests: "dk_nodes listed_disk seedManifestFileName \<noteq> Some Other" "dk_nodes failing_disk seedManifestFileName \<noteq> Some Other"
  by (simp_all add: listed_disk_def failing_disk_def seedManifestFileName_def)

theorem seed_files_owned_witness:
  "dk_nodes (snd (seed_run [(''a'', ''x'')] listed_disk)) ''a'' = Some (Regular ''x'') \<and>
   dk_nodes (snd (seed_run [(''a'', ''x'')] failing_disk)) ''a'' \<in> {None, Some Directory, Some (Regular ''x'')}"
proof
  show "dk_nodes (snd (seed_run [(''a'', ''x'')] listed_disk)) ''a'' = Some (Regular ''x'')"
    using seed_files_owned[OF disk.seed_root_axioms _ seed_manifests(1) seed_run_is[of "[(''a'', ''x'')]"]] seed_run_done by simp
  have "\<not> scratch_name ''a''" "''a'' \<noteq> seedManifestFileName" "dk_nodes failing_disk ''a'' = None"
    by (simp_all add: scratch_name_def seedManifestFileName_def has_prefix_def failing_disk_def)
  then show "dk_nodes (snd (seed_run [(''a'', ''x'')] failing_disk)) ''a'' \<in> {None, Some Directory, Some (Regular ''x'')}"
    using seed_files_owned[OF disk.seed_root_axioms _ seed_manifests(2) seed_run_is[of "[(''a'', ''x'')]"]] by auto
qed

definition operator_disk :: disk where
  "operator_disk = \<lparr>dk_nodes = [''settings'' \<mapsto> Regular ''mine''], dk_faults = []\<rparr>"

theorem seed_refusal_writes_nothing_witness:
  "fst (seed_run [(''settings'', ''x'')] operator_disk) \<noteq> None \<and>
   dk_nodes (snd (seed_run [(''settings'', ''x'')] operator_disk)) ''settings'' = Some (Regular ''mine'')"
proof -
  have "\<not> scratch_name ''settings''"
    by (simp add: scratch_name_def seedManifestFileName_def has_prefix_def)
  moreover have "dk_nodes operator_disk seedManifestFileName \<noteq> Some Other"
    "''settings'' \<notin> managed dk_nodes marked_document operator_disk" "dk_nodes operator_disk ''settings'' = Some (Regular ''mine'')"
    by (simp_all add: operator_disk_def managed_def seedManifestFileName_def)
  ultimately show ?thesis
    using seed_refusal_writes_nothing[OF disk.seed_root_axioms seed_run_is[of "[(''settings'', ''x'')]" operator_disk],
        of "''settings''" "''settings''"] by simp
qed

text \<open>A name that is not UTF-8 is listed with its bytes replaced, so the next write finds a file it does not own.\<close>

lemma undecodable_name_unlisted:
  "validSeedFilePath [CHR 0xFF] \<and>
   manifest_entries marked_document (marked_text (manifest_document {[CHR 0xFF]})) = Some {[CHR 0xEF, CHR 0xBF, CHR 0xBD]}"
proof
  show "validSeedFilePath [CHR 0xFF]" by code_simp
  have "coerce_utf8 [CHR 0xFF] = [CHR 0xEF, CHR 0xBF, CHR 0xBD]"
    by (simp add: coerce_utf8.simps utf8_len_def utf8_head_def) code_simp
  then show "manifest_entries marked_document (marked_text (manifest_document {[CHR 0xFF]})) = Some {[CHR 0xEF, CHR 0xBF, CHR 0xBD]}"
    by (simp add: disk.manifest_written)
qed

end
