(* ===== verification/Launch.thy ===== *)
theory Launch
  imports Refusals Urls
begin

text \<open>
  process/launch.go, scratch.go and signals.go, \<open>LockFile\<close> of filelock.go, and wire/transport_failure.go, on a
  Unix system.  Descriptors are numbers; creating a pipe, closing a descriptor and starting a command are calls on
  a world \<open>'w\<close>, which may fail.  What runs beside a call, the reaper and the copier of the error
  stream, is a list of events, and where the code waits on several channels the model takes what happened
  meanwhile and the branch that was ready.
\<close>

section \<open>Launching\<close>

definition stderrTailBytes :: nat where "stderrTailBytes = 16 * 1024"

record launch_request =
  lr_Executable :: string
  lr_Args :: "string list"
  lr_Env :: "string list"
  lr_Dir :: string
  lr_Stdout :: "nat option"

text \<open>What the child is started with, in a process group of its own.\<close>

record child =
  ch_Executable :: string
  ch_Args :: "string list"
  ch_Env :: "string list"
  ch_Dir :: string
  ch_Setpgid :: bool
  ch_Stdin :: nat
  ch_Stdout :: nat
  ch_Stderr :: nat

datatype close_error = AlreadyClosed | CloseFailed string

record 'w process_os =
  po_Pipe :: "'w \<Rightarrow> (string + nat \<times> nat) \<times> 'w"
  po_CloseFile :: "nat \<Rightarrow> 'w \<Rightarrow> close_error option \<times> 'w"
  po_StartChild :: "child \<Rightarrow> 'w \<Rightarrow> (string + int) \<times> 'w"

record launch_pipes =
  lp_stdin :: "nat option"
  lp_stdout :: "nat option"
  lp_stderr :: "nat option"
  lp_childStdin :: "nat option"
  lp_childStdout :: "nat option"
  lp_childStderr :: "nat option"

datatype launch_error = ContextEnded string | PipeFailed string string | StartFailed string string

fun close_files :: "'w process_os \<Rightarrow> nat option list \<Rightarrow> 'w \<Rightarrow> 'w" where
  "close_files os [] w = w"
| "close_files os (file # files) w =
     close_files os files (case file of None \<Rightarrow> w | Some fd \<Rightarrow> snd (po_CloseFile os fd w))"

definition closeChildEnds :: "'w process_os \<Rightarrow> launch_pipes \<Rightarrow> 'w \<Rightarrow> 'w" where
  "closeChildEnds os p w = close_files os [lp_childStdin p, lp_childStdout p, lp_childStderr p] w"

definition closeAll :: "'w process_os \<Rightarrow> launch_pipes \<Rightarrow> 'w \<Rightarrow> 'w" where
  "closeAll os p w = close_files os [lp_stdin p, lp_stdout p, lp_stderr p] (closeChildEnds os p w)"

definition no_pipes :: launch_pipes where
  "no_pipes = \<lparr>lp_stdin = None, lp_stdout = None, lp_stderr = None, lp_childStdin = None, lp_childStdout = None, lp_childStderr = None\<rparr>"

text \<open>A pipe's read end comes first; a failure closes what was made before it.\<close>

definition newPipes :: "'w process_os \<Rightarrow> nat option \<Rightarrow> 'w \<Rightarrow> (launch_error + launch_pipes) \<times> 'w" where
  "newPipes os stdout w =
     (case po_Pipe os w of
        (Inl e, w) \<Rightarrow> (Inl (PipeFailed ''stdin'' e), closeAll os no_pipes w)
      | (Inr (childStdin, stdin), w) \<Rightarrow>
          (let p = no_pipes\<lparr>lp_childStdin := Some childStdin, lp_stdin := Some stdin\<rparr>
           in case (if stdout = None then map_prod (map_sum id Some) id (po_Pipe os w) else (Inr None, w)) of
                (Inl e, w) \<Rightarrow> (Inl (PipeFailed ''stdout'' e), closeAll os p w)
              | (Inr output, w) \<Rightarrow>
                  (let p = p\<lparr>lp_stdout := map_option fst output, lp_childStdout := map_option snd output\<rparr>
                   in case po_Pipe os w of
                        (Inl e, w) \<Rightarrow> (Inl (PipeFailed ''stderr'' e), closeAll os p w)
                      | (Inr (stderr, childStderr), w) \<Rightarrow>
                          (Inr (p\<lparr>lp_stderr := Some stderr, lp_childStderr := Some childStderr\<rparr>), w))))"

section \<open>A process\<close>

record exit_result =
  xr_ExitCode :: int
  xr_Signal :: int

text \<open>The process with the state its goroutines share: whether reaping began, the outcome once reaped, the
  retained end of the error stream and whether its copier has ended.\<close>

record process =
  pr_pid :: int
  pr_stdin :: nat
  pr_stdout :: "nat option"
  pr_stderr :: nat
  pr_waiting :: bool
  pr_done :: "(exit_result \<times> string option) option"
  pr_tail :: string
  pr_tailClosed :: bool

definition child_of :: "launch_request \<Rightarrow> launch_pipes \<Rightarrow> child" where
  "child_of request p =
     \<lparr>ch_Executable = lr_Executable request, ch_Args = lr_Args request, ch_Env = lr_Env request, ch_Dir = lr_Dir request,
      ch_Setpgid = True, ch_Stdin = the (lp_childStdin p),
      ch_Stdout = (case lr_Stdout request of None \<Rightarrow> the (lp_childStdout p) | Some fd \<Rightarrow> fd),
      ch_Stderr = the (lp_childStderr p)\<rparr>"

definition process_Start :: "'w process_os \<Rightarrow> string option \<Rightarrow> launch_request \<Rightarrow> 'w \<Rightarrow> (launch_error + process) \<times> 'w" where
  "process_Start os ended request w =
     (case ended of
        Some e \<Rightarrow> (Inl (ContextEnded e), w)
      | None \<Rightarrow>
          (case newPipes os (lr_Stdout request) w of
             (Inl e, w) \<Rightarrow> (Inl e, w)
           | (Inr p, w) \<Rightarrow>
               (case po_StartChild os (child_of request p) w of
                  (Inl e, w) \<Rightarrow> (Inl (StartFailed (lr_Executable request) e), closeAll os p w)
                | (Inr pid, w) \<Rightarrow>
                    (Inr \<lparr>pr_pid = pid, pr_stdin = the (lp_stdin p), pr_stdout = lp_stdout p, pr_stderr = the (lp_stderr p),
                          pr_waiting = False, pr_done = None, pr_tail = [], pr_tailClosed = False\<rparr>,
                     closeChildEnds os p w))))"

section \<open>What runs beside the calls\<close>

text \<open>\<open>cmd.Wait\<close> returned: the process state when there is one, an exit code and perhaps a signal, and its error.\<close>

definition reap :: "(int \<times> int option) option \<Rightarrow> string option \<Rightarrow> exit_result \<times> string option" where
  "reap state err =
     (case state of
        None \<Rightarrow> (\<lparr>xr_ExitCode = 0, xr_Signal = 0\<rparr>, err)
      | Some (code, signal) \<Rightarrow> (\<lparr>xr_ExitCode = code, xr_Signal = (case signal of None \<Rightarrow> 0 | Some n \<Rightarrow> n)\<rparr>, None))"

definition keep_tail :: "string \<Rightarrow> string \<Rightarrow> string" where
  "keep_tail tail bytes =
     (let tail = tail @ bytes
      in if length tail > stderrTailBytes then drop (length tail - stderrTailBytes) tail else tail)"

text \<open>One round of the copier: the bytes read, and whether the read reported an error.\<close>

definition drain_step :: "string \<Rightarrow> bool \<Rightarrow> process \<Rightarrow> process" where
  "drain_step bytes ended p =
     (if pr_tailClosed p then p
      else p\<lparr>pr_tail := if bytes \<noteq> [] then keep_tail (pr_tail p) bytes else pr_tail p, pr_tailClosed := ended\<rparr>)"

datatype process_event = Exited "(int \<times> int option) option" "string option" | StderrRead string bool

text \<open>The reaper runs once, after some caller began the wait.\<close>

fun process_step :: "process_event \<Rightarrow> process \<Rightarrow> process" where
  "process_step (Exited state err) p =
     (if pr_waiting p \<and> pr_done p = None then p\<lparr>pr_done := Some (reap state err)\<rparr> else p)"
| "process_step (StderrRead bytes ended) p = drain_step bytes ended p"

definition process_runs :: "process_event list \<Rightarrow> process \<Rightarrow> process" where
  "process_runs = fold process_step"

section \<open>Waiting and stopping\<close>

definition beginWait :: "process \<Rightarrow> process" where
  "beginWait p = p\<lparr>pr_waiting := True\<rparr>"

datatype wait_arm = Reaped | Ended string

definition process_Wait :: "process_event list \<times> wait_arm \<Rightarrow> process \<Rightarrow> (exit_result \<times> string option) \<times> process" where
  "process_Wait moment p =
     (let p = process_runs (fst moment) (beginWait p)
      in case snd moment of
           Ended e \<Rightarrow> ((\<lparr>xr_ExitCode = 0, xr_Signal = 0\<rparr>, Some e), p)
         | Reaped \<Rightarrow> (the (pr_done p), p))"

datatype kill_error = NoSuchProcess | KillFailed string

definition SIGTERM :: int where "SIGTERM = 15"
definition SIGKILL :: int where "SIGKILL = 9"

text \<open>\<open>kill\<close> is the system call on a group; the signals a call sends are part of its answer.\<close>

definition signalGroup :: "(int \<Rightarrow> int \<Rightarrow> kill_error option) \<Rightarrow> process \<Rightarrow> int \<Rightarrow> kill_error option" where
  "signalGroup kill p signal =
     (case kill (- pr_pid p) signal of Some NoSuchProcess \<Rightarrow> None | e \<Rightarrow> e)"

definition process_Kill :: "(int \<Rightarrow> int \<Rightarrow> kill_error option) \<Rightarrow> process \<Rightarrow> kill_error option \<times> process" where
  "process_Kill kill p = (let p = beginWait p in (signalGroup kill p SIGKILL, p))"

text \<open>A shutdown runs beside the process, the grace timer and the caller's context.  A history of moments
  says in which order things happen: what the goroutines of the process do, the timer started with
  \<open>SIGTERM\<close> firing, the context ending, and the shutdown itself being scheduled.  Scheduled at a \<open>select\<close>,
  it takes one of the arms that are ready by then, whichever the runtime picks, and otherwise keeps
  waiting.\<close>

datatype moment = Beside process_event | TimerFires | ContextEnds string | Woken nat

datatype shutdown_phase = Called | InGrace | Killing | Returned "string option"

record shutdown =
  sd_process :: process
  sd_phase :: shutdown_phase
  sd_timer :: bool
  sd_ctx :: "string option"
  sd_signals :: "int list"

definition shutdown_arms :: "shutdown \<Rightarrow> shutdown_phase list" where
  "shutdown_arms s =
     (if pr_done (sd_process s) \<noteq> None then [Returned None] else []) @
     (if sd_phase s = InGrace \<and> sd_timer s then [Killing] else []) @
     (case sd_ctx s of None \<Rightarrow> [] | Some e \<Rightarrow> [Returned (Some e)])"

definition shutdown_turn :: "nat \<Rightarrow> shutdown \<Rightarrow> shutdown" where
  "shutdown_turn n s =
     (case sd_phase s of
        Called \<Rightarrow>
          if pr_done (sd_process s) \<noteq> None then s\<lparr>sd_phase := Returned None\<rparr>
          else s\<lparr>sd_phase := InGrace, sd_signals := sd_signals s @ [SIGTERM]\<rparr>
      | Returned e \<Rightarrow> s
      | _ \<Rightarrow>
          (let ready = shutdown_arms s
           in if ready = [] then s
              else (let next = ready ! (n mod length ready)
                    in s\<lparr>sd_phase := next, sd_signals := sd_signals s @ (if next = Killing then [SIGKILL] else [])\<rparr>)))"

fun shutdown_step :: "moment \<Rightarrow> shutdown \<Rightarrow> shutdown" where
  "shutdown_step (Beside e) s = s\<lparr>sd_process := process_step e (sd_process s)\<rparr>"
| "shutdown_step TimerFires s = s\<lparr>sd_timer := sd_timer s \<or> sd_phase s = InGrace\<rparr>"
| "shutdown_step (ContextEnds e) s = s\<lparr>sd_ctx := (case sd_ctx s of None \<Rightarrow> Some e | Some e' \<Rightarrow> Some e')\<rparr>"
| "shutdown_step (Woken n) s = shutdown_turn n s"

definition Shutdown :: "moment list \<Rightarrow> process \<Rightarrow> shutdown" where
  "Shutdown history p = fold shutdown_step history
     \<lparr>sd_process = beginWait p, sd_phase = Called, sd_timer = False, sd_ctx = None, sd_signals = []\<rparr>"

text \<open>A timeout while the copier still runs; what it delivers meanwhile are the events.\<close>

definition flushStderr :: "process_event list \<Rightarrow> process \<Rightarrow> process" where
  "flushStderr meanwhile p = (if pr_tailClosed p then p else process_runs meanwhile p)"

definition StderrTail :: "process_event list \<Rightarrow> process \<Rightarrow> string \<times> process" where
  "StderrTail meanwhile p =
     (let p = (if pr_done p \<noteq> None then flushStderr meanwhile p else p) in (TrimSpace (pr_tail p), p))"

definition LaunchFailure :: "process_event list \<times> bool \<Rightarrow> process_event list \<Rightarrow> string \<Rightarrow> string \<Rightarrow> process \<Rightarrow> string \<times> process" where
  "LaunchFailure moment meanwhile name err p =
     (let p = process_runs (fst moment) (beginWait p);
          err = (if snd moment then name @ '' exited before it was ready: '' @ err else err)
      in case StderrTail meanwhile p of
           (tail, p) \<Rightarrow> (if tail \<noteq> [] then err @ '': '' @ tail else err, p))"

definition close_report :: "close_error option \<Rightarrow> string list" where
  "close_report e = (case e of Some (CloseFailed reason) \<Rightarrow> [reason] | _ \<Rightarrow> [])"

text \<open>The last wait ends when the copier has: \<open>draining\<close> is what it delivers until then.\<close>

definition process_Close :: "'w process_os \<Rightarrow> process_event list \<Rightarrow> process_event list \<Rightarrow> process \<Rightarrow> 'w \<Rightarrow> string list \<times> process \<times> 'w" where
  "process_Close os meanwhile draining p w =
     (case po_CloseFile os (pr_stdin p) w of
        (e1, w) \<Rightarrow>
      case (case pr_stdout p of None \<Rightarrow> (None, w) | Some fd \<Rightarrow> po_CloseFile os fd w) of
        (e2, w) \<Rightarrow>
      let p = flushStderr meanwhile p
      in case po_CloseFile os (pr_stderr p) w of
           (e3, w) \<Rightarrow> (close_report e1 @ close_report e2 @ close_report e3, process_runs draining p, w))"

section \<open>A turn cut off by its process\<close>

definition plain_failure :: "string \<Rightarrow> string \<Rightarrow> TurnFailure" where
  "plain_failure cause message =
     \<lparr>tf_Cause = cause, tf_Message = message, tf_StatusCode = 0, tf_ProviderCode = [], tf_Recovery = [],
      tf_Stage = [], tf_Reason = [], tf_SizeBytes = 0, tf_MaxBytes = 0\<rparr>"

text \<open>A transport error is its text, with whether it is the end of the stream.\<close>

definition TransportFailure :: "process_event list \<times> wait_arm \<Rightarrow> process_event list \<Rightarrow> string \<Rightarrow>
    (string \<times> bool) option \<Rightarrow> (string \<times> bool) option option \<Rightarrow> process \<Rightarrow> TurnFailure \<times> process" where
  "TransportFailure moment meanwhile name err streamErr p =
     (case process_Wait moment p of
        ((result, waitErr), p) \<Rightarrow>
          if waitErr = None then
            (let message = (if xr_Signal result \<noteq> 0 then name @ '' was killed by signal '' @ show_int (xr_Signal result)
                            else name @ '' exited with status '' @ show_int (xr_ExitCode result))
             in case StderrTail meanwhile p of
                  (tail, p) \<Rightarrow>
                    (plain_failure CauseProcessExit (if tail \<noteq> [] then message @ '': '' @ tail else message), p))
          else
            (let err = (if err = None then case streamErr of None \<Rightarrow> None | Some e \<Rightarrow> e else err)
             in (plain_failure CauseTransport
                   (case err of Some (text, False) \<Rightarrow> text | _ \<Rightarrow> name @ '' stream closed mid-turn''), p)))"

section \<open>Scratch directories, locks and signals\<close>

definition scratchPrefix :: "string \<Rightarrow> string \<Rightarrow> string" where
  "scratchPrefix vendor purpose = ''acp-go-'' @ vendor @ ''-'' @ purpose @ ''-''"

text \<open>\<open>mkdirAll\<close> and \<open>mkdirTemp\<close> are the system's, \<open>temp\<close> its directory for temporary files.\<close>

definition scratchParent :: "string \<Rightarrow> (string \<Rightarrow> 'w \<Rightarrow> string option \<times> 'w) \<Rightarrow> string \<Rightarrow> 'w \<Rightarrow> (string + string) \<times> 'w" where
  "scratchParent temp mkdirAll parent w =
     (let parent = (if parent = [] then temp else parent)
      in case mkdirAll parent w of (Some e, w) \<Rightarrow> (Inl e, w) | (None, w) \<Rightarrow> (Inr parent, w))"

definition ScratchDir :: "string \<Rightarrow> (string \<Rightarrow> 'w \<Rightarrow> string option \<times> 'w) \<Rightarrow> (string \<Rightarrow> string \<Rightarrow> 'w \<Rightarrow> (string + string) \<times> 'w) \<Rightarrow>
    string \<Rightarrow> string \<Rightarrow> string \<Rightarrow> 'w \<Rightarrow> (string + string) \<times> 'w" where
  "ScratchDir temp mkdirAll mkdirTemp parent vendor purpose w =
     (case scratchParent temp mkdirAll parent w of
        (Inl e, w) \<Rightarrow> (Inl e, w)
      | (Inr parent, w) \<Rightarrow> mkdirTemp parent (scratchPrefix vendor purpose) w)"

definition ScratchPath :: "string \<Rightarrow> (string \<Rightarrow> 'w \<Rightarrow> string option \<times> 'w) \<Rightarrow> string \<Rightarrow> string \<Rightarrow> string \<Rightarrow> string \<Rightarrow> 'w \<Rightarrow> (string + string) \<times> 'w" where
  "ScratchPath temp mkdirAll parent vendor purpose name w =
     (case scratchParent temp mkdirAll parent w of
        (Inl e, w) \<Rightarrow> (Inl e, w)
      | (Inr parent, w) \<Rightarrow> (Inr (path_join parent (scratchPrefix vendor purpose @ name)), w))"

datatype lock_error = LockDirectory string | LockOpen string | LockInUse string

record 'w lock_os =
  lo_MkdirAll :: "string \<Rightarrow> 'w \<Rightarrow> string option \<times> 'w"
  lo_OpenFile :: "string \<Rightarrow> 'w \<Rightarrow> (string + nat) \<times> 'w"
  lo_TryLock :: "nat \<Rightarrow> 'w \<Rightarrow> string option \<times> 'w"
  lo_Unlock :: "nat \<Rightarrow> 'w \<Rightarrow> string option \<times> 'w"
  lo_CloseFile :: "nat \<Rightarrow> 'w \<Rightarrow> string option \<times> 'w"

record file_lock =
  fk_file :: nat
  fk_closed :: bool
  fk_err :: "string list"

definition LockFile :: "'w lock_os \<Rightarrow> string \<Rightarrow> 'w \<Rightarrow> (lock_error + file_lock) \<times> 'w" where
  "LockFile os path w =
     (case lo_MkdirAll os (path_dir path) w of
        (Some e, w) \<Rightarrow> (Inl (LockDirectory e), w)
      | (None, w) \<Rightarrow>
          (case lo_OpenFile os path w of
             (Inl e, w) \<Rightarrow> (Inl (LockOpen e), w)
           | (Inr fd, w) \<Rightarrow>
               (case lo_TryLock os fd w of
                  (Some e, w) \<Rightarrow> (Inl (LockInUse e), snd (lo_CloseFile os fd w))
                | (None, w) \<Rightarrow> (Inr \<lparr>fk_file = fd, fk_closed = False, fk_err = []\<rparr>, w))))"

definition lock_Close :: "'w lock_os \<Rightarrow> file_lock \<Rightarrow> 'w \<Rightarrow> string list \<times> file_lock \<times> 'w" where
  "lock_Close os l w =
     (if fk_closed l then (fk_err l, l, w)
      else case lo_Unlock os (fk_file l) w of
        (e1, w) \<Rightarrow>
      case lo_CloseFile os (fk_file l) w of
        (e2, w) \<Rightarrow>
      let err = (case e1 of None \<Rightarrow> [] | Some e \<Rightarrow> [e]) @ (case e2 of None \<Rightarrow> [] | Some e \<Rightarrow> [e])
      in (err, l\<lparr>fk_closed := True, fk_err := err\<rparr>, w))"

definition SIGINT :: int where "SIGINT = 2"
definition SIGHUP :: int where "SIGHUP = 1"

definition ForwardedSignals :: "int list" where
  "ForwardedSignals = [SIGINT, SIGTERM, SIGHUP]"

end
