(* ===== verification/LaunchProps.thy ===== *)
theory LaunchProps
  imports Launch
begin

text \<open>
  A launch keeps no descriptor it does not hand out and closing the process gives those back; the error stream's
  retained text is its end; a shutdown kills only what outlived its grace; the reason a harness died with reaches
  the client whole.
\<close>

section \<open>Descriptors\<close>

locale descriptors =
  fixes os :: "'w process_os" and opened :: "'w \<Rightarrow> nat set"
  assumes pipe_made: "po_Pipe os w = (Inr (r, s), w') \<Longrightarrow>
      r \<noteq> s \<and> r \<notin> opened w \<and> s \<notin> opened w \<and> opened w' = insert r (insert s (opened w))"
    and pipe_failed: "po_Pipe os w = (Inl e, w') \<Longrightarrow> opened w' = opened w"
    and close_file: "opened (snd (po_CloseFile os fd w)) = opened w - {fd}"
    and start_child: "opened (snd (po_StartChild os c w)) = opened w"
begin

lemma close_files_opened: "opened (close_files os fs w) = opened w - (\<Union>f\<in>set fs. set_option f)"
proof (induction fs arbitrary: w)
  case (Cons f fs)
  then show ?case by (cases f) (auto simp: close_file)
qed simp

lemma closed_file: "po_CloseFile os fd w = (e, w') \<Longrightarrow> opened w' = opened w - {fd}"
  using close_file[of fd w] by simp

end

text \<open>The descriptors a process hands out.\<close>

definition handles :: "process \<Rightarrow> nat set" where
  "handles p = {pr_stdin p, pr_stderr p} \<union> set_option (pr_stdout p)"

definition parent_ends :: "launch_pipes \<Rightarrow> nat set" where
  "parent_ends p = set_option (lp_stdin p) \<union> set_option (lp_stdout p) \<union> set_option (lp_stderr p)"

definition child_ends :: "launch_pipes \<Rightarrow> nat set" where
  "child_ends p = set_option (lp_childStdin p) \<union> set_option (lp_childStdout p) \<union> set_option (lp_childStderr p)"

text \<open>What is open once the pipes of a launch were added to what was open before.\<close>

definition pipes_added :: "nat set \<Rightarrow> launch_pipes \<Rightarrow> nat set \<Rightarrow> bool" where
  "pipes_added before p after \<longleftrightarrow>
     after = before \<union> parent_ends p \<union> child_ends p \<and> (parent_ends p \<union> child_ends p) \<inter> before = {} \<and>
     parent_ends p \<inter> child_ends p = {}"

lemma pipes_added_more:
  assumes "pipes_added before p after" "i \<noteq> j" "i \<notin> after" "j \<notin> after"
    and "parent_ends q = insert i (parent_ends p)" "child_ends q = insert j (child_ends p)"
  shows "pipes_added before q ({i, j} \<union> after)"
proof -
  have a: "after = before \<union> parent_ends p \<union> child_ends p" and apart: "(parent_ends p \<union> child_ends p) \<inter> before = {}"
    "parent_ends p \<inter> child_ends p = {}"
    using assms(1) by (simp_all add: pipes_added_def)
  show ?thesis
    using assms(2) assms(3,4)[unfolded a] apart unfolding pipes_added_def assms(5,6) a by (intro conjI; auto)
qed

lemmas pipe_ends = parent_ends_def child_ends_def

context descriptors begin

lemma closeChildEnds_opened: "opened (closeChildEnds os p w) = opened w - child_ends p"
  unfolding closeChildEnds_def close_files_opened child_ends_def by auto

lemma closeAll_opened: "opened (closeAll os p w) = opened w - (parent_ends p \<union> child_ends p)"
  unfolding closeAll_def closeChildEnds_opened close_files_opened parent_ends_def by auto

lemma closeAll_restores: "pipes_added (opened w) p (opened w') \<Longrightarrow> opened (closeAll os p w') = opened w"
  unfolding closeAll_opened pipes_added_def by blast

lemma pipe_result: "po_Pipe os w = (r, w') \<Longrightarrow>
    case r of Inl e \<Rightarrow> opened w' = opened w | Inr (i, j) \<Rightarrow> i \<noteq> j \<and> i \<notin> opened w \<and> j \<notin> opened w \<and> opened w' = {i, j} \<union> opened w"
  using pipe_made[of w _ _ w'] pipe_failed[of w _ w'] by (auto split: sum.split)

lemma output_pipe_result:
  assumes "(if stdout = None then map_prod (map_sum id Some) id (po_Pipe os w) else (Inr None, w)) = (r, w')"
  shows "case r of Inl e \<Rightarrow> opened w' = opened w
    | Inr None \<Rightarrow> (stdout :: nat option) \<noteq> None \<and> opened w' = opened w
    | Inr (Some (i, j)) \<Rightarrow> stdout = None \<and> i \<noteq> j \<and> i \<notin> opened w \<and> j \<notin> opened w \<and> opened w' = {i, j} \<union> opened w"
proof -
  obtain r0 w0 where 0: "po_Pipe os w = (r0, w0)" by fastforce
  show ?thesis using assms pipe_result[OF 0] by (cases "stdout = None"; cases r0) (auto simp: 0)
qed

lemma output_pipe_added:
  assumes "pipes_added before p (opened w)" and "lp_stdout p = None" "lp_childStdout p = None"
    and "(if stdout = None then map_prod (map_sum id Some) id (po_Pipe os w) else (Inr None, w)) = (r, w')"
  shows "case r of Inl e \<Rightarrow> opened w' = opened w
    | Inr out \<Rightarrow> pipes_added before (p\<lparr>lp_stdout := map_option fst out, lp_childStdout := map_option snd out\<rparr>) (opened w') \<and>
        (out = None \<longleftrightarrow> (stdout :: nat option) \<noteq> None)"
proof (cases r)
  case (Inr out)
  note made = output_pipe_result[OF assms(4)]
  show ?thesis
  proof (cases out)
    case None
    then show ?thesis using made Inr assms(1-3) by (simp add: pipes_added_def pipe_ends)
  next
    case (Some io)
    obtain i j where io: "io = (i, j)" by fastforce
    show ?thesis using made Inr Some pipes_added_more[OF assms(1), of i j] assms(2,3)
      by (auto simp: io pipe_ends)
  qed
qed (use output_pipe_result[OF assms(4)] in simp)

lemma last_pipe_added:
  assumes "pipes_added (opened w) p (opened w2)" and "lp_stderr p = None" "lp_childStderr p = None"
    and "(case po_Pipe os w2 of
            (Inl e, w) \<Rightarrow> (Inl (PipeFailed ''stderr'' e), closeAll os p w)
          | (Inr (stderr, childStderr), w) \<Rightarrow> (Inr (p\<lparr>lp_stderr := Some stderr, lp_childStderr := Some childStderr\<rparr>), w)) = (r, w')"
  shows "case r of Inl e \<Rightarrow> opened w' = opened w
    | Inr q \<Rightarrow> pipes_added (opened w) q (opened w') \<and> lp_stdin q = lp_stdin p \<and> lp_stderr q \<noteq> None \<and> lp_stdout q = lp_stdout p"
proof -
  obtain r3 w3 where 3: "po_Pipe os w2 = (r3, w3)" by fastforce
  show ?thesis
  proof (cases r3)
    case (Inl e)
    then show ?thesis using assms(1,4) pipe_result[OF 3] closeAll_restores[of w p w3] by (auto simp: 3)
  next
    case (Inr io)
    obtain i j where io: "io = (i, j)" by fastforce
    have "pipes_added (opened w) (p\<lparr>lp_stderr := Some i, lp_childStderr := Some j\<rparr>) (opened w3)"
      using pipes_added_more[OF assms(1), of i j] pipe_result[OF 3] assms(2,3) by (auto simp: Inr io pipe_ends)
    then show ?thesis using assms(4) by (auto simp: 3 Inr io)
  qed
qed

lemma newPipes_opened:
  assumes "newPipes os stdout w = (r, w')"
  shows "case r of Inl e \<Rightarrow> opened w' = opened w
     | Inr p \<Rightarrow> pipes_added (opened w) p (opened w') \<and> lp_stdin p \<noteq> None \<and> lp_stderr p \<noteq> None \<and> (lp_stdout p = None \<longleftrightarrow> stdout \<noteq> None)"
proof -
  obtain r1 w1 where 1: "po_Pipe os w = (r1, w1)" by fastforce
  show ?thesis
  proof (cases r1)
    case (Inl e)
    then show ?thesis using assms pipe_result[OF 1] closeAll_restores[of w no_pipes w1]
      by (auto simp: newPipes_def 1 pipes_added_def no_pipes_def pipe_ends)
  next
    case (Inr io1)
    obtain c1 i1 where io1: "io1 = (c1, i1)" by fastforce
    define p1 where "p1 = no_pipes\<lparr>lp_childStdin := Some c1, lp_stdin := Some i1\<rparr>"
    have added1: "pipes_added (opened w) p1 (opened w1)"
      using pipe_result[OF 1] by (auto simp: Inr io1 pipes_added_def p1_def no_pipes_def pipe_ends)
    obtain r2 w2 where 2: "(if stdout = None then map_prod (map_sum id Some) id (po_Pipe os w1) else (Inr None, w1)) = (r2, w2)"
      by fastforce
    have from1: "newPipes os stdout w = (case r2 of
        Inl e \<Rightarrow> (Inl (PipeFailed ''stdout'' e), closeAll os p1 w2)
      | Inr out \<Rightarrow> (let p = p1\<lparr>lp_stdout := map_option fst out, lp_childStdout := map_option snd out\<rparr>
                   in case po_Pipe os w2 of
                        (Inl e, w) \<Rightarrow> (Inl (PipeFailed ''stderr'' e), closeAll os p w)
                      | (Inr (stderr, childStderr), w) \<Rightarrow>
                          (Inr (p\<lparr>lp_stderr := Some stderr, lp_childStderr := Some childStderr\<rparr>), w)))"
      using 2 by (simp add: newPipes_def 1 Inr io1 p1_def Let_def split: sum.splits)
    show ?thesis
    proof (cases r2)
      case (Inl e)
      then have "opened w2 = opened w1" using output_pipe_result[OF 2] by simp
      then show ?thesis using assms closeAll_restores[of w p1 w2] added1 by (auto simp: from1 Inl)
    next
      case (Inr out)
      define p2 where "p2 = p1\<lparr>lp_stdout := map_option fst out, lp_childStdout := map_option snd out\<rparr>"
      have added2: "pipes_added (opened w) p2 (opened w2) \<and> (out = None \<longleftrightarrow> stdout \<noteq> None)"
        using output_pipe_added[OF added1 _ _ 2] Inr by (simp add: p2_def p1_def no_pipes_def)
      have "lp_stderr p2 = None" "lp_childStderr p2 = None" "lp_stdin p2 \<noteq> None" "lp_stdout p2 = map_option fst out"
        by (simp_all add: p2_def p1_def no_pipes_def)
      with last_pipe_added[OF conjunct1[OF added2], of r w'] assms added2 show ?thesis
        by (cases r) (simp_all add: from1 Inr p2_def[symmetric])
    qed
  qed
qed

lemma Start_opened:
  assumes "process_Start os ended request w = (r, w')"
  shows "case r of Inl e \<Rightarrow> opened w' = opened w
    | Inr p \<Rightarrow> opened w' = opened w \<union> handles p \<and> handles p \<inter> opened w = {} \<and> (pr_stdout p = None \<longleftrightarrow> lr_Stdout request \<noteq> None)"
proof (cases ended)
  case None
  obtain r1 w1 where 1: "newPipes os (lr_Stdout request) w = (r1, w1)" by fastforce
  note made = newPipes_opened[OF 1]
  show ?thesis
  proof (cases r1)
    case (Inr p)
    obtain r2 w2 where 2: "po_StartChild os (child_of request p) w1 = (r2, w2)" by fastforce
    have "opened w2 = opened w1" using start_child[of "child_of request p" w1] 2 by simp
    moreover have "parent_ends p = {the (lp_stdin p), the (lp_stderr p)} \<union> set_option (lp_stdout p)"
      using made Inr by (auto simp: parent_ends_def)
    moreover have "opened (closeAll os p w2) = opened w"
      using closeAll_restores[of w p w2] made Inr calculation(1) by simp
    ultimately show ?thesis using assms made Inr None
      by (cases r2) (auto simp: process_Start_def 1 2 closeChildEnds_opened handles_def pipes_added_def)
  qed (use assms made None in \<open>auto simp: process_Start_def 1\<close>)
qed (use assms in \<open>auto simp: process_Start_def\<close>)

lemma Close_opened:
  assumes "process_Close os meanwhile draining p w = (errs, p', w')"
  shows "opened w' = opened w - handles p"
proof -
  have same: "pr_stderr (process_runs es q) = pr_stderr q" for es q
  proof (induction es arbitrary: q)
    case (Cons e es)
    then show ?case by (cases e) (auto simp: process_runs_def drain_step_def)
  qed (simp add: process_runs_def)
  have flushed: "pr_stderr (flushStderr meanwhile p) = pr_stderr p" by (simp add: flushStderr_def same)
  obtain e1 w1 where 1: "po_CloseFile os (pr_stdin p) w = (e1, w1)" by fastforce
  obtain e2 w2 where 2: "(case pr_stdout p of None \<Rightarrow> (None, w1) | Some fd \<Rightarrow> po_CloseFile os fd w1) = (e2, w2)" by fastforce
  obtain e3 w3 where 3: "po_CloseFile os (pr_stderr p) w2 = (e3, w3)" by fastforce
  have "opened w2 = opened w1 - set_option (pr_stdout p)"
    using 2 closed_file[of _ w1] by (cases "pr_stdout p") auto
  moreover have "w' = w3" using assms by (simp add: process_Close_def 1 2 3 Let_def flushed)
  ultimately show ?thesis using closed_file[OF 1] closed_file[OF 3] by (auto simp: handles_def)
qed

end

section \<open>The error stream\<close>

definition last_bytes :: "nat \<Rightarrow> string \<Rightarrow> string" where
  "last_bytes n s = drop (length s - n) s"

text \<open>What the copier read before its pipe ended.\<close>

fun read_before_end :: "process_event list \<Rightarrow> string" where
  "read_before_end [] = []"
| "read_before_end (Exited state err # es) = read_before_end es"
| "read_before_end (StderrRead bytes ended # es) = bytes @ (if ended then [] else read_before_end es)"

lemma keep_tail_last: "keep_tail tail bytes = last_bytes stderrTailBytes (tail @ bytes)"
  by (simp add: keep_tail_def last_bytes_def Let_def)

lemma last_bytes_append: "last_bytes n (last_bytes n s @ t) = last_bytes n (s @ t)"
  by (cases "length s \<le> n") (simp_all add: last_bytes_def add.commute)

lemma last_bytes_short: "length s \<le> n \<Longrightarrow> last_bytes n s = s"
  by (simp add: last_bytes_def)

lemma length_last_bytes: "length (last_bytes n s) \<le> n"
  by (simp add: last_bytes_def)

lemma process_runs_simps [simp]:
  "process_runs [] p = p" "process_runs (e # es) p = process_runs es (process_step e p)"
  "process_runs (es @ fs) p = process_runs fs (process_runs es p)"
  by (simp_all add: process_runs_def)

lemma closed_tail_kept: "pr_tailClosed p \<Longrightarrow> pr_tail (process_runs es p) = pr_tail p"
proof (induction es arbitrary: p)
  case (Cons e es)
  then show ?case by (cases e) (auto simp: drain_step_def)
qed simp

lemma open_tail_runs:
  "\<not> pr_tailClosed p \<Longrightarrow> length (pr_tail p) \<le> stderrTailBytes \<Longrightarrow>
   pr_tail (process_runs es p) = last_bytes stderrTailBytes (pr_tail p @ read_before_end es)"
proof (induction es arbitrary: p)
  case (Cons e es)
  show ?case
  proof (cases e)
    case (Exited state err)
    then show ?thesis using Cons.IH[of "process_step e p"] Cons.prems by simp
  next
    case (StderrRead bytes ended)
    define q where "q = process_step e p"
    have q: "pr_tail q = last_bytes stderrTailBytes (pr_tail p @ bytes)" "pr_tailClosed q = ended"
      using Cons.prems by (auto simp: q_def StderrRead drain_step_def keep_tail_last last_bytes_short)
    show ?thesis
    proof (cases ended)
      case True
      then show ?thesis using closed_tail_kept[of q es] q by (simp add: StderrRead q_def)
    next
      case False
      then show ?thesis using Cons.IH[of q] q length_last_bytes last_bytes_append by (simp add: StderrRead q_def)
    qed
  qed
qed (simp add: last_bytes_short)

section \<open>Outcomes\<close>


section \<open>A table of descriptors\<close>

record fd_table =
  ft_open :: "nat list"
  ft_faults :: "bool list"

definition next_fd :: "fd_table \<Rightarrow> nat" where
  "next_fd t = Suc (fold max (ft_open t) 0)"

definition table_fault :: "fd_table \<Rightarrow> bool" where
  "table_fault t \<longleftrightarrow> ft_faults t \<noteq> [] \<and> hd (ft_faults t)"

definition table_os :: "fd_table process_os" where
  "table_os =
     \<lparr>po_Pipe = (\<lambda>t. let t' = t\<lparr>ft_faults := tl (ft_faults t)\<rparr>
         in if table_fault t then (Inl ''fault'', t')
            else (Inr (next_fd t, Suc (next_fd t)), t'\<lparr>ft_open := next_fd t # Suc (next_fd t) # ft_open t\<rparr>)),
      po_CloseFile = (\<lambda>fd t. (if fd \<in> set (ft_open t) then None else Some AlreadyClosed, t\<lparr>ft_open := removeAll fd (ft_open t)\<rparr>)),
      po_StartChild = (\<lambda>c t. (if table_fault t then Inl ''fault'' else Inr 42, t\<lparr>ft_faults := tl (ft_faults t)\<rparr>))\<rparr>"

lemma fold_max_le: "(n :: nat) \<in> set ns \<Longrightarrow> n \<le> fold max ns k"
proof -
  have mono: "k \<le> fold max ns k" for ns and k :: nat
  proof (induction ns arbitrary: k)
    case (Cons a ns)
    from Cons[of "max a k"] show ?case by simp
  qed simp
  show "n \<in> set ns \<Longrightarrow> n \<le> fold max ns k"
    by (induction ns arbitrary: k) (auto intro: le_trans[OF max.cobounded1 mono])
qed

interpretation table: descriptors table_os "\<lambda>t. set (ft_open t)"
proof
  fix r s w w'
  assume "po_Pipe table_os w = (Inr (r, s), w')"
  then have "r = next_fd w" "s = Suc (next_fd w)" "set (ft_open w') = insert r (insert s (set (ft_open w)))"
    by (auto simp: table_os_def Let_def split: if_splits)
  moreover have "n \<in> set (ft_open w) \<Longrightarrow> n < next_fd w" for n
    using fold_max_le[of n "ft_open w" 0] by (simp add: next_fd_def)
  ultimately show "r \<noteq> s \<and> r \<notin> set (ft_open w) \<and> s \<notin> set (ft_open w) \<and> set (ft_open w') = insert r (insert s (set (ft_open w)))"
    by fastforce
qed (auto simp: table_os_def Let_def split: if_splits)

section \<open>What a launch guarantees\<close>

text \<open>
  C35: A launch that fails, at whichever call, leaves the descriptors that were open as they were; one that
  succeeds adds exactly the ends it hands out, and closing the process takes exactly those away.
\<close>

theorem launch_keeps_no_descriptor:
  assumes "descriptors os opened"
  shows "(case process_Start os ended request w of
      (Inl e, w') \<Rightarrow> opened w' = opened w
    | (Inr p, w') \<Rightarrow> opened w' = opened w \<union> handles p \<and> handles p \<inter> opened w = {} \<and>
        (pr_stdout p = None \<longleftrightarrow> lr_Stdout request \<noteq> None) \<and>
        opened (snd (snd (process_Close os meanwhile draining p w'))) = opened w)"
proof -
  obtain r w' where run: "process_Start os ended request w = (r, w')" by fastforce
  note started = descriptors.Start_opened[OF assms run]
  show ?thesis
  proof (cases r)
    case (Inr p)
    obtain errs p' w'' where c: "process_Close os meanwhile draining p w' = (errs, p', w'')" by (metis prod_cases3)
    show ?thesis using started descriptors.Close_opened[OF assms c] by (auto simp: run Inr c)
  qed (use started in \<open>simp add: run\<close>)
qed

text \<open>
  The retained error text of a started process is the last sixteen KiB of everything its stream delivered
  before it ended, however the stream was cut into reads and whenever the process was reaped.
\<close>

theorem stderr_tail_is_the_end:
  assumes "process_Start os ended request w = (Inr p, w')"
  shows "pr_tail (process_runs es p) = last_bytes stderrTailBytes (read_before_end es)"
proof -
  have "\<not> pr_tailClosed p \<and> pr_tail p = []"
    using assms by (auto simp: process_Start_def split: option.splits prod.splits sum.splits)
  then show ?thesis using open_tail_runs[of p es] by simp
qed





















section \<open>The reason a harness died with\<close>

definition tail_bounded :: "process \<Rightarrow> bool" where
  "tail_bounded p \<longleftrightarrow> length (pr_tail p) \<le> stderrTailBytes"

lemma tail_bounded_runs: "tail_bounded p \<Longrightarrow> tail_bounded (process_runs es p)"
proof (induction es arbitrary: p)
  case (Cons e es)
  have "tail_bounded (process_step e p)"
    using Cons.prems by (cases e) (auto simp: tail_bounded_def drain_step_def keep_tail_last length_last_bytes)
  then show ?case using Cons.IH by simp
qed simp

lemma tail_bounded_started: "process_Start os ended request w = (Inr p, w') \<Longrightarrow> tail_bounded p"
  by (auto simp: process_Start_def tail_bounded_def split: option.splits prod.splits sum.splits)

lemma StderrTail_length: "tail_bounded p \<Longrightarrow> length (fst (StderrTail es p)) \<le> stderrTailBytes"
proof -
  assume p: "tail_bounded p"
  have "length (TrimSpace (pr_tail q)) \<le> stderrTailBytes" if "tail_bounded q" for q
    using TrimSpace_length[of "pr_tail q"] that unfolding tail_bounded_def by linarith
  then show ?thesis using p tail_bounded_runs[OF p, of es] by (simp add: StderrTail_def Let_def flushStderr_def)
qed

lemma show_int_length: "\<bar>n\<bar> < 2 ^ 63 \<Longrightarrow> length (show_int n) \<le> 20"
proof -
  assume "\<bar>n\<bar> < 2 ^ 63"
  then have "nat \<bar>n\<bar> < 10 ^ Suc 18" by simp
  from show_nat_length[OF this] show ?thesis by (auto simp: show_int_def)
qed

text \<open>The sentence a process exit is reported with, and its error text.\<close>

definition exit_sentence :: "string \<Rightarrow> exit_result \<Rightarrow> string" where
  "exit_sentence name result =
     (if xr_Signal result \<noteq> 0 then name @ '' was killed by signal '' @ show_int (xr_Signal result)
      else name @ '' exited with status '' @ show_int (xr_ExitCode result))"

text \<open>
  C37: A turn its process cut off is reported with how the process ended and the whole retained error text: with a
  harness name of at most 2000 bytes, the bound on the cause a client is sent cuts nothing off.
\<close>

theorem exit_reason_reaches_client:
  assumes "process_Start os ended request w = (Inr p, w')" and "length name \<le> 2000"
    and "process_Wait moment (process_runs es p) = ((result, None), q)"
    and "\<bar>xr_ExitCode result\<bar> < 2 ^ 63" and "\<bar>xr_Signal result\<bar> < 2 ^ 63"
  shows "\<exists>data tail. TurnFailed vendor (fst (TransportFailure moment meanwhile name err streamErr (process_runs es p))) = InternalError data \<and>
     tail = fst (StderrTail meanwhile q) \<and> map_of data FieldCause = Some (AString CauseProcessExit) \<and>
     map_of data FieldMessage =
       Some (AString (TrimSpace (drop_invalid (exit_sentence name result @ (if tail \<noteq> [] then '': '' @ tail else [])))))"
proof -
  define tail where "tail = fst (StderrTail meanwhile q)"
  define message where "message = exit_sentence name result @ (if tail \<noteq> [] then '': '' @ tail else [])"
  have "q = process_runs (fst moment) (beginWait (process_runs es p))"
    using assms(3) by (auto simp: process_Wait_def Let_def split: wait_arm.splits)
  moreover have "tail_bounded (beginWait (process_runs es p))"
    using tail_bounded_runs[OF tail_bounded_started[OF assms(1)]] by (simp add: tail_bounded_def beginWait_def)
  ultimately have "length tail \<le> 16384"
    using StderrTail_length[OF tail_bounded_runs] unfolding tail_def stderrTailBytes_def by fastforce
  moreover have "length (exit_sentence name result) \<le> 2042"
    using assms(2) show_int_length[OF assms(4)] show_int_length[OF assms(5)] by (auto simp: exit_sentence_def)
  ultimately have short: "length message \<le> processCauseMaxBytes" by (simp add: message_def processCauseMaxBytes_def nativeCauseMaxBytes_def)
  have "fst (TransportFailure moment meanwhile name err streamErr (process_runs es p)) = plain_failure CauseProcessExit message"
    using assms(3) by (auto simp: TransportFailure_def message_def exit_sentence_def tail_def Let_def split: prod.splits)
  then show ?thesis
    using short unfolding message_def tail_def
    by (auto simp: TurnFailed_def plain_failure_def boundNativeCause_def Let_def FieldError_def FieldCause_def FieldMessage_def)
qed

section \<open>Concrete launches\<close>

definition sample_launch :: launch_request where
  "sample_launch = \<lparr>lr_Executable = ''/bin/agent'', lr_Args = [], lr_Env = [], lr_Dir = ''/'', lr_Stdout = None\<rparr>"

definition sample_table :: "bool list \<Rightarrow> fd_table" where
  "sample_table faults = \<lparr>ft_open = [0, 1, 2], ft_faults = faults\<rparr>"

text \<open>The third pipe cannot be made; then everything can.\<close>

theorem launch_keeps_no_descriptor_witness:
  "set (ft_open (snd (process_Start table_os None sample_launch (sample_table [False, False, True])))) = {0, 1, 2} \<and>
   (case process_Start table_os None sample_launch (sample_table []) of
      (Inr p, t) \<Rightarrow> set (ft_open t) = {0, 1, 2} \<union> handles p \<and> pr_stdout p \<noteq> None | _ \<Rightarrow> False)"
proof -
  have cut: "isl (fst (process_Start table_os None sample_launch (sample_table [False, False, True])))"
    by code_simp
  have run: "\<not> isl (fst (process_Start table_os None sample_launch (sample_table [])))"
    by code_simp
  have before: "set (ft_open (sample_table fs)) = {0, 1, 2}" for fs by (simp add: sample_table_def)
  show ?thesis
  proof
    show "set (ft_open (snd (process_Start table_os None sample_launch (sample_table [False, False, True])))) = {0, 1, 2}"
      using cut launch_keeps_no_descriptor[OF table.descriptors_axioms,
          where ended = None and request = sample_launch and meanwhile = "[]" and draining = "[]" and w = "sample_table [False, False, True]"]
      unfolding before
      by (cases "process_Start table_os None sample_launch (sample_table [False, False, True])";
          cases "fst (process_Start table_os None sample_launch (sample_table [False, False, True]))") auto
    show "case process_Start table_os None sample_launch (sample_table []) of
        (Inr p, t) \<Rightarrow> set (ft_open t) = {0, 1, 2} \<union> handles p \<and> pr_stdout p \<noteq> None | _ \<Rightarrow> False"
      using run launch_keeps_no_descriptor[OF table.descriptors_axioms,
          where ended = None and request = sample_launch and meanwhile = "[]" and draining = "[]" and w = "sample_table []"]
      unfolding before by (auto simp: sample_launch_def split: prod.splits sum.splits)
  qed
qed

definition sample_process :: process where
  "sample_process = \<lparr>pr_pid = 42, pr_stdin = 4, pr_stdout = Some 5, pr_stderr = 7,
     pr_waiting = False, pr_done = None, pr_tail = [], pr_tailClosed = False\<rparr>"

lemma sample_started: "process_Start table_os None sample_launch (sample_table []) =
    (Inr sample_process, snd (process_Start table_os None sample_launch (sample_table [])))"
  by code_simp

theorem stderr_tail_is_the_end_witness:
  "pr_tail (process_runs [StderrRead ''fatal: '' False, Exited None None, StderrRead ''out of tokens'' True] sample_process) =
     last_bytes stderrTailBytes ''fatal: out of tokens''"
  using stderr_tail_is_the_end[OF sample_started, of "[StderrRead ''fatal: '' False, Exited None None, StderrRead ''out of tokens'' True]"]
  by (simp del: process_runs_simps)

text \<open>The process outlives its grace and dies of the second signal.\<close>



theorem exit_reason_reaches_client_witness:
  "\<exists>data. TurnFailed ''agent'' (fst (TransportFailure ([Exited (Some (3, None)) None], Reaped) [] ''agent'' None None
      (process_runs [StderrRead ''no route'' True] sample_process))) = InternalError data \<and>
    map_of data FieldMessage = Some (AString (TrimSpace (drop_invalid ''agent exited with status 3: no route'')))"
proof -
  define q where "q = sample_process\<lparr>pr_tail := ''no route'', pr_tailClosed := True, pr_waiting := True,
    pr_done := Some (\<lparr>xr_ExitCode = 3, xr_Signal = 0\<rparr>, None)\<rparr>"
  have wait: "process_Wait ([Exited (Some (3, None)) None], Reaped) (process_runs [StderrRead ''no route'' True] sample_process) =
      ((\<lparr>xr_ExitCode = 3, xr_Signal = 0\<rparr>, None), q)"
    by (simp add: process_Wait_def Let_def sample_process_def beginWait_def drain_step_def keep_tail_def stderrTailBytes_def reap_def q_def)
  have tail: "fst (StderrTail [] q) = ''no route''"
    by (simp add: StderrTail_def q_def flushStderr_def Let_def) code_simp
  have sentence: "exit_sentence ''agent'' \<lparr>xr_ExitCode = 3, xr_Signal = 0\<rparr> = ''agent exited with status 3''"
    by code_simp
  show ?thesis
    using exit_reason_reaches_client[OF sample_started _ wait, of "''agent''" "''agent''" "[]" None None]
    by (auto simp: tail sentence)
qed

end
