(* ===== verification/Structs.thy ===== *)
theory Structs
  imports Negotiation Rfc3339
begin

text \<open>
  \<open>json.Unmarshal\<close> into the structs the usage readers declare, and decimal numbers as \<open>float64\<close> values.  A decoder
  takes a document and the value its target holds, as the library does: a member that is repeated is
  decoded into what the earlier one left, and a null changes nothing but a pointer or a slice.  \<open>None\<close> is any error;
  the readers drop the target then.
\<close>

section \<open>Floats\<close>

definition pow2 :: "int \<Rightarrow> rat" where
  "pow2 k = (if 0 \<le> k then 2 ^ nat k else 1 / 2 ^ nat (- k))"

text \<open>The exponent \<open>e\<close> with \<open>2^e \<le> q < 2^(e+1)\<close>, from the lengths of numerator and denominator.\<close>

fun bit_length :: "nat \<Rightarrow> nat" where
  "bit_length n = (if n = 0 then 0 else Suc (bit_length (n div 2)))"

declare bit_length.simps [simp del]

definition binary_exponent :: "rat \<Rightarrow> int" where
  "binary_exponent q =
     (let (n, d) = quotient_of q; e = int (bit_length (nat n)) - int (bit_length (nat d))
      in if pow2 e \<le> q then e else e - 1)"

definition half_even :: "rat \<Rightarrow> int" where
  "half_even q =
     (let m = \<lfloor>q\<rfloor>; rest = q - of_int m
      in if rest < 1 / 2 then m else if rest > 1 / 2 then m + 1 else if even m then m else m + 1)"

text \<open>The nearest value of 53 bits, ties to even, gradual underflow, and infinity from \<open>2^1024\<close> on.\<close>

definition round_float :: "rat \<Rightarrow> float64" where
  "round_float q =
     (if q = 0 then Finite 0
      else (let ulp = max (binary_exponent \<bar>q\<bar> - 52) (- 1074);
                v = of_int (half_even (\<bar>q\<bar> / pow2 ulp)) * pow2 ulp
            in if v \<ge> pow2 1024 then Infinite (q > 0) else Finite (if q > 0 then v else - v)))"

text \<open>The value of a number's text, which JSON has found well formed.\<close>

definition decimal_value :: "string \<Rightarrow> rat" where
  "decimal_value text =
     (let negative = take 1 text = ''-'';
          body = (if negative then drop 1 text else text);
          mantissa = before_any is_exp_mark body; exponent = after_any is_exp_mark body;
          integral = before_any (\<lambda>c. c = CHR ''.'') mantissa; decimals = after_any (\<lambda>c. c = CHR ''.'') mantissa;
          scale = (if take 1 exponent = ''-'' then - int (digits_value (drop 1 exponent))
                   else int (digits_value (if take 1 exponent = ''+'' then drop 1 exponent else exponent))) - int (length decimals);
          v = rat_of_nat (digits_value (integral @ decimals)) * (if 0 \<le> scale then 10 ^ nat scale else 1 / 10 ^ nat (- scale))
      in if negative then - v else v)"

definition parse_float :: "string \<Rightarrow> float64" where
  "parse_float text = round_float (decimal_value text)"

fun scaled :: "(rat \<Rightarrow> rat) \<Rightarrow> float64 \<Rightarrow> float64" where
  "scaled f (Finite q) = round_float (f q)"
| "scaled f v = v"

section \<open>Names of members\<close>

text \<open>The folding a name is compared under: ASCII letters, and the two characters that fold to one.\<close>

fun fold_name :: "string \<Rightarrow> string" where
  "fold_name (a # b # c # s) =
     (if a = CHR 0xC5 \<and> b = CHR 0xBF then CHR ''s'' # fold_name (c # s)
      else if a = CHR 0xE2 \<and> b = CHR 0x84 \<and> c = CHR 0xAA then CHR ''k'' # fold_name s
      else ascii_lower a # fold_name (b # c # s))"
| "fold_name [a, b] = (if a = CHR 0xC5 \<and> b = CHR 0xBF then ''s'' else [ascii_lower a, ascii_lower b])"
| "fold_name [a] = [ascii_lower a]"
| "fold_name [] = []"

text \<open>A struct's field for a member: the one of its exact name, else the first whose name folds to it.\<close>

definition field_for :: "(string \<times> 'f) list \<Rightarrow> string \<Rightarrow> 'f option" where
  "field_for named name =
     (case map_of named name of
        Some f \<Rightarrow> Some f
      | None \<Rightarrow> map_option snd (find (\<lambda>(field, f). fold_name field = fold_name name) named))"

section \<open>Decoders\<close>

type_synonym 'a decode_into = "json \<Rightarrow> 'a \<Rightarrow> 'a option"

fun into_members :: "(string \<times> 's decode_into) list \<Rightarrow> members \<Rightarrow> 's \<Rightarrow> 's option" where
  "into_members named [] s = Some s"
| "into_members named ((name, v) # ms) s =
     (case field_for named name of
        None \<Rightarrow> into_members named ms s
      | Some f \<Rightarrow> Option.bind (f v s) (into_members named ms))"

fun into_struct :: "(string \<times> 's decode_into) list \<Rightarrow> 's decode_into" where
  "into_struct named (JObj n ms) s = into_members named ms s"
| "into_struct named JNull s = Some s"
| "into_struct named v s = None"

definition into_pointer :: "'a \<Rightarrow> 'a decode_into \<Rightarrow> 'a option decode_into" where
  "into_pointer fresh dec v s =
     (if v = JNull then Some None else map_option Some (dec v (case s of None \<Rightarrow> fresh | Some x \<Rightarrow> x)))"

text \<open>An element is decoded into the one the slice held at its index; the slice is then cut to the array's length.\<close>

fun into_elements :: "'a \<Rightarrow> 'a decode_into \<Rightarrow> json list \<Rightarrow> 'a list \<Rightarrow> 'a list option" where
  "into_elements fresh dec [] xs = Some []"
| "into_elements fresh dec (v # vs) xs =
     Option.bind (dec v (case xs of [] \<Rightarrow> fresh | x # rest \<Rightarrow> x))
       (\<lambda>x. map_option ((#) x) (into_elements fresh dec vs (tl xs)))"

fun into_slice :: "'a \<Rightarrow> 'a decode_into \<Rightarrow> 'a list option decode_into" where
  "into_slice fresh dec JNull xs = Some None"
| "into_slice fresh dec (JArr vs) xs = map_option Some (into_elements fresh dec vs (case xs of None \<Rightarrow> [] | Some ys \<Rightarrow> ys))"
| "into_slice fresh dec v xs = None"

fun into_string :: "string decode_into" where
  "into_string (JStr s) t = Some s"
| "into_string JNull t = Some t"
| "into_string v t = None"

fun into_bool :: "bool decode_into" where
  "into_bool (JBool b) c = Some b"
| "into_bool JNull c = Some c"
| "into_bool v c = None"

fun into_int :: "int decode_into" where
  "into_int (JNum l) i = parse_int l"
| "into_int JNull i = Some i"
| "into_int v i = None"

fun into_float :: "float64 decode_into" where
  "into_float (JNum l) x = (case parse_float l of Finite q \<Rightarrow> Some (Finite q) | _ \<Rightarrow> None)"
| "into_float JNull x = Some x"
| "into_float v x = None"

text \<open>\<open>isValidNumber\<close>: the number grammar of JSON, which a string must match to become a \<open>json.Number\<close>.\<close>

definition valid_exponent :: "string \<Rightarrow> bool" where
  "valid_exponent s \<longleftrightarrow>
     s = [] \<or> is_exp_mark (hd s) \<and>
       (let ds = (if take 1 (tl s) = ''+'' \<or> take 1 (tl s) = ''-'' then tl (tl s) else tl s) in ds \<noteq> [] \<and> list_all is_digit ds)"

definition valid_number :: "string \<Rightarrow> bool" where
  "valid_number s \<longleftrightarrow>
     (let s = (if take 1 s = ''-'' then drop 1 s else s);
          integral = takeWhile is_digit s; s = dropWhile is_digit s;
          decimals = takeWhile is_digit (tl s)
      in integral \<noteq> [] \<and> (hd integral = CHR ''0'' \<longrightarrow> length integral = 1) \<and>
         (if take 1 s = ''.'' then decimals \<noteq> [] \<and> valid_exponent (dropWhile is_digit (tl s)) else valid_exponent s))"

fun into_number :: "string decode_into" where
  "into_number (JNum l) n = Some l"
| "into_number (JStr s) n = (if valid_number s then Some s else None)"
| "into_number JNull n = Some n"
| "into_number v n = None"

text \<open>\<open>time.Time\<close> reads its own text, a null excepted, more strictly than \<open>time.Parse\<close>: two digits of the hour, a
  point before the fraction, a zone within a day.\<close>

definition two_digits :: "string \<Rightarrow> nat" where
  "two_digits s = digits_value (take 2 s)"

definition strict_time :: "string \<Rightarrow> instant option" where
  "strict_time s =
     (case time_Parse s of
        None \<Rightarrow> None
      | Some t \<Rightarrow>
          if s ! 12 = CHR '':'' \<or> s ! 19 = CHR '','' then None
          else if last s \<noteq> CHR ''Z'' \<and> (two_digits (drop (length s - 5) s) \<ge> 24 \<or> two_digits (drop (length s - 2) s) \<ge> 60) then None
          else Some t)"

fun into_time :: "instant decode_into" where
  "into_time (JStr s) t = strict_time s"
| "into_time JNull t = Some t"
| "into_time v t = None"

definition on_field :: "('s \<Rightarrow> 'a) \<Rightarrow> ('a \<Rightarrow> 's \<Rightarrow> 's) \<Rightarrow> 'a decode_into \<Rightarrow> 's decode_into" where
  "on_field get put dec v s = map_option (\<lambda>x. put x s) (dec v (get s))"

end
