(* ===== verification/Readers.thy ===== *)
theory Readers
  imports Structs AccountUsage Titles Urls
begin

text \<open>
  The native usage readers: usage/internal/usagehttp/client.go, anthropic/reader.go and observation.go,
  openrouter/reader.go, openaicodex/reader.go and opencodego/reader.go.  What a reader asks of its
  surroundings is a record of calls on a world \<open>'w\<close>: whether the context ended, the clock, one request.  The
  client's \<open>CheckRedirect\<close> answers every redirect with \<open>http.ErrUseLastResponse\<close>, so a request is one round
  trip and a redirect is an answer like any other; that the context ends after ten seconds is one of the ways it ends.  \<open>parse\<close> is the
  document a body spells, \<open>http_time\<close> is \<open>http.ParseTime\<close>.
\<close>

section \<open>One request\<close>

record http_request =
  hq_URL :: string
  hq_Headers :: "(string \<times> string) list"

record http_answer =
  ha_StatusCode :: int
  ha_RetryAfter :: string
  ha_Body :: string
  ha_Complete :: bool

record 'w usage_env =
  ue_Ended :: "'w \<Rightarrow> string option \<times> 'w"
  ue_Now :: "'w \<Rightarrow> instant \<times> 'w"
  ue_Do :: "http_request \<Rightarrow> 'w \<Rightarrow> http_answer option \<times> 'w"
  ue_parse :: "string \<Rightarrow> json option"
  ue_http_time :: "string \<Rightarrow> instant option"
  ue_ip6 :: "string \<Rightarrow> bool"

record usage_response =
  rp_Body :: string
  rp_StatusCode :: int
  rp_ObservedAt :: instant
  rp_RetryAt :: instant

datatype read_error =
    ReadEnded string | InvalidEndpoint | RequestFailed | BodyBound | InvalidBody | HTTPStatus int instant
  | Incomplete string | NotValid usage_error | BaseNotOrigin | RoutesChanged | ResolveFailed string

definition maxBodyBytes :: nat where "maxBodyBytes = 64 * 1024"

definition StatusOK :: int where "StatusOK = 200"
definition StatusUnauthorized :: int where "StatusUnauthorized = 401"
definition StatusForbidden :: int where "StatusForbidden = 403"
definition StatusNotFound :: int where "StatusNotFound = 404"

definition instant_after :: "instant \<Rightarrow> instant \<Rightarrow> bool" where
  "instant_after a b \<longleftrightarrow> in_Seconds a > in_Seconds b \<or> in_Seconds a = in_Seconds b \<and> in_Nanos a > in_Nanos b"

definition retryAt :: "(string \<Rightarrow> instant option) \<Rightarrow> string \<Rightarrow> instant \<Rightarrow> instant" where
  "retryAt http_time v now =
     (let v = TrimSpace v
      in case read_nat v of
           Some seconds \<Rightarrow>
             if seconds < 2 ^ 32 then \<lparr>in_Seconds = in_Seconds now + int seconds + 1, in_Nanos = 0\<rparr>
             else (case http_time v of Some t \<Rightarrow> if instant_after t now then t else zero_time | None \<Rightarrow> zero_time)
         | None \<Rightarrow> (case http_time v of Some t \<Rightarrow> if instant_after t now then t else zero_time | None \<Rightarrow> zero_time))"

text \<open>\<open>Header.Set\<close> and \<open>maps.Copy\<close>: a name has one value, the last.\<close>

definition usage_headers :: "string \<Rightarrow> (string \<times> string) list \<Rightarrow> (string \<times> string) list" where
  "usage_headers token extra =
     fold (\<lambda>(name, v). AList.update name v) extra
       [(''Authorization'', ''Bearer '' @ token), (''Accept'', ''application/json''), (''User-Agent'', ''acp-go-core/usage'')]"

definition GetWithin :: "'w usage_env \<Rightarrow> string \<Rightarrow> string \<Rightarrow> (string \<times> string) list \<Rightarrow> nat \<Rightarrow> 'w \<Rightarrow> (read_error + usage_response) \<times> 'w" where
  "GetWithin env endpoint token extra maxBytes w =
     (case ue_Ended env w of
        (Some e, w) \<Rightarrow> (Inl (ReadEnded e), w)
      | (None, w) \<Rightarrow>
          if TrimSpace token = [] then
            (case ue_Now env w of
               (now, w) \<Rightarrow> (Inr \<lparr>rp_Body = [], rp_StatusCode = StatusUnauthorized, rp_ObservedAt = now, rp_RetryAt = zero_time\<rparr>, w))
          else if url_Parse (ue_ip6 env) endpoint = None then (Inl InvalidEndpoint, w)
          else (case ue_Do env \<lparr>hq_URL = endpoint, hq_Headers = usage_headers token extra\<rparr> w of
                  (None, w) \<Rightarrow>
                    (case ue_Ended env w of (Some e, w) \<Rightarrow> (Inl (ReadEnded e), w) | (None, w) \<Rightarrow> (Inl RequestFailed, w))
                | (Some answer, w) \<Rightarrow>
                    (case ue_Now env w of
                       (now, w) \<Rightarrow>
                         (case ue_Ended env w of
                            (Some e, w) \<Rightarrow> (Inl (ReadEnded e), w)
                          | (None, w) \<Rightarrow>
                              if \<not> ha_Complete answer \<or> length (ha_Body answer) > maxBytes then (Inl BodyBound, w)
                              else (Inr \<lparr>rp_Body = ha_Body answer, rp_StatusCode = ha_StatusCode answer, rp_ObservedAt = now,
                                         rp_RetryAt = retryAt (ue_http_time env) (ha_RetryAfter answer) now\<rparr>, w)))))"

definition usage_Get :: "'w usage_env \<Rightarrow> string \<Rightarrow> string \<Rightarrow> (string \<times> string) list \<Rightarrow> 'w \<Rightarrow> (read_error + usage_response) \<times> 'w" where
  "usage_Get env endpoint token extra w = GetWithin env endpoint token extra maxBodyBytes w"

definition response_Decode :: "'w usage_env \<Rightarrow> 'a decode_into \<Rightarrow> 'a \<Rightarrow> usage_response \<Rightarrow> 'a option" where
  "response_Decode env dec fresh r = Option.bind (ue_parse env (rp_Body r)) (\<lambda>document. dec document fresh)"

definition refused_status :: "usage_response \<Rightarrow> read_error" where
  "refused_status r = HTTPStatus (rp_StatusCode r) (rp_RetryAt r)"

definition validated :: "AccountUsageResponse \<Rightarrow> read_error + AccountUsageResponse" where
  "validated r = (case Validate r of None \<Rightarrow> Inr r | Some e \<Rightarrow> Inl (NotValid e))"

definition finite_nonnegative :: "float64 \<Rightarrow> bool" where
  "finite_nonnegative v \<longleftrightarrow> finite_float v \<and> \<not> negative_float v"

definition dollars :: "float64 \<Rightarrow> AccountUsageMoney" where
  "dollars amount = \<lparr>am_Amount = amount, am_Currency = ''USD''\<rparr>"

definition available :: "string \<Rightarrow> bool option \<Rightarrow> AccountUsageLimit list \<Rightarrow> AccountUsageBalance list \<Rightarrow>
    AccountUsageRequestLimit list \<Rightarrow> AccountUsageResponse" where
  "available plan allowed limits balances requests =
     \<lparr>ar_Available = True, ar_Reason = [], ar_Plan = plan, ar_UsageAllowed = allowed, ar_Limits = limits, ar_Balances = balances,
      ar_RequestLimits = requests\<rparr>"

definition blank_balance :: "string \<Rightarrow> string \<Rightarrow> string \<Rightarrow> AccountUsageBalance" where
  "blank_balance bid label observed =
     \<lparr>ab_ID = bid, ab_Label = label, ab_ObservedAt = observed, ab_Used = None, ab_Limit = None, ab_Remaining = None,
      ab_Uncapped = False, ab_ResetInterval = [], ab_ResetsAt = []\<rparr>"

section \<open>Anthropic\<close>

record claude_money =
  cm_AmountMinor :: "float64 option"
  cm_Currency :: string
  cm_Exponent :: "int option"

record claude_spend =
  cs_Enabled :: bool
  cs_Used :: "claude_money option"
  cs_Limit :: "claude_money option"

text \<open>A scope is its model, which is its display name.\<close>

record claude_limit =
  cl_Kind :: string
  cl_Percent :: "float64 option"
  cl_ResetsAt :: string
  cl_Scope :: "string option option"

record claude_observation =
  co_Limits :: "claude_limit list option"
  co_Spend :: "claude_spend option"

definition into_claude_money :: "claude_money decode_into" where
  "into_claude_money = into_struct
     [(''amount_minor'', on_field cm_AmountMinor (\<lambda>x s. s\<lparr>cm_AmountMinor := x\<rparr>) (into_pointer (Finite 0) into_float)),
      (''currency'', on_field cm_Currency (\<lambda>x s. s\<lparr>cm_Currency := x\<rparr>) into_string),
      (''exponent'', on_field cm_Exponent (\<lambda>x s. s\<lparr>cm_Exponent := x\<rparr>) (into_pointer 0 into_int))]"

definition no_claude_money :: claude_money where
  "no_claude_money = \<lparr>cm_AmountMinor = None, cm_Currency = [], cm_Exponent = None\<rparr>"

definition into_claude_spend :: "claude_spend decode_into" where
  "into_claude_spend = into_struct
     [(''enabled'', on_field cs_Enabled (\<lambda>x s. s\<lparr>cs_Enabled := x\<rparr>) into_bool),
      (''used'', on_field cs_Used (\<lambda>x s. s\<lparr>cs_Used := x\<rparr>) (into_pointer no_claude_money into_claude_money)),
      (''limit'', on_field cs_Limit (\<lambda>x s. s\<lparr>cs_Limit := x\<rparr>) (into_pointer no_claude_money into_claude_money))]"

definition into_claude_limit :: "claude_limit decode_into" where
  "into_claude_limit = into_struct
     [(''kind'', on_field cl_Kind (\<lambda>x s. s\<lparr>cl_Kind := x\<rparr>) into_string),
      (''percent'', on_field cl_Percent (\<lambda>x s. s\<lparr>cl_Percent := x\<rparr>) (into_pointer (Finite 0) into_float)),
      (''resets_at'', on_field cl_ResetsAt (\<lambda>x s. s\<lparr>cl_ResetsAt := x\<rparr>) into_string),
      (''scope'', on_field cl_Scope (\<lambda>x s. s\<lparr>cl_Scope := x\<rparr>) (into_pointer None
         (into_struct [(''model'', into_pointer [] (into_struct [(''display_name'', into_string)]))])))]"

definition no_claude_limit :: claude_limit where
  "no_claude_limit = \<lparr>cl_Kind = [], cl_Percent = None, cl_ResetsAt = [], cl_Scope = None\<rparr>"

definition into_observation :: "claude_observation decode_into" where
  "into_observation = into_struct
     [(''limits'', on_field co_Limits (\<lambda>x s. s\<lparr>co_Limits := x\<rparr>) (into_slice no_claude_limit into_claude_limit)),
      (''spend'', on_field co_Spend (\<lambda>x s. s\<lparr>co_Spend := x\<rparr>)
         (into_pointer \<lparr>cs_Enabled = False, cs_Used = None, cs_Limit = None\<rparr> into_claude_spend))]"

definition claude_money :: "claude_money option \<Rightarrow> read_error + AccountUsageMoney option" where
  "claude_money m =
     (case m of
        None \<Rightarrow> Inr None
      | Some m \<Rightarrow>
          (case (cm_AmountMinor m, cm_Exponent m) of
             (Some minor, Some exponent) \<Rightarrow>
               if exponent < 0 \<or> exponent > 9 then Inl (Incomplete ''money unit'')
               else Inr (Some \<lparr>am_Amount = scaled (\<lambda>q. q / 10 ^ nat exponent) minor, am_Currency = cm_Currency m\<rparr>)
           | _ \<Rightarrow> Inl (Incomplete ''money unit'')))"

definition claude_window :: "string \<Rightarrow> claude_limit \<Rightarrow> read_error + AccountUsageLimit" where
  "claude_window observed limit =
     (case cl_Percent limit of
        None \<Rightarrow> Inl (Incomplete ''usage percentage'')
      | Some percent \<Rightarrow>
          (let label = (case cl_Scope limit of Some (Some name) \<Rightarrow> TrimSpace name | _ \<Rightarrow> []);
               entry = \<lparr>al_ObservedAt = observed,
                        al_ID = TrimSpace (cl_Kind limit) @ (if label \<noteq> [] then CHR ''/'' # label else []),
                        al_Label = label, al_WindowSeconds = 0, al_UsedPercent = percent, al_UsageAllowed = None, al_ResetsAt = []\<rparr>
           in if cl_ResetsAt limit = [] then Inr entry
              else (case time_Parse (cl_ResetsAt limit) of
                      None \<Rightarrow> Inl (Incomplete ''reset time'')
                    | Some t \<Rightarrow> Inr (entry\<lparr>al_ResetsAt := AccountUsageTime t\<rparr>))))"

fun claude_windows :: "string \<Rightarrow> claude_limit list \<Rightarrow> read_error + AccountUsageLimit list" where
  "claude_windows observed [] = Inr []"
| "claude_windows observed (limit # limits) =
     (case claude_window observed limit of
        Inl e \<Rightarrow> Inl e
      | Inr entry \<Rightarrow> map_sum id ((#) entry) (claude_windows observed limits))"

definition claude_credits :: "string \<Rightarrow> claude_spend option \<Rightarrow> read_error + AccountUsageBalance list" where
  "claude_credits observed spend =
     (case spend of
        None \<Rightarrow> Inr []
      | Some spend \<Rightarrow>
          if cs_Enabled spend \<and> cs_Used spend \<noteq> None then
            (case claude_money (cs_Used spend) of
               Inl e \<Rightarrow> Inl e
             | Inr used \<Rightarrow>
                 (case claude_money (cs_Limit spend) of
                    Inl e \<Rightarrow> Inl e
                  | Inr limit \<Rightarrow> Inr [(blank_balance ''usage_credits'' [] observed)\<lparr>ab_Used := used, ab_Limit := limit\<rparr>]))
          else Inr [])"

definition observation_Response :: "claude_observation \<Rightarrow> string \<Rightarrow> instant \<Rightarrow> read_error + AccountUsageResponse" where
  "observation_Response observation plan observedAt =
     (let observed = AccountUsageTime observedAt
      in case claude_windows observed (case co_Limits observation of None \<Rightarrow> [] | Some ls \<Rightarrow> ls) of
           Inl e \<Rightarrow> Inl e
         | Inr limits \<Rightarrow>
             (case claude_credits observed (co_Spend observation) of
                Inl e \<Rightarrow> Inl e
              | Inr balances \<Rightarrow>
                  if limits = [] \<and> balances = [] then Inr (AccountUsageUnavailable AccountUsageNotReported)
                  else validated (available (TrimSpace plan) None limits balances [])))"

definition anthropic_ProviderID :: string where "anthropic_ProviderID = ''anthropic''"
definition anthropic_Endpoint :: string where "anthropic_Endpoint = ''https://api.anthropic.com/api/oauth/usage''"

definition anthropic_Read :: "'w usage_env \<Rightarrow> Credential \<Rightarrow> 'w \<Rightarrow> (read_error + AccountUsageResponse) \<times> 'w" where
  "anthropic_Read env credential w =
     (case ue_Ended env w of
        (Some e, w) \<Rightarrow> (Inl (ReadEnded e), w)
      | (None, w) \<Rightarrow>
          if TrimSpace (ce_Token credential) = [] then (Inr (AccountUsageUnavailable AccountUsageNotAuthenticated), w)
          else if \<not> has_prefix (ce_Token credential) ''sk-ant-oat01-'' then (Inr (AccountUsageUnavailable AccountUsageNotReported), w)
          else (case usage_Get env anthropic_Endpoint (ce_Token credential) [(''Anthropic-Beta'', ''oauth-2025-04-20'')] w of
                  (Inl e, w) \<Rightarrow> (Inl e, w)
                | (Inr r, w) \<Rightarrow>
                    (if rp_StatusCode r = StatusUnauthorized then Inr (AccountUsageUnavailable AccountUsageNotAuthenticated)
                     else if rp_StatusCode r = StatusForbidden then Inr (AccountUsageUnavailable AccountUsageNotReported)
                     else if rp_StatusCode r \<noteq> StatusOK then Inl (refused_status r)
                     else case response_Decode env into_observation \<lparr>co_Limits = None, co_Spend = None\<rparr> r of
                            None \<Rightarrow> Inl InvalidBody
                          | Some observation \<Rightarrow> observation_Response observation [] (rp_ObservedAt r), w)))"

section \<open>OpenRouter\<close>

record key_requests =
  kr_Used :: "int option"
  kr_Limit :: "int option"
  kr_Remaining :: "int option"

text \<open>The limit is kept as it was written: absent, or a document.\<close>

record key_limits =
  kl_Limit :: "json option"
  kl_Remaining :: "float64 option"
  kl_Reset :: "string option"
  kl_Usage :: "float64 option"
  kl_FreeModels :: "key_requests option"

record key_credits =
  kc_TotalCredits :: "float64 option"
  kc_TotalUsage :: "float64 option"

definition into_raw :: "json option decode_into" where
  "into_raw v s = Some (Some v)"

definition into_key_requests :: "key_requests decode_into" where
  "into_key_requests = into_struct
     [(''used'', on_field kr_Used (\<lambda>x s. s\<lparr>kr_Used := x\<rparr>) (into_pointer 0 into_int)),
      (''limit'', on_field kr_Limit (\<lambda>x s. s\<lparr>kr_Limit := x\<rparr>) (into_pointer 0 into_int)),
      (''remaining'', on_field kr_Remaining (\<lambda>x s. s\<lparr>kr_Remaining := x\<rparr>) (into_pointer 0 into_int))]"

definition into_key_limits :: "key_limits decode_into" where
  "into_key_limits = into_struct
     [(''limit'', on_field kl_Limit (\<lambda>x s. s\<lparr>kl_Limit := x\<rparr>) into_raw),
      (''limit_remaining'', on_field kl_Remaining (\<lambda>x s. s\<lparr>kl_Remaining := x\<rparr>) (into_pointer (Finite 0) into_float)),
      (''limit_reset'', on_field kl_Reset (\<lambda>x s. s\<lparr>kl_Reset := x\<rparr>) (into_pointer [] into_string)),
      (''usage'', on_field kl_Usage (\<lambda>x s. s\<lparr>kl_Usage := x\<rparr>) (into_pointer (Finite 0) into_float)),
      (''free_model_daily_requests'', on_field kl_FreeModels (\<lambda>x s. s\<lparr>kl_FreeModels := x\<rparr>)
         (into_pointer \<lparr>kr_Used = None, kr_Limit = None, kr_Remaining = None\<rparr> into_key_requests))]"

definition into_key_credits :: "key_credits decode_into" where
  "into_key_credits = into_struct
     [(''total_credits'', on_field kc_TotalCredits (\<lambda>x s. s\<lparr>kc_TotalCredits := x\<rparr>) (into_pointer (Finite 0) into_float)),
      (''total_usage'', on_field kc_TotalUsage (\<lambda>x s. s\<lparr>kc_TotalUsage := x\<rparr>) (into_pointer (Finite 0) into_float))]"

text \<open>A body of one member, \<open>data\<close>, that points to a struct.\<close>

definition into_data :: "'a \<Rightarrow> 'a decode_into \<Rightarrow> 'a option decode_into" where
  "into_data fresh dec = into_struct [(''data'', into_pointer fresh dec)]"

definition key_requests_limit :: "string \<Rightarrow> key_requests option \<Rightarrow> read_error + AccountUsageRequestLimit list" where
  "key_requests_limit observed requests =
     (case requests of
        None \<Rightarrow> Inr []
      | Some r \<Rightarrow>
          (case (kr_Used r, kr_Limit r, kr_Remaining r) of
             (Some used, Some limit, Some remaining) \<Rightarrow>
               Inr [\<lparr>aq_ID = ''free_model_daily_requests'', aq_Label = ''Free-model requests'', aq_ObservedAt = observed,
                     aq_Used = used, aq_Limit = limit, aq_Remaining = remaining, aq_ResetInterval = ''daily'', aq_ResetsAt = []\<rparr>]
           | _ \<Rightarrow> Inl (Incomplete ''free-model request limit'')))"

definition key_balances :: "string \<Rightarrow> float64 \<Rightarrow> float64 option \<Rightarrow> float64 option \<Rightarrow> string option \<Rightarrow> AccountUsageBalance list" where
  "key_balances observed used limit remaining interval =
     (let budget = blank_balance ''key_spending'' ''Key spending'' observed
      in case limit of
           None \<Rightarrow> [budget\<lparr>ab_Uncapped := True, ab_Used := Some (dollars used)\<rparr>]
         | Some l \<Rightarrow>
             [budget\<lparr>ab_Limit := Some (dollars l), ab_Remaining := map_option dollars remaining,
                     ab_ResetInterval := (case interval of None \<Rightarrow> [] | Some r \<Rightarrow> r)\<rparr>,
              (blank_balance ''key_usage'' ''Key spend (all time)'' observed)\<lparr>ab_Used := Some (dollars used)\<rparr>])"

definition openrouter_decode :: "'w usage_env \<Rightarrow> usage_response \<Rightarrow> read_error + AccountUsageResponse" where
  "openrouter_decode env r =
     (case response_Decode env
        (into_data \<lparr>kl_Limit = None, kl_Remaining = None, kl_Reset = None, kl_Usage = None, kl_FreeModels = None\<rparr> into_key_limits) None r of
        None \<Rightarrow> Inl InvalidBody
      | Some None \<Rightarrow> Inl (Incomplete ''key usage'')
      | Some (Some key) \<Rightarrow>
          (case (kl_Limit key, kl_Usage key) of
             (Some document, Some used) \<Rightarrow>
               if \<not> finite_nonnegative used then Inl (Incomplete ''key usage'')
               else (case into_pointer (Finite 0) into_float document None of
                       None \<Rightarrow> Inl (Incomplete ''key limit'')
                     | Some limit \<Rightarrow>
                         if (limit = None) \<noteq> (kl_Remaining key = None) then Inl (Incomplete ''key limit'')
                         else (let observed = AccountUsageTime (rp_ObservedAt r)
                               in case key_requests_limit observed (kl_FreeModels key) of
                                    Inl e \<Rightarrow> Inl e
                                  | Inr requests \<Rightarrow>
                                      validated (available [] None []
                                        (key_balances observed used limit (kl_Remaining key) (kl_Reset key)) requests)))
           | _ \<Rightarrow> Inl (Incomplete ''key usage'')))"

definition openrouter_ProviderID :: string where "openrouter_ProviderID = ''openrouter''"
definition openrouter_Endpoint :: string where "openrouter_Endpoint = ''https://openrouter.ai/api/v1/key''"
definition openrouter_balanceEndpoint :: string where "openrouter_balanceEndpoint = ''https://openrouter.ai/api/v1/credits''"

text \<open>The difference of two finite values, rounded once.\<close>

fun float_minus :: "float64 \<Rightarrow> float64 \<Rightarrow> float64" where
  "float_minus (Finite p) (Finite q) = round_float (p - q)"
| "float_minus v w = NaN"

definition credits :: "'w usage_env \<Rightarrow> string \<Rightarrow> 'w \<Rightarrow> AccountUsageBalance option \<times> 'w" where
  "credits env apiKey w =
     (case usage_Get env openrouter_balanceEndpoint apiKey [] w of
        (Inl e, w) \<Rightarrow> (None, w)
      | (Inr r, w) \<Rightarrow>
          (if rp_StatusCode r \<noteq> StatusOK then None
           else case response_Decode env (into_data \<lparr>kc_TotalCredits = None, kc_TotalUsage = None\<rparr> into_key_credits) None r of
                  Some (Some c) \<Rightarrow>
                    (case (kc_TotalCredits c, kc_TotalUsage c) of
                       (Some purchased, Some used) \<Rightarrow>
                         if \<not> finite_nonnegative purchased \<or> \<not> finite_nonnegative used then None
                         else Some ((blank_balance ''account_credits'' ''Account credits'' (AccountUsageTime (rp_ObservedAt r)))
                                \<lparr>ab_Used := Some (dollars used), ab_Remaining := Some (dollars (float_minus purchased used))\<rparr>)
                     | _ \<Rightarrow> None)
                | _ \<Rightarrow> None, w))"

text \<open>The answer is returned with what its validation says.\<close>

definition openrouter_Read :: "'w usage_env \<Rightarrow> Credential \<Rightarrow> 'w \<Rightarrow> (read_error + AccountUsageResponse) \<times> 'w" where
  "openrouter_Read env credential w =
     (case usage_Get env openrouter_Endpoint (ce_Token credential) [] w of
        (Inl e, w) \<Rightarrow> (Inl e, w)
      | (Inr r, w) \<Rightarrow>
          if rp_StatusCode r = StatusUnauthorized then (Inr (AccountUsageUnavailable AccountUsageNotAuthenticated), w)
          else if rp_StatusCode r \<noteq> StatusOK then (Inl (refused_status r), w)
          else (case openrouter_decode env r of
                  Inl e \<Rightarrow> (Inl e, w)
                | Inr result \<Rightarrow>
                    (case credits env (ce_Token credential) w of
                       (balance, w) \<Rightarrow>
                         (case ue_Ended env w of
                            (Some e, w) \<Rightarrow> (Inl (ReadEnded e), w)
                          | (None, w) \<Rightarrow>
                              (validated (result\<lparr>ar_Balances := ar_Balances result @ (case balance of None \<Rightarrow> [] | Some b \<Rightarrow> [b])\<rparr>), w)))))"

section \<open>ChatGPT\<close>

record codex_window =
  cw_UsedPercent :: "float64 option"
  cw_Seconds :: int
  cw_ResetsAt :: int

record codex_rate_limit =
  cr_Allowed :: "bool option"
  cr_Primary :: "codex_window option"
  cr_Secondary :: "codex_window option"

record codex_allowance =
  ca_Name :: string
  ca_Feature :: string
  ca_Limit :: "codex_rate_limit option"

record codex_observation =
  cb_AccountID :: string
  cb_Plan :: string
  cb_Limit :: "codex_rate_limit option"
  cb_CodeReview :: "codex_rate_limit option"
  cb_Additional :: "codex_allowance list option"

definition no_codex_window :: codex_window where
  "no_codex_window = \<lparr>cw_UsedPercent = None, cw_Seconds = 0, cw_ResetsAt = 0\<rparr>"

definition no_codex_rate_limit :: codex_rate_limit where
  "no_codex_rate_limit = \<lparr>cr_Allowed = None, cr_Primary = None, cr_Secondary = None\<rparr>"

definition no_codex_allowance :: codex_allowance where
  "no_codex_allowance = \<lparr>ca_Name = [], ca_Feature = [], ca_Limit = None\<rparr>"

definition into_codex_window :: "codex_window decode_into" where
  "into_codex_window = into_struct
     [(''used_percent'', on_field cw_UsedPercent (\<lambda>x s. s\<lparr>cw_UsedPercent := x\<rparr>) (into_pointer (Finite 0) into_float)),
      (''limit_window_seconds'', on_field cw_Seconds (\<lambda>x s. s\<lparr>cw_Seconds := x\<rparr>) into_int),
      (''reset_at'', on_field cw_ResetsAt (\<lambda>x s. s\<lparr>cw_ResetsAt := x\<rparr>) into_int)]"

definition into_codex_rate_limit :: "codex_rate_limit decode_into" where
  "into_codex_rate_limit = into_struct
     [(''allowed'', on_field cr_Allowed (\<lambda>x s. s\<lparr>cr_Allowed := x\<rparr>) (into_pointer False into_bool)),
      (''primary_window'', on_field cr_Primary (\<lambda>x s. s\<lparr>cr_Primary := x\<rparr>) (into_pointer no_codex_window into_codex_window)),
      (''secondary_window'', on_field cr_Secondary (\<lambda>x s. s\<lparr>cr_Secondary := x\<rparr>) (into_pointer no_codex_window into_codex_window))]"

definition into_codex_allowance :: "codex_allowance decode_into" where
  "into_codex_allowance = into_struct
     [(''limit_name'', on_field ca_Name (\<lambda>x s. s\<lparr>ca_Name := x\<rparr>) into_string),
      (''metered_feature'', on_field ca_Feature (\<lambda>x s. s\<lparr>ca_Feature := x\<rparr>) into_string),
      (''rate_limit'', on_field ca_Limit (\<lambda>x s. s\<lparr>ca_Limit := x\<rparr>) (into_pointer no_codex_rate_limit into_codex_rate_limit))]"

definition into_codex_observation :: "codex_observation decode_into" where
  "into_codex_observation = into_struct
     [(''account_id'', on_field cb_AccountID (\<lambda>x s. s\<lparr>cb_AccountID := x\<rparr>) into_string),
      (''plan_type'', on_field cb_Plan (\<lambda>x s. s\<lparr>cb_Plan := x\<rparr>) into_string),
      (''rate_limit'', on_field cb_Limit (\<lambda>x s. s\<lparr>cb_Limit := x\<rparr>) (into_pointer no_codex_rate_limit into_codex_rate_limit)),
      (''code_review_rate_limit'', on_field cb_CodeReview (\<lambda>x s. s\<lparr>cb_CodeReview := x\<rparr>) (into_pointer no_codex_rate_limit into_codex_rate_limit)),
      (''additional_rate_limits'', on_field cb_Additional (\<lambda>x s. s\<lparr>cb_Additional := x\<rparr>) (into_slice no_codex_allowance into_codex_allowance))]"

text \<open>Seconds since 1970 as an instant, which counts from year 1.\<close>

definition unix_epoch :: int where "unix_epoch = 62135596800"

definition unix_instant :: "int \<Rightarrow> instant" where
  "unix_instant seconds = \<lparr>in_Seconds = seconds + unix_epoch, in_Nanos = 0\<rparr>"

definition codex_entry :: "string \<Rightarrow> codex_allowance \<Rightarrow> bool option \<Rightarrow> string \<Rightarrow> codex_window \<Rightarrow> read_error + AccountUsageLimit" where
  "codex_entry observed a allowed place w =
     (case cw_UsedPercent w of
        None \<Rightarrow> Inl (Incomplete ''window'')
      | Some percent \<Rightarrow>
          if cw_Seconds w < 0 then Inl (Incomplete ''window'')
          else Inr \<lparr>al_ObservedAt = observed, al_ID = ca_Feature a @ CHR ''/'' # place, al_Label = TrimSpace (ca_Name a),
                    al_WindowSeconds = cw_Seconds w, al_UsedPercent = percent, al_UsageAllowed = allowed,
                    al_ResetsAt = (if cw_ResetsAt w > 0 then AccountUsageTime (unix_instant (cw_ResetsAt w)) else [])\<rparr>)"

fun codex_entries :: "string \<Rightarrow> codex_allowance \<Rightarrow> bool option \<Rightarrow> (string \<times> codex_window option) list \<Rightarrow> read_error + AccountUsageLimit list" where
  "codex_entries observed a allowed [] = Inr []"
| "codex_entries observed a allowed ((place, None) # items) = codex_entries observed a allowed items"
| "codex_entries observed a allowed ((place, Some w) # items) =
     (case codex_entry observed a allowed place w of
        Inl e \<Rightarrow> Inl e
      | Inr entry \<Rightarrow> map_sum id ((#) entry) (codex_entries observed a allowed items))"

fun codex_limits :: "string \<Rightarrow> codex_allowance list \<Rightarrow> read_error + AccountUsageLimit list" where
  "codex_limits observed [] = Inr []"
| "codex_limits observed (a # as) =
     (case ca_Limit a of
        None \<Rightarrow> codex_limits observed as
      | Some limit \<Rightarrow>
          if ca_Feature a = [] \<or> ca_Feature a \<noteq> TrimSpace (ca_Feature a) then Inl (Incomplete ''limit identity'')
          else (case codex_entries observed a (cr_Allowed limit) [(''primary'', cr_Primary limit), (''secondary'', cr_Secondary limit)] of
                  Inl e \<Rightarrow> Inl e
                | Inr entries \<Rightarrow> map_sum id (append entries) (codex_limits observed as)))"

definition codex_decode :: "'w usage_env \<Rightarrow> usage_response \<Rightarrow> string \<Rightarrow> read_error + AccountUsageResponse" where
  "codex_decode env r accountID =
     (case response_Decode env into_codex_observation
        \<lparr>cb_AccountID = [], cb_Plan = [], cb_Limit = None, cb_CodeReview = None, cb_Additional = None\<rparr> r of
        None \<Rightarrow> Inl InvalidBody
      | Some body \<Rightarrow>
          if cb_AccountID body \<noteq> accountID \<or> TrimSpace (cb_Plan body) = [] then Inl (Incomplete ''account binding'')
          else (case codex_limits (AccountUsageTime (rp_ObservedAt r))
                  ([no_codex_allowance\<lparr>ca_Feature := ''codex'', ca_Limit := cb_Limit body\<rparr>,
                    no_codex_allowance\<lparr>ca_Feature := ''code_review'', ca_Limit := cb_CodeReview body\<rparr>] @
                   (case cb_Additional body of None \<Rightarrow> [] | Some as \<Rightarrow> as)) of
                  Inl e \<Rightarrow> Inl e
                | Inr [] \<Rightarrow> Inr (AccountUsageUnavailable AccountUsageNotReported)
                | Inr limits \<Rightarrow> validated (available (cb_Plan body) None limits [] [])))"

definition codex_ProviderID :: string where "codex_ProviderID = ''openai-codex''"
definition codex_Endpoint :: string where "codex_Endpoint = ''https://chatgpt.com/backend-api/wham/usage''"

definition codex_Read :: "'w usage_env \<Rightarrow> Credential \<Rightarrow> 'w \<Rightarrow> (read_error + AccountUsageResponse) \<times> 'w" where
  "codex_Read env credential w =
     (if TrimSpace (ce_Token credential) \<noteq> [] \<and> TrimSpace (ce_AccountID credential) = [] then (Inl (Incomplete ''account ID''), w)
      else case usage_Get env codex_Endpoint (ce_Token credential) [(''Chatgpt-Account-Id'', ce_AccountID credential)] w of
             (Inl e, w) \<Rightarrow> (Inl e, w)
           | (Inr r, w) \<Rightarrow>
               (if rp_StatusCode r = StatusUnauthorized then Inr (AccountUsageUnavailable AccountUsageNotAuthenticated)
                else if rp_StatusCode r \<noteq> StatusOK then Inl (refused_status r)
                else codex_decode env r (ce_AccountID credential), w))"

section \<open>OpenCode Go\<close>

record opencode_window =
  ow_Status :: string
  ow_Percent :: "float64 option"
  ow_ResetsAt :: instant

record opencode_usage =
  ou_Rolling :: "opencode_window option"
  ou_Weekly :: "opencode_window option"
  ou_Monthly :: "opencode_window option"

definition no_opencode_window :: opencode_window where
  "no_opencode_window = \<lparr>ow_Status = [], ow_Percent = None, ow_ResetsAt = zero_time\<rparr>"

definition into_opencode_window :: "opencode_window decode_into" where
  "into_opencode_window = into_struct
     [(''status'', on_field ow_Status (\<lambda>x s. s\<lparr>ow_Status := x\<rparr>) into_string),
      (''percent'', on_field ow_Percent (\<lambda>x s. s\<lparr>ow_Percent := x\<rparr>) (into_pointer (Finite 0) into_float)),
      (''resetsAt'', on_field ow_ResetsAt (\<lambda>x s. s\<lparr>ow_ResetsAt := x\<rparr>) into_time)]"

definition into_opencode_usage :: "opencode_usage option decode_into" where
  "into_opencode_usage = into_struct
     [(''usage'', into_pointer \<lparr>ou_Rolling = None, ou_Weekly = None, ou_Monthly = None\<rparr> (into_struct
        [(''rolling'', on_field ou_Rolling (\<lambda>x s. s\<lparr>ou_Rolling := x\<rparr>) (into_pointer no_opencode_window into_opencode_window)),
         (''weekly'', on_field ou_Weekly (\<lambda>x s. s\<lparr>ou_Weekly := x\<rparr>) (into_pointer no_opencode_window into_opencode_window)),
         (''monthly'', on_field ou_Monthly (\<lambda>x s. s\<lparr>ou_Monthly := x\<rparr>) (into_pointer no_opencode_window into_opencode_window))]))]"

text \<open>The type a refusal states; its structs are values, not pointers.\<close>

definition into_refusal :: "string decode_into" where
  "into_refusal = into_struct [(''error'', into_struct [(''type'', into_string)])]"

fun opencode_limits :: "string \<Rightarrow> (string \<times> string \<times> opencode_window option) list \<Rightarrow> read_error + AccountUsageLimit list" where
  "opencode_limits observed [] = Inr []"
| "opencode_limits observed ((wid, label, window) # items) =
     (case window of
        None \<Rightarrow> Inl (Incomplete ''window'')
      | Some w \<Rightarrow>
          (case ow_Percent w of
             None \<Rightarrow> Inl (Incomplete ''window'')
           | Some percent \<Rightarrow>
               if ow_ResetsAt w = zero_time \<or> (ow_Status w \<noteq> ''ok'' \<and> ow_Status w \<noteq> ''rate-limited'') then Inl (Incomplete ''window'')
               else map_sum id
                      ((#) \<lparr>al_ObservedAt = observed, al_ID = wid, al_Label = label, al_WindowSeconds = 0, al_UsedPercent = percent,
                            al_UsageAllowed = Some (ow_Status w = ''ok''), al_ResetsAt = AccountUsageTime (ow_ResetsAt w)\<rparr>)
                      (opencode_limits observed items)))"

definition opencode_decode :: "'w usage_env \<Rightarrow> usage_response \<Rightarrow> read_error + AccountUsageResponse" where
  "opencode_decode env r =
     (case response_Decode env into_opencode_usage None r of
        None \<Rightarrow> Inl InvalidBody
      | Some None \<Rightarrow> Inl (Incomplete ''windows'')
      | Some (Some u) \<Rightarrow>
          (case opencode_limits (AccountUsageTime (rp_ObservedAt r))
             [(''rolling'', ''Rolling'', ou_Rolling u), (''weekly'', ''Weekly'', ou_Weekly u), (''monthly'', ''Monthly'', ou_Monthly u)] of
             Inl e \<Rightarrow> Inl e
           | Inr limits \<Rightarrow> validated (available [] None limits [] [])))"

definition opencode_ProviderID :: string where "opencode_ProviderID = ''opencode-go''"
definition opencode_Endpoint :: string where "opencode_Endpoint = ''https://opencode.ai/zen/go/v1/usage''"

definition opencode_Read :: "'w usage_env \<Rightarrow> Credential \<Rightarrow> 'w \<Rightarrow> (read_error + AccountUsageResponse) \<times> 'w" where
  "opencode_Read env credential w =
     (case usage_Get env opencode_Endpoint (ce_Token credential) [] w of
        (Inl e, w) \<Rightarrow> (Inl e, w)
      | (Inr r, w) \<Rightarrow>
          (if rp_StatusCode r = StatusUnauthorized then Inr (AccountUsageUnavailable AccountUsageNotAuthenticated)
           else if rp_StatusCode r = StatusForbidden \<and> response_Decode env into_refusal [] r = Some ''EntitlementError'' then
             Inr (AccountUsageUnavailable AccountUsageNotReported)
           else if rp_StatusCode r = StatusOK then opencode_decode env r
           else Inl (refused_status r), w))"

end
