(* ===== verification/Gateway.thy ===== *)
theory Gateway
  imports Readers
begin

text \<open>
  usage/gateway/reader.go: the usage report and the model list a forwarding gateway publishes, projected onto the
  account of one provider, over the routes a harness is configured with.
\<close>

section \<open>Addresses\<close>

definition usagePath :: string where "usagePath = ''/v1/usage''"
definition modelsPath :: string where "modelsPath = ''/v1/models''"
definition modelsMaxBytes :: nat where "modelsMaxBytes = 8 * 1048576"
definition currencyUSD :: string where "currencyUSD = ''USD''"
definition windowFiveHour :: string where "windowFiveHour = ''5h''"
definition windowSevenDay :: string where "windowSevenDay = ''7d''"
definition windowMonthly :: string where "windowMonthly = ''monthly''"

definition trim_suffix :: "string \<Rightarrow> string \<Rightarrow> string" where
  "trim_suffix s ending = (if length ending \<le> length s \<and> drop (length s - length ending) s = ending then take (length s - length ending) s else s)"

text \<open>The characters \<open>URL.String\<close> leaves as they are in a path and in a host; others are escaped by byte.\<close>

definition hex_digit :: "nat \<Rightarrow> char" where
  "hex_digit n = (if n < 10 then char_of (48 + n) else char_of (55 + n))"

definition url_escape :: "(char \<Rightarrow> bool) \<Rightarrow> string \<Rightarrow> string" where
  "url_escape plain s =
     concat (map (\<lambda>c. if plain c then [c] else [CHR ''%'', hex_digit (of_char c div 16), hex_digit (of_char c mod 16)]) s)"

definition plain_in_path :: "char \<Rightarrow> bool" where
  "plain_in_path c \<longleftrightarrow> is_letter c \<or> is_digit c \<or> c \<in> set ''-_.~$&+,/:;=@''"

definition plain_in_host :: "char \<Rightarrow> bool" where
  "plain_in_host c \<longleftrightarrow> host_char c"

text \<open>What the code asks of a parsed base beyond \<open>url\<close>: a user, a query and a fragment, and a query that is only its mark.\<close>

record base_parts =
  bp_url :: url
  bp_User :: bool
  bp_RawQuery :: string
  bp_ForceQuery :: bool
  bp_Fragment :: string

definition base_Parse :: "(string \<Rightarrow> bool) \<Rightarrow> string \<Rightarrow> base_parts option" where
  "base_Parse ip6 raw =
     (let address = before_first (CHR ''#'') raw;
          rest = (case getScheme address of None \<Rightarrow> [] | Some (scheme, rest) \<Rightarrow> rest);
          hierarchy = before_first (CHR ''?'') rest;
          query = drop (Suc (length hierarchy)) rest
      in map_option
           (\<lambda>u. \<lparr>bp_url = u,
                 bp_User = (has_prefix2 hierarchy \<and> CHR ''@'' \<in> set (before_first (CHR ''/'') (drop 2 hierarchy))),
                 bp_RawQuery = query, bp_ForceQuery = (CHR ''?'' \<in> set rest \<and> query = []),
                 bp_Fragment = drop (Suc (length address)) raw\<rparr>)
           (url_Parse ip6 raw))"

definition gateway_origin :: "base_parts \<Rightarrow> bool" where
  "gateway_origin p \<longleftrightarrow>
     (ur_Scheme (bp_url p) = ''http'' \<or> ur_Scheme (bp_url p) = ''https'') \<and> ur_Host (bp_url p) \<noteq> [] \<and>
     \<not> bp_User p \<and> bp_RawQuery p = [] \<and> bp_Fragment p = []"

definition base_String :: "base_parts \<Rightarrow> string \<Rightarrow> string" where
  "base_String p path =
     ur_Scheme (bp_url p) @ ''://'' @ url_escape plain_in_host (ur_Host (bp_url p)) @ url_escape plain_in_path path @
     (if bp_ForceQuery p then ''?'' else [])"

definition endpoint :: "(string \<Rightarrow> bool) \<Rightarrow> string \<Rightarrow> string option" where
  "endpoint ip6 base =
     (case base_Parse ip6 (TrimSpace base) of
        None \<Rightarrow> None
      | Some p \<Rightarrow>
          if gateway_origin p then
            Some (base_String p (trim_suffix (trim_suffix (ur_Path (bp_url p)) ''/'') ''/v1'' @ usagePath))
          else None)"

definition modelsEndpoint :: "(string \<Rightarrow> bool) \<Rightarrow> string \<Rightarrow> string option" where
  "modelsEndpoint ip6 base = map_option (\<lambda>address. trim_suffix address usagePath @ modelsPath) (endpoint ip6 base)"

section \<open>The report\<close>

record gateway_amount =
  ga_Used :: "string option"
  ga_Limit :: "string option"
  ga_Remaining :: "string option"
  ga_UsedFraction :: "float64 option"
  ga_Unit :: string

record gateway_window =
  gw_ID :: string
  gw_DurationMs :: int
  gw_ResetsAt :: int

record gateway_limit =
  gl_ID :: string
  gl_Label :: string
  gl_Status :: string
  gl_Tier :: string
  gl_ModelID :: string
  gl_Window :: gateway_window
  gl_Amount :: gateway_amount

record provider_report =
  gr_Provider :: string
  gr_FetchedAt :: int
  gr_Error :: string
  gr_Limits :: "gateway_limit list option"
  gr_PlanType :: string
  gr_Allowed :: "bool option"

definition no_gateway_limit :: gateway_limit where
  "no_gateway_limit =
     \<lparr>gl_ID = [], gl_Label = [], gl_Status = [], gl_Tier = [], gl_ModelID = [],
      gl_Window = \<lparr>gw_ID = [], gw_DurationMs = 0, gw_ResetsAt = 0\<rparr>,
      gl_Amount = \<lparr>ga_Used = None, ga_Limit = None, ga_Remaining = None, ga_UsedFraction = None, ga_Unit = []\<rparr>\<rparr>"

definition no_provider_report :: provider_report where
  "no_provider_report = \<lparr>gr_Provider = [], gr_FetchedAt = 0, gr_Error = [], gr_Limits = None, gr_PlanType = [], gr_Allowed = None\<rparr>"

definition into_gateway_amount :: "gateway_amount decode_into" where
  "into_gateway_amount = into_struct
     [(''used'', on_field ga_Used (\<lambda>x s. s\<lparr>ga_Used := x\<rparr>) (into_pointer [] into_number)),
      (''limit'', on_field ga_Limit (\<lambda>x s. s\<lparr>ga_Limit := x\<rparr>) (into_pointer [] into_number)),
      (''remaining'', on_field ga_Remaining (\<lambda>x s. s\<lparr>ga_Remaining := x\<rparr>) (into_pointer [] into_number)),
      (''usedFraction'', on_field ga_UsedFraction (\<lambda>x s. s\<lparr>ga_UsedFraction := x\<rparr>) (into_pointer (Finite 0) into_float)),
      (''unit'', on_field ga_Unit (\<lambda>x s. s\<lparr>ga_Unit := x\<rparr>) into_string)]"

definition into_gateway_window :: "gateway_window decode_into" where
  "into_gateway_window = into_struct
     [(''id'', on_field gw_ID (\<lambda>x s. s\<lparr>gw_ID := x\<rparr>) into_string),
      (''durationMs'', on_field gw_DurationMs (\<lambda>x s. s\<lparr>gw_DurationMs := x\<rparr>) into_int),
      (''resetsAt'', on_field gw_ResetsAt (\<lambda>x s. s\<lparr>gw_ResetsAt := x\<rparr>) into_int)]"

definition into_gateway_limit :: "gateway_limit decode_into" where
  "into_gateway_limit = into_struct
     [(''id'', on_field gl_ID (\<lambda>x s. s\<lparr>gl_ID := x\<rparr>) into_string),
      (''label'', on_field gl_Label (\<lambda>x s. s\<lparr>gl_Label := x\<rparr>) into_string),
      (''status'', on_field gl_Status (\<lambda>x s. s\<lparr>gl_Status := x\<rparr>) into_string),
      (''scope'', into_struct
         [(''tier'', on_field gl_Tier (\<lambda>x s. s\<lparr>gl_Tier := x\<rparr>) into_string),
          (''modelId'', on_field gl_ModelID (\<lambda>x s. s\<lparr>gl_ModelID := x\<rparr>) into_string)]),
      (''window'', on_field gl_Window (\<lambda>x s. s\<lparr>gl_Window := x\<rparr>) into_gateway_window),
      (''amount'', on_field gl_Amount (\<lambda>x s. s\<lparr>gl_Amount := x\<rparr>) into_gateway_amount)]"

definition into_provider_report :: "provider_report decode_into" where
  "into_provider_report = into_struct
     [(''provider'', on_field gr_Provider (\<lambda>x s. s\<lparr>gr_Provider := x\<rparr>) into_string),
      (''fetchedAt'', on_field gr_FetchedAt (\<lambda>x s. s\<lparr>gr_FetchedAt := x\<rparr>) into_int),
      (''error'', on_field gr_Error (\<lambda>x s. s\<lparr>gr_Error := x\<rparr>) into_string),
      (''limits'', on_field gr_Limits (\<lambda>x s. s\<lparr>gr_Limits := x\<rparr>) (into_slice no_gateway_limit into_gateway_limit)),
      (''metadata'', into_struct
         [(''planType'', on_field gr_PlanType (\<lambda>x s. s\<lparr>gr_PlanType := x\<rparr>) into_string),
          (''allowed'', on_field gr_Allowed (\<lambda>x s. s\<lparr>gr_Allowed := x\<rparr>) (into_pointer False into_bool))])]"

definition into_report :: "provider_report list option decode_into" where
  "into_report = into_struct [(''reports'', into_slice no_provider_report into_provider_report)]"

section \<open>Windows by the names their providers give them\<close>

text \<open>\<open>strings.ToUpper(tier[:1]) + tier[1:]\<close>: the first byte alone, which is no text beyond ASCII.\<close>

definition upper_byte :: "char \<Rightarrow> string" where
  "upper_byte c =
     (let n = of_char c :: nat in if n \<ge> 128 then rune_error else if 97 \<le> n \<and> n \<le> 122 then [char_of (n - 32)] else [c])"

definition titled :: "string \<Rightarrow> string" where
  "titled tier = (case tier of [] \<Rightarrow> [] | c # rest \<Rightarrow> upper_byte c @ rest)"

definition replace_char :: "char \<Rightarrow> char \<Rightarrow> string \<Rightarrow> string" where
  "replace_char a b s = map (\<lambda>c. if c = a then b else c) s"

definition after_last :: "char \<Rightarrow> string \<Rightarrow> string" where
  "after_last c s = rev (takeWhile (\<lambda>x. x \<noteq> c) (rev s))"

definition nativeWindow :: "string \<Rightarrow> gateway_limit \<Rightarrow> string \<times> string" where
  "nativeWindow provider entry =
     (let wid = gw_ID (gl_Window entry); tier = gl_Tier entry; own = (gl_ID entry, TrimSpace (gl_Label entry))
      in if provider = anthropic_ProviderID then
           (if wid = windowFiveHour then (''session'', [])
            else if wid = windowSevenDay \<and> tier = [] then (''weekly_all'', [])
            else if wid = windowSevenDay then (''weekly_scoped/'' @ titled tier, titled tier)
            else own)
         else if provider = codex_ProviderID then
           (let feature = (if tier \<noteq> [] then replace_char (CHR ''-'') (CHR ''_'') tier else ''codex'');
                place = after_last (CHR '':'') (gl_ID entry)
            in if place = ''primary'' \<or> place = ''secondary'' then (feature @ CHR ''/'' # place, TrimSpace (gl_ModelID entry)) else own)
         else if provider = openrouter_ProviderID then
           (if gl_ID entry = ''openrouter:credits'' \<or> gl_ID entry = ''openrouter:free-daily''
            then (drop (length (openrouter_ProviderID @ '':'')) (gl_ID entry), TrimSpace (gl_Label entry)) else own)
         else if provider = opencode_ProviderID then
           (if wid = windowFiveHour then (''rolling'', ''Rolling'')
            else if wid = windowSevenDay then (''weekly'', ''Weekly'')
            else if wid = windowMonthly then (''monthly'', ''Monthly'')
            else own)
         else own)"

section \<open>Amounts\<close>

text \<open>A fraction of one value is multiplied by a hundred and rounded; a count that overflows is refused.\<close>

definition percentOf :: "gateway_limit \<Rightarrow> float64 option" where
  "percentOf entry =
     (case ga_UsedFraction (gl_Amount entry) of
        Some v \<Rightarrow> if finite_nonnegative v then Some (scaled (\<lambda>q. q * 100) v) else None
      | None \<Rightarrow>
          (case ga_Used (gl_Amount entry) of
             Some text \<Rightarrow> if finite_nonnegative (parse_float text) then Some (parse_float text) else None
           | None \<Rightarrow> None))"

definition allowed :: "string \<Rightarrow> bool option" where
  "allowed status =
     (if status = ''ok'' \<or> status = ''warning'' then Some True else if status = ''exhausted'' then Some False else None)"

definition gateway_money :: "string option \<Rightarrow> AccountUsageMoney option" where
  "gateway_money amount = map_option (\<lambda>text. \<lparr>am_Amount = parse_float text, am_Currency = currencyUSD\<rparr>) amount"

definition unix_milli :: "int \<Rightarrow> instant" where
  "unix_milli ms = \<lparr>in_Seconds = ms div 1000 + unix_epoch, in_Nanos = nat (ms mod 1000) * 1000000\<rparr>"

text \<open>One entry of a section: nothing, a window, a balance, a request limit, or a report that is refused.\<close>

datatype gateway_entry = NoEntry | WindowEntry AccountUsageLimit | BalanceEntry AccountUsageBalance | RequestEntry AccountUsageRequestLimit

definition request_entry :: "string \<Rightarrow> string \<Rightarrow> string \<Rightarrow> string \<Rightarrow> gateway_amount \<Rightarrow> read_error + gateway_entry" where
  "request_entry rid label observed resets amount =
     (case (ga_Used amount, ga_Limit amount) of
        (Some used, Some quota) \<Rightarrow>
          (case (parse_int used, parse_int quota) of
             (Some used, Some quota) \<Rightarrow>
               if used < 0 \<or> quota < 0 then Inl (Incomplete ''request counts'')
               else (case (case ga_Remaining amount of None \<Rightarrow> Some (max (quota - used) 0) | Some text \<Rightarrow> parse_int text) of
                       None \<Rightarrow> Inl (Incomplete ''remaining requests'')
                     | Some remaining \<Rightarrow>
                         if remaining < 0 then Inl (Incomplete ''remaining requests'')
                         else Inr (RequestEntry \<lparr>aq_ID = rid, aq_Label = label, aq_ObservedAt = observed, aq_Used = used, aq_Limit = quota,
                                aq_Remaining = remaining, aq_ResetInterval = [], aq_ResetsAt = resets\<rparr>))
           | _ \<Rightarrow> Inl (Incomplete ''request counts''))
      | _ \<Rightarrow> Inr NoEntry)"

definition entry_of :: "string \<Rightarrow> string \<Rightarrow> gateway_limit \<Rightarrow> read_error + gateway_entry" where
  "entry_of provider observed entry =
     (let (eid, label) = nativeWindow provider entry; amount = gl_Amount entry;
          resets = (if gw_ResetsAt (gl_Window entry) > 0 then AccountUsageTime (unix_milli (gw_ResetsAt (gl_Window entry))) else [])
      in if ga_Unit amount = ''percent'' then
           (case percentOf entry of
              None \<Rightarrow> Inr NoEntry
            | Some percent \<Rightarrow>
                Inr (WindowEntry \<lparr>al_ObservedAt = observed, al_ID = eid, al_Label = label,
                       al_WindowSeconds = (if gw_DurationMs (gl_Window entry) > 0 \<and> provider = codex_ProviderID
                                           then gw_DurationMs (gl_Window entry) div 1000 else 0),
                       al_UsedPercent = percent, al_UsageAllowed = allowed (gl_Status entry), al_ResetsAt = resets\<rparr>))
         else if ga_Unit amount = ''usd'' then
           (if ga_Used amount = None then Inr NoEntry
            else Inr (BalanceEntry ((blank_balance eid label observed)
                   \<lparr>ab_ResetsAt := resets, ab_Used := gateway_money (ga_Used amount),
                    ab_Limit := gateway_money (if provider = openrouter_ProviderID \<and> gl_ID entry = ''openrouter:credits'' then None else ga_Limit amount),
                    ab_Remaining := gateway_money (ga_Remaining amount)\<rparr>)))
         else if ga_Unit amount = ''requests'' then request_entry eid label observed resets amount
         else Inr NoEntry)"

fun add_entry :: "gateway_entry \<Rightarrow> AccountUsageResponse \<Rightarrow> AccountUsageResponse" where
  "add_entry NoEntry r = r"
| "add_entry (WindowEntry l) r = r\<lparr>ar_Limits := ar_Limits r @ [l]\<rparr>"
| "add_entry (BalanceEntry b) r = r\<lparr>ar_Balances := ar_Balances r @ [b]\<rparr>"
| "add_entry (RequestEntry q) r = r\<lparr>ar_RequestLimits := ar_RequestLimits r @ [q]\<rparr>"

fun add_entries :: "string \<Rightarrow> string \<Rightarrow> gateway_limit list \<Rightarrow> AccountUsageResponse \<Rightarrow> read_error + AccountUsageResponse" where
  "add_entries provider observed [] r = Inr r"
| "add_entries provider observed (entry # entries) r =
     (case entry_of provider observed entry of
        Inl e \<Rightarrow> Inl e
      | Inr found \<Rightarrow> add_entries provider observed entries (add_entry found r))"

definition section_response :: "provider_report \<Rightarrow> read_error + AccountUsageResponse" where
  "section_response s =
     (if gr_Error s \<noteq> [] then Inl (Incomplete ''upstream account'')
      else case add_entries (gr_Provider s) (AccountUsageTime (unix_milli (gr_FetchedAt s)))
             (case gr_Limits s of None \<Rightarrow> [] | Some ls \<Rightarrow> ls) (available (TrimSpace (gr_PlanType s)) (gr_Allowed s) [] [] []) of
             Inl e \<Rightarrow> Inl e
           | Inr result \<Rightarrow>
               if length (ar_Limits result) + length (ar_Balances result) + length (ar_RequestLimits result) = 0
               then Inr (AccountUsageUnavailable AccountUsageNotReported)
               else validated result)"

section \<open>Reading a route\<close>

text \<open>The answer, and whether a section covers the provider: the first that names it.\<close>

definition gateway_decode :: "'w usage_env \<Rightarrow> string \<Rightarrow> usage_response \<Rightarrow> read_error + AccountUsageResponse \<times> bool" where
  "gateway_decode env provider r =
     (case response_Decode env into_report None r of
        Some (Some sections) \<Rightarrow>
          (case find (\<lambda>s. gr_Provider s = provider) sections of
             Some s \<Rightarrow> map_sum id (\<lambda>response. (response, True)) (section_response s)
           | None \<Rightarrow> Inr (AccountUsageUnavailable AccountUsageNotReported, False))
      | _ \<Rightarrow> Inr (AccountUsageUnavailable AccountUsageNotReported, False))"

definition gateway_read :: "'w usage_env \<Rightarrow> string \<Rightarrow> Credential \<Rightarrow> 'w \<Rightarrow> (read_error + AccountUsageResponse \<times> bool) \<times> 'w" where
  "gateway_read env provider credential w =
     (case endpoint (ue_ip6 env) (ce_BaseURL credential) of
        None \<Rightarrow> (Inl BaseNotOrigin, w)
      | Some address \<Rightarrow>
          (case usage_Get env address (ce_Token credential) [] w of
             (Inl e, w) \<Rightarrow> (Inl e, w)
           | (Inr r, w) \<Rightarrow>
               (if rp_StatusCode r = StatusUnauthorized then Inr (AccountUsageUnavailable AccountUsageNotAuthenticated, False)
                else if rp_StatusCode r = StatusNotFound then Inr (AccountUsageUnavailable AccountUsageNotReported, False)
                else if rp_StatusCode r = StatusOK then gateway_decode env provider r
                else Inl (refused_status r), w)))"

record Route =
  ro_Provider :: string
  ro_BaseURL :: string
  ro_Token :: string

definition route_usable :: "(string \<Rightarrow> bool) \<Rightarrow> Route \<Rightarrow> bool" where
  "route_usable ip6 route \<longleftrightarrow> endpoint ip6 (ro_BaseURL route) \<noteq> None \<and> TrimSpace (ro_Token route) \<noteq> []"

fun read_routes_from :: "'w usage_env \<Rightarrow> ('w \<Rightarrow> (string + Route list) \<times> 'w) \<Rightarrow> string \<Rightarrow> AccountUsageResponse \<Rightarrow> Route list \<Rightarrow>
    Route list \<Rightarrow> 'w \<Rightarrow> (read_error + AccountUsageResponse) \<times> 'w" where
  "read_routes_from env resolve provider fallback routes [] w = (Inr fallback, w)"
| "read_routes_from env resolve provider fallback routes (route # rest) w =
     (if \<not> route_usable (ue_ip6 env) route then read_routes_from env resolve provider fallback routes rest w
      else case gateway_read env provider \<lparr>ce_Token = ro_Token route, ce_AccountID = [], ce_BaseURL = ro_BaseURL route\<rparr> w of
             (Inl e, w) \<Rightarrow> (Inl e, w)
           | (Inr (response, covered), w) \<Rightarrow>
               (case resolve w of
                  (Inl e, w) \<Rightarrow> (Inl (ResolveFailed e), w)
                | (Inr current, w) \<Rightarrow>
                    if routes \<noteq> current then (Inl RoutesChanged, w)
                    else if covered then (validated response, w)
                    else read_routes_from env resolve provider fallback routes rest w))"

definition ReadRoutes :: "'w usage_env \<Rightarrow> ('w \<Rightarrow> (string + Route list) \<times> 'w) \<Rightarrow> string \<Rightarrow> AccountUsageResponse \<Rightarrow> 'w \<Rightarrow>
    (read_error + AccountUsageResponse) \<times> 'w" where
  "ReadRoutes env resolve provider fallback w =
     (case resolve w of
        (Inl e, w) \<Rightarrow> (Inl (ResolveFailed e), w)
      | (Inr routes, w) \<Rightarrow> read_routes_from env resolve provider fallback routes routes w)"

section \<open>The models of a gateway\<close>

record gateway_model_entry =
  me_ID :: string
  me_DisplayName :: string
  me_ContextLength :: int
  me_MaxOutput :: int
  me_Inputs :: "string list option"

record gateway_model =
  gm_ID :: string
  gm_Name :: string
  gm_ContextWindow :: int
  gm_MaxTokens :: int
  gm_Inputs :: "string list option"

definition into_model_entry :: "gateway_model_entry decode_into" where
  "into_model_entry = into_struct
     [(''id'', on_field me_ID (\<lambda>x s. s\<lparr>me_ID := x\<rparr>) into_string),
      (''display_name'', on_field me_DisplayName (\<lambda>x s. s\<lparr>me_DisplayName := x\<rparr>) into_string),
      (''context_length'', on_field me_ContextLength (\<lambda>x s. s\<lparr>me_ContextLength := x\<rparr>) into_int),
      (''max_output_tokens'', on_field me_MaxOutput (\<lambda>x s. s\<lparr>me_MaxOutput := x\<rparr>) into_int),
      (''input_modalities'', on_field me_Inputs (\<lambda>x s. s\<lparr>me_Inputs := x\<rparr>) (into_slice [] into_string))]"

definition into_model_list :: "gateway_model_entry list option decode_into" where
  "into_model_list = into_struct
     [(''data'', into_slice \<lparr>me_ID = [], me_DisplayName = [], me_ContextLength = 0, me_MaxOutput = 0, me_Inputs = None\<rparr> into_model_entry)]"

definition model_of :: "gateway_model_entry \<Rightarrow> gateway_model" where
  "model_of entry =
     (let mid = TrimSpace (me_ID entry); name = TrimSpace (me_DisplayName entry)
      in \<lparr>gm_ID = mid, gm_Name = (if name = [] then mid else name), gm_ContextWindow = max (me_ContextLength entry) 0,
          gm_MaxTokens = max (me_MaxOutput entry) 0, gm_Inputs = me_Inputs entry\<rparr>)"

definition Models :: "'w usage_env \<Rightarrow> Route \<Rightarrow> 'w \<Rightarrow> (read_error + gateway_model list) \<times> 'w" where
  "Models env route w =
     (case modelsEndpoint (ue_ip6 env) (ro_BaseURL route) of
        None \<Rightarrow> (Inl BaseNotOrigin, w)
      | Some address \<Rightarrow>
          (case GetWithin env address (ro_Token route) [] modelsMaxBytes w of
             (Inl e, w) \<Rightarrow> (Inl e, w)
           | (Inr r, w) \<Rightarrow>
               (if rp_StatusCode r = StatusOK then
                  (case response_Decode env into_model_list None r of
                     Some (Some entries) \<Rightarrow> Inr (map model_of (filter (\<lambda>entry. TrimSpace (me_ID entry) \<noteq> []) entries))
                   | _ \<Rightarrow> Inr [])
                else if rp_StatusCode r = StatusNotFound \<or> rp_StatusCode r = StatusUnauthorized then Inr []
                else Inl (refused_status r), w)))"

end
