(* ===== verification/ReaderProps.thy ===== *)
theory ReaderProps
  imports Gateway
begin

text \<open>
  What a usage reader publishes and whom it asks: every answer keeps the contract of a response; a bearer goes to
  the address it belongs to and nowhere else.
\<close>

section \<open>Answers\<close>

lemma validated_valid: "validated r = Inr x \<Longrightarrow> Validate x = None"
  by (auto simp: validated_def split: option.splits)

lemma unavailable_valid [simp]:
  "Validate (AccountUsageUnavailable AccountUsageNotAuthenticated) = None"
  "Validate (AccountUsageUnavailable AccountUsageNotReported) = None"
  by (simp_all add: Validate_def validateUnavailable_def AccountUsageUnavailable_def)

lemma observation_valid: "observation_Response ob plan t = Inr r \<Longrightarrow> Validate r = None"
  by (auto simp: observation_Response_def Let_def dest: validated_valid split: sum.splits if_splits)

lemma anthropic_valid: "anthropic_Read env c w = (Inr r, w') \<Longrightarrow> Validate r = None"
  by (auto simp: anthropic_Read_def dest: observation_valid split: prod.splits option.splits sum.splits if_splits)

lemma openrouter_valid: "openrouter_Read env c w = (Inr r, w') \<Longrightarrow> Validate r = None"
  by (auto simp: openrouter_Read_def dest: validated_valid split: prod.splits option.splits sum.splits if_splits)

lemma codex_valid: "codex_Read env c w = (Inr r, w') \<Longrightarrow> Validate r = None"
  by (auto simp: codex_Read_def codex_decode_def Let_def dest: validated_valid
      split: prod.splits option.splits sum.splits if_splits list.splits)

lemma opencode_valid: "opencode_Read env c w = (Inr r, w') \<Longrightarrow> Validate r = None"
  by (auto simp: opencode_Read_def opencode_decode_def Let_def dest: validated_valid
      split: prod.splits option.splits sum.splits if_splits)

lemma routes_valid:
  "read_routes_from env resolve provider fallback routes rest w = (Inr r, w') \<Longrightarrow> r = fallback \<or> Validate r = None"
proof (induction rest arbitrary: w)
  case (Cons route rest)
  show ?case
  proof (cases "route_usable (ue_ip6 env) route")
    case False
    then show ?thesis using Cons by simp
  next
    case True
    obtain a w1 where a: "gateway_read env provider \<lparr>ce_Token = ro_Token route, ce_AccountID = [], ce_BaseURL = ro_BaseURL route\<rparr> w = (a, w1)"
      by fastforce
    obtain b w2 where b: "resolve w1 = (b, w2)" by fastforce
    show ?thesis using Cons True
      by (cases a; cases b) (auto simp: a b dest!: validated_valid split: if_splits)
  qed
qed simp

section \<open>Requests\<close>

text \<open>An environment that keeps the requests it is asked for.\<close>

definition watched :: "'w usage_env \<Rightarrow> ('w \<times> http_request list) usage_env" where
  "watched env =
     \<lparr>ue_Ended = (\<lambda>(w, asked). case ue_Ended env w of (e, w) \<Rightarrow> (e, w, asked)),
      ue_Now = (\<lambda>(w, asked). case ue_Now env w of (t, w) \<Rightarrow> (t, w, asked)),
      ue_Do = (\<lambda>request (w, asked). case ue_Do env request w of (answer, w) \<Rightarrow> (answer, w, asked @ [request])),
      ue_parse = ue_parse env, ue_http_time = ue_http_time env, ue_ip6 = ue_ip6 env\<rparr>"

definition watched_call :: "('w \<Rightarrow> 'a \<times> 'w) \<Rightarrow> 'w \<times> http_request list \<Rightarrow> 'a \<times> 'w \<times> http_request list" where
  "watched_call call = (\<lambda>(w, asked). case call w of (a, w) \<Rightarrow> (a, w, asked))"

lemma watched_simps [simp]:
  "ue_Ended (watched env) (w, asked) = (case ue_Ended env w of (e, w) \<Rightarrow> (e, w, asked))"
  "ue_Now (watched env) (w, asked) = (case ue_Now env w of (t, w) \<Rightarrow> (t, w, asked))"
  "ue_Do (watched env) request (w, asked) = (case ue_Do env request w of (answer, w) \<Rightarrow> (answer, w, asked @ [request]))"
  "ue_ip6 (watched env) = ue_ip6 env" "ue_parse (watched env) = ue_parse env"
  by (simp_all add: watched_def)

text \<open>A request to one address with one bearer, which is not blank.\<close>

definition bearer_request :: "string \<Rightarrow> string \<Rightarrow> http_request \<Rightarrow> bool" where
  "bearer_request address token request \<longleftrightarrow>
     hq_URL request = address \<and> map_of (hq_Headers request) ''Authorization'' = Some (''Bearer '' @ token) \<and> TrimSpace token \<noteq> []"

lemma authorization_kept:
  "''Authorization'' \<notin> fst ` set extra \<Longrightarrow> map_of (usage_headers token extra) ''Authorization'' = Some (''Bearer '' @ token)"
proof -
  have "''Authorization'' \<notin> fst ` set extra \<Longrightarrow>
      map_of (fold (\<lambda>(name, v). AList.update name v) extra hs) ''Authorization'' = map_of hs ''Authorization''" for hs :: "(string \<times> string) list"
    by (induction extra arbitrary: hs) (auto simp: update_conv)
  then show "''Authorization'' \<notin> fst ` set extra \<Longrightarrow> ?thesis" by (simp add: usage_headers_def)
qed

lemma GetWithin_asks:
  assumes "GetWithin (watched env) address token extra bound (w, asked) = (r, w', asked')"
    and "''Authorization'' \<notin> fst ` set extra"
  shows "\<exists>new. asked' = asked @ new \<and> list_all (bearer_request address token) new"
proof -
  have "bearer_request address token \<lparr>hq_URL = address, hq_Headers = usage_headers token extra\<rparr>" if "TrimSpace token \<noteq> []"
    using authorization_kept[OF assms(2)] that by (simp add: bearer_request_def)
  moreover have "asked' = asked \<or> TrimSpace token \<noteq> [] \<and> asked' = asked @ [\<lparr>hq_URL = address, hq_Headers = usage_headers token extra\<rparr>]"
    using assms(1) by (auto simp: GetWithin_def split: prod.splits option.splits if_splits)
  ultimately show ?thesis by auto
qed

lemma usage_Get_asks:
  assumes "usage_Get (watched env) address token extra (w, asked) = (r, w', asked')" and "''Authorization'' \<notin> fst ` set extra"
  shows "\<exists>new. asked' = asked @ new \<and> list_all (bearer_request address token) new"
  by (rule GetWithin_asks[OF assms(1)[unfolded usage_Get_def] assms(2)])

lemma gateway_read_asks:
  assumes "gateway_read (watched env) provider c (w, asked) = (r, w', asked')"
  shows "\<exists>new. asked' = asked @ new \<and>
    list_all (\<lambda>request. \<exists>address. endpoint (ue_ip6 env) (ce_BaseURL c) = Some address \<and> bearer_request address (ce_Token c) request) new"
proof (cases "endpoint (ue_ip6 env) (ce_BaseURL c)")
  case None
  then show ?thesis using assms by (simp add: gateway_read_def)
next
  case (Some address)
  obtain g w1 asked1 where g: "usage_Get (watched env) address (ce_Token c) [] (w, asked) = (g, w1, asked1)" by (metis prod_cases3)
  have "asked' = asked1" using assms by (cases g) (auto simp: gateway_read_def Some g)
  then show ?thesis using usage_Get_asks[OF g] Some by simp
qed

text \<open>A request that belongs to one of the routes.\<close>

definition route_request :: "(string \<Rightarrow> bool) \<Rightarrow> Route list \<Rightarrow> http_request \<Rightarrow> bool" where
  "route_request ip6 routes request \<longleftrightarrow>
     (\<exists>route\<in>set routes. \<exists>address. endpoint ip6 (ro_BaseURL route) = Some address \<and> bearer_request address (ro_Token route) request)"

lemma routes_ask:
  assumes "read_routes_from (watched env) (watched_call resolve) provider fallback routes rest (w, asked) = (r, w', asked')"
    and "set rest \<subseteq> set routes"
  shows "\<exists>new. asked' = asked @ new \<and> list_all (route_request (ue_ip6 env) routes) new"
  using assms
proof (induction rest arbitrary: w asked)
  case (Cons route rest)
  let ?c = "\<lparr>ce_Token = ro_Token route, ce_AccountID = [], ce_BaseURL = ro_BaseURL route\<rparr>"
  show ?case
  proof (cases "route_usable (ue_ip6 env) route")
    case False
    then show ?thesis using Cons by simp
  next
    case True
    obtain a w1 asked1 where a: "gateway_read (watched env) provider ?c (w, asked) = (a, w1, asked1)" by (metis prod_cases3)
    obtain new where new: "asked1 = asked @ new" "list_all (route_request (ue_ip6 env) routes) new"
      using gateway_read_asks[OF a] Cons.prems(2) unfolding route_request_def list_all_iff by fastforce
    obtain b w2 where b: "resolve w1 = (b, w2)" by fastforce
    consider (ended) "asked' = asked1"
      | (on) "read_routes_from (watched env) (watched_call resolve) provider fallback routes rest (w2, asked1) = (r, w', asked')"
      using Cons.prems(1) True by (cases a; cases b) (auto simp: a b watched_call_def split: if_splits)
    then show ?thesis
    proof cases
      case ended
      then show ?thesis using new by simp
    next
      case on
      then obtain more where "asked' = asked1 @ more" "list_all (route_request (ue_ip6 env) routes) more"
        using Cons.IH[OF on] Cons.prems(2) by auto
      then show ?thesis using new by (intro exI[of _ "new @ more"]) simp
    qed
  qed
qed simp

section \<open>What is published\<close>

text \<open>
  C38: Whatever a provider answers, a native reader that publishes a response publishes one that keeps the contract
  of a response.  Reading the routes of a gateway publishes the caller's own fallback, as it was given and
  unvalidated, or a response that keeps the contract.
\<close>

theorem published_usage_valid:
  assumes "reader \<in> {anthropic_Read env, openrouter_Read env, codex_Read env, opencode_Read env}"
  shows "(reader credential w = (Inr response, w') \<longrightarrow> Validate response = None) \<and>
    (ReadRoutes env resolve provider fallback v = (Inr routed, v') \<longrightarrow> routed = fallback \<or> Validate routed = None)"
  using assms anthropic_valid openrouter_valid codex_valid opencode_valid
  by (fastforce simp: ReadRoutes_def dest: routes_valid split: prod.splits sum.splits)

text \<open>
  C39: A route's bearer goes to the address beneath that route's own base and nowhere else: every request that reading
  the routes makes is for the endpoint of a configured route, with the bearer of that route, which is not blank.  (The client refuses every redirect, so each is one round trip.)
\<close>

theorem bearer_stays_on_its_route:
  assumes "resolve w = (Inr routes, w0)"
    and "ReadRoutes (watched env) (watched_call resolve) provider fallback (w, []) = (r, w', asked)"
  shows "\<forall>request\<in>set asked. \<exists>route\<in>set routes. \<exists>address.
    endpoint (ue_ip6 env) (ro_BaseURL route) = Some address \<and> hq_URL request = address \<and>
    map_of (hq_Headers request) ''Authorization'' = Some (''Bearer '' @ ro_Token route) \<and> TrimSpace (ro_Token route) \<noteq> []"
proof -
  have "read_routes_from (watched env) (watched_call resolve) provider fallback routes routes (w0, []) = (r, w', asked)"
    using assms by (simp add: ReadRoutes_def watched_call_def)
  from routes_ask[OF this subset_refl] show ?thesis
    by (auto simp: list_all_iff route_request_def bearer_request_def)
qed

section \<open>Concrete reads\<close>

text \<open>A gateway that answers every request with one body; the context never ends.\<close>

definition sample_env :: "string \<Rightarrow> (string \<Rightarrow> json option) \<Rightarrow> unit usage_env" where
  "sample_env body parse =
     \<lparr>ue_Ended = (\<lambda>w. (None, w)), ue_Now = (\<lambda>w. (unix_instant 1700000000, w)),
      ue_Do = (\<lambda>request w. (Some \<lparr>ha_StatusCode = 200, ha_RetryAfter = [], ha_Body = body, ha_Complete = True\<rparr>, w)),
      ue_parse = parse, ue_http_time = (\<lambda>s. None), ue_ip6 = (\<lambda>s. True)\<rparr>"

definition sample_report :: json where
  "sample_report = JObj (0, 0) [(''reports'', JArr [JObj (0, 0)
     [(''provider'', JStr ''opencode-go''), (''fetchedAt'', JNum ''60000''),
      (''limits'', JArr [JObj (0, 0)
        [(''id'', JStr ''w''), (''window'', JObj (0, 0) [(''id'', JStr ''5h'')]),
         (''amount'', JObj (0, 0) [(''unit'', JStr ''requests''), (''used'', JNum ''3''), (''limit'', JNum ''10'')])]])]])]"

definition sample_section :: provider_report where
  "sample_section = no_provider_report\<lparr>gr_Provider := ''opencode-go'', gr_FetchedAt := 60000,
     gr_Limits := Some [no_gateway_limit\<lparr>gl_ID := ''w'', gl_Window := \<lparr>gw_ID = ''5h'', gw_DurationMs = 0, gw_ResetsAt = 0\<rparr>,
       gl_Amount := \<lparr>ga_Used = Some ''3'', ga_Limit = Some ''10'', ga_Remaining = None, ga_UsedFraction = None, ga_Unit = ''requests''\<rparr>\<rparr>]\<rparr>"

definition sample_routes :: "Route list" where
  "sample_routes =
     [\<lparr>ro_Provider = ''p'', ro_BaseURL = ''not a url'', ro_Token = ''t''\<rparr>,
      \<lparr>ro_Provider = ''p'', ro_BaseURL = ''https://gate.test/v1/'', ro_Token = ''secret''\<rparr>]"

lemma sample_endpoints:
  "endpoint (\<lambda>s. True) ''not a url'' = None" "endpoint (\<lambda>s. True) ''https://gate.test/v1/'' = Some ''https://gate.test/v1/usage''"
  by code_simp+

text \<open>A base that ends in a bare question mark keeps it, so the address of the models is not the models' path.\<close>

lemma forced_query_models: "modelsEndpoint (\<lambda>s. True) ''https://gate.test?'' = Some ''https://gate.test/v1/usage?/v1/models''"
  by code_simp

text \<open>A tier whose first letter is beyond ASCII loses its first byte.\<close>

lemma titled_breaks_runes: "titled [CHR 0xC3, CHR 0xA9, CHR ''t''] = rune_error @ [CHR 0xA9, CHR ''t'']"
  by code_simp

lemma sample_counts: "parse_int ''60000'' = Some 60000" "parse_int ''3'' = Some 3" "parse_int ''10'' = Some 10"
  by (simp_all add: parse_int_def read_nat_def is_digit_def digits_value_def)

lemma field_exact: "map_of named name \<noteq> None \<Longrightarrow> field_for named name = map_of named name"
  by (auto simp: field_for_def)

lemmas sample_fields = on_field_def into_pointer_def no_gateway_limit_def no_provider_report_def field_exact sample_counts

lemma sample_limit_read: "into_gateway_limit (JObj (0, 0)
      [(''id'', JStr ''w''), (''window'', JObj (0, 0) [(''id'', JStr ''5h'')]),
       (''amount'', JObj (0, 0) [(''unit'', JStr ''requests''), (''used'', JNum ''3''), (''limit'', JNum ''10'')])]) no_gateway_limit =
    Some (hd (the (gr_Limits sample_section)))"
  by (simp add: into_gateway_limit_def into_gateway_window_def into_gateway_amount_def sample_fields sample_section_def)

lemma sample_decoded: "into_report sample_report None = Some (Some [sample_section])"
  using sample_limit_read
  by (simp add: into_report_def sample_report_def into_provider_report_def on_field_def no_provider_report_def field_exact
      sample_counts sample_section_def)

lemma own_written: "in_years (in_Seconds t) \<Longrightarrow> own_time (AccountUsageTime t)"
  using in_years_moment[of "in_Seconds t"] by (fastforce simp: own_time_def AccountUsageTime_def)

definition sample_answer :: AccountUsageResponse where
  "sample_answer = available [] None [] []
    [\<lparr>aq_ID = ''rolling'', aq_Label = ''Rolling'', aq_ObservedAt = AccountUsageTime (unix_milli 60000), aq_Used = 3, aq_Limit = 10,
      aq_Remaining = 7, aq_ResetInterval = [], aq_ResetsAt = []\<rparr>]"

lemma sample_trim: "TrimSpace [] = []" "TrimSpace ''rolling'' = ''rolling''" "TrimSpace ''Rolling'' = ''Rolling''"
  by code_simp+

lemma sample_validated: "validated sample_answer = Inr sample_answer"
proof -
  have "own_time (AccountUsageTime (unix_milli 60000))"
    by (rule own_written) (simp add: unix_milli_def unix_epoch_def in_years_def days_before_year_def)
  then have "request_limit_validate (hd (ar_RequestLimits sample_answer)) = None"
    using sample_trim by (simp add: request_limit_decided request_limit_ok_def identity_ok_def reset_ok_def available_def sample_answer_def)
  then have "Validate sample_answer = None"
    using sample_trim by (simp add: Validate_def validate_measurements_def available_def sample_answer_def)
  then show ?thesis by (simp add: validated_def)
qed

lemma sample_published: "section_response sample_section = Inr sample_answer"
proof -
  have "nativeWindow ''opencode-go'' (hd (the (gr_Limits sample_section))) = (''rolling'', ''Rolling'')" by code_simp
  then show ?thesis using sample_trim sample_validated
    by (simp add: section_response_def sample_section_def no_provider_report_def no_gateway_limit_def entry_of_def request_entry_def
      sample_counts available_def sample_answer_def)
qed

text \<open>The first route is no address; the second answers.\<close>

definition sample_read :: "http_request list \<Rightarrow> (read_error + AccountUsageResponse) \<times> unit \<times> http_request list" where
  "sample_read asked = ReadRoutes (watched (sample_env ''body'' (\<lambda>s. Some sample_report)))
     (watched_call (\<lambda>w. (Inr sample_routes, w))) opencode_ProviderID (AccountUsageUnavailable AccountUsageNotReported) ((), asked)"
lemma sample_addresses: "url_Parse (\<lambda>s. True) ''https://gate.test/v1/usage'' \<noteq> None" "TrimSpace ''secret'' = ''secret''"
    "TrimSpace (''t'' :: string) = ''t''"
  by code_simp+

lemma sample_read_route:
  "gateway_read (watched (sample_env ''body'' (\<lambda>s. Some sample_report))) ''opencode-go''
      \<lparr>ce_Token = ''secret'', ce_AccountID = [], ce_BaseURL = ''https://gate.test/v1/''\<rparr> ((), asked) =
    (map_sum id (\<lambda>r. (r, True)) (section_response sample_section), (),
     asked @ [\<lparr>hq_URL = ''https://gate.test/v1/usage'', hq_Headers = usage_headers ''secret'' []\<rparr>])"
proof -
  have "ue_ip6 (watched (sample_env ''body'' (\<lambda>s. Some sample_report))) = (\<lambda>s. True)" by (simp add: sample_env_def)
  moreover have "gr_Provider sample_section = ''opencode-go''" by (simp add: sample_section_def)
  ultimately show ?thesis
    using sample_addresses sample_decoded
    by (simp add: gateway_read_def sample_endpoints usage_Get_def GetWithin_def sample_env_def maxBodyBytes_def StatusOK_def
      StatusUnauthorized_def StatusNotFound_def gateway_decode_def response_Decode_def)
qed

lemma sample_read_done: "sample_read [] = (Inr sample_answer, (),
    [\<lparr>hq_URL = ''https://gate.test/v1/usage'', hq_Headers = usage_headers ''secret'' []\<rparr>])"
proof -
  have "ue_ip6 (watched (sample_env ''body'' (\<lambda>s. Some sample_report))) = (\<lambda>s. True)" by (simp add: sample_env_def)
  then show ?thesis
    using sample_read_route[of "[]"] sample_published sample_validated sample_addresses
    by (simp add: sample_read_def ReadRoutes_def watched_call_def sample_routes_def route_usable_def sample_endpoints opencode_ProviderID_def)
qed

theorem published_usage_valid_witness:
  "fst (sample_read []) = Inr sample_answer \<and> sample_answer \<noteq> AccountUsageUnavailable AccountUsageNotReported \<and> Validate sample_answer = None"
proof (intro conjI)
  let ?env = "watched (sample_env ''body'' (\<lambda>s. Some sample_report))" and ?resolve = "watched_call (\<lambda>w. (Inr sample_routes, w))"
  let ?fallback = "AccountUsageUnavailable AccountUsageNotReported"
  show "fst (sample_read []) = Inr sample_answer" by (simp add: sample_read_done)
  show differs: "sample_answer \<noteq> ?fallback" by (simp add: sample_answer_def AccountUsageUnavailable_def available_def)
  show "Validate sample_answer = None"
    using published_usage_valid[of "anthropic_Read ?env" ?env undefined undefined undefined undefined ?resolve
        opencode_ProviderID ?fallback] sample_read_done[unfolded sample_read_def] differs by blast
qed

theorem bearer_stays_on_its_route_witness:
  "\<exists>route\<in>set sample_routes. \<exists>address. endpoint (\<lambda>s. True) (ro_BaseURL route) = Some address \<and> ''https://gate.test/v1/usage'' = address \<and>
     map_of (usage_headers ''secret'' []) ''Authorization'' = Some (''Bearer '' @ ro_Token route) \<and> TrimSpace (ro_Token route) \<noteq> []"
proof -
  have "ue_ip6 (sample_env ''body'' (\<lambda>s. Some sample_report)) = (\<lambda>s. True)" by (simp add: sample_env_def)
  then show ?thesis
    using bearer_stays_on_its_route[OF refl sample_read_done[unfolded sample_read_def]] by simp
qed

end
