(* ===== verification/Conformance.thy ===== *)
theory Conformance
  imports StoreProps
begin

text \<open>
  storetest/storetest.go: the battery a host's store is run against.  A case is a list of steps, each a call and what
  is required of its answer, and it passes when every step does.  A concurrent case takes its interleaving as an
  argument: which of the two goroutines makes the next call.  The three cases about a caller that changes the bytes
  it handed over or was handed are left out: values are never shared here.
\<close>

section \<open>The store under test\<close>

record 'w host_store =
  hs_Load :: "string \<Rightarrow> 'w \<Rightarrow> (store_error + generation option) \<times> 'w"
  hs_Replace :: "SessionKey \<Rightarrow> SessionStoreReplacement list \<Rightarrow> 'w \<Rightarrow> store_error option \<times> 'w"
  hs_Append :: "SessionKey \<Rightarrow> int \<Rightarrow> SessionStoreEntry list \<Rightarrow> SessionStoreReplacement list \<Rightarrow> 'w \<Rightarrow> store_error option \<times> 'w"
  hs_Delete :: "SessionKey \<Rightarrow> 'w \<Rightarrow> store_error option \<times> 'w"
  hs_List :: "'w \<Rightarrow> (store_error + SessionSummary list) \<times> 'w"
  hs_Sleep :: "'w \<Rightarrow> 'w"

section \<open>Steps\<close>

type_synonym 'w battery_step = "'w \<Rightarrow> bool \<times> 'w"

fun passes :: "'w battery_step list \<Rightarrow> 'w \<Rightarrow> bool" where
  "passes [] w = True"
| "passes (step # steps) w = (case step w of (ok, w) \<Rightarrow> ok \<and> passes steps w)"

definition succeeds :: "('w \<Rightarrow> store_error option \<times> 'w) \<Rightarrow> 'w battery_step" where
  "succeeds call w = (case call w of (r, w) \<Rightarrow> (r = None, w))"

definition refused :: "(store_error \<Rightarrow> bool) \<Rightarrow> ('w \<Rightarrow> store_error option \<times> 'w) \<Rightarrow> 'w battery_step" where
  "refused expected call w = (case call w of (Some e, w) \<Rightarrow> (expected e, w) | (None, w) \<Rightarrow> (False, w))"

definition loads :: "'w host_store \<Rightarrow> string \<Rightarrow> (generation option \<Rightarrow> bool) \<Rightarrow> 'w battery_step" where
  "loads store i expected w = (case hs_Load store i w of (Inr g, w) \<Rightarrow> (expected g, w) | (Inl e, w) \<Rightarrow> (False, w))"

definition lists :: "'w host_store \<Rightarrow> (SessionSummary list \<Rightarrow> bool) \<Rightarrow> 'w battery_step" where
  "lists store expected w = (case hs_List store w of (Inr ms, w) \<Rightarrow> (expected ms, w) | (Inl e, w) \<Rightarrow> (False, w))"

definition any_error :: "store_error \<Rightarrow> bool" where "any_error e = True"

definition configSubpath :: string where "configSubpath = ''config''"

definition mainKey :: "string \<Rightarrow> SessionKey" where
  "mainKey i = \<lparr>key_SessionID = i, key_Subpath = []\<rparr>"

definition subKey :: "string \<Rightarrow> string \<Rightarrow> SessionKey" where
  "subKey i path = \<lparr>key_SessionID = i, key_Subpath = path\<rparr>"

definition replacement :: "SessionKey \<Rightarrow> SessionStoreEntry list \<Rightarrow> SessionStoreReplacement" where
  "replacement key rows = \<lparr>rp_Key = key, rp_Entries = rows\<rparr>"

definition publish :: "'w host_store \<Rightarrow> string \<Rightarrow> SessionStoreEntry list \<Rightarrow> SessionStoreReplacement list \<Rightarrow> 'w \<Rightarrow> store_error option \<times> 'w" where
  "publish store i rows subpaths = hs_Replace store (mainKey i) (replacement (mainKey i) rows # subpaths)"

text \<open>What \<open>loadEntries\<close> reads: nothing for a session without a generation.\<close>

definition rows_at :: "string \<Rightarrow> generation option \<Rightarrow> SessionStoreEntry list" where
  "rows_at path g = (case g of None \<Rightarrow> [] | Some g \<Rightarrow> (case g path of None \<Rightarrow> [] | Some rows \<Rightarrow> rows))"

section \<open>The cases\<close>

definition replaceAndLoad :: "'w host_store \<Rightarrow> 'w battery_step list" where
  \<open>replaceAndLoad store =
     [succeeds (publish store ''s'' [''{"a":1}'', ''{"b":2}''] [replacement (subKey ''s'' configSubpath) [''{"c":3}'']]),
      loads store ''s'' (\<lambda>g. g = Some [[] \<mapsto> [''{"a":1}'', ''{"b":2}''], configSubpath \<mapsto> [''{"c":3}'']])]\<close>

definition loadMissing :: "'w host_store \<Rightarrow> 'w battery_step list" where
  "loadMissing store =
     [loads store ''absent'' (\<lambda>g. g = None),
      succeeds (publish store ''s'' [''{}''] []),
      succeeds (hs_Delete store (mainKey ''s'')),
      loads store ''s'' (\<lambda>g. g = None)]"

definition loadEmptyMain :: "'w host_store \<Rightarrow> 'w battery_step list" where
  \<open>loadEmptyMain store =
     [succeeds (publish store ''s'' [] [replacement (subKey ''s'' configSubpath) [''{"model":"m"}'']]),
      loads store ''s'' (\<lambda>g. case g of None \<Rightarrow> False | Some g \<Rightarrow> g SessionStoreMainSubpath = Some [] \<and> rows_at configSubpath (Some g) = [''{"model":"m"}'']),
      lists store (\<lambda>ms. map sm_SessionID ms = [''s''])]\<close>

definition replaceGeneration :: "'w host_store \<Rightarrow> 'w battery_step list" where
  \<open>replaceGeneration store =
     [succeeds (publish store ''s'' [''{"one":1}''] [replacement (subKey ''s'' ''a'') [''{"sub":"a"}'']]),
      succeeds (publish store ''s'' [''{"two":2}''] [replacement (subKey ''s'' ''b'') [''{"sub":"b"}'']]),
      loads store ''s'' (\<lambda>g. g = Some [[] \<mapsto> [''{"two":2}''], ''b'' \<mapsto> [''{"sub":"b"}'']])]\<close>

definition replaceEmptySubpath :: "'w host_store \<Rightarrow> 'w battery_step list" where
  "replaceEmptySubpath store =
     [succeeds (publish store ''s'' [''{}''] [replacement (subKey ''s'' ''empty'') []]),
      loads store ''s'' (\<lambda>g. case g of None \<Rightarrow> False | Some g \<Rightarrow> g ''empty'' = Some [])]"

definition replaceRevivesSubpath :: "'w host_store \<Rightarrow> 'w battery_step list" where
  \<open>replaceRevivesSubpath store =
     [succeeds (publish store ''s'' [''{}''] [replacement (subKey ''s'' ''a'') [''{"v":1}'']]),
      succeeds (hs_Delete store (subKey ''s'' ''a'')),
      loads store ''s'' (\<lambda>g. rows_at ''a'' g = []),
      succeeds (publish store ''s'' [''{}''] [replacement (subKey ''s'' ''a'') [''{"v":2}'']]),
      loads store ''s'' (\<lambda>g. rows_at ''a'' g = [''{"v":2}''])]\<close>

definition replaceRefusesBadKeys :: "'w host_store \<Rightarrow> 'w battery_step list" where
  \<open>replaceRefusesBadKeys store =
     [succeeds (publish store ''s'' [''{"keep":true}''] []),
      refused any_error (hs_Replace store (mainKey ''s'') [replacement (mainKey ''s'') [''{}''], replacement (subKey ''other'' ''x'') []]),
      refused any_error (hs_Replace store (mainKey ''s'')
        [replacement (mainKey ''s'') [''{}''], replacement (subKey ''s'' ''x'') [], replacement (subKey ''s'' ''x'') []]),
      refused any_error (hs_Replace store (mainKey ''s'') [replacement (subKey ''s'' ''x'') []]),
      loads store ''s'' (\<lambda>g. rows_at [] g = [''{"keep":true}''])]\<close>

definition replaceRefusesNonMain :: "'w host_store \<Rightarrow> 'w battery_step list" where
  "replaceRefusesNonMain store =
     [refused any_error (hs_Replace store (subKey ''s'' ''a'') [replacement (subKey ''s'' ''a'') []])]"

definition deleteMainIsFinal :: "'w host_store \<Rightarrow> 'w battery_step list" where
  \<open>deleteMainIsFinal store =
     [succeeds (publish store ''s'' [''{}''] [replacement (subKey ''s'' ''a'') [''{}'']]),
      succeeds (hs_Delete store (mainKey ''s'')),
      loads store ''s'' (\<lambda>g. g = None),
      succeeds (publish store ''s'' [''{"revive":true}''] [replacement (subKey ''s'' ''b'') [''{"late":true}'']]),
      loads store ''s'' (\<lambda>g. g = None),
      lists store (\<lambda>ms. ms = [])]\<close>

definition deleteSubpath :: "'w host_store \<Rightarrow> 'w battery_step list" where
  "deleteSubpath store =
     [succeeds (publish store ''s'' [''{}''] [replacement (subKey ''s'' ''a'') [''{}''], replacement (subKey ''s'' ''b'') [''{}'']]),
      succeeds (hs_Delete store (subKey ''s'' ''a'')),
      loads store ''s'' (\<lambda>g. g = Some [[] \<mapsto> [''{}''], ''b'' \<mapsto> [''{}'']])]"

definition deleteMissing :: "'w host_store \<Rightarrow> 'w battery_step list" where
  "deleteMissing store = [succeeds (hs_Delete store (mainKey ''never''))]"

text \<open>Neighbours of a listing: newest first, and by id among equals.\<close>

fun listing_ordered :: "SessionSummary list \<Rightarrow> bool" where
  "listing_ordered (p # c # ms) =
     (sm_UpdatedAtUnixMilli p \<ge> sm_UpdatedAtUnixMilli c \<and>
      (sm_UpdatedAtUnixMilli p = sm_UpdatedAtUnixMilli c \<longrightarrow> sm_SessionID p < sm_SessionID c) \<and> listing_ordered (c # ms))"
| "listing_ordered ms = True"

definition listSessions :: "'w host_store \<Rightarrow> 'w battery_step list" where
  "listSessions store =
     [succeeds (publish store ''b'' [''{}''] []),
      succeeds (publish store ''a'' [''{}''] [replacement (subKey ''a'' ''x'') [''{}'']]),
      lists store (\<lambda>ms. length ms = 2 \<and> list_all (\<lambda>m. sm_UpdatedAtUnixMilli m \<noteq> 0) ms \<and> listing_ordered ms)]"

definition emptySessionID :: "'w host_store \<Rightarrow> 'w battery_step list" where
  "emptySessionID store =
     [succeeds (hs_Delete store (mainKey [])),
      refused (\<lambda>e. e = SessionIDRequired) (hs_Replace store (mainKey []) [replacement (mainKey []) []]),
      loads store [] (\<lambda>g. g = None)]"

text \<open>The writer alternates two values, the reader compares the two records; \<open>turns\<close> says who is next.\<close>

definition write_both :: "'w host_store \<Rightarrow> string \<Rightarrow> 'w battery_step" where
  "write_both store v = succeeds (hs_Replace store (mainKey ''s'')
     [replacement (mainKey ''s'') [v], replacement (subKey ''s'' configSubpath) [v]])"

fun generation_turns :: "'w host_store \<Rightarrow> bool list \<Rightarrow> nat \<Rightarrow> 'w battery_step list" where
  \<open>generation_turns store [] n = []\<close>
| \<open>generation_turns store (True # turns) n =
     write_both store (if even n then ''{"generation":2}'' else ''{"generation":1}'') # generation_turns store turns (Suc n)\<close>
| \<open>generation_turns store (False # turns) n =
     loads store ''s'' (\<lambda>g. rows_at [] g = rows_at configSubpath g) # generation_turns store turns n\<close>

definition concurrentGeneration :: "bool list \<Rightarrow> 'w host_store \<Rightarrow> 'w battery_step list" where
  \<open>concurrentGeneration turns store = write_both store ''{"generation":0}'' # generation_turns store turns 0\<close>

definition appendExtends :: "'w host_store \<Rightarrow> 'w battery_step list" where
  \<open>appendExtends store =
     [succeeds (publish store ''s'' [''{"a":1}''] [replacement (subKey ''s'' configSubpath) [''{"c":1}''], replacement (subKey ''s'' ''kept'') [''{"k":1}'']]),
      succeeds (hs_Append store (mainKey ''s'') 1 [''{"b":2}'', ''{"c":3}''] [replacement (subKey ''s'' configSubpath) [''{"c":2}'']]),
      succeeds (hs_Append store (mainKey ''s'') 3 [] []),
      loads store ''s'' (\<lambda>g. g = Some [[] \<mapsto> [''{"a":1}'', ''{"b":2}'', ''{"c":3}''], configSubpath \<mapsto> [''{"c":2}''], ''kept'' \<mapsto> [''{"k":1}'']]),
      lists store (\<lambda>ms. map sm_SessionID ms = [''s''])]\<close>

definition appendRefusesStale :: "'w host_store \<Rightarrow> 'w battery_step list" where
  \<open>appendRefusesStale store =
     [succeeds (publish store ''s'' [''{"a":1}''] [replacement (subKey ''s'' configSubpath) [''{"c":1}'']]),
      refused any_error (hs_Append store (mainKey ''s'') 0 [''{"b":2}''] [replacement (subKey ''s'' configSubpath) [''{"c":2}'']]),
      refused any_error (hs_Append store (mainKey ''s'') 2 [''{"b":2}''] [replacement (subKey ''s'' configSubpath) [''{"c":2}'']]),
      refused any_error (hs_Append store (mainKey ''never'') 0 [''{"b":2}''] []),
      loads store ''s'' (\<lambda>g. g = Some [[] \<mapsto> [''{"a":1}''], configSubpath \<mapsto> [''{"c":1}'']]),
      loads store ''never'' (\<lambda>g. g = None)]\<close>

definition appendRefusesBadKeys :: "'w host_store \<Rightarrow> 'w battery_step list" where
  \<open>appendRefusesBadKeys store =
     [succeeds (publish store ''s'' [''{"keep":true}''] []),
      refused any_error (hs_Append store (mainKey ''s'') 1 [''{"b":2}''] [replacement (mainKey ''s'') [''{}'']]),
      refused any_error (hs_Append store (mainKey ''s'') 1 [''{"b":2}''] [replacement (subKey ''other'' ''x'') []]),
      refused any_error (hs_Append store (mainKey ''s'') 1 [''{"b":2}''] [replacement (subKey ''s'' ''x'') [], replacement (subKey ''s'' ''x'') []]),
      refused any_error (hs_Append store (subKey ''s'' ''x'') 1 [''{"b":2}''] []),
      loads store ''s'' (\<lambda>g. g = Some [[] \<mapsto> [''{"keep":true}'']])]\<close>

definition appendDeleted :: "'w host_store \<Rightarrow> 'w battery_step list" where
  \<open>appendDeleted store =
     [succeeds (publish store ''s'' [''{}''] []),
      succeeds (hs_Delete store (mainKey ''s'')),
      succeeds (hs_Append store (mainKey ''s'') 1 [''{"late":true}''] [replacement (subKey ''s'' configSubpath) [''{}'']]),
      loads store ''s'' (\<lambda>g. g = None)]\<close>

definition appendEmptySessionID :: "'w host_store \<Rightarrow> 'w battery_step list" where
  "appendEmptySessionID store = [refused (\<lambda>e. e = SessionIDRequired) (hs_Append store (mainKey []) 0 [''{}''] [])]"

definition rows_marker :: "nat \<Rightarrow> SessionStoreEntry list" where
  \<open>rows_marker n = [''{"rows":'' @ show_nat n @ ''}'']\<close>

fun append_turns :: "'w host_store \<Rightarrow> bool list \<Rightarrow> nat \<Rightarrow> 'w battery_step list" where
  \<open>append_turns store [] n = []\<close>
| \<open>append_turns store (True # turns) n =
     succeeds (hs_Append store (mainKey ''s'') (int n) [''{"row":true}''] [replacement (subKey ''s'' configSubpath) (rows_marker (Suc n))])
       # append_turns store turns (Suc n)\<close>
| \<open>append_turns store (False # turns) n =
     loads store ''s'' (\<lambda>g. rows_at configSubpath g = rows_marker (length (rows_at [] g))) # append_turns store turns n\<close>

definition concurrentAppend :: "bool list \<Rightarrow> 'w host_store \<Rightarrow> 'w battery_step list" where
  "concurrentAppend turns store =
     succeeds (publish store ''s'' [] [replacement (subKey ''s'' configSubpath) (rows_marker 0)]) # append_turns store turns 0"

definition appendAfterShorterReplace :: "'w host_store \<Rightarrow> 'w battery_step list" where
  \<open>appendAfterShorterReplace store =
     [succeeds (publish store ''s'' [''{"a":1}'', ''{"b":2}''] []),
      succeeds (hs_Append store (mainKey ''s'') 2 [''{"c":3}''] []),
      succeeds (publish store ''s'' [''{"x":1}''] []),
      refused any_error (hs_Append store (mainKey ''s'') 3 [''{"y":2}''] []),
      succeeds (hs_Append store (mainKey ''s'') 1 [''{"y":2}''] []),
      loads store ''s'' (\<lambda>g. rows_at [] g = [''{"x":1}'', ''{"y":2}''])]\<close>

text \<open>Two listings about an append, with time between.\<close>

definition append_between :: "'w host_store \<Rightarrow> 'w battery_step" where
  \<open>append_between store w =
     (case hs_List store w of
        (Inr [old], w) \<Rightarrow>
          (case hs_Append store (mainKey ''s'') 1 [''{"b":2}''] [] (hs_Sleep store w) of
             (None, w) \<Rightarrow>
               (case hs_List store w of
                  (Inr [new], w) \<Rightarrow> (sm_UpdatedAtUnixMilli new > sm_UpdatedAtUnixMilli old, w)
                | (listing, w) \<Rightarrow> (False, w))
           | (Some e, w) \<Rightarrow> (False, w))
      | (listing, w) \<Rightarrow> (False, w))\<close>

definition appendAdvancesUpdatedAt :: "'w host_store \<Rightarrow> 'w battery_step list" where
  \<open>appendAdvancesUpdatedAt store = [succeeds (publish store ''s'' [''{"a":1}''] []), append_between store]\<close>

definition appendAfterSubpathDelete :: "'w host_store \<Rightarrow> 'w battery_step list" where
  \<open>appendAfterSubpathDelete store =
     [succeeds (publish store ''s'' [''{}''] [replacement (subKey ''s'' ''a'') [''{"v":1}''], replacement (subKey ''s'' ''b'') [''{"v":1}'']]),
      succeeds (hs_Delete store (subKey ''s'' ''a'')),
      succeeds (hs_Delete store (subKey ''s'' ''b'')),
      succeeds (hs_Append store (mainKey ''s'') 1 [''{"row":2}''] [replacement (subKey ''s'' ''b'') [''{"v":2}'']]),
      loads store ''s'' (\<lambda>g. g = Some [[] \<mapsto> [''{}'', ''{"row":2}''], ''b'' \<mapsto> [''{"v":2}'']])]\<close>

text \<open>The battery, each case on a fresh store.\<close>

definition battery :: "bool list \<Rightarrow> bool list \<Rightarrow> ('w host_store \<Rightarrow> 'w battery_step list) list" where
  "battery generations appends =
     [replaceAndLoad, loadMissing, loadEmptyMain, concurrentGeneration generations, replaceGeneration, replaceEmptySubpath,
      replaceRevivesSubpath, replaceRefusesBadKeys, replaceRefusesNonMain, deleteMainIsFinal, deleteSubpath, deleteMissing, listSessions,
      emptySessionID, appendExtends, appendRefusesStale, appendRefusesBadKeys, appendDeleted, concurrentAppend appends,
      appendEmptySessionID, appendAfterShorterReplace, appendAdvancesUpdatedAt, appendAfterSubpathDelete]"

definition battery_Run :: "bool list \<Rightarrow> bool list \<Rightarrow> 'w host_store \<Rightarrow> 'w \<Rightarrow> bool" where
  "battery_Run generations appends store fresh \<longleftrightarrow> list_all (\<lambda>c. passes (c store) fresh) (battery generations appends)"

end
