(* ===== verification/ConformanceProps.thy ===== *)
theory ConformanceProps
  imports Conformance
begin

text \<open>
  The battery against the contract: a store that answers every call as the contract says passes every case, whatever
  the interleaving of the two concurrent ones and however long they run.  The locale \<open>strict_store\<close> states what
  such a store answers; the store in memory, under a clock that does not run backwards, is one.
\<close>

section \<open>What a store that keeps the contract answers\<close>

definition replace_fault :: "SessionKey \<Rightarrow> SessionStoreReplacement list \<Rightarrow> store_error option" where
  "replace_fault m rs =
     (if key_SessionID m = [] then Some SessionIDRequired
      else if key_Subpath m \<noteq> SessionStoreMainSubpath then Some MainSubpathRequired
      else validateReplacements m rs)"

definition append_fault :: "SessionKey \<Rightarrow> int \<Rightarrow> SessionStoreReplacement list \<Rightarrow> session_phase \<Rightarrow> store_error option" where
  "append_fault m base rs p =
     (if key_SessionID m = [] then Some SessionIDRequired
      else if key_Subpath m \<noteq> SessionStoreMainSubpath then Some MainSubpathRequired
      else case validateAppendReplacements m rs of
        Some e \<Rightarrow> Some e
      | None \<Rightarrow>
          (case p of
             Missing \<Rightarrow> Some (NoGeneration (key_SessionID m))
           | Gone \<Rightarrow> None
           | Live g \<Rightarrow> if int (length (main_rows g)) \<noteq> base then Some (StaleBase base (length (main_rows g))) else None))"

definition listing_of :: "(string \<Rightarrow> session_phase) \<Rightarrow> (string \<Rightarrow> int) \<Rightarrow> SessionSummary list \<Rightarrow> bool" where
  "listing_of p stamp ms \<longleftrightarrow> distinct (map sm_SessionID ms) \<and> set (map sm_SessionID ms) = {i. readable (p i) \<noteq> None} \<and>
     sorted_wrt newer ms \<and> (\<forall>m \<in> set ms. sm_UpdatedAtUnixMilli m = stamp (sm_SessionID m))"

locale strict_store =
  fixes store :: "'w host_store" and valid :: "'w \<Rightarrow> bool" and phase :: "'w \<Rightarrow> string \<Rightarrow> session_phase"
    and stamp :: "'w \<Rightarrow> string \<Rightarrow> int" and clock :: "'w \<Rightarrow> int"
  assumes load_answers: "valid w \<Longrightarrow> \<exists>v. hs_Load store i w = (Inr (readable (phase w i)), v) \<and> valid v \<and> phase v = phase w"
    and replace_answers: "valid w \<Longrightarrow> \<exists>v. hs_Replace store m rs w = (replace_fault m rs, v) \<and> valid v \<and>
      phase v = (if replace_fault m rs = None then (phase w)(key_SessionID m := replaced rs (phase w (key_SessionID m))) else phase w)"
    and append_answers: "valid w \<Longrightarrow> \<exists>v. hs_Append store m base es rs w = (append_fault m base rs (phase w (key_SessionID m)), v) \<and> valid v \<and>
      phase v = (if append_fault m base rs (phase w (key_SessionID m)) = None
        then (phase w)(key_SessionID m := extended es rs (phase w (key_SessionID m))) else phase w)"
    and append_stamps: "valid w \<Longrightarrow> hs_Append store m base es rs w = (None, v) \<Longrightarrow> phase w (key_SessionID m) = Live g \<Longrightarrow>
      stamp v (key_SessionID m) \<ge> clock w"
    and delete_answers: "valid w \<Longrightarrow> \<exists>v. hs_Delete store k w = (None, v) \<and> valid v \<and>
      phase v = (phase w)(key_SessionID k := erased k (phase w (key_SessionID k)))"
    and list_answers: "valid w \<Longrightarrow> \<exists>ms v. hs_List store w = (Inr ms, v) \<and> valid v \<and> phase v = phase w \<and>
      clock w \<le> clock v \<and> listing_of (phase w) (stamp w) ms"
    and sleep_passes: "valid w \<Longrightarrow> valid (hs_Sleep store w) \<and> phase (hs_Sleep store w) = phase w \<and> clock w < clock (hs_Sleep store w)"
    and stamp_bounds: "valid w \<Longrightarrow> phase w i = Live g \<Longrightarrow> 0 < stamp w i \<and> stamp w i \<le> clock w"
begin

text \<open>The steps pass from every valid world that holds these sessions.\<close>

definition holds :: "(string \<Rightarrow> session_phase) \<Rightarrow> 'w battery_step list \<Rightarrow> bool" where
  "holds p steps \<longleftrightarrow> (\<forall>w. valid w \<longrightarrow> phase w = p \<longrightarrow> passes steps w)"

lemma holds_Nil: "holds p []"
  by (simp add: holds_def)

lemma holds_step:
  assumes "\<And>w. valid w \<Longrightarrow> phase w = p \<Longrightarrow> \<exists>v. step w = (True, v) \<and> valid v \<and> phase v = q" "holds q steps"
  shows "holds p (step # steps)"
  unfolding holds_def
proof (intro allI impI)
  fix w assume "valid w" "phase w = p"
  from assms(1)[OF this] assms(2) show "passes (step # steps) w" by (auto simp: holds_def)
qed

lemma holds_load: "E (readable (p i)) \<Longrightarrow> holds p steps \<Longrightarrow> holds p (loads store i E # steps)"
  by (erule holds_step[rotated]) (use load_answers[of _ i] in \<open>fastforce simp: loads_def\<close>)

lemma holds_replace:
  "replace_fault m rs = None \<Longrightarrow> holds (p(key_SessionID m := replaced rs (p (key_SessionID m)))) steps \<Longrightarrow>
     holds p (succeeds (hs_Replace store m rs) # steps)"
  by (erule holds_step[rotated]) (use replace_answers[of _ m rs] in \<open>fastforce simp: succeeds_def\<close>)

lemma holds_replace_refused:
  "replace_fault m rs = Some e \<Longrightarrow> E e \<Longrightarrow> holds p steps \<Longrightarrow> holds p (refused E (hs_Replace store m rs) # steps)"
  by (erule holds_step[rotated]) (use replace_answers[of _ m rs] in \<open>fastforce simp: refused_def\<close>)

lemma holds_append:
  "append_fault m base rs (p (key_SessionID m)) = None \<Longrightarrow>
     holds (p(key_SessionID m := extended es rs (p (key_SessionID m)))) steps \<Longrightarrow>
     holds p (succeeds (hs_Append store m base es rs) # steps)"
  by (erule holds_step[rotated]) (use append_answers[of _ m base es rs] in \<open>fastforce simp: succeeds_def\<close>)

lemma holds_append_refused:
  "append_fault m base rs (p (key_SessionID m)) = Some e \<Longrightarrow> E e \<Longrightarrow> holds p steps \<Longrightarrow>
     holds p (refused E (hs_Append store m base es rs) # steps)"
  by (erule holds_step[rotated]) (use append_answers[of _ m base es rs] in \<open>fastforce simp: refused_def\<close>)

lemma holds_delete:
  "holds (p(key_SessionID k := erased k (p (key_SessionID k)))) steps \<Longrightarrow> holds p (succeeds (hs_Delete store k) # steps)"
  by (erule holds_step[rotated]) (use delete_answers[of _ k] in \<open>fastforce simp: succeeds_def\<close>)

lemma readable_iff: "readable q \<noteq> None \<longleftrightarrow> (\<exists>g. q = Live g)"
  by (cases q) (simp_all add: readable_def)

lemma listed_stamps:
  assumes "valid w" "listing_of (phase w) (stamp w) ms" "m \<in> set ms"
  shows "0 < sm_UpdatedAtUnixMilli m \<and> sm_UpdatedAtUnixMilli m \<le> clock w"
proof -
  have "sm_SessionID m \<in> {i. readable (phase w i) \<noteq> None}" using assms(2,3) unfolding listing_of_def by (metis image_eqI set_map)
  then obtain g where "phase w (sm_SessionID m) = Live g" unfolding readable_iff by blast
  then show ?thesis using stamp_bounds[OF assms(1)] assms(2,3) by (simp add: listing_of_def)
qed

lemma holds_list:
  assumes "\<And>t ms. listing_of p t ms \<Longrightarrow> \<forall>m \<in> set ms. 0 < sm_UpdatedAtUnixMilli m \<Longrightarrow> E ms" "holds p steps"
  shows "holds p (lists store E # steps)"
  unfolding holds_def
proof (intro allI impI)
  fix w assume w: "valid w" "phase w = p"
  from list_answers[OF w(1)] obtain ms v where l: "hs_List store w = (Inr ms, v)" "valid v" "phase v = phase w" "listing_of (phase w) (stamp w) ms"
    by blast
  have "E ms" using assms(1) l(4) listed_stamps[OF w(1) l(4)] w(2) by blast
  moreover have "passes steps v" using assms(2) l(2,3) w(2) by (simp add: holds_def)
  ultimately show "passes (lists store E # steps) w" using l(1) by (simp add: lists_def)
qed

lemma sole_listing: "listing_of p t ms \<Longrightarrow> {i. readable (p i) \<noteq> None} = {s} \<Longrightarrow> \<exists>m. ms = [m] \<and> sm_SessionID m = s \<and> sm_UpdatedAtUnixMilli m = t s"
  by (cases ms rule: remdups_adj.cases) (auto simp: listing_of_def)

lemma holds_between:
  assumes "append_fault (mainKey ''s'') 1 [] (p ''s'') = None" "p ''s'' = Live g" "{i. readable (p i) \<noteq> None} = {''s''}"
  shows "holds p [append_between store]"
  unfolding holds_def
proof (intro allI impI)
  fix w assume w: "valid w" "phase w = p"
  let ?row = "[''{\"b\":2}'']"
  from list_answers[OF w(1)] obtain ms v where v: "hs_List store w = (Inr ms, v)" "valid v" "phase v = p" "clock w \<le> clock v"
    "listing_of p (stamp w) ms" using w(2) by blast
  from sole_listing[OF v(5) assms(3)] obtain old where old: "ms = [old]" "sm_UpdatedAtUnixMilli old = stamp w ''s''" by blast
  let ?u = "hs_Sleep store v"
  have u: "valid ?u" "phase ?u = p" "clock v < clock ?u" using sleep_passes[OF v(2)] v(3) by auto
  have "append_fault (mainKey ''s'') 1 [] (phase ?u (key_SessionID (mainKey ''s''))) = None"
    using assms(1) u(2) by (simp add: mainKey_def)
  from append_answers[OF u(1), of "mainKey ''s''" 1 ?row "[]"] this obtain x where
    x: "hs_Append store (mainKey ''s'') 1 ?row [] ?u = (None, x)" "valid x" "phase x = (phase ?u)(''s'' := extended ?row [] (phase ?u ''s''))"
    by (auto simp: mainKey_def)
  have later: "stamp x ''s'' \<ge> clock ?u" using append_stamps[OF u(1) x(1)] u(2) assms(2) by (simp add: mainKey_def)
  have "{i. readable (phase x i) \<noteq> None} = {''s''}" using assms(2,3) x(3) u(2) by (auto simp: phase_defs)
  from list_answers[OF x(2)] sole_listing[OF _ this] obtain new y where
    "hs_List store x = (Inr [new], y)" "sm_UpdatedAtUnixMilli new = stamp x ''s''" by metis
  moreover have "stamp w ''s'' \<le> clock w" using stamp_bounds[OF w(1)] w(2) assms(2) by blast
  ultimately show "passes [append_between store] w" using v(1,4) u(3) x(1) old later by (simp add: append_between_def)
qed

subsection \<open>Each case\<close>

abbreviation fresh :: "string \<Rightarrow> session_phase" where "fresh \<equiv> (\<lambda>i. Missing)"

lemmas key_defs = mainKey_def subKey_def replacement_def publish_def SessionStoreMainSubpath_def configSubpath_def any_error_def

lemmas fault_defs = replace_fault_def append_fault_def validateReplacements_def validateAppendReplacements_def

lemmas outcome_defs = phase_defs erased_def listed_def main_rows_def rows_at_def

text \<open>The sessions a listing names, when there is one and when there is none.\<close>

lemma holds_list_one:
  assumes "\<forall>i. (\<exists>g. p i = Live g) \<longleftrightarrow> i = s" "holds p steps"
  shows "holds p (lists store (\<lambda>ms. map sm_SessionID ms = [s]) # steps)"
proof (rule holds_list[OF _ assms(2)])
  fix t ms assume l: "listing_of p t ms"
  have "{i. readable (p i) \<noteq> None} = {s}" unfolding readable_iff assms(1)[rule_format] by (rule singleton_conv)
  from sole_listing[OF l this] obtain m where "ms = [m]" "sm_SessionID m = s" by blast
  then show "map sm_SessionID ms = [s]" by simp
qed

lemma holds_list_none:
  assumes "\<forall>i g. p i \<noteq> Live g" "holds p steps"
  shows "holds p (lists store (\<lambda>ms. ms = []) # steps)"
proof (rule holds_list[OF _ assms(2)])
  fix t ms assume "listing_of p t ms"
  moreover have "{i. readable (p i) \<noteq> None} = {}" using assms(1) unfolding readable_iff by blast
  ultimately show "ms = []" by (simp add: listing_of_def)
qed

lemmas step_rules = holds_Nil holds_load holds_replace holds_replace_refused holds_append holds_append_refused holds_delete
  holds_list_one holds_list_none

lemmas in_order =
  fun_upd_twist[of "''config''" "[]"] fun_upd_twist[of "''kept''" "[]"] fun_upd_twist[of "''kept''" "''config''"]

lemma case_replaceAndLoad: "holds fresh (replaceAndLoad store)"
  by (simp add: replaceAndLoad_def step_rules key_defs fault_defs outcome_defs)

lemma case_loadMissing: "holds fresh (loadMissing store)"
  by (simp add: loadMissing_def step_rules key_defs fault_defs outcome_defs)

lemma case_loadEmptyMain: "holds fresh (loadEmptyMain store)"
  by (simp add: loadEmptyMain_def step_rules key_defs fault_defs outcome_defs)

lemma case_replaceGeneration: "holds fresh (replaceGeneration store)"
  by (simp add: replaceGeneration_def step_rules key_defs fault_defs outcome_defs)

lemma case_replaceEmptySubpath: "holds fresh (replaceEmptySubpath store)"
  by (simp add: replaceEmptySubpath_def step_rules key_defs fault_defs outcome_defs)

lemma case_replaceRevivesSubpath: "holds fresh (replaceRevivesSubpath store)"
  by (simp add: replaceRevivesSubpath_def step_rules key_defs fault_defs outcome_defs)

lemma case_replaceRefusesBadKeys: "holds fresh (replaceRefusesBadKeys store)"
  by (simp add: replaceRefusesBadKeys_def step_rules key_defs fault_defs outcome_defs)

lemma case_replaceRefusesNonMain: "holds fresh (replaceRefusesNonMain store)"
  by (simp add: replaceRefusesNonMain_def step_rules key_defs fault_defs outcome_defs)

lemma case_deleteMainIsFinal: "holds fresh (deleteMainIsFinal store)"
  by (simp add: deleteMainIsFinal_def step_rules key_defs fault_defs outcome_defs)

lemma case_deleteSubpath: "holds fresh (deleteSubpath store)"
  by (simp add: deleteSubpath_def step_rules key_defs fault_defs outcome_defs)

lemma case_deleteMissing: "holds fresh (deleteMissing store)"
  by (simp add: deleteMissing_def step_rules key_defs)

lemma case_emptySessionID: "holds fresh (emptySessionID store)"
  by (simp add: emptySessionID_def step_rules key_defs fault_defs outcome_defs)

lemma case_appendExtends: "holds fresh (appendExtends store)"
  by (simp add: appendExtends_def step_rules key_defs fault_defs outcome_defs in_order)

lemma case_appendRefusesStale: "holds fresh (appendRefusesStale store)"
  by (simp add: appendRefusesStale_def step_rules key_defs fault_defs outcome_defs)

lemma case_appendRefusesBadKeys: "holds fresh (appendRefusesBadKeys store)"
  by (simp add: appendRefusesBadKeys_def step_rules key_defs fault_defs outcome_defs)

lemma case_appendDeleted: "holds fresh (appendDeleted store)"
  by (simp add: appendDeleted_def step_rules key_defs fault_defs outcome_defs)

lemma case_appendEmptySessionID: "holds fresh (appendEmptySessionID store)"
  by (simp add: appendEmptySessionID_def step_rules key_defs fault_defs outcome_defs)

lemma case_appendAfterShorterReplace: "holds fresh (appendAfterShorterReplace store)"
  by (simp add: appendAfterShorterReplace_def step_rules key_defs fault_defs outcome_defs)

lemma case_appendAfterSubpathDelete: "holds fresh (appendAfterSubpathDelete store)"
  by (simp add: appendAfterSubpathDelete_def step_rules key_defs fault_defs outcome_defs)

lemma newer_ordered: "sorted_wrt newer ms \<Longrightarrow> listing_ordered ms"
  by (induction ms rule: listing_ordered.induct) (auto simp: newer_def)

lemma case_listSessions: "holds fresh (listSessions store)"
proof -
  let ?p = "fresh(''b'' := Live [[] \<mapsto> [''{}'']], ''a'' := Live [[] \<mapsto> [''{}''], ''x'' \<mapsto> [''{}'']])"
  have "holds ?p [lists store (\<lambda>ms. length ms = 2 \<and> list_all (\<lambda>m. sm_UpdatedAtUnixMilli m \<noteq> 0) ms \<and> listing_ordered ms)]"
  proof (rule holds_list[OF _ holds_Nil])
    fix t ms assume l: "listing_of ?p t ms" "\<forall>m \<in> set ms. 0 < sm_UpdatedAtUnixMilli m"
    have "readable (?p i) \<noteq> None \<longleftrightarrow> i \<in> {''a'', ''b''}" for i by (simp add: readable_def)
    then have live: "{i. readable (?p i) \<noteq> None} = {''a'', ''b''}" by blast
    have d: "distinct (map sm_SessionID ms)" "set (map sm_SessionID ms) = {''a'', ''b''}"
      using l(1) unfolding listing_of_def live by (iprover elim: conjE)+
    have "length (map sm_SessionID ms) = card {''a'', ''b''}" using distinct_card[OF d(1)] unfolding d(2) by (rule sym)
    then have "length ms = 2" by simp
    moreover have "list_all (\<lambda>m. sm_UpdatedAtUnixMilli m \<noteq> 0) ms" using l(2) by (auto simp: list_all_iff)
    ultimately show "length ms = 2 \<and> list_all (\<lambda>m. sm_UpdatedAtUnixMilli m \<noteq> 0) ms \<and> listing_ordered ms"
      using newer_ordered[of ms] l(1) unfolding listing_of_def by iprover
  qed
  then show ?thesis by (simp add: listSessions_def step_rules key_defs fault_defs outcome_defs)
qed

lemma turns_generation:
  "rows_at [] (Some g) = rows_at configSubpath (Some g) \<Longrightarrow> p ''s'' = Live g \<Longrightarrow> holds p (generation_turns store turns n)"
proof (induction turns arbitrary: n g p)
  case (Cons t turns)
  show ?case
  proof (cases t)
    case True
    have "holds (p(''s'' := replaced rs (p ''s''))) (generation_turns store turns (Suc n))"
      if "rs = [replacement (mainKey ''s'') [v], replacement (subKey ''s'' configSubpath) [v]]" for rs v
      using that Cons.prems by (intro Cons.IH[of "listed rs Map.empty"]) (simp_all add: key_defs outcome_defs fun_upd_def)
    from this[OF refl] True show ?thesis by (simp add: write_both_def step_rules key_defs fault_defs)
  next
    case False
    with Cons show ?thesis by (simp add: step_rules readable_def)
  qed
qed (simp add: holds_Nil)

lemma case_concurrentGeneration: "holds fresh (concurrentGeneration turns store)"
proof -
  have "holds (fresh(''s'' := replaced rs Missing)) (generation_turns store turns 0)"
    if "rs = [replacement (mainKey ''s'') [v], replacement (subKey ''s'' configSubpath) [v]]" for rs v
    using that by (intro turns_generation[of "listed rs Map.empty"]) (simp_all add: key_defs outcome_defs fun_upd_def)
  from this[OF refl] show ?thesis by (simp add: concurrentGeneration_def write_both_def step_rules key_defs fault_defs)
qed

lemma turns_append:
  "length (rows_at [] (Some g)) = n \<Longrightarrow> rows_at configSubpath (Some g) = rows_marker n \<Longrightarrow> p ''s'' = Live g \<Longrightarrow>
     holds p (append_turns store turns n)"
proof (induction turns arbitrary: n g p)
  case (Cons t turns)
  show ?case
  proof (cases t)
    case True
    let ?rs = "[replacement (subKey ''s'' configSubpath) (rows_marker (Suc n))]"
    let ?g = "listed ?rs (g(SessionStoreMainSubpath \<mapsto> main_rows g @ [''{\"row\":true}'']))"
    have "holds (p(''s'' := extended [''{\"row\":true}''] ?rs (p ''s''))) (append_turns store turns (Suc n))"
      using Cons.prems by (intro Cons.IH[of ?g]) (simp_all add: key_defs outcome_defs fun_upd_def)
    moreover have "append_fault (mainKey ''s'') (int n) ?rs (p ''s'') = None"
      using Cons.prems by (simp add: key_defs fault_defs outcome_defs)
    ultimately show ?thesis using True by (simp add: holds_append mainKey_def)
  next
    case False
    with Cons show ?thesis by (simp add: step_rules readable_def)
  qed
qed (simp add: holds_Nil)

lemma case_concurrentAppend: "holds fresh (concurrentAppend turns store)"
proof -
  let ?rs = "[replacement (mainKey ''s'') [], replacement (subKey ''s'' configSubpath) (rows_marker 0)]"
  have "holds (fresh(''s'' := replaced ?rs Missing)) (append_turns store turns 0)"
    by (rule turns_append[of "listed ?rs Map.empty"]) (simp_all add: key_defs outcome_defs fun_upd_def)
  then show ?thesis by (simp add: concurrentAppend_def step_rules key_defs fault_defs)
qed

lemma case_appendAdvancesUpdatedAt: "holds fresh (appendAdvancesUpdatedAt store)"
  by (simp add: appendAdvancesUpdatedAt_def step_rules key_defs fault_defs outcome_defs holds_between)

lemmas cases_hold =
  case_replaceAndLoad case_loadMissing case_loadEmptyMain case_concurrentGeneration case_replaceGeneration case_replaceEmptySubpath
  case_replaceRevivesSubpath case_replaceRefusesBadKeys case_replaceRefusesNonMain case_deleteMainIsFinal case_deleteSubpath
  case_deleteMissing case_listSessions case_emptySessionID case_appendExtends case_appendRefusesStale case_appendRefusesBadKeys
  case_appendDeleted case_concurrentAppend case_appendEmptySessionID case_appendAfterShorterReplace case_appendAdvancesUpdatedAt
  case_appendAfterSubpathDelete

lemma battery_passes: "valid w \<Longrightarrow> phase w = fresh \<Longrightarrow> battery_Run generations appends store w"
  using cases_hold unfolding holds_def by (simp add: battery_Run_def battery_def)

end

section \<open>The store in memory passes\<close>

text \<open>A host serves the store in memory to the battery: sleeping moves every later reading of the clock.\<close>

definition battery_store :: "memory_host host_store" where
  "battery_store =
     \<lparr>hs_Load = (\<lambda>i. host_call (\<lambda>c s. (store_Load c i s, s))),
      hs_Replace = (\<lambda>m rs. host_call (\<lambda>c. store_Replace c m rs)),
      hs_Append = (\<lambda>m base es rs. host_call (\<lambda>c. store_Append c m base es rs)),
      hs_Delete = (\<lambda>k. host_call (\<lambda>c. store_Delete c k)),
      hs_List = host_call (\<lambda>c s. (store_ListSessions c s, s)),
      hs_Sleep = (\<lambda>h. h\<lparr>mh_calls := (\<lambda>n. (mh_calls h n)\<lparr>cl_now := cl_now (mh_calls h n) + 5\<rparr>)\<rparr>)\<rparr>"

definition host_now :: "memory_host \<Rightarrow> int" where
  "host_now h = cl_now (mh_calls h (mh_tick h))"

definition host_stamp :: "memory_host \<Rightarrow> string \<Rightarrow> int" where
  "host_stamp h i = (case map_of (ms_sessions (mh_store h)) i of None \<Rightarrow> 0 | Some r \<Rightarrow> ss_updatedAt r)"

text \<open>No context ends, and the clock is past the epoch and never runs backwards.\<close>

definition steady :: "(nat \<Rightarrow> call) \<Rightarrow> bool" where
  "steady calls \<longleftrightarrow> (\<forall>n. cl_Err (calls n) = None \<and> 0 < cl_now (calls n) \<and> cl_now (calls n) \<le> cl_now (calls (Suc n)))"

definition stamped :: "int \<Rightarrow> (string \<times> storedSession) list \<Rightarrow> bool" where
  "stamped t xs \<longleftrightarrow> (\<forall>(i, r) \<in> set xs. 0 < ss_updatedAt r \<and> ss_updatedAt r \<le> t)"

definition battery_valid :: "memory_host \<Rightarrow> bool" where
  "battery_valid h \<longleftrightarrow> store_wf (mh_store h) \<and> steady (mh_calls h) \<and> stamped (host_now h) (ms_sessions (mh_store h))"

abbreviation host_phase :: "memory_host \<Rightarrow> string \<Rightarrow> session_phase" where
  "host_phase h \<equiv> memory_phase (mh_store h)"

lemma stamped_later: "stamped t xs \<Longrightarrow> t \<le> u \<Longrightarrow> stamped u xs"
  by (fastforce simp: stamped_def)

lemma stamped_update: "stamped t xs \<Longrightarrow> 0 < ss_updatedAt r \<Longrightarrow> ss_updatedAt r \<le> t \<Longrightarrow> stamped t (AList.update i r xs)"
  unfolding stamped_def by (induction xs) auto

lemma stamped_delete: "stamped t xs \<Longrightarrow> stamped t (AList.delete i xs)"
  unfolding stamped_def by (induction xs) auto

lemma stamped_lookup: "stamped t xs \<Longrightarrow> map_of xs i = Some r \<Longrightarrow> 0 < ss_updatedAt r \<and> ss_updatedAt r \<le> t"
  unfolding stamped_def by (fastforce dest: map_of_SomeD)

text \<open>A call under a live context, and the host after it.\<close>

lemma host_answers:
  assumes "battery_valid h" and "f (mh_calls h (mh_tick h)) (mh_store h) = (r, s)" and "store_wf s"
    and "stamped (host_now h) (ms_sessions s)"
  shows "host_call f h = (r, h\<lparr>mh_store := s, mh_tick := Suc (mh_tick h)\<rparr>) \<and>
    battery_valid (h\<lparr>mh_store := s, mh_tick := Suc (mh_tick h)\<rparr>)"
  using assms stamped_later by (auto simp: battery_valid_def host_call_def host_now_def steady_def)

lemma live_call: "battery_valid h \<Longrightarrow> cl_Err (mh_calls h (mh_tick h)) = None \<and> 0 < cl_now (mh_calls h (mh_tick h))"
  by (simp add: battery_valid_def steady_def)

lemma Replace_stamped:
  "stamped t (ms_sessions s) \<Longrightarrow> 0 < cl_now c \<Longrightarrow> cl_now c \<le> t \<Longrightarrow> stamped t (ms_sessions (snd (store_Replace c m rs s)))"
  using Replace_decided[of c m rs s "fst (store_Replace c m rs s)" "snd (store_Replace c m rs s)"]
  by (auto simp: stamped_update)

lemma Append_stamped:
  "stamped t (ms_sessions s) \<Longrightarrow> 0 < cl_now c \<Longrightarrow> cl_now c \<le> t \<Longrightarrow> stamped t (ms_sessions (snd (store_Append c m base es rs s)))"
  using Append_decided[of c m base es rs s "fst (store_Append c m base es rs s)" "snd (store_Append c m base es rs s)"]
  by (auto simp: stamped_update appended_def)

lemma Delete_stamped:
  assumes "stamped t (ms_sessions s)"
  shows "stamped t (ms_sessions (snd (store_Delete c k s)))"
proof (cases "map_of (ms_sessions s) (key_SessionID k)")
  case None
  then show ?thesis using assms by (simp add: store_Delete_def stamped_delete split: option.split)
next
  case (Some r)
  then show ?thesis using assms stamped_lookup[OF assms Some]
    by (simp add: store_Delete_def stamped_delete stamped_update split: option.split)
qed

lemma Replace_answer:
  "cl_Err c = None \<Longrightarrow> fst (store_Replace c m rs s) = replace_fault m rs"
  by (simp add: store_Replace_def replace_fault_def split: option.split)

lemma Append_answer:
  "store_wf s \<Longrightarrow> cl_Err c = None \<Longrightarrow> fst (store_Append c m base es rs s) = append_fault m base rs (memory_phase s (key_SessionID m))"
  by (auto simp: store_Append_def append_fault_def memory_phase_def store_wf_def Let_def split: option.split)

lemma Delete_answer: "cl_Err c = None \<Longrightarrow> fst (store_Delete c k s) = None"
  by (simp add: store_Delete_def split: option.split)

lemma live_ids:
  assumes "store_wf s"
  shows "set (map fst (ms_sessions s)) = {i. readable (memory_phase s i) \<noteq> None}"
proof -
  have "i \<in> set (map fst (ms_sessions s)) \<longleftrightarrow> readable (memory_phase s i) \<noteq> None" for i
  proof (cases "map_of (ms_sessions s) i")
    case None
    moreover have "i \<notin> set (map fst (ms_sessions s))" using None by (simp add: map_of_eq_None_iff)
    ultimately show ?thesis by (simp add: memory_phase_def readable_def)
  next
    case (Some r)
    then have "i \<in> set (map fst (ms_sessions s))" by (force dest: map_of_SomeD)
    then show ?thesis using wf_live[OF assms Some] Some by (simp add: memory_phase_def readable_def)
  qed
  then show ?thesis by blast
qed

lemma List_answer:
  assumes "store_wf s" and "cl_Err c = None"
  shows "\<exists>ms. store_ListSessions c s = Inr ms \<and>
    listing_of (memory_phase s) (\<lambda>i. case map_of (ms_sessions s) i of None \<Rightarrow> 0 | Some r \<Rightarrow> ss_updatedAt r) ms"
proof -
  let ?raw = "map (\<lambda>(i, r). \<lparr>sm_SessionID = i, sm_UpdatedAtUnixMilli = ss_updatedAt r\<rparr>) (ms_sessions s)"
  let ?ms = "sort_key (\<lambda>m. (- sm_UpdatedAtUnixMilli m, sm_SessionID m)) ?raw"
  have ids: "map sm_SessionID ?raw = map fst (ms_sessions s)" by (simp add: case_prod_beta comp_def)
  have d: "distinct (map fst (ms_sessions s))" using assms(1) by (simp add: store_wf_def)
  have raw: "distinct (map sm_SessionID ?raw)" unfolding ids by (rule d)
  have live: "set (map sm_SessionID ?ms) = {i. readable (memory_phase s i) \<noteq> None}"
    using arg_cong[OF ids, of set] live_ids[OF assms(1)] by (simp only: set_map set_sort)
  have stamps: "sm_UpdatedAtUnixMilli m = (case map_of (ms_sessions s) (sm_SessionID m) of None \<Rightarrow> 0 | Some r \<Rightarrow> ss_updatedAt r)"
    if "m \<in> set ?ms" for m
  proof -
    from that obtain i r where "(i, r) \<in> set (ms_sessions s)" "m = \<lparr>sm_SessionID = i, sm_UpdatedAtUnixMilli = ss_updatedAt r\<rparr>"
      unfolding set_sort by auto
    with map_of_is_SomeI[OF d] show ?thesis by simp
  qed
  have "listing_of (memory_phase s) (\<lambda>i. case map_of (ms_sessions s) i of None \<Rightarrow> 0 | Some r \<Rightarrow> ss_updatedAt r) ?ms"
    unfolding listing_of_def by (intro conjI ballI distinct_sort_key[OF raw] live listing_sorted[OF raw] stamps)
  moreover have "store_ListSessions c s = Inr ?ms" using assms(2) by (simp add: store_ListSessions_def)
  ultimately show ?thesis by iprover
qed

lemma battery_replace:
  assumes "battery_valid h"
  shows "\<exists>v. hs_Replace battery_store m rs h = (replace_fault m rs, v) \<and> battery_valid v \<and>
    host_phase v = (if replace_fault m rs = None then (host_phase h)(key_SessionID m := replaced rs (host_phase h (key_SessionID m))) else host_phase h)"
proof -
  let ?c = "mh_calls h (mh_tick h)" and ?s = "mh_store h"
  have c: "cl_Err ?c = None" "0 < cl_now ?c" using live_call[OF assms] by auto
  have s: "store_wf ?s" "stamped (host_now h) (ms_sessions ?s)" using assms by (auto simp: battery_valid_def)
  have r: "store_Replace ?c m rs ?s = (replace_fault m rs, snd (store_Replace ?c m rs ?s))"
    using Replace_answer[OF c(1)] by (metis prod.collapse)
  have "stamped (host_now h) (ms_sessions (snd (store_Replace ?c m rs ?s)))"
    by (rule Replace_stamped) (use s(2) c(2) in \<open>simp_all add: host_now_def\<close>)
  from host_answers[OF assms, of "\<lambda>c. store_Replace c m rs", OF r _ this] memory_Replace[OF s(1) r] show ?thesis
    by (auto simp: battery_store_def)
qed

lemma battery_append:
  assumes "battery_valid h"
  shows "\<exists>v. hs_Append battery_store m base es rs h = (append_fault m base rs (host_phase h (key_SessionID m)), v) \<and> battery_valid v \<and>
    host_phase v = (if append_fault m base rs (host_phase h (key_SessionID m)) = None
      then (host_phase h)(key_SessionID m := extended es rs (host_phase h (key_SessionID m))) else host_phase h)"
proof -
  let ?c = "mh_calls h (mh_tick h)" and ?s = "mh_store h"
  have c: "cl_Err ?c = None" "0 < cl_now ?c" using live_call[OF assms] by auto
  have s: "store_wf ?s" "stamped (host_now h) (ms_sessions ?s)" using assms by (auto simp: battery_valid_def)
  have r: "store_Append ?c m base es rs ?s =
      (append_fault m base rs (host_phase h (key_SessionID m)), snd (store_Append ?c m base es rs ?s))"
    using Append_answer[OF s(1) c(1)] by (metis prod.collapse)
  have "stamped (host_now h) (ms_sessions (snd (store_Append ?c m base es rs ?s)))"
    by (rule Append_stamped) (use s(2) c(2) in \<open>simp_all add: host_now_def\<close>)
  from host_answers[OF assms, of "\<lambda>c. store_Append c m base es rs", OF r _ this] memory_Append[OF s(1) r] show ?thesis
    by (auto simp: battery_store_def)
qed

lemma battery_append_stamps:
  assumes "battery_valid h" and "hs_Append battery_store m base es rs h = (None, v)" and "host_phase h (key_SessionID m) = Live g"
  shows "host_now h \<le> host_stamp v (key_SessionID m)"
proof -
  let ?c = "mh_calls h (mh_tick h)" and ?s = "mh_store h"
  obtain s where s: "store_Append ?c m base es rs ?s = (None, s)" "mh_store v = s"
    using assms(2) by (auto simp: battery_store_def host_call_def split: prod.splits)
  have "key_SessionID m \<notin> ms_deleted ?s" using assms(3) phase_gone[of ?s] by force
  with Append_decided[OF s(1)] obtain old where "s = appended ?c (key_SessionID m) es rs old ?s" by blast
  then show ?thesis by (simp add: host_stamp_def s(2) appended_def update_conv' host_now_def)
qed

lemma battery_delete:
  assumes "battery_valid h"
  shows "\<exists>v. hs_Delete battery_store k h = (None, v) \<and> battery_valid v \<and>
    host_phase v = (host_phase h)(key_SessionID k := erased k (host_phase h (key_SessionID k)))"
proof -
  let ?c = "mh_calls h (mh_tick h)" and ?s = "mh_store h"
  have c: "cl_Err ?c = None" using live_call[OF assms] by auto
  have s: "store_wf ?s" "stamped (host_now h) (ms_sessions ?s)" using assms by (auto simp: battery_valid_def)
  have r: "store_Delete ?c k ?s = (None, snd (store_Delete ?c k ?s))" using Delete_answer[OF c] by (metis prod.collapse)
  from host_answers[OF assms, of "\<lambda>c. store_Delete c k", OF r _ Delete_stamped[OF s(2)]] Delete_phase[OF s(1) r] show ?thesis
    by (auto simp: battery_store_def)
qed

lemma battery_list:
  assumes "battery_valid h"
  shows "\<exists>ms v. hs_List battery_store h = (Inr ms, v) \<and> battery_valid v \<and> host_phase v = host_phase h \<and> host_now h \<le> host_now v \<and>
    listing_of (host_phase h) (host_stamp h) ms"
proof -
  let ?c = "mh_calls h (mh_tick h)" and ?s = "mh_store h"
  have s: "store_wf ?s" "stamped (host_now h) (ms_sessions ?s)" "steady (mh_calls h)" using assms by (auto simp: battery_valid_def)
  from List_answer[OF s(1), of ?c] live_call[OF assms] obtain ms where
    ms: "store_ListSessions ?c ?s = Inr ms" "listing_of (host_phase h) (host_stamp h) ms"
    unfolding host_stamp_def[abs_def] by auto
  have "(store_ListSessions ?c ?s, ?s) = (Inr ms, ?s)" using ms(1) by simp
  from host_answers[OF assms, of "\<lambda>c s. (store_ListSessions c s, s)", OF this s(1,2)] s(3) ms(2) show ?thesis
    by (auto simp: battery_store_def host_now_def steady_def)
qed

interpretation battery: strict_store battery_store battery_valid host_phase host_stamp host_now
proof
  fix w v :: memory_host and i m k rs base es g
  assume w: "battery_valid w"
  show "\<exists>v. hs_Load battery_store i w = (Inr (readable (host_phase w i)), v) \<and> battery_valid v \<and> host_phase v = host_phase w"
  proof -
    have s: "store_wf (mh_store w)" "stamped (host_now w) (ms_sessions (mh_store w))" using w by (auto simp: battery_valid_def)
    have "(store_Load (mh_calls w (mh_tick w)) i (mh_store w), mh_store w) = (Inr (readable (host_phase w i)), mh_store w)"
      using Load_decided[OF s(1)] live_call[OF w] by simp
    from host_answers[OF w, of "\<lambda>c s. (store_Load c i s, s)", OF this s] show ?thesis by (auto simp: battery_store_def)
  qed
  show "battery_valid (hs_Sleep battery_store w) \<and> host_phase (hs_Sleep battery_store w) = host_phase w \<and>
      host_now w < host_now (hs_Sleep battery_store w)"
    using w stamped_later[of "host_now w" _ "host_now w + 5"]
    by (auto simp: battery_store_def battery_valid_def steady_def host_now_def add_pos_nonneg)
  show "0 < host_stamp w i \<and> host_stamp w i \<le> host_now w" if "host_phase w i = Live g"
    using that w stamped_lookup by (fastforce simp: battery_valid_def host_stamp_def memory_phase_def split: if_splits option.splits)
qed (rule battery_replace battery_append battery_append_stamps battery_delete battery_list; assumption)+



text \<open>The battery refuses no store that keeps the contract.\<close>

theorem contract_passes_battery:
  assumes "strict_store store valid phase stamp clock" and "valid w" and "phase w = (\<lambda>i. Missing)"
  shows "battery_Run generations appends store w"
  by (rule strict_store.battery_passes[OF assms])

end
