(* ===== verification/Spec2Isabelle.thy ===== *)
theory Spec2Isabelle
  imports ReducerProps EmitProps NegotiationProps Attribution PublisherProps Hydration Environment Openings Sessions StreamingProps Titles AccountUsage ImageProps SeedProps LaunchProps ReaderProps ConformanceProps
begin

text \<open>
  A verification development of acp-go-core, the Go module that adapters of coding harnesses share to speak the
  Agent Client Protocol: it frames the protocol's transport, proves and consumes the lifecycle streams of a
  session, keeps a session's native log durable in a host's store, builds and supervises the harness process,
  gates images, and reads account usage.  Paths below are under \<open>src/\<close>.

  \<^bold>\<open>Conventions.\<close>  A Go string is a byte string (\<open>string\<close>), a nil pointer or absent member \<open>None\<close>, a struct a
  record, a map a partial function or an association list with distinct keys, an \<open>error\<close> a value of a
  datatype, and a panic \<open>None\<close> of the result; \<open>uint64\<close> counters are words, so they wrap.  A raw JSON message is
  a document of \<open>Json\<close>, which keeps duplicate members and the texts of numbers.  What the sources do not contain is
  a parameter: calls of the operating system and of a host's store act on a world \<open>'w\<close> and may fail; the text
  \<open>encoding/json\<close> writes, random text, the clock, the Unicode tables beyond ASCII and the parser of network
  addresses are arguments.  What is relied on of a parameter is a locale (\<open>session_store\<close>, \<open>native_source\<close>, \<open>mirrored\<close>,
  \<open>seed_root\<close>, \<open>descriptors\<close>, ...), interpreted on the model's own store and logs, or on a disk and a table of descriptors
  with injected faults where the provider is the operating system.  The standard library that decides
  outcomes is implemented: SHA-256, base64, UTF-8, RFC 3339, the JSON well-formedness walk, paths, number parsing.
  Concurrency is explicit: an operation under a mutex is one step; where goroutines interleave (\<open>Openings\<close>, \<open>Launch\<close>)
  the steps are a relation or a list of events, and the theorems hold for every order.

  \<^bold>\<open>Lifecycle (\<open>lifecycle/\<close>).\<close>
  \<open>Vocabulary\<close> (vocabulary.go, violation.go), \<open>Events\<close> (event.go, state.go) and \<open>Values\<close> (value.go, with \<open>Sha256\<close>)
  are the data: tokens, events, the projection \<open>State\<close>, value equality and the digest of a frame.
  \<open>Reducer\<close> (reducer.go, reducer\_apply.go) is the state machine from deliveries to the projection: \<open>Reduce\<close> orders a
  delivery (first, duplicate, foreign stream, successor), the five \<open>apply\<close> handlers judge it, and a refusal is
  latched.  \<open>ReducerFrame\<close> shows what refusals and acceptances leave alone, \<open>ReducerInv\<close>, \<open>Handlers\<close> and \<open>Opening\<close> that
  \<open>projection_ok\<close> is kept, \<open>Reduction\<close> the invariant of every reachable reducer by rule induction, \<open>Streams\<close> what holds
  over whole streams (records evolve, frames are kept, retired streams stay retired); \<open>ReducerProps\<close> states the
  promises at the session of \<open>Runs\<close>.
  \<open>Decode\<close> (decode.go) is the strict decoder as a state monad; \<open>Emit\<close> (emit.go) renders and judges its own events;
  \<open>Emitters\<close> and \<open>EmitProps\<close> prove the round trip and that a consumer of the envelopes reaches the
  emitter's reducer.  \<open>Negotiation\<close> (negotiation.go, capability.go, wire\_metadata.go) and \<open>Attribution\<close>
  (attribution.go) judge requests and notifications.  \<open>Publisher\<close> (publisher.go, incarnation.go) states events for
  a host; \<open>Protocol\<close> and \<open>Conversation\<close> relate it to the reducer that judges it and \<open>PublisherProps\<close> shows that a
  host that follows the protocol is always served and that nothing panics.

  \<^bold>\<open>Durable sessions (\<open>store.go\<close>, \<open>sessionlog/\<close>).\<close>
  \<open>Store\<close> is the store in memory and the contract every store owes (\<open>session_store\<close>); \<open>StoreProps\<close> its refinement and
  that deletion is final.  \<open>Jsonl\<close> (jsonl.go, over \<open>Bytes\<close>) reads, cuts and writes append-only native logs;
  \<open>JsonlProps\<close> shows that reading in pieces is reading at once and that a cut loses no record.  \<open>Records\<close> (record.go) and
  \<open>Mirror\<close> (mirror.go) keep a session's rows in the store; \<open>MirrorProps\<close> and \<open>Hydration\<close> show that a commit
  publishes the native history or changes nothing, recovers from a failed append, and that hydration
  reconciles store, mirror and file.
  \<open>Conformance\<close> (storetest/) is the battery a host's store is run against, over any interleaving of its concurrent cases;
  \<open>ConformanceProps\<close> shows that it refuses no store that keeps the contract and that the store in memory passes.

  \<^bold>\<open>The wire (\<open>wire/\<close>).\<close>
  \<open>Transport\<close> (transport.go, actions.go) frames input and output and binds requests; \<open>TransportProps\<close> shows that observed
  frames are the output's lines, \<open>Openings\<close> that a session's opening publications follow their own responses, over all
  interleavings.  \<open>Refusals\<close> (errors.go) and \<open>Options\<close> (options.go, session\_meta.go, reserved.go, callusage.go, catalog.go,
  lifecycle.go, requests.go) are the uniform errors and the request metadata; \<open>Sessions\<close> (sessions.go, with
  \<open>Rfc3339\<close>) the gates and the pages of a listing; \<open>Streaming\<close> and \<open>StreamingProps\<close> (streamed\_text.go, line\_reader.go,
  rawevents.go, compaction.go) what a session streams; \<open>Titles\<close> (session\_text.go, over \<open>Utf8\<close>) its texts;
  \<open>AccountUsage\<close> (accountusage.go, accountusage\_amounts.go, usage/usage.go, verified.go) the contract of a usage response.

  \<^bold>\<open>Usage readers (\<open>usage/\<close>).\<close>
  \<open>Structs\<close> decodes a document into the structs the readers declare, as \<open>encoding/json\<close> does, and rounds decimals to floats;
  \<open>Readers\<close> (internal/usagehttp, anthropic, openrouter, openaicodex, opencodego) and \<open>Gateway\<close> (gateway/reader.go) read an
  account over any HTTP transport; \<open>ReaderProps\<close> shows that what they publish keeps the contract and that a bearer goes only
  to its own route.

  \<^bold>\<open>Images (\<open>image/\<close>).\<close>
  \<open>Rasters\<close> (raster.go) walks the headers of PNG, JPEG, GIF and WebP, \<open>RasterProps\<close> shows that it stays inside the data and
  what it decides; \<open>Images\<close> (limits.go, errors.go), \<open>Payloads\<close> (base64 and JSON texts), \<open>Urls\<close> (URLs and paths), \<open>Handoffs\<close>
  (handoff.go), \<open>ImageInput\<close> (input.go) and \<open>ImageOutput\<close> (output.go) are the gates, and \<open>ImageProps\<close> what passes them.

  \<^bold>\<open>Processes (\<open>process/\<close>).\<close>
  \<open>Environment\<close> (environment.go) layers a child's environment and finds its executable.  \<open>Seeds\<close> (seed.go) writes
  managed files into a home; \<open>SeedProps\<close> shows that wherever a write is cut short only files the manifest lists have
  changed.  \<open>Launch\<close> (launch.go, scratch.go, filelock.go, signals.go, wire/transport\_failure.go) starts, reaps and stops the
  harness; \<open>LaunchProps\<close> shows that no descriptor is kept, that a shutdown escalates, and that the reason a
  harness died with reaches the client.

  \<^bold>\<open>Recursion.\<close>  Every definition is total.  Loops over data recurse on the list or on a measure (the bytes left, the
  size of a path).  The JSON recognizer of \<open>Bytes\<close> has fuel, twice the length of the text and three more, and
  \<open>json_fuel_irrelevant\<close> shows that more decides nothing; following the cursors of a listing has fuel, and
  \<open>following_cursors_lists_all\<close> shows how much reaches the end.  A theorem never assumes that a run ended.

  \<^bold>\<open>Not modelled.\<close>  The observer (observer/), which forwards to OpenTelemetry, a third-party library; the
  three cases of the store battery about a caller that changes bytes it shares with the store; fixtures.go and doc.go.  The SDK's
  connection and the operating system are parameters; durations are whether a wait timed out.
\<close>

end
